(* ===== verification/Go_Prelude.thy ===== *)
theory Go_Prelude
  imports Main "HOL-Library.Word" "HOL-Library.Sublist" "HOL-Library.Char_ord"
    "HOL-Library.List_Lexorder" "HOL-Library.Multiset"
begin

text \<open>
  Shared vocabulary of the development.

  A Go string is a sequence of bytes; it is modelled by \<^typ>\<open>string\<close>, whose characters are
  the 256 byte values.  This theory holds the string functions of the Go standard library that
  the sources call (\<open>strings.TrimSpace\<close>, \<open>strings.Contains\<close>, \<open>strings.Join\<close>, \<open>strconv.Atoi\<close>,
  \<open>hex.EncodeToString\<close>, \<open>fmt\<close> verb \<open>%d\<close> and so on), the generic operations on database rows that
  the persistence layer is written with, and the lemmas about them that the component theories
  share.
\<close>

named_theorems go_simps \<open>unfoldings of Go library functions\<close>
named_theorems row_simps \<open>laws of the row operations of the persistence layer\<close>

section \<open>Characters and ASCII case\<close>

definition byte :: "char \<Rightarrow> nat" where
  "byte c = of_char c"

definition is_ascii :: "string \<Rightarrow> bool" where
  "is_ascii s = list_all (\<lambda>c. byte c < 128) s"

definition ascii_lower :: "char \<Rightarrow> char" where
  "ascii_lower c = (if 65 \<le> byte c \<and> byte c \<le> 90 then char_of (byte c + 32) else c)"

definition ascii_upper :: "char \<Rightarrow> char" where
  "ascii_upper c = (if 97 \<le> byte c \<and> byte c \<le> 122 then char_of (byte c - 32) else c)"

text \<open>
  \<open>strings.ToLower\<close> and \<open>strings.ToUpper\<close> map an ASCII string byte by byte; any other string
  goes through the Unicode case tables of the Go release, which are the parameter \<open>uni\<close>.
\<close>

definition ToLower :: "(string \<Rightarrow> string) \<Rightarrow> string \<Rightarrow> string" where
  "ToLower uni s = (if is_ascii s then map ascii_lower s else uni s)"

definition ToUpper :: "(string \<Rightarrow> string) \<Rightarrow> string \<Rightarrow> string" where
  "ToUpper uni s = (if is_ascii s then map ascii_upper s else uni s)"

section \<open>Substrings\<close>

definition HasPrefix :: "string \<Rightarrow> string \<Rightarrow> bool" where
  "HasPrefix s p = prefix p s"

definition HasSuffix :: "string \<Rightarrow> string \<Rightarrow> bool" where
  "HasSuffix s p = suffix p s"

definition TrimPrefix :: "string \<Rightarrow> string \<Rightarrow> string" where
  "TrimPrefix s p = (if prefix p s then drop (length p) s else s)"

fun Contains :: "string \<Rightarrow> string \<Rightarrow> bool" where
  "Contains [] sub = (sub = [])"
| "Contains (c # s) sub = (prefix sub (c # s) \<or> Contains s sub)"

definition ContainsAny :: "string \<Rightarrow> string \<Rightarrow> bool" where
  "ContainsAny s chars = list_ex (\<lambda>c. c \<in> set chars) s"

text \<open>\<open>strings.Count\<close> with a non-empty substring: matches do not overlap.\<close>

function Count :: "string \<Rightarrow> string \<Rightarrow> nat" where
  "Count s sub =
     (if sub = [] \<or> s = [] then 0
      else if prefix sub s then Suc (Count (drop (length sub) s) sub)
      else Count (tl s) sub)"
  by pat_completeness auto
termination
  by (relation "measure (\<lambda>(s, sub). length s)") auto

declare Count.simps [simp del]

text \<open>\<open>strings.LastIndex(s, c)\<close> for a single byte, used as the text after the last occurrence.\<close>

definition after_last :: "char \<Rightarrow> string \<Rightarrow> string option" where
  "after_last c s = (if c \<in> set s then Some (rev (takeWhile (\<lambda>x. x \<noteq> c) (rev s))) else None)"

fun join :: "string \<Rightarrow> string list \<Rightarrow> string" where
  "join sep [] = []"
| "join sep [x] = x"
| "join sep (x # y # xs) = x @ sep @ join sep (y # xs)"

text \<open>\<open>strings.Split\<close> with a one-byte separator: always at least one piece.\<close>

fun split_on :: "char \<Rightarrow> string \<Rightarrow> string list" where
  "split_on c [] = [[]]"
| "split_on c (x # xs) =
     (if x = c then [] # split_on c xs
      else (case split_on c xs of [] \<Rightarrow> [[x]] | p # ps \<Rightarrow> (x # p) # ps))"

lemma split_on_not_Nil [simp]: "split_on c s \<noteq> []"
  by (induction s) (simp_all split: list.split)

lemma split_on_sep: "split_on c (u @ c # r) = split_on c u @ split_on c r"
  by (induction u) (auto split: list.splits)

lemma split_on_free: "c \<notin> set u \<Longrightarrow> split_on c u = [u]"
  by (induction u) auto

section \<open>White space\<close>

text \<open>
  The UTF-8 encodings of the runes for which \<open>unicode.IsSpace\<close> holds.  None is a proper prefix
  or suffix of another, so stripping encodings is what \<open>strings.TrimSpace\<close> does rune by rune.
\<close>

definition utf8 :: "nat list \<Rightarrow> string" where
  "utf8 bs = map char_of bs"

definition space_runes :: "string list" where
  "space_runes = map utf8
     ([[9], [10], [11], [12], [13], [32], [0xC2, 0x85], [0xC2, 0xA0], [0xE1, 0x9A, 0x80]]
      @ map (\<lambda>b. [0xE2, 0x80, b]) [0x80, 0x81, 0x82, 0x83, 0x84, 0x85, 0x86, 0x87, 0x88, 0x89, 0x8A]
      @ [[0xE2, 0x80, 0xA8], [0xE2, 0x80, 0xA9], [0xE2, 0x80, 0xAF], [0xE2, 0x81, 0x9F],
         [0xE3, 0x80, 0x80]])"

lemma find_SomeD: "find P xs = Some x \<Longrightarrow> x \<in> set xs \<and> P x"
  by (induction xs) (auto split: if_splits)

lemma strip_decreases:
  assumes "find (\<lambda>p. p \<noteq> [] \<and> prefix p s) pats = Some p"
  shows "length s - length p < length s"
proof -
  from find_SomeD [OF assms] have "0 < length p" "length p \<le> length s"
    by (auto dest: prefix_length_le)
  then show ?thesis by linarith
qed

function strip :: "string list \<Rightarrow> string \<Rightarrow> string" where
  "strip pats s =
     (case find (\<lambda>p. p \<noteq> [] \<and> prefix p s) pats of
        None \<Rightarrow> s
      | Some p \<Rightarrow> strip pats (drop (length p) s))"
  by pat_completeness auto
termination
  by (relation "measure (\<lambda>(pats, s). length s)")
     (auto dest: strip_decreases)

declare strip.simps [simp del]

definition TrimSpace :: "string \<Rightarrow> string" where
  "TrimSpace s = rev (strip (map rev space_runes) (rev (strip space_runes s)))"

text \<open>\<open>strings.Trim(s, cutset)\<close> for an ASCII cutset.\<close>

definition Trim :: "string \<Rightarrow> string \<Rightarrow> string" where
  "Trim cs s = rev (dropWhile (\<lambda>c. c \<in> set cs) (rev (dropWhile (\<lambda>c. c \<in> set cs) s)))"

section \<open>Numbers as text\<close>

definition digit :: "nat \<Rightarrow> char" where
  "digit d = char_of (48 + d)"

fun dec :: "nat \<Rightarrow> string" where
  "dec n = (if n < 10 then [digit n] else dec (n div 10) @ [digit (n mod 10)])"

declare dec.simps [simp del]

text \<open>The \<open>%d\<close> verb.\<close>

definition fmt_d :: "int \<Rightarrow> string" where
  "fmt_d i = (if i < 0 then CHR ''-'' # dec (nat (- i)) else dec (nat i))"

text \<open>The \<open>%v\<close> verb on a Boolean.\<close>

definition bool_text :: "bool \<Rightarrow> string" where
  "bool_text b = (if b then ''true'' else ''false'')"

definition hex_digit :: "nat \<Rightarrow> char" where
  "hex_digit d = (if d < 10 then char_of (48 + d) else char_of (87 + d))"

text \<open>\<open>hex.EncodeToString\<close> and the \<open>%x\<close> verb on bytes.\<close>

definition hex :: "string \<Rightarrow> string" where
  "hex s = concat (map (\<lambda>c. [hex_digit (byte c div 16), hex_digit (byte c mod 16)]) s)"

text \<open>
  \<open>strconv.Atoi\<close> on a 64-bit platform: the value and whether the error is nil.  A syntax error
  gives 0, a range error the nearest representable value.
\<close>

definition is_digit :: "char \<Rightarrow> bool" where
  "is_digit c = (48 \<le> byte c \<and> byte c \<le> 57)"

definition digits_val :: "string \<Rightarrow> nat" where
  "digits_val s = foldl (\<lambda>n c. 10 * n + (byte c - 48)) 0 s"

definition max_int64 :: int where "max_int64 = 9223372036854775807"

definition Atoi :: "string \<Rightarrow> int \<times> bool" where
  "Atoi s =
     (let neg = (s \<noteq> [] \<and> hd s = CHR ''-'');
          ds = (if s \<noteq> [] \<and> hd s \<in> {CHR ''-'', CHR ''+''} then tl s else s);
          n = int (digits_val ds)
      in if ds = [] \<or> \<not> list_all is_digit ds then (0, False)
         else if neg then (if n > max_int64 + 1 then (- max_int64 - 1, False) else (- n, True))
         else if n > max_int64 then (max_int64, False) else (n, True))"

section \<open>Database rows\<close>

text \<open>
  A table is the list of its rows in insertion order.  \<open>UPDATE \<dots> WHERE P\<close> is \<open>upd_where P\<close>,
  \<open>DELETE \<dots> WHERE P\<close> is \<open>del_where P\<close>, a single-row \<open>SELECT\<close> is \<open>List.find\<close>, and the number
  of affected rows is zero exactly when \<open>no_row P\<close> holds.
\<close>

definition upd_where :: "('a \<Rightarrow> bool) \<Rightarrow> ('a \<Rightarrow> 'a) \<Rightarrow> 'a list \<Rightarrow> 'a list" where
  "upd_where P f rows = map (\<lambda>r. if P r then f r else r) rows"

definition del_where :: "('a \<Rightarrow> bool) \<Rightarrow> 'a list \<Rightarrow> 'a list" where
  "del_where P rows = filter (\<lambda>r. \<not> P r) rows"

definition no_row :: "('a \<Rightarrow> bool) \<Rightarrow> 'a list \<Rightarrow> bool" where
  "no_row P rows = (\<not> list_ex P rows)"


section \<open>Laws of the row operations\<close>

lemma upd_where_Nil [row_simps, simp]: "upd_where P f [] = []"
  by (simp add: upd_where_def)

lemma upd_where_Cons [row_simps, simp]:
  "upd_where P f (r # rs) = (if P r then f r else r) # upd_where P f rs"
  by (simp add: upd_where_def)

lemma length_upd_where [row_simps, simp]: "length (upd_where P f rs) = length rs"
  by (simp add: upd_where_def)

lemma upd_where_append [row_simps]: "upd_where P f (xs @ ys) = upd_where P f xs @ upd_where P f ys"
  by (simp add: upd_where_def)

lemma set_upd_where: "set (upd_where P f rs) = (\<lambda>r. if P r then f r else r) ` set rs"
  by (simp add: upd_where_def)

lemma in_upd_whereE:
  assumes "r \<in> set (upd_where P f rs)"
  obtains (upd) r0 where "r0 \<in> set rs" "P r0" "r = f r0"
        | (same) "r \<in> set rs" "\<not> P r"
  using assms by (auto simp: set_upd_where split: if_splits)

lemma upd_where_id [row_simps]: "no_row P rs \<Longrightarrow> upd_where P f rs = rs"
  by (induction rs) (auto simp: no_row_def)

lemma map_upd_where_same [row_simps]:
  "(\<And>r. g (f r) = g r) \<Longrightarrow> map g (upd_where P f rs) = map g rs"
  by (induction rs) auto

lemma image_upd_where_same:
  "(\<And>r. g (f r) = g r) \<Longrightarrow> g ` set (upd_where P f rs) = g ` set rs"
  using map_upd_where_same [of g f P rs] by (metis set_map)

lemma find_upd_where_other:
  "(\<And>r. P r \<Longrightarrow> \<not> Q r) \<Longrightarrow> (\<And>r. P r \<Longrightarrow> \<not> Q (f r)) \<Longrightarrow> find Q (upd_where P f rs) = find Q rs"
  by (induction rs) auto

lemma find_upd_where_same:
  "(\<And>r. P r \<Longrightarrow> Q (f r) = Q r) \<Longrightarrow>
   find Q (upd_where P f rs) = map_option (\<lambda>r. if P r then f r else r) (find Q rs)"
  by (induction rs) auto

lemma find_None_no_row: "(find P xs = None) = no_row P xs"
  by (induction xs) (auto simp: no_row_def)

lemma find_append: "find P (xs @ ys) = (case find P xs of None \<Rightarrow> find P ys | Some x \<Rightarrow> Some x)"
  by (induction xs) auto

lemma no_row_iff [row_simps]: "no_row P rs = (\<forall>r\<in>set rs. \<not> P r)"
  by (auto simp: no_row_def list_ex_iff)

lemma set_del_where [row_simps, simp]: "set (del_where P rs) = {r \<in> set rs. \<not> P r}"
  by (auto simp: del_where_def)

lemma find_del_where [row_simps]: "find Q (del_where P rs) = find (\<lambda>r. Q r \<and> \<not> P r) rs"
  by (induction rs) (auto simp: del_where_def)

lemma distinct_map_del_where: "distinct (map g rs) \<Longrightarrow> distinct (map g (del_where P rs))"
  by (simp add: del_where_def distinct_map_filter)

text \<open>With unique keys, the row found by key is any row with that key.\<close>

lemma find_unique_key:
  assumes "distinct (map k rs)" "r \<in> set rs"
  shows "find (\<lambda>x. k x = k r) rs = Some r"
  using assms by (induction rs) force+

lemma unique_key_eq: "distinct (map k rs) \<Longrightarrow> a \<in> set rs \<Longrightarrow> b \<in> set rs \<Longrightarrow> k a = k b \<Longrightarrow> a = b"
  by (metis find_unique_key option.inject)

section \<open>Laws of numbers as text\<close>

lemma byte_less [simp]: "byte c < 256"
  by (simp add: byte_def)

lemma byte_char_of [simp]: "n < 256 \<Longrightarrow> byte (char_of n) = n"
  by (simp add: byte_def)

lemma byte_inj: "byte a = byte b \<Longrightarrow> a = b"
  by (simp add: byte_def)

lemma byte_digit: "d < 10 \<Longrightarrow> byte (digit d) = 48 + d"
  by (simp add: digit_def)

lemma set_dec: "c \<in> set (dec n) \<Longrightarrow> is_digit c"
proof (induction n rule: dec.induct)
  case (1 n)
  show ?case
  proof (cases "n < 10")
    case True
    with "1.prems" show ?thesis by (simp add: dec.simps [of n] is_digit_def byte_digit)
  next
    case False
    with "1.prems" have "c \<in> set (dec (n div 10)) \<or> c = digit (n mod 10)"
      by (auto simp: dec.simps [of n])
    with "1.IH" False show ?thesis by (auto simp: is_digit_def byte_digit)
  qed
qed

lemma digits_val_snoc: "digits_val (s @ [c]) = 10 * digits_val s + (byte c - 48)"
  by (simp add: digits_val_def)

lemma digits_val_dec: "digits_val (dec n) = n"
proof (induction n rule: dec.induct)
  case (1 n)
  show ?case
  proof (cases "n < 10")
    case True
    then show ?thesis by (simp add: dec.simps [of n] digits_val_def byte_digit)
  next
    case False
    with "1.IH" have "digits_val (dec (n div 10)) = n div 10" by simp
    with False show ?thesis
      by (simp add: dec.simps [of n] digits_val_snoc byte_digit)
  qed
qed

lemma dec_inj: "dec m = dec n \<Longrightarrow> m = n"
  by (metis digits_val_dec)

lemma dec_not_Nil [simp]: "dec n \<noteq> []"
  by (subst dec.simps) simp

lemma dec_no_minus: "CHR ''-'' \<notin> set (dec n)"
  using set_dec by (fastforce simp: is_digit_def byte_def)

lemma fmt_d_inj: "fmt_d i = fmt_d j \<Longrightarrow> i = j"
proof -
  assume eq: "fmt_d i = fmt_d j"
  have hd: "hd (dec n) \<noteq> CHR ''-''" for n
    using dec_no_minus [of n] hd_in_set [OF dec_not_Nil [of n]] by metis
  show "i = j"
  proof (cases "i < 0"; cases "j < 0")
    assume "i < 0" "j < 0"
    with eq show ?thesis by (auto simp: fmt_d_def dest: dec_inj)
  next
    assume "i < 0" "\<not> j < 0"
    with eq hd [of "nat j"] show ?thesis by (metis fmt_d_def list.sel(1))
  next
    assume "\<not> i < 0" "j < 0"
    with eq hd [of "nat i"] show ?thesis by (metis fmt_d_def list.sel(1))
  next
    assume "\<not> i < 0" "\<not> j < 0"
    with eq show ?thesis by (auto simp: fmt_d_def dest: dec_inj)
  qed
qed

text \<open>Decimal text reads back as the number it was written from.\<close>

lemma Atoi_fmt_d:
  assumes "- max_int64 - 1 \<le> i" "i \<le> max_int64"
  shows "Atoi (fmt_d i) = (i, True)"
proof -
  have digs: "list_all is_digit (dec n)" for n
    by (auto simp: list_all_iff dest: set_dec)
  have dig: "is_digit (hd (dec n))" for n
    using set_dec [OF hd_in_set [OF dec_not_Nil [of n]]] .
  have no: "\<not> is_digit (CHR ''-'')" "\<not> is_digit (CHR ''+'')"
    by (simp_all add: is_digit_def byte_def)
  have hd: "hd (dec n) \<noteq> CHR ''-''" "hd (dec n) \<noteq> CHR ''+''" for n
    using dig [of n] no by metis+
  show ?thesis
  proof (cases "i < 0")
    case True
    with assms digs [of "nat (- i)"] show ?thesis
      by (simp add: Atoi_def fmt_d_def Let_def digits_val_dec)
  next
    case False
    with assms digs [of "nat i"] hd [of "nat i"] show ?thesis
      by (simp add: Atoi_def fmt_d_def Let_def digits_val_dec)
  qed
qed

lemma hex_digit_inj: "a < 16 \<Longrightarrow> b < 16 \<Longrightarrow> hex_digit a = hex_digit b \<Longrightarrow> a = b"
proof -
  assume a: "a < 16" and b: "b < 16" and eq: "hex_digit a = hex_digit b"
  have v: "d < 16 \<Longrightarrow> byte (hex_digit d) = (if d < 10 then 48 + d else 87 + d)" for d
    by (simp add: hex_digit_def)
  have "(if a < 10 then 48 + a else 87 + a) = (if b < 10 then 48 + b else 87 + b)"
    unfolding v [OF a, symmetric] v [OF b, symmetric] eq ..
  with a b show "a = b" by (simp split: if_splits)
qed

lemma hex_Nil [simp]: "hex [] = []"
  by (simp add: hex_def)

lemma hex_Cons: "hex (c # s) = hex_digit (byte c div 16) # hex_digit (byte c mod 16) # hex s"
  by (simp add: hex_def)

lemma byte_div16 [simp]: "byte c div 16 < 16"
  using byte_less [of c] by arith

lemma hex_inj: "hex a = hex b \<Longrightarrow> a = b"
proof (induction a arbitrary: b)
  case Nil
  then show ?case by (cases b) (auto simp: hex_Cons)
next
  case (Cons x a)
  then obtain y b' where b: "b = y # b'" by (cases b) (auto simp: hex_Cons)
  with Cons.prems have "byte x div 16 = byte y div 16" "byte x mod 16 = byte y mod 16" "hex a = hex b'"
    by (auto simp: hex_Cons intro: hex_digit_inj)
  then have "byte x = byte y" by (metis mult_div_mod_eq)
  with b Cons.IH \<open>hex a = hex b'\<close> show ?case by (simp add: byte_inj)
qed

section \<open>Lines\<close>

text \<open>A field is line-safe when it holds no line feed; line-safe fields can be read back.\<close>

definition line_safe :: "string \<Rightarrow> bool" where
  "line_safe s = (CHR 0x0A \<notin> set s)"

lemma line_safe_append [simp]: "line_safe (a @ b) = (line_safe a \<and> line_safe b)"
  by (auto simp: line_safe_def)

lemma line_safe_Nil [simp]: "line_safe []"
  by (simp add: line_safe_def)

lemma line_safe_digits: "(\<And>c. c \<in> set s \<Longrightarrow> is_digit c) \<Longrightarrow> line_safe s"
  by (fastforce simp: line_safe_def is_digit_def byte_def)

lemma line_safe_dec [simp]: "line_safe (dec n)"
  by (rule line_safe_digits) (rule set_dec)

lemma line_safe_fmt_d [simp]: "line_safe (fmt_d i)"
  using line_safe_dec by (auto simp: fmt_d_def line_safe_def)

lemma line_safe_hex [simp]: "line_safe (hex s)"
proof -
  have "d < 16 \<Longrightarrow> hex_digit d \<noteq> CHR 0x0A" for d
    using byte_char_of [of "48 + d"] byte_char_of [of "87 + d"]
    by (auto simp: hex_digit_def byte_def dest: arg_cong [where f = byte])
  then have "CHR 0x0A \<noteq> hex_digit (byte c div 16)" "CHR 0x0A \<noteq> hex_digit (byte c mod 16)" for c
    by (metis byte_div16, metis mod_less_divisor zero_less_numeral)
  then show ?thesis
    by (induction s) (simp_all add: hex_Cons line_safe_def)
qed

lemma line_split:
  assumes "line_safe a" "line_safe b" "a @ CHR 0x0A # r = b @ CHR 0x0A # r'"
  shows "a = b \<and> r = r'"
  using assms
proof (induction a arbitrary: b)
  case Nil
  then show ?case by (cases b) (auto simp: line_safe_def)
next
  case (Cons x a)
  then show ?case by (cases b) (auto simp: line_safe_def)
qed

lemma line_safe_join:
  "line_safe sep \<Longrightarrow> (\<And>x. x \<in> set xs \<Longrightarrow> line_safe x) \<Longrightarrow> line_safe (join sep xs)"
  by (induction sep xs rule: join.induct) auto

text \<open>The encodings as literals, for evaluation.\<close>

lemma space_runes_eval [code]:
  "space_runes =
     [[CHR 0x09], [CHR 0x0A], [CHR 0x0B], [CHR 0x0C], [CHR 0x0D], [CHR 0x20], [CHR 0xC2, CHR 0x85],
      [CHR 0xC2, CHR 0xA0], [CHR 0xE1, CHR 0x9A, CHR 0x80],
      [CHR 0xE2, CHR 0x80, CHR 0x80], [CHR 0xE2, CHR 0x80, CHR 0x81], [CHR 0xE2, CHR 0x80, CHR 0x82],
      [CHR 0xE2, CHR 0x80, CHR 0x83], [CHR 0xE2, CHR 0x80, CHR 0x84], [CHR 0xE2, CHR 0x80, CHR 0x85],
      [CHR 0xE2, CHR 0x80, CHR 0x86], [CHR 0xE2, CHR 0x80, CHR 0x87], [CHR 0xE2, CHR 0x80, CHR 0x88],
      [CHR 0xE2, CHR 0x80, CHR 0x89], [CHR 0xE2, CHR 0x80, CHR 0x8A],
      [CHR 0xE2, CHR 0x80, CHR 0xA8], [CHR 0xE2, CHR 0x80, CHR 0xA9], [CHR 0xE2, CHR 0x80, CHR 0xAF],
      [CHR 0xE2, CHR 0x81, CHR 0x9F], [CHR 0xE3, CHR 0x80, CHR 0x80]]"
  by code_simp

section \<open>Trimming text that has nothing to trim\<close>

definition graphic :: "char \<Rightarrow> bool" where
  "graphic c = (33 \<le> byte c \<and> byte c \<le> 127)"

lemma graphic_space_runes:
  "list_all (\<lambda>p. p \<noteq> [] \<and> \<not> graphic (hd p) \<and> \<not> graphic (last p)) space_runes"
  by (simp add: space_runes_def utf8_def graphic_def byte_def)

lemma strip_graphic:
  assumes "\<And>p. p \<in> set pats \<Longrightarrow> p \<noteq> [] \<Longrightarrow> \<not> graphic (hd p)" and "s = [] \<or> graphic (hd s)"
  shows "strip pats s = s"
proof -
  have "find (\<lambda>p. p \<noteq> [] \<and> prefix p s) pats = None"
    using assms by (cases s) (force simp: find_None_iff prefix_Cons)+
  then show ?thesis by (simp add: strip.simps)
qed

lemma TrimSpace_graphic:
  assumes "s = [] \<or> graphic (hd s) \<and> graphic (last s)"
  shows "TrimSpace s = s"
proof -
  have 1: "p \<in> set space_runes \<Longrightarrow> p \<noteq> [] \<Longrightarrow> \<not> graphic (hd p)" for p
    using graphic_space_runes by (auto simp: list_all_iff)
  have 2: "p \<in> set space_runes \<Longrightarrow> \<not> graphic (last p)" for p
    using graphic_space_runes by (auto simp: list_all_iff)
  have "strip space_runes s = s"
    using assms by (intro strip_graphic) (auto dest: 1)
  moreover have "strip (map rev space_runes) (rev s) = rev s"
    using assms by (intro strip_graphic) (auto dest: 2 simp: hd_rev)
  ultimately show ?thesis by (simp add: TrimSpace_def)
qed

lemma TrimSpace_Nil [simp]: "TrimSpace [] = []"
  by (simp add: TrimSpace_graphic)

section \<open>64-bit signed arithmetic and time\<close>

text \<open>The value of an \<open>int64\<close> expression whose exact result is \<open>i\<close>.\<close>

definition wrap64 :: "int \<Rightarrow> int" where
  "wrap64 i = (i + 2 ^ 63) mod 2 ^ 64 - 2 ^ 63"

lemma wrap64_id: "- (2 ^ 63) \<le> i \<Longrightarrow> i < 2 ^ 63 \<Longrightarrow> wrap64 i = i"
  by (simp add: wrap64_def)

lemma wrap64_range: "- (2 ^ 63) \<le> wrap64 i" "wrap64 i < 2 ^ 63"
proof -
  have "0 \<le> (i + 2 ^ 63) mod 2 ^ 64" "(i + 2 ^ 63) mod 2 ^ 64 < 2 ^ 64"
    by (rule pos_mod_sign, simp) (rule pos_mod_bound, simp)
  then show "- (2 ^ 63) \<le> wrap64 i" "wrap64 i < 2 ^ 63" by (simp_all add: wrap64_def)
qed

text \<open>\<open>time.Duration(n) * time.Second\<close>: nanoseconds in an \<open>int64\<close>.\<close>

definition seconds :: "int \<Rightarrow> int" where
  "seconds n = wrap64 (n * 1000000000)"

lemma seconds_exact: "\<bar>n\<bar> \<le> 9223372036 \<Longrightarrow> seconds n = n * 1000000000"
  unfolding seconds_def by (rule wrap64_id) (simp_all add: abs_le_iff)

section \<open>Fields\<close>

text \<open>\<open>strings.Fields\<close>: the maximal runs without white space.\<close>

function fields_from :: "string \<Rightarrow> string \<Rightarrow> string list" where
  "fields_from cur s =
     (case s of
        [] \<Rightarrow> (if cur = [] then [] else [cur])
      | c # cs \<Rightarrow>
          (case find (\<lambda>p. p \<noteq> [] \<and> prefix p s) space_runes of
             Some p \<Rightarrow> (if cur = [] then [] else [cur]) @ fields_from [] (drop (length p) s)
           | None \<Rightarrow> fields_from (cur @ [c]) cs))"
  by pat_completeness auto
termination
  by (relation "measure (\<lambda>(cur, s). length s)") (auto dest: strip_decreases)

declare fields_from.simps [simp del]

definition Fields :: "string \<Rightarrow> string list" where
  "Fields s = fields_from [] s"

end
