(* ===== verification/Domain_Model.thy ===== *)
theory Domain_Model
  imports Go_Prelude
begin

text \<open>
  The data model of \<open>src/internal/domain\<close>: one record per struct, one datatype per string
  enumeration.  Go's enumerations are open strings, so each datatype has a constructor for the
  texts outside the declared constants wherever the code distinguishes them.  Field names carry
  a prefix for their struct, since record selectors are global.  Timestamps are Unix seconds.
\<close>

section \<open>Errors and context\<close>

text \<open>
  The error values the application layer distinguishes: the canonical \<open>ErrNotFound\<close>, a
  \<open>UserError\<close> with its text, a \<open>PublicError\<close> with its code and HTTP status (its display text is
  presentation only), a violated uniqueness constraint of the database, a temporary delivery
  failure (an error whose \<open>Temporary()\<close> method returns true), the errors of an inbound session (a
  server's negative reply with its response code, refused credentials, and \<open>InboundError\<close> with its
  stage, command, class, code, elapsed time, deadline and cause), and any other fault.
\<close>

datatype err =
    ErrNotFound
  | UserError string
  | PublicError string int
  | UniqueViolation string
  | TemporaryError string
  | SysError string
  | InboundRejected string
  | AuthError err
  | InboundError string string string string int int err

fun err_text :: "err \<Rightarrow> string" where
  "err_text ErrNotFound = ''not found''"
| "err_text (UserError m) = m"
| "err_text (PublicError c n) = c"
| "err_text (UniqueViolation m) = ''UNIQUE constraint failed: '' @ m"
| "err_text (TemporaryError m) = m"
| "err_text (SysError m) = m"
| "err_text (InboundRejected code) =
     (if code = [] then ''server rejected the command''
      else ''server rejected the command ['' @ code @ '']'')"
| "err_text (AuthError e) = err_text e"
| "err_text (InboundError stage cmd class code elapsed deadline e) = stage @ '': '' @ err_text e"

datatype UserRole = RoleAdmin | RoleUser | RoleOther string

fun role_text :: "UserRole \<Rightarrow> string" where
  "role_text RoleAdmin = ''admin''"
| "role_text RoleUser = ''user''"
| "role_text (RoleOther s) = s"

datatype UserStatus = UserActive | UserDisabled | UserDeleted

record User =
  u_ID :: string
  u_LoginID :: string
  u_DisplayName :: string
  u_Email :: string
  u_Role :: UserRole
  u_Status :: UserStatus
  u_AuthProvider :: string
  u_OIDCIssuer :: string
  u_OIDCSubject :: string
  u_CreatedAt :: int
  u_UpdatedAt :: int
  u_LastLoginAt :: int

record Session =
  ss_ID :: string
  ss_UserID :: string
  ss_TokenHash :: string
  ss_CSRFHash :: string
  ss_ExpiresAt :: int
  ss_CreatedAt :: int
  ss_LastSeen :: int
  ss_UserAgent :: string
  ss_IPAddress :: string

record Principal =
  p_UserID :: string
  p_LoginID :: string
  p_DisplayName :: string
  p_Role :: UserRole
  p_AuthMethod :: string
  p_MCPKeyID :: string
  p_MCPScopes :: "string list"

definition IsAdmin :: "Principal \<Rightarrow> bool" where
  "IsAdmin p = (p_Role p = RoleAdmin)"

definition IsMCPScoped :: "Principal \<Rightarrow> bool" where
  "IsMCPScoped p = (p_AuthMethod p = ''mcp_key'' \<or> p_AuthMethod p = ''mcp_oauth'')"

record MCPKey =
  k_ID :: string
  k_UserID :: string
  k_Name :: string
  k_KeyHash :: string
  k_KeyPrefix :: string
  k_Status :: string
  k_CreatedAt :: int
  k_LastUsedAt :: int
  k_Scopes :: "string list"
  k_LegacyScopes :: bool

text \<open>The values the application stores in a \<open>context.Context\<close>.\<close>

record ctx =
  c_actor :: "string option"
  c_principal :: "Principal option"

definition DefaultUserID :: string where
  "DefaultUserID = ''usr_local''"

definition WithActor :: "ctx \<Rightarrow> string \<Rightarrow> ctx" where
  "WithActor c a = c\<lparr>c_actor := Some a\<rparr>"

definition WithPrincipal :: "ctx \<Rightarrow> Principal \<Rightarrow> ctx" where
  "WithPrincipal c p = c\<lparr>c_principal := Some p\<rparr>"

definition actorFrom :: "ctx \<Rightarrow> string" where
  "actorFrom c = (case c_actor c of Some a \<Rightarrow> a | None \<Rightarrow> ''unknown'')"

definition userIDFrom :: "ctx \<Rightarrow> string" where
  "userIDFrom c =
     (case c_principal c of
        Some p \<Rightarrow> if p_UserID p \<noteq> [] then p_UserID p else DefaultUserID
      | None \<Rightarrow> DefaultUserID)"

definition requireAdmin :: "ctx \<Rightarrow> err + Principal" where
  "requireAdmin c =
     (case c_principal c of
        None \<Rightarrow> Inl (UserError ''administrator permission required'')
      | Some p \<Rightarrow> if IsAdmin p then Inr p
                  else Inl (UserError ''administrator permission required''))"

section \<open>Accounts\<close>

datatype Security = SecurityTLS | SecurityStartTLS | SecurityNone | SecurityOther string

datatype AccountStatus =
  AccountActive | AccountDisabled | AccountDeleted | AccountCredentialError

fun account_status_text :: "AccountStatus \<Rightarrow> string" where
  "account_status_text AccountActive = ''active''"
| "account_status_text AccountDisabled = ''disabled''"
| "account_status_text AccountDeleted = ''deleted''"
| "account_status_text AccountCredentialError = ''credential_error''"

record MailAccount =
  a_ID :: string
  a_UserID :: string
  a_Name :: string
  a_Email :: string
  a_Status :: AccountStatus
  a_InboundProtocol :: string
  a_POP3Host :: string
  a_POP3Port :: int
  a_POP3Security :: Security
  a_POP3Username :: string
  a_POP3Secret :: string
  a_SMTPHost :: string
  a_SMTPPort :: int
  a_SMTPSecurity :: Security
  a_SMTPUsername :: string
  a_SMTPAuth :: string
  a_SMTPSecret :: string
  a_InsecureSkipVerify :: bool
  a_CreatedAt :: int
  a_UpdatedAt :: int

text \<open>What the database knows about a secret; never its value (\<open>secret.go\<close>).\<close>

record CredentialRef =
  cr_Ref :: string
  cr_OwnerID :: string
  cr_Type :: string
  cr_Provider :: string
  cr_Label :: string
  cr_Status :: string
  cr_Version :: int
  cr_CreatedAt :: int
  cr_LastUsedAt :: int

record RemoteMessage =
  rm_Number :: int
  rm_UIDL :: string
  rm_Size :: int

text \<open>
  An inbound session is the answers of the mail server to the commands of \<open>POP3Session\<close>; an IMAP
  session also answers for the Sent folder (\<open>SentFolderCapable\<close>), with the listing and the messages
  that \<open>UIDL\<close> and \<open>Retrieve\<close> give once that folder is selected.
\<close>

record SentFolder =
  sf_SentMailbox :: "err + string"
  sf_SelectMailbox :: "string \<Rightarrow> err option"
  sf_UIDL :: "err + RemoteMessage list"
  sf_Retrieve :: "int \<Rightarrow> err + string"

record InboundSession =
  se_List :: "err + RemoteMessage list"
  se_UIDL :: "err + RemoteMessage list"
  se_Retrieve :: "int \<Rightarrow> err + string"
  se_Delete :: "int \<Rightarrow> err option"
  se_Quit :: "err option"
  se_Sent :: "SentFolder option"

record InboundDialOptions =
  do_Host :: string
  do_Port :: int
  do_Security :: Security
  do_Username :: string
  do_Password :: "string option"
  do_InsecureSkipVerify :: bool
  do_ConnectTimeoutSec :: int
  do_CommandTimeoutSec :: int
  do_MaxMessageBytes :: int

record Envelope =
  env_From :: string
  env_To :: "string list"

record SendReceipt =
  rc_ServerResponse :: string
  rc_Uncertain :: bool

record SMTPSendOptions =
  so_Host :: string
  so_Port :: int
  so_Security :: Security
  so_AuthMethod :: string
  so_Username :: string
  so_Password :: "string option"
  so_InsecureSkipVerify :: bool
  so_ConnectTimeoutSec :: int

section \<open>Messages\<close>

record Address =
  ad_Name :: string
  ad_Email :: string

record Message =
  m_ID :: string
  m_UserID :: string
  m_AccountID :: string
  m_UIDL :: string
  m_MessageID :: string
  m_Subject :: string
  m_From :: Address
  m_To :: "Address list"
  m_Cc :: "Address list"
  m_ReplyTo :: "Address list"
  m_Bcc :: "Address list"
  m_Date :: int
  m_Size :: int
  m_RawHash :: string
  m_RawURI :: string
  m_ThreadID :: string
  m_HasAttachments :: bool
  m_InReplyTo :: string
  m_References :: string
  m_AuthResults :: string
  m_ParseError :: string
  m_CreatedAt :: int
  m_IsArchived :: bool
  m_IsImportant :: bool
  m_IsRead :: bool
  m_SnoozedUntil :: int
  m_Labels :: "string list"
  m_LegalHold :: bool
  m_Mailbox :: string

definition MailboxInbox :: string where "MailboxInbox = ''inbox''"
definition MailboxSent :: string where "MailboxSent = ''sent''"

text \<open>The stored part of a message body; the remaining fields are filled in for display.\<close>

record MessageBody =
  b_MessageID :: string
  b_TextBody :: string
  b_HTMLSanitized :: string
  b_Charset :: string

datatype ScanStatus = ScanClean | ScanQuarantined | ScanBlocked | ScanSuspect | ScanPending

fun scan_text :: "ScanStatus \<Rightarrow> string" where
  "scan_text ScanClean = ''clean''"
| "scan_text ScanQuarantined = ''quarantined''"
| "scan_text ScanBlocked = ''blocked''"
| "scan_text ScanSuspect = ''suspect''"
| "scan_text ScanPending = ''pending''"

record Attachment =
  at_ID :: string
  at_MessageID :: string
  at_Name :: string
  at_MIMEType :: string
  at_Size :: int
  at_Hash :: string
  at_StorageURI :: string
  at_Inline :: bool
  at_ScanStatus :: ScanStatus
  at_ScanDetail :: string

record ScanInput =
  si_Name :: string
  si_MIMEType :: string
  si_Data :: string

record ScanVerdict =
  sv_Status :: ScanStatus
  sv_Detail :: string
  sv_StoreContent :: bool

section \<open>Drafts, approvals, outbound mail\<close>

datatype DraftKind = DraftNew | DraftReply | DraftReplyAll | DraftForward

datatype DraftStatus = DraftOpen | DraftApproved | DraftSent | DraftDiscarded

record Draft =
  d_ID :: string
  d_UserID :: string
  d_AccountID :: string
  d_Kind :: DraftKind
  d_ReplyToMessageID :: string
  d_Status :: DraftStatus
  d_CurrentVersion :: int
  d_CreatedAt :: int
  d_UpdatedAt :: int

record DraftAttachment =
  da_ID :: string
  da_Name :: string
  da_MIMEType :: string
  da_Size :: int
  da_Hash :: string
  da_StorageURI :: string
  da_Inline :: bool
  da_ContentID :: string
  da_ScanStatus :: ScanStatus
  da_ScanDetail :: string

record DraftVersion =
  v_DraftID :: string
  v_Version :: int
  v_Subject :: string
  v_BodyText :: string
  v_BodyHTML :: string
  v_To :: "Address list"
  v_Cc :: "Address list"
  v_Bcc :: "Address list"
  v_Author :: string
  v_CreatedAt :: int
  v_Attachments :: "DraftAttachment list"

record ApprovalRequest =
  ar_UserID :: string
  ar_ActionType :: string
  ar_DraftID :: string
  ar_DraftVersion :: int
  ar_PayloadHash :: string
  ar_TTLSeconds :: int
  ar_Approver :: string

record ApprovalToken =
  tok_ID :: string
  tok_Token :: string
  tok_Expires :: int

datatype OutboundStatus =
  OutboundQueued | OutboundRetryWait | OutboundSent | OutboundFailed | OutboundUncertain

record OutboundMessage =
  o_ID :: string
  o_UserID :: string
  o_DraftID :: string
  o_DraftVersion :: int
  o_IdempotencyKey :: string
  o_MessageID :: string
  o_Status :: OutboundStatus
  o_SMTPResponse :: string
  o_Attempts :: int
  o_NextAttemptAt :: int
  o_CreatedAt :: int
  o_UpdatedAt :: int

section \<open>Rules, incidents, collaboration, audit\<close>

record RuleCondition =
  rc_Field :: string
  rc_Operator :: string
  rc_Value :: string

record RuleAction =
  ra_Type :: string
  ra_Value :: string

record MailRule =
  r_ID :: string
  r_UserID :: string
  r_Name :: string
  r_Enabled :: bool
  r_Priority :: int
  r_Match :: string
  r_Conditions :: "RuleCondition list"
  r_Actions :: "RuleAction list"
  r_StopOnMatch :: bool
  r_CreatedAt :: int
  r_UpdatedAt :: int

datatype Severity = SeverityCritical | SeverityError | SeverityWarning

record Incident =
  i_ID :: string
  i_Fingerprint :: string
  i_Severity :: Severity
  i_Component :: string
  i_Message :: string
  i_Detail :: string
  i_Count :: int
  i_FirstSeen :: int
  i_LastSeen :: int
  i_Resolved :: bool
  i_ResolvedAt :: int
  i_ResolvedBy :: string
  i_AccountID :: string
  i_JobID :: string

record MessageCollab =
  mc_MessageID :: string
  mc_UserID :: string
  mc_Assignee :: string
  mc_Status :: string
  mc_SLADue :: int
  mc_UpdatedBy :: string
  mc_UpdatedAt :: int

record MessageNote =
  n_ID :: string
  n_MessageID :: string
  n_UserID :: string
  n_Author :: string
  n_Body :: string
  n_CreatedAt :: int

datatype JobStatus =
  JobQueued | JobRunning | JobSucceeded | JobPartial | JobFailed | JobCancelled | JobUncertain

fun job_status_text :: "JobStatus \<Rightarrow> string" where
  "job_status_text JobQueued = ''queued''"
| "job_status_text JobRunning = ''running''"
| "job_status_text JobSucceeded = ''succeeded''"
| "job_status_text JobPartial = ''partially_succeeded''"
| "job_status_text JobFailed = ''failed''"
| "job_status_text JobCancelled = ''cancelled''"
| "job_status_text JobUncertain = ''uncertain''"

text \<open>A job; the diagnostic column, which is rendered for display, is left out.\<close>

record Job =
  j_ID :: string
  j_UserID :: string
  j_Type :: string
  j_AccountID :: string
  j_Status :: JobStatus
  j_Progress :: string
  j_Stats :: "(string \<times> int) list"
  j_Error :: string
  j_CreatedAt :: int
  j_UpdatedAt :: int

record AuditEvent =
  ev_At :: int
  ev_UserID :: string
  ev_Actor :: string
  ev_Action :: string
  ev_Resource :: string
  ev_Result :: string
  ev_Detail :: string

end
