(* ===== verification/Store_Tables.thy ===== *)
theory Store_Tables
  imports Domain_Model "HOL-Library.Product_Lexorder"
begin

text \<open>
  The tables of the SQLite store (\<open>src/internal/adapters/persistence/store.go\<close>, \<open>migrate\<close>).  A
  table is the list of its rows in insertion order; JSON columns hold the decoded value.  Every
  store operation is a function of the tables and of the clock reading \<open>now\<close>; faults of the
  database driver itself (I/O errors, a closed connection) are outside the model, constraint
  violations and missing rows are inside it.

  The operations that follow in the \<open>Store_\<close> theories are named \<open>db_\<close> followed by the name of
  the method of \<open>Store\<close>.
\<close>

datatype ApprovalStatus = ApprovalPending | ApprovalUsed

record Approval =
  ap_ID :: string
  ap_UserID :: string
  ap_ActionType :: string
  ap_DraftID :: string
  ap_DraftVersion :: int
  ap_PayloadHash :: string
  ap_TokenHash :: string
  ap_Approver :: string
  ap_ExpiresAt :: int
  ap_Status :: ApprovalStatus
  ap_CreatedAt :: int

record Checkpoint =
  cp_AccountID :: string
  cp_UIDL :: string
  cp_MessageID :: string

record Thread =
  th_ID :: string
  th_UserID :: string
  th_AccountID :: string
  th_SubjectKey :: string
  th_LastMessageAt :: int
  th_MessageCount :: int

record store =
  users :: "(User \<times> string) list"
  sessions :: "Session list"
  mcp_keys :: "MCPKey list"
  accounts :: "MailAccount list"
  credentials :: "CredentialRef list"
  checkpoints :: "Checkpoint list"
  messages :: "Message list"
  bodies :: "MessageBody list"
  attachments :: "Attachment list"
  threads :: "Thread list"
  drafts :: "Draft list"
  versions :: "DraftVersion list"
  approvals :: "Approval list"
  outbound :: "OutboundMessage list"
  rules :: "MailRule list"
  incidents :: "Incident list"
  collab :: "MessageCollab list"
  msg_notes :: "MessageNote list"
  jobs :: "Job list"
  audits :: "AuditEvent list"
  system_settings :: "string \<rightharpoonup> string"

definition empty_store :: store where
  "empty_store = \<lparr>users = [], sessions = [], mcp_keys = [], accounts = [], credentials = [],
     checkpoints = [], messages = [], bodies = [], attachments = [], threads = [], drafts = [], versions = [],
     approvals = [], outbound = [], rules = [], incidents = [], collab = [], msg_notes = [],
     jobs = [], audits = [], system_settings = Map.empty\<rparr>"

text \<open>\<open>AppendAudit\<close>: the audit trail only grows.\<close>

definition db_AppendAudit :: "store \<Rightarrow> int \<Rightarrow> AuditEvent \<Rightarrow> store" where
  "db_AppendAudit s now ev = s\<lparr>audits := audits s @ [ev\<lparr>ev_At := now\<rparr>]\<rparr>"

text \<open>\<open>App.audit\<close>: the caller's identity and transport are recorded with the event.\<close>

definition audit :: "store \<Rightarrow> int \<Rightarrow> ctx \<Rightarrow> string \<Rightarrow> string \<Rightarrow> string \<Rightarrow> string \<Rightarrow> store" where
  "audit s now c action resource result detail =
     db_AppendAudit s now \<lparr>ev_At = 0, ev_UserID = userIDFrom c, ev_Actor = actorFrom c,
       ev_Action = action, ev_Resource = resource, ev_Result = result, ev_Detail = detail\<rparr>"

text \<open>An audit record touches no other table.\<close>

lemma audit_frame [simp]:
  "users (audit s n c a r x d) = users s" "sessions (audit s n c a r x d) = sessions s"
  "mcp_keys (audit s n c a r x d) = mcp_keys s" "accounts (audit s n c a r x d) = accounts s"
  "credentials (audit s n c a r x d) = credentials s"
  "checkpoints (audit s n c a r x d) = checkpoints s" "messages (audit s n c a r x d) = messages s"
  "bodies (audit s n c a r x d) = bodies s" "attachments (audit s n c a r x d) = attachments s"
  "threads (audit s n c a r x d) = threads s" "drafts (audit s n c a r x d) = drafts s" "versions (audit s n c a r x d) = versions s"
  "approvals (audit s n c a r x d) = approvals s" "outbound (audit s n c a r x d) = outbound s"
  "rules (audit s n c a r x d) = rules s" "incidents (audit s n c a r x d) = incidents s"
  "collab (audit s n c a r x d) = collab s" "msg_notes (audit s n c a r x d) = msg_notes s"
  "system_settings (audit s n c a r x d) = system_settings s"
  "jobs (audit s n c a r x d) = jobs s"
  by (simp_all add: audit_def db_AppendAudit_def)

lemma audits_audit:
  "audits (audit s n c a r x d) = audits s @
     [\<lparr>ev_At = n, ev_UserID = userIDFrom c, ev_Actor = actorFrom c, ev_Action = a,
       ev_Resource = r, ev_Result = x, ev_Detail = d\<rparr>]"
  by (simp add: audit_def db_AppendAudit_def)

end
