(* ===== verification/Ledger_Spec.thy ===== *)
theory Ledger_Spec
  imports Domain_Model
begin

text \<open>
  The contract of the one-time approval ledger (\<open>domain.ApprovalService\<close>): what the use cases
  that spend an approval may rely on, stated as a locale, and what follows from it alone, for
  every sequence of attempts.
\<close>

text \<open>How many of a sequence of attempts (time, token hash, payload hash) accept the token \<open>h\<close>.\<close>

fun accepted :: "('s \<Rightarrow> int \<Rightarrow> string \<Rightarrow> string \<Rightarrow> (err + 'r) \<times> 's) \<Rightarrow> string \<Rightarrow> 's
    \<Rightarrow> (int \<times> string \<times> string) list \<Rightarrow> nat" where
  "accepted c h s [] = 0"
| "accepted c h s ((t, h', p) # xs) =
     (case c s t h' p of
        (Inl e, s') \<Rightarrow> accepted c h s' xs
      | (Inr r, s') \<Rightarrow> (if h' = h then 1 else 0) + accepted c h s' xs)"

locale approval_ledger =
  fixes consume :: "'s \<Rightarrow> int \<Rightarrow> string \<Rightarrow> string \<Rightarrow> (err + 'r) \<times> 's"
    and live :: "'s \<Rightarrow> int \<Rightarrow> string \<Rightarrow> string \<Rightarrow> bool"
    and invar :: "'s \<Rightarrow> bool"
  assumes consume_live: "live s t h p \<Longrightarrow> \<exists>r s'. consume s t h p = (Inr r, s')"
    and consume_dead: "\<not> live s t h p \<Longrightarrow> \<exists>e. consume s t h p = (Inl e, s)"
    and consume_kills: "invar s \<Longrightarrow> consume s t h p = (Inr r, s') \<Longrightarrow> \<not> live s' t' h q"
    and consume_mono: "live (snd (consume s t h' p)) t' h q \<Longrightarrow> live s t' h q"
    and invar_consume: "invar s \<Longrightarrow> invar (snd (consume s t h p))"
begin

lemma consume_ok_iff: "(\<exists>r s'. consume s t h p = (Inr r, s')) = live s t h p"
  using consume_live consume_dead by (metis Inl_Inr_False fst_conv)

lemma consume_error_keeps: "consume s t h p = (Inl e, s') \<Longrightarrow> s' = s"
  using consume_live consume_dead by (metis Inl_Inr_False prod.inject)

lemma accepted_dead:
  assumes "\<And>t q. \<not> live s t h q"
  shows "accepted consume h s xs = 0"
  using assms
proof (induction xs arbitrary: s)
  case Nil
  then show ?case by simp
next
  case (Cons x xs)
  obtain t h' p where x: "x = (t, h', p)" by (cases x)
  obtain v s' where c: "consume s t h' p = (v, s')" by (cases "consume s t h' p")
  from Cons.prems c have dead: "\<And>t q. \<not> live s' t h q"
    by (metis consume_mono snd_conv)
  from Cons.IH [OF dead] have "accepted consume h s' xs = 0" .
  moreover have "v = Inr r \<Longrightarrow> h' \<noteq> h" for r
    using Cons.prems c consume_ok_iff by blast
  ultimately show ?case
    using x c by (cases v) auto
qed

theorem accepted_at_most_once:
  assumes "invar s"
  shows "accepted consume h s xs \<le> 1"
  using assms
proof (induction xs arbitrary: s)
  case Nil
  then show ?case by simp
next
  case (Cons x xs)
  obtain t h' p where x: "x = (t, h', p)" by (cases x)
  obtain v s' where c: "consume s t h' p = (v, s')" by (cases "consume s t h' p")
  have inv: "invar s'" using invar_consume [OF Cons.prems, of t h' p] c by simp
  show ?case
  proof (cases "h' = h \<and> (\<exists>r. v = Inr r)")
    case True
    then have "\<And>t q. \<not> live s' t h q" using consume_kills [OF Cons.prems] c by blast
    then have "accepted consume h s' xs = 0" by (rule accepted_dead)
    with True x c show ?thesis by auto
  next
    case False
    with x c Cons.IH [OF inv] show ?thesis by (cases v) auto
  qed
qed

end

end
