(* ===== verification/Store_Outbox.thy ===== *)
theory Store_Outbox
  imports Store_Tables Ledger_Spec
begin

text \<open>
  Drafts, their immutable versions, one-time approvals and the outbox, as
  \<open>src/internal/adapters/persistence/store.go\<close> keeps them (lines 1964 to 2221), with the
  ledger contract that the send and server-delete use cases rely on.
\<close>

section \<open>Drafts\<close>

text \<open>
  \<open>CreateDraft\<close> inserts the draft and its version 1 in one transaction; both primary keys are
  checked by the database.
\<close>

definition insertDraftVersion :: "store \<Rightarrow> string \<Rightarrow> DraftVersion \<Rightarrow> err + store" where
  "insertDraftVersion s draftID v =
     (if \<not> no_row (\<lambda>r. v_DraftID r = draftID \<and> v_Version r = v_Version v) (versions s)
      then Inl (UniqueViolation ''draft_versions.draft_id, draft_versions.version'')
      else Inr (s\<lparr>versions := versions s @ [v\<lparr>v_DraftID := draftID\<rparr>]\<rparr>))"

definition db_CreateDraft :: "store \<Rightarrow> int \<Rightarrow> Draft \<Rightarrow> DraftVersion \<Rightarrow> err + store" where
  "db_CreateDraft s now d v =
     (let d' = d\<lparr>d_CreatedAt := now, d_UpdatedAt := now, d_CurrentVersion := 1\<rparr>;
          v' = v\<lparr>v_Version := 1, v_CreatedAt := now\<rparr>
      in if \<not> no_row (\<lambda>r. d_ID r = d_ID d) (drafts s) then Inl (UniqueViolation ''drafts.id'')
         else insertDraftVersion (s\<lparr>drafts := drafts s @ [d']\<rparr>) (d_ID d) v')"

text \<open>\<open>AddDraftVersion\<close>: only an open draft of the caller takes a new version, numbered one up.\<close>

definition db_AddDraftVersion ::
  "store \<Rightarrow> int \<Rightarrow> string \<Rightarrow> string \<Rightarrow> DraftVersion \<Rightarrow> err + (int \<times> store)" where
  "db_AddDraftVersion s now userID draftID v =
     (case find (\<lambda>d. d_ID d = draftID \<and> d_UserID d = userID \<and> d_Status d = DraftOpen) (drafts s) of
        None \<Rightarrow> Inl ErrNotFound
      | Some d \<Rightarrow>
          (let v' = v\<lparr>v_Version := d_CurrentVersion d + 1, v_CreatedAt := now\<rparr>
           in case insertDraftVersion s draftID v' of
                Inl e \<Rightarrow> Inl e
              | Inr s' \<Rightarrow> Inr (v_Version v',
                  s'\<lparr>drafts := upd_where (\<lambda>r. d_ID r = draftID)
                       (\<lambda>r. r\<lparr>d_CurrentVersion := v_Version v', d_UpdatedAt := now\<rparr>) (drafts s')\<rparr>)))"

definition db_GetDraftVersion :: "store \<Rightarrow> string \<Rightarrow> string \<Rightarrow> int \<Rightarrow> err + DraftVersion" where
  "db_GetDraftVersion s userID draftID version =
     (case find (\<lambda>v. v_DraftID v = draftID \<and> v_Version v = version \<and>
                  \<not> no_row (\<lambda>d. d_ID d = v_DraftID v \<and> d_UserID d = userID) (drafts s)) (versions s) of
        None \<Rightarrow> Inl ErrNotFound | Some v \<Rightarrow> Inr v)"

definition db_GetDraft :: "store \<Rightarrow> string \<Rightarrow> string \<Rightarrow> err + (Draft \<times> DraftVersion)" where
  "db_GetDraft s userID did =
     (case find (\<lambda>d. d_ID d = did \<and> d_UserID d = userID) (drafts s) of
        None \<Rightarrow> Inl ErrNotFound
      | Some d \<Rightarrow> (case db_GetDraftVersion s userID did (d_CurrentVersion d) of
                     Inl e \<Rightarrow> Inl e | Inr v \<Rightarrow> Inr (d, v)))"

definition db_SetDraftStatus :: "store \<Rightarrow> int \<Rightarrow> string \<Rightarrow> string \<Rightarrow> DraftStatus \<Rightarrow> store" where
  "db_SetDraftStatus s now userID did st =
     s\<lparr>drafts := upd_where (\<lambda>d. d_ID d = did \<and> d_UserID d = userID)
         (\<lambda>d. d\<lparr>d_Status := st, d_UpdatedAt := now\<rparr>) (drafts s)\<rparr>"

section \<open>Approvals\<close>

definition db_InsertApproval ::
  "store \<Rightarrow> int \<Rightarrow> string \<Rightarrow> string \<Rightarrow> string \<Rightarrow> string \<Rightarrow> int \<Rightarrow> string \<Rightarrow> string \<Rightarrow> string \<Rightarrow> int
     \<Rightarrow> err + store" where
  "db_InsertApproval s now apid userID actionType draftID draftVersion payloadHash tokenHash approver
     expiresAt =
     (if \<not> no_row (\<lambda>r. ap_ID r = apid) (approvals s) then Inl (UniqueViolation ''approvals.id'')
      else Inr (s\<lparr>approvals := approvals s @
             [\<lparr>ap_ID = apid, ap_UserID = userID, ap_ActionType = actionType, ap_DraftID = draftID,
               ap_DraftVersion = draftVersion, ap_PayloadHash = payloadHash,
               ap_TokenHash = tokenHash, ap_Approver = approver, ap_ExpiresAt = expiresAt,
               ap_Status = ApprovalPending, ap_CreatedAt = now\<rparr>]\<rparr>))"

definition approval_live :: "int \<Rightarrow> string \<Rightarrow> string \<Rightarrow> Approval \<Rightarrow> bool" where
  "approval_live now tokenHash payloadHash r =
     (ap_TokenHash r = tokenHash \<and> ap_PayloadHash r = payloadHash \<and>
      ap_Status r = ApprovalPending \<and> ap_ExpiresAt r > now)"

definition db_ConsumeApproval ::
  "store \<Rightarrow> int \<Rightarrow> string \<Rightarrow> string \<Rightarrow> (err + (string \<times> int)) \<times> store" where
  "db_ConsumeApproval s now tokenHash payloadHash =
     (case find (approval_live now tokenHash payloadHash) (approvals s) of
        None \<Rightarrow> (Inl (SysError ''approval token invalid, expired, consumed, or payload changed''), s)
      | Some r \<Rightarrow> (Inr (ap_DraftID r, ap_DraftVersion r),
          s\<lparr>approvals := upd_where (\<lambda>x. ap_ID x = ap_ID r) (\<lambda>x. x\<lparr>ap_Status := ApprovalUsed\<rparr>)
              (approvals s)\<rparr>))"

section \<open>Outbox\<close>

definition db_CreateOutbound :: "store \<Rightarrow> int \<Rightarrow> OutboundMessage \<Rightarrow> err + store" where
  "db_CreateOutbound s now out =
     (if \<not> no_row (\<lambda>r. o_ID r = o_ID out) (outbound s)
      then Inl (UniqueViolation ''outbound_messages.id'')
      else if \<not> no_row (\<lambda>r. o_IdempotencyKey r = o_IdempotencyKey out) (outbound s)
      then Inl (UniqueViolation ''outbound_messages.idempotency_key'')
      else Inr (s\<lparr>outbound := outbound s @ [out\<lparr>o_SMTPResponse := [], o_NextAttemptAt := 0,
             o_CreatedAt := now, o_UpdatedAt := now\<rparr>]\<rparr>))"

definition db_GetOutboundByIdemKey :: "store \<Rightarrow> string \<Rightarrow> string \<Rightarrow> err + OutboundMessage" where
  "db_GetOutboundByIdemKey s userID key =
     (case find (\<lambda>r. o_UserID r = userID \<and> o_IdempotencyKey r = key) (outbound s) of
        None \<Rightarrow> Inl ErrNotFound | Some r \<Rightarrow> Inr r)"

definition db_MarkOutboundRetry :: "store \<Rightarrow> int \<Rightarrow> string \<Rightarrow> string \<Rightarrow> int \<Rightarrow> int \<Rightarrow> store" where
  "db_MarkOutboundRetry s now oid smtpResponse attempts nextAttemptAt =
     s\<lparr>outbound := upd_where (\<lambda>r. o_ID r = oid)
         (\<lambda>r. r\<lparr>o_Status := OutboundRetryWait, o_SMTPResponse := smtpResponse,
                o_Attempts := attempts, o_NextAttemptAt := nextAttemptAt, o_UpdatedAt := now\<rparr>)
         (outbound s)\<rparr>"

definition db_UpdateOutbound ::
  "store \<Rightarrow> int \<Rightarrow> string \<Rightarrow> OutboundStatus \<Rightarrow> string \<Rightarrow> int \<Rightarrow> store" where
  "db_UpdateOutbound s now oid status smtpResponse attempts =
     s\<lparr>outbound := upd_where (\<lambda>r. o_ID r = oid)
         (\<lambda>r. r\<lparr>o_Status := status, o_SMTPResponse := smtpResponse, o_Attempts := attempts,
                o_NextAttemptAt := 0, o_UpdatedAt := now\<rparr>)
         (outbound s)\<rparr>"

definition db_ListOutbound :: "store \<Rightarrow> string \<Rightarrow> int \<Rightarrow> OutboundMessage list" where
  "db_ListOutbound s userID limit =
     (let n = (if limit \<le> 0 \<or> limit > 200 then 50 else limit)
      in take (nat n) (rev (sort_key (\<lambda>r. (o_CreatedAt r, o_ID r))
           (filter (\<lambda>r. o_UserID r = userID) (outbound s)))))"

definition db_ListDueRetries :: "store \<Rightarrow> int \<Rightarrow> int \<Rightarrow> OutboundMessage list" where
  "db_ListDueRetries s nowTS limit =
     (let n = (if limit \<le> 0 then 50 else limit)
      in take (nat n) (sort_key o_NextAttemptAt
           (filter (\<lambda>r. o_Status r = OutboundRetryWait \<and> o_NextAttemptAt r \<le> nowTS) (outbound s))))"

text \<open>
  \<open>CountSentSince\<close> joins the outbox with the drafts; draft ids are unique, so a row is counted
  once.
\<close>

definition db_CountSentSince :: "store \<Rightarrow> string \<Rightarrow> string \<Rightarrow> int \<Rightarrow> int" where
  "db_CountSentSince s userID accountID since =
     int (length (filter
       (\<lambda>r. \<not> no_row (\<lambda>d. d_ID d = o_DraftID r \<and> d_UserID d = userID \<and> d_AccountID d = accountID)
              (drafts s)
            \<and> o_Status r = OutboundSent \<and> o_UpdatedAt r \<ge> since) (outbound s)))"

definition db_GetOutbound :: "store \<Rightarrow> string \<Rightarrow> string \<Rightarrow> err + OutboundMessage" where
  "db_GetOutbound s userID oid =
     (case find (\<lambda>r. o_UserID r = userID \<and> o_ID r = oid) (outbound s) of
        None \<Rightarrow> Inl ErrNotFound | Some r \<Rightarrow> Inr r)"

section \<open>The approvals table is a one-time ledger\<close>

text \<open>
  Approval ids are the primary key; token hashes are digests of 32 random bytes and taken to be
  distinct.
\<close>

definition ledger_live :: "store \<Rightarrow> int \<Rightarrow> string \<Rightarrow> string \<Rightarrow> bool" where
  "ledger_live s t h p = list_ex (approval_live t h p) (approvals s)"

definition ledger_inv :: "store \<Rightarrow> bool" where
  "ledger_inv s = (distinct (map ap_ID (approvals s)) \<and> distinct (map ap_TokenHash (approvals s)))"

lemma ledger_live_find: "ledger_live s t h p = (find (approval_live t h p) (approvals s) \<noteq> None)"
  by (auto simp: ledger_live_def list_ex_iff find_None_iff)

lemma consume_row:
  assumes "db_ConsumeApproval s t h p = (Inr r, s')"
  obtains a where "a \<in> set (approvals s)" "approval_live t h p a"
    "r = (ap_DraftID a, ap_DraftVersion a)"
    "s' = s\<lparr>approvals := upd_where (\<lambda>x. ap_ID x = ap_ID a) (\<lambda>x. x\<lparr>ap_Status := ApprovalUsed\<rparr>) (approvals s)\<rparr>"
  using assms by (auto simp: db_ConsumeApproval_def split: option.splits dest: find_SomeD)

interpretation db_ledger: approval_ledger db_ConsumeApproval ledger_live ledger_inv
proof unfold_locales
  fix s t h p
  show "ledger_live s t h p \<Longrightarrow> \<exists>r s'. db_ConsumeApproval s t h p = (Inr r, s')"
    by (auto simp: ledger_live_find db_ConsumeApproval_def)
  show "\<not> ledger_live s t h p \<Longrightarrow> \<exists>e. db_ConsumeApproval s t h p = (Inl e, s)"
    by (auto simp: ledger_live_find db_ConsumeApproval_def)
  show "ledger_inv s \<Longrightarrow> ledger_inv (snd (db_ConsumeApproval s t h p))"
    by (auto simp: ledger_inv_def db_ConsumeApproval_def map_upd_where_same split: option.splits)
next
  fix s :: store and t :: int and h p r s' t' q
  assume inv: "ledger_inv s" and c: "db_ConsumeApproval s t h p = (Inr r, s')"
  from c obtain a where a: "a \<in> set (approvals s)" "approval_live t h p a"
    and s': "s' = s\<lparr>approvals := upd_where (\<lambda>x. ap_ID x = ap_ID a) (\<lambda>x. x\<lparr>ap_Status := ApprovalUsed\<rparr>) (approvals s)\<rparr>"
    by (rule consume_row)
  have only: "x \<in> set (approvals s) \<Longrightarrow> ap_TokenHash x = h \<Longrightarrow> x = a" for x
    using inv a by (auto simp: ledger_inv_def approval_live_def intro: unique_key_eq)
  show "\<not> ledger_live s' t' h q"
    using only by (auto simp: s' ledger_live_def list_ex_iff approval_live_def elim!: in_upd_whereE)
next
  fix s :: store and t t' :: int and h h' p q
  assume "ledger_live (snd (db_ConsumeApproval s t h' p)) t' h q"
  then show "ledger_live s t' h q"
    by (auto simp: ledger_live_def list_ex_iff approval_live_def db_ConsumeApproval_def
        split: option.splits elim!: in_upd_whereE)
qed

end
