(* ===== verification/App_State.thy ===== *)
theory App_State
  imports Store_Tables
begin

text \<open>
  The state of \<open>application.App\<close>, the library code it calls, and the outside world.

  \<^item> \<^emph>\<open>app\<close> is the state: the tables, the object store, the runtime settings, the effective
    configuration, the parsed MCP policy, and the record of everything handed to the SMTP client.
  \<^item> \<^emph>\<open>lib\<close> collects the functions that are not modelled here and that the code calls for
    their result only: digests, the HTML sanitiser, address parsing, Unicode case tables,
    regular expressions written by users, archive readers.  They are arguments of every
    definition that uses them.
  \<^item> \<^emph>\<open>io\<close> is what one call observes of the world: the clock, fresh random identifiers
    (\<open>new_id p n\<close> is the answer to the \<open>n\<close>-th request for an id with prefix \<open>p\<close>, \<open>rand_bytes n k\<close>
    the \<open>n\<close>-th draw of \<open>k\<close> random bytes), the answers of the SMTP server, of the name resolver, of
    the secret store and of the POP3 and IMAP clients (an IMAP client may be absent).
\<close>

record SendConfig =
  MaxPerMinute :: int
  MaxPerHour :: int
  WarnRecipients :: int
  MaxRetries :: int
  RetryBaseSeconds :: int
  RetryMaxSeconds :: int
  DLPPolicy :: string
  DLPKeywords :: "string list"

record AttachmentConfig =
  BlockExtensions :: "string list"
  QuarantineExtensions :: "string list"
  ArchiveMaxEntries :: int
  ArchiveMaxTotalBytes :: int

text \<open>The fields of \<open>config.Config\<close> that the modelled operations read.\<close>

record config =
  Send :: SendConfig
  Attachments :: AttachmentConfig
  BannedPhrases :: "string list"
  AllowInsecureMail :: bool
  AllowPrivateHosts :: bool
  ConnectTimeoutSec :: int
  CommandTimeoutSec :: int
  MaxPerSync :: int
  MaxMessageBytes :: int
  SessionHours :: int
  BootstrapAdmin :: string
  BootstrapPassword :: string

text \<open>
  \<open>MCPPolicy\<close>; its maps are the lists of their entries, which the code ranges over.
\<close>

record MCPPolicy =
  RoleMaxLevel :: "(string \<times> string) list"
  RoleAllow :: "(string \<times> string list) list"
  RoleDeny :: "(string \<times> string list) list"
  DenyTools :: "string list"
  AllowTools :: "string list"

record app =
  st :: store
  objects :: "(string \<times> string) \<rightharpoonup> string"
  setting_values :: "string \<rightharpoonup> string"
  bound_values :: "string \<rightharpoonup> string"
  setting_defaults :: "string \<rightharpoonup> string"
  cfg :: config
  mcp_policy :: "MCPPolicy option"
  smtp_log :: "(SMTPSendOptions \<times> Envelope \<times> string) list"

record ZipEntry =
  ze_Name :: string
  ze_UncompressedSize64 :: "64 word"
  ze_CompressedSize64 :: "64 word"

text \<open>The result of \<open>mailparse.Parse\<close>; the date is kept in both forms the code uses.\<close>

record AttachmentPart =
  pa_Name :: string
  pa_MIMEType :: string
  pa_Inline :: bool
  pa_Data :: string

record Parsed =
  pm_Subject :: string
  pm_From :: Address
  pm_To :: "Address list"
  pm_Cc :: "Address list"
  pm_ReplyTo :: "Address list"
  pm_Bcc :: "Address list"
  pm_Date :: int
  pm_DateString :: string
  pm_MessageID :: string
  pm_InReplyTo :: string
  pm_References :: string
  pm_AuthResults :: string
  pm_TextBody :: string
  pm_HTMLSafe :: string
  pm_Charset :: string
  pm_Attachments :: "AttachmentPart list"
  pm_ParseError :: string

record lib =
  uni_lower :: "string \<Rightarrow> string"
  uni_upper :: "string \<Rightarrow> string"
  go_quote :: "string \<Rightarrow> string"
  sha256 :: "string \<Rightarrow> string"
  json_attachments :: "DraftAttachment list \<Rightarrow> string"
  parse_address_ok :: "string \<Rightarrow> bool"
  address_string :: "string \<Rightarrow> string \<Rightarrow> string"
  SanitizeApprovedOutbound :: "string \<Rightarrow> string"
  PlainText :: "string \<Rightarrow> string"
  PolicyText :: "string \<Rightarrow> string"
  RemoteImageSources :: "string \<Rightarrow> string list"
  IsProxiedImage :: "string \<Rightarrow> string \<Rightarrow> bool"
  InlineImageIDs :: "string \<Rightarrow> string list"
  q_encode :: "string \<Rightarrow> string"
  qp_encode :: "string \<Rightarrow> string"
  attachment_mime :: "MailAccount \<Rightarrow> DraftVersion \<Rightarrow> string \<Rightarrow> string \<Rightarrow> string \<Rightarrow> (string \<rightharpoonup> string) \<Rightarrow> err + string"
  parse_mail :: "string \<Rightarrow> Parsed"
  regexp_compile :: "string \<Rightarrow> (string \<Rightarrow> bool) option"
  zip_entries :: "string \<Rightarrow> ZipEntry list option"
  gzip_size :: "string \<Rightarrow> nat option"
  ratio_exceeds :: "64 word \<Rightarrow> 64 word \<Rightarrow> bool"
  fmt_ratio :: "64 word \<Rightarrow> 64 word \<Rightarrow> string"
  fmt_max_ratio :: string
  ext_scanner :: "(ScanInput \<Rightarrow> ScanVerdict) option"
  decode_policy :: "string \<Rightarrow> MCPPolicy option"
  unmarshal_policy :: "string \<Rightarrow> MCPPolicy option"
  argon2_key :: "string \<Rightarrow> string \<Rightarrow> string"
  parse_address :: "string \<Rightarrow> string option"
  uni_fold_eq :: "string \<Rightarrow> string \<Rightarrow> bool"
  ip_string :: "string \<Rightarrow> string"

record io =
  now :: int
  nsec :: int
  new_id :: "string \<Rightarrow> nat \<Rightarrow> string"
  rand_token :: "nat \<Rightarrow> string"
  rand_bytes :: "nat \<Rightarrow> nat \<Rightarrow> string"
  smtp_send :: "SMTPSendOptions \<Rightarrow> Envelope \<Rightarrow> string \<Rightarrow> SendReceipt \<times> err option"
  acquire_secret :: "string \<Rightarrow> err + string"
  date_header :: string
  mime_boundary :: string
  lookup_ip :: "string \<Rightarrow> err + string list"
  pop3_dial :: "InboundDialOptions \<Rightarrow> err + InboundSession"
  imap_dial :: "(InboundDialOptions \<Rightarrow> err + InboundSession) option"

text \<open>\<open>time.Now().Add(d).Unix()\<close>; the clock reads \<open>now\<close> seconds and \<open>nsec\<close> nanoseconds.\<close>

definition unix_after :: "io \<Rightarrow> int \<Rightarrow> int" where
  "unix_after w d = (now w * 1000000000 + nsec w + d) div 1000000000"

lemma unix_after_seconds:
  assumes "0 \<le> nsec w" "nsec w < 1000000000" "\<bar>n\<bar> \<le> 9223372036"
  shows "unix_after w (seconds n) = now w + n"
proof -
  have "now w * 1000000000 + nsec w + seconds n = (now w + n) * 1000000000 + nsec w"
    using assms(3) by (simp add: seconds_exact algebra_simps)
  then show ?thesis using assms(1,2) by (simp add: unix_after_def)
qed

section \<open>Settings\<close>

text \<open>
  \<open>App.Setting\<close>: the runtime value, else the value bound from the configuration, else the
  default of the catalogue, else the empty string.
\<close>

definition Setting :: "app \<Rightarrow> string \<Rightarrow> string" where
  "Setting a key =
     (case setting_values a key of
        Some v \<Rightarrow> v
      | None \<Rightarrow> (case bound_values a key of
                   Some v \<Rightarrow> v
                 | None \<Rightarrow> (case setting_defaults a key of Some v \<Rightarrow> v | None \<Rightarrow> [])))"

definition SettingBool :: "app \<Rightarrow> string \<Rightarrow> bool" where
  "SettingBool a key = (Setting a key = ''true'')"

definition SettingInt :: "app \<Rightarrow> string \<Rightarrow> int" where
  "SettingInt a key = fst (Atoi (Setting a key))"

section \<open>Writing to the state\<close>

definition app_audit :: "app \<Rightarrow> io \<Rightarrow> ctx \<Rightarrow> string \<Rightarrow> string \<Rightarrow> string \<Rightarrow> string \<Rightarrow> app" where
  "app_audit a w c action resource result detail =
     a\<lparr>st := audit (st a) (now w) c action resource result detail\<rparr>"

lemma app_audit_frame [simp]:
  "objects (app_audit a w c x r y d) = objects a"
  "setting_values (app_audit a w c x r y d) = setting_values a"
  "bound_values (app_audit a w c x r y d) = bound_values a"
  "setting_defaults (app_audit a w c x r y d) = setting_defaults a"
  "cfg (app_audit a w c x r y d) = cfg a"
  "mcp_policy (app_audit a w c x r y d) = mcp_policy a"
  "smtp_log (app_audit a w c x r y d) = smtp_log a"
  "st (app_audit a w c x r y d) = audit (st a) (now w) c x r y d"
  by (simp_all add: app_audit_def)

lemma Setting_app_audit [simp]:
  "Setting (app_audit a w c x r y d) k = Setting a k"
  "SettingBool (app_audit a w c x r y d) k = SettingBool a k"
  "SettingInt (app_audit a w c x r y d) k = SettingInt a k"
  by (simp_all add: Setting_def SettingBool_def SettingInt_def cong: option.case_cong)

lemma Setting_st [simp]:
  "Setting (a\<lparr>st := s\<rparr>) k = Setting a k"
  "SettingBool (a\<lparr>st := s\<rparr>) k = SettingBool a k"
  "SettingInt (a\<lparr>st := s\<rparr>) k = SettingInt a k"
  by (simp_all add: Setting_def SettingBool_def SettingInt_def cong: option.case_cong)

end
