(* ===== verification/Sample_World.thy ===== *)
theory Sample_World
  imports App_State
begin

text \<open>
  A concrete library, world and application state, on which the theorems with hypotheses are
  instantiated.  The library functions here are simple total functions of the right type; no
  theorem depends on them.
\<close>

definition sample_parsed :: Parsed where
  "sample_parsed = \<lparr>pm_Subject = ''hello'', pm_From = \<lparr>ad_Name = [], ad_Email = ''x@y.z''\<rparr>,
     pm_To = [], pm_Cc = [], pm_ReplyTo = [], pm_Bcc = [], pm_Date = 900, pm_DateString = [],
     pm_MessageID = ''<m1@y.z>'', pm_InReplyTo = [], pm_References = [], pm_AuthResults = [],
     pm_TextBody = ''body'', pm_HTMLSafe = [], pm_Charset = ''utf-8'', pm_Attachments = [],
     pm_ParseError = []\<rparr>"

definition sample_lib :: lib where
  "sample_lib = \<lparr>uni_lower = id, uni_upper = id,
     go_quote = (\<lambda>s. CHR 0x22 # s @ [CHR 0x22]), sha256 = id,
     json_attachments = (\<lambda>as. concat (map da_ID as)), parse_address_ok = (\<lambda>s. s \<noteq> []),
     address_string = (\<lambda>n e. CHR ''<'' # e @ [CHR ''>'']), SanitizeApprovedOutbound = id,
     PlainText = id, PolicyText = id, RemoteImageSources = (\<lambda>_. []),
     IsProxiedImage = (\<lambda>_ _. False), InlineImageIDs = (\<lambda>_. []), q_encode = id, qp_encode = id,
     attachment_mime = (\<lambda>_ _ _ _ _ _. Inr []), parse_mail = (\<lambda>_. sample_parsed),
     regexp_compile = (\<lambda>_. None),
     zip_entries = (\<lambda>_. None), gzip_size = (\<lambda>_. None), ratio_exceeds = (\<lambda>u c. u > 100 * c),
     fmt_ratio = (\<lambda>_ _. []), fmt_max_ratio = ''100'', ext_scanner = None,
     decode_policy = (\<lambda>_. None), unmarshal_policy = (\<lambda>_. None), argon2_key = (\<lambda>p s. take 32 (p @ s @ replicate 32 CHR ''k'')),
     parse_address = Some, uni_fold_eq = (\<lambda>x y. x = y), ip_string = id\<rparr>"

definition sample_session :: InboundSession where
  "sample_session =
     (let listed = Inr [\<lparr>rm_Number = 1, rm_UIDL = ''u1'', rm_Size = 2\<rparr>, \<lparr>rm_Number = 2, rm_UIDL = ''u2'', rm_Size = 2\<rparr>]
      in \<lparr>se_List = listed, se_UIDL = listed, se_Retrieve = (\<lambda>_. Inr ''hi''), se_Delete = (\<lambda>_. None),
          se_Quit = None, se_Sent = None\<rparr>)"

definition sample_io :: io where
  "sample_io = \<lparr>now = 1000, nsec = 0, new_id = (\<lambda>p n. p @ ''_'' @ dec n), rand_token = (\<lambda>n. replicate n CHR ''t''),
     rand_bytes = (\<lambda>i n. replicate n (char_of i)),
     smtp_send = (\<lambda>_ _ _. (\<lparr>rc_ServerResponse = ''250 ok'', rc_Uncertain = False\<rparr>, None)),
     acquire_secret = (\<lambda>_. Inr ''pw''), date_header = ''Thu, 01 Jan 1970 00:16:40 +0000'',
     mime_boundary = ''b'',
     lookup_ip = (\<lambda>_. Inr [utf8 [93, 184, 216, 34]]), pop3_dial = (\<lambda>_. Inr sample_session), imap_dial = None\<rparr>"

definition sample_cfg :: config where
  "sample_cfg = \<lparr>
     Send = \<lparr>MaxPerMinute = 10, MaxPerHour = 100, WarnRecipients = 10, MaxRetries = 3,
             RetryBaseSeconds = 60, RetryMaxSeconds = 3600, DLPPolicy = ''block'', DLPKeywords = []\<rparr>,
     Attachments = \<lparr>BlockExtensions = [''exe''], QuarantineExtensions = [''zip''],
             ArchiveMaxEntries = 100, ArchiveMaxTotalBytes = 1000000\<rparr>,
     BannedPhrases = [], AllowInsecureMail = False, AllowPrivateHosts = True, ConnectTimeoutSec = 30,
     CommandTimeoutSec = 60, MaxPerSync = 0, MaxMessageBytes = 1000000, SessionHours = 24,
     BootstrapAdmin = [], BootstrapPassword = []\<rparr>"

definition sample_app :: app where
  "sample_app = \<lparr>st = empty_store, objects = Map.empty,
     setting_values = map_of [(''mcp.enabled'', ''true''), (''mcp.permissions.send'', ''true''),
                       (''mcp.permissions.read'', ''true''), (''mcp.permissions.search'', ''true'')],
     bound_values = Map.empty, setting_defaults = Map.empty, cfg = sample_cfg,
     mcp_policy = None, smtp_log = []\<rparr>"

definition sample_principal :: "string \<Rightarrow> string list \<Rightarrow> Principal" where
  "sample_principal method scopes =
     \<lparr>p_UserID = ''usr_1'', p_LoginID = ''kim'', p_DisplayName = ''Kim'', p_Role = RoleUser,
      p_AuthMethod = method, p_MCPKeyID = [], p_MCPScopes = scopes\<rparr>"

definition sample_ctx :: "string \<Rightarrow> string list \<Rightarrow> ctx" where
  "sample_ctx method scopes =
     \<lparr>c_actor = Some ''mcp'', c_principal = Some (sample_principal method scopes)\<rparr>"

definition sample_message :: Message where
  "sample_message =
     \<lparr>m_ID = ''msg_1'', m_UserID = ''usr_1'', m_AccountID = ''acc_1'', m_UIDL = ''u1'',
      m_MessageID = ''<m1@y.z>'', m_Subject = ''hello'', m_From = \<lparr>ad_Name = [], ad_Email = ''x@y.z''\<rparr>,
      m_To = [], m_Cc = [], m_ReplyTo = [], m_Bcc = [], m_Date = 900, m_Size = 4,
      m_RawHash = ''h1'', m_RawURI = ''local://raw/h1'', m_ThreadID = [], m_HasAttachments = False,
      m_InReplyTo = [], m_References = [], m_AuthResults = [], m_ParseError = [], m_CreatedAt = 950,
      m_IsArchived = False, m_IsImportant = False, m_IsRead = False, m_SnoozedUntil = 0,
      m_Labels = [], m_LegalHold = False, m_Mailbox = MailboxInbox\<rparr>"

definition sample_account :: MailAccount where
  "sample_account =
     \<lparr>a_ID = ''acc_1'', a_UserID = ''usr_1'', a_Name = ''Kim'', a_Email = ''kim@corp.test'',
      a_Status = AccountActive, a_InboundProtocol = ''pop3'', a_POP3Host = ''pop.corp.test'',
      a_POP3Port = 995, a_POP3Security = SecurityTLS, a_POP3Username = ''kim'', a_POP3Secret = [],
      a_SMTPHost = ''smtp.corp.test'', a_SMTPPort = 465, a_SMTPSecurity = SecurityTLS,
      a_SMTPUsername = ''kim'', a_SMTPAuth = ''none'', a_SMTPSecret = [],
      a_InsecureSkipVerify = False, a_CreatedAt = 1, a_UpdatedAt = 1\<rparr>"

lemmas sample_defs = sample_lib_def sample_io_def sample_cfg_def sample_app_def
  sample_principal_def sample_ctx_def

end
