(* ===== verification/Approvals.thy ===== *)
theory Approvals
  imports Store_Outbox Sample_World
begin

text \<open>
  One-time approvals (\<open>Issue\<close> and \<open>VerifyAndConsume\<close> of \<open>src/internal/application/send.go\<close>) and the
  digest that binds an approval to what is sent (\<open>sendPayloadHash\<close>).
\<close>

section \<open>The payload digest\<close>

definition addrKey :: "lib \<Rightarrow> Address list \<Rightarrow> string" where
  "addrKey L xs = join '','' (map (\<lambda>x. ToLower (uni_lower L) (ad_Email x)) xs)"

definition nl :: string where "nl = [CHR 0x0A]"

definition body_digest :: "lib \<Rightarrow> DraftVersion \<Rightarrow> string" where
  "body_digest L v = hex (sha256 L (v_BodyText v @ [CHR 0x00] @ v_BodyHTML v))"

text \<open>The text that is hashed: one line per field, and one for the attachments if there are any.\<close>

definition payload_text :: "lib \<Rightarrow> MailAccount \<Rightarrow> DraftVersion \<Rightarrow> string" where
  "payload_text L acc v =
     ''account='' @ a_ID acc @ nl @ ''from='' @ a_Email acc @ nl @ ''to='' @ addrKey L (v_To v) @ nl @
     ''cc='' @ addrKey L (v_Cc v) @ nl @ ''bcc='' @ addrKey L (v_Bcc v) @ nl @
     ''subject='' @ v_Subject v @ nl @ ''body='' @ body_digest L v @ nl @
     ''version='' @ fmt_d (v_Version v) @ nl @
     (if v_Attachments v \<noteq> []
      then ''attachments='' @ hex (sha256 L (json_attachments L (v_Attachments v))) @ nl else [])"

definition sendPayloadHash :: "lib \<Rightarrow> MailAccount \<Rightarrow> DraftVersion \<Rightarrow> string" where
  "sendPayloadHash L acc v = hex (sha256 L (payload_text L acc v))"

section \<open>Issuing and consuming\<close>

definition Issue :: "lib \<Rightarrow> io \<Rightarrow> app \<Rightarrow> ApprovalRequest \<Rightarrow> (err + ApprovalToken) \<times> app" where
  "Issue L w a req =
     (let token = rand_token w 32;
          ttl = (if ar_TTLSeconds req \<le> 0 then 600 else ar_TTLSeconds req);
          expires = unix_after w (seconds ttl);
          apid = new_id w ''apr'' 0
      in case db_InsertApproval (st a) (now w) apid (ar_UserID req) (ar_ActionType req) (ar_DraftID req)
                (ar_DraftVersion req) (ar_PayloadHash req) (hex (sha256 L token)) (ar_Approver req) expires of
           Inl e \<Rightarrow> (Inl e, a)
         | Inr s' \<Rightarrow> (Inr \<lparr>tok_ID = apid, tok_Token = token, tok_Expires = expires\<rparr>, a\<lparr>st := s'\<rparr>))"

definition VerifyAndConsume :: "lib \<Rightarrow> io \<Rightarrow> app \<Rightarrow> string \<Rightarrow> string \<Rightarrow> err option \<times> app" where
  "VerifyAndConsume L w a token payloadHash =
     (case db_ConsumeApproval (st a) (now w) (hex (sha256 L token)) payloadHash of
        (Inl e, s') \<Rightarrow> (Some e, a\<lparr>st := s'\<rparr>)
      | (Inr r, s') \<Rightarrow> (None, a\<lparr>st := s'\<rparr>))"

section \<open>The digest determines the payload\<close>

text \<open>
  Two lines texts with the same labels agree line by line when their first field has no line break;
  repeated, this takes a payload text apart.
\<close>

lemma labelled_line:
  assumes "line_safe x" "line_safe y" "lab @ x @ nl @ r = lab @ y @ nl @ s"
  shows "x = y \<and> r = s"
  using line_split [of x y r s] assms by (simp add: nl_def)

definition collision_free :: "lib \<Rightarrow> string \<Rightarrow> string \<Rightarrow> bool" where
  "collision_free L x y \<longleftrightarrow> (sha256 L x = sha256 L y \<longrightarrow> x = y)"

text \<open>What validation guarantees of the fields that are written as lines.\<close>

definition payload_safe :: "lib \<Rightarrow> MailAccount \<Rightarrow> DraftVersion \<Rightarrow> bool" where
  "payload_safe L acc v \<longleftrightarrow>
     line_safe (a_ID acc) \<and> line_safe (a_Email acc) \<and> line_safe (v_Subject v) \<and>
     line_safe (addrKey L (v_To v)) \<and> line_safe (addrKey L (v_Cc v)) \<and> line_safe (addrKey L (v_Bcc v))"

definition att_text :: "lib \<Rightarrow> DraftVersion \<Rightarrow> string" where
  "att_text L v = (if v_Attachments v \<noteq> []
      then ''attachments='' @ hex (sha256 L (json_attachments L (v_Attachments v))) @ nl else [])"

lemma payload_text_lines:
  assumes "payload_safe L acc v" "payload_safe L acc' v'" "payload_text L acc v = payload_text L acc' v'"
  shows "a_ID acc = a_ID acc'" "a_Email acc = a_Email acc'"
    "addrKey L (v_To v) = addrKey L (v_To v')" "addrKey L (v_Cc v) = addrKey L (v_Cc v')"
    "addrKey L (v_Bcc v) = addrKey L (v_Bcc v')" "v_Subject v = v_Subject v'"
    "body_digest L v = body_digest L v'" "v_Version v = v_Version v'" "att_text L v = att_text L v'"
proof -
  note safe = assms(1,2) [unfolded payload_safe_def]
  note eq = assms(3) [unfolded payload_text_def, folded att_text_def]
  note l1 = labelled_line [OF _ _ eq]
  have 1: "a_ID acc = a_ID acc'" using l1 safe by blast
  note l2 = labelled_line [OF _ _ l1 [THEN conjunct2]]
  have 2: "a_Email acc = a_Email acc'" using l2 safe by blast
  note l3 = labelled_line [OF _ _ l2 [THEN conjunct2]]
  have 3: "addrKey L (v_To v) = addrKey L (v_To v')" using l3 safe by blast
  note l4 = labelled_line [OF _ _ l3 [THEN conjunct2]]
  have 4: "addrKey L (v_Cc v) = addrKey L (v_Cc v')" using l4 safe by blast
  note l5 = labelled_line [OF _ _ l4 [THEN conjunct2]]
  have 5: "addrKey L (v_Bcc v) = addrKey L (v_Bcc v')" using l5 safe by blast
  note l6 = labelled_line [OF _ _ l5 [THEN conjunct2]]
  have 6: "v_Subject v = v_Subject v'" using l6 safe by blast
  note l7 = labelled_line [OF _ _ l6 [THEN conjunct2]]
  have h: "line_safe (body_digest L v)" "line_safe (body_digest L v')" by (simp_all add: body_digest_def)
  have 7: "body_digest L v = body_digest L v'" using l7 safe h by blast
  note l8 = labelled_line [OF _ _ l7 [THEN conjunct2]]
  have 8: "fmt_d (v_Version v) = fmt_d (v_Version v') \<and> att_text L v = att_text L v'"
    by (rule l8) (use safe h in simp_all)
  show "a_ID acc = a_ID acc'" "a_Email acc = a_Email acc'"
    "addrKey L (v_To v) = addrKey L (v_To v')" "addrKey L (v_Cc v) = addrKey L (v_Cc v')"
    "addrKey L (v_Bcc v) = addrKey L (v_Bcc v')" "v_Subject v = v_Subject v'"
    "body_digest L v = body_digest L v'" "v_Version v = v_Version v'" "att_text L v = att_text L v'"
    using 1 2 3 4 5 6 7 8 fmt_d_inj by blast+
qed

lemma att_text_eq:
  assumes "att_text L v = att_text L v'"
    and "collision_free L (json_attachments L (v_Attachments v)) (json_attachments L (v_Attachments v'))"
  shows "(v_Attachments v = [] \<longleftrightarrow> v_Attachments v' = []) \<and>
     (v_Attachments v \<noteq> [] \<longrightarrow> json_attachments L (v_Attachments v) = json_attachments L (v_Attachments v'))"
  using assms by (auto simp: att_text_def collision_free_def nl_def dest: hex_inj split: if_splits)

definition same_payload :: "lib \<Rightarrow> MailAccount \<Rightarrow> DraftVersion \<Rightarrow> MailAccount \<Rightarrow> DraftVersion \<Rightarrow> bool" where
  "same_payload L acc v acc' v' \<longleftrightarrow>
     a_ID acc = a_ID acc' \<and> a_Email acc = a_Email acc' \<and> addrKey L (v_To v) = addrKey L (v_To v') \<and>
     addrKey L (v_Cc v) = addrKey L (v_Cc v') \<and> addrKey L (v_Bcc v) = addrKey L (v_Bcc v') \<and>
     v_Subject v = v_Subject v' \<and>
     v_BodyText v @ [CHR 0x00] @ v_BodyHTML v = v_BodyText v' @ [CHR 0x00] @ v_BodyHTML v' \<and>
     v_Version v = v_Version v' \<and>
     (v_Attachments v \<noteq> [] \<longrightarrow> json_attachments L (v_Attachments v) = json_attachments L (v_Attachments v')) \<and>
     (v_Attachments v = [] \<longleftrightarrow> v_Attachments v' = [])"

definition no_payload_collision :: "lib \<Rightarrow> MailAccount \<Rightarrow> DraftVersion \<Rightarrow> MailAccount \<Rightarrow> DraftVersion \<Rightarrow> bool" where
  "no_payload_collision L acc v acc' v' \<longleftrightarrow>
     collision_free L (payload_text L acc v) (payload_text L acc' v') \<and>
     collision_free L (v_BodyText v @ [CHR 0x00] @ v_BodyHTML v) (v_BodyText v' @ [CHR 0x00] @ v_BodyHTML v') \<and>
     collision_free L (json_attachments L (v_Attachments v)) (json_attachments L (v_Attachments v'))"

lemma payload_digest_eq:
  assumes "sendPayloadHash L acc v = sendPayloadHash L acc' v'"
    and "payload_safe L acc v" and "payload_safe L acc' v'" and "no_payload_collision L acc v acc' v'"
  shows "same_payload L acc v acc' v'"
proof -
  note cf = assms(4) [unfolded no_payload_collision_def]
  have eq: "payload_text L acc v = payload_text L acc' v'"
    using assms(1) cf by (auto simp: sendPayloadHash_def collision_free_def dest: hex_inj)
  note lines = payload_text_lines [OF assms(2,3) eq]
  have "v_BodyText v @ [CHR 0x00] @ v_BodyHTML v = v_BodyText v' @ [CHR 0x00] @ v_BodyHTML v'"
    using lines(7) cf by (auto simp: body_digest_def collision_free_def dest: hex_inj)
  then show ?thesis using lines att_text_eq [OF lines(9)] cf unfolding same_payload_def by blast
qed

lemma Issue_ok:
  assumes "Issue L w a req = (Inr tok, a')"
  shows "tok_Token tok = rand_token w 32"
    "approvals (st a') = approvals (st a) @ [\<lparr>ap_ID = tok_ID tok, ap_UserID = ar_UserID req,
       ap_ActionType = ar_ActionType req, ap_DraftID = ar_DraftID req, ap_DraftVersion = ar_DraftVersion req,
       ap_PayloadHash = ar_PayloadHash req, ap_TokenHash = hex (sha256 L (tok_Token tok)),
       ap_Approver = ar_Approver req, ap_ExpiresAt = tok_Expires tok, ap_Status = ApprovalPending,
       ap_CreatedAt = now w\<rparr>]"
    "tok_ID tok \<notin> ap_ID ` set (approvals (st a))"
  using assms by (auto simp: Issue_def Let_def db_InsertApproval_def no_row_iff split: if_splits)

lemma VerifyAndConsume_ok:
  "fst (VerifyAndConsume L w a token p) = None \<longleftrightarrow> ledger_live (st a) (now w) (hex (sha256 L token)) p"
  using db_ledger.consume_ok_iff [of "st a" "now w" "hex (sha256 L token)" p]
  by (auto simp: VerifyAndConsume_def split: prod.splits sum.splits)

lemma Issue_live:
  assumes "Issue L w a req = (Inr tok, a')"
    and "hex (sha256 L (rand_token w 32)) \<notin> ap_TokenHash ` set (approvals (st a))"
  shows "ledger_live (st a') t (hex (sha256 L (tok_Token tok))) p \<longleftrightarrow>
           p = ar_PayloadHash req \<and> t < tok_Expires tok"
  using Issue_ok [OF assms(1)] assms(2)
  by (auto simp: ledger_live_def approval_live_def list_ex_iff image_iff)

lemma Issue_inv:
  assumes "ledger_inv (st a)" "Issue L w a req = (Inr tok, a')"
    and "hex (sha256 L (rand_token w 32)) \<notin> ap_TokenHash ` set (approvals (st a))"
  shows "ledger_inv (st a')"
  using assms(1,3) Issue_ok [OF assms(2)] by (auto simp: ledger_inv_def)

section \<open>Properties\<close>

text \<open>
  An approval is bound to what was previewed: when two drafts have the same payload digest,
  and the digest has no collision on the texts involved, they agree on the account, the sender
  address, all recipient addresses, the subject, the bodies, the version number and the serialised
  attachments.
\<close>

theorem payload_hash_binds:
  assumes "sendPayloadHash L acc v = sendPayloadHash L acc' v'"
    and "payload_safe L acc v" and "payload_safe L acc' v'" and "no_payload_collision L acc v acc' v'"
  shows "same_payload L acc v acc' v'"
  using assms by (rule payload_digest_eq)

definition sample_version :: DraftVersion where
  "sample_version = \<lparr>v_DraftID = ''drf_1'', v_Version = 1, v_Subject = ''Hi'', v_BodyText = ''text'',
     v_BodyHTML = [], v_To = [\<lparr>ad_Name = [], ad_Email = ''lee@corp.test''\<rparr>], v_Cc = [], v_Bcc = [],
     v_Author = ''user'', v_CreatedAt = 1, v_Attachments = []\<rparr>"

theorem payload_hash_binds_witness:
  "same_payload sample_lib sample_account sample_version sample_account (sample_version\<lparr>v_Author := ''ai''\<rparr>)"
proof -
  have "sendPayloadHash sample_lib sample_account sample_version =
      sendPayloadHash sample_lib sample_account (sample_version\<lparr>v_Author := ''ai''\<rparr>)"
    by (simp add: sendPayloadHash_def payload_text_def body_digest_def)
  moreover have "payload_safe sample_lib sample_account sample_version"
    "payload_safe sample_lib sample_account (sample_version\<lparr>v_Author := ''ai''\<rparr>)"
    by (simp_all add: payload_safe_def line_safe_def sample_account_def sample_version_def addrKey_def
          ToLower_def is_ascii_def byte_def ascii_lower_def)
  moreover have "no_payload_collision sample_lib acc v acc' v'" for acc v acc' v'
    by (simp add: no_payload_collision_def collision_free_def sample_lib_def)
  ultimately show ?thesis using payload_hash_binds by blast
qed

text \<open>
  C38.  An issued token can be used exactly once, with the payload it was issued for and before it
  expires: using it succeeds then, and every later attempt with it fails, whatever the payload.
\<close>


theorem approval_used_at_most_once:
  assumes "ledger_inv (st a)" and "Issue L w a req = (Inr tok, a')"
    and "hex (sha256 L (rand_token w 32)) \<notin> ap_TokenHash ` set (approvals (st a))"
  shows "(fst (VerifyAndConsume L w' a' (tok_Token tok) p) = None \<longleftrightarrow>
            p = ar_PayloadHash req \<and> now w' < tok_Expires tok) \<and>
         accepted db_ConsumeApproval (hex (sha256 L (tok_Token tok))) (st a') attempts \<le> 1"
  using Issue_live [OF assms(2,3)] db_ledger.accepted_at_most_once [OF Issue_inv [OF assms]]
  by (simp add: VerifyAndConsume_ok)

definition sample_req :: ApprovalRequest where
  "sample_req = \<lparr>ar_UserID = ''usr_1'', ar_ActionType = ''mail_send'', ar_DraftID = ''drf_1'',
     ar_DraftVersion = 1, ar_PayloadHash = ''p'', ar_TTLSeconds = 0, ar_Approver = ''kim''\<rparr>"

theorem approval_used_at_most_once_witness:
  "fst (VerifyAndConsume sample_lib sample_io (snd (Issue sample_lib sample_io sample_app sample_req))
      (rand_token sample_io 32) ''p'') = None"
proof -
  have s: "ledger_inv (st sample_app)" "approvals (st sample_app) = []"
    by (simp_all add: sample_app_def empty_store_def ledger_inv_def)
  have t: "unix_after sample_io (seconds 600) = 1600"
    by (simp add: unix_after_seconds sample_io_def)
  obtain tok a' where i: "Issue sample_lib sample_io sample_app sample_req = (Inr tok, a')"
    and tok: "tok_Token tok = rand_token sample_io 32" "tok_Expires tok = 1600"
    by (simp add: Issue_def Let_def db_InsertApproval_def no_row_def s sample_req_def t)
  have "now sample_io < tok_Expires tok" "ar_PayloadHash sample_req = ''p''"
    by (simp_all add: tok sample_io_def sample_req_def)
  then show ?thesis
    using approval_used_at_most_once [OF s(1) i, of sample_io "''p''" "[]"]
    by (simp add: s tok i)
qed
end
