(* ===== verification/Object_Store.thy ===== *)
theory Object_Store
  imports Sample_World
begin

text \<open>
  The content-addressed object store (\<open>src/internal/adapters/objectstore\<close> over the table
  \<open>objects\<close> of the database).  An object is named by the digest of its plaintext, so writing is
  idempotent; \<open>local://kind/name\<close> is its address.  The envelope encryption that \<open>Encrypted\<close> adds
  around it is modelled in the theory \<open>Secret_Store\<close>.
\<close>

section \<open>The contract of a content-addressed store\<close>

locale content_store =
  fixes put :: "'s \<Rightarrow> string \<Rightarrow> string \<Rightarrow> err + (string \<times> string \<times> int \<times> 's)"
    and get :: "'s \<Rightarrow> string \<Rightarrow> err + string"
    and valid :: "'s \<Rightarrow> bool"
    and kind_ok :: "string \<Rightarrow> bool"
    and fresh_or_same :: "'s \<Rightarrow> string \<Rightarrow> string \<Rightarrow> bool"
  assumes put_valid: "valid s \<Longrightarrow> put s kind d = Inr (u, h, n, s') \<Longrightarrow> valid s'"
    and get_put: "valid s \<Longrightarrow> kind_ok kind \<Longrightarrow> fresh_or_same s kind d \<Longrightarrow>
        put s kind d = Inr (u, h, n, s') \<Longrightarrow> get s' u = Inr d"
    and get_keeps: "put s kind d = Inr (u, h, n, s') \<Longrightarrow> get s u' = Inr x \<Longrightarrow> get s' u' = Inr x"
begin

text \<open>What was readable stays readable over any number of writes, the new object included.\<close>

fun put_all :: "'s \<Rightarrow> (string \<times> string) list \<Rightarrow> err + 's" where
  "put_all s [] = Inr s"
| "put_all s ((k, d) # ds) =
     (case put s k d of Inl e \<Rightarrow> Inl e | Inr (u, h, n, s') \<Rightarrow> put_all s' ds)"

lemma get_put_all: "put_all s ds = Inr s' \<Longrightarrow> get s u = Inr x \<Longrightarrow> get s' u = Inr x"
  by (induction s ds rule: put_all.induct) (auto split: sum.splits dest: get_keeps)

lemma get_put_then_all:
  assumes "valid s" "kind_ok kind" "fresh_or_same s kind d"
    and "put s kind d = Inr (u, h, n, s')" and "put_all s' ds = Inr s''"
  shows "get s'' u = Inr d"
  using get_put [OF assms(1-4)] get_put_all [OF assms(5)] by blast

end

section \<open>Addresses\<close>

definition uri :: "string \<Rightarrow> string \<Rightarrow> string" where
  "uri kind name = ''local://'' @ kind @ ''/'' @ name"

definition bad_path :: "string \<Rightarrow> bool" where
  "bad_path s = ContainsAny s [CHR ''/'', CHR 0x5C, CHR ''.'']"

definition parseURI :: "string \<Rightarrow> err + (string \<times> string)" where
  "parseURI u =
     (if \<not> HasPrefix u ''local://'' then Inl (SysError ''unsupported object URI'')
      else
        (let rest = drop 8 u;
             kind = takeWhile (\<lambda>c. c \<noteq> CHR ''/'') rest;
             name = tl (dropWhile (\<lambda>c. c \<noteq> CHR ''/'') rest)
         in if CHR ''/'' \<notin> set rest \<or> length name < 2 \<or> bad_path kind \<or> bad_path name
            then Inl (SysError ''malformed object URI'')
            else Inr (kind, name)))"

section \<open>Operations\<close>

type_synonym objs = "(string \<times> string) \<rightharpoonup> string"

definition maxObjectBytes :: int where "maxObjectBytes = 200 * 2 ^ 20"

text \<open>\<open>PutObject\<close> leaves an existing row alone; \<open>DBStore.Put\<close> names the object by its digest.\<close>

definition db_PutObject :: "objs \<Rightarrow> string \<Rightarrow> string \<Rightarrow> string \<Rightarrow> objs" where
  "db_PutObject m kind name blob =
     (case m (kind, name) of None \<Rightarrow> m((kind, name) \<mapsto> blob) | Some _ \<Rightarrow> m)"

definition obj_Put :: "lib \<Rightarrow> objs \<Rightarrow> string \<Rightarrow> string \<Rightarrow> err + (string \<times> string \<times> int \<times> objs)" where
  "obj_Put L m kind data =
     (if int (length data) > maxObjectBytes
      then Inl (SysError (''object exceeds '' @ fmt_d maxObjectBytes @ '' bytes''))
      else (let name = hex (sha256 L data)
            in Inr (uri kind name, name, int (length data), db_PutObject m kind name data)))"

definition obj_Get :: "objs \<Rightarrow> string \<Rightarrow> err + string" where
  "obj_Get m u =
     (case parseURI u of
        Inl e \<Rightarrow> Inl e
      | Inr (kind, name) \<Rightarrow> (case m (kind, name) of None \<Rightarrow> Inl ErrNotFound | Some d \<Rightarrow> Inr d))"

definition obj_Delete :: "objs \<Rightarrow> string \<Rightarrow> err + objs" where
  "obj_Delete m u =
     (case parseURI u of Inl e \<Rightarrow> Inl e | Inr kn \<Rightarrow> Inr (m(kn := None)))"

section \<open>Laws\<close>

lemma parseURI_uri:
  assumes "\<not> bad_path kind" "\<not> bad_path name" "2 \<le> length name"
  shows "parseURI (uri kind name) = Inr (kind, name)"
proof -
  have k: "CHR ''/'' \<notin> set kind"
    using assms(1) by (auto simp: bad_path_def ContainsAny_def list_ex_iff)
  have r: "drop 8 (uri kind name) = kind @ CHR ''/'' # name" by (simp add: uri_def)
  have t: "takeWhile (\<lambda>c. c \<noteq> CHR ''/'') (kind @ CHR ''/'' # name) = kind"
    "dropWhile (\<lambda>c. c \<noteq> CHR ''/'') (kind @ CHR ''/'' # name) = CHR ''/'' # name"
    using k by (auto simp: takeWhile_append dropWhile_append)
  have "HasPrefix (uri kind name) ''local://''" by (simp add: HasPrefix_def uri_def)
  then show ?thesis using assms by (simp add: parseURI_def r t Let_def)
qed

lemma byte_hex_digit: "d < 16 \<Longrightarrow> 48 \<le> byte (hex_digit d) \<and> byte (hex_digit d) \<le> 102 \<and> byte (hex_digit d) \<noteq> 92"
  by (auto simp: hex_digit_def)

lemma set_hex: "c \<in> set (hex s) \<Longrightarrow> 48 \<le> byte c \<and> byte c \<le> 102 \<and> byte c \<noteq> 92"
proof (induction s)
  case (Cons x s)
  have "byte x mod 16 < 16" by simp
  with Cons show ?case
    using byte_hex_digit [of "byte x div 16"] byte_hex_digit [of "byte x mod 16"]
    by (auto simp: hex_Cons)
qed simp

lemma hex_not_bad: "\<not> bad_path (hex s)"
proof -
  have "byte c \<notin> {46, 47, 92}" if "c \<in> set (hex s)" for c
    using set_hex [OF that] by auto
  moreover have "byte (CHR ''/'') = 47" "byte (CHR ''.'') = 46" "byte (CHR 0x5C) = 92"
    by (simp_all add: byte_def)
  ultimately show ?thesis
    by (fastforce simp: bad_path_def ContainsAny_def list_ex_iff)
qed

lemma length_hex: "length (hex s) = 2 * length s"
  by (induction s) (simp_all add: hex_Cons)

text \<open>Every object is stored under the digest of its content.\<close>

definition addressed :: "lib \<Rightarrow> objs \<Rightarrow> bool" where
  "addressed L m \<longleftrightarrow> (\<forall>k n d. m (k, n) = Some d \<longrightarrow> n = hex (sha256 L d))"

text \<open>Among the objects of this kind, the digest of the data belongs to no other content.\<close>

definition no_collision :: "lib \<Rightarrow> objs \<Rightarrow> string \<Rightarrow> string \<Rightarrow> bool" where
  "no_collision L m kind data \<longleftrightarrow>
     sha256 L data \<noteq> [] \<and> (\<forall>n d. m (kind, n) = Some d \<longrightarrow> sha256 L d = sha256 L data \<longrightarrow> d = data)"

lemma obj_Put_Some:
  "obj_Put L m kind d = Inr (u, h, n, m') \<longleftrightarrow>
     int (length d) \<le> maxObjectBytes \<and> h = hex (sha256 L d) \<and> u = uri kind h \<and>
     n = int (length d) \<and> m' = db_PutObject m kind h d"
  by (auto simp: obj_Put_def Let_def)

lemma db_PutObject_addressed: "addressed L m \<Longrightarrow> addressed L (db_PutObject m k (hex (sha256 L d)) d)"
  by (auto simp: addressed_def db_PutObject_def split: option.splits)

lemma db_PutObject_keeps: "m kn = Some x \<Longrightarrow> db_PutObject m k n d kn = Some x"
  by (auto simp: db_PutObject_def split: option.splits)

lemma db_PutObject_same:
  assumes "addressed L m" "no_collision L m k d"
  shows "db_PutObject m k (hex (sha256 L d)) d (k, hex (sha256 L d)) = Some d"
proof (cases "m (k, hex (sha256 L d))")
  case (Some x)
  with assms(1) have "hex (sha256 L d) = hex (sha256 L x)" unfolding addressed_def by blast
  then have "sha256 L x = sha256 L d" by (metis hex_inj)
  with assms(2) Some show ?thesis by (simp add: no_collision_def db_PutObject_def)
qed (simp add: db_PutObject_def)

interpretation blobs: content_store "obj_Put L" obj_Get "addressed L" "\<lambda>k. \<not> bad_path k" "no_collision L"
  for L
proof unfold_locales
  fix s kind d u h n s'
  show "addressed L s \<Longrightarrow> obj_Put L s kind d = Inr (u, h, n, s') \<Longrightarrow> addressed L s'"
    by (simp add: obj_Put_Some db_PutObject_addressed)
  assume inv: "addressed L s" "\<not> bad_path kind" "no_collision L s kind d"
    and p: "obj_Put L s kind d = Inr (u, h, n, s')"
  have "2 \<le> length (hex (sha256 L d))"
    using inv(3) by (cases "sha256 L d") (auto simp: no_collision_def length_hex)
  then have "parseURI u = Inr (kind, hex (sha256 L d))"
    using p inv(2) by (simp add: obj_Put_Some parseURI_uri hex_not_bad)
  then show "obj_Get s' u = Inr d"
    using p db_PutObject_same [OF inv(1,3)] by (simp add: obj_Get_def obj_Put_Some)
next
  fix s kind d u h n s' u' x
  assume "obj_Put L s kind d = Inr (u, h, n, s')" "obj_Get s u' = Inr x"
  then show "obj_Get s' u' = Inr x"
    by (auto simp: obj_Get_def obj_Put_Some db_PutObject_keeps split: sum.splits option.splits prod.splits)
qed

section \<open>Properties\<close>

text \<open>
  What is put into the object store is what is read back at the returned address, also after
  any further writes, as long as the digest does not collide with an object already stored.
\<close>

theorem object_roundtrip:
  assumes "addressed L m" and "\<not> bad_path kind" and "no_collision L m kind d"
    and "obj_Put L m kind d = Inr (u, h, n, m')" and "blobs.put_all L m' ds = Inr m''"
  shows "obj_Get m'' u = Inr d \<and> h = hex (sha256 L d) \<and> n = int (length d)"
  using blobs.get_put_then_all [OF assms] assms(4) by (simp add: obj_Put_Some)

theorem object_roundtrip_witness:
  "obj_Get [(''raw'', ''6869'') \<mapsto> ''hi''] ''local://raw/6869'' = Inr ''hi''"
proof -
  have h: "hex (sha256 sample_lib ''hi'') = ''6869''" by code_simp
  have p: "obj_Put sample_lib Map.empty ''raw'' ''hi'' =
      Inr (''local://raw/6869'', ''6869'', 2, [(''raw'', ''6869'') \<mapsto> ''hi''])"
    by (simp add: obj_Put_def h Let_def uri_def db_PutObject_def maxObjectBytes_def)
  have a: "addressed sample_lib Map.empty" "\<not> bad_path ''raw''"
    "no_collision sample_lib Map.empty ''raw'' ''hi''"
    by (simp_all add: addressed_def no_collision_def bad_path_def ContainsAny_def sample_lib_def)
  show ?thesis
    by (rule object_roundtrip [OF a p, of "[]", THEN conjunct1]) simp
qed
end
