(* ===== verification/Attachment_Scan.thy ===== *)
theory Attachment_Scan
  imports Object_Store
begin

text \<open>
  Attachment policy: the built-in scanner \<open>src/internal/adapters/malware/heuristic.go\<close>, the
  application's scanning entry point \<open>attachment_policy.go\<close>, and the checks on the attachments
  of a draft in \<open>draft_attachments.go\<close>.

  Reading an archive is library code: \<open>zip_entries\<close> is the directory of a zip file (or None when
  the file does not parse), \<open>gzip_size\<close> the number of bytes a gzip stream decodes to, and
  \<open>ratio_exceeds u c\<close> is the floating-point comparison \<open>u / c > maxRatio\<close>.
\<close>

section \<open>The scanner contract\<close>

text \<open>
  What the port \<open>domain.AttachmentScanner\<close> promises to its clients: content is kept exactly when
  it is not blocked, and a finished scan is never left pending.
\<close>

locale attachment_scanner =
  fixes scan :: "ScanInput \<Rightarrow> ScanVerdict"
  assumes stored_iff_not_blocked: "sv_StoreContent (scan i) \<longleftrightarrow> sv_Status (scan i) \<noteq> ScanBlocked"
    and decided: "sv_Status (scan i) \<noteq> ScanPending"
begin

text \<open>The test the clients write is the status test alone.\<close>

lemma clean_is_stored:
  "sv_Status (scan i) \<noteq> ScanClean \<or> \<not> sv_StoreContent (scan i) \<longleftrightarrow> sv_Status (scan i) \<noteq> ScanClean"
  by (auto simp: stored_iff_not_blocked)

end

section \<open>The built-in scanner\<close>

record HeuristicScanner =
  h_block :: "string list"
  h_quarantine :: "string list"
  h_maxEntries :: int
  h_maxTotal :: int

definition or_default :: "int \<Rightarrow> int \<Rightarrow> int" where
  "or_default v def = (if v \<le> 0 then def else v)"

definition ext_set :: "lib \<Rightarrow> string list \<Rightarrow> string list" where
  "ext_set L xs = map (\<lambda>x. ToLower (uni_lower L) (TrimPrefix x ''.'')) xs"

definition NewHeuristic :: "lib \<Rightarrow> AttachmentConfig \<Rightarrow> HeuristicScanner" where
  "NewHeuristic L c =
     \<lparr>h_block = ext_set L (BlockExtensions c), h_quarantine = ext_set L (QuarantineExtensions c),
      h_maxEntries = or_default (ArchiveMaxEntries c) 1000,
      h_maxTotal = or_default (ArchiveMaxTotalBytes c) (500 * 2 ^ 20)\<rparr>"

definition extOf :: "lib \<Rightarrow> string \<Rightarrow> string" where
  "extOf L name =
     (case after_last CHR ''.'' name of None \<Rightarrow> [] | Some e \<Rightarrow> ToLower (uni_lower L) e)"

definition isArchiveExt :: "string \<Rightarrow> bool" where
  "isArchiveExt ext = (ext \<in> set [''zip'', ''gz'', ''tgz'', ''tar'', ''7z'', ''rar''])"

definition isArchiveType :: "lib \<Rightarrow> string \<Rightarrow> bool" where
  "isArchiveType L mime0 =
     (let mime = ToLower (uni_lower L) mime0
      in Contains mime ''zip'' \<or> Contains mime ''gzip'' \<or> Contains mime ''x-tar''
         \<or> Contains mime ''compressed'')"

definition scan_block :: "string \<Rightarrow> ScanVerdict" where
  "scan_block detail = \<lparr>sv_Status = ScanBlocked, sv_Detail = detail, sv_StoreContent = False\<rparr>"

definition scan_clean :: "string \<Rightarrow> ScanVerdict" where
  "scan_clean detail = \<lparr>sv_Status = ScanClean, sv_Detail = detail, sv_StoreContent = True\<rparr>"

text \<open>
  The loop over the entries of a zip directory.  Sizes are unsigned 64-bit and the sum wraps, so
  the code tests for the wrap before it tests the cap.  The result is the first refusal, or the
  total.
\<close>

fun zip_loop :: "lib \<Rightarrow> HeuristicScanner \<Rightarrow> 64 word \<Rightarrow> ZipEntry list \<Rightarrow> ScanVerdict + 64 word" where
  "zip_loop L h tot [] = Inr tot"
| "zip_loop L h tot (f # fs) =
     (let tot' = tot + ze_UncompressedSize64 f;
          cap = word_of_int (h_maxTotal h)
      in if tot' < ze_UncompressedSize64 f \<or> tot' > cap
         then Inl (scan_block (''archive uncompressed size exceeds '' @ fmt_d (h_maxTotal h) @ '' bytes''))
         else if ze_CompressedSize64 f > 0
                 \<and> ratio_exceeds L (ze_UncompressedSize64 f) (ze_CompressedSize64 f)
         then Inl (scan_block (''entry '' @ go_quote L (ze_Name f) @ '' compression ratio ''
                @ fmt_ratio L (ze_UncompressedSize64 f) (ze_CompressedSize64 f)
                @ '' exceeds '' @ fmt_max_ratio L))
         else zip_loop L h tot' fs)"

definition inspect_zip :: "lib \<Rightarrow> HeuristicScanner \<Rightarrow> ZipEntry list \<Rightarrow> ScanVerdict" where
  "inspect_zip L h fs =
     (if int (length fs) > h_maxEntries h
      then scan_block (''archive has '' @ fmt_d (int (length fs)) @ '' entries (>''
             @ fmt_d (h_maxEntries h) @ '')'')
      else case zip_loop L h 0 fs of
             Inl v \<Rightarrow> v
           | Inr tot \<Rightarrow> scan_clean (''archive ok ('' @ fmt_d (int (length fs)) @ '' entries, ''
               @ fmt_d (uint tot) @ '' bytes)''))"

text \<open>The limit \<open>maxTotal + 1\<close> of the reader wraps to a negative number at the largest \<open>int64\<close>.\<close>

definition inspect_gzip :: "lib \<Rightarrow> HeuristicScanner \<Rightarrow> nat \<Rightarrow> string \<Rightarrow> ScanVerdict" where
  "inspect_gzip L h decoded data =
     (let limit = (if h_maxTotal h = max_int64 then 0 else h_maxTotal h + 1);
          n = min (int decoded) limit
      in if n > h_maxTotal h
         then scan_block (''gzip decompresses beyond '' @ fmt_d (h_maxTotal h) @ '' bytes'')
         else if data \<noteq> [] \<and> ratio_exceeds L (word_of_int n) (word_of_int (int (length data)))
         then scan_block (''gzip compression ratio ''
                @ fmt_ratio L (word_of_int n) (word_of_int (int (length data)))
                @ '' exceeds '' @ fmt_max_ratio L)
         else scan_clean [])"

definition inspectArchive ::
  "lib \<Rightarrow> HeuristicScanner \<Rightarrow> string \<Rightarrow> string \<Rightarrow> ScanVerdict option" where
  "inspectArchive L h ext data =
     (if ext = ''zip''
      then (case zip_entries L data of None \<Rightarrow> None | Some fs \<Rightarrow> Some (inspect_zip L h fs))
      else if ext = ''gz'' \<or> ext = ''tgz''
      then (case gzip_size L data of None \<Rightarrow> None | Some n \<Rightarrow> Some (inspect_gzip L h n data))
      else None)"

definition Scan :: "lib \<Rightarrow> HeuristicScanner \<Rightarrow> ScanInput \<Rightarrow> ScanVerdict" where
  "Scan L h i =
     (let ext = extOf L (si_Name i);
          rest = (if ext \<in> set (h_quarantine h)
                  then \<lparr>sv_Status = ScanQuarantined,
                        sv_Detail = ''quarantined extension .'' @ ext @ '' (download gated)'',
                        sv_StoreContent = True\<rparr>
                  else scan_clean [])
      in if ext \<in> set (h_block h) then scan_block (''blocked extension .'' @ ext)
         else if isArchiveExt ext \<or> isArchiveType L (si_MIMEType i)
         then (case inspectArchive L h ext (si_Data i) of Some v \<Rightarrow> v | None \<Rightarrow> rest)
         else rest)"

section \<open>The application's scanning policy\<close>

text \<open>\<open>filepath.Ext\<close>: the last element of the path from its last dot on.\<close>

definition filepath_Ext :: "string \<Rightarrow> string" where
  "filepath_Ext path =
     (let base = (case after_last CHR ''/'' path of None \<Rightarrow> path | Some b \<Rightarrow> b)
      in case after_last CHR ''.'' base of None \<Rightarrow> [] | Some e \<Rightarrow> CHR ''.'' # e)"

definition extension_allowed :: "lib \<Rightarrow> string \<Rightarrow> string \<Rightarrow> bool" where
  "extension_allowed L raw name =
     (let ext = ToLower (uni_lower L) (TrimPrefix (filepath_Ext name) ''.'')
      in list_ex (\<lambda>item. ToLower (uni_lower L) (TrimPrefix (TrimSpace item) ''.'') = ext)
           (split_on CHR '','' raw))"

definition ScanAttachment :: "lib \<Rightarrow> app \<Rightarrow> ScanInput \<Rightarrow> ScanVerdict" where
  "ScanAttachment L a i =
     (let limit = SettingInt a ''attachments.max_bytes'';
          raw = TrimSpace (Setting a ''attachments.allow_extensions'');
          verdict = Scan L (NewHeuristic L (Attachments (cfg a))) i
      in if limit > 0 \<and> int (length (si_Data i)) > limit
         then scan_block ''attachment exceeds administrator size limit''
         else if raw \<noteq> [] \<and> \<not> extension_allowed L raw (si_Name i)
         then scan_block ''attachment extension is not allowed''
         else if sv_Status verdict \<noteq> ScanClean then verdict
         else case ext_scanner L of Some scan \<Rightarrow> scan i | None \<Rightarrow> verdict)"

section \<open>Attachments of a draft\<close>

definition MaxOutboundAttachmentBytes :: int where
  "MaxOutboundAttachmentBytes = 64 * 2 ^ 20"

text \<open>
  \<open>readDraftAttachment\<close>: the object is read up to one byte beyond the recorded size, compared
  with the recorded size and digest, and scanned under the current policy.
\<close>

definition readDraftAttachment :: "lib \<Rightarrow> app \<Rightarrow> DraftAttachment \<Rightarrow> err + string" where
  "readDraftAttachment L a att =
     (if da_Size att \<le> 0 \<or> da_Size att > MaxOutboundAttachmentBytes \<or> da_StorageURI att = []
         \<or> da_ScanStatus att \<noteq> ScanClean
      then Inl (UserError ''attachment is not approved for use'')
      else case obj_Get (objects a) (da_StorageURI att) of
             Inl e \<Rightarrow> Inl e
           | Inr content \<Rightarrow>
               (let data = take (nat (da_Size att + 1)) content
                in if int (length data) \<noteq> da_Size att \<or> hex (sha256 L data) \<noteq> da_Hash att
                   then Inl (UserError ''attachment integrity verification failed'')
                   else
                     (let verdict = ScanAttachment L a
                            \<lparr>si_Name = da_Name att, si_MIMEType = da_MIMEType att, si_Data = data\<rparr>
                      in if sv_Status verdict \<noteq> ScanClean \<or> \<not> sv_StoreContent verdict
                         then Inl (UserError (''attachment is blocked by current scanning policy (''
                                @ scan_text (sv_Status verdict) @ '')''))
                         else Inr data)))"

definition att_bad :: "string list \<Rightarrow> DraftAttachment \<Rightarrow> bool" where
  "att_bad seen att \<longleftrightarrow>
     da_ID att \<in> set seen \<or> da_Size att \<le> 0 \<or> da_Size att > MaxOutboundAttachmentBytes
     \<or> da_ScanStatus att \<noteq> ScanClean
     \<or> ContainsAny (da_Name att @ da_MIMEType att @ da_ContentID att) [CHR 0x0D, CHR 0x0A, CHR 0x00]"

text \<open>
  The loop of \<open>validateDraftAttachments\<close>; its result is the total size and the content ids of
  the inline attachments.  Every size is at most \<open>MaxOutboundAttachmentBytes\<close>, so the sum stays
  far below the range of \<open>int64\<close>.
\<close>

fun validate_loop ::
  "bool \<Rightarrow> string list \<Rightarrow> string list \<Rightarrow> int \<Rightarrow> DraftAttachment list \<Rightarrow> err + (int \<times> string list)"
where
  "validate_loop html_enabled seen cids tot [] = Inr (tot, cids)"
| "validate_loop html_enabled seen cids tot (att # rest) =
     (if att_bad seen att then Inl (UserError ''invalid or unapproved draft attachment'')
      else if da_Inline att \<and> (da_ContentID att \<noteq> ''postra-'' @ da_ID att @ ''@postra.local''
                               \<or> da_ContentID att \<in> set cids)
      then Inl (UserError ''invalid inline attachment reference'')
      else if da_Inline att \<and> \<not> html_enabled
      then Inl (UserError ''inline attachments require HTML mail permission'')
      else validate_loop html_enabled (da_ID att # seen)
             (if da_Inline att then da_ContentID att # cids else cids) (tot + da_Size att) rest)"

definition validateDraftAttachments :: "lib \<Rightarrow> app \<Rightarrow> DraftVersion \<Rightarrow> err option" where
  "validateDraftAttachments L a v =
     (case validate_loop (SettingBool a ''mail.html_enabled'') [] [] 0 (v_Attachments v) of
        Inl e \<Rightarrow> Some e
      | Inr (tot, cids) \<Rightarrow>
          if v_Attachments v \<noteq> [] \<and>
             (int (length (v_Attachments v)) > SettingInt a ''attachments.max_count''
              \<or> tot > SettingInt a ''attachments.max_bytes'')
          then Some (UserError ''attachments exceed current administrator limits'')
          else if list_ex (\<lambda>i. i \<notin> set cids) (InlineImageIDs L (v_BodyHTML v))
          then Some (UserError ''mail body references an unavailable inline attachment'')
          else None)"

definition attachmentPolicyText :: "DraftAttachment \<Rightarrow> string \<Rightarrow> string" where
  "attachmentPolicyText att data =
     [CHR 0x0A] @ da_Name att @
     (if HasPrefix (da_MIMEType att) ''text/'' \<or> HasPrefix (da_MIMEType att) ''application/json''
         \<or> HasPrefix (da_MIMEType att) ''application/xml''
      then [CHR 0x0A] @ data else [])"

fun attachments_policy_text :: "lib \<Rightarrow> app \<Rightarrow> DraftAttachment list \<Rightarrow> err + string" where
  "attachments_policy_text L a [] = Inr []"
| "attachments_policy_text L a (att # rest) =
     (case readDraftAttachment L a att of
        Inl e \<Rightarrow> Inl e
      | Inr data \<Rightarrow>
          (case attachments_policy_text L a rest of
             Inl e \<Rightarrow> Inl e
           | Inr t \<Rightarrow> Inr (attachmentPolicyText att data @ t)))"

definition draftAttachmentsPolicyText :: "lib \<Rightarrow> app \<Rightarrow> DraftVersion \<Rightarrow> err + string" where
  "draftAttachmentsPolicyText L a v = attachments_policy_text L a (v_Attachments v)"

section \<open>Lemmas\<close>

definition ratios_ok :: "lib \<Rightarrow> ZipEntry list \<Rightarrow> bool" where
  "ratios_ok L fs = list_all (\<lambda>f. ze_CompressedSize64 f > 0 \<longrightarrow>
     \<not> ratio_exceeds L (ze_UncompressedSize64 f) (ze_CompressedSize64 f)) fs"

definition declared_total :: "ZipEntry list \<Rightarrow> int" where
  "declared_total fs = sum_list (map (\<lambda>f. uint (ze_UncompressedSize64 f)) fs)"

lemma declared_total_nonneg: "0 \<le> declared_total fs"
  by (auto simp: declared_total_def intro: sum_list_nonneg)

text \<open>The two tests after one addition are the test on the true sum.\<close>

lemma word_sum_guard:
  fixes t u :: "64 word"
  assumes "0 < m" "m \<le> max_int64"
  shows "(t + u < u \<or> t + u > word_of_int m) \<longleftrightarrow> uint t + uint u > m"
    and "uint t + uint u \<le> m \<Longrightarrow> uint (t + u) = uint t + uint u"
proof -
  have cap: "uint (word_of_int m :: 64 word) = m"
    using assms by (simp add: uint_word_of_int max_int64_def)
  have bounds: "uint t < 2 ^ 64" "uint u < 2 ^ 64" "m < 2 ^ 64" "0 \<le> uint t" "0 \<le> uint u"
    using assms uint_lt2p [of t] uint_lt2p [of u] by (auto simp: max_int64_def)
  have sum: "uint (t + u) = (if uint t + uint u < 2 ^ 64 then uint t + uint u
                             else uint t + uint u - 2 ^ 64)"
    by (simp add: uint_plus_if')
  show "(t + u < u \<or> t + u > word_of_int m) \<longleftrightarrow> uint t + uint u > m"
    using bounds by (auto simp: word_less_def sum cap)
  show "uint t + uint u \<le> m \<Longrightarrow> uint (t + u) = uint t + uint u"
    using bounds by (simp add: sum)
qed

lemma zip_loop_clean:
  assumes "0 < h_maxTotal h" "h_maxTotal h \<le> max_int64" "uint tot \<le> h_maxTotal h"
  shows "(\<exists>res. zip_loop L h tot fs = Inr res) \<longleftrightarrow>
           uint tot + declared_total fs \<le> h_maxTotal h \<and> ratios_ok L fs"
  using assms(3)
proof (induction fs arbitrary: tot)
  case Nil
  then show ?case by (simp add: declared_total_def ratios_ok_def)
next
  case (Cons f fs)
  note g = word_sum_guard [OF assms(1,2), of tot "ze_UncompressedSize64 f"]
  show ?case
  proof (cases "uint tot + uint (ze_UncompressedSize64 f) \<le> h_maxTotal h")
    case True
    then show ?thesis
      using g Cons.IH [of "tot + ze_UncompressedSize64 f"]
      by (auto simp: Let_def declared_total_def ratios_ok_def)
  next
    case False
    then show ?thesis
      using g declared_total_nonneg [of fs] by (simp add: Let_def declared_total_def)
  qed
qed

lemma zip_loop_blocks: "zip_loop L h tot fs = Inl v \<Longrightarrow> \<exists>d. v = scan_block d"
  by (induction L h tot fs rule: zip_loop.induct) (auto simp: Let_def split: if_splits)

lemma scan_block_simps [simp]:
  "sv_Status (scan_block d) = ScanBlocked" "\<not> sv_StoreContent (scan_block d)"
  "sv_Status (scan_clean d) = ScanClean" "sv_StoreContent (scan_clean d)"
  by (simp_all add: scan_block_def scan_clean_def)

lemma inspect_zip_cases: "(\<exists>d. inspect_zip L h fs = scan_block d) \<or> (\<exists>d. inspect_zip L h fs = scan_clean d)"
  by (auto simp: inspect_zip_def split: sum.splits dest: zip_loop_blocks)

lemma inspect_gzip_cases:
  "(\<exists>d. inspect_gzip L h n x = scan_block d) \<or> (\<exists>d. inspect_gzip L h n x = scan_clean d)"
  by (auto simp: inspect_gzip_def Let_def)

lemma inspectArchive_cases:
  "inspectArchive L h ext x = Some v \<Longrightarrow>
     (\<exists>d. v = scan_block d) \<or> (\<exists>d. v = scan_clean d)"
proof -
  assume "inspectArchive L h ext x = Some v"
  then consider fs where "v = inspect_zip L h fs" | n where "v = inspect_gzip L h n x"
    by (fastforce simp: inspectArchive_def split: if_splits option.splits)
  then show ?thesis
    by cases (simp_all add: inspect_zip_cases inspect_gzip_cases)
qed

lemma inspect_zip_clean:
  assumes "0 < h_maxTotal h" "h_maxTotal h \<le> max_int64"
  shows "sv_Status (inspect_zip L h fs) = ScanClean \<longleftrightarrow>
           int (length fs) \<le> h_maxEntries h \<and> declared_total fs \<le> h_maxTotal h \<and> ratios_ok L fs"
  using zip_loop_clean [OF assms, of 0 L fs] assms(1)
  by (auto simp: inspect_zip_def split: sum.splits dest: zip_loop_blocks)

text \<open>The built-in scanner keeps the contract of its port.\<close>

interpretation heuristic: attachment_scanner "Scan L h" for L h
proof unfold_locales
  fix i
  show "sv_StoreContent (Scan L h i) \<longleftrightarrow> sv_Status (Scan L h i) \<noteq> ScanBlocked"
    "sv_Status (Scan L h i) \<noteq> ScanPending"
    by (auto simp: Scan_def Let_def split: option.splits dest!: inspectArchive_cases)
qed

lemma NewHeuristic_cap: "0 < h_maxTotal (NewHeuristic L c)"
  by (simp add: NewHeuristic_def or_default_def)

text \<open>Only the extension selects the archive reader; the media type never does.\<close>

lemma inspectArchive_ext: "\<not> isArchiveExt ext \<Longrightarrow> inspectArchive L h ext x = None"
  by (auto simp: inspectArchive_def isArchiveExt_def)

lemma ScanAttachment_clean:
  "sv_Status (ScanAttachment L a i) = ScanClean \<Longrightarrow>
     sv_Status (Scan L (NewHeuristic L (Attachments (cfg a))) i) = ScanClean \<and>
     (SettingInt a ''attachments.max_bytes'' > 0 \<longrightarrow>
        int (length (si_Data i)) \<le> SettingInt a ''attachments.max_bytes'') \<and>
     (TrimSpace (Setting a ''attachments.allow_extensions'') \<noteq> [] \<longrightarrow>
        extension_allowed L (TrimSpace (Setting a ''attachments.allow_extensions'')) (si_Name i))"
  by (auto simp: ScanAttachment_def Let_def split: if_splits)

lemma readDraftAttachment_ok:
  "readDraftAttachment L a att = Inr data \<longleftrightarrow>
     0 < da_Size att \<and> da_Size att \<le> MaxOutboundAttachmentBytes \<and> da_StorageURI att \<noteq> [] \<and>
     da_ScanStatus att = ScanClean \<and>
     obj_Get (objects a) (da_StorageURI att) = Inr data \<and> int (length data) = da_Size att \<and>
     hex (sha256 L data) = da_Hash att \<and>
     sv_Status (ScanAttachment L a \<lparr>si_Name = da_Name att, si_MIMEType = da_MIMEType att, si_Data = data\<rparr>) = ScanClean \<and>
     sv_StoreContent (ScanAttachment L a \<lparr>si_Name = da_Name att, si_MIMEType = da_MIMEType att, si_Data = data\<rparr>)"
  (is "?l \<longleftrightarrow> ?r")
proof
  assume l: ?l
  then obtain content where c: "obj_Get (objects a) (da_StorageURI att) = Inr content"
      "data = take (nat (da_Size att + 1)) content" "int (length data) = da_Size att"
    by (auto simp: readDraftAttachment_def Let_def split: if_splits sum.splits)
  then have "data = content" by (auto simp: min_def split: if_splits)
  with l c show ?r
    by (auto simp: readDraftAttachment_def Let_def split: if_splits)
next
  assume r: ?r
  then have "da_Size att = int (length data)" by simp
  with r show ?l by (auto simp: readDraftAttachment_def Let_def)
qed

lemma validate_loop_ok:
  "validate_loop e seen cids tot atts = Inr (tot', cids') \<longleftrightarrow>
     distinct (map da_ID atts) \<and> set (map da_ID atts) \<inter> set seen = {} \<and>
     list_all (\<lambda>x. \<not> att_bad [] x \<and>
        (da_Inline x \<longrightarrow> e \<and> da_ContentID x = ''postra-'' @ da_ID x @ ''@postra.local'')) atts \<and>
     distinct (map da_ContentID (filter da_Inline atts)) \<and>
     set (map da_ContentID (filter da_Inline atts)) \<inter> set cids = {} \<and>
     tot' = tot + sum_list (map da_Size atts) \<and>
     cids' = rev (map da_ContentID (filter da_Inline atts)) @ cids"
proof (induction atts arbitrary: seen cids tot)
  case (Cons x xs)
  have "att_bad seen x \<longleftrightarrow> da_ID x \<in> set seen \<or> att_bad [] x"
    by (auto simp: att_bad_def)
  then show ?case
    by (auto simp: Cons.IH)
qed auto

lemma Scan_clean_ext: "sv_Status (Scan L h i) = ScanClean \<Longrightarrow> extOf L (si_Name i) \<notin> set (h_block h)"
  by (auto simp: Scan_def Let_def)

lemma ScanAttachment_ext:
  "sv_Status (ScanAttachment L a i) = ScanClean \<Longrightarrow>
     extOf L (si_Name i) \<notin> set (ext_set L (BlockExtensions (Attachments (cfg a))))"
  using Scan_clean_ext [of L "NewHeuristic L (Attachments (cfg a))" i] ScanAttachment_clean [of L a i]
  by (simp add: NewHeuristic_def)

text \<open>The content id is determined by the id, so distinct ids give distinct content ids.\<close>

lemma inline_ids_distinct:
  "distinct (map da_ID xs) \<Longrightarrow>
   list_all (\<lambda>x. da_Inline x \<longrightarrow> da_ContentID x = ''postra-'' @ da_ID x @ ''@postra.local'') xs \<Longrightarrow>
   distinct (map da_ContentID (filter da_Inline xs))"
  by (induction xs) (auto simp: list_all_iff)

lemma sample_txt:
  "extOf sample_lib ''a.txt'' = ''txt''"
  "ScanAttachment sample_lib sample_app \<lparr>si_Name = ''a.txt'', si_MIMEType = [], si_Data = x\<rparr> = scan_clean []"
proof -
  show ext: "extOf sample_lib ''a.txt'' = ''txt''"
    by (simp add: sample_lib_def extOf_def after_last_def ToLower_def is_ascii_def byte_def
          ascii_lower_def)
  have "Setting sample_app ''attachments.allow_extensions'' = []"
    "SettingInt sample_app ''attachments.max_bytes'' = 0"
    by (simp_all add: Setting_def SettingInt_def sample_app_def Atoi_def)
  with ext show "ScanAttachment sample_lib sample_app
      \<lparr>si_Name = ''a.txt'', si_MIMEType = [], si_Data = x\<rparr> = scan_clean []"
    by (simp add: ScanAttachment_def Scan_def Let_def NewHeuristic_def ext_set_def sample_app_def
          sample_cfg_def TrimPrefix_def ToLower_def is_ascii_def byte_def ascii_lower_def
          isArchiveExt_def isArchiveType_def sample_lib_def)
qed

section \<open>Properties\<close>


definition bomb_lib :: lib where
  "bomb_lib = sample_lib\<lparr>zip_entries := (\<lambda>_. Some
     [\<lparr>ze_Name = ''a'', ze_UncompressedSize64 = 0x8000000000000000, ze_CompressedSize64 = 0\<rparr>,
      \<lparr>ze_Name = ''b'', ze_UncompressedSize64 = 0x8000000000000001, ze_CompressedSize64 = 0\<rparr>])\<rparr>"


text \<open>
  Nothing gets past the built-in policy: an attachment that the application reports as clean
  is within the administrator's size limit, has an allowed extension when an allowlist is set,
  and its last extension is not on the block list, whatever an external scanner answers.
\<close>

theorem ScanAttachment_enforces_policy:
  assumes "sv_Status (ScanAttachment L a i) = ScanClean"
  shows "extOf L (si_Name i) \<notin> set (ext_set L (BlockExtensions (Attachments (cfg a)))) \<and>
     (SettingInt a ''attachments.max_bytes'' > 0 \<longrightarrow>
        int (length (si_Data i)) \<le> SettingInt a ''attachments.max_bytes'') \<and>
     (TrimSpace (Setting a ''attachments.allow_extensions'') \<noteq> [] \<longrightarrow>
        extension_allowed L (TrimSpace (Setting a ''attachments.allow_extensions'')) (si_Name i))"
  using ScanAttachment_clean [OF assms] ScanAttachment_ext [OF assms] by blast

theorem ScanAttachment_enforces_policy_witness:
  "extOf sample_lib ''a.txt'' \<notin> set (ext_set sample_lib (BlockExtensions (Attachments (cfg sample_app))))"
  using ScanAttachment_enforces_policy
    [of sample_lib sample_app "\<lparr>si_Name = ''a.txt'', si_MIMEType = [], si_Data = []\<rparr>"]
  by (simp add: sample_txt)

text \<open>
  The bytes of a draft attachment are used only when they are the whole stored object, have
  the recorded length and digest, and pass the policy in force now.
\<close>

theorem readDraftAttachment_integrity:
  assumes "readDraftAttachment L a att = Inr data"
  shows "obj_Get (objects a) (da_StorageURI att) = Inr data \<and> int (length data) = da_Size att \<and>
     da_Size att \<le> MaxOutboundAttachmentBytes \<and> hex (sha256 L data) = da_Hash att \<and>
     da_ScanStatus att = ScanClean \<and>
     extOf L (da_Name att) \<notin> set (ext_set L (BlockExtensions (Attachments (cfg a))))"
  using assms ScanAttachment_ext
    [of L a "\<lparr>si_Name = da_Name att, si_MIMEType = da_MIMEType att, si_Data = data\<rparr>"]
  by (simp add: readDraftAttachment_ok)

definition sample_att :: DraftAttachment where
  "sample_att = \<lparr>da_ID = ''att_1'', da_Name = ''a.txt'', da_MIMEType = [], da_Size = 2,
     da_Hash = ''6869'', da_StorageURI = ''local://draftatt/6869'', da_Inline = False, da_ContentID = [],
     da_ScanStatus = ScanClean, da_ScanDetail = []\<rparr>"

lemma sample_att_read:
  "readDraftAttachment sample_lib (sample_app\<lparr>objects := [(''draftatt'', ''6869'') \<mapsto> ''hi'']\<rparr>)
     sample_att = Inr ''hi''"
proof -
  have "ScanAttachment sample_lib (sample_app\<lparr>objects := m\<rparr>) i = ScanAttachment sample_lib sample_app i"
    for m i
    by (simp add: ScanAttachment_def Setting_def SettingInt_def Let_def cong: option.case_cong)
  moreover have "obj_Get [(''draftatt'', ''6869'') \<mapsto> ''hi''] ''local://draftatt/6869'' = Inr ''hi''"
    by code_simp
  moreover have "hex (sha256 sample_lib ''hi'') = ''6869''"
    by code_simp
  ultimately show ?thesis
    by (simp add: readDraftAttachment_ok sample_att_def sample_txt MaxOutboundAttachmentBytes_def)
qed

theorem readDraftAttachment_integrity_witness:
  "hex (sha256 sample_lib ''hi'') = da_Hash sample_att"
  using readDraftAttachment_integrity [OF sample_att_read] by simp

text \<open>
  The attachments of a draft pass validation exactly when their ids are distinct, each is
  scanned clean with a size between 1 and the maximum and without line breaks in its header
  fields, inline ones carry their own content id and HTML mail is enabled, the count and the total
  size are within the limits in force, and every inline image of the body refers to one of them.
\<close>

theorem validateDraftAttachments_iff:
  "validateDraftAttachments L a v = None \<longleftrightarrow>
     distinct (map da_ID (v_Attachments v)) \<and>
     list_all (\<lambda>x. \<not> att_bad [] x \<and>
        (da_Inline x \<longrightarrow> SettingBool a ''mail.html_enabled'' \<and>
           da_ContentID x = ''postra-'' @ da_ID x @ ''@postra.local'')) (v_Attachments v) \<and>
     (v_Attachments v = [] \<or>
        int (length (v_Attachments v)) \<le> SettingInt a ''attachments.max_count'' \<and>
        sum_list (map da_Size (v_Attachments v)) \<le> SettingInt a ''attachments.max_bytes'') \<and>
     set (InlineImageIDs L (v_BodyHTML v)) \<subseteq> da_ContentID ` {x \<in> set (v_Attachments v). da_Inline x}"
proof -
  let ?xs = "v_Attachments v" and ?e = "SettingBool a ''mail.html_enabled''"
  show ?thesis
  proof (cases "validate_loop ?e [] [] 0 ?xs")
    case (Inl e)
    then have "validate_loop ?e [] [] 0 ?xs \<noteq> Inr (0 + sum_list (map da_Size ?xs),
        rev (map da_ContentID (filter da_Inline ?xs)) @ [])" by simp
    then have "\<not> (distinct (map da_ID ?xs) \<and> list_all (\<lambda>x. \<not> att_bad [] x \<and> (da_Inline x \<longrightarrow> ?e \<and>
        da_ContentID x = ''postra-'' @ da_ID x @ ''@postra.local'')) ?xs)"
      unfolding validate_loop_ok using inline_ids_distinct [of ?xs] by (auto simp: list_all_iff)
    with Inl show ?thesis by (auto simp: validateDraftAttachments_def)
  next
    case (Inr r)
    then obtain t c where r: "validate_loop ?e [] [] 0 ?xs = Inr (t, c)" by (cases r) simp
    then have ok: "distinct (map da_ID ?xs)" "list_all (\<lambda>x. \<not> att_bad [] x \<and> (da_Inline x \<longrightarrow> ?e \<and>
        da_ContentID x = ''postra-'' @ da_ID x @ ''@postra.local'')) ?xs"
      and c: "t = sum_list (map da_Size ?xs)" "set c = da_ContentID ` {x \<in> set ?xs. da_Inline x}"
      unfolding validate_loop_ok by auto
    have "list_ex (\<lambda>i. i \<notin> set c) ids \<longleftrightarrow> \<not> set ids \<subseteq> set c" for ids
      by (auto simp: list_ex_iff)
    then have "validateDraftAttachments L a v = None \<longleftrightarrow>
        \<not> (?xs \<noteq> [] \<and> (int (length ?xs) > SettingInt a ''attachments.max_count''
           \<or> t > SettingInt a ''attachments.max_bytes'')) \<and> set (InlineImageIDs L (v_BodyHTML v)) \<subseteq> set c"
      by (simp add: validateDraftAttachments_def r)
    then show ?thesis
      unfolding c(2) c(1) using ok by (simp add: not_less)
  qed
qed

definition limits_app :: app where
  "limits_app = sample_app\<lparr>setting_values :=
     [''attachments.max_count'' \<mapsto> ''5'', ''attachments.max_bytes'' \<mapsto> ''100'']\<rparr>"

definition att_version :: DraftVersion where
  "att_version = \<lparr>v_DraftID = ''drf_1'', v_Version = 1, v_Subject = ''Hi'', v_BodyText = ''text'',
     v_BodyHTML = [], v_To = [], v_Cc = [], v_Bcc = [], v_Author = ''user'', v_CreatedAt = 1,
     v_Attachments = [sample_att, sample_att\<lparr>da_ID := ''att_2''\<rparr>]\<rparr>"

theorem validateDraftAttachments_iff_witness:
  "validateDraftAttachments sample_lib limits_app att_version = None"
proof -
  have "SettingInt limits_app ''attachments.max_count'' = 5" "SettingInt limits_app ''attachments.max_bytes'' = 100"
    by code_simp+
  then show ?thesis
    unfolding validateDraftAttachments_iff
    by (simp add: att_version_def sample_att_def att_bad_def MaxOutboundAttachmentBytes_def
          ContainsAny_def sample_lib_def)
qed

text \<open>
  The media type of an attachment never changes the verdict of the built-in scanner, although
  the scanner consults it: the archive reader is chosen by the extension alone, so an archive
  under another extension is not inspected.
\<close>

theorem scan_ignores_media_type:
  "Scan L h (i\<lparr>si_MIMEType := m\<rparr>) = Scan L h i"
  by (auto simp: Scan_def Let_def inspectArchive_ext split: option.splits)

text \<open>
  A zip or gzip archive that passes the inspection is reported clean even when its extension
  is on the quarantine list: the quarantine test is reached only by archives that do not parse.
\<close>

theorem scan_clean_archive_skips_quarantine:
  assumes "inspectArchive L h (extOf L (si_Name i)) (si_Data i) = Some (scan_clean d)"
    and "extOf L (si_Name i) \<notin> set (h_block h)"
    and "extOf L (si_Name i) \<in> set (h_quarantine h)"
  shows "sv_Status (Scan L h i) = ScanClean"
proof -
  have "isArchiveExt (extOf L (si_Name i))"
    using assms(1) inspectArchive_ext [of "extOf L (si_Name i)" L h "si_Data i"] by fastforce
  with assms show ?thesis by (simp add: Scan_def Let_def)
qed

definition empty_zip_lib :: lib where
  "empty_zip_lib = sample_lib\<lparr>zip_entries := (\<lambda>_. Some [])\<rparr>"

theorem scan_clean_archive_skips_quarantine_witness:
  "sv_Status (Scan empty_zip_lib (NewHeuristic empty_zip_lib (Attachments sample_cfg))
      \<lparr>si_Name = ''x.zip'', si_MIMEType = [], si_Data = []\<rparr>) = ScanClean"
  using scan_clean_archive_skips_quarantine [of empty_zip_lib
      "NewHeuristic empty_zip_lib (Attachments sample_cfg)"
      "\<lparr>si_Name = ''x.zip'', si_MIMEType = [], si_Data = []\<rparr>"]
  by (simp add: empty_zip_lib_def sample_lib_def sample_cfg_def NewHeuristic_def ext_set_def
        extOf_def after_last_def ToLower_def is_ascii_def byte_def ascii_lower_def TrimPrefix_def
        inspectArchive_def inspect_zip_def or_default_def)

end
