(* ===== verification/Go_Regexp.thy ===== *)
theory Go_Regexp
  imports Go_Prelude
begin

text \<open>
  The part of Go's \<open>regexp\<close> package that the sources use with fixed patterns.  A pattern is a
  value of \<^emph>\<open>re\<close>; matching is leftmost-first, that is, the match a backtracking matcher finds
  first, which is what \<open>regexp\<close> (without \<open>Longest\<close>) returns.  Patterns work on bytes: a rune
  outside ASCII is the sequence of its UTF-8 bytes.
\<close>

datatype re =
    Eps
  | Chr "char \<Rightarrow> bool"
  | Seq re re
  | Alt re re
  | Star re
  | WB

definition is_word :: "char \<Rightarrow> bool" where
  "is_word c = (is_digit c \<or> 65 \<le> byte c \<and> byte c \<le> 90 \<or> 97 \<le> byte c \<and> byte c \<le> 122 \<or> byte c = 95)"

definition at_boundary :: "char option \<Rightarrow> string \<Rightarrow> bool" where
  "at_boundary p s =
     ((case p of None \<Rightarrow> False | Some c \<Rightarrow> is_word c) \<noteq> (case s of [] \<Rightarrow> False | c # _ \<Rightarrow> is_word c))"

type_synonym cont = "char option \<Rightarrow> string \<Rightarrow> (char option \<times> string) option"

text \<open>
  Greedy repetition: as many rounds of the body as possible, giving rounds back one at a time.
  A round must consume something, so the length of the input bounds the number of rounds.
\<close>

fun star_loop :: "(char option \<Rightarrow> string \<Rightarrow> cont \<Rightarrow> (char option \<times> string) option) \<Rightarrow> nat
    \<Rightarrow> char option \<Rightarrow> string \<Rightarrow> cont \<Rightarrow> (char option \<times> string) option" where
  "star_loop f 0 p s k = k p s"
| "star_loop f (Suc n) p s k =
     (case f p s (\<lambda>p' s'. if length s' < length s then star_loop f n p' s' k else None) of
        Some x \<Rightarrow> Some x | None \<Rightarrow> k p s)"

primrec rmatch :: "re \<Rightarrow> char option \<Rightarrow> string \<Rightarrow> cont \<Rightarrow> (char option \<times> string) option" where
  "rmatch Eps p s k = k p s"
| "rmatch (Chr f) p s k = (case s of [] \<Rightarrow> None | c # cs \<Rightarrow> if f c then k (Some c) cs else None)"
| "rmatch (Seq a b) p s k = rmatch a p s (\<lambda>p' s'. rmatch b p' s' k)"
| "rmatch (Alt a b) p s k = (case rmatch a p s k of Some x \<Rightarrow> Some x | None \<Rightarrow> rmatch b p s k)"
| "rmatch (Star a) p s k = star_loop (rmatch a) (length s) p s k"
| "rmatch WB p s k = (if at_boundary p s then k p s else None)"

text \<open>A match that starts here: the byte before the end of the match and the rest of the text.\<close>

definition match_here :: "re \<Rightarrow> char option \<Rightarrow> string \<Rightarrow> (char option \<times> string) option" where
  "match_here r p s = rmatch r p s (\<lambda>p' s'. Some (p', s'))"

fun match_from :: "re \<Rightarrow> char option \<Rightarrow> string \<Rightarrow> bool" where
  "match_from r p [] = (match_here r p [] \<noteq> None)"
| "match_from r p (c # s) = (match_here r p (c # s) \<noteq> None \<or> match_from r (Some c) s)"

definition MatchString :: "re \<Rightarrow> string \<Rightarrow> bool" where
  "MatchString r s = match_from r None s"

text \<open>
  \<open>ReplaceAllStringFunc\<close> with a constant replacement, for patterns without empty matches: the
  new text and the number of replacements.
\<close>

function replace_from :: "re \<Rightarrow> string \<Rightarrow> char option \<Rightarrow> string \<Rightarrow> string \<times> nat" where
  "replace_from r rep p s =
     (case s of
        [] \<Rightarrow> ([], 0)
      | c # cs \<Rightarrow>
          (case match_here r p s of
             Some (p', s') \<Rightarrow>
               if length s' < length s then
                 (let (t, n) = replace_from r rep p' s' in (rep @ t, Suc n))
               else (let (t, n) = replace_from r rep (Some c) cs in (c # t, n))
           | None \<Rightarrow> (let (t, n) = replace_from r rep (Some c) cs in (c # t, n))))"
  by pat_completeness auto
termination
  by (relation "measure (\<lambda>(r, rep, p, s). length s)") auto

declare replace_from.simps [simp del]

text \<open>\<open>FindStringSubmatch\<close> for a prefix pattern followed by one captured greedy run of a class.\<close>

fun capture_from :: "re \<Rightarrow> (char \<Rightarrow> bool) \<Rightarrow> char option \<Rightarrow> string \<Rightarrow> string option" where
  "capture_from r f p [] = None"
| "capture_from r f p (c # s) =
     (case match_here (Seq r (Chr f)) p (c # s) of
        Some _ \<Rightarrow> (case match_here r p (c # s) of
                     Some (_, rest) \<Rightarrow> Some (takeWhile f rest) | None \<Rightarrow> None)
      | None \<Rightarrow> capture_from r f (Some c) s)"

section \<open>Derived patterns\<close>

definition Plus :: "re \<Rightarrow> re" where "Plus r = Seq r (Star r)"
definition Opt :: "re \<Rightarrow> re" where "Opt r = Alt r Eps"

fun rep :: "nat \<Rightarrow> re \<Rightarrow> re" where
  "rep 0 r = Eps"
| "rep (Suc n) r = Seq r (rep n r)"

fun rep_upto :: "nat \<Rightarrow> re \<Rightarrow> re" where
  "rep_upto 0 r = Eps"
| "rep_upto (Suc n) r = Opt (Seq r (rep_upto n r))"

definition rep_min :: "nat \<Rightarrow> re \<Rightarrow> re" where "rep_min n r = Seq (rep n r) (Star r)"
definition rep_between :: "nat \<Rightarrow> nat \<Rightarrow> re \<Rightarrow> re" where
  "rep_between n m r = Seq (rep n r) (rep_upto (m - n) r)"

fun lit :: "string \<Rightarrow> re" where
  "lit [] = Eps"
| "lit (c # s) = Seq (Chr (\<lambda>x. x = c)) (lit s)"

text \<open>
  Case folding of \<open>(?i)\<close>: besides the two ASCII cases, \<open>s\<close> matches U+017F (C5 BF) and \<open>k\<close>
  matches U+212A (E2 84 AA).
\<close>

definition long_s :: re where "long_s = lit (utf8 [0xC5, 0xBF])"
definition kelvin :: re where "kelvin = lit (utf8 [0xE2, 0x84, 0xAA])"

definition ci_char :: "char \<Rightarrow> re" where
  "ci_char c =
     (let base = Chr (\<lambda>x. ascii_lower x = ascii_lower c)
      in if ascii_lower c = CHR ''s'' then Alt base long_s
         else if ascii_lower c = CHR ''k'' then Alt base kelvin
         else base)"

fun ci_lit :: "string \<Rightarrow> re" where
  "ci_lit [] = Eps"
| "ci_lit (c # s) = Seq (ci_char c) (ci_lit s)"

text \<open>A folded class that contains both \<open>s\<close> and \<open>k\<close>.\<close>

definition ci_class :: "(char \<Rightarrow> bool) \<Rightarrow> re" where
  "ci_class f = Alt (Chr f) (Alt long_s kelvin)"

definition re_space :: "char \<Rightarrow> bool" where
  "re_space c = (byte c \<in> {9, 10, 12, 13, 32})"

definition is_alpha :: "char \<Rightarrow> bool" where
  "is_alpha c = (65 \<le> byte c \<and> byte c \<le> 90 \<or> 97 \<le> byte c \<and> byte c \<le> 122)"

section \<open>Matching and replacing\<close>

text \<open>A pattern that cannot match the empty text.\<close>

fun nonnull :: "re \<Rightarrow> bool" where
  "nonnull Eps = False"
| "nonnull (Chr f) = True"
| "nonnull (Seq a b) = (nonnull a \<or> nonnull b)"
| "nonnull (Alt a b) = (nonnull a \<and> nonnull b)"
| "nonnull (Star a) = False"
| "nonnull WB = False"

lemma nonnull_rep [simp]: "nonnull (rep n r) = (0 < n \<and> nonnull r)"
  by (induction n) auto

lemma nonnull_rep_min [simp]: "nonnull (rep_min n r) = (0 < n \<and> nonnull r)"
  by (simp add: rep_min_def)

lemma nonnull_rep_between [simp]: "0 < n \<Longrightarrow> nonnull r \<Longrightarrow> nonnull (rep_between n m r)"
  by (simp add: rep_between_def)

lemma nonnull_Plus [simp]: "nonnull (Plus r) = nonnull r"
  by (simp add: Plus_def)

lemma nonnull_ci_lit [simp]: "nonnull (ci_lit (c # s))"
  by (simp add: ci_char_def Let_def long_s_def kelvin_def utf8_def)

lemma nonnull_ci_class [simp]: "nonnull (ci_class f)"
  by (simp add: ci_class_def long_s_def kelvin_def utf8_def)

lemma star_loop_cont:
  assumes f: "\<And>p s k x. f p s k = Some x \<Longrightarrow> \<exists>p' s'. k p' s' = Some x \<and> suffix s' s"
  shows "star_loop f n p s k = Some x \<Longrightarrow> \<exists>p' s'. k p' s' = Some x \<and> suffix s' s"
proof (induction n arbitrary: p s)
  case 0
  then show ?case by auto
next
  case (Suc n)
  let ?k = "\<lambda>p' s'. if length s' < length s then star_loop f n p' s' k else None"
  show ?case
  proof (cases "f p s ?k")
    case None
    with Suc.prems show ?thesis by auto
  next
    case (Some y)
    with Suc.prems have y: "y = x" by simp
    from f [OF Some] y obtain p' s' where "?k p' s' = Some x" "suffix s' s" by blast
    then have "star_loop f n p' s' k = Some x" by (simp split: if_splits)
    from Suc.IH [OF this] \<open>suffix s' s\<close> show ?thesis by (meson suffix_order.trans)
  qed
qed

lemma rmatch_cont:
  "rmatch r p s k = Some x \<Longrightarrow>
   \<exists>p' s'. k p' s' = Some x \<and> suffix s' s \<and> (nonnull r \<longrightarrow> length s' < length s)"
proof (induction r arbitrary: p s k x)
  case (Chr f)
  then show ?case by (auto split: list.splits if_splits intro: suffix_ConsI)
next
  case (Seq a b)
  from Seq.prems have "rmatch a p s (\<lambda>p' s'. rmatch b p' s' k) = Some x" by simp
  from Seq.IH(1) [OF this] obtain p1 s1 where 1: "rmatch b p1 s1 k = Some x" "suffix s1 s"
    "nonnull a \<longrightarrow> length s1 < length s" by blast
  from Seq.IH(2) [OF 1(1)] obtain p2 s2 where "k p2 s2 = Some x" "suffix s2 s1"
    "nonnull b \<longrightarrow> length s2 < length s1" by blast
  with 1(2,3) suffix_length_le [of s1 s] suffix_length_le [of s2 s1] show ?case
    by (metis le_less_trans less_le_trans nonnull.simps(3) suffix_order.trans)
next
  case (Alt a b)
  from Alt.prems have "rmatch a p s k = Some x \<or> rmatch b p s k = Some x"
    by (simp split: option.splits)
  then show ?case
  proof
    assume "rmatch a p s k = Some x"
    from Alt.IH(1) [OF this] show ?thesis by auto
  next
    assume "rmatch b p s k = Some x"
    from Alt.IH(2) [OF this] show ?thesis by auto
  qed
next
  case (Star a)
  have "\<exists>p' s'. k p' s' = Some x \<and> suffix s' s" if "rmatch a p s k = Some x" for p s k x
    using Star.IH [OF that] by blast
  from star_loop_cont [OF this] Star.prems show ?case by simp
qed (auto split: if_splits)


lemma match_here_shorter:
  "nonnull r \<Longrightarrow> match_here r p s = Some (p', s') \<Longrightarrow> length s' < length s"
  by (auto simp: match_here_def dest!: rmatch_cont)

lemma match_here_Nil: "nonnull r \<Longrightarrow> match_here r p [] = None"
  using match_here_shorter [of r p "[]"] by (cases "match_here r p []") force+

text \<open>Replacing changes nothing exactly when nothing matches.\<close>

lemma replace_from_none:
  assumes "nonnull r"
  shows "\<not> match_from r p s \<Longrightarrow> replace_from r rp p s = (s, 0)"
proof (induction s arbitrary: p)
  case Nil
  then show ?case by (simp add: replace_from.simps)
next
  case (Cons c s)
  then have "match_here r p (c # s) = None" and "\<not> match_from r (Some c) s"
    unfolding match_from.simps by blast+
  with Cons.IH have "match_here r p (c # s) = None" "replace_from r rp (Some c) s = (s, 0)"
    by blast+
  then show ?case by (simp add: replace_from.simps [of r rp p "c # s"])
qed

lemma replace_from_some:
  assumes "nonnull r"
  shows "match_from r p s \<Longrightarrow> snd (replace_from r rp p s) > 0"
proof (induction s arbitrary: p)
  case Nil
  with assms show ?case by (simp add: match_here_Nil)
next
  case (Cons c s)
  show ?case
  proof (cases "match_here r p (c # s)")
    case None
    with Cons have "snd (replace_from r rp (Some c) s) > 0" by simp
    with None show ?thesis
      by (simp add: replace_from.simps [of r rp p "c # s"] case_prod_beta)
  next
    case (Some x)
    obtain p' s' where x: "x = (p', s')" by (cases x)
    with Some assms have "length s' < length (c # s)" using match_here_shorter by blast
    with Some x show ?thesis
      by (simp add: replace_from.simps [of r rp p "c # s"] split: prod.splits)
  qed
qed

lemma replace_from_count_iff:
  "nonnull r \<Longrightarrow> (snd (replace_from r rp p s) = 0) = (\<not> match_from r p s)"
  using replace_from_none replace_from_some by (metis less_not_refl snd_conv)

end
