(* ===== verification/Mask.thy ===== *)
theory Mask
  imports Go_Regexp
begin

text \<open>
  The detector of personal data and secrets, \<open>src/internal/platform/mask/mask.go\<close>: the six
  patterns in their order, \<open>Mask\<close>, which replaces and counts, and \<open>HasSensitive\<close>, which only
  detects.
\<close>

definition secret_char :: "char \<Rightarrow> bool" where
  "secret_char c = (is_alpha c \<or> is_digit c \<or> c \<in> set ''._-'')"

definition alnum :: "char \<Rightarrow> bool" where
  "alnum c = (is_alpha c \<or> is_digit c)"

definition re_secret :: re where
  "re_secret = Seq WB
     (Alt (Seq (ci_lit ''bearer'') (Seq (Plus (Chr re_space)) (rep_min 16 (ci_class secret_char))))
     (Alt (Seq (ci_lit ''sk-'') (rep_min 16 (ci_class alnum)))
     (Alt (Seq (ci_lit ''AKIA'') (rep 16 (ci_class alnum)))
     (Alt (Seq (ci_lit ''ghp_'') (rep_min 20 (ci_class alnum)))
          (Seq (ci_lit ''xox'') (Seq (Alt (Chr (\<lambda>c. ascii_lower c \<in> set ''baprs'')) long_s)
            (Seq (lit ''-'') (rep_min 10 (ci_class (\<lambda>c. alnum c \<or> c = CHR ''-'')))))))))) "

definition re_email :: re where
  "re_email = Seq WB (Seq (Plus (Chr (\<lambda>c. alnum c \<or> c \<in> set ''._%+-'')))
     (Seq (lit ''@'') (Seq (Plus (Chr (\<lambda>c. alnum c \<or> c \<in> set ''.-'')))
     (Seq (lit ''.'') (Seq (rep_min 2 (Chr is_alpha)) WB)))))"

definition re_rrn :: re where
  "re_rrn = Seq WB (Seq (rep 6 (Chr is_digit))
     (Seq (Opt (Chr (\<lambda>c. c = CHR ''-'' \<or> re_space c))) (Seq (rep 7 (Chr is_digit)) WB)))"

definition re_ssn :: re where
  "re_ssn = Seq WB (Seq (rep 3 (Chr is_digit)) (Seq (lit ''-'') (Seq (rep 2 (Chr is_digit))
     (Seq (lit ''-'') (Seq (rep 4 (Chr is_digit)) WB)))))"

definition re_card :: re where
  "re_card = Seq WB (Seq (rep_between 13 19
     (Seq (Chr is_digit) (Opt (Chr (\<lambda>c. c \<in> set '' -''))))) WB)"

definition re_phone :: re where
  "re_phone = Seq (Opt (lit ''+'')) (Seq (Chr is_digit)
     (Seq (rep_min 7 (Chr (\<lambda>c. is_digit c \<or> c \<in> set '' -''))) (Chr is_digit)))"

definition mask_rules :: "(string \<times> re) list" where
  "mask_rules = [(''SECRET'', re_secret), (''EMAIL'', re_email), (''RRN'', re_rrn),
     (''SSN'', re_ssn), (''CARD'', re_card), (''PHONE'', re_phone)]"

text \<open>One pass per rule over the text left by the rules before it; only rules that fired count.\<close>

fun mask_loop :: "(string \<times> re) list \<Rightarrow> string \<Rightarrow> string \<times> (string \<times> nat) list" where
  "mask_loop [] text = (text, [])"
| "mask_loop ((name, r) # rs) text =
     (let (text', n) = replace_from r (''[REDACTED-'' @ name @ '']'') None text;
          (out, hits) = mask_loop rs text'
      in (out, if n = 0 then hits else (name, n) # hits))"

definition Mask :: "string \<Rightarrow> string \<times> (string \<times> nat) list" where
  "Mask text = (let (out, hits) = mask_loop mask_rules text in (out, sort_key fst hits))"

definition HasSensitive :: "string \<Rightarrow> bool" where
  "HasSensitive text = list_ex (\<lambda>(name, r). MatchString r text) mask_rules"

lemma nonnull_mask_rules: "\<forall>x\<in>set mask_rules. nonnull (snd x)"
proof -
  have "nonnull re_secret" by (simp add: re_secret_def del: ci_lit.simps)
  moreover have "nonnull re_email" "nonnull re_rrn" "nonnull re_ssn" "nonnull re_card" "nonnull re_phone"
    by (simp_all add: re_email_def re_rrn_def re_ssn_def re_card_def re_phone_def)
  ultimately show ?thesis by (simp add: mask_rules_def)
qed

lemma mask_loop_none:
  "\<forall>x\<in>set rs. nonnull (snd x) \<and> \<not> MatchString (snd x) t \<Longrightarrow> mask_loop rs t = (t, [])"
proof (induction rs)
  case Nil
  then show ?case by simp
next
  case (Cons x rs)
  then have "replace_from (snd x) (''[REDACTED-'' @ fst x @ '']'') None t = (t, 0)"
    by (intro replace_from_none) (simp_all add: MatchString_def)
  with Cons show ?case by (cases x) simp
qed

lemma mask_loop_nohit:
  assumes "\<forall>x\<in>set rs. nonnull (snd x)" "snd (mask_loop rs t) = []"
  shows "\<forall>x\<in>set rs. \<not> MatchString (snd x) t"
  using assms
proof (induction rs)
  case Nil
  then show ?case by simp
next
  case (Cons x rs)
  obtain name r where x: "x = (name, r)" by (cases x)
  let ?R = "replace_from r (''[REDACTED-'' @ name @ '']'') None t"
  have nn: "nonnull r" using Cons.prems(1) x by simp
  have zero: "snd ?R = 0"
    using Cons.prems(2) x by (simp add: case_prod_beta Let_def split: if_splits)
  then have nom: "\<not> MatchString r t"
    using replace_from_count_iff [OF nn] by (simp add: MatchString_def)
  then have "?R = (t, 0)" using nn by (simp add: MatchString_def replace_from_none)
  with Cons.prems(2) x have "snd (mask_loop rs t) = []"
    by (simp add: case_prod_beta)
  with Cons x nom show ?case by simp
qed

lemma mask_loop_hits:
  "\<forall>h \<in> set (snd (mask_loop rs t)). 0 < snd h \<and> fst h \<in> fst ` set rs"
proof (induction rs arbitrary: t)
  case (Cons x rs)
  obtain name r where x: "x = (name, r)" by (cases x)
  from Cons.IH [of "fst (replace_from r (''[REDACTED-'' @ name @ '']'') None t)"] x
  show ?case by (auto simp: case_prod_beta Let_def)
qed simp

lemma snd_Mask: "snd (Mask t) = sort_key fst (snd (mask_loop mask_rules t))"
  by (simp add: Mask_def case_prod_beta)

lemma Mask_nil_iff: "(snd (Mask t) = []) = (\<not> HasSensitive t)"
proof
  assume "snd (Mask t) = []"
  then have "snd (mask_loop mask_rules t) = []"
    by (metis snd_Mask length_0_conv length_sort)
  from mask_loop_nohit [OF nonnull_mask_rules this] show "\<not> HasSensitive t"
    by (auto simp: HasSensitive_def list_ex_iff case_prod_beta)
next
  assume "\<not> HasSensitive t"
  with nonnull_mask_rules have "mask_loop mask_rules t = (t, [])"
    by (intro mask_loop_none) (auto simp: HasSensitive_def list_ex_iff case_prod_beta)
  then show "snd (Mask t) = []" by (simp add: Mask_def)
qed

end
