(* ===== verification/Store_Mail.thy ===== *)
theory Store_Mail
  imports Sample_World
begin

text \<open>
  Messages, bodies, attachments, threads, sync checkpoints, accounts and rules, as
  \<open>src/internal/adapters/persistence/store.go\<close> keeps them.  The full-text index, which only
  answers searches, and the encryption of body columns are not modelled.  A \<open>SELECT \<dots> LIMIT 1\<close>
  without an order is the first row in insertion order.
\<close>

section \<open>Accounts and credentials\<close>

definition db_GetAccount :: "store \<Rightarrow> string \<Rightarrow> string \<Rightarrow> err + MailAccount" where
  "db_GetAccount s userID aid =
     (case find (\<lambda>a. a_ID a = aid \<and> a_UserID a = userID) (accounts s) of
        None \<Rightarrow> Inl ErrNotFound | Some a \<Rightarrow> Inr a)"

definition db_ListAccounts :: "store \<Rightarrow> string \<Rightarrow> MailAccount list" where
  "db_ListAccounts s userID =
     sort_key a_CreatedAt (filter (\<lambda>a. a_UserID a = userID \<and> a_Status a \<noteq> AccountDeleted) (accounts s))"

definition db_SetAccountStatus :: "store \<Rightarrow> int \<Rightarrow> string \<Rightarrow> string \<Rightarrow> AccountStatus \<Rightarrow> store" where
  "db_SetAccountStatus s ts userID aid status =
     s\<lparr>accounts := upd_where (\<lambda>a. a_ID a = aid \<and> a_UserID a = userID)
         (\<lambda>a. a\<lparr>a_Status := status, a_UpdatedAt := ts\<rparr>) (accounts s)\<rparr>"

definition db_TouchCredential :: "store \<Rightarrow> int \<Rightarrow> string \<Rightarrow> store" where
  "db_TouchCredential s ts ref =
     s\<lparr>credentials := upd_where (\<lambda>c. cr_Ref c = ref) (\<lambda>c. c\<lparr>cr_LastUsedAt := ts\<rparr>) (credentials s)\<rparr>"

text \<open>A second registration of a reference keeps its owner.\<close>

definition db_PutCredentialRef :: "store \<Rightarrow> int \<Rightarrow> CredentialRef \<Rightarrow> store" where
  "db_PutCredentialRef s ts c =
     (if no_row (\<lambda>r. cr_Ref r = cr_Ref c) (credentials s)
      then s\<lparr>credentials := credentials s @ [c\<lparr>cr_CreatedAt := ts, cr_LastUsedAt := 0\<rparr>]\<rparr>
      else s\<lparr>credentials := upd_where (\<lambda>r. cr_Ref r = cr_Ref c)
               (\<lambda>r. r\<lparr>cr_Status := cr_Status c, cr_Version := cr_Version c\<rparr>) (credentials s)\<rparr>)"

definition db_SetCredentialStatus :: "store \<Rightarrow> string \<Rightarrow> string \<Rightarrow> store" where
  "db_SetCredentialStatus s ref status =
     s\<lparr>credentials := upd_where (\<lambda>c. cr_Ref c = ref) (\<lambda>c. c\<lparr>cr_Status := status\<rparr>) (credentials s)\<rparr>"

text \<open>\<open>App.GetAccount\<close> hides a deleted account.\<close>

definition GetAccount :: "store \<Rightarrow> ctx \<Rightarrow> string \<Rightarrow> err + MailAccount" where
  "GetAccount s c aid =
     (case db_GetAccount s (userIDFrom c) aid of
        Inl e \<Rightarrow> Inl e
      | Inr acc \<Rightarrow> if a_Status acc = AccountDeleted then Inl ErrNotFound else Inr acc)"

section \<open>Checkpoints\<close>

definition db_HasCheckpoint :: "store \<Rightarrow> string \<Rightarrow> string \<Rightarrow> bool" where
  "db_HasCheckpoint s accountID uidl =
     list_ex (\<lambda>c. cp_AccountID c = accountID \<and> cp_UIDL c = uidl) (checkpoints s)"

definition db_AddCheckpoint :: "store \<Rightarrow> string \<Rightarrow> string \<Rightarrow> string \<Rightarrow> store" where
  "db_AddCheckpoint s accountID uidl messageID =
     (if db_HasCheckpoint s accountID uidl then s
      else s\<lparr>checkpoints := checkpoints s @
             [\<lparr>cp_AccountID = accountID, cp_UIDL = uidl, cp_MessageID = messageID\<rparr>]\<rparr>)"

definition db_StoredUIDLs :: "store \<Rightarrow> string \<Rightarrow> string list" where
  "db_StoredUIDLs s accountID = map cp_UIDL (filter (\<lambda>c. cp_AccountID c = accountID) (checkpoints s))"

section \<open>Messages\<close>

text \<open>
  \<open>InsertMessage\<close> is one transaction: the message, its body, its attachments and the thread
  counter, or nothing.  The columns it does not name take their defaults.
\<close>

definition message_row :: "int \<Rightarrow> Message \<Rightarrow> Message" where
  "message_row ts m =
     m\<lparr>m_CreatedAt := ts, m_Mailbox := (if m_Mailbox m = [] then MailboxInbox else m_Mailbox m),
       m_IsArchived := False, m_IsImportant := False, m_SnoozedUntil := 0, m_Labels := [],
       m_LegalHold := False\<rparr>"

definition db_InsertMessage ::
  "store \<Rightarrow> int \<Rightarrow> Message \<Rightarrow> MessageBody \<Rightarrow> Attachment list \<Rightarrow> err + store" where
  "db_InsertMessage s ts m body atts =
     (if \<not> no_row (\<lambda>r. m_ID r = m_ID m) (messages s) then Inl (UniqueViolation ''messages.id'')
      else if \<not> no_row (\<lambda>r. m_AccountID r = m_AccountID m \<and> m_RawHash r = m_RawHash m) (messages s)
      then Inl (UniqueViolation ''messages.account_id, messages.raw_hash'')
      else if \<not> no_row (\<lambda>b. b_MessageID b = m_ID m) (bodies s)
      then Inl (UniqueViolation ''message_bodies.message_id'')
      else if \<not> distinct (map at_ID atts) \<or>
              \<not> no_row (\<lambda>r. at_ID r \<in> set (map at_ID atts)) (attachments s)
      then Inl (UniqueViolation ''attachments.id'')
      else Inr (s\<lparr>messages := messages s @ [message_row ts m],
                  bodies := bodies s @ [body\<lparr>b_MessageID := m_ID m\<rparr>],
                  attachments := attachments s @ map (\<lambda>x. x\<lparr>at_MessageID := m_ID m\<rparr>) atts,
                  threads := (if m_ThreadID m = [] then threads s
                    else upd_where (\<lambda>t. th_ID t = m_ThreadID m)
                      (\<lambda>t. t\<lparr>th_LastMessageAt := max (th_LastMessageAt t) (m_Date m),
                             th_MessageCount := th_MessageCount t + 1\<rparr>) (threads s))\<rparr>))"

definition uri_refs :: "store \<Rightarrow> string \<Rightarrow> nat" where
  "uri_refs s u = length (filter (\<lambda>m. m_RawURI m = u) (messages s)) +
                  length (filter (\<lambda>x. at_StorageURI x = u) (attachments s))"

text \<open>
  \<open>DeleteMessage\<close>: bodies and attachments go with the message by the foreign keys; the result is
  the addresses that no row refers to any more.
\<close>

definition db_DeleteMessage :: "store \<Rightarrow> string \<Rightarrow> string \<Rightarrow> err + (string list \<times> store)" where
  "db_DeleteMessage s userID mid =
     (case find (\<lambda>m. m_ID m = mid \<and> m_UserID m = userID) (messages s) of
        None \<Rightarrow> Inl ErrNotFound
      | Some m \<Rightarrow>
          (let candidates = m_RawURI m #
                 filter (\<lambda>u. u \<noteq> []) (map at_StorageURI (filter (\<lambda>x. at_MessageID x = mid) (attachments s)));
               s' = s\<lparr>messages := del_where (\<lambda>r. m_ID r = mid \<and> m_UserID r = userID) (messages s),
                      bodies := del_where (\<lambda>b. b_MessageID b = mid) (bodies s),
                      attachments := del_where (\<lambda>x. at_MessageID x = mid) (attachments s)\<rparr>
           in Inr (filter (\<lambda>u. uri_refs s' u = 0) candidates, s')))"

definition db_IsDuplicateHash :: "store \<Rightarrow> string \<Rightarrow> string \<Rightarrow> bool" where
  "db_IsDuplicateHash s accountID rawHash =
     list_ex (\<lambda>m. m_AccountID m = accountID \<and> m_RawHash m = rawHash) (messages s)"

definition db_HasSentCopy :: "store \<Rightarrow> string \<Rightarrow> string \<Rightarrow> bool" where
  "db_HasSentCopy s accountID hdr =
     (hdr \<noteq> [] \<and>
      list_ex (\<lambda>m. m_AccountID m = accountID \<and> m_Mailbox m = MailboxSent \<and> m_MessageID m = hdr)
        (messages s))"

definition db_GetMessage :: "store \<Rightarrow> string \<Rightarrow> string \<Rightarrow> err + Message" where
  "db_GetMessage s userID mid =
     (case find (\<lambda>m. m_ID m = mid \<and> m_UserID m = userID) (messages s) of
        None \<Rightarrow> Inl ErrNotFound | Some m \<Rightarrow> Inr m)"

definition db_GetMessageByHeader :: "store \<Rightarrow> string \<Rightarrow> string \<Rightarrow> string \<Rightarrow> err + Message" where
  "db_GetMessageByHeader s userID accountID hdr =
     (case find (\<lambda>m. m_UserID m = userID \<and> m_AccountID m = accountID \<and> m_MessageID m = hdr) (messages s) of
        None \<Rightarrow> Inl ErrNotFound | Some m \<Rightarrow> Inr m)"

definition db_GetBody :: "store \<Rightarrow> string \<Rightarrow> string \<Rightarrow> err + MessageBody" where
  "db_GetBody s userID mid =
     (case find (\<lambda>b. b_MessageID b = mid \<and>
                  \<not> no_row (\<lambda>m. m_ID m = b_MessageID b \<and> m_UserID m = userID) (messages s)) (bodies s) of
        None \<Rightarrow> Inl ErrNotFound | Some b \<Rightarrow> Inr b)"

definition db_ListAttachments :: "store \<Rightarrow> string \<Rightarrow> string \<Rightarrow> Attachment list" where
  "db_ListAttachments s userID mid =
     filter (\<lambda>x. at_MessageID x = mid \<and>
        \<not> no_row (\<lambda>m. m_ID m = at_MessageID x \<and> m_UserID m = userID) (messages s)) (attachments s)"

text \<open>\<open>UpdateMessage\<close> writes the mutable columns only.\<close>

definition db_UpdateMessage :: "store \<Rightarrow> Message \<Rightarrow> err + store" where
  "db_UpdateMessage s m =
     (let mine = (\<lambda>r. m_ID r = m_ID m \<and> m_UserID r = m_UserID m)
      in if no_row mine (messages s) then Inl ErrNotFound
         else Inr (s\<lparr>messages := upd_where mine
                (\<lambda>r. r\<lparr>m_IsArchived := m_IsArchived m, m_IsImportant := m_IsImportant m,
                       m_SnoozedUntil := m_SnoozedUntil m, m_Labels := m_Labels m,
                       m_LegalHold := m_LegalHold m, m_IsRead := m_IsRead m\<rparr>) (messages s)\<rparr>))"

section \<open>Threads\<close>

fun thread_of_refs :: "store \<Rightarrow> string \<Rightarrow> string \<Rightarrow> string list \<Rightarrow> string option" where
  "thread_of_refs s userID accountID [] = None"
| "thread_of_refs s userID accountID (r # rs) =
     (if r = [] then thread_of_refs s userID accountID rs
      else case find (\<lambda>m. m_UserID m = userID \<and> m_AccountID m = accountID \<and> m_MessageID m = r
                         \<and> m_ThreadID m \<noteq> []) (messages s) of
             Some m \<Rightarrow> Some (m_ThreadID m)
           | None \<Rightarrow> thread_of_refs s userID accountID rs)"

text \<open>
  \<open>ResolveThread\<close>: the thread of a referenced message, else (for a reply) a thread with the same
  subject key, else a new thread \<open>tid\<close>.
\<close>

definition db_ResolveThread ::
  "store \<Rightarrow> string \<Rightarrow> string \<Rightarrow> string \<Rightarrow> string list \<Rightarrow> string \<Rightarrow> int \<Rightarrow> err + (string \<times> store)" where
  "db_ResolveThread s tid userID accountID refs subjectKey date =
     (case thread_of_refs s userID accountID refs of
        Some t \<Rightarrow> Inr (t, s)
      | None \<Rightarrow>
          (case (if subjectKey \<noteq> [] \<and> refs \<noteq> []
                 then find (\<lambda>t. th_UserID t = userID \<and> th_AccountID t = accountID
                              \<and> th_SubjectKey t = subjectKey) (threads s)
                 else None) of
             Some t \<Rightarrow> Inr (th_ID t, s)
           | None \<Rightarrow>
               if \<not> no_row (\<lambda>t. th_ID t = tid) (threads s) then Inl (UniqueViolation ''threads.id'')
               else Inr (tid, s\<lparr>threads := threads s @
                      [\<lparr>th_ID = tid, th_UserID = userID, th_AccountID = accountID,
                        th_SubjectKey = subjectKey, th_LastMessageAt = date, th_MessageCount = 0\<rparr>]\<rparr>)))"

definition db_GetThreadMessages :: "store \<Rightarrow> string \<Rightarrow> string \<Rightarrow> Message list" where
  "db_GetThreadMessages s userID tid =
     sort_key m_Date (filter (\<lambda>m. m_UserID m = userID \<and> m_ThreadID m = tid) (messages s))"

section \<open>Rules\<close>

definition db_CreateRule :: "store \<Rightarrow> int \<Rightarrow> MailRule \<Rightarrow> err + store" where
  "db_CreateRule s ts r =
     (if \<not> no_row (\<lambda>x. r_ID x = r_ID r) (rules s) then Inl (UniqueViolation ''mail_rules.id'')
      else Inr (s\<lparr>rules := rules s @ [r\<lparr>r_CreatedAt := ts, r_UpdatedAt := ts\<rparr>]\<rparr>))"

definition db_UpdateRule :: "store \<Rightarrow> int \<Rightarrow> MailRule \<Rightarrow> err + store" where
  "db_UpdateRule s ts r =
     (let mine = (\<lambda>x. r_ID x = r_ID r \<and> r_UserID x = r_UserID r)
      in if no_row mine (rules s) then Inl ErrNotFound
         else Inr (s\<lparr>rules := upd_where mine
                (\<lambda>x. x\<lparr>r_Name := r_Name r, r_Enabled := r_Enabled r, r_Priority := r_Priority r,
                       r_Match := r_Match r, r_Conditions := r_Conditions r,
                       r_Actions := r_Actions r, r_StopOnMatch := r_StopOnMatch r,
                       r_UpdatedAt := ts\<rparr>) (rules s)\<rparr>))"

definition db_DeleteRule :: "store \<Rightarrow> string \<Rightarrow> string \<Rightarrow> err + store" where
  "db_DeleteRule s userID rid =
     (let mine = (\<lambda>x. r_ID x = rid \<and> r_UserID x = userID)
      in if no_row mine (rules s) then Inl ErrNotFound
         else Inr (s\<lparr>rules := del_where mine (rules s)\<rparr>))"

definition db_GetRule :: "store \<Rightarrow> string \<Rightarrow> string \<Rightarrow> err + MailRule" where
  "db_GetRule s userID rid =
     (case find (\<lambda>x. r_ID x = rid \<and> r_UserID x = userID) (rules s) of
        None \<Rightarrow> Inl ErrNotFound | Some r \<Rightarrow> Inr r)"

definition db_ListRules :: "store \<Rightarrow> string \<Rightarrow> MailRule list" where
  "db_ListRules s userID =
     sort_key (\<lambda>r. (r_Priority r, r_CreatedAt r)) (filter (\<lambda>r. r_UserID r = userID) (rules s))"

section \<open>The mail invariant\<close>

text \<open>
  What the schema guarantees: primary keys, the unique index on account and raw hash, and no
  orphaned body or attachment.
\<close>

definition mail_inv :: "store \<Rightarrow> bool" where
  "mail_inv s \<longleftrightarrow>
     distinct (map m_ID (messages s)) \<and>
     distinct (map (\<lambda>m. (m_AccountID m, m_RawHash m)) (messages s)) \<and>
     distinct (map b_MessageID (bodies s)) \<and> distinct (map at_ID (attachments s)) \<and>
     b_MessageID ` set (bodies s) \<subseteq> m_ID ` set (messages s) \<and>
     at_MessageID ` set (attachments s) \<subseteq> m_ID ` set (messages s)"

lemma mail_inv_cong:
  "messages s' = messages s \<Longrightarrow> bodies s' = bodies s \<Longrightarrow> attachments s' = attachments s \<Longrightarrow>
   mail_inv s' = mail_inv s"
  by (simp add: mail_inv_def)

lemma mail_inv_audit [simp]: "mail_inv (audit s n c x r y d) = mail_inv s"
  by (rule mail_inv_cong) simp_all

lemma db_AddCheckpoint_frame [simp]:
  "messages (db_AddCheckpoint s a u m) = messages s" "bodies (db_AddCheckpoint s a u m) = bodies s"
  "attachments (db_AddCheckpoint s a u m) = attachments s" "rules (db_AddCheckpoint s a u m) = rules s"
  by (simp_all add: db_AddCheckpoint_def)

lemma mail_inv_checkpoint [simp]: "mail_inv (db_AddCheckpoint s a u m) = mail_inv s"
  by (rule mail_inv_cong) simp_all

lemma HasCheckpoint_Add [simp]:
  "db_HasCheckpoint (db_AddCheckpoint s a u m) a' u' \<longleftrightarrow> db_HasCheckpoint s a' u' \<or> (a' = a \<and> u' = u)"
  by (auto simp: db_AddCheckpoint_def db_HasCheckpoint_def)

lemma message_row_keys [simp]:
  "m_ID (message_row n m) = m_ID m" "m_AccountID (message_row n m) = m_AccountID m"
  "m_RawHash (message_row n m) = m_RawHash m" "m_RawURI (message_row n m) = m_RawURI m"
  "m_UserID (message_row n m) = m_UserID m" "m_LegalHold (message_row n m) = False"
  by (simp_all add: message_row_def)

lemma insert_ok:
  assumes "db_InsertMessage s n m b atts = Inr s'"
  shows "messages s' = messages s @ [message_row n m]"
    "bodies s' = bodies s @ [b\<lparr>b_MessageID := m_ID m\<rparr>]"
    "attachments s' = attachments s @ map (\<lambda>x. x\<lparr>at_MessageID := m_ID m\<rparr>) atts"
    "checkpoints s' = checkpoints s" "rules s' = rules s" "accounts s' = accounts s"
    "audits s' = audits s" "drafts s' = drafts s" "versions s' = versions s"
    "outbound s' = outbound s" "approvals s' = approvals s"
    "m_ID m \<notin> m_ID ` set (messages s)"
    "(m_AccountID m, m_RawHash m) \<notin> (\<lambda>m. (m_AccountID m, m_RawHash m)) ` set (messages s)"
    "m_ID m \<notin> b_MessageID ` set (bodies s)" "distinct (map at_ID atts)"
    "\<forall>r\<in>set (attachments s). at_ID r \<notin> at_ID ` set atts"
  using assms by (auto simp: db_InsertMessage_def no_row_iff split: if_splits)

lemma mail_inv_insert:
  assumes "mail_inv s" "db_InsertMessage s n m b atts = Inr s'"
  shows "mail_inv s'"
proof -
  have "map at_ID (map (\<lambda>x. x\<lparr>at_MessageID := m_ID m\<rparr>) atts) = map at_ID atts" by simp
  with assms(1) insert_ok [OF assms(2)] show ?thesis
    by (auto simp: mail_inv_def comp_def)
qed

lemma delete_cases:
  assumes "db_DeleteMessage s u mid = Inr (orphans, s')"
  obtains m where "m \<in> set (messages s)" "m_ID m = mid" "m_UserID m = u"
    "messages s' = del_where (\<lambda>r. m_ID r = mid \<and> m_UserID r = u) (messages s)"
    "bodies s' = del_where (\<lambda>b. b_MessageID b = mid) (bodies s)"
    "attachments s' = del_where (\<lambda>x. at_MessageID x = mid) (attachments s)"
    "set orphans = {x \<in> insert (m_RawURI m) ((at_StorageURI ` {x \<in> set (attachments s). at_MessageID x = mid}) - {[]}).
        uri_refs s' x = 0}"
proof -
  from assms obtain m where f: "find (\<lambda>m. m_ID m = mid \<and> m_UserID m = u) (messages s) = Some m"
    by (auto simp: db_DeleteMessage_def split: option.splits)
  with assms have s': "s' = s\<lparr>messages := del_where (\<lambda>r. m_ID r = mid \<and> m_UserID r = u) (messages s),
      bodies := del_where (\<lambda>b. b_MessageID b = mid) (bodies s),
      attachments := del_where (\<lambda>x. at_MessageID x = mid) (attachments s)\<rparr>"
    and orph: "orphans = filter (\<lambda>u. uri_refs s' u = 0) (m_RawURI m # filter (\<lambda>u. u \<noteq> [])
      (map at_StorageURI (filter (\<lambda>x. at_MessageID x = mid) (attachments s))))"
    by (auto simp: db_DeleteMessage_def Let_def)
  have "set orphans = {x \<in> insert (m_RawURI m) ((at_StorageURI ` {x \<in> set (attachments s). at_MessageID x = mid}) - {[]}).
        uri_refs s' x = 0}"
    by (auto simp: orph)
  with find_SomeD [OF f] show thesis
    by (intro that [of m]) (simp_all add: s')
qed

lemma mail_inv_delete:
  assumes inv: "mail_inv s" and del: "db_DeleteMessage s u mid = Inr (orphans, s')"
  shows "mail_inv s'"
  using del
proof (rule delete_cases)
  fix m
  assume m: "m \<in> set (messages s)" "m_ID m = mid" "m_UserID m = u"
    and msgs: "messages s' = del_where (\<lambda>r. m_ID r = mid \<and> m_UserID r = u) (messages s)"
    and b: "bodies s' = del_where (\<lambda>b. b_MessageID b = mid) (bodies s)"
    and a: "attachments s' = del_where (\<lambda>x. at_MessageID x = mid) (attachments s)"
  have keep: "x \<in> set (messages s) \<Longrightarrow> m_ID x \<noteq> mid \<Longrightarrow> x \<in> set (messages s')" for x
    by (simp add: msgs)
  from inv have "distinct (map m_ID (messages s'))"
      "distinct (map (\<lambda>m. (m_AccountID m, m_RawHash m)) (messages s'))"
      "distinct (map b_MessageID (bodies s'))" "distinct (map at_ID (attachments s'))"
    by (simp_all add: mail_inv_def msgs a b distinct_map_del_where)
  moreover have "b_MessageID ` set (bodies s') \<subseteq> m_ID ` set (messages s')"
  proof
    fix y assume "y \<in> b_MessageID ` set (bodies s')"
    then obtain x where x: "x \<in> set (bodies s)" "y = b_MessageID x" "y \<noteq> mid" by (auto simp: b)
    with inv have "y \<in> m_ID ` set (messages s)" unfolding mail_inv_def by blast
    with keep x(3) show "y \<in> m_ID ` set (messages s')" by blast
  qed
  moreover have "at_MessageID ` set (attachments s') \<subseteq> m_ID ` set (messages s')"
  proof
    fix y assume "y \<in> at_MessageID ` set (attachments s')"
    then obtain x where x: "x \<in> set (attachments s)" "y = at_MessageID x" "y \<noteq> mid" by (auto simp: a)
    with inv have "y \<in> m_ID ` set (messages s)" unfolding mail_inv_def by blast
    with keep x(3) show "y \<in> m_ID ` set (messages s')" by blast
  qed
  ultimately show ?thesis by (simp add: mail_inv_def)
qed

lemma uri_refs_zero:
  "uri_refs s u = 0 \<longleftrightarrow>
     (\<forall>m\<in>set (messages s). m_RawURI m \<noteq> u) \<and> (\<forall>x\<in>set (attachments s). at_StorageURI x \<noteq> u)"
  by (auto simp: uri_refs_def filter_empty_conv)

lemma update_keys:
  assumes "db_UpdateMessage s m = Inr s'"
  shows "map (\<lambda>r. (m_ID r, m_UserID r, m_AccountID r, m_RawHash r, m_RawURI r, m_UIDL r)) (messages s') =
         map (\<lambda>r. (m_ID r, m_UserID r, m_AccountID r, m_RawHash r, m_RawURI r, m_UIDL r)) (messages s)"
    "bodies s' = bodies s" "attachments s' = attachments s" "checkpoints s' = checkpoints s"
    "rules s' = rules s"
  using assms by (auto simp: db_UpdateMessage_def Let_def map_upd_where_same split: if_splits)

lemma mail_inv_update:
  assumes "mail_inv s" "db_UpdateMessage s m = Inr s'"
  shows "mail_inv s'"
proof -
  note k = arg_cong [OF update_keys(1) [OF assms(2)], of "map g" for g]
  have ids: "map m_ID (messages s') = map m_ID (messages s)"
    using k [of fst] by (simp add: comp_def)
  moreover have "map (\<lambda>r. (m_AccountID r, m_RawHash r)) (messages s') =
      map (\<lambda>r. (m_AccountID r, m_RawHash r)) (messages s)"
    using k [of "\<lambda>t. (fst (snd (snd t)), fst (snd (snd (snd t))))"] by (simp add: comp_def)
  moreover have "m_ID ` set (messages s') = m_ID ` set (messages s)"
    using ids by (metis list.set_map)
  ultimately show ?thesis
    using assms(1) update_keys(2,3) [OF assms(2)] by (simp add: mail_inv_def)
qed

section \<open>Properties\<close>

text \<open>
  Deleting a message frees exactly what nothing refers to any more: no address it returns for
  purging is referenced by a remaining message or attachment, every other address that was in use
  is still in use, and every other message, with its body and attachments, is untouched.
\<close>

theorem DeleteMessage_frees_exactly_orphans:
  assumes "mail_inv s" and "db_DeleteMessage s u mid = Inr (orphans, s')"
  shows "(\<forall>x\<in>set orphans. uri_refs s' x = 0) \<and>
     (\<forall>x. x \<noteq> [] \<longrightarrow> uri_refs s x > 0 \<longrightarrow> x \<notin> set orphans \<longrightarrow> uri_refs s' x > 0) \<and>
     {m \<in> set (messages s). m_ID m \<noteq> mid} = set (messages s') \<and>
     {x \<in> set (attachments s). at_MessageID x \<noteq> mid} = set (attachments s') \<and>
     {b \<in> set (bodies s). b_MessageID b \<noteq> mid} = set (bodies s')"
  using assms(2)
proof (rule delete_cases)
  fix m
  assume m: "m \<in> set (messages s)" "m_ID m = mid" "m_UserID m = u"
    and msgs: "messages s' = del_where (\<lambda>r. m_ID r = mid \<and> m_UserID r = u) (messages s)"
    and b: "bodies s' = del_where (\<lambda>b. b_MessageID b = mid) (bodies s)"
    and a: "attachments s' = del_where (\<lambda>x. at_MessageID x = mid) (attachments s)"
    and orph: "set orphans = {x \<in> insert (m_RawURI m)
        ((at_StorageURI ` {x \<in> set (attachments s). at_MessageID x = mid}) - {[]}). uri_refs s' x = 0}"
  have only: "x \<in> set (messages s) \<Longrightarrow> m_ID x = mid \<Longrightarrow> x = m" for x
    using assms(1) m by (auto simp: mail_inv_def intro: unique_key_eq)
  have keeps: "{m \<in> set (messages s). m_ID m \<noteq> mid} = set (messages s')"
  proof -
    have "m_UserID r = u" if "r \<in> set (messages s)" "m_ID r = mid" for r
      using only [OF that] m(3) by simp
    then show ?thesis unfolding msgs set_del_where by (intro Collect_cong) metis
  qed
  have "uri_refs s' x > 0" if "x \<noteq> []" "uri_refs s x > 0" "x \<notin> set orphans" for x
  proof (rule ccontr)
    assume "\<not> uri_refs s' x > 0"
    then have z: "uri_refs s' x = 0" by simp
    then have raw: "x \<noteq> m_RawURI m" and att: "x \<notin> at_StorageURI ` {x \<in> set (attachments s). at_MessageID x = mid}"
      using that orph by auto
    have "m_RawURI r \<noteq> x" if "r \<in> set (messages s)" for r
    proof (cases "m_ID r = mid")
      case True
      from only [OF that True] raw show ?thesis by simp
    next
      case False
      with that keeps have "r \<in> set (messages s')" by auto
      with z show ?thesis by (simp add: uri_refs_zero)
    qed
    moreover have "at_StorageURI r \<noteq> x" if "r \<in> set (attachments s)" for r
      using that att z by (cases "at_MessageID r = mid") (auto simp: uri_refs_zero a)
    ultimately have "uri_refs s x = 0" by (simp add: uri_refs_zero)
    with that(2) show False by simp
  qed
  moreover have "\<forall>x\<in>set orphans. uri_refs s' x = 0" using orph by simp
  ultimately show ?thesis
    using keeps by (simp add: a b)
qed

theorem DeleteMessage_frees_exactly_orphans_witness:
  "uri_refs (empty_store\<lparr>messages := []\<rparr>) ''local://raw/h1'' = 0"
proof -
  let ?s = "empty_store\<lparr>messages := [sample_message]\<rparr>"
  have "mail_inv ?s" by (simp add: mail_inv_def empty_store_def)
  moreover have "db_DeleteMessage ?s ''usr_1'' ''msg_1'' =
      Inr ([''local://raw/h1''], empty_store\<lparr>messages := []\<rparr>)"
    by (simp add: db_DeleteMessage_def Let_def sample_message_def empty_store_def uri_refs_def
          del_where_def)
  ultimately show ?thesis
    using DeleteMessage_frees_exactly_orphans [of ?s "''usr_1''" "''msg_1''"]
    by (simp add: sample_message_def)
qed

end
