(* ===== verification/Outgoing_Policy.thy ===== *)
theory Outgoing_Policy
  imports Approvals Attachment_Scan Mask Store_Mail
begin

text \<open>
  The checks a draft passes before it is sent: validation, the administrator's send policy, data
  loss prevention, the rate limit, and the preview shown to the approver
  (\<open>src/internal/application/send.go\<close>, \<open>dlp.go\<close>, and \<open>checkWritingPolicy\<close> of \<open>compose.go\<close>).
\<close>

section \<open>Validation\<close>

definition crlfGuard :: "string list \<Rightarrow> err option" where
  "crlfGuard hs =
     (if list_ex (\<lambda>f. ContainsAny f [CHR 0x0D, CHR 0x0A]) hs
      then Some (UserError ''header field contains CR/LF characters'') else None)"

definition draftSendBodies :: "lib \<Rightarrow> DraftVersion \<Rightarrow> string \<times> string" where
  "draftSendBodies L v =
     (if v_BodyHTML v = [] then (v_BodyText v, [])
      else (let html = SanitizeApprovedOutbound L (v_BodyHTML v) in (PlainText L html, html)))"

definition draftPolicyText :: "lib \<Rightarrow> DraftVersion \<Rightarrow> string" where
  "draftPolicyText L v = (if v_BodyHTML v = [] then v_BodyText v else PolicyText L (v_BodyHTML v))"

definition recipients :: "DraftVersion \<Rightarrow> Address list" where
  "recipients v = v_To v @ v_Cc v @ v_Bcc v"

fun check_addresses :: "lib \<Rightarrow> Address list \<Rightarrow> err option" where
  "check_addresses L [] = None"
| "check_addresses L (x # xs) =
     (if \<not> parse_address_ok L (ad_Email x)
      then Some (UserError (''invalid recipient address '' @ go_quote L (ad_Email x)))
      else case crlfGuard [ad_Email x, ad_Name x] of
             Some e \<Rightarrow> Some e | None \<Rightarrow> check_addresses L xs)"

definition validateDraftForSend :: "lib \<Rightarrow> MailAccount \<Rightarrow> DraftVersion \<Rightarrow> err option" where
  "validateDraftForSend L acc v =
     (if v_To v = [] then Some (UserError ''draft has no recipients (DRAFT-009)'')
      else if TrimSpace (v_Subject v) = [] then Some (UserError ''draft has an empty subject'')
      else if TrimSpace (fst (draftSendBodies L v)) = [] then Some (UserError ''draft has an empty body'')
      else case check_addresses L (recipients v) of
             Some e \<Rightarrow> Some e
           | None \<Rightarrow> crlfGuard [v_Subject v, a_Email acc])"

section \<open>Send policy\<close>

fun image_check :: "lib \<Rightarrow> app \<Rightarrow> string list \<Rightarrow> bool" where
  "image_check L a [] = True"
| "image_check L a (src # srcs) =
     (let mode = Setting a ''mail.outbound_images''
      in if mode = ''allow'' then image_check L a srcs
         else if mode = ''proxy'' \<and> IsProxiedImage L src (Setting a ''mail.image_proxy_url'')
         then image_check L a srcs else False)"

definition tls_ok :: "MailAccount \<Rightarrow> bool" where
  "tls_ok acc = ((a_SMTPSecurity acc = SecurityTLS \<or> a_SMTPSecurity acc = SecurityStartTLS)
                 \<and> \<not> a_InsecureSkipVerify acc)"

definition smtp_auth_ok :: "MailAccount \<Rightarrow> bool" where
  "smtp_auth_ok acc = (a_SMTPAuth acc \<noteq> ''none'' \<and> a_SMTPAuth acc \<noteq> [] \<and> a_SMTPSecret acc \<noteq> []
                       \<and> a_SMTPUsername acc \<noteq> [])"

definition enforceSendPolicy :: "lib \<Rightarrow> app \<Rightarrow> MailAccount \<Rightarrow> DraftVersion \<Rightarrow> err option" where
  "enforceSendPolicy L a acc v =
     (if \<not> image_check L a (RemoteImageSources L (SanitizeApprovedOutbound L (v_BodyHTML v)))
      then Some (UserError ''outbound image policy changed; render the draft again and request a new approval'')
      else case validateDraftAttachments L a v of
             Some e \<Rightarrow> Some e
           | None \<Rightarrow>
               if \<not> SettingBool a ''mail.smtp_enabled''
               then Some (UserError ''SMTP sending is disabled by administrator policy'')
               else if SettingBool a ''mail.tls_required'' \<and> \<not> tls_ok acc
               then Some (UserError ''verified SMTP TLS is required by administrator policy'')
               else if SettingBool a ''mail.smtp_auth_required'' \<and> \<not> smtp_auth_ok acc
               then Some (UserError ''SMTP authentication is required by administrator policy'')
               else if \<not> SettingBool a ''mail.html_enabled'' \<and> v_BodyHTML v \<noteq> []
               then Some (UserError ''HTML mail is disabled by administrator policy; save as plain text and request approval again'')
               else if SettingInt a ''send.max_recipients'' > 0 \<and>
                       int (length (recipients v)) > SettingInt a ''send.max_recipients''
               then Some (UserError (''recipient count exceeds administrator limit (''
                      @ fmt_d (SettingInt a ''send.max_recipients'') @ '')''))
               else None)"

section \<open>Data loss prevention\<close>

record DLPFinding =
  dl_Type :: string
  dl_Count :: nat
  dl_Term :: string

definition keyword_findings :: "lib \<Rightarrow> string \<Rightarrow> string list \<Rightarrow> DLPFinding list" where
  "keyword_findings L lower kws =
     concat (map (\<lambda>kw0.
       let kw = TrimSpace kw0; n = Count lower (ToLower (uni_lower L) kw)
       in if kw = [] \<or> n = 0 then []
          else [\<lparr>dl_Type = ''KEYWORD'', dl_Count = n, dl_Term = kw\<rparr>]) kws)"

definition scanDLP :: "lib \<Rightarrow> app \<Rightarrow> string \<Rightarrow> string \<Rightarrow> DLPFinding list" where
  "scanDLP L a subject body =
     (let text = subject @ nl @ body
      in map (\<lambda>h. \<lparr>dl_Type = fst h, dl_Count = snd h, dl_Term = []\<rparr>)
           (filter (\<lambda>h. fst h \<noteq> ''EMAIL'' \<and> fst h \<noteq> ''PHONE'') (snd (Mask text)))
         @ keyword_findings L (ToLower (uni_lower L) text) (DLPKeywords (config.Send (cfg a))))"

definition dlpPolicy :: "lib \<Rightarrow> app \<Rightarrow> string" where
  "dlpPolicy L a =
     (let p = ToLower (uni_lower L) (TrimSpace (DLPPolicy (config.Send (cfg a))))
      in if p = ''off'' \<or> p = ''warn'' \<or> p = ''block'' then p else ''warn'')"

definition times_sign :: string where "times_sign = utf8 [0xC3, 0x97]"

definition dlpSummary :: "lib \<Rightarrow> DLPFinding list \<Rightarrow> string" where
  "dlpSummary L fs =
     ''('' @ join '', '' (map (\<lambda>f. (if dl_Term f \<noteq> [] then go_quote L (dl_Term f) else dl_Type f)
                                 @ times_sign @ dec (dl_Count f)) fs) @ '')''"

definition domainOf :: "lib \<Rightarrow> string \<Rightarrow> string" where
  "domainOf L email =
     (case after_last CHR ''@'' email of None \<Rightarrow> [] | Some d \<Rightarrow> ToLower (uni_lower L) d)"

definition is_external :: "lib \<Rightarrow> MailAccount \<Rightarrow> Address \<Rightarrow> bool" where
  "is_external L acc x =
     (domainOf L (ad_Email x) \<noteq> [] \<and> domainOf L (ad_Email x) \<noteq> domainOf L (a_Email acc))"

definition enforceDLP :: "lib \<Rightarrow> app \<Rightarrow> MailAccount \<Rightarrow> DraftVersion \<Rightarrow> err option" where
  "enforceDLP L a acc v =
     (if dlpPolicy L a \<noteq> ''block'' then None
      else if \<not> list_ex (is_external L acc) (recipients v) then None
      else let findings = scanDLP L a (v_Subject v) (draftPolicyText L v)
           in if findings \<noteq> []
              then Some (UserError (''send blocked by DLP policy: sensitive content in a message to external recipients ''
                     @ dlpSummary L findings))
              else None)"

definition enforceDraftDLP :: "lib \<Rightarrow> app \<Rightarrow> MailAccount \<Rightarrow> DraftVersion \<Rightarrow> err option" where
  "enforceDraftDLP L a acc v =
     (case draftAttachmentsPolicyText L a v of
        Inl e \<Rightarrow> Some e
      | Inr text \<Rightarrow> enforceDLP L a acc (v\<lparr>v_BodyText := draftPolicyText L v @ text, v_BodyHTML := []\<rparr>))"

definition checkWritingPolicy :: "lib \<Rightarrow> app \<Rightarrow> string \<Rightarrow> string \<Rightarrow> string list" where
  "checkWritingPolicy L a subject body =
     (let text = ToLower (uni_lower L) (subject @ nl @ body)
      in filter (\<lambda>p. p \<noteq> [] \<and> Contains text (ToLower (uni_lower L) p)) (map TrimSpace (BannedPhrases (cfg a))))"

section \<open>Rate limit\<close>

definition checkSendRate :: "io \<Rightarrow> app \<Rightarrow> ctx \<Rightarrow> string \<Rightarrow> err option" where
  "checkSendRate w a c accountID =
     (let perMin = MaxPerMinute (config.Send (cfg a)); perHour = MaxPerHour (config.Send (cfg a))
      in if perMin > 0 \<and> db_CountSentSince (st a) (userIDFrom c) accountID (now w - 60) \<ge> perMin
         then Some (UserError (''send rate limit reached: '' @ fmt_d perMin @ ''/min for this account''))
         else if perHour > 0 \<and> db_CountSentSince (st a) (userIDFrom c) accountID (now w - 3600) \<ge> perHour
         then Some (UserError (''send rate limit reached: '' @ fmt_d perHour @ ''/hour for this account''))
         else None)"

section \<open>Preview and approval\<close>

definition emails :: "Address list \<Rightarrow> string list" where
  "emails xs = map ad_Email xs"

record SendPreview =
  sp_DraftID :: string
  sp_DraftVersion :: int
  sp_From :: string
  sp_To :: "string list"
  sp_Cc :: "string list"
  sp_Bcc :: "string list"
  sp_Subject :: string
  sp_Body :: string
  sp_BodyHTML :: string
  sp_ExternalDomains :: "string list"
  sp_RecipientCount :: int
  sp_Warnings :: "string list"
  sp_PayloadHash :: string
  sp_DLPFindings :: "DLPFinding list"
  sp_DLPBlocked :: bool
  sp_Attachments :: "DraftAttachment list"

definition external_domains :: "lib \<Rightarrow> MailAccount \<Rightarrow> DraftVersion \<Rightarrow> string list" where
  "external_domains L acc v =
     sort (remdups (map (\<lambda>x. domainOf L (ad_Email x)) (filter (is_external L acc) (recipients v))))"

definition binary_attachment :: "DraftAttachment \<Rightarrow> bool" where
  "binary_attachment x = (\<not> HasPrefix (da_MIMEType x) ''text/'' \<and> da_MIMEType x \<noteq> ''application/json''
                          \<and> da_MIMEType x \<noteq> ''application/xml'')"

definition em_dash :: string where "em_dash = utf8 [0xE2, 0x80, 0x94]"

definition preview_warnings ::
  "lib \<Rightarrow> app \<Rightarrow> DraftVersion \<Rightarrow> string list \<Rightarrow> string \<Rightarrow> DLPFinding list \<Rightarrow> bool \<Rightarrow> string list" where
  "preview_warnings L a v ext policyText findings blocked =
     (if RemoteImageSources L (v_BodyHTML v) \<noteq> []
      then [''Remote images are included by administrator policy. The local preview blocks remote loading; recipients may load these images.'']
      else [])
     @ (if list_ex binary_attachment (v_Attachments v)
        then [''Binary attachment contents are not inspected for sensitive data; review them before approving'']
        else [])
     @ (let n = WarnRecipients (config.Send (cfg a))
        in if n > 0 \<and> int (length (recipients v)) \<ge> n
           then [dec (length (recipients v)) @ '' recipients '' @ em_dash @ '' review carefully before approving'']
           else [])
     @ (if ext \<noteq> [] \<and> SettingBool a ''send.warn_external''
        then [''recipients on external domains: '' @ join '', '' ext] else [])
     @ (let banned = checkWritingPolicy L a (v_Subject v) policyText
        in if banned \<noteq> [] then [''writing policy: banned phrase(s) present: '' @ join '', '' banned] else [])
     @ (if findings \<noteq> []
        then [''DLP: sensitive content detected in a message to external domains '' @ dlpSummary L findings] else [])
     @ (if blocked
        then [''DLP policy is '' @ [CHR 0x27] @ ''block'' @ [CHR 0x27] @ '' '' @ em_dash
              @ '' this send will be refused until the flagged content is removed''] else [])"

definition PreviewSend :: "lib \<Rightarrow> app \<Rightarrow> ctx \<Rightarrow> string \<Rightarrow> err + SendPreview" where
  "PreviewSend L a c draftID =
     (case db_GetDraft (st a) (userIDFrom c) draftID of
        Inl e \<Rightarrow> Inl e
      | Inr (d, v) \<Rightarrow>
          (case GetAccount (st a) c (d_AccountID d) of
             Inl e \<Rightarrow> Inl e
           | Inr acc \<Rightarrow>
               (case validateDraftForSend L acc v of
                  Some e \<Rightarrow> Inl e
                | None \<Rightarrow>
                    (case enforceSendPolicy L a acc v of
                       Some e \<Rightarrow> Inl e
                     | None \<Rightarrow>
                         (case draftAttachmentsPolicyText L a v of
                            Inl e \<Rightarrow> Inl e
                          | Inr attachmentText \<Rightarrow>
                              (let policyText = draftPolicyText L v @ attachmentText;
                                   ext = external_domains L acc v;
                                   findings = (if ext \<noteq> [] \<and> dlpPolicy L a \<noteq> ''off''
                                               then scanDLP L a (v_Subject v) policyText else []);
                                   blocked = (findings \<noteq> [] \<and> dlpPolicy L a = ''block'');
                                   bodies' = draftSendBodies L v
                               in Inr \<lparr>sp_DraftID = d_ID d, sp_DraftVersion = v_Version v,
                                    sp_From = a_Email acc, sp_To = emails (v_To v),
                                    sp_Cc = emails (v_Cc v), sp_Bcc = emails (v_Bcc v),
                                    sp_Subject = v_Subject v, sp_Body = fst bodies',
                                    sp_BodyHTML = snd bodies', sp_ExternalDomains = ext,
                                    sp_RecipientCount = int (length (recipients v)),
                                    sp_Warnings = preview_warnings L a v ext policyText findings blocked,
                                    sp_PayloadHash = sendPayloadHash L acc v,
                                    sp_DLPFindings = findings, sp_DLPBlocked = blocked,
                                    sp_Attachments = v_Attachments v\<rparr>))))))"

definition RequestSendApproval ::
  "lib \<Rightarrow> io \<Rightarrow> app \<Rightarrow> ctx \<Rightarrow> string \<Rightarrow> string \<Rightarrow> int \<Rightarrow> (err + (SendPreview \<times> ApprovalToken)) \<times> app" where
  "RequestSendApproval L w a c draftID approver ttl =
     (case PreviewSend L a c draftID of
        Inl e \<Rightarrow> (Inl e, a)
      | Inr pv \<Rightarrow>
          (case Issue L w a \<lparr>ar_UserID = userIDFrom c, ar_ActionType = ''mail_send'', ar_DraftID = draftID,
                  ar_DraftVersion = sp_DraftVersion pv, ar_PayloadHash = sp_PayloadHash pv,
                  ar_TTLSeconds = ttl, ar_Approver = approver\<rparr> of
             (Inl e, a') \<Rightarrow> (Inl e, a')
           | (Inr tok, a') \<Rightarrow>
               (Inr (pv, tok),
                app_audit a' w c ''send_approval_issue'' (''draft:'' @ draftID) ''ok''
                  (''version='' @ fmt_d (sp_DraftVersion pv) @ '' approver='' @ approver))))"

section \<open>Lemmas\<close>

lemma crlfGuard_ok: "crlfGuard hs = None \<longleftrightarrow> (\<forall>h\<in>set hs. CHR 0x0D \<notin> set h \<and> CHR 0x0A \<notin> set h)"
  by (auto simp: crlfGuard_def ContainsAny_def list_ex_iff)

lemma check_addresses_ok:
  "check_addresses L xs = None \<longleftrightarrow>
     (\<forall>x\<in>set xs. parse_address_ok L (ad_Email x) \<and> crlfGuard [ad_Email x, ad_Name x] = None)"
  by (induction xs) (auto split: option.splits)

lemma validate_ok:
  "validateDraftForSend L acc v = None \<longleftrightarrow>
     v_To v \<noteq> [] \<and> TrimSpace (v_Subject v) \<noteq> [] \<and> TrimSpace (fst (draftSendBodies L v)) \<noteq> [] \<and>
     check_addresses L (recipients v) = None \<and> crlfGuard [v_Subject v, a_Email acc] = None"
  by (simp add: validateDraftForSend_def split: option.split)

lemma external_domains_empty: "external_domains L acc v = [] \<longleftrightarrow> \<not> list_ex (is_external L acc) (recipients v)"
proof -
  have "sort xs = [] \<longleftrightarrow> xs = []" for xs :: "string list" by (metis set_sort set_empty)
  then show ?thesis by (simp add: external_domains_def filter_empty_conv list_ex_iff)
qed

text \<open>Case folding does not introduce line breaks: immediate for ASCII, asked of the tables otherwise.\<close>

definition lower_line_safe :: "lib \<Rightarrow> bool" where
  "lower_line_safe L \<longleftrightarrow> (\<forall>s. line_safe s \<longrightarrow> line_safe (uni_lower L s))"

lemma ToLower_line_safe: "lower_line_safe L \<Longrightarrow> line_safe s \<Longrightarrow> line_safe (ToLower (uni_lower L) s)"
proof -
  assume L: "lower_line_safe L" and s: "line_safe s"
  have ne: "ascii_lower c \<noteq> CHR 0x0A" if "c \<noteq> CHR 0x0A" for c
  proof
    assume e: "ascii_lower c = CHR 0x0A"
    show False
    proof (cases "65 \<le> byte c \<and> byte c \<le> 90")
      case True
      then have "byte (char_of (byte c + 32)) = byte c + 32" by (intro byte_char_of) simp
      moreover have "char_of (byte c + 32) = CHR 0x0A" using e True by (simp add: ascii_lower_def)
      ultimately have "byte (CHR 0x0A) = byte c + 32" by simp
      then show False by (simp add: byte_def)
    qed (use e that in \<open>auto simp: ascii_lower_def\<close>)
  qed
  have "CHR 0x0A \<notin> ascii_lower ` set s"
    using ne s unfolding line_safe_def by (metis imageE)
  with L s show ?thesis by (simp add: ToLower_def lower_line_safe_def line_safe_def)
qed

lemma validated_payload_safe:
  assumes "validateDraftForSend L acc v = None" and "lower_line_safe L" and "line_safe (a_ID acc)"
  shows "payload_safe L acc v"
proof -
  note ok = assms(1) [unfolded validate_ok check_addresses_ok crlfGuard_ok]
  have addr: "set xs \<subseteq> set (recipients v) \<Longrightarrow> line_safe (addrKey L xs)" for xs
    unfolding addrKey_def using ok assms(2)
    by (intro line_safe_join) (auto simp: line_safe_def [of "'',''"] intro!: ToLower_line_safe, auto simp: line_safe_def)
  show ?thesis
    using assms(3) ok addr [of "v_To v"] addr [of "v_Cc v"] addr [of "v_Bcc v"]
    by (auto simp: payload_safe_def line_safe_def recipients_def)
qed

lemma enforceDLP_internal: "\<not> list_ex (is_external L acc) (recipients v) \<Longrightarrow> enforceDLP L a acc v = None"
  by (simp add: enforceDLP_def)

lemma enforceDraftDLP_plain:
  "v_Attachments v = [] \<Longrightarrow> \<not> list_ex (is_external L acc) (recipients v) \<Longrightarrow> enforceDraftDLP L a acc v = None"
  by (simp add: enforceDraftDLP_def draftAttachmentsPolicyText_def enforceDLP_def recipients_def)

lemma enforceSendPolicy_st [simp]: "enforceSendPolicy L (a\<lparr>st := s\<rparr>) acc v = enforceSendPolicy L a acc v"
proof -
  have "image_check L (a\<lparr>st := s\<rparr>) xs = image_check L a xs" for xs
    by (induction xs) (simp_all add: Let_def)
  then show ?thesis by (simp only: enforceSendPolicy_def validateDraftAttachments_def Setting_st)
qed

lemma PreviewSend_ok:
  assumes "PreviewSend L a c did = Inr pv"
  obtains d v acc t where "db_GetDraft (st a) (userIDFrom c) did = Inr (d, v)"
    "GetAccount (st a) c (d_AccountID d) = Inr acc" "validateDraftForSend L acc v = None"
    "enforceSendPolicy L a acc v = None" "draftAttachmentsPolicyText L a v = Inr t"
    "sp_DraftVersion pv = v_Version v" "sp_From pv = a_Email acc" "sp_Subject pv = v_Subject v"
    "sp_PayloadHash pv = sendPayloadHash L acc v" "sp_To pv = emails (v_To v)" "sp_Cc pv = emails (v_Cc v)"
    "sp_Bcc pv = emails (v_Bcc v)"
    "sp_DLPBlocked pv \<longleftrightarrow> external_domains L acc v \<noteq> [] \<and> dlpPolicy L a = ''block'' \<and>
       scanDLP L a (v_Subject v) (draftPolicyText L v @ t) \<noteq> []"
proof -
  from assms obtain d v acc t where
    g: "db_GetDraft (st a) (userIDFrom c) did = Inr (d, v)" "GetAccount (st a) c (d_AccountID d) = Inr acc"
      "validateDraftForSend L acc v = None" "enforceSendPolicy L a acc v = None"
      "draftAttachmentsPolicyText L a v = Inr t"
    unfolding PreviewSend_def by (auto split: sum.splits option.splits)
  show thesis
    by (rule that [OF g]) (use assms g in \<open>auto simp: PreviewSend_def Let_def\<close>)
qed

section \<open>Properties\<close>

text \<open>
  The preview tells the truth about data loss prevention: it announces that the send will be
  refused exactly when the check at the send boundary, on the same draft, account and attachments,
  refuses it.
\<close>

theorem preview_predicts_dlp:
  assumes "PreviewSend L a c did = Inr pv" and "db_GetDraft (st a) (userIDFrom c) did = Inr (d, v)"
    and "GetAccount (st a) c (d_AccountID d) = Inr acc"
  shows "sp_DLPBlocked pv \<longleftrightarrow> enforceDraftDLP L a acc v \<noteq> None"
proof -
  obtain t where t: "draftAttachmentsPolicyText L a v = Inr t"
    and b: "sp_DLPBlocked pv \<longleftrightarrow> external_domains L acc v \<noteq> [] \<and> dlpPolicy L a = ''block'' \<and>
       scanDLP L a (v_Subject v) (draftPolicyText L v @ t) \<noteq> []"
    by (rule PreviewSend_ok [OF assms(1)]) (use assms(2,3) in auto)
  have p: "draftPolicyText L (v\<lparr>v_BodyText := x, v_BodyHTML := []\<rparr>) = x" for x
    by (simp add: draftPolicyText_def)
  show ?thesis
    unfolding b external_domains_empty by (auto simp: enforceDraftDLP_def enforceDLP_def t p Let_def recipients_def)
qed

definition sample_draft :: Draft where
  "sample_draft = \<lparr>d_ID = ''drf_1'', d_UserID = ''usr_1'', d_AccountID = ''acc_1'', d_Kind = DraftNew,
     d_ReplyToMessageID = [], d_Status = DraftOpen, d_CurrentVersion = 1, d_CreatedAt = 1, d_UpdatedAt = 1\<rparr>"

definition policy_app :: app where
  "policy_app = sample_app\<lparr>setting_values := [''mail.smtp_enabled'' \<mapsto> ''true'']\<rparr>"

definition leak_version :: DraftVersion where
  "leak_version = sample_version\<lparr>v_BodyText := ''secret'', v_To := [\<lparr>ad_Name = [], ad_Email = ''x@y.z''\<rparr>]\<rparr>"

definition leak_app :: app where
  "leak_app = policy_app\<lparr>cfg := sample_cfg\<lparr>config.Send := (config.Send sample_cfg)\<lparr>DLPKeywords := [''secret'']\<rparr>\<rparr>,
     st := empty_store\<lparr>accounts := [sample_account], drafts := [sample_draft], versions := [leak_version]\<rparr>\<rparr>"

theorem preview_predicts_dlp_witness:
  "\<exists>pv. PreviewSend sample_lib leak_app (sample_ctx ''local'' []) ''drf_1'' = Inr pv \<and> sp_DLPBlocked pv"
proof -
  let ?c = "sample_ctx ''local'' []" and ?v = leak_version and ?acc = sample_account
  have u: "userIDFrom ?c = ''usr_1''" by (simp add: userIDFrom_def sample_ctx_def sample_principal_def)
  have dr: "db_GetDraft (st leak_app) (userIDFrom ?c) ''drf_1'' = Inr (sample_draft, ?v)"
    by (simp add: u db_GetDraft_def db_GetDraftVersion_def leak_app_def sample_draft_def leak_version_def
          sample_version_def no_row_def)
  have ac: "GetAccount (st leak_app) ?c (d_AccountID sample_draft) = Inr ?acc"
    by (simp add: GetAccount_def db_GetAccount_def u leak_app_def sample_account_def sample_draft_def)
  have val: "validateDraftForSend sample_lib ?acc ?v = None" by code_simp
  have pol: "enforceSendPolicy sample_lib leak_app ?acc ?v = None" by code_simp
  have att: "v_Attachments ?v = []" by (simp add: leak_version_def sample_version_def)
  have t: "draftAttachmentsPolicyText sample_lib leak_app ?v = Inr []"
    by (simp add: draftAttachmentsPolicyText_def att)
  have ext: "list_ex (is_external sample_lib ?acc) (recipients ?v)" by code_simp
  have blk: "dlpPolicy sample_lib leak_app = ''block''" by code_simp
  have kw: "keyword_findings sample_lib (ToLower (uni_lower sample_lib) (v_Subject ?v @ nl @ draftPolicyText sample_lib ?v))
      (DLPKeywords (config.Send (cfg leak_app))) \<noteq> []" by code_simp
  have "enforceDraftDLP sample_lib leak_app ?acc ?v \<noteq> None"
    using ext kw by (simp add: enforceDraftDLP_def t enforceDLP_def blk scanDLP_def Let_def recipients_def draftPolicyText_def)
  moreover obtain pv where pv: "PreviewSend sample_lib leak_app ?c ''drf_1'' = Inr pv"
    by (simp add: PreviewSend_def dr ac val pol t Let_def)
  ultimately show ?thesis using preview_predicts_dlp [OF pv dr ac] by blast
qed

end
