(* ===== verification/Mcp_Policy.thy ===== *)
theory Mcp_Policy
  imports Sample_World
begin

text \<open>
  Authorisation of MCP tool calls: the role model of
  \<open>src/internal/application/mcppolicy.go\<close> and the per-key scopes of \<open>mcpscopes.go\<close>.
\<close>

section \<open>Access levels\<close>

datatype accessLevel = AccessRead | AccessWrite | AccessSend | AccessDelete | AccessAdmin

fun level_rank :: "accessLevel \<Rightarrow> nat" where
  "level_rank AccessRead = 0"
| "level_rank AccessWrite = 1"
| "level_rank AccessSend = 2"
| "level_rank AccessDelete = 3"
| "level_rank AccessAdmin = 4"

lemma level_rank_inj: "level_rank x = level_rank y \<Longrightarrow> x = y"
  by (cases x; cases y) auto

text \<open>The constants are an \<open>iota\<close> enumeration, compared as integers.\<close>

instantiation accessLevel :: linorder
begin

definition less_eq_accessLevel :: "accessLevel \<Rightarrow> accessLevel \<Rightarrow> bool" where
  "less_eq_accessLevel x y = (level_rank x \<le> level_rank y)"

definition less_accessLevel :: "accessLevel \<Rightarrow> accessLevel \<Rightarrow> bool" where
  "less_accessLevel x y = (level_rank x < level_rank y)"

instance
  by standard (auto simp: less_eq_accessLevel_def less_accessLevel_def intro: level_rank_inj)

end

lemmas level_order = less_eq_accessLevel_def less_accessLevel_def

lemma level_least [simp]: "AccessRead \<le> l"
  by (simp add: level_order)

lemma level_greatest [simp]: "l \<le> AccessAdmin"
  by (cases l) (simp_all add: level_order)

fun level_String :: "accessLevel \<Rightarrow> string" where
  "level_String AccessRead = ''read''"
| "level_String AccessWrite = ''write''"
| "level_String AccessSend = ''send''"
| "level_String AccessDelete = ''delete''"
| "level_String AccessAdmin = ''admin''"

definition parseLevel :: "lib \<Rightarrow> string \<Rightarrow> accessLevel \<times> bool" where
  "parseLevel L s =
     (let t = ToLower (uni_lower L) (TrimSpace s)
      in if t = ''read'' then (AccessRead, True)
         else if t = ''write'' then (AccessWrite, True)
         else if t = ''send'' then (AccessSend, True)
         else if t = ''delete'' then (AccessDelete, True)
         else if t = ''admin'' then (AccessAdmin, True)
         else (AccessRead, False))"

section \<open>Tool classification\<close>

definition toolAccess :: "(string \<times> accessLevel) list" where
  "toolAccess = [
    (''mail_text_rewrite'', AccessWrite), (''mail_drafts_list'', AccessRead),
    (''mail_draft_delete'', AccessWrite), (''mail_events'', AccessRead),
    (''mail_action_card_create'', AccessWrite), (''mail_draft_attachment_add'', AccessWrite),
    (''mail_draft_attachment_get'', AccessRead), (''mail_draft_attachment_remove'', AccessWrite),
    (''mail_outbound_list'', AccessRead), (''job_list'', AccessRead),
    (''mail_set_sla'', AccessWrite), (''mail_templates'', AccessRead),
    (''mail_capabilities'', AccessRead), (''mail_identity'', AccessRead),
    (''mail_system_info'', AccessRead), (''mail_draft_get'', AccessRead),
    (''mail_render'', AccessWrite), (''mail_signature_list'', AccessRead),
    (''mail_signature_get'', AccessRead), (''mail_signature_save'', AccessWrite),
    (''mail_signature_delete'', AccessWrite), (''mail_account_list'', AccessRead),
    (''mail_account_get'', AccessRead), (''mail_account_test'', AccessRead),
    (''job_status'', AccessRead), (''mail_search'', AccessRead),
    (''mail_sent_search'', AccessRead), (''mail_hybrid_search'', AccessRead),
    (''mail_work_inbox'', AccessRead), (''mail_message_get'', AccessRead),
    (''mail_thread_get'', AccessRead), (''mail_thread_timeline'', AccessRead),
    (''mail_attachment_list'', AccessRead), (''mail_attachment_extract_text'', AccessRead),
    (''mail_summarize'', AccessRead), (''mail_classify'', AccessRead),
    (''mail_action_items_extract'', AccessRead), (''mail_entities_extract'', AccessRead),
    (''mail_phishing_inspect'', AccessRead), (''mail_auth_inspect'', AccessRead),
    (''mail_thread_summarize'', AccessRead), (''mail_question_answer'', AccessRead),
    (''mail_suggest_replies'', AccessRead), (''mail_calendar_extract'', AccessRead),
    (''mail_daily_digest'', AccessRead), (''mail_rule_draft_from_text'', AccessRead),
    (''mail_semantic_search'', AccessRead), (''mail_attachment_summarize'', AccessRead),
    (''mail_eval_prompt'', AccessRead), (''mail_send_preview'', AccessRead),
    (''mail_outbound_status'', AccessRead), (''mail_audit_search'', AccessRead),
    (''mail_rules_list'', AccessRead), (''mail_action_cards_list'', AccessRead),
    (''mail_team_inbox'', AccessRead), (''mail_collab_get'', AccessRead),
    (''secret_registration_begin'', AccessRead), (''secret_rotation_begin'', AccessRead),
    (''mail_sync_start'', AccessWrite), (''job_cancel'', AccessWrite),
    (''mail_embeddings_build'', AccessWrite), (''mail_draft_create'', AccessWrite),
    (''mail_draft_update'', AccessWrite), (''mail_draft_rewrite'', AccessWrite),
    (''mail_batch_update'', AccessWrite), (''mail_rule_create'', AccessWrite),
    (''mail_rule_update'', AccessWrite), (''mail_rule_delete'', AccessWrite),
    (''mail_apply_rules'', AccessWrite), (''mail_action_cards_extract'', AccessWrite),
    (''mail_action_card_set_status'', AccessWrite), (''mail_action_card_export'', AccessWrite),
    (''mail_assign'', AccessWrite), (''mail_set_work_status'', AccessWrite),
    (''mail_add_note'', AccessWrite), (''mail_send_request_approval'', AccessSend),
    (''mail_send'', AccessSend), (''mail_local_delete'', AccessDelete),
    (''mail_account_create'', AccessAdmin), (''mail_account_update'', AccessAdmin),
    (''mail_account_disable'', AccessAdmin), (''secret_revoke'', AccessAdmin),
    (''mail_server_delete_preview'', AccessAdmin),
    (''mail_server_delete_request_approval'', AccessAdmin), (''mail_server_delete'', AccessAdmin)]"

definition classifyTool :: "string \<Rightarrow> accessLevel" where
  "classifyTool tool = (case map_of toolAccess tool of Some l \<Rightarrow> l | None \<Rightarrow> AccessAdmin)"

text \<open>A missing map entry reads as the zero level, whose text is \<open>read\<close>.\<close>

definition ClassifyMCPTool :: "string \<Rightarrow> string \<times> bool" where
  "ClassifyMCPTool tool =
     (case map_of toolAccess tool of
        Some l \<Rightarrow> (level_String l, True)
      | None \<Rightarrow> (level_String AccessRead, False))"

definition builtinRoleMax :: "string \<Rightarrow> accessLevel" where
  "builtinRoleMax role =
     (if role = ''admin'' then AccessAdmin
      else if role = ''user'' then AccessSend
      else AccessRead)"

definition contains :: "string list \<Rightarrow> string \<Rightarrow> bool" where
  "contains l v = list_ex (\<lambda>x. x = v) l"

lemma contains_iff [simp]: "contains l v \<longleftrightarrow> v \<in> set l"
  by (auto simp: contains_def list_ex_iff)

section \<open>The administrator's policy\<close>

text \<open>
  \<open>ValidateMCPPolicySettings\<close>.  The strict JSON decoder (one object, no unknown field) is the
  library function \<open>decode_policy\<close>.
\<close>

definition ValidateMCPPolicySettings :: "lib \<Rightarrow> string \<Rightarrow> err option" where
  "ValidateMCPPolicySettings L raw =
     (if TrimSpace raw = [] then None
      else case decode_policy L raw of
             None \<Rightarrow> Some (PublicError ''invalid_request'' 400)
           | Some policy \<Rightarrow>
               if list_ex (\<lambda>e. \<not> snd (parseLevel L (snd e))) (RoleMaxLevel policy)
               then Some (PublicError ''invalid_request'' 400) else None)"

definition role_max :: "lib \<Rightarrow> MCPPolicy option \<Rightarrow> string \<Rightarrow> accessLevel" where
  "role_max L pol role =
     (case pol of
        None \<Rightarrow> builtinRoleMax role
      | Some p \<Rightarrow>
          (case map_of (RoleMaxLevel p) role of
             None \<Rightarrow> builtinRoleMax role
           | Some s \<Rightarrow> (let (parsed, ok) = parseLevel L s
                        in if ok then parsed else builtinRoleMax role)))"

definition role_tools :: "(string \<times> string list) list \<Rightarrow> string \<Rightarrow> string list" where
  "role_tools m role = (case map_of m role of Some ts \<Rightarrow> ts | None \<Rightarrow> [])"

definition level_decision :: "lib \<Rightarrow> MCPPolicy option \<Rightarrow> string \<Rightarrow> string \<Rightarrow> bool \<times> string" where
  "level_decision L pol role tool =
     (let lvl = classifyTool tool; mx = role_max L pol role
      in if lvl \<le> mx then (True, [])
         else if (case pol of None \<Rightarrow> False | Some p \<Rightarrow> contains (AllowTools p) tool) then (True, [])
         else (False, ''role '' @ go_quote L role @ '' is limited to '' @ go_quote L (level_String mx)
                      @ '' access but tool requires '' @ go_quote L (level_String lvl)))"

definition evaluateAccess :: "lib \<Rightarrow> MCPPolicy option \<Rightarrow> string \<Rightarrow> string \<Rightarrow> bool \<times> string" where
  "evaluateAccess L pol role tool =
     (case pol of
        None \<Rightarrow> level_decision L pol role tool
      | Some p \<Rightarrow>
          if contains (DenyTools p) tool then (False, ''tool is on the deny list'')
          else if contains (role_tools (RoleDeny p) role) tool
          then (False, ''tool is denied for role '' @ role)
          else if role_tools (RoleAllow p) role \<noteq> []
          then (if contains (role_tools (RoleAllow p) role) tool then (True, [])
                else (False, ''tool is not in the allowlist for role '' @ role))
          else level_decision L pol role tool)"

section \<open>Scopes\<close>

definition MCPScopes :: "string list" where
  "MCPScopes = [''mail.read'', ''mail.search'', ''mail.ai'', ''mail.draft'', ''mail.send'',
     ''mail.delete'', ''mail.work'', ''admin.read'', ''admin.write'']"

definition MCPToolAliases :: "(string \<times> string) list" where
  "MCPToolAliases = [
     (''mail_accounts_list'', ''mail_account_list''),
     (''mail_get'', ''mail_message_get''),
     (''mail_thread'', ''mail_thread_get''),
     (''mail_draft'', ''mail_draft_create''),
     (''mail_preview'', ''mail_send_preview''),
     (''mail_approve'', ''mail_send_request_approval''),
     (''mail_systeminfo'', ''mail_system_info''),
     (''mail_ask'', ''mail_question_answer'')]"

definition CanonicalMCPTool :: "string \<Rightarrow> string" where
  "CanonicalMCPTool tool = (case map_of MCPToolAliases tool of Some c \<Rightarrow> c | None \<Rightarrow> tool)"

definition DefaultMCPScopes :: "string list" where
  "DefaultMCPScopes = [''mail.read'', ''mail.search'']"

text \<open>The loop of \<open>NormalizeMCPScopes\<close>; \<open>out\<close> holds the scopes seen so far.\<close>

fun normalize_loop :: "string list \<Rightarrow> string list \<Rightarrow> err + string list" where
  "normalize_loop out [] = Inr out"
| "normalize_loop out (raw # rest) =
     (let scope = TrimSpace raw
      in if \<not> contains MCPScopes scope then Inl (PublicError ''invalid_request'' 400)
         else normalize_loop (if scope \<in> set out then out else out @ [scope]) rest)"

definition NormalizeMCPScopes :: "string list option \<Rightarrow> err + string list" where
  "NormalizeMCPScopes scopes =
     (case scopes of
        None \<Rightarrow> Inr DefaultMCPScopes
      | Some raws \<Rightarrow>
          (case normalize_loop [] raws of Inl e \<Rightarrow> Inl e | Inr out \<Rightarrow> Inr (sort out)))"

definition CheckMCPScopes :: "ctx \<Rightarrow> string list \<Rightarrow> err option" where
  "CheckMCPScopes c required =
     (case c_principal c of
        None \<Rightarrow> None
      | Some p \<Rightarrow>
          if \<not> IsMCPScoped p then None
          else if list_ex (\<lambda>s. \<not> contains (p_MCPScopes p) s) required
          then Some (PublicError ''insufficient_scope'' 403) else None)"

definition scope_setting :: "string \<Rightarrow> string" where
  "scope_setting scope =
     ''mcp.permissions.'' @ map (\<lambda>x. if x = CHR ''.'' then CHR ''_'' else x) (TrimPrefix scope ''mail.'')"

definition CheckMCPPermissionScopes :: "app \<Rightarrow> ctx \<Rightarrow> string list \<Rightarrow> err option" where
  "CheckMCPPermissionScopes a c required =
     (if \<not> SettingBool a ''mcp.enabled'' then Some (PublicError ''capability_disabled'' 403)
      else case CheckMCPScopes c required of
             Some e \<Rightarrow> Some e
           | None \<Rightarrow>
               if list_ex (\<lambda>s. \<not> SettingBool a (scope_setting s)) required
               then Some (PublicError ''capability_disabled'' 403) else None)"

definition tool_scope_cases :: "(string list \<times> string list) list" where
  "tool_scope_cases = [
     ([''mail_text_rewrite''],
        [''mail.draft'', ''mail.ai'']),
     ([''mail_drafts_list''],
        [''mail.draft'']),
     ([''mail_set_sla''],
        [''mail.work'']),
     ([''mail_action_card_create''],
        [''mail.work'']),
     ([''mail_capabilities'', ''mail_identity'', ''mail_system_info''],
        []),
     ([''mail_search'', ''mail_sent_search''],
        [''mail.search'']),
     ([''mail_hybrid_search'', ''mail_semantic_search''],
        [''mail.search'', ''mail.ai'']),
     ([''mail_summarize'', ''mail_classify'', ''mail_action_items_extract'',
         ''mail_entities_extract'', ''mail_phishing_inspect'', ''mail_thread_summarize'',
         ''mail_question_answer'', ''mail_suggest_replies'', ''mail_calendar_extract'',
         ''mail_daily_digest'', ''mail_rule_draft_from_text'', ''mail_attachment_summarize'',
         ''mail_eval_prompt'', ''mail_embeddings_build''],
        [''mail.ai'']),
     ([''mail_draft_create'', ''mail_draft_update'', ''mail_draft_get'',
         ''mail_draft_delete'', ''mail_draft_attachment_add'', ''mail_draft_attachment_get'',
         ''mail_draft_attachment_remove'', ''mail_render'', ''mail_signature_list'',
         ''mail_signature_get'', ''mail_signature_save'', ''mail_signature_delete'',
         ''mail_send_preview''],
        [''mail.draft'']),
     ([''mail_draft_rewrite''],
        [''mail.draft'', ''mail.ai'']),
     ([''mail_send'', ''mail_send_request_approval''],
        [''mail.send'']),
     ([''mail_local_delete'', ''mail_server_delete'', ''mail_server_delete_preview'',
         ''mail_server_delete_request_approval''],
        [''mail.delete'']),
     ([''mail_account_create'', ''mail_account_update'', ''mail_account_disable'',
         ''secret_revoke''],
        [''admin.write'']),
     ([''mail_audit_search''],
        [''admin.read'']),
     ([''mail_sync_start'', ''job_cancel'', ''mail_batch_update'', ''mail_rule_create'',
         ''mail_rule_update'', ''mail_rule_delete'', ''mail_apply_rules'',
         ''mail_action_card_set_status'', ''mail_action_card_export'', ''mail_assign'',
         ''mail_set_work_status'', ''mail_add_note''],
        [''mail.work'']),
     ([''mail_action_cards_extract''],
        [''mail.work'', ''mail.ai''])]"

definition MCPToolScopes :: "string \<Rightarrow> string list" where
  "MCPToolScopes tool0 =
     (let tool = CanonicalMCPTool tool0
      in case find (\<lambda>g. tool \<in> set (fst g)) tool_scope_cases of
           Some g \<Rightarrow> snd g
         | None \<Rightarrow>
             (let (level, known) = ClassifyMCPTool tool
              in if known \<and> level = ''read'' then [''mail.read''] else [''admin.write'']))"

section \<open>Authorising a call\<close>

definition CheckMCPToolPolicy :: "lib \<Rightarrow> io \<Rightarrow> app \<Rightarrow> ctx \<Rightarrow> string \<Rightarrow> err option \<times> app" where
  "CheckMCPToolPolicy L w a c tool0 =
     (let tool = CanonicalMCPTool tool0
      in case CheckMCPPermissionScopes a c (MCPToolScopes tool) of
           Some e \<Rightarrow>
             (Some e, app_audit a w c ''mcp_policy_denied'' (''tool:'' @ tool) ''denied''
                        ''insufficient_scope'')
         | None \<Rightarrow>
             (case c_principal c of
                None \<Rightarrow> (None, a)
              | Some p \<Rightarrow>
                  if p_UserID p = [] then (None, a)
                  else
                    (let (allowed, reason) = evaluateAccess L (mcp_policy a) (role_text (p_Role p)) tool
                     in if \<not> allowed
                        then (Some (UserError (''MCP access denied for tool '' @ go_quote L tool
                                               @ '': '' @ reason)),
                              app_audit a w c ''mcp_policy_denied'' (''tool:'' @ tool) ''denied'' reason)
                        else (None, a))))"

definition RuleActionDelete :: string where "RuleActionDelete = ''delete''"

definition checkMCPRuleActions ::
  "lib \<Rightarrow> io \<Rightarrow> app \<Rightarrow> ctx \<Rightarrow> RuleAction list \<Rightarrow> err option \<times> app" where
  "checkMCPRuleActions L w a c actions =
     (case c_principal c of
        None \<Rightarrow> (None, a)
      | Some p \<Rightarrow>
          if \<not> IsMCPScoped p then (None, a)
          else if list_ex (\<lambda>x. ra_Type x = RuleActionDelete) actions
          then CheckMCPToolPolicy L w a c ''mail_local_delete''
          else (None, a))"

text \<open>
  \<open>loadMCPPolicy\<close> refreshes the cached policy from the stored settings.  A stored text that does
  not validate is replaced by a policy that denies every classified tool except three.
\<close>

definition canonicalize_policy :: "MCPPolicy \<Rightarrow> MCPPolicy" where
  "canonicalize_policy p =
     p\<lparr>DenyTools := map CanonicalMCPTool (DenyTools p),
       AllowTools := map CanonicalMCPTool (AllowTools p),
       RoleAllow := map (\<lambda>(r, ts). (r, map CanonicalMCPTool ts)) (RoleAllow p),
       RoleDeny := map (\<lambda>(r, ts). (r, map CanonicalMCPTool ts)) (RoleDeny p)\<rparr>"

definition lockdown_policy :: MCPPolicy where
  "lockdown_policy =
     \<lparr>RoleMaxLevel = [], RoleAllow = [], RoleDeny = [],
      DenyTools = filter (\<lambda>n. n \<notin> set [''mail_capabilities'', ''mail_identity'', ''mail_system_info''])
                    (map fst toolAccess),
      AllowTools = []\<rparr>"

definition SettingMCPPolicy :: string where "SettingMCPPolicy = ''mcp.policy''"

definition loadMCPPolicy :: "lib \<Rightarrow> app \<Rightarrow> app" where
  "loadMCPPolicy L a =
     (let raw = TrimSpace (case system_settings (st a) SettingMCPPolicy of Some v \<Rightarrow> v | None \<Rightarrow> [])
      in a\<lparr>mcp_policy :=
            (if raw = [] then None
             else if ValidateMCPPolicySettings L raw = None \<and> unmarshal_policy L raw \<noteq> None
             then map_option canonicalize_policy (unmarshal_policy L raw)
             else Some lockdown_policy)\<rparr>)"

section \<open>Facts about the tables\<close>

definition sensitive_scopes :: "string list" where
  "sensitive_scopes = [''mail.send'', ''mail.delete'', ''admin.write'']"

definition group_guarded :: "string list \<times> string list \<Rightarrow> bool" where
  "group_guarded g \<longleftrightarrow>
     list_ex (\<lambda>s. s \<in> set sensitive_scopes) (snd g) \<or>
     list_all (\<lambda>t. level_rank (classifyTool t) < 2) (fst g)"

lemma groups_guarded_1: "list_all group_guarded (take 7 tool_scope_cases)"
  by code_simp

lemma groups_guarded_2: "list_all group_guarded (take 3 (drop 7 tool_scope_cases))"
  by code_simp

lemma groups_guarded_3: "list_all group_guarded (drop 10 tool_scope_cases)"
  by code_simp

lemma groups_guarded: "g \<in> set tool_scope_cases \<Longrightarrow> group_guarded g"
proof -
  have "tool_scope_cases =
      take 7 tool_scope_cases @ take 3 (drop 7 tool_scope_cases) @ drop 10 tool_scope_cases"
    by (simp add: tool_scope_cases_def)
  then have "list_all group_guarded tool_scope_cases"
    using groups_guarded_1 groups_guarded_2 groups_guarded_3 by (metis list_all_append)
  then show "g \<in> set tool_scope_cases \<Longrightarrow> group_guarded g"
    by (simp add: list_all_iff)
qed

lemma default_groups:
  "list_all (\<lambda>g. list_ex (\<lambda>s. s \<notin> set DefaultMCPScopes) (snd g)
       \<or> list_all (\<lambda>t. classifyTool t = AccessRead) (fst g)) tool_scope_cases"
  by code_simp

lemma aliases_canonical: "list_all (\<lambda>e. map_of MCPToolAliases (snd e) = None) MCPToolAliases"
  by code_simp

lemma CanonicalMCPTool_idem [simp]: "CanonicalMCPTool (CanonicalMCPTool t) = CanonicalMCPTool t"
proof (cases "map_of MCPToolAliases t")
  case None
  then show ?thesis by (simp add: CanonicalMCPTool_def)
next
  case (Some c)
  then have "(t, c) \<in> set MCPToolAliases" by (rule map_of_SomeD)
  then have "map_of MCPToolAliases c = None"
    using aliases_canonical by (fastforce simp: list_all_iff)
  with Some show ?thesis by (simp add: CanonicalMCPTool_def)
qed

lemma MCPToolScopes_canonical [simp]: "MCPToolScopes (CanonicalMCPTool t) = MCPToolScopes t"
  by (simp add: MCPToolScopes_def)

text \<open>The three ways a tool gets its scopes.\<close>

lemma MCPToolScopes_cases:
  obtains (listed) g where "g \<in> set tool_scope_cases" "CanonicalMCPTool t \<in> set (fst g)"
      "MCPToolScopes t = snd g"
  | (read) "MCPToolScopes t = [''mail.read'']" "classifyTool (CanonicalMCPTool t) = AccessRead"
  | (closed) "MCPToolScopes t = [''admin.write'']"
proof (cases "find (\<lambda>g. CanonicalMCPTool t \<in> set (fst g)) tool_scope_cases")
  case (Some g)
  then show ?thesis
    using find_SomeD [OF Some] listed [of g] by (simp add: MCPToolScopes_def)
next
  case None
  show ?thesis
  proof (cases "map_of toolAccess (CanonicalMCPTool t) = Some AccessRead")
    case True
    with None show ?thesis
      using read by (simp add: MCPToolScopes_def ClassifyMCPTool_def classifyTool_def)
  next
    case False
    then have "\<not> (snd (ClassifyMCPTool (CanonicalMCPTool t)) \<and> fst (ClassifyMCPTool (CanonicalMCPTool t)) = ''read'')"
      by (auto simp: ClassifyMCPTool_def split: option.splits elim: level_String.elims)
    with None show ?thesis
      using closed by (simp add: MCPToolScopes_def Let_def case_prod_beta)
  qed
qed

lemma sensitive_tool_scope:
  assumes "AccessSend \<le> classifyTool (CanonicalMCPTool t)"
  shows "set (MCPToolScopes t) \<inter> set sensitive_scopes \<noteq> {}"
proof (cases t rule: MCPToolScopes_cases)
  case (listed g)
  then have "\<not> level_rank (classifyTool (CanonicalMCPTool t)) < 2"
    using assms by (simp add: level_order)
  with groups_guarded [OF listed(1)] listed show ?thesis
    by (auto simp: group_guarded_def list_all_iff list_ex_iff)
next
  case read
  with assms show ?thesis by (simp add: level_order)
next
  case closed
  then show ?thesis by (simp add: sensitive_scopes_def)
qed

lemma default_scope_tool:
  assumes "set (MCPToolScopes t) \<subseteq> set DefaultMCPScopes"
  shows "classifyTool (CanonicalMCPTool t) = AccessRead"
proof (cases t rule: MCPToolScopes_cases)
  case (listed g)
  then have "list_all (\<lambda>t. classifyTool t = AccessRead) (fst g)"
    using assms default_groups by (auto simp: list_all_iff list_ex_iff)
  with listed show ?thesis by (simp add: list_all_iff)
next
  case closed
  with assms show ?thesis by (simp add: DefaultMCPScopes_def)
qed simp

section \<open>Facts about the checks\<close>

lemma CheckMCPScopes_ok:
  "CheckMCPScopes c required = None \<longleftrightarrow>
     (\<forall>p. c_principal c = Some p \<longrightarrow> IsMCPScoped p \<longrightarrow> set required \<subseteq> set (p_MCPScopes p))"
  by (auto simp: CheckMCPScopes_def list_ex_iff split: option.splits if_splits)

lemma CheckMCPPermissionScopes_ok:
  "CheckMCPPermissionScopes a c required = None \<longleftrightarrow>
     SettingBool a ''mcp.enabled'' \<and> CheckMCPScopes c required = None \<and>
     (\<forall>s\<in>set required. SettingBool a (scope_setting s))"
  by (auto simp: CheckMCPPermissionScopes_def list_ex_iff split: option.splits if_splits)

lemma evaluateAccess_allowed:
  "fst (evaluateAccess L pol role tool) \<longleftrightarrow>
     (case pol of
        None \<Rightarrow> classifyTool tool \<le> builtinRoleMax role
      | Some p \<Rightarrow>
          tool \<notin> set (DenyTools p) \<and> tool \<notin> set (role_tools (RoleDeny p) role) \<and>
          (if role_tools (RoleAllow p) role \<noteq> [] then tool \<in> set (role_tools (RoleAllow p) role)
           else classifyTool tool \<le> role_max L pol role \<or> tool \<in> set (AllowTools p)))"
  by (cases pol) (simp_all add: evaluateAccess_def level_decision_def role_max_def Let_def)

lemma CheckMCPToolPolicy_ok:
  "fst (CheckMCPToolPolicy L w a c tool) = None \<longleftrightarrow>
     CheckMCPPermissionScopes a c (MCPToolScopes tool) = None \<and>
     (\<forall>p. c_principal c = Some p \<longrightarrow> p_UserID p \<noteq> [] \<longrightarrow>
        fst (evaluateAccess L (mcp_policy a) (role_text (p_Role p)) (CanonicalMCPTool tool)))"
  by (auto simp: CheckMCPToolPolicy_def Let_def split: option.splits prod.splits if_splits)


lemma normalize_loop_ok:
  "normalize_loop out raws = Inr res \<Longrightarrow> distinct out \<Longrightarrow> set out \<subseteq> set MCPScopes \<Longrightarrow>
     distinct res \<and> set res \<subseteq> set MCPScopes \<and> set res = set out \<union> TrimSpace ` set raws"
  by (induction out raws rule: normalize_loop.induct) (auto simp: Let_def split: if_splits)

lemma normalize_loop_total:
  "(\<exists>res. normalize_loop out raws = Inr res) \<longleftrightarrow> TrimSpace ` set raws \<subseteq> set MCPScopes"
  by (induction out raws rule: normalize_loop.induct) (auto simp: Let_def)

lemma lockdown_role:
  "fst (evaluateAccess L (Some lockdown_policy) role tool) \<longleftrightarrow>
     tool \<notin> set (DenyTools lockdown_policy) \<and> classifyTool tool \<le> builtinRoleMax role"
  by (simp add: evaluateAccess_allowed role_tools_def lockdown_policy_def role_max_def)

lemma classified_or_admin: "tool \<in> fst ` set toolAccess \<or> classifyTool tool = AccessAdmin"
  by (auto simp: classifyTool_def split: option.splits dest: map_of_SomeD)
     (metis fst_conv image_eqI map_of_SomeD)
text \<open>Concrete calls.\<close>

lemma sample_tools:
  "CanonicalMCPTool ''mail_send'' = ''mail_send''" "MCPToolScopes ''mail_send'' = [''mail.send'']"
  "classifyTool ''mail_send'' = AccessSend"
  "CanonicalMCPTool ''mail_search'' = ''mail_search''"
  "MCPToolScopes ''mail_search'' = [''mail.search'']" "classifyTool ''mail_search'' = AccessRead"
  "CanonicalMCPTool ''mail_identity'' = ''mail_identity''" "MCPToolScopes ''mail_identity'' = []"
  "classifyTool ''mail_identity'' = AccessRead"
  by code_simp+

lemma sample_settings:
  "SettingBool sample_app ''mcp.enabled''" "SettingBool sample_app (scope_setting ''mail.send'')"
  "SettingBool sample_app (scope_setting ''mail.search'')" "mcp_policy sample_app = None"
  by code_simp+

lemma sample_scoped:
  "c_principal (sample_ctx m ss) = Some (sample_principal m ss)"
  "p_UserID (sample_principal m ss) = ''usr_1''" "p_Role (sample_principal m ss) = RoleUser"
  "p_MCPScopes (sample_principal m ss) = ss" "IsMCPScoped (sample_principal ''mcp_key'' ss)"
  by (simp_all add: sample_ctx_def sample_principal_def IsMCPScoped_def)

lemmas mcp_ok = CheckMCPToolPolicy_ok CheckMCPPermissionScopes_ok CheckMCPScopes_ok

lemma mail_send_allowed:
  "fst (CheckMCPToolPolicy sample_lib sample_io sample_app
          (sample_ctx ''mcp_key'' [''mail.send'']) ''mail_send'') = None"
  by (simp add: mcp_ok sample_tools sample_settings sample_scoped evaluateAccess_allowed
        builtinRoleMax_def)

lemma mail_search_allowed:
  "fst (CheckMCPToolPolicy sample_lib sample_io sample_app
          (sample_ctx ''mcp_key'' [''mail.search'']) ''mail_search'') = None"
  by (simp add: mcp_ok sample_tools sample_settings sample_scoped evaluateAccess_allowed
        builtinRoleMax_def)

definition locked_app :: app where
  "locked_app =
     sample_app\<lparr>st := empty_store\<lparr>system_settings := Map.empty(SettingMCPPolicy := Some ''{'')\<rparr>\<rparr>"

lemma locked_app_facts:
  "system_settings (st locked_app) SettingMCPPolicy = Some ''{''"
  "TrimSpace ''{'' = ''{''"
  "ValidateMCPPolicySettings sample_lib ''{'' = Some (PublicError ''invalid_request'' 400)"
  by (simp_all add: locked_app_def ValidateMCPPolicySettings_def TrimSpace_graphic graphic_def
        byte_def sample_lib_def)

lemma mail_identity_allowed:
  "fst (CheckMCPToolPolicy sample_lib sample_io (loadMCPPolicy sample_lib locked_app)
          (sample_ctx ''mcp_key'' []) ''mail_identity'') = None"
proof -
  have "SettingBool (loadMCPPolicy sample_lib locked_app) ''mcp.enabled''"
    by (simp add: SettingBool_def Setting_def loadMCPPolicy_def locked_app_def sample_app_def Let_def)
  moreover have "mcp_policy (loadMCPPolicy sample_lib locked_app) = Some lockdown_policy"
    by (simp add: loadMCPPolicy_def Let_def locked_app_facts)
  moreover have "''mail_identity'' \<notin> set (DenyTools lockdown_policy)"
    by (simp add: lockdown_policy_def)
  ultimately show ?thesis
    by (simp add: mcp_ok sample_tools sample_scoped lockdown_role builtinRoleMax_def)
qed

section \<open>Properties\<close>

text \<open>
  The role decision: a tool on the deny list or denied for the role is refused whatever else
  the policy says; otherwise a non-empty allowlist of the role decides alone; otherwise the tool
  is allowed exactly when its level is within the role's maximum or the tool is escalated.
\<close>

theorem mcp_access_decision:
  "fst (evaluateAccess L (Some p) role tool) \<longleftrightarrow>
     tool \<notin> set (DenyTools p) \<and> tool \<notin> set (role_tools (RoleDeny p) role) \<and>
     (if role_tools (RoleAllow p) role \<noteq> [] then tool \<in> set (role_tools (RoleAllow p) role)
      else classifyTool tool \<le> role_max L (Some p) role \<or> tool \<in> set (AllowTools p))"
  by (simp add: evaluateAccess_allowed)

text \<open>
  A key or token of an MCP client may use a tool that sends, deletes or administers, or that
  the tables do not know, only when it holds one of the scopes \<open>mail.send\<close>, \<open>mail.delete\<close> and
  \<open>admin.write\<close>, the administrator has that capability switched on, and MCP is enabled.
\<close>

theorem mcp_sensitive_tools_need_scope:
  assumes "fst (CheckMCPToolPolicy L w a c tool) = None"
    and "c_principal c = Some p" and "IsMCPScoped p"
    and "AccessSend \<le> classifyTool (CanonicalMCPTool tool)"
  shows "SettingBool a ''mcp.enabled'' \<and>
         (\<exists>s \<in> set (p_MCPScopes p). s \<in> {''mail.send'', ''mail.delete'', ''admin.write''} \<and>
            SettingBool a (scope_setting s))"
  using assms sensitive_tool_scope [of tool]
  by (auto simp: CheckMCPToolPolicy_ok CheckMCPPermissionScopes_ok CheckMCPScopes_ok
        sensitive_scopes_def)

theorem mcp_sensitive_tools_need_scope_witness:
  "\<exists>s \<in> set (p_MCPScopes (sample_principal ''mcp_key'' [''mail.send''])).
     s \<in> {''mail.send'', ''mail.delete'', ''admin.write''} \<and> SettingBool sample_app (scope_setting s)"
  using mcp_sensitive_tools_need_scope [OF mail_send_allowed sample_scoped(1) sample_scoped(5)]
  by (simp add: sample_tools)

text \<open>
  A key with the default scopes, whatever the role of its owner and whatever the
  administrator's policy, can call only tools classified as reads.
\<close>

theorem mcp_default_key_reads_only:
  assumes "fst (CheckMCPToolPolicy L w a c tool) = None"
    and "c_principal c = Some p" and "IsMCPScoped p"
    and "set (p_MCPScopes p) \<subseteq> set DefaultMCPScopes"
  shows "classifyTool (CanonicalMCPTool tool) = AccessRead"
  using assms by (intro default_scope_tool)
    (auto simp: CheckMCPToolPolicy_ok CheckMCPPermissionScopes_ok CheckMCPScopes_ok)

theorem mcp_default_key_reads_only_witness:
  "classifyTool (CanonicalMCPTool ''mail_search'') = AccessRead"
  using mcp_default_key_reads_only [OF mail_search_allowed sample_scoped(1) sample_scoped(5)]
  by (simp add: sample_scoped DefaultMCPScopes_def)

text \<open>
  When the stored policy does not validate, the reloaded policy leaves to every caller
  without the admin role nothing but the three informational tools.
\<close>

theorem mcp_invalid_policy_locks:
  assumes "system_settings (st a) SettingMCPPolicy = Some raw" and "TrimSpace raw \<noteq> []"
    and "ValidateMCPPolicySettings L (TrimSpace raw) \<noteq> None"
    and "fst (CheckMCPToolPolicy L w (loadMCPPolicy L a) c tool) = None"
    and "c_principal c = Some p" and "p_UserID p \<noteq> []" and "p_Role p = RoleUser"
  shows "CanonicalMCPTool tool \<in> {''mail_capabilities'', ''mail_identity'', ''mail_system_info''}"
proof -
  have "mcp_policy (loadMCPPolicy L a) = Some lockdown_policy"
    using assms(1-3) by (auto simp: loadMCPPolicy_def Let_def)
  then have *: "CanonicalMCPTool tool \<notin> set (DenyTools lockdown_policy)"
    "classifyTool (CanonicalMCPTool tool) \<le> AccessSend"
    using assms by (simp_all add: CheckMCPToolPolicy_ok lockdown_role builtinRoleMax_def)
  then have "CanonicalMCPTool tool \<in> fst ` set toolAccess"
    using classified_or_admin [of "CanonicalMCPTool tool"] by (auto simp: level_order)
  with * show ?thesis by (simp add: lockdown_policy_def)
qed

theorem mcp_invalid_policy_locks_witness:
  "CanonicalMCPTool ''mail_identity'' \<in> {''mail_capabilities'', ''mail_identity'', ''mail_system_info''}"
  using mcp_invalid_policy_locks
    [OF locked_app_facts(1) _ _ mail_identity_allowed sample_scoped(1)]
  by (simp add: locked_app_facts sample_scoped)

text \<open>
  Normalising a list of requested scopes succeeds exactly when every entry, trimmed, is a
  known scope; the result is sorted, without duplicates, and holds exactly the requested scopes.
\<close>

theorem NormalizeMCPScopes_correct:
  "(case NormalizeMCPScopes (Some raws) of
      Inr out \<Rightarrow> sorted out \<and> distinct out \<and> set out = TrimSpace ` set raws \<and> set out \<subseteq> set MCPScopes
    | Inl e \<Rightarrow> e = PublicError ''invalid_request'' 400 \<and> \<not> TrimSpace ` set raws \<subseteq> set MCPScopes)"
proof (cases "normalize_loop [] raws")
  case (Inr out)
  with normalize_loop_ok [OF Inr] show ?thesis by (auto simp: NormalizeMCPScopes_def)
next
  case (Inl e)
  moreover have "\<not> TrimSpace ` set raws \<subseteq> set MCPScopes"
    using normalize_loop_total [of "[]" raws] Inl by auto
  moreover have "normalize_loop out raws = Inl e \<Longrightarrow> e = PublicError ''invalid_request'' 400" for out
    by (induction out raws rule: normalize_loop.induct) (auto simp: Let_def split: if_splits)
  ultimately show ?thesis by (simp add: NormalizeMCPScopes_def)
qed
end
