(* ===== verification/Rules_Engine.thy ===== *)
theory Rules_Engine
  imports Store_Mail Mcp_Policy Object_Store
begin

text \<open>
  Operations on stored messages: local deletion (\<open>LocalDelete\<close> of
  \<open>src/internal/application/delete.go\<close>), bulk updates (\<open>query.go\<close>) and the user's automation
  rules (\<open>rules.go\<close>).
\<close>

section \<open>Local deletion\<close>

definition purge :: "objs \<Rightarrow> string list \<Rightarrow> objs" where
  "purge m uris = foldl (\<lambda>m u. if u = [] then m else case obj_Delete m u of Inl e \<Rightarrow> m | Inr m' \<Rightarrow> m') m uris"

definition LocalDelete :: "lib \<Rightarrow> io \<Rightarrow> app \<Rightarrow> ctx \<Rightarrow> string \<Rightarrow> err option \<times> app" where
  "LocalDelete L w a c mid =
     (let (denied, a1) =
            (case c_principal c of
               Some p \<Rightarrow> if IsMCPScoped p then CheckMCPToolPolicy L w a c ''mail_local_delete'' else (None, a)
             | None \<Rightarrow> (None, a))
      in case denied of
           Some e \<Rightarrow> (Some e, a1)
         | None \<Rightarrow>
             if (case db_GetMessage (st a1) (userIDFrom c) mid of Inr m \<Rightarrow> m_LegalHold m | Inl e \<Rightarrow> False)
             then (Some (UserError (''message '' @ mid @ '' is under legal hold and cannot be deleted'')),
                   app_audit a1 w c ''local_delete'' (''message:'' @ mid) ''denied'' ''legal hold'')
             else case db_DeleteMessage (st a1) (userIDFrom c) mid of
                    Inl e \<Rightarrow> (Some e, a1)
                  | Inr (uris, s') \<Rightarrow>
                      (None, app_audit (a1\<lparr>st := s', objects := purge (objects a1) uris\<rparr>) w c
                               ''local_delete'' (''message:'' @ mid) ''ok'' []))"

section \<open>Labels\<close>

definition addLabel :: "string list \<Rightarrow> string \<Rightarrow> string list" where
  "addLabel labels label0 =
     (let label = TrimSpace label0 in if label \<in> set labels then labels else labels @ [label])"

definition removeLabel :: "string list \<Rightarrow> string \<Rightarrow> string list" where
  "removeLabel labels label0 = (let label = TrimSpace label0 in filter (\<lambda>l. l \<noteq> label) labels)"

section \<open>Bulk updates\<close>

record BatchUpdateOptions =
  bo_MessageIDs :: "string list"
  bo_Action :: string
  bo_SnoozedUntil :: int
  bo_Label :: string

text \<open>The error of an item is the error whose public message the caller sees.\<close>

record BatchItemResult =
  bi_MessageID :: string
  bi_OK :: bool
  bi_Error :: "err option"

record BatchResult =
  br_Action :: string
  br_Requested :: nat
  br_Succeeded :: nat
  br_Failed :: nat
  br_SucceededIDs :: "string list"
  br_Results :: "BatchItemResult list"

definition batch_actions :: "string list" where
  "batch_actions = [''delete'', ''archive'', ''unarchive'', ''mark_read'', ''mark_unread'',
     ''mark_important'', ''unmark_important'', ''important'', ''snooze'', ''unsnooze'', ''add_label'',
     ''remove_label'', ''legal_hold'', ''legal_unhold'']"

definition batch_edits :: "BatchUpdateOptions \<Rightarrow> (string \<times> (Message \<Rightarrow> Message)) list" where
  "batch_edits opts =
     [(''archive'', \<lambda>m. m\<lparr>m_IsArchived := True\<rparr>),
      (''unarchive'', \<lambda>m. m\<lparr>m_IsArchived := False\<rparr>),
      (''mark_read'', \<lambda>m. m\<lparr>m_IsRead := True\<rparr>),
      (''mark_unread'', \<lambda>m. m\<lparr>m_IsRead := False\<rparr>),
      (''mark_important'', \<lambda>m. m\<lparr>m_IsImportant := True\<rparr>),
      (''unmark_important'', \<lambda>m. m\<lparr>m_IsImportant := False\<rparr>),
      (''important'', \<lambda>m. m\<lparr>m_IsImportant := \<not> m_IsImportant m\<rparr>),
      (''snooze'', \<lambda>m. m\<lparr>m_SnoozedUntil := bo_SnoozedUntil opts\<rparr>),
      (''unsnooze'', \<lambda>m. m\<lparr>m_SnoozedUntil := 0\<rparr>),
      (''add_label'', \<lambda>m. m\<lparr>m_Labels := addLabel (m_Labels m) (bo_Label opts)\<rparr>),
      (''remove_label'', \<lambda>m. m\<lparr>m_Labels := removeLabel (m_Labels m) (bo_Label opts)\<rparr>),
      (''legal_hold'', \<lambda>m. m\<lparr>m_LegalHold := True\<rparr>),
      (''legal_unhold'', \<lambda>m. m\<lparr>m_LegalHold := False\<rparr>)]"

definition batch_edit :: "BatchUpdateOptions \<Rightarrow> Message \<Rightarrow> Message" where
  "batch_edit opts m =
     (case map_of (batch_edits opts) (bo_Action opts) of Some f \<Rightarrow> f m | None \<Rightarrow> m)"

definition applyBatchAction ::
  "lib \<Rightarrow> io \<Rightarrow> app \<Rightarrow> ctx \<Rightarrow> string \<Rightarrow> BatchUpdateOptions \<Rightarrow> err option \<times> app" where
  "applyBatchAction L w a c mid opts =
     (if bo_Action opts = ''delete'' then LocalDelete L w a c mid
      else case db_GetMessage (st a) (userIDFrom c) mid of
             Inl e \<Rightarrow> (Some e, a)
           | Inr m \<Rightarrow>
               (case db_UpdateMessage (st a) (batch_edit opts m) of
                  Inl e \<Rightarrow> (Some e, a)
                | Inr s' \<Rightarrow> (None, a\<lparr>st := s'\<rparr>)))"

fun batch_loop ::
  "lib \<Rightarrow> io \<Rightarrow> ctx \<Rightarrow> BatchUpdateOptions \<Rightarrow> app \<Rightarrow> string list \<Rightarrow> BatchItemResult list \<times> app" where
  "batch_loop L w c opts a [] = ([], a)"
| "batch_loop L w c opts a (mid # ids) =
     (let (e, a1) = applyBatchAction L w a c mid opts;
          (items, a2) = batch_loop L w c opts a1 ids
      in (\<lparr>bi_MessageID = mid, bi_OK = (e = None), bi_Error = e\<rparr> # items, a2))"

definition batch_refused :: "app \<Rightarrow> ctx \<Rightarrow> BatchUpdateOptions \<Rightarrow> err option" where
  "batch_refused a c opts =
     (let guarded = (case c_principal c of
            Some p \<Rightarrow>
              if IsMCPScoped p \<and> (bo_Action opts = ''legal_hold'' \<or> bo_Action opts = ''legal_unhold'')
              then (if \<not> IsAdmin p then Some (PublicError ''forbidden'' 403)
                    else CheckMCPPermissionScopes a c [''admin.write''])
              else None
          | None \<Rightarrow> None)
      in case guarded of
           Some e \<Rightarrow> Some e
         | None \<Rightarrow>
             if bo_MessageIDs opts = [] then Some (UserError ''no message IDs provided'')
             else if bo_Action opts \<notin> set batch_actions
             then Some (UserError ''unsupported batch action'')
             else if bo_Action opts = ''snooze'' \<and> bo_SnoozedUntil opts \<le> 0
             then Some (UserError ''snooze requires snoozed_until (unix seconds)'')
             else if (bo_Action opts = ''add_label'' \<or> bo_Action opts = ''remove_label'')
                     \<and> TrimSpace (bo_Label opts) = []
             then Some (UserError (bo_Action opts @ '' requires a non-empty label''))
             else None)"

definition BatchUpdateMessages ::
  "lib \<Rightarrow> io \<Rightarrow> app \<Rightarrow> ctx \<Rightarrow> BatchUpdateOptions \<Rightarrow> (err + BatchResult) \<times> app" where
  "BatchUpdateMessages L w a c opts =
     (case batch_refused a c opts of
        Some e \<Rightarrow> (Inl e, a)
      | None \<Rightarrow>
          (let (items, a1) = batch_loop L w c opts a (bo_MessageIDs opts);
               ok = filter bi_OK items;
               failed = length (filter (\<lambda>i. \<not> bi_OK i) items);
               res = \<lparr>br_Action = bo_Action opts, br_Requested = length (bo_MessageIDs opts),
                      br_Succeeded = length ok, br_Failed = failed,
                      br_SucceededIDs = map bi_MessageID ok, br_Results = items\<rparr>;
               result = (if failed > 0 then (if ok = [] then ''error'' else ''partial'') else ''ok'')
           in (Inr res,
               app_audit a1 w c ''batch_update_messages'' (''action:'' @ bo_Action opts) result
                 (''requested='' @ dec (br_Requested res) @ '' ok='' @ dec (br_Succeeded res)
                  @ '' failed='' @ dec (br_Failed res)))))"

section \<open>Rule validation\<close>

definition validRuleFields :: "string list" where
  "validRuleFields = [''from'', ''to'', ''subject'', ''body'', ''account'', ''has_attachment'', ''is_important'']"

definition validRuleOps :: "string list" where
  "validRuleOps = [''contains'', ''equals'', ''starts_with'', ''ends_with'', ''regex'', ''is_true'', ''is_false'']"

definition validRuleActions :: "string list" where
  "validRuleActions = [''add_label'', ''remove_label'', ''archive'', ''mark_important'', ''snooze'', ''delete'']"

text \<open>The text of a regular-expression error ends with the compiler's own words, left out here.\<close>

definition condition_error :: "lib \<Rightarrow> RuleCondition \<Rightarrow> err option" where
  "condition_error L c =
     (if rc_Field c \<notin> set validRuleFields
      then Some (UserError (''unknown rule condition field '' @ go_quote L (rc_Field c)))
      else if rc_Operator c \<notin> set validRuleOps
      then Some (UserError (''unknown rule condition operator '' @ go_quote L (rc_Operator c)))
      else if rc_Operator c = ''regex'' \<and> regexp_compile L (rc_Value c) = None
      then Some (UserError (''invalid regex '' @ go_quote L (rc_Value c)))
      else None)"

definition action_error :: "lib \<Rightarrow> RuleAction \<Rightarrow> err option" where
  "action_error L x =
     (if ra_Type x \<notin> set validRuleActions
      then Some (UserError (''unknown rule action '' @ go_quote L (ra_Type x)))
      else if (ra_Type x = ''add_label'' \<or> ra_Type x = ''remove_label'') \<and> TrimSpace (ra_Value x) = []
      then Some (UserError (ra_Type x @ '' action requires a label value''))
      else if ra_Type x = ''snooze'' \<and>
              (let (n, ok) = Atoi (TrimSpace (ra_Value x)) in \<not> ok \<or> n \<le> 0)
      then Some (UserError ''snooze action requires a positive seconds value'')
      else None)"

fun first_error :: "('a \<Rightarrow> err option) \<Rightarrow> 'a list \<Rightarrow> err option" where
  "first_error f [] = None"
| "first_error f (x # xs) = (case f x of Some e \<Rightarrow> Some e | None \<Rightarrow> first_error f xs)"

definition squote :: "string \<Rightarrow> string" where
  "squote s = [CHR 0x27] @ s @ [CHR 0x27]"

definition normalizeAndValidateRule :: "lib \<Rightarrow> MailRule \<Rightarrow> err + MailRule" where
  "normalizeAndValidateRule L r =
     (let r1 = (if r_Match r = [] then r\<lparr>r_Match := ''all''\<rparr> else r);
          r2 = (if r_Priority r1 = 0 then r1\<lparr>r_Priority := 100\<rparr> else r1)
      in if TrimSpace (r_Name r) = [] then Inl (UserError ''rule name is required'')
         else if r_Match r1 \<noteq> ''all'' \<and> r_Match r1 \<noteq> ''any''
         then Inl (UserError (''rule match must be '' @ squote ''all'' @ '' or '' @ squote ''any''))
         else if r_Conditions r2 = [] then Inl (UserError ''a rule needs at least one condition'')
         else if r_Actions r2 = [] then Inl (UserError ''a rule needs at least one action'')
         else case first_error (condition_error L) (r_Conditions r2) of
                Some e \<Rightarrow> Inl e
              | None \<Rightarrow> (case first_error (action_error L) (r_Actions r2) of
                           Some e \<Rightarrow> Inl e | None \<Rightarrow> Inr r2))"

section \<open>Rule evaluation\<close>

definition matchBool :: "string \<Rightarrow> bool \<Rightarrow> bool" where
  "matchBool op v = (if op = ''is_true'' then v else if op = ''is_false'' then \<not> v else False)"

definition matchString :: "lib \<Rightarrow> string \<Rightarrow> string \<Rightarrow> string \<Rightarrow> bool" where
  "matchString L op val hay =
     (if op = ''regex'' then (case regexp_compile L val of None \<Rightarrow> False | Some f \<Rightarrow> f hay)
      else (let h = ToLower (uni_lower L) hay; v = ToLower (uni_lower L) val
            in if op = ''contains'' then Contains h v
               else if op = ''equals'' then h = v
               else if op = ''starts_with'' then HasPrefix h v
               else if op = ''ends_with'' then HasSuffix h v
               else False))"

definition matchCondition :: "lib \<Rightarrow> Message \<Rightarrow> MessageBody option \<Rightarrow> RuleCondition \<Rightarrow> bool" where
  "matchCondition L m body c =
     (let f = rc_Field c; str = matchString L (rc_Operator c) (rc_Value c)
      in if f = ''has_attachment'' then matchBool (rc_Operator c) (m_HasAttachments m)
         else if f = ''is_important'' then matchBool (rc_Operator c) (m_IsImportant m)
         else if f = ''from'' then str (TrimSpace (ad_Email (m_From m) @ '' '' @ ad_Name (m_From m)))
         else if f = ''to'' then str (join '' '' (map ad_Email (m_To m)))
         else if f = ''subject'' then str (m_Subject m)
         else if f = ''body'' then str (case body of None \<Rightarrow> [] | Some b \<Rightarrow> b_TextBody b)
         else if f = ''account'' then str (m_AccountID m)
         else False)"

fun conditions_loop :: "bool \<Rightarrow> (RuleCondition \<Rightarrow> bool) \<Rightarrow> RuleCondition list \<Rightarrow> bool" where
  "conditions_loop any f [] = (\<not> any)"
| "conditions_loop any f (c # cs) =
     (if any \<and> f c then True else if \<not> any \<and> \<not> f c then False else conditions_loop any f cs)"

definition ruleMatches :: "lib \<Rightarrow> MailRule \<Rightarrow> Message \<Rightarrow> MessageBody option \<Rightarrow> bool" where
  "ruleMatches L r m body =
     (if r_Conditions r = [] then False
      else conditions_loop (r_Match r = ''any'') (matchCondition L m body) (r_Conditions r))"

record RuleApplication =
  ra_RuleID :: string
  ra_RuleName :: string
  ra_Applied :: "string list"

record RuleRunResult =
  rr_MessageID :: string
  rr_Matched :: "RuleApplication list"
  rr_Deleted :: bool

text \<open>
  The actions of one rule, on the message in memory: the message, whether it changed, and the
  names of the applied actions; a delete ends the run.
\<close>

datatype act_outcome = ActDone Message bool "string list" | ActDeleted "string list" | ActFailed err

definition edit_action ::
  "io \<Rightarrow> RuleAction \<Rightarrow> Message \<Rightarrow> bool \<Rightarrow> string list \<Rightarrow> Message \<times> bool \<times> string list" where
  "edit_action w x m changed names =
     (if ra_Type x = ''archive'' then (m\<lparr>m_IsArchived := True\<rparr>, True, names @ [''archive''])
      else if ra_Type x = ''mark_important''
      then (m\<lparr>m_IsImportant := True\<rparr>, True, names @ [''mark_important''])
      else if ra_Type x = ''add_label''
      then (m\<lparr>m_Labels := addLabel (m_Labels m) (ra_Value x)\<rparr>, True, names @ [''add_label:'' @ ra_Value x])
      else if ra_Type x = ''remove_label''
      then (m\<lparr>m_Labels := removeLabel (m_Labels m) (ra_Value x)\<rparr>, True,
            names @ [''remove_label:'' @ ra_Value x])
      else if ra_Type x = ''snooze'' \<and> snd (Atoi (TrimSpace (ra_Value x)))
              \<and> fst (Atoi (TrimSpace (ra_Value x))) > 0
      then (m\<lparr>m_SnoozedUntil := unix_after w (seconds (fst (Atoi (TrimSpace (ra_Value x)))))\<rparr>, True,
            names @ [''snooze''])
      else (m, changed, names))"

fun run_actions ::
  "lib \<Rightarrow> io \<Rightarrow> app \<Rightarrow> ctx \<Rightarrow> Message \<Rightarrow> bool \<Rightarrow> string list \<Rightarrow> RuleAction list \<Rightarrow> act_outcome \<times> app" where
  "run_actions L w a c m changed names [] = (ActDone m changed names, a)"
| "run_actions L w a c m changed names (x # xs) =
     (if ra_Type x = ''delete'' then
        (case LocalDelete L w a c (m_ID m) of
           (Some e, a') \<Rightarrow> (ActFailed e, a')
         | (None, a') \<Rightarrow> (ActDeleted (names @ [''delete'']), a'))
      else (case edit_action w x m changed names of
              (m', changed', names') \<Rightarrow> run_actions L w a c m' changed' names' xs))"

definition finish_rules ::
  "app \<Rightarrow> Message \<Rightarrow> bool \<Rightarrow> RuleApplication list \<Rightarrow> (RuleRunResult \<times> err option) \<times> app" where
  "finish_rules a m changed matched =
     (let res = \<lparr>rr_MessageID = m_ID m, rr_Matched = matched, rr_Deleted = False\<rparr>
      in if \<not> changed then ((res, None), a)
         else case db_UpdateMessage (st a) m of
                Inl e \<Rightarrow> ((res, Some e), a)
              | Inr s' \<Rightarrow> ((res, None), a\<lparr>st := s'\<rparr>))"

fun run_rules ::
  "lib \<Rightarrow> io \<Rightarrow> app \<Rightarrow> ctx \<Rightarrow> MessageBody option \<Rightarrow> Message \<Rightarrow> bool \<Rightarrow> RuleApplication list
     \<Rightarrow> MailRule list \<Rightarrow> (RuleRunResult \<times> err option) \<times> app" where
  "run_rules L w a c body m changed matched [] = finish_rules a m changed matched"
| "run_rules L w a c body m changed matched (r # rs) =
     (if \<not> r_Enabled r \<or> \<not> ruleMatches L r m body
      then run_rules L w a c body m changed matched rs
      else case run_actions L w a c m changed [] (r_Actions r) of
             (ActFailed e, a') \<Rightarrow>
               ((\<lparr>rr_MessageID = m_ID m, rr_Matched = matched, rr_Deleted = False\<rparr>, Some e), a')
           | (ActDeleted names, a') \<Rightarrow>
               ((\<lparr>rr_MessageID = m_ID m,
                  rr_Matched = matched @ [\<lparr>ra_RuleID = r_ID r, ra_RuleName = r_Name r, ra_Applied = names\<rparr>],
                  rr_Deleted = True\<rparr>, None), a')
           | (ActDone m' changed' names, a') \<Rightarrow>
               (let matched' = matched @ [\<lparr>ra_RuleID = r_ID r, ra_RuleName = r_Name r, ra_Applied = names\<rparr>]
                in if r_StopOnMatch r then finish_rules a' m' changed' matched'
                   else run_rules L w a' c body m' changed' matched' rs))"

definition evaluateRules ::
  "lib \<Rightarrow> io \<Rightarrow> app \<Rightarrow> ctx \<Rightarrow> Message \<Rightarrow> MessageBody option \<Rightarrow> MailRule list
     \<Rightarrow> (RuleRunResult \<times> err option) \<times> app" where
  "evaluateRules L w a c m body rs = run_rules L w a c body m False [] rs"

definition ApplyRulesToMessage ::
  "lib \<Rightarrow> io \<Rightarrow> app \<Rightarrow> ctx \<Rightarrow> string \<Rightarrow> (err + (RuleRunResult \<times> err option)) \<times> app" where
  "ApplyRulesToMessage L w a c mid =
     (case db_GetMessage (st a) (userIDFrom c) mid of
        Inl e \<Rightarrow> (Inl e, a)
      | Inr m \<Rightarrow>
          (let body = (case db_GetBody (st a) (userIDFrom c) mid of Inl e \<Rightarrow> None | Inr b \<Rightarrow> Some b);
               (res, a') = evaluateRules L w a c m body (db_ListRules (st a) (userIDFrom c))
           in (Inr res, a')))"

definition evaluateRulesOnIngest :: "lib \<Rightarrow> io \<Rightarrow> app \<Rightarrow> ctx \<Rightarrow> Message \<Rightarrow> MessageBody \<Rightarrow> app" where
  "evaluateRulesOnIngest L w a c m body =
     (let rs = db_ListRules (st a) (m_UserID m)
      in if rs = [] then a
         else case evaluateRules L w a c m (Some body) rs of
                ((res, Some e), a') \<Rightarrow> a'
              | ((res, None), a') \<Rightarrow>
                  if rr_Matched res \<noteq> []
                  then app_audit a' w c ''rules_applied'' (''message:'' @ m_ID m) ''ok''
                         (''matched='' @ dec (length (rr_Matched res)) @ '' deleted='' @ bool_text (rr_Deleted res))
                  else a')"

section \<open>Rule management\<close>

definition CreateRule :: "lib \<Rightarrow> io \<Rightarrow> app \<Rightarrow> ctx \<Rightarrow> MailRule \<Rightarrow> (err + MailRule) \<times> app" where
  "CreateRule L w a c r0 =
     (case checkMCPRuleActions L w a c (r_Actions r0) of
        (Some e, a1) \<Rightarrow> (Inl e, a1)
      | (None, a1) \<Rightarrow>
          (case normalizeAndValidateRule L (r0\<lparr>r_ID := new_id w ''rule'' 0, r_UserID := userIDFrom c\<rparr>) of
             Inl e \<Rightarrow> (Inl e, a1)
           | Inr r \<Rightarrow>
               (case db_CreateRule (st a1) (now w) r of
                  Inl e \<Rightarrow> (Inl e, a1)
                | Inr s' \<Rightarrow>
                    (Inr (r\<lparr>r_CreatedAt := now w, r_UpdatedAt := now w\<rparr>),
                     app_audit (a1\<lparr>st := s'\<rparr>) w c ''rule_create'' (''rule:'' @ r_ID r) ''ok'' (r_Name r)))))"

definition UpdateRule :: "lib \<Rightarrow> io \<Rightarrow> app \<Rightarrow> ctx \<Rightarrow> MailRule \<Rightarrow> (err + MailRule) \<times> app" where
  "UpdateRule L w a c r0 =
     (case checkMCPRuleActions L w a c (r_Actions r0) of
        (Some e, a1) \<Rightarrow> (Inl e, a1)
      | (None, a1) \<Rightarrow>
          if r_ID r0 = [] then (Inl (UserError ''rule id is required''), a1)
          else case normalizeAndValidateRule L (r0\<lparr>r_UserID := userIDFrom c\<rparr>) of
             Inl e \<Rightarrow> (Inl e, a1)
           | Inr r \<Rightarrow>
               (case db_UpdateRule (st a1) (now w) r of
                  Inl e \<Rightarrow> (Inl e, a1)
                | Inr s' \<Rightarrow>
                    (Inr (r\<lparr>r_UpdatedAt := now w\<rparr>),
                     app_audit (a1\<lparr>st := s'\<rparr>) w c ''rule_update'' (''rule:'' @ r_ID r) ''ok'' (r_Name r))))"

definition DeleteRule :: "io \<Rightarrow> app \<Rightarrow> ctx \<Rightarrow> string \<Rightarrow> err option \<times> app" where
  "DeleteRule w a c rid =
     (case db_DeleteRule (st a) (userIDFrom c) rid of
        Inl e \<Rightarrow> (Some e, a)
      | Inr s' \<Rightarrow> (None, app_audit (a\<lparr>st := s'\<rparr>) w c ''rule_delete'' (''rule:'' @ rid) ''ok'' []))"

section \<open>What the operations leave alone\<close>

text \<open>
  One step of user \<open>u\<close> on the mail tables: the schema invariant holds afterwards, every message
  under legal hold is still there and still held, and the messages of other users are unchanged.
\<close>

definition held_safe :: "store \<Rightarrow> store \<Rightarrow> bool" where
  "held_safe s s' \<longleftrightarrow> (\<forall>m\<in>set (messages s). m_LegalHold m \<longrightarrow>
     (\<exists>m'\<in>set (messages s'). m_ID m' = m_ID m \<and> m_LegalHold m'))"

definition others :: "string \<Rightarrow> store \<Rightarrow> Message list" where
  "others u s = filter (\<lambda>m. m_UserID m \<noteq> u) (messages s)"

definition mail_step :: "string \<Rightarrow> store \<Rightarrow> store \<Rightarrow> bool" where
  "mail_step u s s' \<longleftrightarrow> mail_inv s' \<and> held_safe s s' \<and> others u s' = others u s"

lemma mail_step_same:
  "mail_inv s \<Longrightarrow> messages s' = messages s \<Longrightarrow> bodies s' = bodies s \<Longrightarrow> attachments s' = attachments s \<Longrightarrow>
   mail_step u s s'"
  by (auto simp: mail_step_def held_safe_def others_def mail_inv_cong [of s' s])

lemma mail_step_refl: "mail_inv s \<Longrightarrow> mail_step u s s"
  by (rule mail_step_same) simp_all

lemma mail_step_trans: "mail_step u s s' \<Longrightarrow> mail_step u s' s'' \<Longrightarrow> mail_step u s s''"
  unfolding mail_step_def held_safe_def by fastforce

lemma mail_step_audit: "mail_step u s s' \<Longrightarrow> mail_step u s (audit s' n c x r y d)"
  by (simp add: mail_step_def held_safe_def others_def)

lemma mail_step_audit_first:
  "mail_inv s \<Longrightarrow> mail_step u (audit s n c x r y d) s' \<Longrightarrow> mail_step u s s'"
  by (simp add: mail_step_def held_safe_def others_def)

lemma CheckMCPToolPolicy_state:
  "snd (CheckMCPToolPolicy L w a c t) = a \<or>
   (\<exists>r d. snd (CheckMCPToolPolicy L w a c t) = app_audit a w c ''mcp_policy_denied'' r ''denied'' d)"
  unfolding CheckMCPToolPolicy_def Let_def case_prod_beta
  by (simp split: option.split, blast)

lemma find_unique_key_and:
  assumes "distinct (map k rs)" "r \<in> set rs" "Q r"
  shows "find (\<lambda>x. k x = k r \<and> Q x) rs = Some r"
  using assms by (induction rs) force+

lemma delete_step:
  assumes inv: "mail_inv s" and del: "db_DeleteMessage s u mid = Inr (orphans, s')"
    and free: "\<And>m. db_GetMessage s u mid = Inr m \<Longrightarrow> \<not> m_LegalHold m"
  shows "mail_step u s s'"
  using del
proof (rule delete_cases)
  fix m0
  assume msgs: "messages s' = del_where (\<lambda>r. m_ID r = mid \<and> m_UserID r = u) (messages s)"
  have "m \<in> set (messages s')" if m: "m \<in> set (messages s)" "m_LegalHold m" for m
  proof (rule ccontr)
    assume "m \<notin> set (messages s')"
    with m msgs have "m_ID m = mid" "m_UserID m = u" by auto
    with m(1) inv have "find (\<lambda>r. m_ID r = mid \<and> m_UserID r = u) (messages s) = Some m"
      using find_unique_key_and [of m_ID "messages s" m "\<lambda>r. m_UserID r = u"] by (simp add: mail_inv_def)
    then have "db_GetMessage s u mid = Inr m" by (simp add: db_GetMessage_def)
    with free m(2) show False by blast
  qed
  moreover have "others u s' = others u s"
    by (auto simp: others_def msgs del_where_def intro!: filter_cong)
  ultimately show ?thesis
    using mail_inv_delete [OF inv del] by (auto simp: mail_step_def held_safe_def)
qed

text \<open>The guard at the start of \<open>LocalDelete\<close>, as a state.\<close>

definition delete_gate :: "lib \<Rightarrow> io \<Rightarrow> app \<Rightarrow> ctx \<Rightarrow> err option \<times> app" where
  "delete_gate L w a c =
     (case c_principal c of
        Some p \<Rightarrow> if IsMCPScoped p then CheckMCPToolPolicy L w a c ''mail_local_delete'' else (None, a)
      | None \<Rightarrow> (None, a))"

lemma delete_gate_state:
  "snd (delete_gate L w a c) = a \<or>
   (\<exists>r d. snd (delete_gate L w a c) = app_audit a w c ''mcp_policy_denied'' r ''denied'' d)"
  using CheckMCPToolPolicy_state [of L w a c "''mail_local_delete''"]
  by (cases "c_principal c") (simp_all add: delete_gate_def)

lemma mail_inv_gate: "mail_inv (st a) \<Longrightarrow> mail_step u (st a) (st (snd (delete_gate L w a c)))"
  using delete_gate_state [of L w a c] by (auto intro!: mail_step_audit intro: mail_step_refl)

lemma LocalDelete_cases:
  obtains (denied) e where "fst (delete_gate L w a c) = Some e"
      "LocalDelete L w a c mid = (Some e, snd (delete_gate L w a c))"
  | (held) m where "fst (delete_gate L w a c) = None"
      "db_GetMessage (st (snd (delete_gate L w a c))) (userIDFrom c) mid = Inr m" "m_LegalHold m"
      "fst (LocalDelete L w a c mid) \<noteq> None"
      "st (snd (LocalDelete L w a c mid)) =
         audit (st (snd (delete_gate L w a c))) (now w) c ''local_delete'' (''message:'' @ mid) ''denied'' ''legal hold''"
  | (missing) e where "fst (delete_gate L w a c) = None"
      "db_DeleteMessage (st (snd (delete_gate L w a c))) (userIDFrom c) mid = Inl e"
      "LocalDelete L w a c mid = (Some e, snd (delete_gate L w a c))"
  | (deleted) uris s' where "fst (delete_gate L w a c) = None"
      "\<And>m. db_GetMessage (st (snd (delete_gate L w a c))) (userIDFrom c) mid = Inr m \<Longrightarrow> \<not> m_LegalHold m"
      "db_DeleteMessage (st (snd (delete_gate L w a c))) (userIDFrom c) mid = Inr (uris, s')"
      "fst (LocalDelete L w a c mid) = None"
      "st (snd (LocalDelete L w a c mid)) = audit s' (now w) c ''local_delete'' (''message:'' @ mid) ''ok'' []"
      "objects (snd (LocalDelete L w a c mid)) = purge (objects (snd (delete_gate L w a c))) uris"
proof -
  obtain g a1 where g: "delete_gate L w a c = (g, a1)" by (cases "delete_gate L w a c")
  let ?held = "case db_GetMessage (st a1) (userIDFrom c) mid of Inr m \<Rightarrow> m_LegalHold m | Inl e \<Rightarrow> False"
  note d = LocalDelete_def [of L w a c mid, folded delete_gate_def, unfolded g Let_def, simplified]
  show thesis
  proof (cases g)
    case (Some e)
    then show thesis by (intro denied [of e]) (simp_all add: g d)
  next
    case None
    show thesis
    proof (cases ?held)
      case True
      then obtain m where "db_GetMessage (st a1) (userIDFrom c) mid = Inr m" "m_LegalHold m"
        by (auto split: sum.splits)
      with None True show thesis by (intro held [of m]) (simp_all add: g d)
    next
      case False
      then have free: "db_GetMessage (st a1) (userIDFrom c) mid = Inr m \<Longrightarrow> \<not> m_LegalHold m" for m
        by simp
      show thesis
      proof (cases "db_DeleteMessage (st a1) (userIDFrom c) mid")
        case (Inl e)
        with None False show thesis by (intro missing [of e]) (simp_all add: g d)
      next
        case (Inr r)
        obtain uris s' where r: "r = (uris, s')" by (cases r)
        with None False Inr free show thesis by (intro deleted [of uris s']) (simp_all add: g d)
      qed
    qed
  qed
qed

lemma LocalDelete_step:
  assumes "mail_inv (st a)"
  shows "mail_step (userIDFrom c) (st a) (st (snd (LocalDelete L w a c mid)))"
proof (cases rule: LocalDelete_cases [of L w a c mid])
  case (deleted uris s')
  have gate: "mail_step (userIDFrom c) (st a) (st (snd (delete_gate L w a c)))"
    using assms by (rule mail_inv_gate)
  then have "mail_inv (st (snd (delete_gate L w a c)))" by (simp add: mail_step_def)
  from mail_step_trans [OF gate delete_step [OF this deleted(3,2)]] show ?thesis
    by (simp add: deleted(5) mail_step_audit)
qed (simp_all add: mail_inv_gate assms mail_step_audit)

lemma filter_upd_where:
  "(\<And>r. P r \<Longrightarrow> \<not> Q r) \<Longrightarrow> (\<And>r. P r \<Longrightarrow> \<not> Q (f r)) \<Longrightarrow> filter Q (upd_where P f rs) = filter Q rs"
  by (induction rs) auto

text \<open>Writing back an edited copy of a row is a step, if the edit does not lift a hold.\<close>

lemma update_step:
  assumes inv: "mail_inv s" and get: "db_GetMessage s u mid = Inr m"
    and same: "m_ID m' = m_ID m" "m_UserID m' = m_UserID m" "m_LegalHold m \<longrightarrow> m_LegalHold m'"
    and upd: "db_UpdateMessage s m' = Inr s'"
  shows "mail_step u s s'"
proof -
  from get have m: "m \<in> set (messages s)" "m_ID m = mid" "m_UserID m = u"
    by (auto simp: db_GetMessage_def split: option.splits dest: find_SomeD)
  have only: "r = m" if "r \<in> set (messages s)" "m_ID r = m_ID m" for r
    using inv m(1) that by (auto simp: mail_inv_def intro: unique_key_eq)
  let ?f = "\<lambda>r. r\<lparr>m_IsArchived := m_IsArchived m', m_IsImportant := m_IsImportant m',
      m_SnoozedUntil := m_SnoozedUntil m', m_Labels := m_Labels m', m_LegalHold := m_LegalHold m',
      m_IsRead := m_IsRead m'\<rparr>"
  let ?P = "\<lambda>r. m_ID r = m_ID m' \<and> m_UserID r = m_UserID m'"
  have s': "messages s' = upd_where ?P ?f (messages s)"
    using upd by (auto simp: db_UpdateMessage_def Let_def split: if_splits)
  have "held_safe s s'"
    unfolding held_safe_def
  proof (intro ballI impI)
    fix r assume r: "r \<in> set (messages s)" "m_LegalHold r"
    have "(if ?P r then ?f r else r) \<in> set (messages s')" using r(1) by (auto simp: s' set_upd_where)
    moreover have "m_LegalHold (if ?P r then ?f r else r)"
    proof (cases "?P r")
      case True
      then have "r = m" using only [OF r(1)] same(1) by simp
      with r(2) same(3) True show ?thesis by simp
    qed (use r(2) in auto)
    moreover have "m_ID (if ?P r then ?f r else r) = m_ID r" by simp
    ultimately show "\<exists>m'\<in>set (messages s'). m_ID m' = m_ID r \<and> m_LegalHold m'" by blast
  qed
  moreover have "others u s' = others u s"
    unfolding others_def s' by (rule filter_upd_where) (simp_all add: m(3) same(2))
  ultimately show ?thesis
    using mail_inv_update [OF inv upd] by (simp add: mail_step_def)
qed

lemma addLabel_set: "set (addLabel ls l) = insert (TrimSpace l) (set ls)"
  by (auto simp: addLabel_def Let_def)

lemma addLabel_idem: "addLabel (addLabel ls l) l = addLabel ls l"
  by (simp add: addLabel_def Let_def)

lemma removeLabel_idem: "removeLabel (removeLabel ls l) l = removeLabel ls l"
  by (simp add: removeLabel_def Let_def)

lemma batch_edit_cases:
  obtains "batch_edit opts = (\<lambda>m. m)"
  | f where "(bo_Action opts, f) \<in> set (batch_edits opts)" "batch_edit opts = f"
proof (cases "map_of (batch_edits opts) (bo_Action opts)")
  case None
  then show ?thesis using that(1) by (simp add: batch_edit_def fun_eq_iff)
next
  case (Some f)
  then show ?thesis using that(2) [of f] by (simp add: batch_edit_def fun_eq_iff map_of_SomeD)
qed

lemma batch_edits_keep:
  "\<forall>e\<in>set (batch_edits opts). \<forall>m. m_ID (snd e m) = m_ID m \<and> m_UserID (snd e m) = m_UserID m \<and>
     (fst e \<noteq> ''legal_unhold'' \<longrightarrow> m_LegalHold m \<longrightarrow> m_LegalHold (snd e m)) \<and>
     (fst e \<noteq> ''important'' \<longrightarrow> snd e (snd e m) = snd e m)"
  by (simp add: batch_edits_def addLabel_idem removeLabel_idem)

lemma batch_edit_keeps [simp]:
  "m_ID (batch_edit opts m) = m_ID m" "m_UserID (batch_edit opts m) = m_UserID m"
  using batch_edits_keep [of opts] by (cases rule: batch_edit_cases [of opts]; force)+

lemma batch_edit_hold:
  "bo_Action opts \<noteq> ''legal_unhold'' \<Longrightarrow> m_LegalHold m \<Longrightarrow> m_LegalHold (batch_edit opts m)"
  using batch_edits_keep [of opts] by (cases rule: batch_edit_cases [of opts]; force)

lemma batch_edit_idem:
  "bo_Action opts \<noteq> ''important'' \<Longrightarrow> batch_edit opts (batch_edit opts m) = batch_edit opts m"
  using batch_edits_keep [of opts] by (cases rule: batch_edit_cases [of opts]; force)

lemma applyBatchAction_step:
  assumes "mail_inv (st a)" "bo_Action opts \<noteq> ''legal_unhold''"
  shows "mail_step (userIDFrom c) (st a) (st (snd (applyBatchAction L w a c mid opts)))"
proof (cases "bo_Action opts = ''delete''")
  case True
  with assms show ?thesis by (simp add: applyBatchAction_def LocalDelete_step)
next
  case False
  show ?thesis
  proof (cases "db_GetMessage (st a) (userIDFrom c) mid")
    case (Inl e)
    with False assms show ?thesis by (simp add: applyBatchAction_def mail_step_refl)
  next
    case (Inr m)
    have "db_UpdateMessage (st a) (batch_edit opts m) = Inr s' \<Longrightarrow> mail_step (userIDFrom c) (st a) s'" for s'
      using assms batch_edit_hold by (intro update_step [OF assms(1) Inr]) auto
    with False Inr assms show ?thesis
      by (simp add: applyBatchAction_def mail_step_refl split: sum.split)
  qed
qed

lemma batch_loop_step:
  assumes "mail_inv (st a)" "bo_Action opts \<noteq> ''legal_unhold''"
  shows "mail_step (userIDFrom c) (st a) (st (snd (batch_loop L w c opts a ids)))"
  using assms(1)
proof (induction ids arbitrary: a)
  case Nil
  then show ?case by (simp add: mail_step_refl)
next
  case (Cons mid ids)
  let ?a1 = "snd (applyBatchAction L w a c mid opts)"
  have one: "mail_step (userIDFrom c) (st a) (st ?a1)"
    using Cons.prems assms(2) by (rule applyBatchAction_step)
  then have "mail_inv (st ?a1)" by (simp add: mail_step_def)
  from mail_step_trans [OF one Cons.IH [OF this]] show ?case
    by (simp add: Let_def case_prod_beta)
qed

text \<open>The actions of a rule change neither the identity of the message nor its hold.\<close>

lemma edit_action_keeps:
  "edit_action w x m ch names = (m', ch', names') \<Longrightarrow>
     m_ID m' = m_ID m \<and> m_UserID m' = m_UserID m \<and> m_LegalHold m' = m_LegalHold m"
  by (auto simp: edit_action_def split: if_splits)

lemma run_actions_keeps:
  "run_actions L w a c m ch names xs = (ActDone m' ch' names', a') \<Longrightarrow>
     a' = a \<and> m_ID m' = m_ID m \<and> m_UserID m' = m_UserID m \<and> m_LegalHold m' = m_LegalHold m"
proof (induction xs arbitrary: m ch names)
  case (Cons x xs)
  obtain m1 ch1 n1 where e: "edit_action w x m ch names = (m1, ch1, n1)"
    by (cases "edit_action w x m ch names")
  with Cons.prems have "run_actions L w a c m1 ch1 n1 xs = (ActDone m' ch' names', a')"
    by (auto split: if_splits prod.splits option.splits)
  with Cons.IH edit_action_keeps [OF e] show ?case by metis
qed simp

lemma run_actions_step:
  assumes "mail_inv (st a)"
  shows "mail_step (userIDFrom c) (st a) (st (snd (run_actions L w a c m ch names xs)))"
proof (induction xs arbitrary: m ch names)
  case Nil
  with assms show ?case by (simp add: mail_step_refl)
next
  case (Cons x xs)
  have "mail_step (userIDFrom c) (st a) (st (snd (LocalDelete L w a c (m_ID m))))"
    using assms by (rule LocalDelete_step)
  with Cons show ?case by (simp add: case_prod_beta split: option.split)
qed

lemma finish_rules_step:
  assumes "mail_inv (st a)" "db_GetMessage (st a) u mid = Inr m0"
    and "m_ID m = m_ID m0" "m_UserID m = m_UserID m0" "m_LegalHold m = m_LegalHold m0"
  shows "mail_step u (st a) (st (snd (finish_rules a m ch matched)))"
  using assms
  by (auto simp: finish_rules_def Let_def split: sum.splits intro: mail_step_refl update_step)

lemma run_rules_step:
  assumes "mail_inv (st a)" "db_GetMessage (st a) (userIDFrom c) mid = Inr m0"
    and "m_ID m = m_ID m0" "m_UserID m = m_UserID m0" "m_LegalHold m = m_LegalHold m0"
  shows "mail_step (userIDFrom c) (st a) (st (snd (run_rules L w a c body m ch matched rs)))"
  using assms
proof (induction rs arbitrary: m ch matched)
  case Nil
  then show ?case by (simp add: finish_rules_step)
next
  case (Cons r rs)
  have acts: "mail_step (userIDFrom c) (st a) (st (snd (run_actions L w a c m ch [] (r_Actions r))))"
    using Cons.prems(1) by (rule run_actions_step)
  show ?case
  proof (cases "r_Enabled r \<and> ruleMatches L r m body")
    case True
    obtain out a' where ra: "run_actions L w a c m ch [] (r_Actions r) = (out, a')"
      by (cases "run_actions L w a c m ch [] (r_Actions r)")
    show ?thesis
    proof (cases out)
      case (ActDone m' ch' names)
      with ra have k: "a' = a" "m_ID m' = m_ID m" "m_UserID m' = m_UserID m" "m_LegalHold m' = m_LegalHold m"
        using run_actions_keeps by blast+
      have "mail_step (userIDFrom c) (st a) (st (snd (finish_rules a m' ch' x)))" for x
        using Cons.prems k by (intro finish_rules_step) simp_all
      moreover have "mail_step (userIDFrom c) (st a) (st (snd (run_rules L w a c body m' ch' x rs)))" for x
        using Cons.prems k by (intro Cons.IH) simp_all
      ultimately show ?thesis using True ra ActDone k(1) by (simp add: Let_def)
    qed (use True ra acts in simp_all)
  next
    case False
    with Cons show ?thesis by simp
  qed
qed

lemma batch_step:
  assumes "mail_inv (st a)" "bo_Action opts \<noteq> ''legal_unhold''"
  shows "mail_step (userIDFrom c) (st a) (st (snd (BatchUpdateMessages L w a c opts)))"
  using batch_loop_step [OF assms, of c L w] assms(1)
  by (auto simp: BatchUpdateMessages_def Let_def case_prod_beta mail_step_refl
      intro: mail_step_audit split: option.splits)

lemma apply_rules_step:
  assumes "mail_inv (st a)"
  shows "mail_step (userIDFrom c) (st a) (st (snd (ApplyRulesToMessage L w a c mid)))"
proof (cases "db_GetMessage (st a) (userIDFrom c) mid")
  case (Inl e)
  with assms show ?thesis by (simp add: ApplyRulesToMessage_def mail_step_refl)
next
  case (Inr m)
  from run_rules_step [OF assms Inr refl refl refl] show ?thesis
    by (simp add: ApplyRulesToMessage_def Inr Let_def case_prod_beta evaluateRules_def)
qed

section \<open>Facts about labels, matching and validation\<close>

lemma conditions_loop_eq:
  "conditions_loop any f cs = (if any then list_ex f cs else list_all f cs)"
  by (induction cs) auto

lemma first_error_None: "first_error f xs = None \<longleftrightarrow> list_all (\<lambda>x. f x = None) xs"
  by (induction xs) (auto split: option.splits)

definition rule_ok :: "lib \<Rightarrow> MailRule \<Rightarrow> bool" where
  "rule_ok L r \<longleftrightarrow>
     TrimSpace (r_Name r) \<noteq> [] \<and> (r_Match r = ''all'' \<or> r_Match r = ''any'') \<and> r_Priority r \<noteq> 0 \<and>
     r_Conditions r \<noteq> [] \<and> r_Actions r \<noteq> [] \<and>
     list_all (\<lambda>x. condition_error L x = None) (r_Conditions r) \<and>
     list_all (\<lambda>x. action_error L x = None) (r_Actions r)"

lemma normalize_ok: "normalizeAndValidateRule L r = Inr r' \<Longrightarrow> rule_ok L r'"
  by (auto simp: normalizeAndValidateRule_def Let_def rule_ok_def first_error_None
      split: if_splits option.splits)

lemma normalize_id: "rule_ok L r \<Longrightarrow> normalizeAndValidateRule L r = Inr r"
  by (auto simp: normalizeAndValidateRule_def Let_def rule_ok_def first_error_None [symmetric])

definition mutable_of :: "Message \<Rightarrow> Message \<Rightarrow> Message" where
  "mutable_of m' r = r\<lparr>m_IsArchived := m_IsArchived m', m_IsImportant := m_IsImportant m',
      m_SnoozedUntil := m_SnoozedUntil m', m_Labels := m_Labels m', m_LegalHold := m_LegalHold m',
      m_IsRead := m_IsRead m'\<rparr>"

lemma db_UpdateMessage_alt:
  "db_UpdateMessage s m =
     (if no_row (\<lambda>r. m_ID r = m_ID m \<and> m_UserID r = m_UserID m) (messages s) then Inl ErrNotFound
      else Inr (s\<lparr>messages := upd_where (\<lambda>r. m_ID r = m_ID m \<and> m_UserID r = m_UserID m) (mutable_of m) (messages s)\<rparr>))"
  by (simp add: db_UpdateMessage_def mutable_of_def [abs_def] Let_def)

lemma mutable_of_idem [simp]: "mutable_of m (mutable_of m r) = mutable_of m r"
  by (simp add: mutable_of_def)

lemma mutable_of_keys [simp]: "m_ID (mutable_of m r) = m_ID r" "m_UserID (mutable_of m r) = m_UserID r"
  by (simp_all add: mutable_of_def)

lemma batch_edit_mutable: "mutable_of (batch_edit opts m) m = batch_edit opts m"
proof -
  have "\<forall>e\<in>set (batch_edits opts). mutable_of (snd e m) m = snd e m"
    by (simp add: batch_edits_def mutable_of_def)
  moreover have "mutable_of m m = m" by (simp add: mutable_of_def)
  ultimately show ?thesis by (cases rule: batch_edit_cases [of opts]; force)
qed

lemma upd_where_idem:
  "(\<And>r. P (f r) = P r) \<Longrightarrow> (\<And>r. f (f r) = f r) \<Longrightarrow> upd_where P f (upd_where P f rs) = upd_where P f rs"
  by (induction rs) auto

lemma no_row_upd_where: "(\<And>r. Q (f r) = Q r) \<Longrightarrow> no_row Q (upd_where P f rs) = no_row Q rs"
  by (induction rs) (auto simp: no_row_def)

lemma failed_delete_keeps:
  "fst (LocalDelete L w a c mid) \<noteq> None \<Longrightarrow> messages (st (snd (LocalDelete L w a c mid))) = messages (st a)"
proof -
  assume "fst (LocalDelete L w a c mid) \<noteq> None"
  moreover have "messages (st (snd (delete_gate L w a c))) = messages (st a)"
    using delete_gate_state [of L w a c] by auto
  ultimately show ?thesis
    by (cases rule: LocalDelete_cases [of L w a c mid]) simp_all
qed

lemma run_actions_failed:
  "fst (run_actions L w a c m ch names xs) = ActFailed e \<Longrightarrow>
     messages (st (snd (run_actions L w a c m ch names xs))) = messages (st a)"
proof (induction xs arbitrary: m ch names)
  case (Cons x xs)
  show ?case
  proof (cases "ra_Type x = ''delete''")
    case True
    with Cons.prems have "fst (LocalDelete L w a c (m_ID m)) \<noteq> None"
      by (auto simp: case_prod_beta split: option.splits)
    with True failed_delete_keeps show ?thesis
      by (auto simp: case_prod_beta split: option.splits)
  next
    case False
    with Cons show ?thesis by (simp add: case_prod_beta)
  qed
qed simp

lemma run_rules_failed:
  "snd (fst (run_rules L w a c body m ch matched rs)) \<noteq> None \<Longrightarrow>
     messages (st (snd (run_rules L w a c body m ch matched rs))) = messages (st a)"
proof (induction rs arbitrary: m ch matched)
  case Nil
  then show ?case by (auto simp: finish_rules_def Let_def split: if_splits sum.splits)
next
  case (Cons r rs)
  obtain out a' where ra: "run_actions L w a c m ch [] (r_Actions r) = (out, a')"
    by (cases "run_actions L w a c m ch [] (r_Actions r)")
  show ?case
  proof (cases out)
    case (ActDone m' ch' names)
    with ra have "a' = a" using run_actions_keeps by blast
    moreover have "messages (st (snd (finish_rules a m' ch' x))) = messages (st a)"
      if "snd (fst (finish_rules a m' ch' x)) \<noteq> None" for x
      using that by (auto simp: finish_rules_def Let_def split: if_splits sum.splits)
    ultimately show ?thesis using Cons ra ActDone by (auto simp: Let_def split: if_splits)
  next
    case (ActDeleted names)
    with Cons ra show ?thesis by (auto split: if_splits)
  next
    case (ActFailed e)
    with ra run_actions_failed [of L w a c m ch "[]" "r_Actions r" e] Cons show ?thesis
      by (auto split: if_splits)
  qed
qed

section \<open>Properties\<close>

text \<open>
  C37.  A message under legal hold survives every local operation of its user except lifting the
  hold: neither deletion, nor a bulk update, nor the automation rules can remove it.  The same
  operations never touch the messages of another user and keep the schema invariant.
\<close>

theorem legal_hold_and_ownership:
  assumes "mail_inv (st a)" and "bo_Action opts \<noteq> ''legal_unhold''"
  shows "mail_step (userIDFrom c) (st a) (st (snd (LocalDelete L w a c mid))) \<and>
         mail_step (userIDFrom c) (st a) (st (snd (BatchUpdateMessages L w a c opts))) \<and>
         mail_step (userIDFrom c) (st a) (st (snd (ApplyRulesToMessage L w a c mid)))"
  using LocalDelete_step [OF assms(1)] batch_step [OF assms] apply_rules_step [OF assms(1)] by blast

definition held_app :: app where
  "held_app = sample_app\<lparr>st := empty_store\<lparr>messages := [sample_message\<lparr>m_LegalHold := True\<rparr>]\<rparr>\<rparr>"

theorem legal_hold_and_ownership_witness:
  "mail_step ''usr_1'' (st held_app) (st (snd (LocalDelete sample_lib sample_io held_app
      (sample_ctx ''password'' []) ''msg_1'')))"
proof -
  have "mail_inv (st held_app)" by (simp add: held_app_def mail_inv_def empty_store_def)
  moreover have "userIDFrom (sample_ctx ''password'' []) = ''usr_1''"
    by (simp add: userIDFrom_def sample_ctx_def sample_principal_def)
  ultimately show ?thesis
    using legal_hold_and_ownership [of held_app
        "\<lparr>bo_MessageIDs = [], bo_Action = ''delete'', bo_SnoozedUntil = 0, bo_Label = []\<rparr>"
        "sample_ctx ''password'' []"] by simp
qed

text \<open>
  A bulk update reports one result per requested message, in order; the requested number is
  the sum of the succeeded and failed ones, and the succeeded ids are those marked ok.
\<close>

theorem batch_counts:
  assumes "fst (BatchUpdateMessages L w a c opts) = Inr res"
  shows "br_Requested res = br_Succeeded res + br_Failed res \<and>
         map bi_MessageID (br_Results res) = bo_MessageIDs opts \<and>
         br_SucceededIDs res = map bi_MessageID (filter bi_OK (br_Results res)) \<and>
         br_Succeeded res = length (br_SucceededIDs res)"
proof -
  have ids: "map bi_MessageID (fst (batch_loop L w c opts a ids)) = ids" for ids
    by (induction ids arbitrary: a) (simp_all add: Let_def case_prod_beta)
  then have len: "length (fst (batch_loop L w c opts a (bo_MessageIDs opts))) = length (bo_MessageIDs opts)"
    by (metis length_map)
  show ?thesis
    using assms ids len sum_length_filter_compl [of bi_OK "fst (batch_loop L w c opts a (bo_MessageIDs opts))"]
    by (auto simp: BatchUpdateMessages_def Let_def case_prod_beta split: option.splits)
qed

definition one_opts :: "string \<Rightarrow> BatchUpdateOptions" where
  "one_opts action = \<lparr>bo_MessageIDs = [''msg_1''], bo_Action = action, bo_SnoozedUntil = 0, bo_Label = []\<rparr>"

lemma held_archive:
  "applyBatchAction sample_lib sample_io held_app (sample_ctx ''password'' []) ''msg_1'' (one_opts ''archive'') =
     (None, sample_app\<lparr>st := empty_store\<lparr>messages :=
        [sample_message\<lparr>m_LegalHold := True, m_IsArchived := True\<rparr>]\<rparr>\<rparr>)"
  by (simp add: applyBatchAction_def one_opts_def held_app_def db_GetMessage_def sample_message_def
        userIDFrom_def sample_ctx_def sample_principal_def batch_edit_def batch_edits_def
        db_UpdateMessage_def Let_def no_row_def empty_store_def)

theorem batch_counts_witness:
  "\<exists>res. fst (BatchUpdateMessages sample_lib sample_io held_app (sample_ctx ''password'' [])
        (one_opts ''archive'')) = Inr res \<and> br_Requested res = br_Succeeded res + br_Failed res"
proof -
  have "batch_refused held_app (sample_ctx ''password'' []) (one_opts ''archive'') = None"
    by (simp add: batch_refused_def one_opts_def batch_actions_def sample_ctx_def
          sample_principal_def IsMCPScoped_def)
  then obtain res where "fst (BatchUpdateMessages sample_lib sample_io held_app
      (sample_ctx ''password'' []) (one_opts ''archive'')) = Inr res"
    by (simp add: BatchUpdateMessages_def Let_def case_prod_beta)
  with batch_counts [OF this] show ?thesis by blast
qed

text \<open>
  Every bulk action except deletion and the deprecated toggle is idempotent: repeating it on
  a message succeeds again and changes nothing.
\<close>

theorem batch_action_idempotent:
  assumes "mail_inv (st a)" and "bo_Action opts \<noteq> ''delete''" and "bo_Action opts \<noteq> ''important''"
    and "applyBatchAction L w a c mid opts = (None, a1)"
  shows "applyBatchAction L w a1 c mid opts = (None, a1)"
proof -
  let ?u = "userIDFrom c"
  from assms(2,4) obtain m where get: "db_GetMessage (st a) ?u mid = Inr m"
    and upd: "db_UpdateMessage (st a) (batch_edit opts m) = Inr (st a1)" and a1: "a1 = a\<lparr>st := st a1\<rparr>"
    by (auto simp: applyBatchAction_def split: sum.splits)
  from get have f: "find (\<lambda>r. m_ID r = mid \<and> m_UserID r = ?u) (messages (st a)) = Some m"
    by (simp add: db_GetMessage_def split: option.splits)
  then have m: "m_ID m = mid" "m_UserID m = ?u" by (auto dest: find_SomeD)
  let ?P = "\<lambda>r. m_ID r = mid \<and> m_UserID r = ?u" and ?f = "mutable_of (batch_edit opts m)"
  have s1: "st a1 = (st a)\<lparr>messages := upd_where ?P ?f (messages (st a))\<rparr>"
    and row: "\<not> no_row ?P (messages (st a))"
    using upd m by (auto simp: db_UpdateMessage_alt split: if_splits)
  have "find ?P (messages (st a1)) = Some (batch_edit opts m)"
    using f m by (simp add: s1 find_upd_where_same batch_edit_mutable)
  then have get1: "db_GetMessage (st a1) ?u mid = Inr (batch_edit opts m)"
    by (simp add: db_GetMessage_def)
  have "db_UpdateMessage (st a1) (batch_edit opts m) = Inr (st a1)"
  proof -
    have "\<not> no_row ?P (upd_where ?P ?f (messages (st a)))"
      using row by (subst no_row_upd_where) simp_all
    moreover have "upd_where ?P ?f (upd_where ?P ?f rs) = upd_where ?P ?f rs" for rs
      by (rule upd_where_idem) simp_all
    ultimately show ?thesis unfolding db_UpdateMessage_alt batch_edit_keeps m s1 by simp
  qed
  with get1 assms(2,3) a1 show ?thesis
    by (simp add: applyBatchAction_def batch_edit_idem)
qed

theorem batch_action_idempotent_witness:
  "applyBatchAction sample_lib sample_io
     (sample_app\<lparr>st := empty_store\<lparr>messages := [sample_message\<lparr>m_LegalHold := True, m_IsArchived := True\<rparr>]\<rparr>\<rparr>)
     (sample_ctx ''password'' []) ''msg_1'' (one_opts ''archive'') =
   (None, sample_app\<lparr>st := empty_store\<lparr>messages := [sample_message\<lparr>m_LegalHold := True, m_IsArchived := True\<rparr>]\<rparr>\<rparr>)"
  by (rule batch_action_idempotent [OF _ _ _ held_archive])
     (simp_all add: held_app_def mail_inv_def empty_store_def one_opts_def)

text \<open>
  Validation accepts a rule exactly when, with the defaults filled in, it is well-formed; the
  accepted rule is well-formed, and validating it again returns it unchanged.
\<close>

theorem rule_validation_sound_and_stable:
  assumes "normalizeAndValidateRule L r = Inr r'"
  shows "rule_ok L r' \<and> normalizeAndValidateRule L r' = Inr r'"
  using normalize_ok [OF assms] normalize_id by blast

definition sample_rule :: "string \<Rightarrow> string \<Rightarrow> MailRule" where
  "sample_rule rid action =
     \<lparr>r_ID = rid, r_UserID = ''usr_1'', r_Name = ''r'', r_Enabled = True, r_Priority = 0, r_Match = [],
      r_Conditions = [\<lparr>rc_Field = ''has_attachment'', rc_Operator = ''is_false'', rc_Value = []\<rparr>],
      r_Actions = [\<lparr>ra_Type = action, ra_Value = []\<rparr>], r_StopOnMatch = False,
      r_CreatedAt = 0, r_UpdatedAt = 0\<rparr>"

theorem rule_validation_sound_and_stable_witness:
  "rule_ok sample_lib ((sample_rule ''rule_1'' ''archive'')\<lparr>r_Match := ''all'', r_Priority := 100\<rparr>)"
proof -
  have "normalizeAndValidateRule sample_lib (sample_rule ''rule_1'' ''archive'') =
      Inr ((sample_rule ''rule_1'' ''archive'')\<lparr>r_Match := ''all'', r_Priority := 100\<rparr>)"
    by (simp add: normalizeAndValidateRule_def sample_rule_def Let_def condition_error_def
          action_error_def validRuleFields_def validRuleOps_def validRuleActions_def
          TrimSpace_graphic graphic_def byte_def)
  from rule_validation_sound_and_stable [OF this] show ?thesis by blast
qed

text \<open>
  A rule with match mode \<open>any\<close> applies when some condition holds, any other mode when all
  hold; a rule without conditions never applies.
\<close>

theorem ruleMatches_semantics:
  "ruleMatches L r m body \<longleftrightarrow>
     r_Conditions r \<noteq> [] \<and>
     (if r_Match r = ''any'' then list_ex (matchCondition L m body) (r_Conditions r)
      else list_all (matchCondition L m body) (r_Conditions r))"
  by (simp add: ruleMatches_def conditions_loop_eq)

text \<open>
  When the evaluation of the rules ends in an error, nothing any rule did has been written:
  a delete action that is refused discards the labels, flags and snoozes that the rules before it
  applied, although the result lists those rules as matched.
\<close>

theorem failed_rules_write_nothing:
  assumes "fst (ApplyRulesToMessage L w a c mid) = Inr (res, Some e)"
  shows "messages (st (snd (ApplyRulesToMessage L w a c mid))) = messages (st a)"
  using assms run_rules_failed
  by (auto simp: ApplyRulesToMessage_def evaluateRules_def Let_def case_prod_beta split: sum.splits)

definition ruled_app :: app where
  "ruled_app = held_app\<lparr>st := (st held_app)\<lparr>rules :=
     [sample_rule ''rule_1'' ''archive'', sample_rule ''rule_2'' ''delete'']\<rparr>\<rparr>"

theorem failed_rules_write_nothing_witness:
  "rr_Matched (fst (projr (fst (ApplyRulesToMessage sample_lib sample_io ruled_app
       (sample_ctx ''password'' []) ''msg_1'')))) \<noteq> [] \<and>
   messages (st (snd (ApplyRulesToMessage sample_lib sample_io ruled_app
       (sample_ctx ''password'' []) ''msg_1''))) = messages (st ruled_app)"
proof -
  have r: "fst (ApplyRulesToMessage sample_lib sample_io ruled_app (sample_ctx ''password'' []) ''msg_1'') =
      Inr (\<lparr>rr_MessageID = ''msg_1'', rr_Matched = [\<lparr>ra_RuleID = ''rule_1'', ra_RuleName = ''r'',
              ra_Applied = [''archive'']\<rparr>], rr_Deleted = False\<rparr>,
           Some (UserError ''message msg_1 is under legal hold and cannot be deleted''))"
    by (simp add: ApplyRulesToMessage_def ruled_app_def held_app_def db_GetMessage_def
          sample_message_def sample_ctx_def sample_principal_def userIDFrom_def db_ListRules_def
          sample_rule_def evaluateRules_def ruleMatches_def matchCondition_def matchBool_def
          edit_action_def LocalDelete_def IsMCPScoped_def Let_def)
  from failed_rules_write_nothing [OF r] show ?thesis by (simp add: r)
qed
end
