(* ===== verification/Mail_Ingest.thy ===== *)
theory Mail_Ingest
  imports Rules_Engine Attachment_Scan Go_Regexp
begin

text \<open>
  Storing one message: \<open>storeMessage\<close>, \<open>ingestOne\<close> and \<open>rawReadLimit\<close> of
  \<open>src/internal/application/sync.go\<close>, with the threading keys of
  \<open>src/internal/adapters/mailparse/parser.go\<close>.  Parsing the MIME structure is the library function
  \<open>parse_mail\<close>.
\<close>

section \<open>Threading keys\<close>

text \<open>The prefix \<open>(?i)^\s*((re|fw|fwd|...)\s*(\[\d+\])?\s*:\s*)+\<close>, with the two Korean words as bytes.\<close>

definition re_spaces :: re where "re_spaces = Star (Chr re_space)"

definition reSubjectPrefix :: re where
  "reSubjectPrefix = Seq re_spaces (Plus
     (Seq (Alt (ci_lit ''re'') (Alt (ci_lit ''fw'') (Alt (ci_lit ''fwd'')
            (Alt (lit (utf8 [0xEB, 0x8B, 0xB5, 0xEC, 0x9E, 0xA5]))
                 (lit (utf8 [0xEC, 0xA0, 0x84, 0xEB, 0x8B, 0xAC]))))))
     (Seq re_spaces
     (Seq (Opt (Seq (lit ''['') (Seq (Plus (Chr is_digit)) (lit '']''))))
     (Seq re_spaces (Seq (lit '':'') re_spaces))))))"

definition SubjectKey :: "lib \<Rightarrow> string \<Rightarrow> string" where
  "SubjectKey L subject =
     (let s = (case match_here reSubjectPrefix None subject of None \<Rightarrow> subject | Some (_, rest) \<Rightarrow> rest)
      in ToLower (uni_lower L) (join '' '' (Fields s)))"

fun refs_loop :: "string list \<Rightarrow> string list \<Rightarrow> string list" where
  "refs_loop out [] = out"
| "refs_loop out (tok0 # toks) =
     (let tok = TrimSpace tok0
      in if HasPrefix tok ''<'' \<and> HasSuffix tok ''>'' \<and> tok \<notin> set out
         then refs_loop (out @ [tok]) toks else refs_loop out toks)"

definition ReferenceIDs :: "string \<Rightarrow> string \<Rightarrow> string list" where
  "ReferenceIDs references inReplyTo = refs_loop [] (Fields (references @ '' '' @ inReplyTo))"

section \<open>Storing a message\<close>

text \<open>
  The attachments in order; the content of one that the scanner refuses is not put into the object
  store, and the refusal is audited.
\<close>

fun scan_parts ::
  "lib \<Rightarrow> io \<Rightarrow> ctx \<Rightarrow> string \<Rightarrow> nat \<Rightarrow> app \<Rightarrow> AttachmentPart list \<Rightarrow> Attachment list \<times> app" where
  "scan_parts L w c mid n a [] = ([], a)"
| "scan_parts L w c mid n a (p # ps) =
     (let verdict = ScanAttachment L a
            \<lparr>si_Name = pa_Name p, si_MIMEType = pa_MIMEType p, si_Data = pa_Data p\<rparr>;
          att = \<lparr>at_ID = new_id w ''att'' n, at_MessageID = mid, at_Name = pa_Name p,
                 at_MIMEType = pa_MIMEType p, at_Size = int (length (pa_Data p)), at_Hash = [],
                 at_StorageURI = [], at_Inline = pa_Inline p, at_ScanStatus = sv_Status verdict,
                 at_ScanDetail = sv_Detail verdict\<rparr>;
          (att', a') =
            (if sv_StoreContent verdict
             then (case obj_Put L (objects a) ''att'' (pa_Data p) of
                     Inl e \<Rightarrow> (att, a)
                   | Inr (u, h, _, m) \<Rightarrow> (att\<lparr>at_StorageURI := u, at_Hash := h\<rparr>, a\<lparr>objects := m\<rparr>))
             else (att, app_audit a w c ''attachment_blocked'' (''message:'' @ mid) ''ok''
                          (pa_Name p @ '': '' @ sv_Detail verdict)));
          (rest, a'') = scan_parts L w c mid (Suc n) a' ps
      in (att' # rest, a''))"

definition new_message ::
  "io \<Rightarrow> MailAccount \<Rightarrow> string \<Rightarrow> string \<Rightarrow> string \<Rightarrow> string \<Rightarrow> Parsed \<Rightarrow> string \<Rightarrow> string \<Rightarrow> Message" where
  "new_message w acc raw rawHash rawURI threadID parsed uidl mailbox =
     \<lparr>m_ID = new_id w ''msg'' 0, m_UserID = a_UserID acc, m_AccountID = a_ID acc, m_UIDL = uidl,
      m_MessageID = pm_MessageID parsed, m_Subject = pm_Subject parsed, m_From = pm_From parsed,
      m_To = pm_To parsed, m_Cc = pm_Cc parsed, m_ReplyTo = pm_ReplyTo parsed, m_Bcc = pm_Bcc parsed,
      m_Date = pm_Date parsed, m_Size = int (length raw), m_RawHash = rawHash, m_RawURI = rawURI,
      m_ThreadID = threadID, m_HasAttachments = (pm_Attachments parsed \<noteq> []),
      m_InReplyTo = pm_InReplyTo parsed, m_References = pm_References parsed,
      m_AuthResults = pm_AuthResults parsed, m_ParseError = pm_ParseError parsed, m_CreatedAt = 0,
      m_IsArchived = False, m_IsImportant = False, m_IsRead = (mailbox = MailboxSent),
      m_SnoozedUntil = 0, m_Labels = [], m_LegalHold = False, m_Mailbox = mailbox\<rparr>"

text \<open>\<open>Inr None\<close> is a message that the store already held.\<close>

definition storeMessage ::
  "lib \<Rightarrow> io \<Rightarrow> app \<Rightarrow> ctx \<Rightarrow> MailAccount \<Rightarrow> string \<Rightarrow> string \<Rightarrow> Parsed \<Rightarrow> string \<Rightarrow> string
     \<Rightarrow> (err + (Message \<times> MessageBody) option) \<times> app" where
  "storeMessage L w a c acc raw rawHash parsed uidl mailbox =
     (case obj_Put L (objects a) ''raw'' raw of
        Inl e \<Rightarrow> (Inl e, a)
      | Inr (rawURI, _, _, m1) \<Rightarrow>
          (let a1 = a\<lparr>objects := m1\<rparr>;
               subjectKey = SubjectKey L (pm_Subject parsed);
               refs = ReferenceIDs (pm_References parsed) (pm_InReplyTo parsed);
               (threadID, s1) =
                 (case db_ResolveThread (st a1) (new_id w ''thr'' 0) (a_UserID acc) (a_ID acc) refs
                         subjectKey (pm_Date parsed) of
                    Inl e \<Rightarrow> ([], st a1) | Inr r \<Rightarrow> r);
               msg = new_message w acc raw rawHash rawURI threadID parsed uidl mailbox;
               body = \<lparr>b_MessageID = m_ID msg, b_TextBody = pm_TextBody parsed,
                       b_HTMLSanitized = pm_HTMLSafe parsed, b_Charset = pm_Charset parsed\<rparr>;
               (atts, a2) = scan_parts L w c (m_ID msg) 0 (a1\<lparr>st := s1\<rparr>) (pm_Attachments parsed)
           in case db_InsertMessage (st a2) (now w) msg body atts of
                Inl e \<Rightarrow>
                  if Contains (err_text e) ''UNIQUE''
                  then (Inr None, a2\<lparr>st := db_AddCheckpoint (st a2) (a_ID acc) uidl (m_ID msg)\<rparr>)
                  else (Inl e, a2)
              | Inr s2 \<Rightarrow>
                  (Inr (Some (message_row (now w) msg, body)),
                   a2\<lparr>st := db_AddCheckpoint s2 (a_ID acc) uidl (m_ID msg)\<rparr>)))"

section \<open>Ingesting a message\<close>

record SyncStats =
  sy_Seen :: int
  sy_New :: int
  sy_Duplicate :: int
  sy_Failed :: int
  sy_Oversize :: int
  sy_ParseError :: int

definition rawReadLimit :: "int \<Rightarrow> int" where
  "rawReadLimit maxBytes =
     (if maxBytes \<le> 0 \<or> maxBytes = max_int64 then max_int64 else maxBytes + 1)"

definition fallback_uidl :: "lib \<Rightarrow> Parsed \<Rightarrow> string \<Rightarrow> string \<Rightarrow> string" where
  "fallback_uidl L parsed raw rawHash =
     ''fb_'' @ hex (take 16 (sha256 L (pm_MessageID parsed @ ''|'' @ ad_Email (pm_From parsed) @ ''|''
        @ pm_DateString parsed @ ''|'' @ dec (length raw) @ ''|'' @ rawHash)))"

text \<open>
  \<open>ingestOne\<close>; \<open>content\<close> is what the server delivers for the message, or the error of the
  retrieval.
\<close>

definition ingestOne ::
  "lib \<Rightarrow> io \<Rightarrow> app \<Rightarrow> ctx \<Rightarrow> (err + string) \<Rightarrow> MailAccount \<Rightarrow> RemoteMessage \<Rightarrow> bool \<Rightarrow> SyncStats
     \<Rightarrow> string \<Rightarrow> err option \<times> SyncStats \<times> app" where
  "ingestOne L w a c content acc rm uidlSupported stats mailbox =
     (case content of
        Inl e \<Rightarrow> (Some e, stats, a)
      | Inr bytes \<Rightarrow>
          (let maxBytes = MaxMessageBytes (cfg a);
               raw = take (nat (rawReadLimit maxBytes)) bytes;
               rawHash = hex (sha256 L raw);
               dup = stats\<lparr>sy_Duplicate := sy_Duplicate stats + 1\<rparr>
           in if maxBytes > 0 \<and> int (length raw) > maxBytes
              then (None, stats\<lparr>sy_Oversize := sy_Oversize stats + 1\<rparr>, a)
              else if db_IsDuplicateHash (st a) (a_ID acc) rawHash
              then (None, dup,
                    if uidlSupported \<and> rm_UIDL rm \<noteq> []
                    then a\<lparr>st := db_AddCheckpoint (st a) (a_ID acc) (rm_UIDL rm) []\<rparr> else a)
              else
                (let parsed = parse_mail L raw;
                     stats1 = (if pm_ParseError parsed \<noteq> []
                               then stats\<lparr>sy_ParseError := sy_ParseError stats + 1\<rparr> else stats);
                     dup1 = stats1\<lparr>sy_Duplicate := sy_Duplicate stats1 + 1\<rparr>
                 in if mailbox = MailboxSent \<and> db_HasSentCopy (st a) (a_ID acc) (pm_MessageID parsed)
                    then (None, dup1, a\<lparr>st := db_AddCheckpoint (st a) (a_ID acc) (rm_UIDL rm) []\<rparr>)
                    else if rm_UIDL rm = [] \<and>
                            db_HasCheckpoint (st a) (a_ID acc) (fallback_uidl L parsed raw rawHash)
                    then (None, dup1, a)
                    else
                      (let uidl = (if rm_UIDL rm = [] then fallback_uidl L parsed raw rawHash
                                   else rm_UIDL rm)
                       in case storeMessage L w a c acc raw rawHash parsed uidl mailbox of
                            (Inl e, a1) \<Rightarrow> (Some e, stats1, a1)
                          | (Inr None, a1) \<Rightarrow> (None, dup1, a1)
                          | (Inr (Some (msg, body)), a1) \<Rightarrow>
                              (None, stats1\<lparr>sy_New := sy_New stats1 + 1\<rparr>,
                               if mailbox \<noteq> MailboxSent then evaluateRulesOnIngest L w a1 c msg body
                               else a1)))))"

section \<open>Frame lemmas\<close>

definition mail_view :: "store \<Rightarrow> Message list \<times> MessageBody list \<times> Attachment list \<times> Checkpoint list \<times> MailRule list" where
  "mail_view s = (messages s, bodies s, attachments s, checkpoints s, rules s)"

lemma mail_view_inv: "mail_view s' = mail_view s \<Longrightarrow> mail_inv s' = mail_inv s"
  by (simp add: mail_view_def mail_inv_def)

lemma mail_view_audit [simp]: "mail_view (audit s n c x r y d) = mail_view s"
  by (simp add: mail_view_def)

lemma scan_parts_view: "mail_view (st (snd (scan_parts L w c mid n a ps))) = mail_view (st a)"
  by (induction L w c mid n a ps rule: scan_parts.induct)
     (auto simp: Let_def case_prod_beta split: sum.split prod.split)

lemma resolve_thread_view:
  "db_ResolveThread s tid u acc refs k d = Inr (t, s') \<Longrightarrow> mail_view s' = mail_view s"
  by (auto simp: db_ResolveThread_def mail_view_def split: option.splits if_splits)

text \<open>The contract of the external scanner, if one is installed, carries over.\<close>

definition ext_ok :: "lib \<Rightarrow> bool" where
  "ext_ok L = (case ext_scanner L of None \<Rightarrow> True | Some s \<Rightarrow> attachment_scanner s)"

lemma ScanAttachment_contract: "ext_ok L \<Longrightarrow> attachment_scanner (ScanAttachment L a)"
  using heuristic.stored_iff_not_blocked [of L "NewHeuristic L (Attachments (cfg a))"]
    heuristic.decided [of L "NewHeuristic L (Attachments (cfg a))"]
  by (auto simp: attachment_scanner_def ScanAttachment_def Let_def ext_ok_def split: option.splits)

lemma scan_parts_blocked:
  assumes "ext_ok L"
  shows "att \<in> set (fst (scan_parts L w c mid n a ps)) \<Longrightarrow> at_ScanStatus att = ScanBlocked \<Longrightarrow>
     at_StorageURI att = [] \<and> at_Hash att = []"
  using ScanAttachment_contract [OF assms]
  by (induction ps arbitrary: n a)
     (auto simp: Let_def case_prod_beta attachment_scanner_def split: sum.splits prod.splits)

lemma storeMessage_cases:
  obtains (failed) e where "fst (storeMessage L w a c acc raw h parsed uidl mb) = Inl e"
      "mail_view (st (snd (storeMessage L w a c acc raw h parsed uidl mb))) = mail_view (st a)"
  | (dup) s i where "fst (storeMessage L w a c acc raw h parsed uidl mb) = Inr None"
      "mail_view s = mail_view (st a)"
      "st (snd (storeMessage L w a c acc raw h parsed uidl mb)) = db_AddCheckpoint s (a_ID acc) uidl i"
  | (stored) u t a1 body a2 s where
      "mail_view (st a2) = mail_view (st a)"
      "(fst (scan_parts L w c (new_id w ''msg'' 0) 0 a1 (pm_Attachments parsed)), a2) =
         scan_parts L w c (new_id w ''msg'' 0) 0 a1 (pm_Attachments parsed)"
      "db_InsertMessage (st a2) (now w) (new_message w acc raw h u t parsed uidl mb) body
         (fst (scan_parts L w c (new_id w ''msg'' 0) 0 a1 (pm_Attachments parsed))) = Inr s"
      "fst (storeMessage L w a c acc raw h parsed uidl mb) =
         Inr (Some (message_row (now w) (new_message w acc raw h u t parsed uidl mb), body))"
      "st (snd (storeMessage L w a c acc raw h parsed uidl mb)) =
         db_AddCheckpoint s (a_ID acc) uidl (new_id w ''msg'' 0)"
proof (cases "obj_Put L (objects a) ''raw'' raw")
  case (Inl e)
  then show thesis by (intro failed [of e]) (simp_all add: storeMessage_def)
next
  case (Inr r)
  obtain u hh n m1 where r: "r = (u, hh, n, m1)" by (cases r)
  define refs where "refs = ReferenceIDs (pm_References parsed) (pm_InReplyTo parsed)"
  obtain t s1 where ts: "(case db_ResolveThread (st a) (new_id w ''thr'' 0) (a_UserID acc) (a_ID acc) refs
        (SubjectKey L (pm_Subject parsed)) (pm_Date parsed) of Inl e \<Rightarrow> ([], st a) | Inr r \<Rightarrow> r) = (t, s1)"
    by fastforce
  then have v1: "mail_view s1 = mail_view (st a)"
    by (auto split: sum.splits dest: resolve_thread_view)
  define a1 where "a1 = a\<lparr>objects := m1, st := s1\<rparr>"
  then have st_a1: "st a1 = s1" by simp
  obtain atts a2 where sp: "scan_parts L w c (new_id w ''msg'' 0) 0 a1 (pm_Attachments parsed) = (atts, a2)"
    by fastforce
  have v2: "mail_view (st a2) = mail_view (st a)"
    using scan_parts_view [of L w c "new_id w ''msg'' 0" 0 a1 "pm_Attachments parsed"] v1
    by (simp add: sp st_a1)
  define body where "body = \<lparr>b_MessageID = new_id w ''msg'' 0, b_TextBody = pm_TextBody parsed,
     b_HTMLSanitized = pm_HTMLSafe parsed, b_Charset = pm_Charset parsed\<rparr>"
  have mid [simp]: "m_ID (new_message w acc raw h u t parsed uidl mb) = new_id w ''msg'' 0"
    by (simp add: new_message_def)
  have eq: "storeMessage L w a c acc raw h parsed uidl mb =
      (case db_InsertMessage (st a2) (now w) (new_message w acc raw h u t parsed uidl mb) body atts of
         Inl e \<Rightarrow> if Contains (err_text e) ''UNIQUE''
                  then (Inr None, a2\<lparr>st := db_AddCheckpoint (st a2) (a_ID acc) uidl (new_id w ''msg'' 0)\<rparr>)
                  else (Inl e, a2)
       | Inr s2 \<Rightarrow> (Inr (Some (message_row (now w) (new_message w acc raw h u t parsed uidl mb), body)),
                    a2\<lparr>st := db_AddCheckpoint s2 (a_ID acc) uidl (new_id w ''msg'' 0)\<rparr>))"
    using ts sp by (simp add: storeMessage_def Inr r Let_def refs_def body_def a1_def cong: sum.case_cong if_cong)
  show thesis
  proof (cases "db_InsertMessage (st a2) (now w) (new_message w acc raw h u t parsed uidl mb) body atts")
    case (Inl e)
    show thesis
    proof (cases "Contains (err_text e) ''UNIQUE''")
      case True
      with Inl v2 show thesis by (intro dup [of "st a2" "new_id w ''msg'' 0"]) (simp_all add: eq)
    next
      case False
      with Inl v2 show thesis by (intro failed [of e]) (simp_all add: eq)
    qed
  next
    case (Inr s)
    with v2 sp show thesis by (intro stored [of a2 a1 u t body s]) (simp_all add: eq)
  qed
qed

lemma storeMessage_inv:
  assumes "mail_inv (st a)"
  shows "mail_inv (st (snd (storeMessage L w a c acc raw h parsed uidl mb)))"
proof (cases rule: storeMessage_cases [of L w a c acc raw h parsed uidl mb])
  case (failed e)
  with assms show ?thesis using mail_view_inv by blast
next
  case (dup s i)
  from mail_view_inv [OF dup(2)] assms show ?thesis by (simp add: dup(3))
next
  case (stored u t a1 body a2 s)
  from mail_view_inv [OF stored(1)] assms have "mail_inv (st a2)" by simp
  from mail_inv_insert [OF this stored(3)] show ?thesis by (simp add: stored(5))
qed

lemma storeMessage_checkpoint:
  assumes "fst (storeMessage L w a c acc raw h parsed uidl mb) = Inr r"
  shows "db_HasCheckpoint (st (snd (storeMessage L w a c acc raw h parsed uidl mb))) (a_ID acc) uidl"
  using assms by (cases rule: storeMessage_cases [of L w a c acc raw h parsed uidl mb]) simp_all

section \<open>Rules leave the checkpoints alone\<close>

lemma delete_checkpoints: "db_DeleteMessage s u i = Inr (o', s') \<Longrightarrow> checkpoints s' = checkpoints s"
  by (auto simp: db_DeleteMessage_def Let_def split: option.splits)

lemma LocalDelete_checkpoints [simp]:
  "checkpoints (st (snd (LocalDelete L w a c i))) = checkpoints (st a)"
proof -
  have "checkpoints (st (snd (delete_gate L w a c))) = checkpoints (st a)"
    using delete_gate_state [of L w a c] by auto
  then show ?thesis
    by (cases rule: LocalDelete_cases [of L w a c i]) (auto dest: delete_checkpoints)
qed

lemma run_actions_checkpoints [simp]:
  "checkpoints (st (snd (run_actions L w a c m ch names xs))) = checkpoints (st a)"
  by (induction xs arbitrary: m ch names) (simp_all add: case_prod_beta split: option.split)

lemma finish_rules_checkpoints [simp]:
  "checkpoints (st (snd (finish_rules a m ch matched))) = checkpoints (st a)"
  by (auto simp: finish_rules_def Let_def dest: update_keys(4) split: sum.split)

lemma run_rules_checkpoints:
  "checkpoints (st (snd (run_rules L w a c body m ch matched rs))) = checkpoints (st a)"
proof (induction rs arbitrary: a m ch matched)
  case (Cons r rs)
  obtain out a' where ra: "run_actions L w a c m ch [] (r_Actions r) = (out, a')"
    by (cases "run_actions L w a c m ch [] (r_Actions r)")
  then have "checkpoints (st a') = checkpoints (st a)" using run_actions_checkpoints by (metis snd_conv)
  with Cons ra show ?case by (cases out) (simp_all add: Let_def)
qed simp

lemma run_rules_inv:
  "mail_inv (st a) \<Longrightarrow> mail_inv (st (snd (run_rules L w a c body m ch matched rs)))"
proof (induction rs arbitrary: a m ch matched)
  case Nil
  then show ?case by (auto simp: finish_rules_def Let_def dest: mail_inv_update split: sum.split)
next
  case (Cons r rs)
  obtain out a' where ra: "run_actions L w a c m ch [] (r_Actions r) = (out, a')"
    by (cases "run_actions L w a c m ch [] (r_Actions r)")
  with Cons.prems have inv: "mail_inv (st a')"
    using run_actions_step [of a c L w m ch "[]" "r_Actions r"] by (simp add: mail_step_def)
  then have "mail_inv (st (snd (finish_rules a' m' ch' x)))" for m' ch' x
    by (auto simp: finish_rules_def Let_def dest: mail_inv_update split: sum.split)
  with Cons ra inv show ?case by (cases out) (simp_all add: Let_def)
qed

lemma ingest_rules_checkpoints [simp]:
  "checkpoints (st (evaluateRulesOnIngest L w a c m b)) = checkpoints (st a)"
  using run_rules_checkpoints [of L w a c "Some b" m False "[]" "db_ListRules (st a) (m_UserID m)"]
  by (auto simp: evaluateRulesOnIngest_def evaluateRules_def Let_def split: prod.splits option.splits)

lemma ingest_rules_inv: "mail_inv (st a) \<Longrightarrow> mail_inv (st (evaluateRulesOnIngest L w a c m b))"
  using run_rules_inv [of a L w c "Some b" m False "[]" "db_ListRules (st a) (m_UserID m)"]
  by (auto simp: evaluateRulesOnIngest_def evaluateRules_def Let_def split: prod.splits option.splits)

lemma HasCheckpoint_cong: "checkpoints s' = checkpoints s \<Longrightarrow> db_HasCheckpoint s' x y = db_HasCheckpoint s x y"
  by (simp add: db_HasCheckpoint_def)

lemma ingest_ok_checkpoint:
  assumes "ingestOne L w a c (Inr bytes) acc rm True stats mailbox = (None, stats', a')"
    and "rm_UIDL rm \<noteq> []" and "sy_Oversize stats' = sy_Oversize stats"
  shows "db_HasCheckpoint (st a') (a_ID acc) (rm_UIDL rm) \<and> (mail_inv (st a) \<longrightarrow> mail_inv (st a'))"
proof -
  define raw where "raw = take (nat (rawReadLimit (MaxMessageBytes (cfg a)))) bytes"
  define h where "h = hex (sha256 L raw)"
  let ?sm = "storeMessage L w a c acc raw h (parse_mail L raw) (rm_UIDL rm) mailbox"
  have len: "min (length bytes) (nat (rawReadLimit (MaxMessageBytes (cfg a)))) = length raw"
    by (simp add: raw_def)
  have size: "\<not> (MaxMessageBytes (cfg a) > 0 \<and> int (length raw) > MaxMessageBytes (cfg a))"
    using assms(1,3) by (auto simp: ingestOne_def Let_def raw_def)
  show ?thesis
  proof (cases "db_IsDuplicateHash (st a) (a_ID acc) h \<or>
      (mailbox = MailboxSent \<and> db_HasSentCopy (st a) (a_ID acc) (pm_MessageID (parse_mail L raw)))")
    case True
    then have "st a' = db_AddCheckpoint (st a) (a_ID acc) (rm_UIDL rm) []"
      using assms(1,2) size
      by (auto simp: ingestOne_def Let_def raw_def [symmetric] h_def [symmetric] len split: if_splits)
    then show ?thesis by simp
  next
    case False
    obtain r a1 where sm: "?sm = (r, a1)" by (cases ?sm)
    with False have r: "\<exists>x. r = Inr x" and a': "checkpoints (st a') = checkpoints (st a1)"
        "mail_inv (st a1) \<longrightarrow> mail_inv (st a')"
      using assms(1,2) size
      by (auto simp: ingestOne_def Let_def raw_def [symmetric] h_def [symmetric] len ingest_rules_inv
          split: if_splits sum.splits option.splits)
    have "db_HasCheckpoint (st a1) (a_ID acc) (rm_UIDL rm)"
      using storeMessage_checkpoint [of L w a c acc raw h "parse_mail L raw" "rm_UIDL rm" mailbox] r
      by (auto simp: sm)
    moreover have "mail_inv (st a) \<longrightarrow> mail_inv (st a1)"
      using storeMessage_inv [of a L w c acc raw h "parse_mail L raw" "rm_UIDL rm" mailbox]
      by (simp add: sm)
    ultimately show ?thesis using a' HasCheckpoint_cong by blast
  qed
qed

section \<open>Properties\<close>

text \<open>
  The read limit never cuts a message short: with a size limit in force a message is refused
  as oversize exactly when the whole of it is longer than the limit, and every message that is not
  refused is read completely, for every limit an \<open>int64\<close> can hold.
\<close>

theorem rawReadLimit_never_truncates:
  assumes "maxBytes \<le> max_int64" and "int (length bytes) \<le> max_int64"
    and "raw = take (nat (rawReadLimit maxBytes)) bytes"
  shows "(maxBytes > 0 \<and> int (length raw) > maxBytes \<longleftrightarrow> maxBytes > 0 \<and> int (length bytes) > maxBytes) \<and>
         (\<not> (maxBytes > 0 \<and> int (length raw) > maxBytes) \<longrightarrow> raw = bytes)"
proof (cases "maxBytes \<le> 0 \<or> maxBytes = max_int64")
  case True
  then have "raw = bytes" using assms by (simp add: rawReadLimit_def nat_le_iff le_nat_iff)
  then show ?thesis by simp
next
  case False
  then show ?thesis using assms by (auto simp: rawReadLimit_def min_def nat_le_iff le_nat_iff)
qed

theorem rawReadLimit_never_truncates_witness:
  "take (nat (rawReadLimit 0)) ''mail'' = ''mail''"
  using rawReadLimit_never_truncates [of 0 "''mail''" "take (nat (rawReadLimit 0)) ''mail''"]
  by (simp add: max_int64_def)

text \<open>
  When the ingestion of a message with a UIDL ends without an error and the message is not
  oversize, the account has a checkpoint for it, so the next sync does not fetch it again; this
  holds for new messages, for duplicates, and when an automation rule deleted the message at once.
  The schema invariant is kept.
\<close>

theorem ingest_checkpoints_message:
  assumes "mail_inv (st a)"
    and "ingestOne L w a c (Inr bytes) acc rm True stats mailbox = (None, stats', a')"
    and "rm_UIDL rm \<noteq> []" and "sy_Oversize stats' = sy_Oversize stats"
  shows "db_HasCheckpoint (st a') (a_ID acc) (rm_UIDL rm) \<and> mail_inv (st a')"
  using ingest_ok_checkpoint [OF assms(2-4)] assms(1) by blast

definition dup_app :: app where
  "dup_app = sample_app\<lparr>st := empty_store\<lparr>messages := [sample_message\<lparr>m_RawHash := ''6869''\<rparr>]\<rparr>\<rparr>"

theorem ingest_checkpoints_message_witness:
  "db_HasCheckpoint (st (dup_app\<lparr>st := db_AddCheckpoint (st dup_app) ''acc_1'' ''u9'' []\<rparr>)) ''acc_1'' ''u9''"
proof -
  let ?rm = "\<lparr>rm_Number = 1, rm_UIDL = ''u9'', rm_Size = 2\<rparr>"
  let ?z = "\<lparr>sy_Seen = 0, sy_New = 0, sy_Duplicate = 0, sy_Failed = 0, sy_Oversize = 0, sy_ParseError = 0\<rparr>"
  have h: "hex (sha256 sample_lib ''hi'') = ''6869''" by code_simp
  have cap: "MaxMessageBytes (cfg dup_app) = 1000000" "nat (rawReadLimit 1000000) = 1000001"
    by (simp_all add: dup_app_def sample_app_def sample_cfg_def rawReadLimit_def max_int64_def)
  have dup: "db_IsDuplicateHash (st dup_app) (a_ID sample_account) ''6869''"
    by (simp add: db_IsDuplicateHash_def dup_app_def sample_message_def sample_account_def)
  have "mail_inv (st dup_app)" by (simp add: dup_app_def mail_inv_def empty_store_def)
  moreover have "ingestOne sample_lib sample_io dup_app (sample_ctx ''scheduler'' []) (Inr ''hi'')
      sample_account ?rm True ?z MailboxInbox =
      (None, ?z\<lparr>sy_Duplicate := 1\<rparr>, dup_app\<lparr>st := db_AddCheckpoint (st dup_app) (a_ID sample_account) ''u9'' []\<rparr>)"
    by (simp add: ingestOne_def Let_def cap h dup)
  ultimately show ?thesis
    using ingest_checkpoints_message [of dup_app sample_lib sample_io "sample_ctx ''scheduler'' []"
        "''hi''" sample_account ?rm ?z MailboxInbox] by (simp add: sample_account_def)
qed

text \<open>
  Content that the scanner blocks is never retained: the attachment rows of a stored message
  whose status is blocked have no address in the object store.  An external scanner must keep the
  contract of its port.
\<close>

theorem blocked_attachments_not_retained:
  assumes "mail_inv (st a)" and "ext_ok L"
    and "storeMessage L w a c acc raw h parsed uidl mb = (Inr (Some (m, b)), a')"
    and "x \<in> set (attachments (st a'))" and "at_MessageID x = m_ID m" and "at_ScanStatus x = ScanBlocked"
  shows "at_StorageURI x = [] \<and> at_Hash x = []"
proof (cases rule: storeMessage_cases [of L w a c acc raw h parsed uidl mb])
  case (stored u t a1 body a2 s)
  let ?m = "new_message w acc raw h u t parsed uidl mb"
  let ?atts = "fst (scan_parts L w c (new_id w ''msg'' 0) 0 a1 (pm_Attachments parsed))"
  from mail_view_inv [OF stored(1)] assms(1) have inv: "mail_inv (st a2)" by simp
  note ins = insert_ok [OF stored(3)]
  have m: "m_ID m = m_ID ?m" using stored(4) assms(3) by simp
  have "x \<notin> set (attachments (st a2))"
  proof
    assume "x \<in> set (attachments (st a2))"
    then have "m_ID ?m \<in> m_ID ` set (messages (st a2))"
      using inv assms(5) m unfolding mail_inv_def by (metis image_subset_iff)
    with ins(12) show False by simp
  qed
  moreover have "x \<in> set (attachments s)" using assms(3,4) stored(5) by simp
  ultimately obtain y where y: "y \<in> set ?atts" "x = y\<lparr>at_MessageID := m_ID ?m\<rparr>"
    by (auto simp: ins(3))
  with scan_parts_blocked [OF assms(2) y(1)] assms(6) show ?thesis by simp
qed (use assms(3) in simp_all)

definition exe_parsed :: Parsed where
  "exe_parsed = sample_parsed\<lparr>pm_Subject := [], pm_Attachments :=
     [\<lparr>pa_Name = ''a.exe'', pa_MIMEType = [], pa_Inline = False, pa_Data = ''MZ''\<rparr>]\<rparr>"

lemma exe_blocked:
  "ScanAttachment sample_lib (sample_app\<lparr>objects := m, st := s\<rparr>)
     \<lparr>si_Name = ''a.exe'', si_MIMEType = [], si_Data = ''MZ''\<rparr> = scan_block ''blocked extension .exe''"
proof -
  have "Setting (sample_app\<lparr>objects := m, st := s\<rparr>) ''attachments.allow_extensions'' = []"
    "SettingInt (sample_app\<lparr>objects := m, st := s\<rparr>) ''attachments.max_bytes'' = 0"
    by (simp_all add: Setting_def SettingInt_def sample_app_def Atoi_def)
  moreover have "extOf sample_lib ''a.exe'' = ''exe''" by code_simp
  moreover have "''exe'' \<in> set (ext_set sample_lib [''exe''])" by code_simp
  ultimately show ?thesis
    by (simp add: ScanAttachment_def Scan_def Let_def NewHeuristic_def sample_app_def sample_cfg_def)
qed

lemma exe_stored:
  "\<exists>m b a'. storeMessage sample_lib sample_io sample_app (sample_ctx ''scheduler'' []) sample_account
      ''hi'' ''6869'' exe_parsed ''u1'' MailboxInbox = (Inr (Some (m, b)), a') \<and>
     (\<exists>x\<in>set (attachments (st a')). at_MessageID x = m_ID m \<and> at_ScanStatus x = ScanBlocked)"
proof -
  have "SubjectKey sample_lib [] = []" by code_simp
  moreover have "ReferenceIDs [] [] = []"
    by (simp add: ReferenceIDs_def Fields_def fields_from.simps space_runes_eval)
  moreover have "\<exists>u m. obj_Put sample_lib Map.empty ''raw'' ''hi'' = Inr (u, ''6869'', 2, m)"
  proof -
    have "hex (sha256 sample_lib ''hi'') = ''6869''" by code_simp
    then show ?thesis by (simp add: obj_Put_def Let_def maxObjectBytes_def)
  qed
  then obtain u m where "obj_Put sample_lib Map.empty ''raw'' ''hi'' = Inr (u, ''6869'', 2, m)" by blast
  moreover have "objects sample_app = Map.empty" "st sample_app = empty_store"
    by (simp_all add: sample_app_def)
  ultimately show ?thesis
    by (simp add: storeMessage_def exe_parsed_def sample_parsed_def Let_def exe_blocked
          db_ResolveThread_def empty_store_def no_row_def db_InsertMessage_def new_message_def
          db_AddCheckpoint_def db_HasCheckpoint_def sample_io_def message_row_def)
qed

theorem blocked_attachments_not_retained_witness:
  "\<exists>m b a' x. storeMessage sample_lib sample_io sample_app (sample_ctx ''scheduler'' []) sample_account
      ''hi'' ''6869'' exe_parsed ''u1'' MailboxInbox = (Inr (Some (m, b)), a') \<and>
     x \<in> set (attachments (st a')) \<and> at_ScanStatus x = ScanBlocked \<and> at_StorageURI x = []"
proof -
  obtain m b a' x where s: "storeMessage sample_lib sample_io sample_app (sample_ctx ''scheduler'' [])
      sample_account ''hi'' ''6869'' exe_parsed ''u1'' MailboxInbox = (Inr (Some (m, b)), a')"
    and x: "x \<in> set (attachments (st a'))" "at_MessageID x = m_ID m" "at_ScanStatus x = ScanBlocked"
    using exe_stored by blast
  have "mail_inv (st sample_app)" by (simp add: sample_app_def mail_inv_def empty_store_def)
  moreover have "ext_ok sample_lib" by (simp add: ext_ok_def sample_lib_def)
  ultimately show ?thesis
    using blocked_attachments_not_retained [OF _ _ s x] s x by blast
qed
end
