(* ===== verification/Send_Mail.thy ===== *)
theory Send_Mail
  imports Outgoing_Policy Mail_Ingest
begin

text \<open>
  Sending: the MIME text, one delivery attempt, the outbox state machine and the retry worker
  (\<open>src/internal/application/send.go\<close>, \<open>ProcessRetries\<close> of \<open>scheduler.go\<close>, and the outbox diagnostics
  of \<open>provider_diagnostics.go\<close>).

  The SMTP client is the function \<open>smtp_send\<close> of the world; every call is recorded in \<open>smtp_log\<close>.
\<close>

section \<open>MIME\<close>

definition crlf :: string where "crlf = [CHR 0x0D, CHR 0x0A]"

definition formatAddrList :: "lib \<Rightarrow> Address list \<Rightarrow> string" where
  "formatAddrList L xs = join '', '' (map (\<lambda>x. address_string L (ad_Name x) (ad_Email x)) xs)"

definition header_line :: "string \<Rightarrow> string \<Rightarrow> string" where
  "header_line k val = (if val = [] then [] else k @ '': '' @ val @ crlf)"

text \<open>The headers of one part, as \<open>multipart.Writer\<close> writes them, sorted by name.\<close>

definition part_text :: "lib \<Rightarrow> string \<Rightarrow> string \<Rightarrow> string \<Rightarrow> string" where
  "part_text L boundary media val =
     ''--'' @ boundary @ crlf @ ''Content-Transfer-Encoding: quoted-printable'' @ crlf
     @ ''Content-Type: '' @ media @ ''; charset=utf-8'' @ crlf @ crlf @ qp_encode L val"

definition buildMIME ::
  "lib \<Rightarrow> io \<Rightarrow> MailAccount \<Rightarrow> DraftVersion \<Rightarrow> string \<Rightarrow> string \<Rightarrow> string \<Rightarrow> string" where
  "buildMIME L w acc v msgID inReplyTo references =
     (let (bodyText, bodyHTML) = draftSendBodies L v;
          head = header_line ''From'' (address_string L (a_Name acc) (a_Email acc))
               @ header_line ''To'' (formatAddrList L (v_To v))
               @ header_line ''Cc'' (formatAddrList L (v_Cc v))
               @ header_line ''Subject'' (q_encode L (v_Subject v))
               @ header_line ''Date'' (date_header w)
               @ header_line ''Message-ID'' msgID
               @ header_line ''In-Reply-To'' inReplyTo
               @ header_line ''References'' references
               @ header_line ''MIME-Version'' ''1.0''
      in if bodyHTML \<noteq> []
         then head
            @ header_line ''Content-Type'' (''multipart/alternative; boundary='' @ mime_boundary w)
            @ crlf @ part_text L (mime_boundary w) ''text/plain'' bodyText
            @ crlf @ part_text L (mime_boundary w) ''text/html'' bodyHTML
            @ crlf @ ''--'' @ mime_boundary w @ ''--'' @ crlf
         else head
            @ header_line ''Content-Type''
                (''text/plain; charset='' @ [CHR 0x22] @ ''utf-8'' @ [CHR 0x22])
            @ header_line ''Content-Transfer-Encoding'' ''quoted-printable''
            @ crlf @ qp_encode L bodyText @ crlf)"

section \<open>The sent copy\<close>

definition bccHeader :: "lib \<Rightarrow> Address list \<Rightarrow> string" where
  "bccHeader L bcc =
     (let parts = map (\<lambda>b. address_string L (ad_Name b) (ad_Email b))
                    (filter (\<lambda>b. parse_address_ok L (ad_Email b)) bcc)
      in if parts = [] then [] else ''Bcc: '' @ join '', '' parts @ crlf)"

definition sentCheckpointPrefix :: string where "sentCheckpointPrefix = ''sent:''"

definition recordSentCopy ::
  "lib \<Rightarrow> io \<Rightarrow> app \<Rightarrow> ctx \<Rightarrow> MailAccount \<Rightarrow> OutboundMessage \<Rightarrow> string \<Rightarrow> Address list \<Rightarrow> app" where
  "recordSentCopy L w a c acc out raw0 bcc =
     (let raw = bccHeader L bcc @ raw0;
          rawHash = hex (sha256 L raw);
          parsed = parse_mail L raw
      in if db_IsDuplicateHash (st a) (a_ID acc) rawHash then a
         else if db_HasSentCopy (st a) (a_ID acc) (pm_MessageID parsed) then a
         else snd (storeMessage L w a c acc raw rawHash parsed
                     (sentCheckpointPrefix @ ''outbound:'' @ o_ID out) MailboxSent))"

section \<open>One delivery attempt\<close>

definition replyContext :: "store \<Rightarrow> ctx \<Rightarrow> string \<Rightarrow> Message option" where
  "replyContext s c draftID =
     (case db_GetDraft s (userIDFrom c) draftID of
        Inl e \<Rightarrow> None
      | Inr (d, v) \<Rightarrow>
          if d_ReplyToMessageID d = [] then None
          else case db_GetMessage s (userIDFrom c) (d_ReplyToMessageID d) of
                 Inl e \<Rightarrow> None | Inr m \<Rightarrow> Some m)"

text \<open>The attachments of a delivery: their bytes by id, and the text that is checked for leaks.\<close>

fun load_attachments ::
  "lib \<Rightarrow> app \<Rightarrow> (string \<rightharpoonup> string) \<Rightarrow> string \<Rightarrow> DraftAttachment list
     \<Rightarrow> err + ((string \<rightharpoonup> string) \<times> string)" where
  "load_attachments L a data txt0 [] = Inr (data, txt0)"
| "load_attachments L a data txt0 (x # xs) =
     (case readDraftAttachment L a x of
        Inl e \<Rightarrow> Inl e
      | Inr d \<Rightarrow> load_attachments L a (data(da_ID x \<mapsto> d)) (txt0 @ nl @ attachmentPolicyText x d) xs)"

definition no_receipt :: SendReceipt where
  "no_receipt = \<lparr>rc_ServerResponse = [], rc_Uncertain = False\<rparr>"

definition smtp_options :: "app \<Rightarrow> MailAccount \<Rightarrow> string option \<Rightarrow> SMTPSendOptions" where
  "smtp_options a acc secret =
     \<lparr>so_Host = a_SMTPHost acc, so_Port = a_SMTPPort acc, so_Security = a_SMTPSecurity acc,
      so_AuthMethod = a_SMTPAuth acc, so_Username = a_SMTPUsername acc, so_Password = secret,
      so_InsecureSkipVerify = a_InsecureSkipVerify acc, so_ConnectTimeoutSec = ConnectTimeoutSec (cfg a)\<rparr>"

text \<open>The message text of a delivery, with the reply headers of the draft.\<close>

definition delivery_text ::
  "lib \<Rightarrow> io \<Rightarrow> app \<Rightarrow> ctx \<Rightarrow> OutboundMessage \<Rightarrow> MailAccount \<Rightarrow> DraftVersion \<Rightarrow> (string \<rightharpoonup> string)
     \<Rightarrow> err + string" where
  "delivery_text L w a c out acc v data =
     (let (inReplyTo, references) =
            (case replyContext (st a) c (o_DraftID out) of
               Some orig \<Rightarrow>
                 if m_MessageID orig \<noteq> []
                 then (m_MessageID orig, TrimSpace (m_References orig @ '' '' @ m_MessageID orig))
                 else ([], [])
             | None \<Rightarrow> ([], []))
      in if v_Attachments v \<noteq> []
         then attachment_mime L acc v (o_MessageID out) inReplyTo references data
         else Inr (buildMIME L w acc v (o_MessageID out) inReplyTo references))"

text \<open>The password: only fetched when the account has a secret and authenticates.\<close>

definition delivery_secret :: "io \<Rightarrow> app \<Rightarrow> MailAccount \<Rightarrow> err + (string option \<times> app)" where
  "delivery_secret w a acc =
     (if a_SMTPSecret acc \<noteq> [] \<and> a_SMTPAuth acc \<noteq> ''none''
      then (case acquire_secret w (a_SMTPSecret acc) of
              Inl e \<Rightarrow> Inl e
            | Inr p \<Rightarrow> Inr (Some p, a\<lparr>st := db_TouchCredential (st a) (now w) (a_SMTPSecret acc)\<rparr>))
      else Inr (None, a))"

definition transmit ::
  "lib \<Rightarrow> io \<Rightarrow> app \<Rightarrow> ctx \<Rightarrow> OutboundMessage \<Rightarrow> MailAccount \<Rightarrow> DraftVersion \<Rightarrow> string option \<Rightarrow> string
     \<Rightarrow> (SendReceipt \<times> err option) \<times> app" where
  "transmit L w a c out acc v secret raw =
     (let opts = smtp_options a acc secret;
          env = \<lparr>env_From = a_Email acc, env_To = emails (v_To v) @ emails (v_Cc v) @ emails (v_Bcc v)\<rparr>;
          (receipt, e) = smtp_send w opts env raw;
          a1 = a\<lparr>smtp_log := smtp_log a @ [(opts, env, raw)]\<rparr>
      in ((receipt, e),
          if e = None \<and> \<not> rc_Uncertain receipt then recordSentCopy L w a1 c acc out raw (v_Bcc v) else a1))"

definition deliver ::
  "lib \<Rightarrow> io \<Rightarrow> app \<Rightarrow> ctx \<Rightarrow> OutboundMessage \<Rightarrow> MailAccount \<Rightarrow> DraftVersion
     \<Rightarrow> (SendReceipt \<times> err option) \<times> app" where
  "deliver L w a c out acc v =
     (case enforceSendPolicy L a acc v of
        Some e \<Rightarrow> ((no_receipt, Some e), a)
      | None \<Rightarrow>
          (case enforceDLP L a acc v of
             Some e \<Rightarrow> ((no_receipt, Some e), a)
           | None \<Rightarrow>
               (case load_attachments L a Map.empty (draftPolicyText L v) (v_Attachments v) of
                  Inl e \<Rightarrow> ((no_receipt, Some e), a)
                | Inr (data, policy) \<Rightarrow>
                    (case enforceDLP L a acc (v\<lparr>v_BodyText := policy, v_BodyHTML := []\<rparr>) of
                       Some e \<Rightarrow> ((no_receipt, Some e), a)
                     | None \<Rightarrow>
                         (case delivery_text L w a c out acc v data of
                            Inl e \<Rightarrow> ((no_receipt, Some e), a)
                          | Inr raw \<Rightarrow>
                              (case delivery_secret w a acc of
                                 Inl e \<Rightarrow> ((no_receipt, Some e), a)
                               | Inr (secret, a1) \<Rightarrow> transmit L w a1 c out acc v secret raw))))))"

section \<open>The outcome\<close>

fun outboundDiagnostic :: "OutboundStatus \<Rightarrow> string" where
  "outboundDiagnostic OutboundQueued = []"
| "outboundDiagnostic OutboundSent = utf8 [
      83, 77, 84, 80, 32, 236, 132, 156, 235, 178, 132, 234, 176, 128, 32, 235, 169, 148, 236, 139,
      156, 236, 167, 128, 235, 165, 188, 32, 236, 136, 152, 235, 157, 189, 237, 150, 136, 236, 138,
      181, 235, 139, 136, 235, 139, 164, 46]"
| "outboundDiagnostic OutboundRetryWait = utf8 [
      236, 157, 188, 236, 139, 156, 236, 160, 129, 236, 157, 184, 32, 235, 176, 156, 236, 134, 161,
      32, 236, 139, 164, 237, 140, 168, 235, 161, 156, 32, 236, 158, 172, 236, 139, 156, 235, 143,
      132, 32, 235, 140, 128, 234, 184, 176, 32, 236, 164, 145, 236, 158, 133, 235, 139, 136, 235,
      139, 164, 46, 32, 236, 164, 145, 235, 179, 181, 32, 235, 176, 156, 236, 134, 161, 236, 157,
      132, 32, 236, 154, 148, 236, 178, 173, 237, 149, 152, 236, 167, 128, 32, 235, 167, 144, 234,
      179, 160, 32, 234, 178, 176, 234, 179, 188, 235, 165, 188, 32, 237, 153, 149, 236, 157, 184,
      237, 149, 152, 236, 132, 184, 236, 154, 148, 46]"
| "outboundDiagnostic OutboundUncertain = utf8 [
      236, 132, 156, 235, 178, 132, 32, 236, 136, 152, 235, 157, 189, 32, 236, 151, 172, 235, 182,
      128, 235, 165, 188, 32, 237, 153, 149, 236, 157, 184, 237, 149, 160, 32, 236, 136, 152, 32,
      236, 151, 134, 236, 138, 181, 235, 139, 136, 235, 139, 164, 46, 32, 236, 158, 144, 235, 143,
      153, 32, 236, 158, 172, 236, 139, 156, 235, 143, 132, 237, 149, 152, 236, 167, 128, 32, 236,
      149, 138, 236, 156, 188, 235, 175, 128, 235, 161, 156, 32, 234, 180, 128, 235, 166, 172, 236,
      158, 144, 236, 151, 144, 234, 178, 140, 32, 235, 176, 156, 236, 134, 161, 32, 73, 68, 235,
      165, 188, 32, 236, 160, 132, 235, 139, 172, 237, 149, 180, 32, 237, 153, 149, 236, 157, 184,
      237, 149, 152, 236, 132, 184, 236, 154, 148, 46]"
| "outboundDiagnostic OutboundFailed = utf8 [
      235, 169, 148, 236, 157, 188, 32, 235, 176, 156, 236, 134, 161, 236, 151, 144, 32, 236, 139,
      164, 237, 140, 168, 237, 150, 136, 236, 138, 181, 235, 139, 136, 235, 139, 164, 46, 32, 236,
      132, 156, 235, 178, 132, 32, 236, 151, 176, 234, 178, 176, 194, 183, 236, 157, 184, 236, 166,
      157, 194, 183, 236, 136, 152, 236, 139, 160, 236, 158, 144, 32, 235, 176, 143, 32, 235, 176,
      156, 236, 134, 161, 32, 236, 160, 149, 236, 177, 133, 236, 157, 132, 32, 237, 153, 149, 236,
      157, 184, 237, 149, 152, 236, 132, 184, 236, 154, 148, 46]"

definition safeOutbound :: "OutboundMessage \<Rightarrow> OutboundMessage" where
  "safeOutbound out = out\<lparr>o_SMTPResponse := outboundDiagnostic (o_Status out)\<rparr>"

fun isTemporary :: "err \<Rightarrow> bool" where
  "isTemporary (TemporaryError m) = True"
| "isTemporary e = False"

text \<open>\<open>d *= 2\<close>, \<open>n\<close> times, in an \<open>int64\<close>.\<close>

fun double_loop :: "nat \<Rightarrow> int \<Rightarrow> int" where
  "double_loop 0 d = d"
| "double_loop (Suc n) d = double_loop n (wrap64 (d * 2))"

definition retryBackoff :: "app \<Rightarrow> int \<Rightarrow> int" where
  "retryBackoff a attempt =
     (let base = seconds (RetryBaseSeconds (config.Send (cfg a)));
          d = double_loop (nat (attempt - 1)) base;
          mx = seconds (RetryMaxSeconds (config.Send (cfg a)))
      in if mx > 0 \<and> d > mx then mx else d)"

definition max_retries :: "app \<Rightarrow> int" where
  "max_retries a =
     (let n = MaxRetries (config.Send (cfg a)) in if n \<le> 0 then 1 else n)"

definition applySendResult ::
  "io \<Rightarrow> app \<Rightarrow> ctx \<Rightarrow> OutboundMessage \<Rightarrow> string \<Rightarrow> SendReceipt \<Rightarrow> err option \<Rightarrow> OutboundMessage \<times> app" where
  "applySendResult w a c out0 draftID receipt sendErr =
     (let attempts = o_Attempts out0 + 1;
          out = out0\<lparr>o_Attempts := attempts\<rparr>;
          res = ''draft:'' @ draftID;
          update = (\<lambda>status. a\<lparr>st := db_UpdateOutbound (st a) (now w) (o_ID out) status
                                     (outboundDiagnostic status) attempts\<rparr>);
          finish = (\<lambda>status. out\<lparr>o_Status := status, o_SMTPResponse := outboundDiagnostic status\<rparr>)
      in case sendErr of
           Some e \<Rightarrow>
             if isTemporary e \<and> attempts < max_retries a then
               (let next = unix_after w (retryBackoff a attempts)
                in ((finish OutboundRetryWait)\<lparr>o_NextAttemptAt := next\<rparr>,
                    app_audit (a\<lparr>st := db_MarkOutboundRetry (st a) (now w) (o_ID out)
                                 (outboundDiagnostic OutboundRetryWait) attempts next\<rparr>)
                      w c ''mail_send'' res ''retry_scheduled''
                      (''attempt='' @ fmt_d attempts @ '' next='' @ fmt_d next)))
             else if isTemporary e then
               (finish OutboundFailed,
                app_audit (update OutboundFailed) w c ''mail_send'' res ''failed'' ''retries exhausted'')
             else
               (finish OutboundFailed,
                app_audit (update OutboundFailed) w c ''mail_send'' res ''error''
                  (outboundDiagnostic OutboundFailed))
         | None \<Rightarrow>
             if rc_Uncertain receipt then
               (finish OutboundUncertain,
                app_audit (update OutboundUncertain) w c ''mail_send'' res ''uncertain''
                  ''response lost after DATA'')
             else
               (finish OutboundSent,
                app_audit ((update OutboundSent)\<lparr>st := db_SetDraftStatus (st (update OutboundSent)) (now w)
                              (userIDFrom c) draftID DraftSent\<rparr>)
                  w c ''mail_send'' res ''ok'' (''outbound='' @ o_ID out)))"

fun sendResultLabel :: "OutboundStatus \<Rightarrow> string" where
  "sendResultLabel OutboundSent = ''sent''"
| "sendResultLabel OutboundRetryWait = ''deferred''"
| "sendResultLabel OutboundUncertain = ''uncertain''"
| "sendResultLabel OutboundFailed = ''failed''"
| "sendResultLabel OutboundQueued = ''unknown''"

section \<open>Sending a draft\<close>

record SendInput =
  in_DraftID :: string
  in_ApprovalToken :: string
  in_IdempotencyKey :: string

definition idem_key :: "SendInput \<Rightarrow> Draft \<Rightarrow> DraftVersion \<Rightarrow> string" where
  "idem_key inp d v =
     (if in_IdempotencyKey inp = [] then ''draft:'' @ d_ID d @ '':v'' @ fmt_d (v_Version v)
      else in_IdempotencyKey inp)"

text \<open>The checks before the approval is touched; \<open>True\<close> marks the two that are audited.\<close>

definition send_refused ::
  "lib \<Rightarrow> app \<Rightarrow> MailAccount \<Rightarrow> DraftVersion \<Rightarrow> (bool \<times> err) option" where
  "send_refused L a acc v =
     (if a_Status acc \<noteq> AccountActive
      then Some (False, UserError (''account '' @ a_ID acc @ '' is '' @ account_status_text (a_Status acc)
                   @ ''; sending blocked''))
      else case validateDraftForSend L acc v of
             Some e \<Rightarrow> Some (False, e)
           | None \<Rightarrow>
               (case enforceSendPolicy L a acc v of
                  Some e \<Rightarrow> Some (False, e)
                | None \<Rightarrow>
                    (case enforceDraftDLP L a acc v of
                       Some e \<Rightarrow> Some (True, e)
                     | None \<Rightarrow> None)))"

definition new_outbound :: "io \<Rightarrow> ctx \<Rightarrow> Draft \<Rightarrow> DraftVersion \<Rightarrow> string \<Rightarrow> OutboundMessage" where
  "new_outbound w c d v key =
     \<lparr>o_ID = new_id w ''out'' 0, o_UserID = userIDFrom c, o_DraftID = d_ID d,
      o_DraftVersion = v_Version v, o_IdempotencyKey = key,
      o_MessageID = ''<'' @ rand_token w 16 @ ''@postra.local>'', o_Status = OutboundQueued,
      o_SMTPResponse = [], o_Attempts = 0, o_NextAttemptAt = 0, o_CreatedAt = 0, o_UpdatedAt = 0\<rparr>"

definition send_approved ::
  "lib \<Rightarrow> io \<Rightarrow> app \<Rightarrow> ctx \<Rightarrow> Draft \<Rightarrow> DraftVersion \<Rightarrow> MailAccount \<Rightarrow> string
     \<Rightarrow> (err + OutboundMessage) \<times> app" where
  "send_approved L w a c d v acc key =
     (let out = new_outbound w c d v key
      in case db_CreateOutbound (st a) (now w) out of
           Inl e \<Rightarrow> (Inl e, a)
         | Inr s' \<Rightarrow>
             (let out' = out\<lparr>o_CreatedAt := now w, o_UpdatedAt := now w\<rparr>;
                  ((receipt, e), a1) = deliver L w (a\<lparr>st := s'\<rparr>) c out' acc v;
                  (res, a2) = applySendResult w a1 c out' (d_ID d) receipt e
              in (Inr res, a2)))"

definition Send :: "lib \<Rightarrow> io \<Rightarrow> app \<Rightarrow> ctx \<Rightarrow> SendInput \<Rightarrow> (err + OutboundMessage) \<times> app" where
  "Send L w a c inp =
     (case db_GetDraft (st a) (userIDFrom c) (in_DraftID inp) of
        Inl e \<Rightarrow> (Inl e, a)
      | Inr (d, v) \<Rightarrow>
          (case GetAccount (st a) c (d_AccountID d) of
             Inl e \<Rightarrow> (Inl e, a)
           | Inr acc \<Rightarrow>
               (let denied = (\<lambda>a e. app_audit a w c ''mail_send'' (''draft:'' @ d_ID d) ''denied'' (err_text e))
                in case send_refused L a acc v of
                     Some (audited, e) \<Rightarrow> (Inl e, if audited then denied a e else a)
                   | None \<Rightarrow>
                       (case db_GetOutboundByIdemKey (st a) (userIDFrom c) (idem_key inp d v) of
                          Inr existing \<Rightarrow> (Inr (safeOutbound existing), a)
                        | Inl _ \<Rightarrow>
                            (case checkSendRate w a c (a_ID acc) of
                               Some e \<Rightarrow> (Inl e, denied a e)
                             | None \<Rightarrow>
                                 (case VerifyAndConsume L w a (in_ApprovalToken inp) (sendPayloadHash L acc v) of
                                    (Some e, a1) \<Rightarrow>
                                      (Inl (UserError (''send rejected: '' @ err_text e)), denied a1 e)
                                  | (None, a1) \<Rightarrow>
                                      send_approved L w a1 c d v acc (idem_key inp d v)))))))"

section \<open>The retry worker\<close>

definition retry_one :: "lib \<Rightarrow> io \<Rightarrow> ctx \<Rightarrow> app \<Rightarrow> OutboundMessage \<Rightarrow> app" where
  "retry_one L w c a out =
     (case db_GetDraft (st a) (o_UserID out) (o_DraftID out) of
        Inl e \<Rightarrow> a\<lparr>st := db_UpdateOutbound (st a) (now w) (o_ID out) OutboundFailed
                          ''draft unavailable for retry'' (o_Attempts out)\<rparr>
      | Inr (d, v) \<Rightarrow>
          (let vv = (case db_GetDraftVersion (st a) (o_UserID out) (o_DraftID out) (o_DraftVersion out) of
                       Inl e \<Rightarrow> v | Inr x \<Rightarrow> x)
           in case db_GetAccount (st a) (o_UserID out) (d_AccountID d) of
                Inl e \<Rightarrow> a\<lparr>st := db_UpdateOutbound (st a) (now w) (o_ID out) OutboundFailed
                                  ''account unavailable for retry'' (o_Attempts out)\<rparr>
              | Inr acc \<Rightarrow>
                  (let ((receipt, e), a1) = deliver L w a c out acc vv
                   in snd (applySendResult w a1 c out (o_DraftID out) receipt e))))"

text \<open>Each due row is attempted once, in its own world \<open>ws i\<close>.\<close>

fun retry_loop :: "lib \<Rightarrow> (nat \<Rightarrow> io) \<Rightarrow> nat \<Rightarrow> ctx \<Rightarrow> app \<Rightarrow> OutboundMessage list \<Rightarrow> app" where
  "retry_loop L ws i c a [] = a"
| "retry_loop L ws i c a (x # xs) = retry_loop L ws (Suc i) c (retry_one L (ws i) c a x) xs"

definition ProcessRetries :: "lib \<Rightarrow> (nat \<Rightarrow> io) \<Rightarrow> app \<Rightarrow> ctx \<Rightarrow> nat \<times> app" where
  "ProcessRetries L ws a c =
     (let due = db_ListDueRetries (st a) (now (ws 0)) 50
      in (length due, retry_loop L ws 0 (WithActor c ''worker'') a due))"

section \<open>Reading the outbox\<close>

record OutboundView =
  ov_Outbound :: OutboundMessage
  ov_Subject :: string
  ov_To :: "string list"

definition ListOutbound :: "app \<Rightarrow> ctx \<Rightarrow> int \<Rightarrow> OutboundView list" where
  "ListOutbound a c limit =
     map (\<lambda>out. case db_GetDraft (st a) (userIDFrom c) (o_DraftID out) of
                  Inl e \<Rightarrow> \<lparr>ov_Outbound = safeOutbound out, ov_Subject = [], ov_To = []\<rparr>
                | Inr (d, v) \<Rightarrow> \<lparr>ov_Outbound = safeOutbound out, ov_Subject = v_Subject v,
                                 ov_To = map ad_Email (v_To v)\<rparr>)
       (db_ListOutbound (st a) (userIDFrom c) limit)"

definition GetOutbound :: "app \<Rightarrow> ctx \<Rightarrow> string \<Rightarrow> err + OutboundMessage" where
  "GetOutbound a c oid =
     (case db_GetOutbound (st a) (userIDFrom c) oid of Inl e \<Rightarrow> Inl e | Inr r \<Rightarrow> Inr (safeOutbound r))"

end
