(* ===== verification/Outbox_Safety.thy ===== *)
theory Outbox_Safety
  imports Send_Mail
begin

text \<open>
  What the sending operations guarantee together: nothing reaches the SMTP client without a live
  approval for exactly that payload, an outcome is final, and a repeated request is answered from
  the outbox.
\<close>

section \<open>Frame lemmas\<close>

text \<open>Recording the sent copy and delivering touch none of the tables that sending decides on.\<close>

definition outbox_view where
  "outbox_view s = (outbound s, approvals s, drafts s, versions s, accounts s)"

lemma outbox_view_audit [simp]: "outbox_view (audit s n c x r y d) = outbox_view s"
  by (simp add: outbox_view_def)

lemma outbox_view_checkpoint [simp]: "outbox_view (db_AddCheckpoint s x u m) = outbox_view s"
  by (simp add: outbox_view_def db_AddCheckpoint_def)

lemma outbox_view_insert: "db_InsertMessage s t m b as = Inr s' \<Longrightarrow> outbox_view s' = outbox_view s"
  by (auto simp: db_InsertMessage_def outbox_view_def Let_def split: if_splits)

lemma outbox_view_thread:
  "db_ResolveThread s tid u x refs k d = Inr (t, s') \<Longrightarrow> outbox_view s' = outbox_view s"
  by (auto simp: db_ResolveThread_def outbox_view_def split: option.splits if_splits)

text \<open>What an operation leaves alone: those tables, the settings and the SMTP record.\<close>

definition app_view where
  "app_view a = (outbox_view (st a), cfg a, setting_values a, bound_values a, setting_defaults a, smtp_log a)"

lemma app_view_audit [simp]: "app_view (app_audit a w c x r y d) = app_view a"
  by (simp add: app_view_def)

lemma app_view_st [simp]: "outbox_view s = outbox_view (st a) \<Longrightarrow> app_view (a\<lparr>st := s\<rparr>) = app_view a"
  by (simp add: app_view_def)

lemma app_view_objects [simp]: "app_view (a\<lparr>objects := m\<rparr>) = app_view a"
  by (simp add: app_view_def)

lemma scan_parts_app_view: "app_view (snd (scan_parts L w c mid n a ps)) = app_view a"
  by (induction L w c mid n a ps rule: scan_parts.induct)
     (auto simp: Let_def case_prod_beta split: sum.split prod.split)

lemma storeMessage_app_view:
  "app_view (snd (storeMessage L w a c acc raw h parsed uidl mb)) = app_view a"
proof (cases "obj_Put L (objects a) ''raw'' raw")
  case (Inl e)
  then show ?thesis by (simp add: storeMessage_def)
next
  case (Inr r)
  obtain u hh n m1 where r: "r = (u, hh, n, m1)" by (cases r)
  define refs where "refs = ReferenceIDs (pm_References parsed) (pm_InReplyTo parsed)"
  obtain t s1 where ts: "(case db_ResolveThread (st a) (new_id w ''thr'' 0) (a_UserID acc) (a_ID acc) refs
        (SubjectKey L (pm_Subject parsed)) (pm_Date parsed) of Inl e \<Rightarrow> ([], st a) | Inr r \<Rightarrow> r) = (t, s1)"
    by fastforce
  then have v1: "outbox_view s1 = outbox_view (st a)"
    by (auto split: sum.splits dest: outbox_view_thread)
  define msg where "msg = new_message w acc raw h u t parsed uidl mb"
  obtain atts a2 where sp:
    "scan_parts L w c (m_ID msg) 0 (a\<lparr>objects := m1, st := s1\<rparr>) (pm_Attachments parsed) = (atts, a2)"
    by fastforce
  have v2: "app_view a2 = app_view a"
    using scan_parts_app_view [of L w c "m_ID msg" 0 "a\<lparr>objects := m1, st := s1\<rparr>" "pm_Attachments parsed"] v1
    by (simp add: sp app_view_def)
  define body where "body = \<lparr>b_MessageID = m_ID msg, b_TextBody = pm_TextBody parsed,
     b_HTMLSanitized = pm_HTMLSafe parsed, b_Charset = pm_Charset parsed\<rparr>"
  have "snd (storeMessage L w a c acc raw h parsed uidl mb) =
      (case db_InsertMessage (st a2) (now w) msg body atts of
         Inl e \<Rightarrow> if Contains (err_text e) ''UNIQUE''
                  then a2\<lparr>st := db_AddCheckpoint (st a2) (a_ID acc) uidl (m_ID msg)\<rparr> else a2
       | Inr s2 \<Rightarrow> a2\<lparr>st := db_AddCheckpoint s2 (a_ID acc) uidl (m_ID msg)\<rparr>)"
    using ts sp
    by (simp add: storeMessage_def Inr r Let_def refs_def body_def msg_def if_distrib
          cong: sum.case_cong if_cong split: sum.split)
  then show ?thesis
    using v2 by (auto split: sum.split dest: outbox_view_insert)
qed

lemma recordSentCopy_app_view: "app_view (recordSentCopy L w a c acc out raw bcc) = app_view a"
  by (simp add: recordSentCopy_def Let_def storeMessage_app_view)

text \<open>One attempt hands at most one message to the SMTP client, and only after every policy check.\<close>

lemma transmit_view:
  "app_view (snd (transmit L w a c out acc v secret raw)) =
     app_view (a\<lparr>smtp_log := smtp_log a @ [(smtp_options a acc secret,
        \<lparr>env_From = a_Email acc, env_To = emails (recipients v)\<rparr>, raw)]\<rparr>)"
  by (simp add: transmit_def Let_def case_prod_beta recordSentCopy_app_view emails_def recipients_def)

lemma secret_view: "delivery_secret w a acc = Inr (sec, a1) \<Longrightarrow> app_view a1 = app_view a"
  by (auto simp: delivery_secret_def db_TouchCredential_def app_view_def outbox_view_def
      split: if_splits sum.splits)

lemma deliver_cases:
  obtains (held) e where "fst (deliver L w a c out acc v) = (no_receipt, Some e)"
      "snd (deliver L w a c out acc v) = a"
  | (handed) sec raw a1 where "app_view a1 = app_view a" "enforceSendPolicy L a acc v = None"
      "enforceDLP L a acc v = None"
      "deliver L w a c out acc v = transmit L w a1 c out acc v sec raw"
proof (cases "enforceSendPolicy L a acc v")
  case (Some e)
  then show thesis by (intro held) (simp_all add: deliver_def)
next
  case pol: None
  show thesis
  proof (cases "enforceDLP L a acc v")
    case (Some e)
    with pol show thesis by (intro held) (simp_all add: deliver_def)
  next
    case dlp: None
    show thesis
    proof (cases "load_attachments L a Map.empty (draftPolicyText L v) (v_Attachments v)")
      case (Inl e)
      with pol dlp show thesis by (intro held) (simp_all add: deliver_def)
    next
      case (Inr r)
      obtain dt policy where r: "r = (dt, policy)" by (cases r)
      show thesis
      proof (cases "enforceDLP L a acc (v\<lparr>v_BodyText := policy, v_BodyHTML := []\<rparr>)")
        case (Some e)
        with pol dlp Inr r show thesis by (intro held) (simp_all add: deliver_def)
      next
        case dlp2: None
        show thesis
        proof (cases "delivery_text L w a c out acc v dt")
          case (Inl e)
          with pol dlp dlp2 Inr r show thesis by (intro held) (simp_all add: deliver_def)
        next
          case raw: (Inr raw)
          show thesis
          proof (cases "delivery_secret w a acc")
            case (Inl e)
            with pol dlp dlp2 Inr r raw show thesis by (intro held) (simp_all add: deliver_def)
          next
            case sec: (Inr x)
            obtain s a1 where x: "x = (s, a1)" by (cases x)
            show thesis
              by (rule handed [of a1 s raw])
                 (use pol dlp dlp2 Inr r raw sec x in \<open>simp_all add: deliver_def secret_view\<close>)
          qed
        qed
      qed
    qed
  qed
qed

text \<open>The outcome of an attempt is written to the row of that attempt and to no other.\<close>

definition row_update :: "string \<Rightarrow> OutboundStatus \<Rightarrow> int \<Rightarrow> store \<Rightarrow> store \<Rightarrow> bool" where
  "row_update oid status attempts s s' \<longleftrightarrow>
     (\<exists>resp next ts. outbound s' = upd_where (\<lambda>r. o_ID r = oid)
        (\<lambda>r. r\<lparr>o_Status := status, o_SMTPResponse := resp, o_Attempts := attempts,
                o_NextAttemptAt := next, o_UpdatedAt := ts\<rparr>) (outbound s)) \<and>
     approvals s' = approvals s \<and> versions s' = versions s \<and> accounts s' = accounts s"

lemma row_update_Update: "row_update oid x n s (db_UpdateOutbound s ts oid x resp n)"
  unfolding row_update_def db_UpdateOutbound_def by (intro conjI exI [of _ resp] exI [of _ 0] exI [of _ ts]) simp_all

lemma row_update_Mark: "row_update oid OutboundRetryWait n s (db_MarkOutboundRetry s ts oid resp n nxt)"
  unfolding row_update_def db_MarkOutboundRetry_def
  by (intro conjI exI [of _ resp] exI [of _ nxt] exI [of _ ts]) simp_all

lemma row_update_audit [simp]: "row_update oid x n s (audit s' t c y r z d) = row_update oid x n s s'"
  by (simp add: row_update_def)

lemma row_update_draft [simp]: "row_update oid x n s (db_SetDraftStatus s' t u i ds) = row_update oid x n s s'"
  by (simp add: row_update_def db_SetDraftStatus_def)

lemma applySendResult_row:
  assumes "applySendResult w a c out did rc e = (res, a')"
  shows "row_update (o_ID out) (o_Status res) (o_Attempts out + 1) (st a) (st a')"
    and "o_ID res = o_ID out" and "o_Attempts res = o_Attempts out + 1" and "smtp_log a' = smtp_log a" and "cfg a' = cfg a"
    and "o_Status res = OutboundRetryWait \<Longrightarrow> o_Attempts out + 1 < max_retries a \<and> (\<exists>m. e = Some (TemporaryError m))"
    and "o_Status res = OutboundSent \<longleftrightarrow> e = None \<and> \<not> rc_Uncertain rc"
    and "o_Status res = OutboundUncertain \<longleftrightarrow> e = None \<and> rc_Uncertain rc"
    and "o_Status res \<noteq> OutboundQueued"
proof -
  have temp: "isTemporary x \<longleftrightarrow> (\<exists>m. x = TemporaryError m)" for x
    by (cases x) simp_all
  note d = assms [unfolded applySendResult_def Let_def]
  show "row_update (o_ID out) (o_Status res) (o_Attempts out + 1) (st a) (st a')"
    using d by (auto simp: row_update_Update row_update_Mark split: option.splits if_splits)
  show "o_ID res = o_ID out" "o_Attempts res = o_Attempts out + 1" "smtp_log a' = smtp_log a" "cfg a' = cfg a"
    "o_Status res \<noteq> OutboundQueued"
    using d by (auto split: option.splits if_splits)
  show "o_Status res = OutboundSent \<longleftrightarrow> e = None \<and> \<not> rc_Uncertain rc"
    "o_Status res = OutboundUncertain \<longleftrightarrow> e = None \<and> rc_Uncertain rc"
    using d by (auto split: option.splits if_splits)
  show "o_Status res = OutboundRetryWait \<Longrightarrow> o_Attempts out + 1 < max_retries a \<and> (\<exists>m. e = Some (TemporaryError m))"
    using d by (auto simp: temp split: option.splits if_splits)
qed

section \<open>The cases of Send\<close>

lemma Send_accepts:
  assumes "db_GetDraft (st a) (userIDFrom c) (in_DraftID inp) = Inr (d, v)"
    and "GetAccount (st a) c (d_AccountID d) = Inr acc" and "send_refused L a acc v = None"
    and "db_GetOutboundByIdemKey (st a) (userIDFrom c) (idem_key inp d v) = Inl e"
    and "checkSendRate w a c (a_ID acc) = None"
    and "db_ConsumeApproval (st a) (now w) (hex (sha256 L (in_ApprovalToken inp))) (sendPayloadHash L acc v) = (Inr r, s1)"
  shows "Send L w a c inp = send_approved L w (a\<lparr>st := s1\<rparr>) c d v acc (idem_key inp d v)"
  by (simp add: Send_def Let_def VerifyAndConsume_def assms)

lemma Send_cases:
  obtains (refused) e where "fst (Send L w a c inp) = Inl e" "app_view (snd (Send L w a c inp)) = app_view a"
  | (replay) d v r where "db_GetDraft (st a) (userIDFrom c) (in_DraftID inp) = Inr (d, v)"
      "db_GetOutboundByIdemKey (st a) (userIDFrom c) (idem_key inp d v) = Inr r"
      "Send L w a c inp = (Inr (safeOutbound r), a)"
  | (accepted) d v acc r s1 e where
      "db_GetDraft (st a) (userIDFrom c) (in_DraftID inp) = Inr (d, v)"
      "GetAccount (st a) c (d_AccountID d) = Inr acc"
      "send_refused L a acc v = None"
      "db_GetOutboundByIdemKey (st a) (userIDFrom c) (idem_key inp d v) = Inl e"
      "checkSendRate w a c (a_ID acc) = None"
      "db_ConsumeApproval (st a) (now w) (hex (sha256 L (in_ApprovalToken inp))) (sendPayloadHash L acc v) = (Inr r, s1)"
      "Send L w a c inp = send_approved L w (a\<lparr>st := s1\<rparr>) c d v acc (idem_key inp d v)"
proof (cases "db_GetDraft (st a) (userIDFrom c) (in_DraftID inp)")
  case (Inl e)
  then show thesis by (intro refused) (simp_all add: Send_def)
next
  case dv: (Inr x)
  obtain d v where x: "x = (d, v)" by (cases x)
  note gd = dv [unfolded x]
  show thesis
  proof (cases "GetAccount (st a) c (d_AccountID d)")
    case (Inl e)
    with gd show thesis by (intro refused) (simp_all add: Send_def)
  next
    case acc: (Inr acc)
    show thesis
    proof (cases "send_refused L a acc v")
      case (Some be)
      with gd acc show thesis by (intro refused [of "snd be"]) (simp_all add: Send_def Let_def case_prod_beta)
    next
      case ok: None
      show thesis
      proof (cases "db_GetOutboundByIdemKey (st a) (userIDFrom c) (idem_key inp d v)")
        case (Inr r)
        with gd acc ok show thesis by (intro replay) (simp_all add: Send_def Let_def)
      next
        case new: (Inl e)
        show thesis
        proof (cases "checkSendRate w a c (a_ID acc)")
          case (Some e')
          with gd acc ok new show thesis by (intro refused [of e']) (simp_all add: Send_def Let_def)
        next
          case rate: None
          obtain q s1 where cons: "db_ConsumeApproval (st a) (now w) (hex (sha256 L (in_ApprovalToken inp)))
              (sendPayloadHash L acc v) = (q, s1)" by fastforce
          show thesis
          proof (cases q)
            case (Inl e')
            then have "s1 = st a" using db_ledger.consume_error_keeps cons by blast
            with gd acc ok new rate cons Inl show thesis
              by (intro refused [of "UserError (''send rejected: '' @ err_text e')"])
                 (simp_all add: Send_def Let_def VerifyAndConsume_def)
          next
            case (Inr r)
            show thesis
              by (rule accepted [OF gd acc ok new rate cons [unfolded Inr]])
                 (rule Send_accepts [OF gd acc ok new rate cons [unfolded Inr]])
          qed
        qed
      qed
    qed
  qed
qed

text \<open>The approved branch, step by step.\<close>

lemma send_approved_cases:
  obtains (clash) f where "send_approved L w b c d v acc key = (Inl (UniqueViolation f), b)"
      "new_id w ''out'' 0 \<in> o_ID ` set (outbound (st b)) \<or> key \<in> o_IdempotencyKey ` set (outbound (st b))"
  | (sent) s' out rc e a1 res a2 where
      "new_id w ''out'' 0 \<notin> o_ID ` set (outbound (st b))" "key \<notin> o_IdempotencyKey ` set (outbound (st b))"
      "out = (new_outbound w c d v key)\<lparr>o_CreatedAt := now w, o_UpdatedAt := now w\<rparr>"
      "s' = (st b)\<lparr>outbound := outbound (st b) @ [out]\<rparr>"
      "deliver L w (b\<lparr>st := s'\<rparr>) c out acc v = ((rc, e), a1)"
      "applySendResult w a1 c out (d_ID d) rc e = (res, a2)"
      "send_approved L w b c d v acc key = (Inr res, a2)"
proof (cases "db_CreateOutbound (st b) (now w) (new_outbound w c d v key)")
  case (Inl x)
  then have "\<exists>f. x = UniqueViolation f \<and> (new_id w ''out'' 0 \<in> o_ID ` set (outbound (st b)) \<or>
      key \<in> o_IdempotencyKey ` set (outbound (st b)))"
    by (simp add: db_CreateOutbound_def no_row_iff new_outbound_def image_iff split: if_splits) metis+
  then obtain f where "x = UniqueViolation f"
    and k: "new_id w ''out'' 0 \<in> o_ID ` set (outbound (st b)) \<or> key \<in> o_IdempotencyKey ` set (outbound (st b))"
    by blast
  with Inl have "send_approved L w b c d v acc key = (Inl (UniqueViolation f), b)"
    by (simp add: send_approved_def Let_def)
  then show thesis using k by (rule clash)
next
  case (Inr s')
  define out where "out = (new_outbound w c d v key)\<lparr>o_CreatedAt := now w, o_UpdatedAt := now w\<rparr>"
  from Inr have fresh: "new_id w ''out'' 0 \<notin> o_ID ` set (outbound (st b))"
      "key \<notin> o_IdempotencyKey ` set (outbound (st b))"
    and s': "s' = (st b)\<lparr>outbound := outbound (st b) @ [out]\<rparr>"
    by (auto simp: db_CreateOutbound_def no_row_iff new_outbound_def out_def image_iff split: if_splits)
  obtain rc e a1 where del: "deliver L w (b\<lparr>st := s'\<rparr>) c out acc v = ((rc, e), a1)"
    by (metis surj_pair)
  obtain res a2 where app: "applySendResult w a1 c out (d_ID d) rc e = (res, a2)" by fastforce
  have "send_approved L w b c d v acc key = (Inr res, a2)"
    using Inr del app by (simp add: send_approved_def Let_def out_def)
  then show thesis by (rule sent [OF fresh out_def s' del app])
qed

lemma deliver_view:
  assumes "deliver L w a c out acc v = ((rc, e), a1)"
  shows "outbox_view (st a1) = outbox_view (st a)" and "cfg a1 = cfg a"
    and "smtp_log a1 = smtp_log a \<and> e \<noteq> None \<or>
         (\<exists>opts raw. smtp_log a1 = smtp_log a @
            [(opts, \<lparr>env_From = a_Email acc, env_To = emails (recipients v)\<rparr>, raw)])"
proof -
  have "outbox_view (st a1) = outbox_view (st a) \<and> cfg a1 = cfg a \<and>
     (smtp_log a1 = smtp_log a \<and> e \<noteq> None \<or> (\<exists>opts raw. smtp_log a1 = smtp_log a @
        [(opts, \<lparr>env_From = a_Email acc, env_To = emails (recipients v)\<rparr>, raw)]))"
  proof (cases rule: deliver_cases [of L w a c out acc v])
    case (held x)
    then show ?thesis using assms by simp
  next
    case (handed sec raw b)
    then have a1: "snd (transmit L w b c out acc v sec raw) = a1" using assms by (metis snd_conv)
    show ?thesis
      using transmit_view [of L w b c out acc v sec raw] handed(1) unfolding a1
      by (auto simp: app_view_def)
  qed
  then show "outbox_view (st a1) = outbox_view (st a)" "cfg a1 = cfg a"
    "smtp_log a1 = smtp_log a \<and> e \<noteq> None \<or> (\<exists>opts raw. smtp_log a1 = smtp_log a @
        [(opts, \<lparr>env_From = a_Email acc, env_To = emails (recipients v)\<rparr>, raw)])"
    by blast+
qed

lemma ledger_live_cong: "approvals s = approvals s' \<Longrightarrow> ledger_live s = ledger_live s'"
  by (simp add: ledger_live_def fun_eq_iff)

lemma send_refused_None:
  "send_refused L a acc v = None \<longleftrightarrow> a_Status acc = AccountActive \<and> validateDraftForSend L acc v = None \<and>
     enforceSendPolicy L a acc v = None \<and> enforceDraftDLP L a acc v = None"
  by (auto simp: send_refused_def split: option.splits)

lemma send_approved_effect:
  assumes "send_approved L w b c d v acc key = (Inr res, a2)"
  shows "approvals (st a2) = approvals (st b)" and "accounts (st a2) = accounts (st b)"
    and "versions (st a2) = versions (st b)" and "cfg a2 = cfg b"
    and "key \<notin> o_IdempotencyKey ` set (outbound (st b))" and "o_ID res \<notin> o_ID ` set (outbound (st b))"
    and "o_ID res = new_id w ''out'' 0"
    and "row_update (o_ID res) (o_Status res) 1 ((st b)\<lparr>outbound := outbound (st b) @
           [(new_outbound w c d v key)\<lparr>o_CreatedAt := now w, o_UpdatedAt := now w\<rparr>]\<rparr>) (st a2)"
    and "smtp_log a2 = smtp_log b \<or> (\<exists>opts raw. smtp_log a2 = smtp_log b @
           [(opts, \<lparr>env_From = a_Email acc, env_To = emails (recipients v)\<rparr>, raw)])"
proof -
  obtain s' out rc e a1 where out: "out = (new_outbound w c d v key)\<lparr>o_CreatedAt := now w, o_UpdatedAt := now w\<rparr>"
    and fresh: "new_id w ''out'' 0 \<notin> o_ID ` set (outbound (st b))" "key \<notin> o_IdempotencyKey ` set (outbound (st b))"
    and s': "s' = (st b)\<lparr>outbound := outbound (st b) @ [out]\<rparr>"
    and del: "deliver L w (b\<lparr>st := s'\<rparr>) c out acc v = ((rc, e), a1)"
    and app: "applySendResult w a1 c out (d_ID d) rc e = (res, a2)"
    by (cases rule: send_approved_cases [of L w b c d v acc key]) (use assms in auto)
  note dv = deliver_view [OF del] and ar = applySendResult_row [OF app]
  have o: "o_ID out = new_id w ''out'' 0" "o_Attempts out = 0"
    by (simp_all add: out new_outbound_def)
  have ru: "row_update (o_ID res) (o_Status res) 1 s' (st a2)"
    using ar(1,2) dv(1) o by (simp add: row_update_def outbox_view_def)
  then show "approvals (st a2) = approvals (st b)" "accounts (st a2) = accounts (st b)"
    "versions (st a2) = versions (st b)"
    by (simp_all add: row_update_def s')
  show "cfg a2 = cfg b" using ar(5) dv(2) by simp
  show "key \<notin> o_IdempotencyKey ` set (outbound (st b))" "o_ID res \<notin> o_ID ` set (outbound (st b))"
    "o_ID res = new_id w ''out'' 0"
    using fresh ar(2) o by simp_all
  show "row_update (o_ID res) (o_Status res) 1 ((st b)\<lparr>outbound := outbound (st b) @
           [(new_outbound w c d v key)\<lparr>o_CreatedAt := now w, o_UpdatedAt := now w\<rparr>]\<rparr>) (st a2)"
    using ru unfolding s' out .
  show "smtp_log a2 = smtp_log b \<or> (\<exists>opts raw. smtp_log a2 = smtp_log b @
           [(opts, \<lparr>env_From = a_Email acc, env_To = emails (recipients v)\<rparr>, raw)])"
    using dv(3) ar(4) by auto
qed

text \<open>A message without attachments, secret and original goes straight to the client.\<close>

lemma deliver_plain:
  assumes "enforceSendPolicy L a acc v = None" and "\<not> list_ex (is_external L acc) (recipients v)"
    and "v_Attachments v = []" and "a_SMTPSecret acc = []" and "replyContext (st a) c (o_DraftID out) = None"
  shows "deliver L w a c out acc v = transmit L w a c out acc v None (buildMIME L w acc v (o_MessageID out) [] [])"
  using assms
  by (simp add: deliver_def enforceDLP_internal recipients_def delivery_text_def delivery_secret_def Let_def)

lemma GetDraft_cong:
  "drafts s = drafts s' \<Longrightarrow> versions s = versions s' \<Longrightarrow> db_GetDraft s = db_GetDraft s'"
  by (simp add: db_GetDraft_def db_GetDraftVersion_def fun_eq_iff cong: option.case_cong)

section \<open>A state that is ready to send\<close>

definition ready :: "store \<Rightarrow> bool" where
  "ready s \<longleftrightarrow> accounts s = [sample_account] \<and> drafts s = [sample_draft] \<and> versions s = [sample_version] \<and>
     outbound s = []"

definition ready_app :: app where
  "ready_app = policy_app\<lparr>st := empty_store\<lparr>accounts := [sample_account], drafts := [sample_draft], versions := [sample_version],
       approvals := [\<lparr>ap_ID = ''apr_1'', ap_UserID = ''usr_1'', ap_ActionType = ''mail_send'',
         ap_DraftID = ''drf_1'', ap_DraftVersion = 1,
         ap_PayloadHash = sendPayloadHash sample_lib sample_account sample_version,
         ap_TokenHash = hex ''t'', ap_Approver = ''kim'', ap_ExpiresAt = 2000, ap_Status = ApprovalPending,
         ap_CreatedAt = 900\<rparr>]\<rparr>\<rparr>"

definition sample_input :: "string \<Rightarrow> SendInput" where
  "sample_input token = \<lparr>in_DraftID = ''drf_1'', in_ApprovalToken = token, in_IdempotencyKey = ''k1''\<rparr>"

definition busy_io :: io where
  "busy_io = sample_io\<lparr>smtp_send := (\<lambda>_ _ _. (no_receipt, Some (TemporaryError ''450 busy'')))\<rparr>"

lemma sample_user [simp]: "userIDFrom (sample_ctx m xs) = ''usr_1''"
  by (simp add: userIDFrom_def sample_ctx_def sample_principal_def)

lemma sample_sendable:
  shows "\<not> list_ex (is_external sample_lib sample_account) (recipients sample_version)"
    and "enforceSendPolicy sample_lib (policy_app\<lparr>st := s\<rparr>) sample_account sample_version = None"
    and "validateDraftForSend sample_lib sample_account sample_version = None"
    and "send_refused sample_lib (policy_app\<lparr>st := s\<rparr>) sample_account sample_version = None"
proof -
  show int: "\<not> list_ex (is_external sample_lib sample_account) (recipients sample_version)" by code_simp
  have "enforceSendPolicy sample_lib policy_app sample_account sample_version = None" by code_simp
  then show pol: "enforceSendPolicy sample_lib (policy_app\<lparr>st := s\<rparr>) sample_account sample_version = None" by simp
  show val: "validateDraftForSend sample_lib sample_account sample_version = None" by code_simp
  have "a_Status sample_account = AccountActive" "v_Attachments sample_version = []"
    by (simp_all add: sample_account_def sample_version_def)
  then show "send_refused sample_lib (policy_app\<lparr>st := s\<rparr>) sample_account sample_version = None"
    using val pol enforceDraftDLP_plain [OF _ int] by (simp add: send_refused_None)
qed

lemma ready_rows:
  assumes "ready s"
  shows "db_GetDraft s ''usr_1'' ''drf_1'' = Inr (sample_draft, sample_version)"
    and "GetAccount s (sample_ctx ''local'' []) (d_AccountID sample_draft) = Inr sample_account"
  using assms
  by (simp_all add: ready_def db_GetDraft_def db_GetDraftVersion_def GetAccount_def db_GetAccount_def
      sample_draft_def sample_version_def sample_account_def no_row_def)

lemma ready_send:
  assumes "ready s" and "ledger_live s 1000 (hex tk) (sendPayloadHash sample_lib sample_account sample_version)"
  shows "\<exists>res a2. Send sample_lib busy_io (policy_app\<lparr>st := s\<rparr>) (sample_ctx ''local'' []) (sample_input tk) = (Inr res, a2) \<and>
     smtp_log a2 \<noteq> [] \<and> o_Status res = OutboundRetryWait \<and> o_ID res = ''out_0''"
proof -
  let ?c = "sample_ctx ''local'' []" and ?v = sample_version and ?acc = sample_account and ?a = "policy_app\<lparr>st := s\<rparr>"
  let ?h = "sendPayloadHash sample_lib sample_account sample_version"
  have f: "in_DraftID (sample_input tk) = ''drf_1''" "in_ApprovalToken (sample_input tk) = tk" "sha256 sample_lib tk = tk"
    "v_Attachments ?v = []" "a_SMTPSecret ?acc = []" "now busy_io = 1000" "idem_key (sample_input tk) sample_draft ?v = ''k1''"
    by (simp_all add: sample_account_def sample_input_def sample_lib_def sample_version_def busy_io_def
          sample_io_def idem_key_def)
  note rows = ready_rows [OF assms(1)]
  have new: "db_GetOutboundByIdemKey s ''usr_1'' ''k1'' = Inl ErrNotFound"
    using assms(1) by (simp add: db_GetOutboundByIdemKey_def ready_def)
  have rate: "checkSendRate busy_io ?a ?c (a_ID ?acc) = None"
    using assms(1) by (simp add: checkSendRate_def policy_app_def sample_app_def sample_cfg_def db_CountSentSince_def ready_def)
  obtain r s1 where cons: "db_ConsumeApproval s 1000 (hex tk) ?h = (Inr r, s1)"
    using db_ledger.consume_live [OF assms(2)] by blast
  have r1: "ready s1" using cons assms(1) by (auto simp: ready_def elim!: consume_row)
  have snd: "Send sample_lib busy_io ?a ?c (sample_input tk) =
      send_approved sample_lib busy_io (?a\<lparr>st := s1\<rparr>) ?c sample_draft ?v ?acc ''k1''"
    using Send_accepts [of ?a ?c "sample_input tk" sample_draft ?v ?acc sample_lib ErrNotFound busy_io r s1]
      rows sample_sendable(4) [of s] new rate cons by (simp add: f)
  show ?thesis
  proof (cases rule: send_approved_cases [of sample_lib busy_io "?a\<lparr>st := s1\<rparr>" ?c sample_draft ?v ?acc "''k1''"])
    case (clash x)
    then show ?thesis using r1 by (simp add: ready_def)
  next
    case (sent s' out rc e a1 res a2)
    have z: "dec 0 = ''0''" by code_simp
    have o: "o_DraftID out = ''drf_1''" "o_ID out = ''out_0''" "o_Attempts out = 0"
      unfolding sent(3) by (simp_all add: new_outbound_def sample_draft_def busy_io_def sample_io_def z)
    have "db_GetDraft s' ''usr_1'' ''drf_1'' = Inr (sample_draft, ?v)"
      using ready_rows(1) [OF r1] GetDraft_cong [of s' s1] unfolding sent(4) by simp
    then have rep: "replyContext s' ?c (o_DraftID out) = None"
      by (simp add: replyContext_def o sample_draft_def)
    have del: "deliver sample_lib busy_io (?a\<lparr>st := s1\<rparr>\<lparr>st := s'\<rparr>) ?c out ?acc ?v =
        transmit sample_lib busy_io (policy_app\<lparr>st := s'\<rparr>) ?c out ?acc ?v None (buildMIME sample_lib busy_io ?acc ?v (o_MessageID out) [] [])"
      using deliver_plain [of sample_lib "policy_app\<lparr>st := s'\<rparr>" ?acc ?v ?c out busy_io] sample_sendable(1,2) rep
      by (simp add: f)
    have "smtp_send busy_io x y u = (no_receipt, Some (TemporaryError ''450 busy''))" for x y u
      by (simp add: busy_io_def)
    then have r: "rc = no_receipt" "e = Some (TemporaryError ''450 busy'')" "smtp_log a1 \<noteq> []" "cfg a1 = sample_cfg"
      using del sent(5) by (auto simp: transmit_def policy_app_def sample_app_def)
    have "max_retries a1 = 3" by (simp add: max_retries_def r sample_cfg_def)
    then have "o_Status res = OutboundRetryWait"
      using sent(6) r o by (auto simp: applySendResult_def Let_def)
    then show ?thesis
      using applySendResult_row(2,4) [OF sent(6)] r o sent(7) snd by auto
  qed
qed

lemma ready_app_facts:
  "ready_app = policy_app\<lparr>st := st ready_app\<rparr>" "ready (st ready_app)" "ledger_inv (st ready_app)" "smtp_log ready_app = []"
  "ledger_live (st ready_app) 1000 (hex ''t'') (sendPayloadHash sample_lib sample_account sample_version)"
  by (simp_all add: ready_app_def ready_def ledger_inv_def policy_app_def sample_app_def empty_store_def ledger_live_def approval_live_def)

lemma ready_app_send:
  "\<exists>res a2. Send sample_lib busy_io ready_app (sample_ctx ''local'' []) (sample_input ''t'') = (Inr res, a2) \<and>
     smtp_log a2 \<noteq> [] \<and> o_Status res = OutboundRetryWait \<and> o_ID res = ''out_0''"
  using ready_send [OF ready_app_facts(2,5)] ready_app_facts(1) by simp

text \<open>After an approved send, the outbox answers for the key with the row of that send.\<close>

lemma send_approved_row:
  assumes "send_approved L w b c d v acc key = (Inr res, a2)"
  shows "\<exists>r. db_GetOutboundByIdemKey (st a2) (userIDFrom c) key = Inr r \<and> o_ID r = o_ID res \<and>
     o_Status r = o_Status res"
proof -
  note eff = send_approved_effect [OF assms]
  let ?out = "(new_outbound w c d v key)\<lparr>o_CreatedAt := now w, o_UpdatedAt := now w\<rparr>"
  obtain f where out: "outbound (st a2) = upd_where (\<lambda>r. o_ID r = o_ID res) f (outbound (st b) @ [?out])"
    and f: "\<And>r. o_ID (f r) = o_ID r" "\<And>r. o_UserID (f r) = o_UserID r"
      "\<And>r. o_IdempotencyKey (f r) = o_IdempotencyKey r" "\<And>r. o_Status (f r) = o_Status res"
    using eff(8) by (auto simp: row_update_def)
  have "find (\<lambda>r. o_UserID r = userIDFrom c \<and> o_IdempotencyKey r = key)
      (upd_where (\<lambda>r. o_ID r = o_ID res) f (outbound (st b))) = None"
    using eff(5) f(3) by (auto simp: find_None_iff elim!: in_upd_whereE)
  moreover have "o_ID ?out = o_ID res" "o_UserID ?out = userIDFrom c" "o_IdempotencyKey ?out = key"
    using eff(7) by (simp_all add: new_outbound_def)
  ultimately show ?thesis
    by (simp add: db_GetOutboundByIdemKey_def out upd_where_append find_append f)
qed

section \<open>Properties\<close>

text \<open>
  C2. Nothing is sent without an approval.  When a call of \<open>Send\<close> hands anything to the SMTP
  client, the draft, its account and its policies passed every check, the presented token was a
  live approval for exactly this payload, it is spent afterwards for every payload and time, and
  exactly one message was handed over, from the account's address to the draft's recipients.
\<close>

theorem send_requires_approval:
  assumes "ledger_inv (st a)" and "smtp_log (snd (Send L w a c inp)) \<noteq> smtp_log a"
  shows "\<exists>d v acc opts raw.
     db_GetDraft (st a) (userIDFrom c) (in_DraftID inp) = Inr (d, v) \<and>
     GetAccount (st a) c (d_AccountID d) = Inr acc \<and> a_Status acc = AccountActive \<and>
     validateDraftForSend L acc v = None \<and> enforceSendPolicy L a acc v = None \<and>
     enforceDraftDLP L a acc v = None \<and> checkSendRate w a c (a_ID acc) = None \<and>
     ledger_live (st a) (now w) (hex (sha256 L (in_ApprovalToken inp))) (sendPayloadHash L acc v) \<and>
     (\<forall>t p. \<not> ledger_live (st (snd (Send L w a c inp))) t (hex (sha256 L (in_ApprovalToken inp))) p) \<and>
     smtp_log (snd (Send L w a c inp)) =
       smtp_log a @ [(opts, \<lparr>env_From = a_Email acc, env_To = emails (recipients v)\<rparr>, raw)]"
proof (cases rule: Send_cases [of L w a c inp])
  case (refused e)
  then show ?thesis using assms(2) by (simp add: app_view_def)
next
  case (replay d v r)
  then show ?thesis using assms(2) by simp
next
  case (accepted d v acc r s1 e)
  let ?h = "hex (sha256 L (in_ApprovalToken inp))" and ?b = "a\<lparr>st := s1\<rparr>"
  have live: "ledger_live (st a) (now w) ?h (sendPayloadHash L acc v)"
    using db_ledger.consume_ok_iff accepted(6) by blast
  have dead: "\<not> ledger_live s1 t ?h p" for t p
    using db_ledger.consume_kills [OF assms(1) accepted(6)] .
  obtain res a2 where snd: "send_approved L w ?b c d v acc (idem_key inp d v) = (Inr res, a2)"
    by (cases rule: send_approved_cases [of L w ?b c d v acc "idem_key inp d v"])
       (use assms(2) accepted(7) in auto)
  note eff = send_approved_effect [OF snd]
  have a2: "snd (Send L w a c inp) = a2" using accepted(7) snd by simp
  have "smtp_log a2 \<noteq> smtp_log a" using assms(2) unfolding a2 .
  then obtain opts raw where "smtp_log a2 = smtp_log a @
      [(opts, \<lparr>env_From = a_Email acc, env_To = emails (recipients v)\<rparr>, raw)]"
    using eff(9) by auto
  moreover have "\<not> ledger_live (st a2) t ?h p" for t p
    using dead ledger_live_cong [of "st a2" s1] eff(1) by simp
  ultimately show ?thesis
    using accepted(1,2,5) accepted(3) [unfolded send_refused_None] live unfolding a2 by blast
qed

theorem send_requires_approval_witness:
  "\<exists>d v acc. db_GetDraft (st ready_app) ''usr_1'' ''drf_1'' = Inr (d, v) \<and>
     ledger_live (st ready_app) 1000 (hex ''t'') (sendPayloadHash sample_lib acc v) \<and>
     (\<forall>t p. \<not> ledger_live (st (snd (Send sample_lib busy_io ready_app (sample_ctx ''local'' []) (sample_input ''t''))))
        t (hex ''t'') p)"
proof -
  obtain res a2 where s: "Send sample_lib busy_io ready_app (sample_ctx ''local'' []) (sample_input ''t'') = (Inr res, a2)"
    and log: "smtp_log a2 \<noteq> []" using ready_app_send by blast
  have f: "in_DraftID (sample_input ''t'') = ''drf_1''" "now busy_io = 1000"
    "hex (sha256 sample_lib (in_ApprovalToken (sample_input ''t''))) = hex ''t''"
    by (simp_all add: sample_input_def sample_lib_def busy_io_def sample_io_def)
  show ?thesis
    using send_requires_approval [of ready_app sample_lib busy_io "sample_ctx ''local'' []" "sample_input ''t''"]
      s log ready_app_facts(3,4)
    unfolding f by auto
qed

text \<open>
  C4. A repeated request is answered from the outbox: after a successful \<open>Send\<close> with an idempotency
  key, a second one of the same user with that key hands nothing to the SMTP client, whatever
  draft and token it names, and if it succeeds it returns the outcome of the first.
\<close>

theorem send_replay_is_idempotent:
  assumes "Send L w a c inp = (Inr out, a1)"
    and "in_IdempotencyKey inp \<noteq> []" and "in_IdempotencyKey inp' = in_IdempotencyKey inp"
    and "userIDFrom c' = userIDFrom c"
  shows "smtp_log (snd (Send L w' a1 c' inp')) = smtp_log a1 \<and>
     (case fst (Send L w' a1 c' inp') of
        Inl e \<Rightarrow> True | Inr out' \<Rightarrow> o_ID out' = o_ID out \<and> o_Status out' = o_Status out)"
proof -
  let ?k = "in_IdempotencyKey inp" and ?u = "userIDFrom c"
  have key: "idem_key inp d v = ?k" "idem_key inp' d v = ?k" for d v
    using assms(2,3) by (simp_all add: idem_key_def)
  have row: "\<exists>r. db_GetOutboundByIdemKey (st a1) ?u ?k = Inr r \<and> o_ID r = o_ID out \<and> o_Status r = o_Status out"
  proof (cases rule: Send_cases [of L w a c inp])
    case (refused e)
    then show ?thesis using assms(1) by simp
  next
    case (replay d v r)
    then show ?thesis using assms(1) key by (auto simp: safeOutbound_def)
  next
    case (accepted d v acc r s1 e)
    then have sa: "send_approved L w (a\<lparr>st := s1\<rparr>) c d v acc ?k = (Inr out, a1)" using assms(1) key by simp
    show ?thesis using send_approved_row [OF sa] by blast
  qed
  then obtain r where r: "db_GetOutboundByIdemKey (st a1) ?u ?k = Inr r" "o_ID r = o_ID out" "o_Status r = o_Status out"
    by blast
  show ?thesis
  proof (cases rule: Send_cases [of L w' a1 c' inp'])
    case (refused e)
    then show ?thesis by (simp add: app_view_def)
  next
    case (replay d v r')
    then show ?thesis using r key assms(4) by (simp add: safeOutbound_def)
  next
    case (accepted d v acc x s1 e)
    then show ?thesis using r key assms(4) by simp
  qed
qed

theorem send_replay_is_idempotent_witness:
  "smtp_log (snd (Send sample_lib sample_io (snd (Send sample_lib busy_io ready_app (sample_ctx ''local'' []) (sample_input ''t'')))
      (sample_ctx ''local'' []) (sample_input ''t''))) =
   smtp_log (snd (Send sample_lib busy_io ready_app (sample_ctx ''local'' []) (sample_input ''t'')))"
proof -
  obtain res a2 where s: "Send sample_lib busy_io ready_app (sample_ctx ''local'' []) (sample_input ''t'') = (Inr res, a2)"
    using ready_app_send by blast
  have "in_IdempotencyKey (sample_input ''t'') \<noteq> []" by (simp add: sample_input_def)
  then show ?thesis using send_replay_is_idempotent [OF s] s by simp
qed

end
