(* ===== verification/Outbox_Run.thy ===== *)
theory Outbox_Run
  imports Outbox_Safety
begin

text \<open>
  The outbox over time.  A run interleaves requests to send, rounds of the retry worker, issued
  approvals, and any other operation of the program, which may change everything but the outbox,
  the approvals and the record of what was handed to the SMTP client.
\<close>

section \<open>Runs\<close>

inductive outbox_run :: "lib \<Rightarrow> app \<Rightarrow> app \<Rightarrow> bool" for L where
  start: "outbox_run L a a"
| send: "outbox_run L a b \<Longrightarrow> outbox_run L a (snd (Send L w b c inp))"
| retries: "outbox_run L a b \<Longrightarrow> outbox_run L a (snd (ProcessRetries L ws b c))"
| approve: "outbox_run L a b \<Longrightarrow>
    hex (sha256 L (rand_token w 32)) \<notin> ap_TokenHash ` set (approvals (st b)) \<Longrightarrow>
    outbox_run L a (snd (RequestSendApproval L w b c did approver ttl))"
| other: "outbox_run L a b \<Longrightarrow> outbound (st b') = outbound (st b) \<Longrightarrow>
    approvals (st b') = approvals (st b) \<Longrightarrow> smtp_log b' = smtp_log b \<Longrightarrow> outbox_run L a b'"

inductive_cases outbox_runE: "outbox_run L a b"

section \<open>One row\<close>

text \<open>An update of one row that keeps what identifies the message.\<close>

definition keeps_identity :: "(OutboundMessage \<Rightarrow> OutboundMessage) \<Rightarrow> bool" where
  "keeps_identity f \<longleftrightarrow> (\<forall>r. o_ID (f r) = o_ID r \<and> o_UserID (f r) = o_UserID r \<and>
     o_DraftID (f r) = o_DraftID r \<and> o_DraftVersion (f r) = o_DraftVersion r \<and>
     o_IdempotencyKey (f r) = o_IdempotencyKey r \<and> o_MessageID (f r) = o_MessageID r)"

lemma row_update_keeps:
  assumes "row_update oid x n s s'"
  obtains f where "outbound s' = upd_where (\<lambda>r. o_ID r = oid) f (outbound s)" "keeps_identity f"
    "\<And>r. o_Status (f r) = x" "\<And>r. o_Attempts (f r) = n" "approvals s' = approvals s"
proof -
  from assms obtain resp nxt ts where
    u: "outbound s' = upd_where (\<lambda>r. o_ID r = oid) (\<lambda>r. r\<lparr>o_Status := x, o_SMTPResponse := resp,
       o_Attempts := n, o_NextAttemptAt := nxt, o_UpdatedAt := ts\<rparr>) (outbound s)"
    and "approvals s' = approvals s"
    by (auto simp: row_update_def)
  then show thesis by (intro that [OF u]) (simp_all add: keeps_identity_def)
qed

lemma retry_one_row:
  obtains f where "outbound (st (retry_one L w c a out)) = upd_where (\<lambda>r. o_ID r = o_ID out) f (outbound (st a))"
    "keeps_identity f" "\<And>r. o_Status (f r) \<noteq> OutboundQueued"
    "\<And>r. o_Status (f r) = OutboundRetryWait \<Longrightarrow>
       o_Attempts (f r) = o_Attempts out + 1 \<and> o_Attempts (f r) < max_retries a"
    "approvals (st (retry_one L w c a out)) = approvals (st a)" "cfg (retry_one L w c a out) = cfg a"
    "\<exists>ys. smtp_log (retry_one L w c a out) = smtp_log a @ ys \<and> length ys \<le> 1"
proof -
  let ?res = "retry_one L w c a out"
  consider (gone) resp where "?res = a\<lparr>st := db_UpdateOutbound (st a) (now w) (o_ID out) OutboundFailed resp (o_Attempts out)\<rparr>"
    | (tried) acc v rc e a1 res a2 where "deliver L w a c out acc v = ((rc, e), a1)"
        "applySendResult w a1 c out (o_DraftID out) rc e = (res, a2)" "?res = a2"
  proof (cases "db_GetDraft (st a) (o_UserID out) (o_DraftID out)")
    case (Inl e)
    then show ?thesis by (intro gone) (simp add: retry_one_def)
  next
    case dr: (Inr x)
    obtain d v where x: "x = (d, v)" by (cases x)
    define vv where "vv = (case db_GetDraftVersion (st a) (o_UserID out) (o_DraftID out) (o_DraftVersion out) of
        Inl e \<Rightarrow> v | Inr y \<Rightarrow> y)"
    show ?thesis
    proof (cases "db_GetAccount (st a) (o_UserID out) (d_AccountID d)")
      case (Inl e)
      with dr x show ?thesis by (intro gone) (simp add: retry_one_def Let_def)
    next
      case (Inr acc)
      obtain rc e a1 where del: "deliver L w a c out acc vv = ((rc, e), a1)" by (metis surj_pair)
      obtain res a2 where app: "applySendResult w a1 c out (o_DraftID out) rc e = (res, a2)" by fastforce
      have "?res = a2"
        using del app by (simp add: retry_one_def dr x Inr Let_def vv_def)
      with del app show ?thesis by (rule tried)
    qed
  qed
  then show thesis
  proof cases
    case gone
    obtain f where "outbound (st ?res) = upd_where (\<lambda>r. o_ID r = o_ID out) f (outbound (st a))" "keeps_identity f"
      "\<And>r. o_Status (f r) = OutboundFailed" "approvals (st ?res) = approvals (st a)"
      by (rule row_update_keeps [OF row_update_Update [of "o_ID out" OutboundFailed "o_Attempts out" "st a" "now w" resp]])
         (simp add: gone)
    then show thesis by (intro that [of f]) (simp_all add: gone)
  next
    case tried
    note dv = deliver_view [OF tried(1)] and ar = applySendResult_row [OF tried(2)]
    have "row_update (o_ID out) (o_Status res) (o_Attempts out + 1) (st a) (st a2)"
      using ar(1) dv(1) by (simp add: row_update_def outbox_view_def)
    then obtain f where f: "outbound (st a2) = upd_where (\<lambda>r. o_ID r = o_ID out) f (outbound (st a))" "keeps_identity f"
      "\<And>r. o_Status (f r) = o_Status res" "\<And>r. o_Attempts (f r) = o_Attempts out + 1" "approvals (st a2) = approvals (st a)"
      by (rule row_update_keeps) blast
    have "max_retries a1 = max_retries a" using dv(2) by (simp add: max_retries_def)
    then show thesis
      using f ar(4-6,9) dv(2,3) by (intro that [of f]) (auto simp: tried(3))
  qed
qed

lemma keeps_identity_map: "keeps_identity f \<Longrightarrow> map o_ID (upd_where P f rs) = map o_ID rs"
  by (rule map_upd_where_same) (simp add: keeps_identity_def)

lemma upd_where_keeps_other: "r \<in> set rs \<Longrightarrow> \<not> P r \<Longrightarrow> r \<in> set (upd_where P f rs)"
  by (force simp: set_upd_where)

section \<open>A round of the retry worker\<close>

lemma retry_loop_frame:
  "map o_ID (outbound (st (retry_loop L ws i c a xs))) = map o_ID (outbound (st a)) \<and>
   approvals (st (retry_loop L ws i c a xs)) = approvals (st a) \<and> cfg (retry_loop L ws i c a xs) = cfg a \<and>
   (\<exists>ys. smtp_log (retry_loop L ws i c a xs) = smtp_log a @ ys \<and> length ys \<le> length xs)"
proof (induction xs arbitrary: i a)
  case Nil
  then show ?case by simp
next
  case (Cons x xs)
  let ?b = "retry_one L (ws i) c a x"
  obtain f where f: "outbound (st ?b) = upd_where (\<lambda>r. o_ID r = o_ID x) f (outbound (st a))" "keeps_identity f"
    "approvals (st ?b) = approvals (st a)" "cfg ?b = cfg a"
    and log: "\<exists>ys. smtp_log ?b = smtp_log a @ ys \<and> length ys \<le> 1"
    by (rule retry_one_row [of L "ws i" c a x]) blast
  have ids: "map o_ID (outbound (st ?b)) = map o_ID (outbound (st a))"
    using f(1,2) by (simp add: keeps_identity_map)
  obtain ys where "smtp_log ?b = smtp_log a @ ys" "length ys \<le> 1" using log by blast
  moreover obtain zs where "smtp_log (retry_loop L ws (Suc i) c ?b xs) = smtp_log ?b @ zs" "length zs \<le> length xs"
    using Cons.IH [of "Suc i" ?b] by blast
  ultimately have "\<exists>ys. smtp_log (retry_loop L ws (Suc i) c ?b xs) = smtp_log a @ ys \<and> length ys \<le> Suc (length xs)"
    by (intro exI [of _ "ys @ zs"]) simp
  then show ?case using Cons.IH [of "Suc i" ?b] ids f(3,4) by simp
qed

lemma retry_loop_others:
  assumes "r \<in> set (outbound (st a))" and "o_ID r \<notin> o_ID ` set xs"
  shows "r \<in> set (outbound (st (retry_loop L ws i c a xs)))"
  using assms
proof (induction xs arbitrary: i a)
  case Nil
  then show ?case by simp
next
  case (Cons x xs)
  obtain f where f: "outbound (st (retry_one L (ws i) c a x)) = upd_where (\<lambda>r. o_ID r = o_ID x) f (outbound (st a))"
    by (rule retry_one_row [of L "ws i" c a x]) blast
  have "r \<in> set (outbound (st (retry_one L (ws i) c a x)))"
    unfolding f by (rule upd_where_keeps_other) (use Cons.prems in auto)
  then show ?case using Cons.IH [of "retry_one L (ws i) c a x" "Suc i"] Cons.prems by simp
qed

lemma due_rows:
  "x \<in> set (db_ListDueRetries s t n) \<Longrightarrow> x \<in> set (outbound s) \<and> o_Status x = OutboundRetryWait \<and> o_NextAttemptAt x \<le> t"
  by (auto simp: db_ListDueRetries_def Let_def dest: in_set_takeD)

lemma length_due: "length (db_ListDueRetries s t n) \<le>
    length (filter (\<lambda>r. o_Status r = OutboundRetryWait \<and> o_NextAttemptAt r \<le> t) (outbound s))"
  by (simp add: db_ListDueRetries_def Let_def)

section \<open>What every step keeps\<close>

definition final_row :: "OutboundMessage \<Rightarrow> bool" where
  "final_row r \<longleftrightarrow> o_Status r \<in> {OutboundSent, OutboundFailed, OutboundUncertain}"

text \<open>
  What a step does to the outbox: the ids stay distinct, rows with an outcome stay as they are, and
  the record of the SMTP client is only extended.
\<close>

definition outbox_step :: "app \<Rightarrow> app \<Rightarrow> bool" where
  "outbox_step a b \<longleftrightarrow>
     (distinct (map o_ID (outbound (st a))) \<longrightarrow>
        distinct (map o_ID (outbound (st b))) \<and>
        {r \<in> set (outbound (st a)). final_row r} \<subseteq> set (outbound (st b))) \<and>
     prefix (smtp_log a) (smtp_log b)"

lemma outbox_step_trans: "outbox_step a b \<Longrightarrow> outbox_step b d \<Longrightarrow> outbox_step a d"
  by (auto simp: outbox_step_def)

lemma outbox_step_same: "outbound (st b) = outbound (st a) \<Longrightarrow> smtp_log b = smtp_log a \<Longrightarrow> outbox_step a b"
  by (auto simp: outbox_step_def)

lemma send_step: "outbox_step a (snd (Send L w a c inp))"
proof (cases rule: Send_cases [of L w a c inp])
  case (refused e)
  then show ?thesis by (intro outbox_step_same) (simp_all add: app_view_def outbox_view_def)
next
  case (replay d v r)
  then show ?thesis by (simp add: outbox_step_same)
next
  case (accepted d v acc r s1 e)
  have s1: "outbound s1 = outbound (st a)"
    using accepted(6) by (auto elim!: consume_row)
  show ?thesis
  proof (cases "fst (send_approved L w (a\<lparr>st := s1\<rparr>) c d v acc (idem_key inp d v))")
    case (Inl x)
    then have "snd (Send L w a c inp) = a\<lparr>st := s1\<rparr>"
      unfolding accepted(7)
      by (cases rule: send_approved_cases [of L w "a\<lparr>st := s1\<rparr>" c d v acc "idem_key inp d v"]) auto
    then show ?thesis by (intro outbox_step_same) (simp_all add: s1)
  next
    case (Inr res)
    then obtain a2 where sa: "send_approved L w (a\<lparr>st := s1\<rparr>) c d v acc (idem_key inp d v) = (Inr res, a2)"
      by (metis prod.collapse)
    note eff = send_approved_effect [OF sa]
    let ?rows = "outbound (st a) @ [(new_outbound w c d v (idem_key inp d v))\<lparr>o_CreatedAt := now w, o_UpdatedAt := now w\<rparr>]"
    obtain f where f: "outbound (st a2) = upd_where (\<lambda>r. o_ID r = o_ID res) f ?rows" "keeps_identity f"
      by (rule row_update_keeps [OF eff(8)]) (simp add: s1)
    have fresh: "o_ID res \<notin> o_ID ` set (outbound (st a))" using eff(6) s1 by simp
    have "map o_ID (outbound (st a2)) = map o_ID (outbound (st a)) @ [o_ID res]"
      using f eff(7) by (simp add: keeps_identity_map new_outbound_def)
    moreover have "r \<in> set (outbound (st a2))" if "r \<in> set (outbound (st a))" for r
      unfolding f(1) by (rule upd_where_keeps_other) (use that fresh in \<open>auto simp: image_iff\<close>)
    moreover have "prefix (smtp_log a) (smtp_log a2)" using eff(9) by auto
    ultimately show ?thesis using fresh accepted(7) sa by (auto simp: outbox_step_def)
  qed
qed

lemma retries_step: "outbox_step a (snd (ProcessRetries L ws a c))"
proof -
  let ?due = "db_ListDueRetries (st a) (now (ws 0)) 50" and ?c = "WithActor c ''worker''"
  have eq: "snd (ProcessRetries L ws a c) = retry_loop L ws 0 ?c a ?due" by (simp add: ProcessRetries_def Let_def)
  note fr = retry_loop_frame [of L ws 0 ?c a ?due]
  have "r \<in> set (outbound (st (retry_loop L ws 0 ?c a ?due)))"
    if "distinct (map o_ID (outbound (st a)))" "r \<in> set (outbound (st a))" "final_row r" for r
  proof (rule retry_loop_others [OF that(2)])
    show "o_ID r \<notin> o_ID ` set ?due"
    proof
      assume "o_ID r \<in> o_ID ` set ?due"
      then obtain x where "x \<in> set ?due" "o_ID x = o_ID r" by auto
      then have "x = r" using that(1,2) due_rows by (metis unique_key_eq)
      with \<open>x \<in> set ?due\<close> that(3) show False using due_rows by (fastforce simp: final_row_def)
    qed
  qed
  moreover have "prefix (smtp_log a) (smtp_log (retry_loop L ws 0 ?c a ?due))" using fr by auto
  ultimately show ?thesis unfolding eq outbox_step_def using fr by auto
qed

lemma approval_step:
  "outbox_step a (snd (RequestSendApproval L w a c did approver ttl))"
  by (rule outbox_step_same)
     (auto simp: RequestSendApproval_def Issue_def Let_def db_InsertApproval_def split: sum.splits prod.splits if_splits)

lemma run_step: "outbox_run L a b \<Longrightarrow> outbox_step a b"
proof (induction rule: outbox_run.induct)
  case (start a)
  then show ?case by (simp add: outbox_step_same)
next
  case (send a b w c inp)
  then show ?case using outbox_step_trans send_step by blast
next
  case (retries a b ws c)
  then show ?case using outbox_step_trans retries_step by blast
next
  case (approve a b w c did approver ttl)
  then show ?case using outbox_step_trans approval_step by blast
next
  case (other a b b')
  then show ?case using outbox_step_trans outbox_step_same by blast
qed

text \<open>The rows of a token keep the payload and the expiry they were issued with.\<close>

definition token_rows :: "string \<Rightarrow> string \<Rightarrow> int \<Rightarrow> Approval list \<Rightarrow> bool" where
  "token_rows h p x rs \<longleftrightarrow> h \<in> ap_TokenHash ` set rs \<and>
     (\<forall>r\<in>set rs. ap_TokenHash r = h \<longrightarrow> ap_PayloadHash r = p \<and> ap_ExpiresAt r = x)"

lemma token_rows_used:
  "token_rows h p x rs \<Longrightarrow> token_rows h p x (upd_where Q (\<lambda>r. r\<lparr>ap_Status := ApprovalUsed\<rparr>) rs)"
proof -
  assume *: "token_rows h p x rs"
  have "ap_TokenHash ` set (upd_where Q (\<lambda>r. r\<lparr>ap_Status := ApprovalUsed\<rparr>) rs) = ap_TokenHash ` set rs"
    by (rule image_upd_where_same) simp
  with * show ?thesis by (auto simp: token_rows_def elim!: in_upd_whereE)
qed

lemma token_rows_new: "token_rows h p x rs \<Longrightarrow> ap_TokenHash r \<noteq> h \<Longrightarrow> token_rows h p x (rs @ [r])"
  by (auto simp: token_rows_def)

lemma send_token:
  assumes "token_rows h p x (approvals (st a))"
  shows "token_rows h p x (approvals (st (snd (Send L w a c inp))))"
proof (cases rule: Send_cases [of L w a c inp])
  case (refused e)
  then show ?thesis using assms by (simp add: app_view_def outbox_view_def)
next
  case (replay d v r)
  then show ?thesis using assms by simp
next
  case (accepted d v acc r s1 e)
  have s1: "token_rows h p x (approvals s1)"
    using accepted(6) assms by (auto elim!: consume_row intro!: token_rows_used)
  show ?thesis
  proof (cases rule: send_approved_cases [of L w "a\<lparr>st := s1\<rparr>" c d v acc "idem_key inp d v"])
    case (clash f)
    then show ?thesis using s1 accepted(7) by simp
  next
    case (sent s' out rc e' a1 res a2)
    then show ?thesis using s1 accepted(7) send_approved_effect(1) [OF sent(7)] by simp
  qed
qed

lemma approval_token:
  assumes "token_rows h p x (approvals (st a))" and "hex (sha256 L (rand_token w 32)) \<notin> ap_TokenHash ` set (approvals (st a))"
  shows "token_rows h p x (approvals (st (snd (RequestSendApproval L w a c did approver ttl))))"
proof -
  have "hex (sha256 L (rand_token w 32)) \<noteq> h" using assms by (auto simp: token_rows_def)
  with assms(1) show ?thesis
    by (auto simp: RequestSendApproval_def Issue_def Let_def db_InsertApproval_def
        intro!: token_rows_new split: sum.splits prod.splits if_splits)
qed

lemma run_token:
  "outbox_run L a b \<Longrightarrow> token_rows h p x (approvals (st a)) \<Longrightarrow> token_rows h p x (approvals (st b))"
proof (induction rule: outbox_run.induct)
  case (retries a b ws c)
  then show ?case using retry_loop_frame by (simp add: ProcessRetries_def Let_def)
qed (auto intro: send_token approval_token)

text \<open>Attempting one message again and again, while it waits.\<close>

fun retry_row :: "lib \<Rightarrow> (nat \<Rightarrow> io) \<Rightarrow> ctx \<Rightarrow> string \<Rightarrow> nat \<Rightarrow> app \<Rightarrow> app" where
  "retry_row L ws c oid 0 a = a"
| "retry_row L ws c oid (Suc k) a =
     (case find (\<lambda>r. o_ID r = oid \<and> o_Status r = OutboundRetryWait) (outbound (st a)) of
        None \<Rightarrow> a | Some r \<Rightarrow> retry_row L ws c oid k (retry_one L (ws k) c a r))"

lemma retry_row_waiting:
  assumes "\<forall>r\<in>set (outbound (st a)). o_ID r = oid \<and> o_Status r = OutboundRetryWait \<longrightarrow> max_retries a - o_Attempts r \<le> int k"
    and "r \<in> set (outbound (st (retry_row L ws c oid k a)))" and "o_ID r = oid"
    and "k = 0 \<Longrightarrow> \<forall>r\<in>set (outbound (st a)). o_ID r = oid \<and> o_Status r = OutboundRetryWait \<longrightarrow> o_Attempts r < max_retries a"
  shows "o_Status r \<noteq> OutboundRetryWait"
  using assms
proof (induction k arbitrary: a)
  case 0
  then show ?case by fastforce
next
  case (Suc k)
  show ?case
  proof (cases "find (\<lambda>r. o_ID r = oid \<and> o_Status r = OutboundRetryWait) (outbound (st a))")
    case None
    then have "r \<in> set (outbound (st a))" using Suc.prems(2) by simp
    with None Suc.prems(3) show ?thesis by (auto simp: find_None_iff)
  next
    case (Some x)
    then have x: "x \<in> set (outbound (st a))" "o_ID x = oid" "o_Status x = OutboundRetryWait" by (auto dest: find_SomeD)
    let ?b = "retry_one L (ws k) c a x"
    obtain f where f: "outbound (st ?b) = upd_where (\<lambda>r. o_ID r = oid) f (outbound (st a))"
      "\<And>r. o_Status (f r) = OutboundRetryWait \<Longrightarrow> o_Attempts (f r) = o_Attempts x + 1 \<and> o_Attempts (f r) < max_retries a"
      "cfg ?b = cfg a"
      using retry_one_row [of L "ws k" c a x] x(2) by metis
    have m: "max_retries ?b = max_retries a" using f(3) by (simp add: max_retries_def)
    have waiting: "o_Attempts q = o_Attempts x + 1 \<and> o_Attempts q < max_retries a"
      if "q \<in> set (outbound (st ?b))" "o_ID q = oid" "o_Status q = OutboundRetryWait" for q
    proof -
      from that(1) [unfolded f(1)] obtain p where "q = f p \<or> q = p \<and> o_ID p \<noteq> oid" by (auto elim!: in_upd_whereE)
      with that f(2) show ?thesis by blast
    qed
    have "max_retries a - o_Attempts x \<le> int (Suc k)" using Suc.prems(1) x by blast
    then have le: "\<forall>q\<in>set (outbound (st ?b)). o_ID q = oid \<and> o_Status q = OutboundRetryWait \<longrightarrow>
        max_retries ?b - o_Attempts q \<le> int k"
      using waiting m by auto
    have lt: "\<forall>q\<in>set (outbound (st ?b)). o_ID q = oid \<and> o_Status q = OutboundRetryWait \<longrightarrow> o_Attempts q < max_retries ?b"
      unfolding m using waiting by blast
    have "r \<in> set (outbound (st (retry_row L ws c oid k ?b)))" using Suc.prems(2) by (simp add: Some)
    then show ?thesis using Suc.IH [OF le _ Suc.prems(3)] lt by blast
  qed
qed

section \<open>Properties\<close>


definition unapproved_app :: app where
  "unapproved_app = policy_app\<lparr>st := empty_store\<lparr>accounts := [sample_account], drafts := [sample_draft],
     versions := [sample_version]\<rparr>\<rparr>"

lemma unapproved_preview:
  "\<exists>pv. PreviewSend sample_lib unapproved_app (sample_ctx ''local'' []) ''drf_1'' = Inr pv \<and>
     sp_PayloadHash pv = sendPayloadHash sample_lib sample_account sample_version \<and> sp_Subject pv = ''Hi''"
proof -
  have r: "ready (st unapproved_app)" by (simp add: ready_def unapproved_app_def empty_store_def)
  have p: "enforceSendPolicy sample_lib unapproved_app sample_account sample_version = None"
    using sample_sendable(2) by (simp add: unapproved_app_def)
  have t: "draftAttachmentsPolicyText sample_lib unapproved_app sample_version = Inr []" "v_Subject sample_version = ''Hi''"
    by (simp_all add: draftAttachmentsPolicyText_def sample_version_def)
  show ?thesis
    by (simp add: PreviewSend_def ready_rows [OF r] sample_sendable(3) p t Let_def)
qed



definition sent_row :: OutboundMessage where
  "sent_row = \<lparr>o_ID = ''out_1'', o_UserID = ''usr_1'', o_DraftID = ''drf_1'', o_DraftVersion = 1,
     o_IdempotencyKey = ''k1'', o_MessageID = ''<m@postra.local>'', o_Status = OutboundUncertain, o_SMTPResponse = [],
     o_Attempts = 1, o_NextAttemptAt = 0, o_CreatedAt = 900, o_UpdatedAt = 900\<rparr>"



definition waiting_app :: app where
  "waiting_app = unapproved_app\<lparr>st := (st unapproved_app)\<lparr>outbound := [sent_row\<lparr>o_Status := OutboundRetryWait\<rparr>]\<rparr>\<rparr>"


end
