(* ===== verification/Send_Bounds.thy ===== *)
theory Send_Bounds
  imports Outbox_Run
begin

text \<open>
  The numbers around sending: the backoff between attempts and the rate limit; and two defects of
  the outbox, as theorems about the model: an idempotency key of another user burns an approval,
  and a background retry never marks the draft.
\<close>

section \<open>Backoff\<close>

lemma double_loop_exact:
  assumes "0 \<le> d" and "d * 2 ^ n < 2 ^ 63"
  shows "double_loop n d = d * 2 ^ n"
  using assms
proof (induction n arbitrary: d)
  case 0
  then show ?case by simp
next
  case (Suc n)
  have "d * 2 \<le> d * 2 ^ Suc n" using Suc.prems(1) by (intro mult_left_mono) simp_all
  then have "wrap64 (d * 2) = d * 2" using Suc.prems by (intro wrap64_id) linarith+
  then show ?case using Suc.IH [of "d * 2"] Suc.prems by (simp add: mult.assoc)
qed

text \<open>
  The delay before attempt \<open>k + 1\<close> is the base delay doubled \<open>k - 1\<close> times, capped at the maximum
  when one is set, as long as the doubled delay fits an \<open>int64\<close> number of nanoseconds.
\<close>

theorem retryBackoff_exact:
  assumes "1 \<le> attempt" and "0 \<le> RetryBaseSeconds (config.Send (cfg a))"
    and "RetryBaseSeconds (config.Send (cfg a)) * 2 ^ nat (attempt - 1) \<le> 9223372036"
    and "0 \<le> RetryMaxSeconds (config.Send (cfg a))" and "RetryMaxSeconds (config.Send (cfg a)) \<le> 9223372036"
  shows "retryBackoff a attempt = 1000000000 *
     (let d = RetryBaseSeconds (config.Send (cfg a)) * 2 ^ nat (attempt - 1); m = RetryMaxSeconds (config.Send (cfg a))
      in if m = 0 then d else min d m)"
proof -
  let ?b = "RetryBaseSeconds (config.Send (cfg a))" and ?m = "RetryMaxSeconds (config.Send (cfg a))"
    and ?n = "nat (attempt - 1)"
  have "?b \<le> ?b * 2 ^ ?n" using assms(2) by (simp add: mult_le_cancel_left1)
  then have b: "seconds ?b = ?b * 1000000000" using assms(2,3) by (intro seconds_exact) linarith
  have m: "seconds ?m = ?m * 1000000000" using assms(4,5) by (intro seconds_exact) linarith
  have "?b * 1000000000 * 2 ^ ?n = 1000000000 * (?b * 2 ^ ?n)" by simp
  moreover have "1000000000 * (?b * 2 ^ ?n) < 2 ^ 63" using assms(3) by simp
  ultimately have d: "double_loop ?n (seconds ?b) = 1000000000 * (?b * 2 ^ ?n)"
    unfolding b using double_loop_exact [of "?b * 1000000000" ?n] assms(2) by simp
  show ?thesis
    unfolding retryBackoff_def Let_def d m using assms(4) by (auto simp: min_def)
qed

theorem retryBackoff_exact_witness: "retryBackoff sample_app 3 = 240 * 1000000000"
proof -
  have "RetryBaseSeconds (config.Send (cfg sample_app)) = 60" "RetryMaxSeconds (config.Send (cfg sample_app)) = 3600"
    by (simp_all add: sample_app_def sample_cfg_def)
  then show ?thesis using retryBackoff_exact [of 3 sample_app] by simp
qed

text \<open>
  Without that bound the doubling wraps before the cap is applied: with a base of one minute and
  a cap of one hour, the 54th delay is zero, an immediate retry.
\<close>

theorem retryBackoff_wraps: "retryBackoff sample_app 54 = 0"
proof -
  have "RetryBaseSeconds (config.Send (cfg sample_app)) = 60" "RetryMaxSeconds (config.Send (cfg sample_app)) = 3600"
    by (simp_all add: sample_app_def sample_cfg_def)
  moreover have "seconds 60 = 60000000000" "seconds 3600 = 3600000000000" by (simp_all add: seconds_exact)
  moreover have "double_loop 53 60000000000 = 0" by code_simp
  ultimately show ?thesis by (simp add: retryBackoff_def Let_def)
qed

section \<open>Rate limit\<close>

definition draft_key :: "Draft \<Rightarrow> string \<times> string \<times> string" where
  "draft_key d = (d_ID d, d_UserID d, d_AccountID d)"

lemma count_alt:
  "db_CountSentSince s u x since = int (length (filter (\<lambda>r. (o_DraftID r, u, x) \<in> draft_key ` set (drafts s) \<and>
     o_Status r = OutboundSent \<and> since \<le> o_UpdatedAt r) (outbound s)))"
proof -
  have "\<not> no_row (\<lambda>d. d_ID d = i \<and> d_UserID d = u \<and> d_AccountID d = x) ds \<longleftrightarrow> (i, u, x) \<in> draft_key ` set ds" for i ds
    by (auto simp: no_row_def list_ex_iff draft_key_def image_iff)
  then show ?thesis by (simp add: db_CountSentSince_def)
qed

lemma applySendResult_drafts:
  assumes "applySendResult w a c out did rc e = (res, a')"
  shows "drafts (st a') = drafts (st a) \<or> drafts (st a') = drafts (db_SetDraftStatus (st a) (now w) (userIDFrom c) did DraftSent)"
  using assms
  by (auto simp: applySendResult_def Let_def db_SetDraftStatus_def db_UpdateOutbound_def db_MarkOutboundRetry_def
      split: option.splits if_splits)

lemma draft_keys_status [simp]: "draft_key ` set (drafts (db_SetDraftStatus s t u i x)) = draft_key ` set (drafts s)"
  by (simp add: db_SetDraftStatus_def image_upd_where_same draft_key_def)

lemma send_approved_count:
  assumes "send_approved L w b c d v acc key = (Inr res, a2)"
  shows "db_CountSentSince (st a2) u x since \<le> db_CountSentSince (st b) u x since + 1"
proof -
  note eff = send_approved_effect [OF assms]
  let ?out = "(new_outbound w c d v key)\<lparr>o_CreatedAt := now w, o_UpdatedAt := now w\<rparr>"
  obtain f where f: "outbound (st a2) = upd_where (\<lambda>r. o_ID r = o_ID res) f (outbound (st b) @ [?out])"
    by (rule row_update_keeps [OF eff(8)]) simp
  have "upd_where (\<lambda>r. o_ID r = o_ID res) f (outbound (st b)) = outbound (st b)"
    using eff(6) by (intro upd_where_id) (auto simp: no_row_iff image_iff)
  then have rows: "outbound (st a2) = outbound (st b) @ upd_where (\<lambda>r. o_ID r = o_ID res) f [?out]"
    unfolding f by (simp add: upd_where_append)
  obtain s' out rc e a1 where del: "deliver L w (b\<lparr>st := s'\<rparr>) c out acc v = ((rc, e), a1)"
    and s': "s' = (st b)\<lparr>outbound := outbound (st b) @ [out]\<rparr>"
    and app: "applySendResult w a1 c out (d_ID d) rc e = (res, a2)"
    by (cases rule: send_approved_cases [of L w b c d v acc key]) (use assms in auto)
  have dr: "draft_key ` set (drafts (st a2)) = draft_key ` set (drafts (st b))"
  proof -
    have "draft_key ` set (drafts (st a2)) = draft_key ` set (drafts (st a1))"
      using applySendResult_drafts [OF app] draft_keys_status by metis
    then show ?thesis using deliver_view(1) [OF del] by (simp add: outbox_view_def s')
  qed
  show ?thesis unfolding count_alt dr rows by simp
qed

text \<open>
  C8. The rate limit holds: when \<open>Send\<close> hands a message to the SMTP client, the messages sent from
  the account within the last minute and the last hour, this one included, are within the
  configured limits.
\<close>

theorem send_rate_respected:
  assumes "smtp_log (snd (Send L w a c inp)) \<noteq> smtp_log a"
    and "db_GetDraft (st a) (userIDFrom c) (in_DraftID inp) = Inr (d, v)"
    and "GetAccount (st a) c (d_AccountID d) = Inr acc"
  shows "(MaxPerMinute (config.Send (cfg a)) > 0 \<longrightarrow>
       db_CountSentSince (st (snd (Send L w a c inp))) (userIDFrom c) (a_ID acc) (now w - 60) \<le> MaxPerMinute (config.Send (cfg a))) \<and>
     (MaxPerHour (config.Send (cfg a)) > 0 \<longrightarrow>
       db_CountSentSince (st (snd (Send L w a c inp))) (userIDFrom c) (a_ID acc) (now w - 3600) \<le> MaxPerHour (config.Send (cfg a)))"
proof (cases rule: Send_cases [of L w a c inp])
  case (refused e)
  then show ?thesis using assms(1) by (simp add: app_view_def)
next
  case (replay x y r)
  then show ?thesis using assms(1) by simp
next
  case (accepted x y z r s1 e)
  then have eq: "x = d" "y = v" "z = acc" using assms(2,3) by auto
  have "outbound s1 = outbound (st a)" "drafts s1 = drafts (st a)"
    using accepted(6) by (auto elim!: consume_row)
  then have s1: "db_CountSentSince s1 u i t = db_CountSentSince (st a) u i t" for u i t
    by (simp add: db_CountSentSince_def)
  obtain res a2 where sa: "send_approved L w (a\<lparr>st := s1\<rparr>) c d v acc (idem_key inp d v) = (Inr res, a2)"
    by (cases rule: send_approved_cases [of L w "a\<lparr>st := s1\<rparr>" c d v acc "idem_key inp d v"])
       (use assms(1) accepted(7) eq in auto)
  have le: "db_CountSentSince (st a2) u i t \<le> db_CountSentSince (st a) u i t + 1" for u i t
    using send_approved_count [OF sa, of u i t] s1 by simp
  have "snd (Send L w a c inp) = a2" using accepted(7) eq sa by simp
  then show ?thesis
    using accepted(5) le [of "userIDFrom c" "a_ID acc" "now w - 60"] le [of "userIDFrom c" "a_ID acc" "now w - 3600"]
    unfolding eq by (auto simp: checkSendRate_def Let_def split: if_splits)
qed

theorem send_rate_respected_witness:
  "db_CountSentSince (st (snd (Send sample_lib busy_io ready_app (sample_ctx ''local'' []) (sample_input ''t''))))
     ''usr_1'' ''acc_1'' 940 \<le> 10"
proof -
  obtain res a2 where s: "Send sample_lib busy_io ready_app (sample_ctx ''local'' []) (sample_input ''t'') = (Inr res, a2)"
    and log: "smtp_log a2 \<noteq> []" using ready_app_send by blast
  have c: "MaxPerMinute (config.Send (cfg ready_app)) = 10" "in_DraftID (sample_input ''t'') = ''drf_1''" "now busy_io = 1000"
    "a_ID sample_account = ''acc_1''"
    by (simp_all add: ready_app_def policy_app_def sample_app_def sample_cfg_def sample_input_def busy_io_def
          sample_io_def sample_account_def)
  show ?thesis
    using send_rate_respected [of sample_lib busy_io ready_app "sample_ctx ''local'' []" "sample_input ''t''" sample_draft
        sample_version sample_account] s log ready_rows [OF ready_app_facts(2)] ready_app_facts(4)
    by (simp add: c)
qed

section \<open>Two defects\<close>

text \<open>
  When the idempotency key is already taken by a row of another user, a request that passes every
  check fails on the unique index after its approval was consumed: nothing is sent and the token is
  spent.
\<close>

theorem foreign_key_burns_approval:
  assumes "ledger_inv (st a)" and "x \<in> set (outbound (st a))" and "o_IdempotencyKey x = idem_key inp d v"
    and "db_GetDraft (st a) (userIDFrom c) (in_DraftID inp) = Inr (d, v)"
    and "GetAccount (st a) c (d_AccountID d) = Inr acc" and "send_refused L a acc v = None"
    and "db_GetOutboundByIdemKey (st a) (userIDFrom c) (idem_key inp d v) = Inl ErrNotFound"
    and "checkSendRate w a c (a_ID acc) = None"
    and "ledger_live (st a) (now w) (hex (sha256 L (in_ApprovalToken inp))) (sendPayloadHash L acc v)"
  shows "(\<exists>f. fst (Send L w a c inp) = Inl (UniqueViolation f)) \<and> smtp_log (snd (Send L w a c inp)) = smtp_log a \<and>
     (\<forall>t p. \<not> ledger_live (st (snd (Send L w a c inp))) t (hex (sha256 L (in_ApprovalToken inp))) p)"
proof -
  let ?h = "hex (sha256 L (in_ApprovalToken inp))"
  obtain r s1 where cons: "db_ConsumeApproval (st a) (now w) ?h (sendPayloadHash L acc v) = (Inr r, s1)"
    using db_ledger.consume_live [OF assms(9)] by blast
  have snd: "Send L w a c inp = send_approved L w (a\<lparr>st := s1\<rparr>) c d v acc (idem_key inp d v)"
    using Send_accepts [OF assms(4-8) cons] .
  have s1: "outbound s1 = outbound (st a)" using cons by (auto elim!: consume_row)
  have "\<exists>f. send_approved L w (a\<lparr>st := s1\<rparr>) c d v acc (idem_key inp d v) = (Inl (UniqueViolation f), a\<lparr>st := s1\<rparr>)"
    by (cases rule: send_approved_cases [of L w "a\<lparr>st := s1\<rparr>" c d v acc "idem_key inp d v"])
       (use assms(2,3) s1 in \<open>auto simp: image_iff\<close>)
  then show ?thesis
    using snd db_ledger.consume_kills [OF assms(1) cons] by auto
qed

definition clash_app :: app where
  "clash_app = ready_app\<lparr>st := (st ready_app)\<lparr>outbound := [sent_row\<lparr>o_UserID := ''usr_2''\<rparr>]\<rparr>\<rparr>"

theorem foreign_key_burns_approval_witness:
  "\<not> ledger_live (st (snd (Send sample_lib busy_io clash_app (sample_ctx ''local'' []) (sample_input ''t'')))) 1000 (hex ''t'')
     (sendPayloadHash sample_lib sample_account sample_version)"
proof -
  let ?c = "sample_ctx ''local'' []" and ?v = sample_version and ?acc = sample_account and ?inp = "sample_input ''t''"
  note r = ready_rows [OF ready_app_facts(2)]
  have out: "outbound (st clash_app) = [sent_row\<lparr>o_UserID := ''usr_2''\<rparr>]" by (simp add: clash_app_def)
  have pol: "clash_app = policy_app\<lparr>st := st clash_app\<rparr>" by (simp add: clash_app_def ready_app_def)
  have 1: "ledger_inv (st clash_app)" using ready_app_facts(3) by (simp add: ledger_inv_def clash_app_def)
  have f: "in_DraftID ?inp = ''drf_1''" "in_ApprovalToken ?inp = ''t''" "sha256 sample_lib ''t'' = ''t''" "now busy_io = 1000"
    "idem_key ?inp sample_draft ?v = ''k1''"
    by (simp_all add: sample_input_def sample_lib_def busy_io_def sample_io_def idem_key_def)
  have 2: "db_GetDraft (st clash_app) (userIDFrom ?c) (in_DraftID ?inp) = Inr (sample_draft, ?v)"
    using r(1) GetDraft_cong [of "st clash_app" "st ready_app"] by (simp add: f clash_app_def)
  have 3: "GetAccount (st clash_app) ?c (d_AccountID sample_draft) = Inr ?acc"
    using r(2) by (simp add: GetAccount_def db_GetAccount_def clash_app_def)
  have 4: "send_refused sample_lib clash_app ?acc ?v = None" using sample_sendable(4) [of "st clash_app"] pol by simp
  have 5: "db_GetOutboundByIdemKey (st clash_app) (userIDFrom ?c) (idem_key ?inp sample_draft ?v) = Inl ErrNotFound"
    by (simp add: db_GetOutboundByIdemKey_def out)
  have "db_CountSentSince (st clash_app) u i t = 0" for u i t by (simp add: db_CountSentSince_def out sent_row_def)
  then have 6: "checkSendRate busy_io clash_app ?c (a_ID ?acc) = None"
    by (simp add: checkSendRate_def clash_app_def ready_app_def policy_app_def sample_app_def sample_cfg_def)
  have 7: "ledger_live (st clash_app) (now busy_io) (hex (sha256 sample_lib (in_ApprovalToken ?inp))) (sendPayloadHash sample_lib ?acc ?v)"
    using ready_app_facts(5) by (simp add: f ledger_live_def clash_app_def)
  show ?thesis
    using foreign_key_burns_approval [OF 1, of "sent_row\<lparr>o_UserID := ''usr_2''\<rparr>" ?inp sample_draft ?v ?c ?acc sample_lib busy_io]
      2 3 4 5 6 7 by (simp add: out f sent_row_def)
qed

text \<open>
  The retry worker runs without a principal and so acts for the built-in user: an attempt it makes,
  even a successful one, leaves the drafts of everybody else as they are, not marked sent, and finds
  no original for the threading headers of a reply.
\<close>

theorem worker_retry_leaves_draft:
  assumes "c_principal c = None"
    and "no_row (\<lambda>d. d_ID d = o_DraftID out \<and> d_UserID d = DefaultUserID) (drafts (st a))"
  shows "drafts (st (retry_one L w c a out)) = drafts (st a) \<and> replyContext (st a) c (o_DraftID out) = None"
proof -
  have u: "userIDFrom c = DefaultUserID" using assms(1) by (simp add: userIDFrom_def)
  have app: "drafts (st a2) = drafts (st a1)"
    if "applySendResult w a1 c out (o_DraftID out) rc e = (res, a2)" "drafts (st a1) = drafts (st a)" for a1 rc e res a2
    using applySendResult_drafts [OF that(1)] that(2) assms(2) by (auto simp: db_SetDraftStatus_def u upd_where_id)
  have "drafts (st (retry_one L w c a out)) = drafts (st a)"
  proof -
    have "drafts (st (snd (applySendResult w (snd x) c out (o_DraftID out) (fst (fst x)) (snd (fst x))))) = drafts (st a)"
      if "x = deliver L w a c out acc v" for x acc v
      using deliver_view(1) [of L w a c out acc v "fst (fst x)" "snd (fst x)" "snd x"] that
        app [of "snd x" "fst (fst x)" "snd (fst x)"]
      by (simp add: outbox_view_def) (metis prod.collapse)
    then show ?thesis
      by (auto simp: retry_one_def Let_def db_UpdateOutbound_def case_prod_beta split: sum.splits)
  qed
  moreover have "db_GetDraft (st a) DefaultUserID (o_DraftID out) = Inl ErrNotFound"
    using assms(2) by (simp add: db_GetDraft_def find_None_no_row [symmetric])
  then have "replyContext (st a) c (o_DraftID out) = None" by (simp add: replyContext_def u)
  ultimately show ?thesis by blast
qed

theorem worker_retry_leaves_draft_witness:
  "drafts (st (retry_one sample_lib sample_io \<lparr>c_actor = Some ''worker'', c_principal = None\<rparr> waiting_app
      (sent_row\<lparr>o_Status := OutboundRetryWait\<rparr>))) = [sample_draft]"
proof -
  have "drafts (st waiting_app) = [sample_draft]" by (simp add: waiting_app_def unapproved_app_def)
  then show ?thesis
    using worker_retry_leaves_draft [of "\<lparr>c_actor = Some ''worker'', c_principal = None\<rparr>"
        "sent_row\<lparr>o_Status := OutboundRetryWait\<rparr>" waiting_app sample_lib sample_io]
    by (simp add: no_row_def sample_draft_def DefaultUserID_def)
qed

end
