(* ===== verification/Inbound.thy ===== *)
theory Inbound
  imports Store_Mail
begin

text \<open>
  Opening an inbound mail session: \<open>validateMailHost\<close>, \<open>checkInsecureAllowed\<close>, \<open>dialInbound\<close>,
  \<open>stageError\<close> and \<open>inboundDialer\<close> of \<open>src/internal/application/app.go\<close>, and the response codes of
  \<open>src/internal/domain/inbound_error.go\<close>.  The address predicates are those of Go's \<open>net.IP\<close>, on the
  4 or 16 bytes of an address; they are compared with the CIDR blocks that the addresses belong to.
\<close>

section \<open>Addresses\<close>

text \<open>\<open>net.IP.To4\<close>: an address in 4-byte or in IPv4-mapped form.\<close>

definition v4_mapped :: "nat list" where
  "v4_mapped = replicate 10 0 @ [255, 255]"

definition To4 :: "nat list \<Rightarrow> nat list option" where
  "To4 ip = (if length ip = 4 then Some ip
             else if length ip = 16 \<and> take 12 ip = v4_mapped then Some (drop 12 ip) else None)"

definition IsUnspecified :: "nat list \<Rightarrow> bool" where
  "IsUnspecified ip = (To4 ip = Some [0, 0, 0, 0] \<or> ip = replicate 16 0)"

definition IsLoopback :: "nat list \<Rightarrow> bool" where
  "IsLoopback ip = (case To4 ip of Some q \<Rightarrow> q ! 0 = 127 | None \<Rightarrow> ip = replicate 15 0 @ [1])"

definition IsPrivate :: "nat list \<Rightarrow> bool" where
  "IsPrivate ip =
     (case To4 ip of
        Some q \<Rightarrow> q ! 0 = 10 \<or> q ! 0 = 172 \<and> and (q ! 1) 0xF0 = 16 \<or> q ! 0 = 192 \<and> q ! 1 = 168
      | None \<Rightarrow> length ip = 16 \<and> and (ip ! 0) 0xFE = 0xFC)"

definition IsLinkLocalUnicast :: "nat list \<Rightarrow> bool" where
  "IsLinkLocalUnicast ip =
     (case To4 ip of
        Some q \<Rightarrow> q ! 0 = 169 \<and> q ! 1 = 254
      | None \<Rightarrow> length ip = 16 \<and> ip ! 0 = 0xFE \<and> and (ip ! 1) 0xC0 = 0x80)"

definition IsLinkLocalMulticast :: "nat list \<Rightarrow> bool" where
  "IsLinkLocalMulticast ip =
     (case To4 ip of
        Some q \<Rightarrow> q ! 0 = 224 \<and> q ! 1 = 0 \<and> q ! 2 = 0
      | None \<Rightarrow> length ip = 16 \<and> ip ! 0 = 0xFF \<and> and (ip ! 1) 0x0F = 0x02)"

section \<open>The host check\<close>

fun check_ips :: "lib \<Rightarrow> app \<Rightarrow> string \<Rightarrow> string list \<Rightarrow> err option" where
  "check_ips L a host [] = None"
| "check_ips L a host (ip # ips) =
     (let q = map byte ip
      in if IsLinkLocalUnicast q \<or> IsLinkLocalMulticast q \<or> IsUnspecified q
         then Some (UserError (''host '' @ go_quote L host @ '' resolves to a forbidden address ('' @
                ip_string L ip @ '')''))
         else if (IsPrivate q \<or> IsLoopback q) \<and> \<not> AllowPrivateHosts (cfg a)
         then Some (UserError (''host '' @ go_quote L host @ '' resolves to a private address ('' @
                ip_string L ip @ ''); enable allow_private_hosts for on-prem servers''))
         else check_ips L a host ips)"

definition validateMailHost :: "lib \<Rightarrow> io \<Rightarrow> app \<Rightarrow> string \<Rightarrow> err option" where
  "validateMailHost L w a host0 =
     (let host = TrimSpace host0
      in if host = [] then Some (UserError ''mail host is empty'')
         else case lookup_ip w host of
                Inl e \<Rightarrow> Some (UserError (''cannot resolve host '' @ go_quote L host @ '': '' @ err_text e))
              | Inr ips \<Rightarrow> check_ips L a host ips)"

section \<open>Transport policy\<close>

fun security_text :: "Security \<Rightarrow> string" where
  "security_text SecurityTLS = ''tls''"
| "security_text SecurityStartTLS = ''starttls''"
| "security_text SecurityNone = ''none''"
| "security_text (SecurityOther s) = s"

definition msg_tls_mail :: string where
  "msg_tls_mail = utf8 [0xEC, 0xA1, 0xB0, 0xEC, 0xA7, 0x81, 0x20, 0xEC, 0xA0, 0x95, 0xEC, 0xB1, 0x85, 0xEC,
     0x97, 0x90, 0xEC, 0x84, 0x9C, 0x20, 0xEA, 0xB2, 0x80, 0xEC, 0xA6, 0x9D, 0xEB, 0x90, 0x9C,
     0x20, 0x54, 0x4C, 0x53, 0x20, 0xEB, 0xA9, 0x94, 0xEC, 0x9D, 0xBC, 0x20, 0xEC, 0x97, 0xB0,
     0xEA, 0xB2, 0xB0, 0xEC, 0x9D, 0x84, 0x20, 0xEC, 0x9A, 0x94, 0xEA, 0xB5, 0xAC, 0xED, 0x95,
     0xA9, 0xEB, 0x8B, 0x88, 0xEB, 0x8B, 0xA4]"
definition msg_smtp_auth :: string where
  "msg_smtp_auth = utf8 [0xEC, 0xA1, 0xB0, 0xEC, 0xA7, 0x81, 0x20, 0xEC, 0xA0, 0x95, 0xEC, 0xB1, 0x85, 0xEC,
     0x97, 0x90, 0xEC, 0x84, 0x9C, 0x20, 0x53, 0x4D, 0x54, 0x50, 0x20, 0xEC, 0x9D, 0xB8, 0xEC,
     0xA6, 0x9D, 0xEC, 0x9D, 0x84, 0x20, 0xEC, 0x9A, 0x94, 0xEA, 0xB5, 0xAC, 0xED, 0x95, 0xA9,
     0xEB, 0x8B, 0x88, 0xEB, 0x8B, 0xA4]"
definition msg_disabled :: "string \<Rightarrow> string" where
  "msg_disabled protocol = utf8 [0xEA, 0xB4, 0x80, 0xEB, 0xA6, 0xAC, 0xEC, 0x9E, 0x90, 0x20, 0xEC, 0xA0, 0x95, 0xEC,
     0xB1, 0x85, 0xEC, 0x97, 0x90, 0xEC, 0x84, 0x9C, 0x20] @ protocol @ utf8 [0x20, 0xEC, 0x97, 0xB0, 0xEA, 0xB2, 0xB0, 0xEC, 0x9D, 0x84, 0x20, 0xEB, 0xB9, 0x84,
     0xED, 0x99, 0x9C, 0xEC, 0x84, 0xB1, 0xED, 0x99, 0x94, 0xED, 0x96, 0x88, 0xEC, 0x8A, 0xB5,
     0xEB, 0x8B, 0x88, 0xEB, 0x8B, 0xA4]"
definition msg_tls :: string where
  "msg_tls = utf8 [0xEC, 0xA1, 0xB0, 0xEC, 0xA7, 0x81, 0x20, 0xEC, 0xA0, 0x95, 0xEC, 0xB1, 0x85, 0xEC,
     0x97, 0x90, 0xEC, 0x84, 0x9C, 0x20, 0xEA, 0xB2, 0x80, 0xEC, 0xA6, 0x9D, 0xEB, 0x90, 0x9C,
     0x20, 0x54, 0x4C, 0x53, 0x20, 0xEC, 0x97, 0xB0, 0xEA, 0xB2, 0xB0, 0xEC, 0x9D, 0x84, 0x20,
     0xEC, 0x9A, 0x94, 0xEA, 0xB5, 0xAC, 0xED, 0x95, 0xA9, 0xEB, 0x8B, 0x88, 0xEB, 0x8B, 0xA4]"
definition msg_plain :: string where
  "msg_plain = utf8 [0xED, 0x8F, 0x89, 0xEB, 0xAC, 0xB8, 0x20, 0xEB, 0x98, 0x90, 0xEB, 0x8A, 0x94, 0x20,
     0xEC, 0x9D, 0xB8, 0xEC, 0xA6, 0x9D, 0xEC, 0x84, 0x9C, 0x20, 0xEA, 0xB2, 0x80, 0xEC, 0xA6,
     0x9D, 0x20, 0xEC, 0x97, 0x86, 0xEB, 0x8A, 0x94, 0x20, 0xEC, 0x97, 0xB0, 0xEA, 0xB2, 0xB0,
     0xEC, 0x9D, 0x80, 0x20, 0xED, 0x97, 0x88, 0xEC, 0x9A, 0xA9, 0xEB, 0x90, 0x98, 0xEC, 0xA7,
     0x80, 0x20, 0xEC, 0x95, 0x8A, 0xEC, 0x8A, 0xB5, 0xEB, 0x8B, 0x88, 0xEB, 0x8B, 0xA4]"

definition checkInsecureAllowed :: "io \<Rightarrow> app \<Rightarrow> ctx \<Rightarrow> MailAccount \<Rightarrow> err option \<times> app" where
  "checkInsecureAllowed w a c acc =
     (if SettingBool a ''mail.tls_required'' \<and>
         (a_POP3Security acc = SecurityNone \<or> a_SMTPSecurity acc = SecurityNone \<or> a_InsecureSkipVerify acc)
      then (Some (UserError msg_tls_mail), a)
      else if SettingBool a ''mail.smtp_auth_required'' \<and> a_SMTPAuth acc = ''none''
      then (Some (UserError msg_smtp_auth), a)
      else if \<not> (a_POP3Security acc = SecurityNone \<or> a_SMTPSecurity acc = SecurityNone \<or>
                 a_SMTPAuth acc = ''none'' \<or> a_InsecureSkipVerify acc)
      then (None, a)
      else if \<not> AllowInsecureMail (cfg a)
      then (Some (UserError (''account uses plaintext/unauthenticated mail transport; '' @
              ''set allow_insecure_mail=true (offline networks only)'')), a)
      else (None, app_audit a w c ''insecure_transport_configured'' (''account:'' @ a_ID acc) ''ok''
              (''pop3='' @ security_text (a_POP3Security acc) @ '' smtp='' @
               security_text (a_SMTPSecurity acc) @ '' smtp_auth='' @ a_SMTPAuth acc @
               '' skip_verify='' @ bool_text (a_InsecureSkipVerify acc))))"

section \<open>Opening a session\<close>

definition stageError :: "string \<Rightarrow> err \<Rightarrow> err" where
  "stageError stage e = InboundError stage [] ''config'' [] 0 0 e"

definition inboundDialer ::
  "lib \<Rightarrow> io \<Rightarrow> MailAccount \<Rightarrow> err + (InboundDialOptions \<Rightarrow> err + InboundSession)" where
  "inboundDialer L w acc =
     (if a_InboundProtocol acc = [] \<or> a_InboundProtocol acc = ''pop3'' then Inr (pop3_dial w)
      else if a_InboundProtocol acc = ''imap''
      then (case imap_dial w of
              None \<Rightarrow> Inl (UserError ''IMAP adapter is not configured'') | Some d \<Rightarrow> Inr d)
      else Inl (UserError (''unknown inbound protocol '' @ go_quote L (a_InboundProtocol acc))))"

definition dial_options :: "app \<Rightarrow> MailAccount \<Rightarrow> string option \<Rightarrow> InboundDialOptions" where
  "dial_options a acc secret =
     \<lparr>do_Host = a_POP3Host acc, do_Port = a_POP3Port acc, do_Security = a_POP3Security acc,
      do_Username = a_POP3Username acc, do_Password = secret,
      do_InsecureSkipVerify = a_InsecureSkipVerify acc,
      do_ConnectTimeoutSec = ConnectTimeoutSec (cfg a), do_CommandTimeoutSec = CommandTimeoutSec (cfg a),
      do_MaxMessageBytes = MaxMessageBytes (cfg a)\<rparr>"

text \<open>
  \<open>dialInbound\<close>.  The secret is acquired only when the account has one, its use is recorded, and
  the session is opened with it; zeroing the handle afterwards has no counterpart here.
\<close>

definition dialInbound ::
  "lib \<Rightarrow> io \<Rightarrow> app \<Rightarrow> MailAccount \<Rightarrow> (err + InboundSession) \<times> app" where
  "dialInbound L w a acc =
     (let protocol = (if a_InboundProtocol acc = ''imap'' then ''imap'' else ''pop3'');
          plain = (a_POP3Security acc = SecurityNone \<or> a_InsecureSkipVerify acc)
      in if \<not> SettingBool a (''mail.'' @ protocol @ ''_enabled'')
         then (Inl (stageError ''policy'' (UserError (msg_disabled protocol))), a)
         else if SettingBool a ''mail.tls_required'' \<and> plain
         then (Inl (stageError ''policy'' (UserError msg_tls)), a)
         else if \<not> AllowInsecureMail (cfg a) \<and> plain
         then (Inl (stageError ''policy'' (UserError msg_plain)), a)
         else case validateMailHost L w a (a_POP3Host acc) of
                Some e \<Rightarrow> (Inl (stageError ''host_check'' e), a)
              | None \<Rightarrow>
                  (case inboundDialer L w acc of
                     Inl e \<Rightarrow> (Inl (stageError ''policy'' e), a)
                   | Inr dial \<Rightarrow>
                       if a_POP3Secret acc = [] then (dial (dial_options a acc None), a)
                       else (case acquire_secret w (a_POP3Secret acc) of
                               Inl e \<Rightarrow> (Inl (stageError ''secret'' e), a)
                             | Inr pw \<Rightarrow>
                                 (dial (dial_options a acc (Some pw)),
                                  a\<lparr>st := db_TouchCredential (st a) (now w) (a_POP3Secret acc)\<rparr>))))"

section \<open>Response codes\<close>

definition inboundCodes :: "string list" where
  "inboundCodes =
     [''UNAVAILABLE'', ''AUTHENTICATIONFAILED'', ''AUTHORIZATIONFAILED'', ''EXPIRED'',
      ''PRIVACYREQUIRED'', ''CONTACTADMIN'', ''NOPERM'', ''INUSE'', ''EXPUNGEISSUED'',
      ''CORRUPTION'', ''SERVERBUG'', ''CLIENTBUG'', ''CANNOT'', ''LIMIT'', ''OVERQUOTA'',
      ''ALREADYEXISTS'', ''NONEXISTENT'', ''TRYCREATE'', ''ALERT'', ''THROTTLED'',
      ''IN-USE'', ''LOGIN-DELAY'', ''SYS/TEMP'', ''SYS/PERM'', ''AUTH'']"

text \<open>The text between the first opening bracket and the first closing one after it.\<close>

definition bracketed :: "string \<Rightarrow> string option" where
  "bracketed reply =
     (let rest = dropWhile (\<lambda>c. c \<noteq> CHR ''['') reply
      in if rest = [] \<or> CHR '']'' \<notin> set rest then None
         else Some (takeWhile (\<lambda>c. c \<noteq> CHR '']'') (tl rest)))"

definition InboundResponseCode :: "lib \<Rightarrow> string \<Rightarrow> string" where
  "InboundResponseCode L reply =
     (case bracketed reply of
        None \<Rightarrow> []
      | Some inner \<Rightarrow>
          (case Fields inner of
             [] \<Rightarrow> []
           | f # _ \<Rightarrow> (let token = ToUpper (uni_upper L) f
                       in if token \<in> set inboundCodes then token else [])))"

definition TemporaryRefusal :: "string \<Rightarrow> bool" where
  "TemporaryRefusal code =
     (code \<in> set [''UNAVAILABLE'', ''LIMIT'', ''INUSE'', ''SERVERBUG'', ''THROTTLED'', ''IN-USE'',
                  ''LOGIN-DELAY'', ''SYS/TEMP''])"

section \<open>The address predicates are CIDR blocks\<close>

text \<open>
  The blocks of the address registries, as a base address and the length of its prefix: the
  link-local and unspecified ones that are always refused, and the private and loopback ones.
\<close>

definition multicast_blocks :: "(nat list \<times> nat) list" where
  "multicast_blocks = map (\<lambda>f. (0xFF # (16 * f + 2) # replicate 14 0, 16)) [0..<16]"

definition forbidden_blocks :: "(nat list \<times> nat) list" where
  "forbidden_blocks =
     [([169, 254, 0, 0], 16), ([224, 0, 0, 0], 24), ([0, 0, 0, 0], 32),
      (0xFE # 0x80 # replicate 14 0, 10), (replicate 16 0, 128)] @
     multicast_blocks"

definition private_blocks :: "(nat list \<times> nat) list" where
  "private_blocks =
     [([10, 0, 0, 0], 8), ([172, 16, 0, 0], 12), ([192, 168, 0, 0], 16), ([127, 0, 0, 0], 8),
      (0xFC # replicate 15 0, 7), (replicate 15 0 @ [1], 128)]"

definition canonical_ip :: "nat list \<Rightarrow> nat list" where
  "canonical_ip ip = (case To4 ip of Some q \<Rightarrow> q | None \<Rightarrow> ip)"

definition ip_value :: "nat list \<Rightarrow> nat" where
  "ip_value bs = foldl (\<lambda>n b. n * 256 + b) 0 bs"

definition in_block :: "nat list \<Rightarrow> nat list \<times> nat \<Rightarrow> bool" where
  "in_block ip blk =
     (let q = canonical_ip ip; base = fst blk; host_bits = 8 * length base - snd blk
      in length q = length base \<and> ip_value q div 2 ^ host_bits = ip_value base div 2 ^ host_bits)"

lemma and_high_mask:
  fixes b :: nat
  assumes "b < 2 ^ (n + m)"
  shows "and b (push_bit n (mask m)) = 2 ^ n * (b div 2 ^ n)"
proof -
  have "and b (push_bit n (mask m)) = push_bit n (take_bit m (drop_bit n b))"
    by (rule bit_eqI) (auto simp: bit_simps)
  moreover have "drop_bit n b < 2 ^ m"
    using assms by (simp add: drop_bit_eq_div less_mult_imp_div_less power_add mult.commute)
  ultimately show ?thesis
    by (simp add: push_bit_eq_mult drop_bit_eq_div take_bit_nat_eq_self mult.commute)
qed

lemma byte_masks:
  fixes b :: nat
  assumes "b < 256"
  shows "and b 0xF0 = 16 \<longleftrightarrow> b div 16 = 1" "and b 0xFE = 0xFC \<longleftrightarrow> b div 2 = 126"
    "and b 0xC0 = 0x80 \<longleftrightarrow> b div 64 = 2" "and b 0x0F = 0x02 \<longleftrightarrow> b mod 16 = 2"
proof -
  have m: "0xF0 = push_bit 4 (mask 4 :: nat)" "0xFE = push_bit 1 (mask 7 :: nat)" "0xC0 = push_bit 6 (mask 2 :: nat)"
    "0x0F = (mask 4 :: nat)"
    by (simp_all add: push_bit_eq_mult mask_eq_exp_minus_1)
  show "and b 0xF0 = 16 \<longleftrightarrow> b div 16 = 1" unfolding m using assms by (subst and_high_mask) auto
  show "and b 0xFE = 0xFC \<longleftrightarrow> b div 2 = 126" unfolding m using assms by (subst and_high_mask) auto
  show "and b 0xC0 = 0x80 \<longleftrightarrow> b div 64 = 2" unfolding m using assms by (subst and_high_mask) auto
  show "and b 0x0F = 0x02 \<longleftrightarrow> b mod 16 = 2" unfolding m by (simp add: take_bit_eq_mask [symmetric] take_bit_eq_mod)
qed

lemma ip_value_Nil [simp]: "ip_value [] = 0"
  by (simp add: ip_value_def)

lemma ip_value_snoc: "ip_value (bs @ [b]) = ip_value bs * 256 + b"
  by (simp add: ip_value_def)

lemma ip_value_append: "ip_value (xs @ ys) = ip_value xs * 256 ^ length ys + ip_value ys"
  by (induction ys rule: rev_induct) (simp_all add: ip_value_snoc algebra_simps flip: append_assoc)

lemma ip_value_less: "list_all (\<lambda>b. b < 256) ys \<Longrightarrow> ip_value ys < 256 ^ length ys"
  by (induction ys rule: rev_induct) (auto simp: ip_value_snoc)

lemma digits_eq:
  fixes b n :: nat
  assumes "b < n" "q < n"
  shows "a * n + b = p * n + q \<longleftrightarrow> a = p \<and> b = q"
proof
  assume eq: "a * n + b = p * n + q"
  have "b = q" using arg_cong [OF eq, of "\<lambda>x. x mod n"] assms by simp
  with eq assms show "a = p \<and> b = q" by simp
qed simp

lemma ip_value_inj:
  "length xs = length ys \<Longrightarrow> list_all (\<lambda>b. b < 256) xs \<Longrightarrow> list_all (\<lambda>b. b < 256) ys \<Longrightarrow>
   ip_value xs = ip_value ys \<longleftrightarrow> xs = ys"
proof (induction xs arbitrary: ys rule: rev_induct)
  case (snoc x xs)
  then obtain z zs where ys: "ys = zs @ [z]" by (metis length_0_conv rev_exhaust snoc_eq_iff_butlast)
  with snoc show ?case by (auto simp: ys ip_value_snoc digits_eq)
qed simp

text \<open>A prefix that ends inside the byte after \<open>xs\<close> depends on \<open>xs\<close> only.\<close>

lemma block_prefix:
  assumes "list_all (\<lambda>b. b < 256) ys" "h = 8 * length ys + k"
  shows "ip_value (xs @ ys) div 2 ^ h = ip_value xs div 2 ^ k"
proof -
  have p: "(2::nat) ^ h = 256 ^ length ys * 2 ^ k"
    by (simp add: assms(2) power_add power_mult)
  have "ip_value ys div 256 ^ length ys = 0" using ip_value_less [OF assms(1)] by simp
  then show ?thesis by (simp add: p div_mult2_eq ip_value_append)
qed

lemma zeros_bytes [simp]: "list_all (\<lambda>b. b < 256) (replicate n (0::nat))"
  by (simp add: list_all_iff)


text \<open>An address as the resolver returns it: 4 or 16 bytes.\<close>

definition ip_ok :: "nat list \<Rightarrow> bool" where
  "ip_ok ip = ((length ip = 4 \<or> length ip = 16) \<and> list_all (\<lambda>b. b < 256) ip)"

lemma canonical_cases:
  assumes "ip_ok ip"
  obtains (v4) a b c d where "To4 ip = Some [a, b, c, d]" "a < 256" "b < 256" "c < 256" "d < 256"
    "ip \<noteq> replicate 16 0"
  | (v6) a b r where "To4 ip = None" "ip = a # b # r" "length r = 14" "a < 256" "b < 256"
    "list_all (\<lambda>b. b < 256) r"
proof (cases "To4 ip")
  case None
  with assms have "length ip = 16" by (auto simp: ip_ok_def To4_def split: if_splits)
  then obtain a b r where "ip = a # b # r" "length r = 14"
    by (auto simp: numeral_eq_Suc length_Suc_conv)
  with None assms show thesis by (intro v6) (auto simp: ip_ok_def)
next
  case (Some q)
  have n0: "ip \<noteq> replicate 16 0" using Some by (auto simp: To4_def v4_mapped_def numeral_eq_Suc)
  have "length q = 4" "list_all (\<lambda>b. b < 256) q"
    using Some assms by (auto simp: To4_def ip_ok_def list_all_iff dest: in_set_dropD split: if_splits)
  then obtain a b c d where "q = [a, b, c, d]" "a < 256" "b < 256" "c < 256" "d < 256"
    by (auto simp: numeral_eq_Suc length_Suc_conv)
  with Some n0 show thesis by (intro v4 [of a b c d]) simp_all
qed

lemma in_block_v4:
  assumes "To4 ip = Some [a, b, c, d]"
  shows "in_block ip ([p, q, r, s], n) \<longleftrightarrow>
     ip_value [a, b, c, d] div 2 ^ (32 - n) = ip_value [p, q, r, s] div 2 ^ (32 - n)"
    "length base = 16 \<Longrightarrow> \<not> in_block ip (base, n)"
  using assms by (simp_all add: in_block_def canonical_ip_def Let_def)

lemma in_block_v6:
  assumes "To4 ip = None" "ip = a # b # r" "length r = 14"
  shows "\<not> in_block ip ([p, q, u, s], n)"
    "length base = 16 \<Longrightarrow> in_block ip (base, n) \<longleftrightarrow>
       ip_value (a # b # r) div 2 ^ (128 - n) = ip_value base div 2 ^ (128 - n)"
  using assms by (simp_all add: in_block_def canonical_ip_def Let_def)

lemma ip_value2: "ip_value [a, b] = a * 256 + b" and ip_value1: "ip_value [a] = a"
  and ip_value3: "ip_value [a, b, c] = (a * 256 + b) * 256 + c"
  by (simp_all add: ip_value_def)

lemma v4_blocks:
  assumes "a < 256" "b < 256" "c < 256" "d < 256"
  shows "ip_value [a, b, c, d] div 2 ^ 24 = a" "ip_value [a, b, c, d] div 2 ^ 20 = a * 16 + b div 16"
    "ip_value [a, b, c, d] div 2 ^ 16 = a * 256 + b"
    "ip_value [a, b, c, d] div 2 ^ 8 = (a * 256 + b) * 256 + c"
  using block_prefix [of "[b, c, d]" 24 0 "[a]"] block_prefix [of "[c, d]" 20 4 "[a, b]"]
    block_prefix [of "[c, d]" 16 0 "[a, b]"] block_prefix [of "[d]" 8 0 "[a, b, c]"] assms
  by (simp_all add: ip_value1 ip_value2 ip_value3)

lemma v6_blocks:
  assumes "length r = 14" "list_all (\<lambda>b. b < 256) r" "b < 256"
  shows "ip_value (a # b # r) div 2 ^ 118 = (a * 256 + b) div 64"
    "ip_value (a # b # r) div 2 ^ 112 = a * 256 + b" "ip_value (a # b # r) div 2 ^ 121 = a div 2"
  using block_prefix [of r 118 6 "[a, b]"] block_prefix [of r 112 0 "[a, b]"]
    block_prefix [of "b # r" 121 1 "[a]"] assms
  by (simp_all add: ip_value1 ip_value2)

lemma byte_pairs:
  fixes a b :: nat
  assumes "b < 256"
  shows "a * 256 + b = 43518 \<longleftrightarrow> a = 169 \<and> b = 254" "a * 256 + b = 49320 \<longleftrightarrow> a = 192 \<and> b = 168"
    "c < 256 \<Longrightarrow> (a * 256 + b) * 256 + c = 14680064 \<longleftrightarrow> a = 224 \<and> b = 0 \<and> c = 0"
    "a * 16 + b div 16 = 2753 \<longleftrightarrow> a = 172 \<and> b div 16 = 1"
  using digits_eq [of b 256 254 a 169] digits_eq [of b 256 168 a 192] digits_eq [of c 256 0 "a * 256 + b" 57344]
    digits_eq [of b 256 0 a 224] digits_eq [of "b div 16" 16 1 a 172] assms
  by simp_all

lemma forbidden_iff:
  assumes "ip_ok ip"
  shows "IsLinkLocalUnicast ip \<or> IsLinkLocalMulticast ip \<or> IsUnspecified ip \<longleftrightarrow>
    list_ex (in_block ip) forbidden_blocks"
  using assms
proof (cases rule: canonical_cases)
  case (v4 a b c d)
  note blk = in_block_v4 [OF v4(1)] and val = v4_blocks [OF v4(2-5)]
  have one: "ip_value [a, b, c, d] = ip_value [0, 0, 0, 0] \<longleftrightarrow> [a, b, c, d] = [0, 0, 0, 0]"
    using v4 by (intro ip_value_inj) simp_all
  have m: "list_ex (in_block ip) multicast_blocks = False"
    by (auto simp: multicast_blocks_def list_ex_iff blk(2))
  have f: "list_ex (in_block ip) forbidden_blocks \<longleftrightarrow>
      a * 256 + b = 43518 \<or> (a * 256 + b) * 256 + c = 14680064 \<or> [a, b, c, d] = [0, 0, 0, 0]"
    using val v4_blocks [of 169 254 0 0] v4_blocks [of 224 0 0 0] one
    by (simp add: forbidden_blocks_def m blk)
  show ?thesis unfolding f byte_pairs(1) [OF v4(3)] byte_pairs(3) [OF v4(3,4)] using v4
    by (auto simp: IsLinkLocalUnicast_def IsLinkLocalMulticast_def IsUnspecified_def)
next
  case (v6 a b r)
  note blk = in_block_v6 [OF v6(1-3)] and val = v6_blocks [OF v6(3,6,5), of a]
  have one: "ip_value (a # b # r) = ip_value (replicate 16 0) \<longleftrightarrow> a # b # r = replicate 16 0"
    using v6 by (intro ip_value_inj) simp_all
  have z: "ip_value (p # q # replicate 14 0) div 2 ^ 118 = (p * 256 + q) div 64"
    "ip_value (p # q # replicate 14 0) div 2 ^ 112 = p * 256 + q" if "q < 256" for p q
    using v6_blocks [of "replicate 14 0" q p] that by simp_all
  have m: "list_ex (in_block ip) multicast_blocks \<longleftrightarrow>
      a = 0xFF \<and> b mod 16 = 2"
  proof -
    have "in_block ip (0xFF # (16 * f + 2) # replicate 14 0, 16) \<longleftrightarrow> a = 0xFF \<and> b = 16 * f + 2" if "f < 16" for f
      using blk(2) [of "0xFF # (16 * f + 2) # replicate 14 0" 16] val(2) z(2) [of "16 * f + 2" 255] that v6(4,5)
        digits_eq [of b 256 "16 * f + 2" a 255] by simp
    then have "list_ex (in_block ip) multicast_blocks \<longleftrightarrow> a = 0xFF \<and> (\<exists>f<16. b = 16 * f + 2)"
      by (auto simp: multicast_blocks_def list_ex_iff)
    also have "(\<exists>f<16. b = 16 * f + 2) \<longleftrightarrow> b mod 16 = 2"
      using v6(5) by presburger
    finally show ?thesis .
  qed
  have u: "in_block ip (0xFE # 0x80 # replicate 14 0, 10) \<longleftrightarrow> a = 0xFE \<and> b div 64 = 2"
  proof -
    have "(a * 256 + b) div 64 = a * 4 + b div 64"
      using div_mult_self3 [of 64 "a * 4" b] by (simp add: mult.commute)
    moreover have "b div 64 < 4" using v6(5) by (simp add: div_less_iff_less_mult)
    ultimately show ?thesis
      using blk(2) [of "0xFE # 0x80 # replicate 14 0" 10] val(1) z(1) [of 128 254]
        digits_eq [of "b div 64" 4 2 a 254] by simp
  qed
  have o: "in_block ip (replicate 16 0, 128) \<longleftrightarrow> a # b # r = replicate 16 0"
    using blk(2) [of "replicate 16 0" 128] one by simp
  have f: "list_ex (in_block ip) forbidden_blocks \<longleftrightarrow>
      a = 0xFE \<and> b div 64 = 2 \<or> a # b # r = replicate 16 0 \<or> a = 0xFF \<and> b mod 16 = 2"
    by (simp only: forbidden_blocks_def list_ex_append m) (simp add: u o blk(1))
  show ?thesis unfolding f using v6(1-5)
    by (auto simp: IsLinkLocalUnicast_def IsLinkLocalMulticast_def IsUnspecified_def byte_masks)
qed

lemma private_iff:
  assumes "ip_ok ip"
  shows "IsPrivate ip \<or> IsLoopback ip \<longleftrightarrow> list_ex (in_block ip) private_blocks"
  using assms
proof (cases rule: canonical_cases)
  case (v4 a b c d)
  note blk = in_block_v4 [OF v4(1)] and val = v4_blocks [OF v4(2-5)]
  have f: "list_ex (in_block ip) private_blocks \<longleftrightarrow>
      a = 10 \<or> a * 16 + b div 16 = 2753 \<or> a * 256 + b = 49320 \<or> a = 127"
    using val v4_blocks [of 10 0 0 0] v4_blocks [of 172 16 0 0] v4_blocks [of 192 168 0 0] v4_blocks [of 127 0 0 0]
    by (simp add: private_blocks_def blk)
  show ?thesis unfolding f byte_pairs(2,4) [OF v4(3)] using v4
    by (auto simp: IsPrivate_def IsLoopback_def byte_masks)
next
  case (v6 a b r)
  note blk = in_block_v6 [OF v6(1-3)] and val = v6_blocks [OF v6(3,6,5), of a]
  have one: "ip_value (a # b # r) = ip_value (replicate 15 0 @ [1]) \<longleftrightarrow> a # b # r = replicate 15 0 @ [1]"
    using v6 by (intro ip_value_inj) simp_all
  have u: "in_block ip (0xFC # replicate 15 0, 7) \<longleftrightarrow> a div 2 = 126"
    using blk(2) [of "0xFC # replicate 15 0" 7] val block_prefix [of "replicate 15 0" 121 1 "[0xFC]"]
    by (simp add: ip_value1)
  have o: "in_block ip (replicate 15 0 @ [1], 128) \<longleftrightarrow> a # b # r = replicate 15 0 @ [1]"
    using blk(2) [of "replicate 15 0 @ [1]" 128] one by simp
  have f: "list_ex (in_block ip) private_blocks \<longleftrightarrow> a div 2 = 126 \<or> a # b # r = replicate 15 0 @ [1]"
    by (simp only: private_blocks_def) (simp only: list_ex_iff set_simps ball_simps bex_simps u o blk(1) simp_thms)
  show ?thesis unfolding f using v6(1-5) by (auto simp: IsPrivate_def IsLoopback_def byte_masks)
qed

lemma check_ips_iff:
  "check_ips L a host ips = None \<longleftrightarrow>
     (\<forall>ip\<in>set ips. \<not> (IsLinkLocalUnicast (map byte ip) \<or> IsLinkLocalMulticast (map byte ip) \<or>
         IsUnspecified (map byte ip)) \<and>
       (IsPrivate (map byte ip) \<or> IsLoopback (map byte ip) \<longrightarrow> AllowPrivateHosts (cfg a)))"
  by (induction ips) (auto simp: Let_def)


text \<open>The cloud metadata address, also when the resolver returns it as an IPv6-mapped address.\<close>

definition metadata_io :: io where
  "metadata_io = sample_io\<lparr>lookup_ip := (\<lambda>_. Inr [utf8 (replicate 10 0 @ [255, 255, 169, 254, 169, 254])])\<rparr>"


end
