(* ===== verification/Server_Delete.thy ===== *)
theory Server_Delete
  imports Inbound Approvals Mail_Ingest
begin

text \<open>
  Approval-gated deletion on the mail server: \<open>ServerDeletePreview\<close>, \<open>RequestServerDeleteApproval\<close>
  and \<open>ServerDelete\<close> of \<open>src/internal/application/delete.go\<close>.  Besides its result, \<open>ServerDelete\<close>
  returns the message numbers of the \<open>DELE\<close> commands it sent.
\<close>

section \<open>Numbers\<close>

text \<open>The digits are written from the right into a buffer of 20 bytes, enough for any \<open>int\<close>.\<close>

function itoa_loop :: "int \<Rightarrow> string \<Rightarrow> string" where
  "itoa_loop n out = (if n > 0 then itoa_loop (n div 10) (digit (nat (n mod 10)) # out) else out)"
  by pat_completeness auto
termination
  by (relation "measure (\<lambda>(n, out). nat n)") auto

declare itoa_loop.simps [simp del]

definition itoa :: "int \<Rightarrow> string" where
  "itoa n = (if n = 0 then ''0'' else itoa_loop n [])"

definition joinInt :: "string \<Rightarrow> int \<Rightarrow> string" where
  "joinInt pre n = pre @ itoa n"

section \<open>Preview and approval\<close>

record ServerDeleteCandidate =
  sdc_UIDL :: string
  sdc_Number :: int
  sdc_Deletable :: bool
  sdc_Reason :: string

record ServerDeletePreviewInfo =
  sdp_AccountID :: string
  sdp_Candidates :: "ServerDeleteCandidate list"
  sdp_Deletable :: "string list"
  sdp_PayloadHash :: string

record ServerDeleteResult =
  sdr_Deleted :: "string list"
  sdr_Uncertain :: "string list"
  sdr_Skipped :: "string list"

definition delete_text :: "string \<Rightarrow> string list \<Rightarrow> string" where
  "delete_text accountID uidls =
     ''server_delete'' @ nl @ accountID @ nl @ concat (map (\<lambda>u. u @ nl) (sort uidls))"

definition serverDeletePayloadHash :: "lib \<Rightarrow> string \<Rightarrow> string list \<Rightarrow> string" where
  "serverDeletePayloadHash L accountID uidls = hex (sha256 L (delete_text accountID uidls))"

definition delete_candidate :: "string list \<Rightarrow> RemoteMessage \<Rightarrow> ServerDeleteCandidate" where
  "delete_candidate stored rm =
     \<lparr>sdc_UIDL = rm_UIDL rm, sdc_Number = rm_Number rm, sdc_Deletable = (rm_UIDL rm \<in> set stored),
      sdc_Reason = (if rm_UIDL rm \<in> set stored then [] else ''not stored locally'')\<rparr>"

definition ServerDeletePreview ::
  "lib \<Rightarrow> io \<Rightarrow> app \<Rightarrow> ctx \<Rightarrow> string \<Rightarrow> (err + ServerDeletePreviewInfo) \<times> app" where
  "ServerDeletePreview L w a c accountID =
     (case db_GetAccount (st a) (userIDFrom c) accountID of
        Inl e \<Rightarrow> (Inl e, a)
      | Inr acc \<Rightarrow>
          (case dialInbound L w a acc of
             (Inl e, a1) \<Rightarrow> (Inl e, a1)
           | (Inr sess, a1) \<Rightarrow>
               (case se_UIDL sess of
                  Inl e \<Rightarrow>
                    (Inl (UserError ''server does not support UIDL; server delete is disabled for safety''), a1)
                | Inr remote \<Rightarrow>
                    (let stored = db_StoredUIDLs (st a1) accountID;
                         deletable = map rm_UIDL (filter (\<lambda>rm. rm_UIDL rm \<in> set stored) remote)
                     in (Inr \<lparr>sdp_AccountID = accountID, sdp_Candidates = map (delete_candidate stored) remote,
                              sdp_Deletable = deletable,
                              sdp_PayloadHash = serverDeletePayloadHash L accountID deletable\<rparr>,
                         app_audit a1 w c ''server_delete_preview'' (''account:'' @ accountID) ''ok''
                           (TrimSpace (joinInt ''deletable='' (int (length deletable)))))))))"

text \<open>With nothing to delete the preview is returned beside the error.\<close>

definition RequestServerDeleteApproval ::
  "lib \<Rightarrow> io \<Rightarrow> app \<Rightarrow> ctx \<Rightarrow> string \<Rightarrow> string \<Rightarrow> int
     \<Rightarrow> ServerDeletePreviewInfo option \<times> (err + ApprovalToken) \<times> app" where
  "RequestServerDeleteApproval L w a c accountID approver ttlSeconds =
     (case ServerDeletePreview L w a c accountID of
        (Inl e, a1) \<Rightarrow> (None, Inl e, a1)
      | (Inr pv, a1) \<Rightarrow>
          if sdp_Deletable pv = []
          then (Some pv, Inl (UserError ''no locally-stored messages are eligible for server deletion''), a1)
          else (case Issue L w a1 \<lparr>ar_UserID = userIDFrom c, ar_ActionType = ''server_delete'',
                        ar_DraftID = [], ar_DraftVersion = 0, ar_PayloadHash = sdp_PayloadHash pv,
                        ar_TTLSeconds = ttlSeconds, ar_Approver = approver\<rparr> of
                  (Inl e, a2) \<Rightarrow> (None, Inl e, a2)
                | (Inr tok, a2) \<Rightarrow>
                    (Some pv, Inr tok,
                     app_audit a2 w c ''server_delete_approval_issue'' (''account:'' @ accountID) ''ok'' approver)))"

section \<open>Deleting\<close>

text \<open>
  The loop over the listing: the numbers sent with \<open>DELE\<close>, the UIDLs marked for deletion and those
  the server refused to mark.
\<close>

fun dele_loop ::
  "InboundSession \<Rightarrow> string list \<Rightarrow> RemoteMessage list \<Rightarrow> int list \<times> string list \<times> string list" where
  "dele_loop sess want [] = ([], [], [])"
| "dele_loop sess want (rm # rms) =
     (if rm_UIDL rm \<notin> set want then dele_loop sess want rms
      else (let (calls, marked, skipped) = dele_loop sess want rms
            in case se_Delete sess (rm_Number rm) of
                 Some e \<Rightarrow> (rm_Number rm # calls, marked, rm_UIDL rm # skipped)
               | None \<Rightarrow> (rm_Number rm # calls, rm_UIDL rm # marked, skipped)))"

definition ServerDelete ::
  "lib \<Rightarrow> io \<Rightarrow> app \<Rightarrow> ctx \<Rightarrow> string \<Rightarrow> string list \<Rightarrow> string
     \<Rightarrow> (err + ServerDeleteResult) \<times> int list \<times> app" where
  "ServerDelete L w a c accountID uidls approvalToken =
     (case db_GetAccount (st a) (userIDFrom c) accountID of
        Inl e \<Rightarrow> (Inl e, [], a)
      | Inr acc \<Rightarrow>
          (case VerifyAndConsume L w a approvalToken (serverDeletePayloadHash L accountID uidls) of
             (Some e, a1) \<Rightarrow>
               (Inl (UserError (''server delete rejected: '' @ err_text e)), [],
                app_audit a1 w c ''server_delete'' (''account:'' @ accountID) ''denied'' (err_text e))
           | (None, a1) \<Rightarrow>
               (let stored = db_StoredUIDLs (st a1) accountID;
                    want = filter (\<lambda>u. u \<in> set stored) uidls
                in case dialInbound L w a1 acc of
                     (Inl e, a2) \<Rightarrow> (Inl e, [], a2)
                   | (Inr sess, a2) \<Rightarrow>
                       (case se_UIDL sess of
                          Inl e \<Rightarrow> (Inl (UserError ''server does not support UIDL; aborting delete''), [], a2)
                        | Inr remote \<Rightarrow>
                            (let (calls, marked, skipped) = dele_loop sess want remote
                             in case se_Quit sess of
                                  Some e \<Rightarrow>
                                    (Inr \<lparr>sdr_Deleted = [], sdr_Uncertain = marked, sdr_Skipped = skipped\<rparr>, calls,
                                     app_audit a2 w c ''server_delete'' (''account:'' @ accountID) ''uncertain''
                                       (joinInt ''uncertain='' (int (length marked))))
                                | None \<Rightarrow>
                                    (Inr \<lparr>sdr_Deleted = marked, sdr_Uncertain = [], sdr_Skipped = skipped\<rparr>, calls,
                                     app_audit a2 w c ''server_delete'' (''account:'' @ accountID) ''ok''
                                       (joinInt ''deleted='' (int (length marked)))))))))"

section \<open>Numbers, lemmas\<close>

lemma itoa_loop_dec: "n > 0 \<Longrightarrow> itoa_loop n out = dec (nat n) @ out"
proof (induction n out rule: itoa_loop.induct)
  case (1 n out)
  have m: "nat (n mod 10) = nat n mod 10" "nat (n div 10) = nat n div 10"
    using "1.prems" by (simp_all add: nat_mod_distrib nat_div_distrib)
  show ?case
  proof (cases "n < 10")
    case True
    then have "nat n < 10" "n div 10 = 0" "n mod 10 = n" using "1.prems" by auto
    then show ?thesis using "1.prems" by (simp add: itoa_loop.simps dec.simps [of "nat n"])
  next
    case False
    then have "n div 10 > 0" "\<not> nat n < 10" using "1.prems" by auto
    then show ?thesis
      using "1.IH" [OF "1.prems"] "1.prems" m
      by (simp add: itoa_loop.simps [of n] dec.simps [of "nat n"])
  qed
qed

lemma itoa_dec: "itoa (int n) = dec n"
proof (cases "n = 0")
  case True
  have "CHR ''0'' = digit 0" by code_simp
  with True show ?thesis by (simp add: itoa_def dec.simps [of 0])
qed (simp add: itoa_def itoa_loop_dec)

section \<open>The digest binds the set of messages\<close>

lemma split_on_lines:
  "split_on CHR 0x0A (concat (map (\<lambda>u. u @ nl) us)) = concat (map (split_on CHR 0x0A) us) @ [[]]"
  by (induction us) (simp_all add: split_on_sep nl_def)

lemma split_on_safe: "line_safe u \<Longrightarrow> split_on CHR 0x0A u = [u]"
  by (simp add: split_on_free line_safe_def)

lemma concat_split_safe:
  "(\<And>u. u \<in> set us \<Longrightarrow> line_safe u) \<Longrightarrow> concat (map (split_on CHR 0x0A) us) = us"
  by (induction us) (simp_all add: split_on_safe)

text \<open>
  Every line-safe identifier of a list is among those of any other list with the same text; the
  other list has to be line-safe, the first one need not be.
\<close>

lemma delete_text_binds:
  assumes "delete_text acc uidls = delete_text acc' approved" "line_safe acc" "line_safe acc'"
    and "\<And>u. u \<in> set approved \<Longrightarrow> line_safe u"
  shows "acc = acc'" "u \<in> set uidls \<Longrightarrow> line_safe u \<Longrightarrow> u \<in> set approved"
proof -
  have "acc @ CHR 0x0A # concat (map (\<lambda>u. u @ nl) (sort uidls)) =
      acc' @ CHR 0x0A # concat (map (\<lambda>u. u @ nl) (sort approved))"
    using assms(1) by (simp add: delete_text_def nl_def)
  from line_split [OF assms(2,3) this] have acc: "acc = acc'"
    and body: "concat (map (\<lambda>u. u @ nl) (sort uidls)) = concat (map (\<lambda>u. u @ nl) (sort approved))"
    by simp_all
  have "concat (map (split_on CHR 0x0A) (sort uidls)) = sort approved"
    using arg_cong [OF body, of "split_on CHR 0x0A"] concat_split_safe [of "sort approved"] assms(4)
    by (simp add: split_on_lines)
  then have "\<Union> (set ` set (map (split_on CHR 0x0A) (sort uidls))) = set approved"
    by (metis set_concat set_sort)
  then show "u \<in> set uidls \<Longrightarrow> line_safe u \<Longrightarrow> u \<in> set approved"
    by (force simp: split_on_safe)
  show "acc = acc'" by (rule acc)
qed

text \<open>An approval to send can never be spent on a deletion: the digested texts differ.\<close>

lemma delete_text_not_payload: "delete_text acc uidls \<noteq> payload_text L acc' v"
  by (simp add: delete_text_def payload_text_def)

section \<open>The deletion loop\<close>

definition wanted :: "string list \<Rightarrow> RemoteMessage list \<Rightarrow> RemoteMessage list" where
  "wanted want remote = filter (\<lambda>rm. rm_UIDL rm \<in> set want) remote"

lemma dele_loop_calls: "fst (dele_loop sess want rms) = map rm_Number (wanted want rms)"
  by (induction rms) (simp_all add: wanted_def case_prod_beta split: option.split)

lemma dele_loop_partition:
  "dele_loop sess want rms = (calls, marked, skipped) \<Longrightarrow>
   marked = map rm_UIDL (filter (\<lambda>rm. se_Delete sess (rm_Number rm) = None) (wanted want rms)) \<and>
   skipped = map rm_UIDL (filter (\<lambda>rm. se_Delete sess (rm_Number rm) \<noteq> None) (wanted want rms))"
  by (induction rms arbitrary: calls marked skipped)
     (auto simp: wanted_def split: option.splits prod.splits if_splits)

lemma dialInbound_view:
  "snd (dialInbound L w a acc) = a \<or>
   snd (dialInbound L w a acc) = a\<lparr>st := db_TouchCredential (st a) (now w) (a_POP3Secret acc)\<rparr>"
  by (simp add: dialInbound_def Let_def split: option.split sum.split)

lemma dialInbound_tables [simp]:
  "checkpoints (st (snd (dialInbound L w a acc))) = checkpoints (st a)"
  "approvals (st (snd (dialInbound L w a acc))) = approvals (st a)"
  using dialInbound_view [of L w a acc] by (auto simp: db_TouchCredential_def)

text \<open>Every path of a deletion: refused before, or after, the approval is spent, or carried out.\<close>

lemma ServerDelete_cases:
  assumes "ServerDelete L w a c accountID uidls token = (r, calls, a')"
  obtains (quiet) "calls = []"
  | (sent) acc a1 a2 sess remote marked skipped where
      "db_GetAccount (st a) (userIDFrom c) accountID = Inr acc"
      "VerifyAndConsume L w a token (serverDeletePayloadHash L accountID uidls) = (None, a1)"
      "dialInbound L w a1 acc = (Inr sess, a2)" "se_UIDL sess = Inr remote"
      "dele_loop sess (filter (\<lambda>u. u \<in> set (db_StoredUIDLs (st a1) accountID)) uidls) remote =
         (calls, marked, skipped)"
      "r = Inr (if se_Quit sess = None
                then \<lparr>sdr_Deleted = marked, sdr_Uncertain = [], sdr_Skipped = skipped\<rparr>
                else \<lparr>sdr_Deleted = [], sdr_Uncertain = marked, sdr_Skipped = skipped\<rparr>)"
      "approvals (st a') = approvals (st a1)"
proof (cases "calls = []")
  case False
  from False assms obtain acc where acc: "db_GetAccount (st a) (userIDFrom c) accountID = Inr acc"
    by (auto simp: ServerDelete_def split: sum.splits)
  obtain v a1 where v: "VerifyAndConsume L w a token (serverDeletePayloadHash L accountID uidls) = (v, a1)"
    by (cases "VerifyAndConsume L w a token (serverDeletePayloadHash L accountID uidls)")
  with False assms acc have vn: "v = None" by (auto simp: ServerDelete_def split: option.splits)
  obtain d a2 where d: "dialInbound L w a1 acc = (d, a2)" by (cases "dialInbound L w a1 acc")
  with False assms acc v vn obtain sess where s: "d = Inr sess"
    by (auto simp: ServerDelete_def Let_def split: sum.splits)
  with False assms acc v vn d obtain remote where rem: "se_UIDL sess = Inr remote"
    by (auto simp: ServerDelete_def Let_def split: sum.splits)
  obtain cs marked skipped where loop:
    "dele_loop sess (filter (\<lambda>u. u \<in> set (db_StoredUIDLs (st a1) accountID)) uidls) remote = (cs, marked, skipped)"
    by (metis prod_cases3)
  have ap: "approvals (st a2) = approvals (st a1)" using dialInbound_tables(2) [of L w a1 acc] d by simp
  have res: "cs = calls \<and> approvals (st a') = approvals (st a1) \<and>
      r = Inr (if se_Quit sess = None
                then \<lparr>sdr_Deleted = marked, sdr_Uncertain = [], sdr_Skipped = skipped\<rparr>
                else \<lparr>sdr_Deleted = [], sdr_Uncertain = marked, sdr_Skipped = skipped\<rparr>)"
    using assms acc v vn d s rem loop ap by (auto simp: ServerDelete_def Let_def split: option.splits)
  show thesis
    by (rule sent [OF acc _ _ rem]) (use v vn d s loop res in simp_all)
qed (rule quiet)

lemma consume_spends:
  assumes "ledger_inv (st a)" "VerifyAndConsume L w a token p = (None, a1)"
  shows "ledger_live (st a) (now w) (hex (sha256 L token)) p" "\<not> ledger_live (st a1) t (hex (sha256 L token)) q"
    "checkpoints (st a1) = checkpoints (st a)"
proof -
  show "ledger_live (st a) (now w) (hex (sha256 L token)) p"
    using VerifyAndConsume_ok [of L w a token p] assms(2) by simp
  obtain v s' where v: "db_ConsumeApproval (st a) (now w) (hex (sha256 L token)) p = (v, s')" by fastforce
  with assms(2) obtain x where x: "v = Inr x" "st a1 = s'"
    by (auto simp: VerifyAndConsume_def split: sum.splits)
  then show "\<not> ledger_live (st a1) t (hex (sha256 L token)) q"
    using db_ledger.consume_kills [OF assms(1)] v by simp
  have "checkpoints s' = checkpoints (st a)"
    using v by (auto simp: db_ConsumeApproval_def split: option.splits)
  then show "checkpoints (st a1) = checkpoints (st a)" by (simp add: x)
qed

section \<open>Properties\<close>

text \<open>
  C9.  A message is marked for deletion on the mail server only under an approval that is live at
  that moment, that was issued for this account, and only when it is in the approved set and was
  fetched before; the approval is spent by it and authorises nothing more.  The request may list
  any identifiers; account and approved identifiers hold no line break, and the digest has no
  collision on the two texts.
\<close>

theorem server_delete_only_approved:
  assumes "ServerDelete L w a c accountID uidls token = (r, calls, a')" and "n \<in> set calls"
    and "ledger_inv (st a)"
    and "\<forall>x\<in>set (approvals (st a)). ap_TokenHash x = hex (sha256 L token) \<longrightarrow>
           ap_PayloadHash x = serverDeletePayloadHash L account approved"
    and "line_safe accountID" and "line_safe account" and "\<forall>u\<in>set approved. line_safe u"
    and "\<forall>u\<in>set (db_StoredUIDLs (st a) accountID). line_safe u"
    and "collision_free L (delete_text accountID uidls) (delete_text account approved)"
  shows "accountID = account \<and>
     (\<exists>acc b sess remote rm. db_GetAccount (st a) (userIDFrom c) accountID = Inr acc \<and>
        fst (dialInbound L w b acc) = Inr sess \<and> se_UIDL sess = Inr remote \<and>
        rm \<in> set remote \<and> rm_Number rm = n \<and>
        rm_UIDL rm \<in> set approved \<and> rm_UIDL rm \<in> set (db_StoredUIDLs (st a) accountID)) \<and>
     ledger_live (st a) (now w) (hex (sha256 L token)) (serverDeletePayloadHash L account approved) \<and>
     \<not> ledger_live (st a') t (hex (sha256 L token)) p"
  using assms(1)
proof (cases rule: ServerDelete_cases)
  case quiet
  with assms(2) show ?thesis by simp
next
  case (sent acc a1 a2 sess remote marked skipped)
  note spent = consume_spends [OF assms(3) sent(2)]
  have hash: "serverDeletePayloadHash L accountID uidls = serverDeletePayloadHash L account approved"
    using spent(1) assms(4) by (auto simp: ledger_live_def list_ex_iff approval_live_def)
  then have eq: "delete_text accountID uidls = delete_text account approved"
    using assms(9) by (auto simp: serverDeletePayloadHash_def collision_free_def dest: hex_inj)
  have safe: "\<And>u. u \<in> set approved \<Longrightarrow> line_safe u" using assms(7) by blast
  note binds = delete_text_binds [OF eq assms(5,6) safe]
  have stored: "db_StoredUIDLs (st a1) accountID = db_StoredUIDLs (st a) accountID"
    by (simp add: db_StoredUIDLs_def spent(3))
  have "calls = map rm_Number (wanted (filter (\<lambda>u. u \<in> set (db_StoredUIDLs (st a) accountID)) uidls) remote)"
    using dele_loop_calls sent(5) unfolding stored by (metis fst_conv)
  then obtain rm where "rm \<in> set (wanted (filter (\<lambda>u. u \<in> set (db_StoredUIDLs (st a) accountID)) uidls) remote)"
      and num: "rm_Number rm = n" using assms(2) by auto
  then have rm: "rm \<in> set remote" "rm_UIDL rm \<in> set uidls" "rm_UIDL rm \<in> set (db_StoredUIDLs (st a) accountID)"
    by (simp_all add: wanted_def)
  have "\<not> ledger_live (st a') t (hex (sha256 L token)) p"
    using spent(2) [of t p] sent(7) by (simp add: ledger_live_def)
  moreover have "rm_UIDL rm \<in> set approved" using binds(2) rm(2,3) assms(8) by blast
  moreover have "fst (dialInbound L w a1 acc) = Inr sess" using sent(3) by simp
  ultimately show ?thesis using binds(1) rm num spent(1) hash sent(1,4) by metis
qed

text \<open>
  The report of a deletion accounts for every message it asked the server to delete, once: each
  is either refused by the server and skipped, or marked; the marked ones are reported as deleted
  exactly when the session ended cleanly, and as uncertain otherwise.
\<close>

theorem server_delete_report:
  assumes "ServerDelete L w a c accountID uidls token = (Inr res, calls, a')" and "calls \<noteq> []"
  shows "length calls = length (sdr_Deleted res) + length (sdr_Uncertain res) + length (sdr_Skipped res) \<and>
     (sdr_Deleted res = [] \<or> sdr_Uncertain res = []) \<and>
     set (sdr_Deleted res) \<union> set (sdr_Uncertain res) \<union> set (sdr_Skipped res) \<subseteq> set uidls"
  using assms(1)
proof (cases rule: ServerDelete_cases)
  case quiet
  with assms(2) show ?thesis by simp
next
  case (sent acc a1 a2 sess remote marked skipped)
  let ?want = "filter (\<lambda>u. u \<in> set (db_StoredUIDLs (st a1) accountID)) uidls"
  note part = dele_loop_partition [OF sent(5)]
  have "length calls = length (wanted ?want remote)"
    using dele_loop_calls [of sess ?want remote] sent(5) by simp
  also have "\<dots> = length marked + length skipped"
    using part sum_length_filter_compl [of "\<lambda>rm. se_Delete sess (rm_Number rm) = None" "wanted ?want remote"]
    by simp
  finally have len: "length calls = length marked + length skipped" .
  have sub: "set marked \<union> set skipped \<subseteq> set uidls" using part by (auto simp: wanted_def)
  show ?thesis using sent(6) len sub by (cases "se_Quit sess = None") simp_all
qed

text \<open>
  A message deleted locally still counts as stored: its checkpoint remains, so the server copy, now
  the only one, stays eligible for deletion.
\<close>

theorem local_delete_keeps_eligible:
  "db_StoredUIDLs (st (snd (LocalDelete L w a c mid))) accountID = db_StoredUIDLs (st a) accountID"
  by (simp add: db_StoredUIDLs_def)

text \<open>A maildrop with one fetched message, and an approval to delete it.\<close>

definition delete_app :: app where
  "delete_app = sample_app\<lparr>setting_values := map_of [(''mail.pop3_enabled'', ''true'')],
     st := empty_store\<lparr>accounts := [sample_account],
       checkpoints := [\<lparr>cp_AccountID = ''acc_1'', cp_UIDL = ''u1'', cp_MessageID = ''msg_1''\<rparr>],
       approvals := [\<lparr>ap_ID = ''apr_1'', ap_UserID = ''usr_1'', ap_ActionType = ''server_delete'',
         ap_DraftID = [], ap_DraftVersion = 0,
         ap_PayloadHash = serverDeletePayloadHash sample_lib ''acc_1'' [''u1''],
         ap_TokenHash = hex ''tk'', ap_Approver = ''kim'', ap_ExpiresAt = 1600,
         ap_Status = ApprovalPending, ap_CreatedAt = 1000\<rparr>]\<rparr>\<rparr>"

lemma delete_run:
  "\<exists>a'. ServerDelete sample_lib sample_io delete_app (sample_ctx ''session'' []) ''acc_1'' [''u1''] ''tk'' =
     (Inr \<lparr>sdr_Deleted = [''u1''], sdr_Uncertain = [], sdr_Skipped = []\<rparr>, [1], a')"
proof -
  have acc: "db_GetAccount (st delete_app) (userIDFrom (sample_ctx ''session'' [])) ''acc_1'' = Inr sample_account"
    by (simp add: db_GetAccount_def delete_app_def sample_account_def userIDFrom_def sample_ctx_def sample_principal_def)
  have h: "hex (sha256 sample_lib ''tk'') = hex ''tk''" by (simp add: sample_lib_def)
  obtain a1 where v: "VerifyAndConsume sample_lib sample_io delete_app ''tk''
        (serverDeletePayloadHash sample_lib ''acc_1'' [''u1'']) = (None, a1)"
    and a1: "db_StoredUIDLs (st a1) ''acc_1'' = [''u1'']" "cfg a1 = sample_cfg"
      "Setting a1 = Setting delete_app"
    by (auto simp: VerifyAndConsume_def h db_ConsumeApproval_def delete_app_def approval_live_def
        sample_io_def db_StoredUIDLs_def sample_app_def fun_eq_iff Setting_def cong: option.case_cong)
  have host: "validateMailHost sample_lib sample_io a1 (a_POP3Host sample_account) = None"
  proof -
    have t: "TrimSpace (a_POP3Host sample_account) = ''pop.corp.test''"
      unfolding sample_account_def by (simp add: TrimSpace_graphic graphic_def byte_def)
    have z: "[93, 184, 216, 34] \<noteq> replicate 16 (0::nat)" by (auto dest: arg_cong [where f = length])
    have b: "map byte (utf8 [93, 184, 216, 34]) = [93, 184, 216, 34]" by (simp add: utf8_def)
    show ?thesis
      by (simp add: validateMailHost_def t sample_io_def b IsLinkLocalUnicast_def IsLinkLocalMulticast_def
          IsUnspecified_def IsPrivate_def IsLoopback_def To4_def Let_def z)
  qed
  have set: "SettingBool a1 ''mail.pop3_enabled''" "\<not> SettingBool a1 ''mail.tls_required''"
    by (simp_all add: SettingBool_def a1(3)) (simp_all add: Setting_def delete_app_def sample_app_def)
  have d: "dialInbound sample_lib sample_io a1 sample_account = (Inr sample_session, a1)"
    using set host
    by (simp add: dialInbound_def sample_account_def inboundDialer_def) (simp add: sample_io_def)
  have loop: "dele_loop sample_session [''u1'']
      [\<lparr>rm_Number = 1, rm_UIDL = ''u1'', rm_Size = 2\<rparr>, \<lparr>rm_Number = 2, rm_UIDL = ''u2'', rm_Size = 2\<rparr>] =
      ([1], [''u1''], [])"
    by (simp add: sample_session_def Let_def)
  have s: "se_UIDL sample_session = Inr [\<lparr>rm_Number = 1, rm_UIDL = ''u1'', rm_Size = 2\<rparr>,
      \<lparr>rm_Number = 2, rm_UIDL = ''u2'', rm_Size = 2\<rparr>]" "se_Quit sample_session = None"
    by (simp_all add: sample_session_def Let_def)
  show ?thesis by (simp add: ServerDelete_def acc v a1 d s loop del: dele_loop.simps)
qed

lemma delete_app_facts:
  "ledger_inv (st delete_app)" "db_StoredUIDLs (st delete_app) ''acc_1'' = [''u1'']"
  by (simp_all add: delete_app_def ledger_inv_def db_StoredUIDLs_def)

theorem server_delete_only_approved_witness:
  "\<exists>a'. (\<forall>t p. \<not> ledger_live (st a') t (hex (sha256 sample_lib ''tk'')) p) \<and>
     ServerDelete sample_lib sample_io delete_app (sample_ctx ''session'' []) ''acc_1'' [''u1''] ''tk'' =
       (Inr \<lparr>sdr_Deleted = [''u1''], sdr_Uncertain = [], sdr_Skipped = []\<rparr>, [1], a')"
proof -
  obtain a' where run: "ServerDelete sample_lib sample_io delete_app (sample_ctx ''session'' []) ''acc_1'' [''u1''] ''tk'' =
       (Inr \<lparr>sdr_Deleted = [''u1''], sdr_Uncertain = [], sdr_Skipped = []\<rparr>, [1], a')"
    using delete_run by blast
  have "\<forall>x\<in>set (approvals (st delete_app)). ap_TokenHash x = hex (sha256 sample_lib ''tk'') \<longrightarrow>
      ap_PayloadHash x = serverDeletePayloadHash sample_lib ''acc_1'' [''u1'']"
    by (simp add: delete_app_def)
  then have "\<not> ledger_live (st a') t (hex (sha256 sample_lib ''tk'')) p" for t p
    using server_delete_only_approved [OF run, of 1 "''acc_1''" "[''u1'']" t p] delete_app_facts
    by (auto simp: line_safe_def collision_free_def)
  with run show ?thesis by blast
qed

theorem server_delete_report_witness:
  "\<exists>res calls a'. ServerDelete sample_lib sample_io delete_app (sample_ctx ''session'' []) ''acc_1'' [''u1''] ''tk'' =
       (Inr res, calls, a') \<and> length calls = length (sdr_Deleted res)"
proof -
  obtain a' where run: "ServerDelete sample_lib sample_io delete_app (sample_ctx ''session'' []) ''acc_1'' [''u1''] ''tk'' =
       (Inr \<lparr>sdr_Deleted = [''u1''], sdr_Uncertain = [], sdr_Skipped = []\<rparr>, [1], a')"
    using delete_run by blast
  from server_delete_report [OF run] run show ?thesis by auto
qed

end
