(* ===== verification/Go_Base64.thy ===== *)
theory Go_Base64
  imports Go_Prelude
begin

text \<open>
  The unpadded encodings of Go's \<open>encoding/base64\<close> (\<open>RawStdEncoding\<close> and \<open>RawURLEncoding\<close>).  Decoding
  skips carriage returns and line feeds, refuses every character outside the alphabet and a single
  left-over character, and ignores the unused bits of the last one.
\<close>

definition b64_std :: string where
  "b64_std = ''ABCDEFGHIJKLMNOPQRSTUVWXYZabcdefghijklmnopqrstuvwxyz0123456789+/''"

definition b64_url :: string where
  "b64_url = ''ABCDEFGHIJKLMNOPQRSTUVWXYZabcdefghijklmnopqrstuvwxyz0123456789-_''"

fun b64_sextets :: "nat list \<Rightarrow> nat list" where
  "b64_sextets [] = []"
| "b64_sextets [a] = [a div 4, (a mod 4) * 16]"
| "b64_sextets [a, b] = [a div 4, (a mod 4) * 16 + b div 16, (b mod 16) * 4]"
| "b64_sextets (a # b # c # r) =
     [a div 4, (a mod 4) * 16 + b div 16, (b mod 16) * 4 + c div 64, c mod 64] @ b64_sextets r"

definition b64_encode :: "string \<Rightarrow> string \<Rightarrow> string" where
  "b64_encode alphabet s = map (\<lambda>i. alphabet ! i) (b64_sextets (map byte s))"

fun b64_octets :: "nat list \<Rightarrow> nat list option" where
  "b64_octets [] = Some []"
| "b64_octets [x] = None"
| "b64_octets [x, y] = Some [x * 4 + y div 16]"
| "b64_octets [x, y, z] = Some [x * 4 + y div 16, (y mod 16) * 16 + z div 4]"
| "b64_octets (x # y # z # t # r) =
     map_option (\<lambda>bs. [x * 4 + y div 16, (y mod 16) * 16 + z div 4, (z mod 4) * 64 + t] @ bs) (b64_octets r)"

definition b64_value :: "string \<Rightarrow> char \<Rightarrow> nat" where
  "b64_value alphabet c = length (takeWhile (\<lambda>x. x \<noteq> c) alphabet)"

definition b64_decode :: "string \<Rightarrow> string \<Rightarrow> string option" where
  "b64_decode alphabet s =
     (let cs = filter (\<lambda>c. c \<noteq> CHR 0x0A \<and> c \<noteq> CHR 0x0D) s
      in if list_all (\<lambda>c. c \<in> set alphabet) cs
         then map_option (map char_of) (b64_octets (map (b64_value alphabet) cs)) else None)"

section \<open>Round trip\<close>

lemma b64_sextets_less: "list_all (\<lambda>b. b < 256) bs \<Longrightarrow> list_all (\<lambda>x. x < 64) (b64_sextets bs)"
proof (induction bs rule: b64_sextets.induct)
  case (4 a b c r)
  have "a div 4 < 64" "a mod 4 * 16 + b div 16 < 64" "b mod 16 * 4 + c div 64 < 64"
    using "4.prems" by auto
  with 4 show ?case by simp
qed (auto)

lemma b64_octets_sextets: "list_all (\<lambda>b. b < 256) bs \<Longrightarrow> b64_octets (b64_sextets bs) = Some bs"
proof (induction bs rule: b64_sextets.induct)
  case (3 a b)
  then show ?case by auto
next
  case (4 a b c r)
  have "(a mod 4 * 16 + b div 16) div 16 = a mod 4" "(a mod 4 * 16 + b div 16) mod 16 = b div 16"
    "(b mod 16 * 4 + c div 64) div 4 = b mod 16" "(b mod 16 * 4 + c div 64) mod 4 = c div 64"
    using "4.prems" by auto
  with 4 show ?case by (simp add: mult.commute)
qed auto

lemma nth_value:
  "distinct al \<Longrightarrow> i < length al \<Longrightarrow> b64_value al (al ! i) = i"
proof (induction al arbitrary: i)
  case (Cons a al)
  then show ?case by (cases i) (auto simp: b64_value_def)
qed simp

theorem b64_roundtrip:
  assumes "distinct al" "length al = 64" "CHR 0x0A \<notin> set al" "CHR 0x0D \<notin> set al"
  shows "b64_decode al (b64_encode al s) = Some s"
proof -
  let ?xs = "b64_sextets (map byte s)"
  have b: "list_all (\<lambda>b. b < 256) (map byte s)" by (simp add: list_all_iff)
  note less = b64_sextets_less [OF b]
  have set: "c \<in> set al" if "c \<in> set (b64_encode al s)" for c
    using that less assms(2) by (auto simp: b64_encode_def list_all_iff)
  then have f: "filter (\<lambda>c. c \<noteq> CHR 0x0A \<and> c \<noteq> CHR 0x0D) (b64_encode al s) = b64_encode al s"
    using assms(3,4) by (intro filter_True) blast
  have v: "map (b64_value al) (b64_encode al s) = ?xs"
    using less assms(1,2) by (auto simp: b64_encode_def list_all_iff nth_value intro!: map_idI)
  have "map char_of (map byte s) = s" by (simp add: byte_def comp_def)
  then show ?thesis
    using set by (simp add: b64_decode_def f v b64_octets_sextets [OF b] list_all_iff Let_def)
qed

lemma b64_alphabets:
  "distinct b64_std" "length b64_std = 64" "CHR 0x0A \<notin> set b64_std" "CHR 0x0D \<notin> set b64_std"
  "CHR ''$'' \<notin> set b64_std" "distinct b64_url" "length b64_url = 64"
  by (simp_all add: b64_std_def b64_url_def)

lemma set_b64_encode: "length al = 64 \<Longrightarrow> set (b64_encode al s) \<subseteq> set al"
  using b64_sextets_less [of "map byte s"] by (auto simp: b64_encode_def list_all_iff)

end
