(* ===== verification/Identity.thy ===== *)
theory Identity
  imports Go_Base64 Mcp_Policy Sample_World
begin

text \<open>
  Users, passwords, browser sessions and MCP keys: the tables of
  \<open>src/internal/adapters/persistence/store.go\<close> and the use cases of \<open>src/internal/application/auth.go\<close>
  and \<open>mcpscopes.go\<close>.  Argon2 is the library function \<open>argon2_key\<close> with the cost parameters of the
  code; SQL's \<open>lower\<close> folds ASCII letters only.
\<close>

section \<open>Users\<close>

definition sql_lower :: "string \<Rightarrow> string" where
  "sql_lower s = map ascii_lower s"

fun user_status_text :: "UserStatus \<Rightarrow> string" where
  "user_status_text UserActive = ''active''"
| "user_status_text UserDisabled = ''disabled''"
| "user_status_text UserDeleted = ''deleted''"

definition new_user :: "string \<Rightarrow> User" where
  "new_user uid = \<lparr>u_ID = uid, u_LoginID = [], u_DisplayName = [], u_Email = [], u_Role = RoleOther [],
     u_Status = UserActive, u_AuthProvider = [], u_OIDCIssuer = [], u_OIDCSubject = [], u_CreatedAt = 0,
     u_UpdatedAt = 0, u_LastLoginAt = 0\<rparr>"

definition db_EnsureUser :: "store \<Rightarrow> int \<Rightarrow> string \<Rightarrow> string \<Rightarrow> store" where
  "db_EnsureUser s ts uid loginID =
     (if \<not> no_row (\<lambda>r. u_ID (fst r) = uid \<or> sql_lower (u_LoginID (fst r)) = sql_lower loginID) (users s) then s
      else s\<lparr>users := users s @
             [((new_user uid)\<lparr>u_LoginID := loginID, u_DisplayName := loginID, u_Role := RoleUser,
                 u_Status := UserActive, u_AuthProvider := ''local'', u_CreatedAt := ts, u_UpdatedAt := ts\<rparr>, [])]\<rparr>)"

text \<open>The uniqueness constraints on a user row, against the rows with another id.\<close>

definition user_clash :: "store \<Rightarrow> User \<Rightarrow> string option" where
  "user_clash s u =
     (if \<not> no_row (\<lambda>r. u_ID (fst r) \<noteq> u_ID u \<and> u_LoginID (fst r) = u_LoginID u) (users s)
      then Some ''users.login_id''
      else if u_OIDCSubject u \<noteq> [] \<and>
              \<not> no_row (\<lambda>r. u_ID (fst r) \<noteq> u_ID u \<and> u_OIDCIssuer (fst r) = u_OIDCIssuer u \<and>
                             u_OIDCSubject (fst r) = u_OIDCSubject u) (users s)
      then Some ''users.oidc_issuer, users.oidc_subject'' else None)"

definition db_CreateUser :: "store \<Rightarrow> int \<Rightarrow> User \<Rightarrow> string \<Rightarrow> err + (User \<times> store)" where
  "db_CreateUser s ts u0 passwordHash =
     (let u = u0\<lparr>u_CreatedAt := ts, u_UpdatedAt := ts\<rparr>
      in if \<not> no_row (\<lambda>r. u_ID (fst r) = u_ID u) (users s) then Inl (UniqueViolation ''users.id'')
         else case user_clash s u of
                Some k \<Rightarrow> Inl (UniqueViolation k)
              | None \<Rightarrow> Inr (u, s\<lparr>users := users s @ [(u, passwordHash)]\<rparr>))"

definition db_GetUser :: "store \<Rightarrow> string \<Rightarrow> err + User" where
  "db_GetUser s uid =
     (case find (\<lambda>r. u_ID (fst r) = uid) (users s) of None \<Rightarrow> Inl ErrNotFound | Some r \<Rightarrow> Inr (fst r))"

definition db_GetUserByEmail :: "store \<Rightarrow> string \<Rightarrow> err + User" where
  "db_GetUserByEmail s email0 =
     (let email = TrimSpace email0;
          rows = filter (\<lambda>r. sql_lower (u_Email (fst r)) = sql_lower email \<and> u_Email (fst r) \<noteq> [] \<and>
                             u_Status (fst r) = UserActive) (users s)
      in if email = [] then Inl ErrNotFound
         else case take 2 rows of [r] \<Rightarrow> Inr (fst r) | _ \<Rightarrow> Inl ErrNotFound)"

definition db_GetUserByLogin :: "store \<Rightarrow> string \<Rightarrow> err + (User \<times> string)" where
  "db_GetUserByLogin s loginID =
     (case find (\<lambda>r. sql_lower (u_LoginID (fst r)) = sql_lower loginID) (users s) of
        None \<Rightarrow> Inl ErrNotFound | Some r \<Rightarrow> Inr r)"

definition db_GetUserByOIDC :: "store \<Rightarrow> string \<Rightarrow> string \<Rightarrow> err + User" where
  "db_GetUserByOIDC s issuer subject =
     (case find (\<lambda>r. u_OIDCIssuer (fst r) = issuer \<and> u_OIDCSubject (fst r) = subject) (users s) of
        None \<Rightarrow> Inl ErrNotFound | Some r \<Rightarrow> Inr (fst r))"

definition db_ListUsers :: "store \<Rightarrow> User list" where
  "db_ListUsers s = sort_key u_LoginID (map fst (users s))"

text \<open>\<open>UpdateUser\<close> writes every column but the id, the password hash and the creation time.\<close>

definition db_UpdateUser :: "store \<Rightarrow> int \<Rightarrow> User \<Rightarrow> err + (User \<times> store)" where
  "db_UpdateUser s ts u0 =
     (let u = u0\<lparr>u_UpdatedAt := ts\<rparr>
      in if no_row (\<lambda>r. u_ID (fst r) = u_ID u) (users s) then Inl ErrNotFound
         else case user_clash s u of
                Some k \<Rightarrow> Inl (UniqueViolation k)
              | None \<Rightarrow> Inr (u, s\<lparr>users := upd_where (\<lambda>r. u_ID (fst r) = u_ID u)
                  (\<lambda>r. (u\<lparr>u_CreatedAt := u_CreatedAt (fst r)\<rparr>, snd r)) (users s)\<rparr>))"

definition db_SetUserPassword :: "store \<Rightarrow> int \<Rightarrow> string \<Rightarrow> string \<Rightarrow> err + store" where
  "db_SetUserPassword s ts uid passwordHash =
     (if no_row (\<lambda>r. u_ID (fst r) = uid) (users s) then Inl ErrNotFound
      else Inr (s\<lparr>users := upd_where (\<lambda>r. u_ID (fst r) = uid)
             (\<lambda>r. ((fst r)\<lparr>u_AuthProvider := ''local'', u_UpdatedAt := ts\<rparr>, passwordHash)) (users s)\<rparr>))"

definition active_admin :: "User \<Rightarrow> bool" where
  "active_admin u = (u_Role u = RoleAdmin \<and> u_Status u = UserActive)"

definition db_CountAdmins :: "store \<Rightarrow> int" where
  "db_CountAdmins s = int (length (filter (\<lambda>r. active_admin (fst r)) (users s)))"

section \<open>Sessions and MCP keys\<close>

text \<open>A session and a key refer to an existing user by a foreign key.\<close>

definition db_CreateSession :: "store \<Rightarrow> int \<Rightarrow> Session \<Rightarrow> err + (Session \<times> store)" where
  "db_CreateSession s ts ss0 =
     (let ss = ss0\<lparr>ss_CreatedAt := ts, ss_LastSeen := ts\<rparr>
      in if \<not> no_row (\<lambda>r. ss_ID r = ss_ID ss) (sessions s) then Inl (UniqueViolation ''auth_sessions.id'')
         else if \<not> no_row (\<lambda>r. ss_TokenHash r = ss_TokenHash ss) (sessions s)
         then Inl (UniqueViolation ''auth_sessions.token_hash'')
         else if no_row (\<lambda>r. u_ID (fst r) = ss_UserID ss) (users s)
         then Inl (SysError ''FOREIGN KEY constraint failed'')
         else Inr (ss, s\<lparr>sessions := sessions s @ [ss]\<rparr>))"

text \<open>The owner of a credential row, which the queries join.\<close>

definition owner_row :: "store \<Rightarrow> string \<Rightarrow> (User \<times> string) option" where
  "owner_row s uid = find (\<lambda>r. u_ID (fst r) = uid) (users s)"

definition db_GetSessionByTokenHash :: "store \<Rightarrow> int \<Rightarrow> string \<Rightarrow> err + (Session \<times> User)" where
  "db_GetSessionByTokenHash s ts hash =
     (case find (\<lambda>ss. ss_TokenHash ss = hash \<and> ss_ExpiresAt ss > ts \<and> owner_row s (ss_UserID ss) \<noteq> None)
              (sessions s) of
        None \<Rightarrow> Inl ErrNotFound
      | Some ss \<Rightarrow> Inr (ss, fst (the (owner_row s (ss_UserID ss)))))"

definition db_TouchSession :: "store \<Rightarrow> string \<Rightarrow> int \<Rightarrow> store" where
  "db_TouchSession s sid lastSeen =
     s\<lparr>sessions := upd_where (\<lambda>r. ss_ID r = sid) (\<lambda>r. r\<lparr>ss_LastSeen := lastSeen\<rparr>) (sessions s)\<rparr>"

definition db_DeleteSession :: "store \<Rightarrow> string \<Rightarrow> store" where
  "db_DeleteSession s sid = s\<lparr>sessions := del_where (\<lambda>r. ss_ID r = sid) (sessions s)\<rparr>"

definition db_DeleteUserSessions :: "store \<Rightarrow> string \<Rightarrow> store" where
  "db_DeleteUserSessions s userID = s\<lparr>sessions := del_where (\<lambda>r. ss_UserID r = userID) (sessions s)\<rparr>"

definition db_CreateMCPKey :: "store \<Rightarrow> int \<Rightarrow> MCPKey \<Rightarrow> err + (MCPKey \<times> store)" where
  "db_CreateMCPKey s ts key0 =
     (let key = key0\<lparr>k_CreatedAt := ts\<rparr>
      in if \<not> no_row (\<lambda>r. k_ID r = k_ID key) (mcp_keys s) then Inl (UniqueViolation ''mcp_keys.id'')
         else if \<not> no_row (\<lambda>r. k_KeyHash r = k_KeyHash key) (mcp_keys s)
         then Inl (UniqueViolation ''mcp_keys.key_hash'')
         else if no_row (\<lambda>r. u_ID (fst r) = k_UserID key) (users s)
         then Inl (SysError ''FOREIGN KEY constraint failed'')
         else Inr (key, s\<lparr>mcp_keys := mcp_keys s @ [key\<lparr>k_LegacyScopes := False\<rparr>]\<rparr>))"

text \<open>This query leaves the OIDC columns of the owner out.\<close>

definition db_GetMCPKeyByHash :: "store \<Rightarrow> string \<Rightarrow> err + (MCPKey \<times> User)" where
  "db_GetMCPKeyByHash s keyHash =
     (case find (\<lambda>k. k_KeyHash k = keyHash \<and> k_Status k = ''active'' \<and> owner_row s (k_UserID k) \<noteq> None)
              (mcp_keys s) of
        None \<Rightarrow> Inl ErrNotFound
      | Some k \<Rightarrow> Inr (k, (fst (the (owner_row s (k_UserID k))))\<lparr>u_OIDCIssuer := [], u_OIDCSubject := []\<rparr>))"

definition db_ListAllMCPKeys :: "store \<Rightarrow> MCPKey list" where
  "db_ListAllMCPKeys s = sort_key (\<lambda>k. - k_CreatedAt k) (mcp_keys s)"

definition db_ListMCPKeys :: "store \<Rightarrow> string \<Rightarrow> MCPKey list" where
  "db_ListMCPKeys s userID = sort_key (\<lambda>k. - k_CreatedAt k) (filter (\<lambda>k. k_UserID k = userID) (mcp_keys s))"

definition db_RevokeMCPKey :: "store \<Rightarrow> string \<Rightarrow> string \<Rightarrow> err + store" where
  "db_RevokeMCPKey s userID keyID =
     (let hit = (\<lambda>k. k_ID k = keyID \<and> (userID \<noteq> [] \<longrightarrow> k_UserID k = userID))
      in if no_row hit (mcp_keys s) then Inl ErrNotFound
         else Inr (s\<lparr>mcp_keys := upd_where hit (\<lambda>k. k\<lparr>k_Status := ''revoked''\<rparr>) (mcp_keys s)\<rparr>))"

definition db_TouchMCPKey :: "store \<Rightarrow> string \<Rightarrow> int \<Rightarrow> store" where
  "db_TouchMCPKey s keyID lastUsedAt =
     s\<lparr>mcp_keys := upd_where (\<lambda>k. k_ID k = keyID) (\<lambda>k. k\<lparr>k_LastUsedAt := lastUsedAt\<rparr>) (mcp_keys s)\<rparr>"

definition db_UpdateMCPKeyScopes :: "store \<Rightarrow> string \<Rightarrow> string \<Rightarrow> string list \<Rightarrow> err + store" where
  "db_UpdateMCPKeyScopes s userID keyID scopes =
     (let hit = (\<lambda>k. k_ID k = keyID \<and> (userID = [] \<or> k_UserID k = userID) \<and> k_Status k = ''active'')
      in if no_row hit (mcp_keys s) then Inl ErrNotFound
         else Inr (s\<lparr>mcp_keys := upd_where hit (\<lambda>k. k\<lparr>k_Scopes := scopes, k_LegacyScopes := False\<rparr>) (mcp_keys s)\<rparr>))"

section \<open>Passwords and tokens\<close>

definition hashPassword :: "lib \<Rightarrow> io \<Rightarrow> string \<Rightarrow> err + string" where
  "hashPassword L w password =
     (if length password < 12 then Inl (UserError ''password must be at least 12 characters'')
      else (let salt = rand_bytes w 0 16; key = argon2_key L password salt
            in Inr (''$argon2id$v=19$m=65536,t=3,p=2$'' @ b64_encode b64_std salt @ ''$'' @ b64_encode b64_std key)))"

text \<open>
  \<open>%d\<close> of \<open>Sscanf\<close> into an unsigned integer: white space is skipped, except that a line feed fails;
  at least one digit is required.  A value that does not fit the variable is an error, which the
  caller turns into the same refusal as a value other than the expected one.
\<close>

function skip_scan_space :: "string \<Rightarrow> string option" where
  "skip_scan_space s =
     (case find (\<lambda>p. p \<noteq> [] \<and> prefix p s) space_runes of
        None \<Rightarrow> Some s
      | Some p \<Rightarrow> if p = [CHR 0x0A] then None else skip_scan_space (drop (length p) s))"
  by pat_completeness auto
termination
  by (relation "measure length") (auto dest: strip_decreases)

declare skip_scan_space.simps [simp del]

lemma skip_graphic: "graphic c \<Longrightarrow> skip_scan_space (c # s) = Some (c # s)"
proof -
  assume "graphic c"
  then have "find (\<lambda>p. p \<noteq> [] \<and> prefix p (c # s)) space_runes = None"
    using graphic_space_runes by (auto simp: find_None_iff list_all_iff prefix_Cons)
  then show ?thesis by (simp add: skip_scan_space.simps)
qed

definition scan_uint :: "string \<Rightarrow> (nat \<times> string) option" where
  "scan_uint s =
     (case skip_scan_space s of
        None \<Rightarrow> None
      | Some t \<Rightarrow>
          (let ds = takeWhile is_digit t
           in if ds = [] then None else Some (digits_val ds, dropWhile is_digit t)))"

definition scan_literal :: "string \<Rightarrow> string \<Rightarrow> string option" where
  "scan_literal pat s = (if prefix pat s then Some (drop (length pat) s) else None)"

text \<open>\<open>Sscanf(s, "m=%d,t=%d,p=%d", \<dots>)\<close>; what follows the last number is not looked at.\<close>

definition scan_params :: "string \<Rightarrow> (nat \<times> nat \<times> nat) option" where
  "scan_params s =
     Option.bind (scan_literal ''m='' s) (\<lambda>s1.
     Option.bind (scan_uint s1) (\<lambda>(memory, s2).
     Option.bind (scan_literal '',t='' s2) (\<lambda>s3.
     Option.bind (scan_uint s3) (\<lambda>(iterations, s4).
     Option.bind (scan_literal '',p='' s4) (\<lambda>s5.
     Option.bind (scan_uint s5) (\<lambda>(parallelism, s6). Some (memory, iterations, parallelism)))))))"

definition verifyPassword :: "lib \<Rightarrow> string \<Rightarrow> string \<Rightarrow> bool" where
  "verifyPassword L encoded password =
     (let parts = split_on CHR ''$'' encoded
      in if length parts \<noteq> 6 \<or> parts ! 1 \<noteq> ''argon2id'' \<or> parts ! 2 \<noteq> ''v=19'' then False
         else case scan_params (parts ! 3) of
                None \<Rightarrow> False
              | Some params \<Rightarrow>
                  (case b64_decode b64_std (parts ! 4) of
                     None \<Rightarrow> False
                   | Some salt \<Rightarrow>
                       (case b64_decode b64_std (parts ! 5) of
                          None \<Rightarrow> False
                        | Some expected \<Rightarrow>
                            length expected = 32 \<and> params = (65536, 3, 2) \<and>
                            argon2_key L password salt = expected)))"

definition token :: "io \<Rightarrow> nat \<Rightarrow> nat \<Rightarrow> string" where
  "token w i n = b64_encode b64_url (rand_bytes w i n)"

definition tokenHash :: "lib \<Rightarrow> string \<Rightarrow> string" where
  "tokenHash L value = b64_encode b64_url (sha256 L value)"

end
