(* ===== verification/Auth_Service.thy ===== *)
theory Auth_Service
  imports Identity Rules_Engine
begin

text \<open>
  The use cases of \<open>src/internal/application/auth.go\<close> and the key scopes of \<open>mcpscopes.go\<close>: first
  administrator, login, sessions, user administration, MCP keys, and the purge of a deleted user's
  mail.  \<open>AdminEditUser\<close> is the composition of the part that reads and decides and the part that
  writes, which the code runs without a transaction around them.
\<close>

section \<open>The first administrator\<close>

definition requireAdmin_err :: "ctx \<Rightarrow> err option" where
  "requireAdmin_err c = (case requireAdmin c of Inl e \<Rightarrow> Some e | Inr p \<Rightarrow> None)"

text \<open>Writing the administrator: an update when the row exists, an insertion otherwise.\<close>

definition save_admin :: "io \<Rightarrow> app \<Rightarrow> User \<Rightarrow> string \<Rightarrow> (err + User) \<times> app" where
  "save_admin w a u hash =
     (case (case db_GetUser (st a) (u_ID u) of
              Inr x \<Rightarrow> db_UpdateUser (st a) (now w) u
            | Inl e \<Rightarrow> db_CreateUser (st a) (now w) u hash) of
        Inl e \<Rightarrow> (Inl e, a)
      | Inr (u', s1) \<Rightarrow>
          (case db_SetUserPassword s1 (now w) (u_ID u) hash of
             Inl e \<Rightarrow> (Inl e, a\<lparr>st := s1\<rparr>)
           | Inr s2 \<Rightarrow> (Inr u', a\<lparr>st := s2\<rparr>)))"

definition default_user :: "store \<Rightarrow> User" where
  "default_user s = (case db_GetUser s DefaultUserID of Inr u \<Rightarrow> u | Inl e \<Rightarrow> new_user DefaultUserID)"

definition bootstrapAdmin :: "lib \<Rightarrow> io \<Rightarrow> app \<Rightarrow> err option \<times> app" where
  "bootstrapAdmin L w a =
     (if db_CountAdmins (st a) > 0 \<or> BootstrapPassword (cfg a) = [] then (None, a)
      else case hashPassword L w (BootstrapPassword (cfg a)) of
             Inl e \<Rightarrow> (Some (SysError (''bootstrap admin: '' @ err_text e)), a)
           | Inr hash \<Rightarrow>
               (let login0 = TrimSpace (BootstrapAdmin (cfg a));
                    login = (if login0 = [] then ''admin'' else login0);
                    u = (default_user (st a))\<lparr>u_LoginID := login, u_DisplayName := login,
                          u_Role := RoleAdmin, u_Status := UserActive, u_AuthProvider := ''local''\<rparr>
                in case save_admin w a u hash of
                     (Inl e, a') \<Rightarrow> (Some e, a') | (Inr u', a') \<Rightarrow> (None, a')))"

definition NeedsAdminSetup :: "app \<Rightarrow> bool" where
  "NeedsAdminSetup a = (db_CountAdmins (st a) = 0)"

definition SetupInitialAdmin ::
  "lib \<Rightarrow> io \<Rightarrow> app \<Rightarrow> string \<Rightarrow> string \<Rightarrow> string \<Rightarrow> (err + User) \<times> app" where
  "SetupInitialAdmin L w a loginID displayName password =
     (if db_CountAdmins (st a) \<noteq> 0 then (Inl (UserError ''initial administrator already exists''), a)
      else case hashPassword L w password of
             Inl e \<Rightarrow> (Inl e, a)
           | Inr hash \<Rightarrow>
               (let login = TrimSpace loginID;
                    name0 = TrimSpace displayName;
                    name = (if name0 = [] then login else name0);
                    u = (default_user (st a))\<lparr>u_LoginID := login, u_DisplayName := name,
                          u_Role := RoleAdmin, u_Status := UserActive, u_AuthProvider := ''local''\<rparr>
                in if login = [] then (Inl (UserError ''login ID is required''), a)
                   else save_admin w a u hash))"

section \<open>Login and sessions\<close>

definition principalFor :: "User \<Rightarrow> string \<Rightarrow> Principal" where
  "principalFor u method =
     \<lparr>p_UserID = u_ID u, p_LoginID = u_LoginID u, p_DisplayName = u_DisplayName u, p_Role = u_Role u,
      p_AuthMethod = method, p_MCPKeyID = [], p_MCPScopes = []\<rparr>"

definition bad_login :: err where
  "bad_login = UserError ''invalid login ID or password''"

text \<open>The failure of recording the login time is ignored.\<close>

definition record_login :: "io \<Rightarrow> store \<Rightarrow> User \<Rightarrow> store" where
  "record_login w s u = (case db_UpdateUser s (now w) u of Inl e \<Rightarrow> s | Inr (u', s') \<Rightarrow> s')"

definition AuthenticateLocal :: "lib \<Rightarrow> io \<Rightarrow> app \<Rightarrow> ctx \<Rightarrow> string \<Rightarrow> string \<Rightarrow> (err + User) \<times> app" where
  "AuthenticateLocal L w a c loginID password =
     (case db_GetUserByLogin (st a) (TrimSpace loginID) of
        Inl e \<Rightarrow> (Inl bad_login, a)
      | Inr (u0, hash) \<Rightarrow>
          if u_Status u0 \<noteq> UserActive \<or> hash = [] \<or> \<not> verifyPassword L hash password then (Inl bad_login, a)
          else (let u = u0\<lparr>u_LastLoginAt := now w\<rparr>;
                    s1 = record_login w (st a) u;
                    u1 = u\<lparr>u_UpdatedAt := now w\<rparr>
                in (Inr u1, app_audit (a\<lparr>st := s1\<rparr>) w (WithPrincipal c (principalFor u1 ''local'')) ''login''
                      (''user:'' @ u_ID u1) ''ok'' ''local'')))"

definition intSetting :: "(string \<rightharpoonup> string) \<Rightarrow> string \<Rightarrow> int \<Rightarrow> int" where
  "intSetting values key fallback =
     (case values key of
        Some v \<Rightarrow> (let (n, ok) = Atoi v in if ok then n else fallback) | None \<Rightarrow> fallback)"

text \<open>
  \<open>CreateSession\<close>; the settings table overrides the configured lifetime, and the value the settings
  report for a missing row is the configured one.
\<close>

definition CreateSession ::
  "lib \<Rightarrow> io \<Rightarrow> app \<Rightarrow> User \<Rightarrow> string \<Rightarrow> string \<Rightarrow> (err + (string \<times> string \<times> Session)) \<times> app" where
  "CreateSession L w a u userAgent ip =
     (let raw = token w 0 32; csrf = token w 1 24;
          hours0 = intSetting (system_settings (st a)) ''auth.session_hours'' (SessionHours (cfg a));
          hours = (if hours0 \<le> 0 then 12 else hours0);
          ss = \<lparr>ss_ID = new_id w ''ses'' 0, ss_UserID = u_ID u, ss_TokenHash = tokenHash L raw,
                ss_CSRFHash = tokenHash L csrf, ss_ExpiresAt = unix_after w (wrap64 (hours * 3600000000000)),
                ss_CreatedAt = 0, ss_LastSeen = 0, ss_UserAgent = userAgent, ss_IPAddress = ip\<rparr>
      in case db_CreateSession (st a) (now w) ss of
           Inl e \<Rightarrow> (Inl e, a)
         | Inr (ss', s') \<Rightarrow> (Inr (raw, csrf, ss'), a\<lparr>st := s'\<rparr>))"

definition AuthenticateSession :: "lib \<Rightarrow> io \<Rightarrow> app \<Rightarrow> string \<Rightarrow> (err + (Session \<times> Principal)) \<times> app" where
  "AuthenticateSession L w a raw =
     (if raw = [] then (Inl ErrNotFound, a)
      else case db_GetSessionByTokenHash (st a) (now w) (tokenHash L raw) of
             Inl e \<Rightarrow> (Inl ErrNotFound, a)
           | Inr (ss, u) \<Rightarrow>
               if u_Status u \<noteq> UserActive then (Inl ErrNotFound, a)
               else (Inr (ss, principalFor u (u_AuthProvider u)),
                     if now w - ss_LastSeen ss \<ge> 60
                     then a\<lparr>st := db_TouchSession (st a) (ss_ID ss) (now w)\<rparr> else a))"

definition VerifyCSRF :: "lib \<Rightarrow> Session option \<Rightarrow> string \<Rightarrow> bool" where
  "VerifyCSRF L ss raw = (case ss of None \<Rightarrow> False | Some s \<Rightarrow> ss_CSRFHash s = tokenHash L raw)"

definition Logout :: "app \<Rightarrow> string \<Rightarrow> app" where
  "Logout a sessionID = a\<lparr>st := db_DeleteSession (st a) sessionID\<rparr>"

section \<open>User administration\<close>

record CreateUserInput =
  cu_LoginID :: string
  cu_DisplayName :: string
  cu_Email :: string
  cu_Role :: UserRole
  cu_Password :: string

definition created_user :: "io \<Rightarrow> CreateUserInput \<Rightarrow> User" where
  "created_user w i =
     (let login = TrimSpace (cu_LoginID i); name = TrimSpace (cu_DisplayName i)
      in (new_user (new_id w ''usr'' 0))\<lparr>u_LoginID := login, u_DisplayName := (if name = [] then login else name),
           u_Email := TrimSpace (cu_Email i), u_Role := (if cu_Role i \<noteq> RoleAdmin then RoleUser else RoleAdmin),
           u_Status := UserActive, u_AuthProvider := ''local''\<rparr>)"

definition AdminCreateUser :: "lib \<Rightarrow> io \<Rightarrow> app \<Rightarrow> ctx \<Rightarrow> CreateUserInput \<Rightarrow> (err + User) \<times> app" where
  "AdminCreateUser L w a c i =
     (case requireAdmin c of
        Inl e \<Rightarrow> (Inl e, a)
      | Inr p \<Rightarrow>
          (case hashPassword L w (cu_Password i) of
             Inl e \<Rightarrow> (Inl e, a)
           | Inr hash \<Rightarrow>
               if TrimSpace (cu_LoginID i) = [] then (Inl (UserError ''login ID is required''), a)
               else case db_CreateUser (st a) (now w) (created_user w i) hash of
                      Inl e \<Rightarrow> (Inl e, a)
                    | Inr (u', s') \<Rightarrow>
                        (Inr u', app_audit (a\<lparr>st := s'\<rparr>) w c ''user_create'' (''user:'' @ u_ID u') ''ok''
                           (role_text (u_Role u')))))"

definition AdminListUsers :: "app \<Rightarrow> ctx \<Rightarrow> err + User list" where
  "AdminListUsers a c =
     (case requireAdmin c of
        Inl e \<Rightarrow> Inl e | Inr p \<Rightarrow> Inr (filter (\<lambda>u. u_Status u \<noteq> UserDeleted) (db_ListUsers (st a))))"

text \<open>What \<open>AdminEditUser\<close> decides: the row it will write.\<close>

definition edit_decide ::
  "app \<Rightarrow> ctx \<Rightarrow> string \<Rightarrow> string \<Rightarrow> string \<Rightarrow> UserRole \<Rightarrow> UserStatus \<Rightarrow> err + User" where
  "edit_decide a c uid displayName email role0 status0 =
     (case requireAdmin c of
        Inl e \<Rightarrow> Inl e
      | Inr p \<Rightarrow>
          (case db_GetUser (st a) uid of
             Inl e \<Rightarrow> Inl e
           | Inr u \<Rightarrow>
               (let role = (if role0 \<noteq> RoleAdmin then RoleUser else RoleAdmin);
                    status = (if status0 \<noteq> UserDisabled then UserActive else UserDisabled)
                in if active_admin u \<and> (role \<noteq> RoleAdmin \<or> status \<noteq> UserActive) \<and> db_CountAdmins (st a) \<le> 1
                   then Inl (UserError ''cannot disable or demote the last active administrator'')
                   else Inr (u\<lparr>u_Role := role, u_Status := status,
                          u_DisplayName := (if TrimSpace displayName \<noteq> [] then TrimSpace displayName
                                            else u_DisplayName u),
                          u_Email := (if displayName \<noteq> [] \<or> email \<noteq> [] then TrimSpace email
                                      else u_Email u)\<rparr>))))"

text \<open>What it then writes.\<close>

definition edit_write :: "io \<Rightarrow> app \<Rightarrow> ctx \<Rightarrow> User \<Rightarrow> (err + User) \<times> app" where
  "edit_write w a c u =
     (case db_UpdateUser (st a) (now w) u of
        Inl e \<Rightarrow> (Inl e, a)
      | Inr (u', s1) \<Rightarrow>
          (let s2 = (if u_Status u' = UserDisabled then db_DeleteUserSessions s1 (u_ID u') else s1);
               by = (case c_principal c of Some p \<Rightarrow> p_UserID p | None \<Rightarrow> [])
           in (Inr u', app_audit (a\<lparr>st := s2\<rparr>) w c ''user_update'' (''user:'' @ u_ID u') ''ok''
                 (''by='' @ by @ '' role='' @ role_text (u_Role u') @ '' status='' @ user_status_text (u_Status u')))))"

definition AdminEditUser ::
  "io \<Rightarrow> app \<Rightarrow> ctx \<Rightarrow> string \<Rightarrow> string \<Rightarrow> string \<Rightarrow> UserRole \<Rightarrow> UserStatus \<Rightarrow> (err + User) \<times> app" where
  "AdminEditUser w a c uid displayName email role status =
     (case edit_decide a c uid displayName email role status of
        Inl e \<Rightarrow> (Inl e, a) | Inr u \<Rightarrow> edit_write w a c u)"

definition AdminUpdateUser :: "io \<Rightarrow> app \<Rightarrow> ctx \<Rightarrow> string \<Rightarrow> UserRole \<Rightarrow> UserStatus \<Rightarrow> (err + User) \<times> app" where
  "AdminUpdateUser w a c uid role status = AdminEditUser w a c uid [] [] role status"

definition tombstoneUserIdentity :: "User \<Rightarrow> User" where
  "tombstoneUserIdentity u =
     u\<lparr>u_Status := UserDeleted, u_LoginID := ''deleted-'' @ u_ID u, u_Email := [], u_OIDCIssuer := [],
       u_OIDCSubject := []\<rparr>"

definition AdminDeleteUser :: "io \<Rightarrow> app \<Rightarrow> ctx \<Rightarrow> string \<Rightarrow> err option \<times> app" where
  "AdminDeleteUser w a c uid =
     (case requireAdmin c of
        Inl e \<Rightarrow> (Some e, a)
      | Inr p \<Rightarrow>
          if p_UserID p = uid then (Some (UserError ''you cannot delete your own signed-in account''), a)
          else case db_GetUser (st a) uid of
                 Inl e \<Rightarrow> (Some e, a)
               | Inr u \<Rightarrow>
                   if active_admin u \<and> db_CountAdmins (st a) \<le> 1
                   then (Some (UserError ''cannot delete the last active administrator''), a)
                   else case db_UpdateUser (st a) (now w) (tombstoneUserIdentity u) of
                          Inl e \<Rightarrow> (Some e, a)
                        | Inr (u', s1) \<Rightarrow>
                            (None, app_audit (a\<lparr>st := db_DeleteUserSessions s1 uid\<rparr>) w c ''user_delete''
                               (''user:'' @ uid) ''ok'' (''by='' @ p_UserID p @ '' login='' @ u_LoginID u)))"

definition AdminResetPassword :: "lib \<Rightarrow> io \<Rightarrow> app \<Rightarrow> ctx \<Rightarrow> string \<Rightarrow> string \<Rightarrow> err option \<times> app" where
  "AdminResetPassword L w a c userID password =
     (case requireAdmin c of
        Inl e \<Rightarrow> (Some e, a)
      | Inr p \<Rightarrow>
          (case db_GetUser (st a) userID of
             Inl e \<Rightarrow> (Some e, a)
           | Inr u \<Rightarrow>
               if u_AuthProvider u \<noteq> ''local''
               then (Some (UserError ''OIDC-only users manage their password in Keycloak''), a)
               else case hashPassword L w password of
                      Inl e \<Rightarrow> (Some e, a)
                    | Inr hash \<Rightarrow>
                        (case db_SetUserPassword (st a) (now w) userID hash of
                           Inl e \<Rightarrow> (Some e, a)
                         | Inr s1 \<Rightarrow>
                             (None, app_audit (a\<lparr>st := db_DeleteUserSessions s1 userID\<rparr>) w c ''password_reset''
                                (''user:'' @ userID) ''ok'' []))))"

section \<open>MCP keys\<close>

definition has_admin_scope :: "string list \<Rightarrow> bool" where
  "has_admin_scope scopes = (contains scopes ''admin.read'' \<or> contains scopes ''admin.write'')"

definition forbidden :: err where
  "forbidden = PublicError ''forbidden'' 403"

definition grant_refused :: "ctx \<Rightarrow> string list \<Rightarrow> bool" where
  "grant_refused c resolved =
     (case c_principal c of
        None \<Rightarrow> False | Some p \<Rightarrow> IsMCPScoped p \<or> \<not> IsAdmin p \<and> has_admin_scope resolved)"

definition CreateMCPKeyWithScopes ::
  "lib \<Rightarrow> io \<Rightarrow> app \<Rightarrow> ctx \<Rightarrow> string \<Rightarrow> string list option \<Rightarrow> (err + (MCPKey \<times> string)) \<times> app" where
  "CreateMCPKeyWithScopes L w a c name0 scopes =
     (case NormalizeMCPScopes scopes of
        Inl e \<Rightarrow> (Inl e, a)
      | Inr resolved \<Rightarrow>
          if grant_refused c resolved then (Inl forbidden, a)
          else if userIDFrom c = [] then (Inl (UserError ''authentication required''), a)
          else
            (let name1 = TrimSpace name0; name = (if name1 = [] then ''MCP Key'' else name1);
                 rawKey = ''mk_'' @ token w 0 32;
                 key = \<lparr>k_ID = new_id w ''mcpk'' 0, k_UserID = userIDFrom c, k_Name = name,
                        k_KeyHash = tokenHash L rawKey, k_KeyPrefix = take 8 rawKey @ ''...'',
                        k_Status = ''active'', k_CreatedAt = 0, k_LastUsedAt = 0, k_Scopes = resolved,
                        k_LegacyScopes = False\<rparr>
             in case db_CreateMCPKey (st a) (now w) key of
                  Inl e \<Rightarrow> (Inl e, a)
                | Inr (key', s') \<Rightarrow>
                    (Inr (key', rawKey), app_audit (a\<lparr>st := s'\<rparr>) w c ''mcp_key_create''
                       (''mcp_key:'' @ k_ID key') ''ok'' (''name:'' @ name))))"

definition CreateMCPKey :: "lib \<Rightarrow> io \<Rightarrow> app \<Rightarrow> ctx \<Rightarrow> string \<Rightarrow> (err + (MCPKey \<times> string)) \<times> app" where
  "CreateMCPKey L w a c name = CreateMCPKeyWithScopes L w a c name None"

definition ListMyMCPKeys :: "app \<Rightarrow> ctx \<Rightarrow> err + MCPKey list" where
  "ListMyMCPKeys a c =
     (if userIDFrom c = [] then Inl (UserError ''authentication required'')
      else Inr (db_ListMCPKeys (st a) (userIDFrom c)))"

definition RevokeMyMCPKey :: "io \<Rightarrow> app \<Rightarrow> ctx \<Rightarrow> string \<Rightarrow> err option \<times> app" where
  "RevokeMyMCPKey w a c keyID =
     (if userIDFrom c = [] then (Some (UserError ''authentication required''), a)
      else case db_RevokeMCPKey (st a) (userIDFrom c) keyID of
             Inl e \<Rightarrow> (Some e, a)
           | Inr s' \<Rightarrow> (None, app_audit (a\<lparr>st := s'\<rparr>) w c ''mcp_key_revoke'' (''mcp_key:'' @ keyID) ''ok'' []))"

definition AdminListMCPKeys :: "app \<Rightarrow> ctx \<Rightarrow> err + MCPKey list" where
  "AdminListMCPKeys a c =
     (case requireAdmin c of Inl e \<Rightarrow> Inl e | Inr p \<Rightarrow> Inr (db_ListAllMCPKeys (st a)))"

definition AdminRevokeMCPKey :: "io \<Rightarrow> app \<Rightarrow> ctx \<Rightarrow> string \<Rightarrow> err option \<times> app" where
  "AdminRevokeMCPKey w a c keyID =
     (case requireAdmin c of
        Inl e \<Rightarrow> (Some e, a)
      | Inr p \<Rightarrow>
          (case db_RevokeMCPKey (st a) [] keyID of
             Inl e \<Rightarrow> (Some e, a)
           | Inr s' \<Rightarrow>
               (None, app_audit (a\<lparr>st := s'\<rparr>) w c ''mcp_key_admin_revoke'' (''mcp_key:'' @ keyID) ''ok'' [])))"

definition AuthenticateMCPKey :: "lib \<Rightarrow> io \<Rightarrow> app \<Rightarrow> string \<Rightarrow> (err + (MCPKey \<times> Principal)) \<times> app" where
  "AuthenticateMCPKey L w a raw0 =
     (let raw = TrimSpace raw0
      in if raw = [] \<or> \<not> HasPrefix raw ''mk_'' then (Inl ErrNotFound, a)
         else case db_GetMCPKeyByHash (st a) (tokenHash L raw) of
                Inl e \<Rightarrow> (Inl ErrNotFound, a)
              | Inr (key, u) \<Rightarrow>
                  if u_Status u \<noteq> UserActive \<or> k_Status key \<noteq> ''active'' then (Inl ErrNotFound, a)
                  else (Inr (key, (principalFor u ''mcp_key'')\<lparr>p_MCPKeyID := k_ID key, p_MCPScopes := k_Scopes key\<rparr>),
                        if now w - k_LastUsedAt key \<ge> 60
                        then a\<lparr>st := db_TouchMCPKey (st a) (k_ID key) (now w)\<rparr> else a))"

text \<open>\<open>None\<close> as the scopes is the nil slice, which is refused.\<close>

definition UpdateMCPKeyScopes ::
  "io \<Rightarrow> app \<Rightarrow> ctx \<Rightarrow> string \<Rightarrow> string list option \<Rightarrow> bool \<Rightarrow> (err + MCPKey) \<times> app" where
  "UpdateMCPKeyScopes w a c keyID scopes admin =
     (if (case c_principal c of Some p \<Rightarrow> IsMCPScoped p | None \<Rightarrow> False) then (Inl forbidden, a)
      else if scopes = None then (Inl (PublicError ''invalid_request'' 400), a)
      else case NormalizeMCPScopes scopes of
             Inl e \<Rightarrow> (Inl e, a)
           | Inr resolved \<Rightarrow>
               (case (if admin then requireAdmin_err c
                      else case c_principal c of
                             Some p \<Rightarrow> if \<not> IsAdmin p \<and> has_admin_scope resolved then Some forbidden else None
                           | None \<Rightarrow> None) of
                  Some e \<Rightarrow> (Inl e, a)
                | None \<Rightarrow>
                    (let owner = (if admin then [] else userIDFrom c)
                     in case db_UpdateMCPKeyScopes (st a) owner keyID resolved of
                          Inl e \<Rightarrow> (Inl e, a)
                        | Inr s' \<Rightarrow>
                            (let a' = app_audit (a\<lparr>st := s'\<rparr>) w c ''mcp_key_scopes_update''
                                        (''mcp_key:'' @ keyID) ''ok'' (join '','' resolved);
                                 keys = (if admin then db_ListAllMCPKeys (st a') else db_ListMCPKeys (st a') owner)
                             in (case find (\<lambda>k. k_ID k = keyID) keys of
                                   Some k \<Rightarrow> Inr k | None \<Rightarrow> Inl ErrNotFound, a')))))"

section \<open>Purging a deleted user's mail\<close>

text \<open>\<open>strings.EqualFold\<close>: ASCII letters fold byte by byte, other texts by the Unicode tables.\<close>

definition EqualFold :: "lib \<Rightarrow> string \<Rightarrow> string \<Rightarrow> bool" where
  "EqualFold L x y =
     (if is_ascii x \<and> is_ascii y then map ascii_lower x = map ascii_lower y else uni_fold_eq L x y)"

definition normalizedProvisionEmail :: "lib \<Rightarrow> string \<Rightarrow> err + string" where
  "normalizedProvisionEmail L raw =
     (let v = ToLower (uni_lower L) (TrimSpace raw)
      in case parse_address L v of
           Some addr \<Rightarrow> if EqualFold L addr v then Inr v
                       else Inl (UserError ''a valid email address is required'')
         | None \<Rightarrow> Inl (UserError ''a valid email address is required''))"

text \<open>The owners of accounts with the address whose user is deleted, each once.\<close>

definition purge_users :: "store \<Rightarrow> string \<Rightarrow> string list" where
  "purge_users s email =
     remdups (map a_UserID (filter (\<lambda>x. sql_lower (a_Email x) = sql_lower (TrimSpace email) \<and>
        \<not> no_row (\<lambda>r. u_ID (fst r) = a_UserID x \<and> u_Status (fst r) = UserDeleted) (users s)) (accounts s)))"

definition user_uris :: "store \<Rightarrow> string \<Rightarrow> string list" where
  "user_uris s uid =
     filter (\<lambda>u. u \<noteq> []) (map m_RawURI (filter (\<lambda>m. m_UserID m = uid) (messages s))) @
     filter (\<lambda>u. u \<noteq> []) (map at_StorageURI (filter (\<lambda>x. \<not> no_row (\<lambda>m. m_ID m = at_MessageID x \<and> m_UserID m = uid)
        (messages s)) (attachments s)))"

definition purge_rows :: "store \<Rightarrow> string \<Rightarrow> store" where
  "purge_rows s uid =
     (let mine = (\<lambda>mid. \<not> no_row (\<lambda>m. m_ID m = mid \<and> m_UserID m = uid) (messages s))
      in s\<lparr>msg_notes := del_where (\<lambda>n. n_UserID n = uid) (msg_notes s),
           collab := del_where (\<lambda>x. mc_UserID x = uid) (collab s),
           bodies := del_where (\<lambda>b. mine (b_MessageID b)) (bodies s),
           attachments := del_where (\<lambda>x. mine (at_MessageID x)) (attachments s),
           messages := del_where (\<lambda>m. m_UserID m = uid) (messages s),
           checkpoints := del_where (\<lambda>x. \<not> no_row (\<lambda>y. a_ID y = cp_AccountID x \<and> a_UserID y = uid) (accounts s))
             (checkpoints s),
           threads := del_where (\<lambda>t. th_UserID t = uid) (threads s),
           versions := del_where (\<lambda>v. \<not> no_row (\<lambda>d. d_ID d = v_DraftID v \<and> d_UserID d = uid) (drafts s)) (versions s),
           approvals := del_where (\<lambda>x. ap_UserID x = uid) (approvals s),
           outbound := del_where (\<lambda>o'. o_UserID o' = uid) (outbound s),
           drafts := del_where (\<lambda>d. d_UserID d = uid) (drafts s),
           jobs := del_where (\<lambda>j. j_UserID j = uid) (jobs s),
           rules := del_where (\<lambda>r. r_UserID r = uid) (rules s),
           accounts := del_where (\<lambda>x. a_UserID x = uid) (accounts s)\<rparr>)"

fun purge_loop :: "store \<Rightarrow> string list \<Rightarrow> string list \<times> store" where
  "purge_loop s [] = ([], s)"
| "purge_loop s (uid # uids) =
     (let (uris, s') = purge_loop (purge_rows s uid) uids in (user_uris s uid @ uris, s'))"

definition db_PurgeDeletedUserMailByEmail :: "store \<Rightarrow> string \<Rightarrow> err + (string list \<times> store)" where
  "db_PurgeDeletedUserMailByEmail s email =
     (if purge_users s email = [] then Inl ErrNotFound else Inr (purge_loop s (purge_users s email)))"

definition AdminPurgeDeletedUserMail :: "lib \<Rightarrow> io \<Rightarrow> app \<Rightarrow> ctx \<Rightarrow> string \<Rightarrow> string \<Rightarrow> err option \<times> app" where
  "AdminPurgeDeletedUserMail L w a c email confirmation =
     (case requireAdmin c of
        Inl e \<Rightarrow> (Some e, a)
      | Inr p \<Rightarrow>
          (case normalizedProvisionEmail L email of
             Inl e \<Rightarrow> (Some e, a)
           | Inr normalized \<Rightarrow>
               if \<not> EqualFold L normalized (TrimSpace confirmation)
               then (Some (UserError ''email confirmation does not match''), a)
               else case db_PurgeDeletedUserMailByEmail (st a) normalized of
                      Inl e \<Rightarrow>
                        (Some (if e = ErrNotFound
                               then UserError (''no deleted-user mailbox was found for '' @ normalized) else e), a)
                    | Inr (uris, s') \<Rightarrow>
                        (None, app_audit (a\<lparr>st := s', objects := purge (objects a) uris\<rparr>) w c
                           ''deleted_user_mail_purge'' (''email:'' @ normalized) ''ok''
                           (''objects='' @ dec (length uris)))))"

end
