(* ===== verification/Auth_Safety.thy ===== *)
theory Auth_Safety
  imports Auth_Service
begin

text \<open>
  What the identity component guarantees: passwords verify exactly against the derived key, a user
  who is deleted or disabled is locked out of every credential at once, the last active
  administrator survives every sequence of operations, and delegated or unprivileged callers cannot
  widen the authority of a key.  Sessions and keys share one contract, the locale below.
\<close>

section \<open>Passwords\<close>

lemma params_scan: "scan_params ''m=65536,t=3,p=2'' = Some (65536, 3, 2)"
  by (simp add: scan_params_def scan_literal_def scan_uint_def skip_graphic graphic_def byte_def
      is_digit_def digits_val_def Let_def)

lemma hash_parts:
  assumes "CHR ''$'' \<notin> set x" "CHR ''$'' \<notin> set y"
  shows "split_on CHR ''$'' (''$argon2id$v=19$m=65536,t=3,p=2$'' @ x @ ''$'' @ y) =
     [[], ''argon2id'', ''v=19'', ''m=65536,t=3,p=2'', x, y]"
  using split_on_sep [of "CHR ''$''" x y] assms by (simp add: split_on_free)

text \<open>
  A stored password hash accepts a password exactly when the key derived from it with the
  stored salt is the stored key; in particular it accepts the password it was made from.  Argon2
  returns the 32 bytes it is asked for.
\<close>

theorem password_roundtrip:
  assumes "hashPassword L w password = Inr encoded" and "\<forall>p s. length (argon2_key L p s) = 32"
  shows "verifyPassword L encoded q \<longleftrightarrow>
     argon2_key L q (rand_bytes w 0 16) = argon2_key L password (rand_bytes w 0 16)"
proof -
  let ?salt = "rand_bytes w 0 16" and ?key = "argon2_key L password (rand_bytes w 0 16)"
  have e: "encoded = ''$argon2id$v=19$m=65536,t=3,p=2$'' @ b64_encode b64_std ?salt @ ''$'' @ b64_encode b64_std ?key"
    using assms(1) by (auto simp: hashPassword_def Let_def split: if_splits)
  have "CHR ''$'' \<notin> set (b64_encode b64_std s)" for s
    using set_b64_encode [OF b64_alphabets(2), of s] b64_alphabets(5) by blast
  then have parts: "split_on CHR ''$'' encoded = [[], ''argon2id'', ''v=19'', ''m=65536,t=3,p=2'',
      b64_encode b64_std ?salt, b64_encode b64_std ?key]"
    unfolding e by (intro hash_parts)
  note decode = b64_roundtrip [OF b64_alphabets(1-4)]
  show ?thesis
    using assms(2) by (simp add: verifyPassword_def parts params_scan decode)
qed

theorem password_roundtrip_witness:
  "\<exists>h. hashPassword sample_lib sample_io ''correct horse'' = Inr h \<and> verifyPassword sample_lib h ''correct horse''"
proof -
  obtain h where h: "hashPassword sample_lib sample_io ''correct horse'' = Inr h"
    by (simp add: hashPassword_def Let_def)
  have "\<forall>p s. length (argon2_key sample_lib p s) = 32" by (auto simp: sample_lib_def min_def)
  from password_roundtrip [OF h this] h show ?thesis by blast
qed

section \<open>Credentials\<close>

text \<open>
  The contract of a table of credentials: a lookup returns a usable credential with the hash that
  was asked for, together with its owner as the users table has it at that moment.
\<close>

definition locked :: "store \<Rightarrow> string \<Rightarrow> bool" where
  "locked s uid \<longleftrightarrow> (\<forall>r\<in>set (users s). u_ID (fst r) = uid \<longrightarrow> u_Status (fst r) \<noteq> UserActive)"

locale credential_table =
  fixes lookup :: "store \<Rightarrow> int \<Rightarrow> string \<Rightarrow> err + ('c \<times> User)"
    and creds :: "store \<Rightarrow> 'c list"
    and hash_of :: "'c \<Rightarrow> string"
    and owner_of :: "'c \<Rightarrow> string"
    and usable :: "int \<Rightarrow> 'c \<Rightarrow> bool"
  assumes lookup_cred: "lookup s t h = Inr (c, u) \<Longrightarrow> c \<in> set (creds s) \<and> hash_of c = h \<and> usable t c"
    and lookup_owner: "lookup s t h = Inr (c, u) \<Longrightarrow> \<exists>r\<in>set (users s). u_ID (fst r) = owner_of c \<and>
      u_ID u = u_ID (fst r) \<and> u_Status u = u_Status (fst r) \<and> u_Role u = u_Role (fst r)"
begin

lemma admitted:
  assumes "lookup s t h = Inr (c, u)" "u_Status u = UserActive"
  shows "\<exists>r\<in>set (users s). u_ID (fst r) = u_ID u \<and> u_Status (fst r) = UserActive \<and> u_Role (fst r) = u_Role u"
    and "usable t c" and "owner_of c = u_ID u"
proof -
  from lookup_owner [OF assms(1)] obtain r where r: "r \<in> set (users s)" "u_ID (fst r) = owner_of c"
      "u_ID u = u_ID (fst r)" "u_Status u = u_Status (fst r)" "u_Role u = u_Role (fst r)" by blast
  then show "\<exists>r\<in>set (users s). u_ID (fst r) = u_ID u \<and> u_Status (fst r) = UserActive \<and> u_Role (fst r) = u_Role u"
    using assms(2) by (intro bexI [of _ r]) simp_all
  show "usable t c" "owner_of c = u_ID u" using lookup_cred [OF assms(1)] r by simp_all
qed

lemma locked_refused: "locked s uid \<Longrightarrow> lookup s t h = Inr (c, u) \<Longrightarrow> u_Status u = UserActive \<Longrightarrow> u_ID u \<noteq> uid"
  using admitted(1) unfolding locked_def by metis

end

lemma owner_row_in: "owner_row s uid = Some r \<Longrightarrow> r \<in> set (users s) \<and> u_ID (fst r) = uid"
  using find_SomeD by (fastforce simp: owner_row_def)

interpretation session_creds: credential_table db_GetSessionByTokenHash sessions ss_TokenHash ss_UserID
  "\<lambda>t ss. ss_ExpiresAt ss > t"
proof unfold_locales
  fix s t h c u
  assume l: "db_GetSessionByTokenHash s t h = Inr (c, u)"
  then obtain f: "find (\<lambda>ss. ss_TokenHash ss = h \<and> ss_ExpiresAt ss > t \<and> owner_row s (ss_UserID ss) \<noteq> None)
      (sessions s) = Some c" and u: "u = fst (the (owner_row s (ss_UserID c)))"
    by (auto simp: db_GetSessionByTokenHash_def split: option.splits)
  note c = find_SomeD [OF f]
  then show "c \<in> set (sessions s) \<and> ss_TokenHash c = h \<and> ss_ExpiresAt c > t" by simp
  from c obtain r where "owner_row s (ss_UserID c) = Some r" by auto
  with owner_row_in [OF this] u show "\<exists>r\<in>set (users s). u_ID (fst r) = ss_UserID c \<and>
      u_ID u = u_ID (fst r) \<and> u_Status u = u_Status (fst r) \<and> u_Role u = u_Role (fst r)" by auto
qed

interpretation key_creds: credential_table "\<lambda>s t h. db_GetMCPKeyByHash s h" mcp_keys k_KeyHash k_UserID
  "\<lambda>t k. k_Status k = ''active''"
proof unfold_locales
  fix s h c u
  assume l: "db_GetMCPKeyByHash s h = Inr (c, u)"
  then obtain f: "find (\<lambda>k. k_KeyHash k = h \<and> k_Status k = ''active'' \<and> owner_row s (k_UserID k) \<noteq> None)
      (mcp_keys s) = Some c" and u: "u = (fst (the (owner_row s (k_UserID c))))\<lparr>u_OIDCIssuer := [], u_OIDCSubject := []\<rparr>"
    by (auto simp: db_GetMCPKeyByHash_def split: option.splits)
  note c = find_SomeD [OF f]
  then show "c \<in> set (mcp_keys s) \<and> k_KeyHash c = h \<and> k_Status c = ''active''" by simp
  from c obtain r where "owner_row s (k_UserID c) = Some r" by auto
  with owner_row_in [OF this] u show "\<exists>r\<in>set (users s). u_ID (fst r) = k_UserID c \<and>
      u_ID u = u_ID (fst r) \<and> u_Status u = u_Status (fst r) \<and> u_Role u = u_Role (fst r)" by auto
qed

lemma AuthenticateSession_ok:
  assumes "fst (AuthenticateSession L w a raw) = Inr (ss, p)"
  obtains u where "db_GetSessionByTokenHash (st a) (now w) (tokenHash L raw) = Inr (ss, u)"
    "u_Status u = UserActive" "p = principalFor u (u_AuthProvider u)"
  using assms by (auto simp: AuthenticateSession_def split: if_splits sum.splits)

lemma AuthenticateMCPKey_ok:
  assumes "fst (AuthenticateMCPKey L w a raw) = Inr (k, p)"
  obtains u where "db_GetMCPKeyByHash (st a) (tokenHash L (TrimSpace raw)) = Inr (k, u)"
    "u_Status u = UserActive" "p = (principalFor u ''mcp_key'')\<lparr>p_MCPKeyID := k_ID k, p_MCPScopes := k_Scopes k\<rparr>"
  using assms by (auto simp: AuthenticateMCPKey_def Let_def split: if_splits sum.splits)

lemma AuthenticateLocal_ok:
  assumes "fst (AuthenticateLocal L w a c login pw) = Inr u"
  obtains r where "r \<in> set (users (st a))" "u_Status (fst r) = UserActive" "u_ID u = u_ID (fst r)"
    "verifyPassword L (snd r) pw"
  using assms find_SomeD
  by (fastforce simp: AuthenticateLocal_def db_GetUserByLogin_def Let_def split: if_splits sum.splits option.splits)

lemma locked_out:
  assumes "locked (st a) uid"
  shows "fst (AuthenticateSession L w a raw) = Inr (ss, p) \<Longrightarrow> p_UserID p \<noteq> uid"
    "fst (AuthenticateMCPKey L w a key) = Inr (k, p) \<Longrightarrow> p_UserID p \<noteq> uid"
    "fst (AuthenticateLocal L w a c login pw) = Inr u \<Longrightarrow> u_ID u \<noteq> uid"
proof -
  show "fst (AuthenticateSession L w a raw) = Inr (ss, p) \<Longrightarrow> p_UserID p \<noteq> uid"
    by (erule AuthenticateSession_ok) (auto simp: principalFor_def dest: session_creds.locked_refused [OF assms])
  show "fst (AuthenticateMCPKey L w a key) = Inr (k, p) \<Longrightarrow> p_UserID p \<noteq> uid"
    by (erule AuthenticateMCPKey_ok) (auto simp: principalFor_def dest: key_creds.locked_refused [OF assms])
  show "fst (AuthenticateLocal L w a c login pw) = Inr u \<Longrightarrow> u_ID u \<noteq> uid"
    by (erule AuthenticateLocal_ok) (use assms in \<open>auto simp: locked_def\<close>)
qed

lemma update_status:
  assumes "db_UpdateUser s ts u = Inr (u', s')"
  shows "u' = u\<lparr>u_UpdatedAt := ts\<rparr>" "sessions s' = sessions s" "mcp_keys s' = mcp_keys s"
    "users s' = upd_where (\<lambda>r. u_ID (fst r) = u_ID u) (\<lambda>r. (u\<lparr>u_UpdatedAt := ts, u_CreatedAt := u_CreatedAt (fst r)\<rparr>, snd r)) (users s)"
  using assms by (auto simp: db_UpdateUser_def Let_def split: if_splits option.splits)

lemma update_locks:
  assumes "db_UpdateUser s ts u = Inr (u', s')" "u_Status u \<noteq> UserActive"
  shows "locked s' (u_ID u)"
  using assms(2) update_status(4) [OF assms(1)] by (auto simp: locked_def elim!: in_upd_whereE)

lemma locked_cong: "users s' = users s \<Longrightarrow> locked s' uid = locked s uid"
  by (simp add: locked_def)

lemma GetUser_in: "db_GetUser s uid = Inr u \<Longrightarrow> \<exists>r\<in>set (users s). fst r = u \<and> u_ID u = uid"
  using find_SomeD by (fastforce simp: db_GetUser_def split: option.splits)

lemma edit_decide_user:
  assumes "edit_decide a c uid name email role status = Inr u"
  obtains u0 where "db_GetUser (st a) uid = Inr u0" "u_ID u = uid"
    "u_Status u = (if status \<noteq> UserDisabled then UserActive else UserDisabled)"
    "u_Role u = (if role \<noteq> RoleAdmin then RoleUser else RoleAdmin)"
    "active_admin u0 \<longrightarrow> active_admin u \<or> db_CountAdmins (st a) > 1"
proof -
  from assms obtain u0 where u0: "db_GetUser (st a) uid = Inr u0"
    by (auto simp: edit_decide_def split: sum.splits)
  with assms show thesis
    by (intro that [of u0])
       (auto simp: edit_decide_def Let_def active_admin_def dest: GetUser_in split: sum.splits if_splits)
qed

lemma edit_write_ok:
  assumes "edit_write w a c u = (Inr u', a')"
  obtains s1 where "db_UpdateUser (st a) (now w) u = Inr (u', s1)" "users (st a') = users s1"
    "u_Status u' = UserDisabled \<longrightarrow> sessions (st a') = del_where (\<lambda>r. ss_UserID r = u_ID u') (sessions s1)"
  using assms by (auto simp: edit_write_def Let_def db_DeleteUserSessions_def split: sum.splits prod.splits)

lemma delete_user_ok:
  assumes "AdminDeleteUser w a c uid = (None, a')"
  obtains u s1 u' where "db_GetUser (st a) uid = Inr u" "active_admin u \<longrightarrow> db_CountAdmins (st a) > 1"
    "db_UpdateUser (st a) (now w) (tombstoneUserIdentity u) = Inr (u', s1)" "users (st a') = users s1"
    "sessions (st a') = del_where (\<lambda>r. ss_UserID r = uid) (sessions s1)"
  using assms by (auto simp: AdminDeleteUser_def db_DeleteUserSessions_def split: sum.splits if_splits prod.splits)


text \<open>An administrator, a second one, and a plain user.\<close>

definition sample_user :: "string \<Rightarrow> string \<Rightarrow> UserRole \<Rightarrow> User" where
  "sample_user uid login role = (new_user uid)\<lparr>u_LoginID := login, u_DisplayName := login, u_Role := role,
     u_Status := UserActive, u_AuthProvider := ''local''\<rparr>"

definition staff_app :: app where
  "staff_app = sample_app\<lparr>st := empty_store\<lparr>
     users := [(sample_user ''usr_1'' ''kim'' RoleAdmin, []), (sample_user ''usr_2'' ''lee'' RoleAdmin, []),
               (sample_user ''usr_3'' ''park'' RoleUser, [])],
     sessions := [\<lparr>ss_ID = ''ses_1'', ss_UserID = ''usr_3'', ss_TokenHash = ''h'', ss_CSRFHash = ''c'',
        ss_ExpiresAt = 9000, ss_CreatedAt = 1, ss_LastSeen = 1, ss_UserAgent = [], ss_IPAddress = []\<rparr>]\<rparr>\<rparr>"

definition admin_ctx :: "string \<Rightarrow> ctx" where
  "admin_ctx uid = \<lparr>c_actor = Some ''rest'', c_principal = Some (principalFor (sample_user uid uid RoleAdmin) ''local'')\<rparr>"

lemma staff_delete: "\<exists>a'. AdminDeleteUser sample_io staff_app (admin_ctx ''usr_1'') ''usr_3'' = (None, a')"
  by (simp add: AdminDeleteUser_def requireAdmin_def admin_ctx_def principalFor_def sample_user_def new_user_def
      IsAdmin_def db_GetUser_def staff_app_def active_admin_def db_UpdateUser_def Let_def
      tombstoneUserIdentity_def user_clash_def no_row_def)


section \<open>The last administrator\<close>

definition users_inv :: "store \<Rightarrow> bool" where
  "users_inv s \<longleftrightarrow> distinct (map (u_ID \<circ> fst) (users s))"

text \<open>Changing the one row with a key changes a count by that row.\<close>

lemma count_upd_where:
  assumes "distinct (map k rows)" "r \<in> set rows"
  shows "int (length (filter P (upd_where (\<lambda>x. k x = k r) f rows))) =
     int (length (filter P rows)) - (if P r then 1 else 0) + (if P (f r) then 1 else 0)"
  using assms
proof (induction rows)
  case (Cons x rows)
  show ?case
  proof (cases "x = r")
    case True
    then have "no_row (\<lambda>y. k y = k r) rows" using Cons.prems(1) by (auto simp: no_row_iff image_iff)
    then show ?thesis using True by (simp add: upd_where_id)
  next
    case False
    with Cons.prems have "r \<in> set rows" "k x \<noteq> k r" by auto
    with Cons False show ?thesis by (simp split: if_splits)
  qed
qed simp

lemma update_admins:
  assumes "users_inv s" "r \<in> set (users s)" "u_ID u = u_ID (fst r)" "db_UpdateUser s ts u = Inr (u', s')"
  shows "users_inv s'"
    "db_CountAdmins s' = db_CountAdmins s - (if active_admin (fst r) then 1 else 0) + (if active_admin u then 1 else 0)"
proof -
  let ?f = "\<lambda>r. (u\<lparr>u_UpdatedAt := ts, u_CreatedAt := u_CreatedAt (fst r)\<rparr>, snd r)"
  have us: "users s' = upd_where (\<lambda>x. (u_ID \<circ> fst) x = (u_ID \<circ> fst) r) ?f (users s)"
    using update_status(4) [OF assms(4)] assms(3) by simp
  show "users_inv s'"
  proof -
    have "map (u_ID \<circ> fst) (users s') = map (u_ID \<circ> fst) (users s)"
      unfolding us using assms(3) by (induction "users s") (simp_all add: upd_where_def)
    then show ?thesis using assms(1) by (simp add: users_inv_def)
  qed
  have "int (length (filter (\<lambda>r. active_admin (fst r)) (users s'))) =
     int (length (filter (\<lambda>r. active_admin (fst r)) (users s))) - (if active_admin (fst r) then 1 else 0) +
     (if active_admin (fst (?f r)) then 1 else 0)"
    unfolding us using assms(1,2) unfolding users_inv_def by (intro count_upd_where)
  then show "db_CountAdmins s' = db_CountAdmins s - (if active_admin (fst r) then 1 else 0) + (if active_admin u then 1 else 0)"
    by (simp add: db_CountAdmins_def active_admin_def)
qed

lemma password_admins:
  assumes "users_inv s" "db_SetUserPassword s ts uid hash = Inr s'"
  shows "users_inv s'" "db_CountAdmins s' = db_CountAdmins s"
proof -
  have us: "users s' = upd_where (\<lambda>r. u_ID (fst r) = uid)
      (\<lambda>r. ((fst r)\<lparr>u_AuthProvider := ''local'', u_UpdatedAt := ts\<rparr>, hash)) (users s)"
    using assms(2) by (auto simp: db_SetUserPassword_def split: if_splits)
  have "map (u_ID \<circ> fst) (users s') = map (u_ID \<circ> fst) (users s)"
    unfolding us by (rule map_upd_where_same) simp
  then show "users_inv s'" using assms(1) by (simp add: users_inv_def)
  have "length (filter (\<lambda>r. active_admin (fst r)) (upd_where P (\<lambda>r. ((fst r)\<lparr>u_AuthProvider := x, u_UpdatedAt := y\<rparr>, z)) rows)) =
     length (filter (\<lambda>r. active_admin (fst r)) rows)" for P x y z rows
    by (induction rows) (simp_all add: active_admin_def)
  then show "db_CountAdmins s' = db_CountAdmins s" by (simp add: db_CountAdmins_def us)
qed

lemma create_admins:
  assumes "users_inv s" "db_CreateUser s ts u hash = Inr (u', s')"
  shows "users_inv s'" "db_CountAdmins s \<le> db_CountAdmins s'"
proof -
  have "users s' = users s @ [(u\<lparr>u_CreatedAt := ts, u_UpdatedAt := ts\<rparr>, hash)]" "no_row (\<lambda>r. u_ID (fst r) = u_ID u) (users s)"
    using assms(2) by (auto simp: db_CreateUser_def Let_def split: if_splits option.splits)
  then show "users_inv s'" "db_CountAdmins s \<le> db_CountAdmins s'"
    using assms(1) by (auto simp: users_inv_def no_row_iff db_CountAdmins_def)
qed

text \<open>
  The operations that write the users table, and any step that does not.
\<close>

inductive identity_run :: "app \<Rightarrow> app \<Rightarrow> bool" where
  start: "identity_run a a"
| boot: "identity_run a b \<Longrightarrow> bootstrapAdmin L w b = (r, b') \<Longrightarrow> identity_run a b'"
| first: "identity_run a b \<Longrightarrow> SetupInitialAdmin L w b login name pw = (v, b') \<Longrightarrow> identity_run a b'"
| login: "identity_run a b \<Longrightarrow> AuthenticateLocal L w b c login pw = (v, b') \<Longrightarrow> identity_run a b'"
| create: "identity_run a b \<Longrightarrow> AdminCreateUser L w b c i = (v, b') \<Longrightarrow> identity_run a b'"
| edit: "identity_run a b \<Longrightarrow> AdminEditUser w b c uid name email role status = (v, b') \<Longrightarrow> identity_run a b'"
| delete: "identity_run a b \<Longrightarrow> AdminDeleteUser w b c uid = (r, b') \<Longrightarrow> identity_run a b'"
| reset: "identity_run a b \<Longrightarrow> AdminResetPassword L w b c uid pw = (r, b') \<Longrightarrow> identity_run a b'"
| other: "identity_run a b \<Longrightarrow> users (st b') = users (st b) \<Longrightarrow> identity_run a b'"

definition admin_safe :: "store \<Rightarrow> bool" where
  "admin_safe s \<longleftrightarrow> users_inv s \<and> 1 \<le> db_CountAdmins s"

lemma admin_safe_cong: "users s' = users s \<Longrightarrow> admin_safe s' = admin_safe s"
  by (simp add: admin_safe_def users_inv_def db_CountAdmins_def)

lemma admin_safe_update:
  assumes "admin_safe s" "db_GetUser s uid = Inr u0" "u_ID u = uid" "db_UpdateUser s ts u = Inr (u', s')"
    and "active_admin u0 \<longrightarrow> active_admin u \<or> db_CountAdmins s > 1"
  shows "admin_safe s'"
proof -
  obtain r where r: "r \<in> set (users s)" "fst r = u0" "u_ID u0 = uid" using GetUser_in [OF assms(2)] by blast
  have "u_ID u = u_ID (fst r)" using r assms(3) by simp
  from update_admins [OF _ r(1) this assms(4)] assms(1,5) r(2) show ?thesis
    by (auto simp: admin_safe_def)
qed

lemma admin_safe_edit:
  assumes "admin_safe (st b)" "AdminEditUser w b c uid name email role status = (v, b')"
  shows "admin_safe (st b')"
proof (cases "edit_decide b c uid name email role status")
  case (Inl e)
  with assms show ?thesis by (simp add: AdminEditUser_def)
next
  case (Inr u)
  from Inr obtain u0 where u0: "db_GetUser (st b) uid = Inr u0" "u_ID u = uid"
      "active_admin u0 \<longrightarrow> active_admin u \<or> db_CountAdmins (st b) > 1" by (rule edit_decide_user)
  show ?thesis
  proof (cases v)
    case (Inl e)
    with assms Inr show ?thesis by (auto simp: AdminEditUser_def edit_write_def Let_def split: sum.splits prod.splits)
  next
    case (Inr u')
    with assms(2) \<open>edit_decide b c uid name email role status = Inr u\<close>
    have "edit_write w b c u = (Inr u', b')" by (simp add: AdminEditUser_def)
    then obtain s1 where "db_UpdateUser (st b) (now w) u = Inr (u', s1)" "users (st b') = users s1"
      by (rule edit_write_ok)
    with admin_safe_update [OF assms(1) u0(1,2) this(1) u0(3)] show ?thesis
      using admin_safe_cong by blast
  qed
qed

lemma admin_safe_delete:
  assumes "admin_safe (st b)" "AdminDeleteUser w b c uid = (r, b')"
  shows "admin_safe (st b')"
proof (cases r)
  case None
  with assms(2) obtain u s1 u' where d: "db_GetUser (st b) uid = Inr u"
      "active_admin u \<longrightarrow> db_CountAdmins (st b) > 1"
      "db_UpdateUser (st b) (now w) (tombstoneUserIdentity u) = Inr (u', s1)" "users (st b') = users s1"
    by (auto elim: delete_user_ok)
  have "u_ID (tombstoneUserIdentity u) = uid"
    using GetUser_in [OF d(1)] by (auto simp: tombstoneUserIdentity_def)
  from admin_safe_update [OF assms(1) d(1) this d(3)] d(2,4) show ?thesis
    using admin_safe_cong by blast
next
  case (Some e)
  then have "b' = b" using assms(2)
    by (auto simp: AdminDeleteUser_def split: sum.splits if_splits prod.splits)
  with assms(1) show ?thesis by simp
qed

lemma login_users:
  "users (st (snd (AuthenticateLocal L w b c login pw))) = users (st b) \<or>
   (\<exists>r\<in>set (users (st b)). users (st (snd (AuthenticateLocal L w b c login pw))) =
      users (record_login w (st b) ((fst r)\<lparr>u_LastLoginAt := now w\<rparr>)))"
proof (cases "find (\<lambda>r. sql_lower (u_LoginID (fst r)) = sql_lower (TrimSpace login)) (users (st b))")
  case None
  then show ?thesis by (simp add: AuthenticateLocal_def db_GetUserByLogin_def)
next
  case (Some r)
  obtain u0 hash where r: "r = (u0, hash)" by (cases r)
  from find_SomeD [OF Some] have "r \<in> set (users (st b))" by simp
  moreover have "users (st (snd (AuthenticateLocal L w b c login pw))) = users (st b) \<or>
      users (st (snd (AuthenticateLocal L w b c login pw))) =
      users (record_login w (st b) (u0\<lparr>u_LastLoginAt := now w\<rparr>))"
    using Some by (simp add: AuthenticateLocal_def db_GetUserByLogin_def r Let_def)
  ultimately show ?thesis unfolding r by (metis fst_conv)
qed

lemma admin_safe_login:
  assumes "admin_safe (st b)" "AuthenticateLocal L w b c login pw = (v, b')"
  shows "admin_safe (st b')"
  using login_users [of L w b c login pw]
proof
  assume "users (st (snd (AuthenticateLocal L w b c login pw))) = users (st b)"
  with assms admin_safe_cong [of "st b'" "st b"] show ?thesis by simp
next
  assume "\<exists>r\<in>set (users (st b)). users (st (snd (AuthenticateLocal L w b c login pw))) =
      users (record_login w (st b) ((fst r)\<lparr>u_LastLoginAt := now w\<rparr>))"
  then obtain r where r: "r \<in> set (users (st b))"
    and us: "users (st b') = users (record_login w (st b) ((fst r)\<lparr>u_LastLoginAt := now w\<rparr>))"
    using assms(2) by auto
  let ?u = "(fst r)\<lparr>u_LastLoginAt := now w\<rparr>"
  have "admin_safe (record_login w (st b) ?u)"
  proof (cases "db_UpdateUser (st b) (now w) ?u")
    case (Inl e)
    with assms(1) show ?thesis by (simp add: record_login_def)
  next
    case (Inr us')
    obtain u' s' where up: "db_UpdateUser (st b) (now w) ?u = Inr (u', s')" using Inr by (cases us') simp
    then show ?thesis
      using update_admins [OF _ r _ up] assms(1) by (simp add: admin_safe_def active_admin_def record_login_def)
  qed
  with us show ?thesis using admin_safe_cong by blast
qed

lemma admin_safe_step_rest:
  assumes "admin_safe (st b)"
  shows "bootstrapAdmin L w b = (r, b') \<Longrightarrow> admin_safe (st b')"
    "SetupInitialAdmin L w b login name pw = (v, b') \<Longrightarrow> admin_safe (st b')"
    "AdminCreateUser L w b c i = (v, b') \<Longrightarrow> admin_safe (st b')"
    "AdminResetPassword L w b c uid pw = (r, b') \<Longrightarrow> admin_safe (st b')"
proof -
  have n: "db_CountAdmins (st b) > 0" "db_CountAdmins (st b) \<noteq> 0" "users_inv (st b)"
    using assms by (simp_all add: admin_safe_def)
  show "bootstrapAdmin L w b = (r, b') \<Longrightarrow> admin_safe (st b')"
    using n(1) assms by (simp add: bootstrapAdmin_def)
  show "SetupInitialAdmin L w b login name pw = (v, b') \<Longrightarrow> admin_safe (st b')"
    using n(2) assms by (simp add: SetupInitialAdmin_def)
  show "AdminCreateUser L w b c i = (v, b') \<Longrightarrow> admin_safe (st b')"
  proof -
    assume run: "AdminCreateUser L w b c i = (v, b')"
    show ?thesis
    proof (cases "\<exists>hash u' s'. db_CreateUser (st b) (now w) (created_user w i) hash = Inr (u', s') \<and> users (st b') = users s'")
      case True
      then obtain hash u' s' where "db_CreateUser (st b) (now w) (created_user w i) hash = Inr (u', s')"
          "users (st b') = users s'" by blast
      with create_admins [OF n(3) this(1)] n(1) admin_safe_cong [of "st b'" s'] show ?thesis
        by (simp add: admin_safe_def)
    next
      case False
      have "b' = b" using run False
        by (auto simp: AdminCreateUser_def split: sum.splits if_splits prod.splits) metis
      with assms show ?thesis by simp
    qed
  qed
  show "AdminResetPassword L w b c uid pw = (r, b') \<Longrightarrow> admin_safe (st b')"
  proof -
    assume run: "AdminResetPassword L w b c uid pw = (r, b')"
    show ?thesis
    proof (cases "\<exists>hash s'. db_SetUserPassword (st b) (now w) uid hash = Inr s' \<and> users (st b') = users s'")
      case True
      then obtain hash s' where "db_SetUserPassword (st b) (now w) uid hash = Inr s'" "users (st b') = users s'" by blast
      with password_admins [OF n(3) this(1)] n(1) admin_safe_cong [of "st b'" s'] show ?thesis
        by (simp add: admin_safe_def)
    next
      case False
      have "b' = b" using run False
        by (auto simp: AdminResetPassword_def db_DeleteUserSessions_def split: sum.splits if_splits) metis
      with assms show ?thesis by simp
    qed
  qed
qed

text \<open>
  C11.  Once there is an active administrator there always is one: whatever sequence of logins, user
  creations, edits, deletions, password resets and set-up attempts follows, at least one active
  administrator remains.
\<close>

theorem last_admin_survives:
  assumes "identity_run a b" and "users_inv (st a)" and "1 \<le> db_CountAdmins (st a)"
  shows "1 \<le> db_CountAdmins (st b) \<and> users_inv (st b)"
proof -
  have "admin_safe (st a)" using assms(2,3) by (simp add: admin_safe_def)
  with assms(1) have "admin_safe (st b)"
  proof (induction rule: identity_run.induct)
    case (other a b b')
    then show ?case using admin_safe_cong by blast
  qed (blast intro: admin_safe_edit admin_safe_delete admin_safe_login admin_safe_step_rest)+
  then show ?thesis by (simp add: admin_safe_def)
qed

lemma staff_facts: "users_inv (st staff_app)" "db_CountAdmins (st staff_app) = 2"
  by (simp_all add: staff_app_def users_inv_def db_CountAdmins_def sample_user_def new_user_def active_admin_def)

theorem last_admin_survives_witness:
  "\<exists>a'. AdminDeleteUser sample_io staff_app (admin_ctx ''usr_1'') ''usr_3'' = (None, a') \<and> 1 \<le> db_CountAdmins (st a')"
proof -
  obtain a' where d: "AdminDeleteUser sample_io staff_app (admin_ctx ''usr_1'') ''usr_3'' = (None, a')"
    using staff_delete by blast
  from last_admin_survives [OF identity_run.delete [OF identity_run.start d] staff_facts(1)] staff_facts(2) d
  show ?thesis by auto
qed

text \<open>
  The check and the write of an edit are not one transaction.  When two administrators demote each
  other and both checks run before either write, no administrator is left.
\<close>

theorem last_admin_race:
  "\<exists>u v a1 a2 x y.
     edit_decide staff_app (admin_ctx ''usr_1'') ''usr_2'' [] [] RoleUser UserActive = Inr u \<and>
     edit_decide staff_app (admin_ctx ''usr_2'') ''usr_1'' [] [] RoleUser UserActive = Inr v \<and>
     edit_write sample_io staff_app (admin_ctx ''usr_1'') u = (Inr x, a1) \<and>
     edit_write sample_io a1 (admin_ctx ''usr_2'') v = (Inr y, a2) \<and>
     db_CountAdmins (st a2) = 0"
  by (simp add: edit_decide_def requireAdmin_def admin_ctx_def principalFor_def sample_user_def new_user_def
      IsAdmin_def db_GetUser_def staff_app_def active_admin_def db_UpdateUser_def Let_def edit_write_def
      user_clash_def no_row_def db_CountAdmins_def)

end
