(* ===== verification/Auth_Limits.thy ===== *)
theory Auth_Limits
  imports Auth_Safety
begin

text \<open>
  Limits of authority: who may create and widen MCP keys, and how far the purge of a deleted user's
  mail reaches.
\<close>

section \<open>Who may widen a key\<close>

lemma userIDFrom_principal: "c_principal c = Some p \<Longrightarrow> p_UserID p \<noteq> [] \<Longrightarrow> userIDFrom c = p_UserID p"
  by (simp add: userIDFrom_def)

lemma create_key_ok:
  assumes "CreateMCPKeyWithScopes L w a c name scopes = (r, a')" "mcp_keys (st a') \<noteq> mcp_keys (st a)"
  obtains k where "mcp_keys (st a') = mcp_keys (st a) @ [k]" "k_UserID k = userIDFrom c" "\<not> grant_refused c (k_Scopes k)"
proof (cases "NormalizeMCPScopes scopes")
  case (Inl e)
  with assms show thesis by (simp add: CreateMCPKeyWithScopes_def)
next
  case (Inr resolved)
  from assms Inr have "\<not> grant_refused c resolved"
    by (auto simp: CreateMCPKeyWithScopes_def split: if_splits)
  with assms Inr show thesis
    by (auto simp: CreateMCPKeyWithScopes_def db_CreateMCPKey_def Let_def split: if_splits intro: that)
qed

lemma update_key_ok:
  assumes "UpdateMCPKeyScopes w a c kid scopes adm = (r, a')" "mcp_keys (st a') \<noteq> mcp_keys (st a)"
  obtains resolved where "c_principal c \<noteq> None \<longrightarrow> \<not> IsMCPScoped (the (c_principal c))"
    "adm \<longrightarrow> requireAdmin_err c = None"
    "c_principal c \<noteq> None \<longrightarrow> adm \<or> \<not> (\<not> IsAdmin (the (c_principal c)) \<and> has_admin_scope resolved)"
    "mcp_keys (st a') = upd_where (\<lambda>k. k_ID k = kid \<and> ((if adm then [] else userIDFrom c) = [] \<or>
        k_UserID k = (if adm then [] else userIDFrom c)) \<and> k_Status k = ''active'')
      (\<lambda>k. k\<lparr>k_Scopes := resolved, k_LegacyScopes := False\<rparr>) (mcp_keys (st a))"
proof (cases "NormalizeMCPScopes scopes")
  case (Inl e)
  with assms show thesis by (auto simp: UpdateMCPKeyScopes_def split: if_splits option.splits)
next
  case (Inr resolved)
  from assms(1) have "c_principal c \<noteq> None \<and> IsMCPScoped (the (c_principal c)) \<longrightarrow> a' = a"
    by (auto simp: UpdateMCPKeyScopes_def)
  moreover from assms(1) Inr have "adm \<and> requireAdmin_err c \<noteq> None \<longrightarrow> a' = a"
    by (auto simp: UpdateMCPKeyScopes_def split: if_splits option.splits)
  moreover from assms(1) Inr have
    "c_principal c \<noteq> None \<and> \<not> adm \<and> \<not> IsAdmin (the (c_principal c)) \<and> has_admin_scope resolved \<longrightarrow> a' = a"
    by (auto simp: UpdateMCPKeyScopes_def split: if_splits option.splits)
  moreover have "mcp_keys (st a') = mcp_keys (st a) \<or> mcp_keys (st a') = upd_where (\<lambda>k. k_ID k = kid \<and> ((if adm then [] else userIDFrom c) = [] \<or>
        k_UserID k = (if adm then [] else userIDFrom c)) \<and> k_Status k = ''active'')
      (\<lambda>k. k\<lparr>k_Scopes := resolved, k_LegacyScopes := False\<rparr>) (mcp_keys (st a))"
    using assms(1) Inr
    by (auto simp: UpdateMCPKeyScopes_def db_UpdateMCPKeyScopes_def Let_def split: if_splits option.splits)
  moreover have "a' \<noteq> a" using assms(2) by auto
  ultimately show thesis using assms(2) by (intro that [of resolved]) blast+
qed


definition key_app :: app where
  "key_app = staff_app\<lparr>st := (st staff_app)\<lparr>mcp_keys :=
     [\<lparr>k_ID = ''key_1'', k_UserID = ''usr_1'', k_Name = ''ops'', k_KeyHash = ''h1'', k_KeyPrefix = [],
       k_Status = ''active'', k_CreatedAt = 1, k_LastUsedAt = 1, k_Scopes = [''admin.read''], k_LegacyScopes = False\<rparr>]\<rparr>\<rparr>"

definition user_ctx :: "string \<Rightarrow> ctx" where
  "user_ctx uid = \<lparr>c_actor = Some ''rest'', c_principal = Some (principalFor (sample_user uid uid RoleUser) ''local'')\<rparr>"


section \<open>The reach of a purge\<close>

lemma purge_rows_messages:
  "messages (purge_rows s uid) = filter (\<lambda>m. m_UserID m \<noteq> uid) (messages s)"
  "accounts (purge_rows s uid) = filter (\<lambda>x. a_UserID x \<noteq> uid) (accounts s)"
  "users (purge_rows s uid) = users s"
  by (simp_all add: purge_rows_def Let_def del_where_def)

lemma purge_loop_scope:
  "messages (snd (purge_loop s uids)) = filter (\<lambda>m. m_UserID m \<notin> set uids) (messages s) \<and>
   accounts (snd (purge_loop s uids)) = filter (\<lambda>x. a_UserID x \<notin> set uids) (accounts s) \<and>
   users (snd (purge_loop s uids)) = users s"
proof (induction uids arbitrary: s)
  case (Cons uid uids)
  have "snd (purge_loop s (uid # uids)) = snd (purge_loop (purge_rows s uid) uids)"
    by (simp add: case_prod_beta Let_def)
  with Cons.IH [of "purge_rows s uid"] show ?case
    by (auto simp: purge_rows_messages intro: filter_cong)
qed simp

lemma purge_loop_uris: "uids \<noteq> [] \<Longrightarrow> set (user_uris s (hd uids)) \<subseteq> set (fst (purge_loop s uids))"
  by (cases uids) (auto simp: case_prod_beta Let_def)

lemma purge_ok:
  assumes "AdminPurgeDeletedUserMail L w a c email confirmation = (None, a')"
  obtains p normalized uris s' where "requireAdmin c = Inr p"
    "normalizedProvisionEmail L email = Inr normalized" "EqualFold L normalized (TrimSpace confirmation)"
    "purge_users (st a) normalized \<noteq> []" "purge_loop (st a) (purge_users (st a) normalized) = (uris, s')"
    "messages (st a') = messages s'" "accounts (st a') = accounts s'" "users (st a') = users s'"
    "objects a' = purge (objects a) uris"
  using assms
  by (auto simp: AdminPurgeDeletedUserMail_def db_PurgeDeletedUserMailByEmail_def Let_def
      split: sum.splits if_splits prod.splits)

text \<open>
  A purge that succeeds was asked for by an administrator, who repeated the address; it removes
  the accounts and messages of users who are deleted and have an account with that address, of
  nobody else, and changes no user.
\<close>

theorem purge_scope:
  assumes "AdminPurgeDeletedUserMail L w a c email confirmation = (None, a')"
  shows "\<exists>p normalized uids. c_principal c = Some p \<and> IsAdmin p \<and>
     normalizedProvisionEmail L email = Inr normalized \<and> EqualFold L normalized (TrimSpace confirmation) \<and>
     uids \<noteq> [] \<and>
     (\<forall>uid\<in>set uids. (\<exists>r\<in>set (users (st a)). u_ID (fst r) = uid \<and> u_Status (fst r) = UserDeleted) \<and>
        (\<exists>x\<in>set (accounts (st a)). a_UserID x = uid \<and> sql_lower (a_Email x) = sql_lower (TrimSpace normalized))) \<and>
     messages (st a') = filter (\<lambda>m. m_UserID m \<notin> set uids) (messages (st a)) \<and>
     accounts (st a') = filter (\<lambda>x. a_UserID x \<notin> set uids) (accounts (st a)) \<and>
     users (st a') = users (st a)"
proof -
  from assms obtain p normalized uris s' where ok: "requireAdmin c = Inr p"
      "normalizedProvisionEmail L email = Inr normalized" "EqualFold L normalized (TrimSpace confirmation)"
      "purge_users (st a) normalized \<noteq> []" "purge_loop (st a) (purge_users (st a) normalized) = (uris, s')"
      "messages (st a') = messages s'" "accounts (st a') = accounts s'" "users (st a') = users s'"
    by (rule purge_ok)
  have p: "c_principal c = Some p" "IsAdmin p" using ok(1) by (auto simp: requireAdmin_def split: option.splits if_splits)
  have "\<forall>uid\<in>set (purge_users (st a) normalized).
      (\<exists>r\<in>set (users (st a)). u_ID (fst r) = uid \<and> u_Status (fst r) = UserDeleted) \<and>
      (\<exists>x\<in>set (accounts (st a)). a_UserID x = uid \<and> sql_lower (a_Email x) = sql_lower (TrimSpace normalized))"
    by (auto simp: purge_users_def no_row_iff)
  with p ok purge_loop_scope [of "st a" "purge_users (st a) normalized"] show ?thesis
    by (intro exI [of _ p] exI [of _ normalized] exI [of _ "purge_users (st a) normalized"]) simp
qed

lemma purge_gone:
  assumes "u \<in> set uris" "u \<noteq> []" "parseURI u = Inr kn"
  shows "purge m uris kn = None"
proof -
  have keep: "purge m' us kn = None" if "m' kn = None" for m' us
    using that unfolding purge_def
    by (induction us arbitrary: m') (auto simp: obj_Delete_def split: sum.splits)
  from assms(1) obtain us vs where "uris = us @ u # vs" by (auto dest: split_list)
  then have "purge m uris = purge ((purge m us)(kn := None)) vs"
    using assms(2,3) by (simp add: purge_def obj_Delete_def)
  then show ?thesis by (simp add: keep)
qed

text \<open>
  The purge does not count references: whatever object a purged user's message was stored
  under can not be read afterwards, and a remaining message of another user stored under the same
  address, because it has the same content, has lost its original.
\<close>

theorem purge_drops_shared_objects:
  assumes "AdminPurgeDeletedUserMail L w a c email confirmation = (None, a')"
    and "normalizedProvisionEmail L email = Inr normalized"
    and "m \<in> set (messages (st a))" "m_UserID m = hd (purge_users (st a) normalized)" "m_RawURI m \<noteq> []"
    and "m' \<in> set (messages (st a))" "m_UserID m' \<notin> set (purge_users (st a) normalized)" "m_RawURI m' = m_RawURI m"
  shows "m' \<in> set (messages (st a')) \<and> (\<forall>d. obj_Get (objects a') (m_RawURI m') \<noteq> Inr d)"
proof -
  from assms(1,2) obtain uris s' where ok: "purge_users (st a) normalized \<noteq> []"
      "purge_loop (st a) (purge_users (st a) normalized) = (uris, s')"
      "messages (st a') = messages s'" "objects a' = purge (objects a) uris"
    by (auto elim!: purge_ok)
  have "m' \<in> set (messages (st a'))"
    using purge_loop_scope [of "st a" "purge_users (st a) normalized"] ok assms(6,7) by simp
  moreover have "m_RawURI m \<in> set (user_uris (st a) (hd (purge_users (st a) normalized)))"
    using assms(3-5) by (simp add: user_uris_def)
  then have "m_RawURI m \<in> set uris" using purge_loop_uris [OF ok(1), of "st a"] ok(2) by auto
  then have "obj_Get (objects a') (m_RawURI m) \<noteq> Inr d" for d
    using purge_gone [OF _ assms(5), of uris] ok(4) by (auto simp: obj_Get_def split: sum.splits option.splits prod.splits)
  ultimately show ?thesis using assms(8) by simp
qed

text \<open>
  Two users have received the same message, which the content-addressed store holds once; the first
  user is deleted and their mail purged.
\<close>

definition shared_app :: app where
  "shared_app =
     staff_app\<lparr>st := (st staff_app)\<lparr>
       users := users (st staff_app) @ [((sample_user ''usr_4'' ''choi'' RoleUser)\<lparr>u_Status := UserDeleted\<rparr>, [])],
       accounts := [sample_account\<lparr>a_ID := ''acc_4'', a_UserID := ''usr_4'', a_Email := ''choi''\<rparr>],
       messages := [sample_message\<lparr>m_ID := ''m4'', m_UserID := ''usr_4''\<rparr>,
                    sample_message\<lparr>m_ID := ''m3'', m_UserID := ''usr_3''\<rparr>]\<rparr>,
       objects := [(''raw'', ''h1'') \<mapsto> ''hello'']\<rparr>"

lemma shared_facts:
  "normalizedProvisionEmail sample_lib ''choi'' = Inr ''choi''"
  "requireAdmin (admin_ctx ''usr_1'') = Inr (principalFor (sample_user ''usr_1'' ''usr_1'' RoleAdmin) ''local'')"
  "purge_users (st shared_app) ''choi'' = [''usr_4'']"
  "EqualFold sample_lib ''choi'' (TrimSpace ''choi'')"
  "obj_Get (objects shared_app) ''local://raw/h1'' = Inr ''hello''"
  apply code_simp
  apply code_simp
  apply code_simp
  apply code_simp
  apply code_simp
  done

theorem purge_drops_shared_objects_witness:
  "\<exists>a' m'. AdminPurgeDeletedUserMail sample_lib sample_io shared_app (admin_ctx ''usr_1'') ''choi'' ''choi'' = (None, a') \<and>
     m' \<in> set (messages (st a')) \<and> m_UserID m' = ''usr_3'' \<and>
     obj_Get (objects shared_app) (m_RawURI m') = Inr ''hello'' \<and> (\<forall>d. obj_Get (objects a') (m_RawURI m') \<noteq> Inr d)"
proof -
  obtain a' where r: "AdminPurgeDeletedUserMail sample_lib sample_io shared_app (admin_ctx ''usr_1'') ''choi'' ''choi'' = (None, a')"
    using shared_facts by (simp add: AdminPurgeDeletedUserMail_def db_PurgeDeletedUserMailByEmail_def case_prod_beta Let_def)
  let ?m = "sample_message\<lparr>m_ID := ''m4'', m_UserID := ''usr_4''\<rparr>"
    and ?m' = "sample_message\<lparr>m_ID := ''m3'', m_UserID := ''usr_3''\<rparr>"
  have uri: "m_RawURI ?m' = ''local://raw/h1''" "m_RawURI ?m = ''local://raw/h1''" by (simp_all add: sample_message_def)
  have "?m' \<in> set (messages (st a')) \<and> (\<forall>d. obj_Get (objects a') (m_RawURI ?m') \<noteq> Inr d)"
    by (rule purge_drops_shared_objects [OF r shared_facts(1), of ?m])
       (simp_all add: shared_facts(3) uri, simp_all add: shared_app_def)
  with r shared_facts(5) uri(1) show ?thesis by (intro exI [of _ a'] exI [of _ ?m']) simp
qed

theorem purge_scope_witness:
  "\<exists>a'. AdminPurgeDeletedUserMail sample_lib sample_io shared_app (admin_ctx ''usr_1'') ''choi'' ''choi'' = (None, a') \<and>
     users (st a') = users (st shared_app)"
proof -
  obtain a' where r: "AdminPurgeDeletedUserMail sample_lib sample_io shared_app (admin_ctx ''usr_1'') ''choi'' ''choi'' = (None, a')"
    using shared_facts by (simp add: AdminPurgeDeletedUserMail_def db_PurgeDeletedUserMailByEmail_def case_prod_beta Let_def)
  with purge_scope [OF r] show ?thesis by blast
qed

end
