(* ===== verification/Key_Ring.thy ===== *)
theory Key_Ring
  imports Identity "HOL-Library.AList"
begin

text \<open>
  Envelope encryption: the versioned keyring, sealing, opening and rewrapping of envelopes
  (\<open>src/internal/platform/crypto/envelope.go\<close>).  AES-GCM, JSON and the file system are parameters,
  gathered in \<open>crypt\<close>; \<open>gcm_Open\<close> returns nothing when the tag does not verify.  The file-based
  loading of a keyring is not modelled: keyrings come from the environment or from the database.
  Zeroing the buffers of data keys has no counterpart here.
\<close>

section \<open>Envelopes and keyrings\<close>

record CryptoEnvelope =
  en_Alg :: string
  en_KeyVersion :: int
  en_WrappedDEK :: string
  en_DEKNonce :: string
  en_Nonce :: string
  en_Ciphertext :: string

text \<open>The keys by version; the map of the code, in an arbitrary order.\<close>

record KEK =
  kk_keys :: "(int \<times> string) list"
  kk_current :: int
  kk_path :: string
  kk_external :: bool

record keyringFile =
  kf_Current :: int
  kf_Keys :: "(string \<times> string) list"

record crypt =
  gcm_Seal :: "string \<Rightarrow> string \<Rightarrow> string \<Rightarrow> string \<Rightarrow> string"
  gcm_Open :: "string \<Rightarrow> string \<Rightarrow> string \<Rightarrow> string \<Rightarrow> string option"
  env_Marshal :: "CryptoEnvelope \<Rightarrow> string"
  env_Unmarshal :: "string \<Rightarrow> err + CryptoEnvelope"
  ring_Marshal :: "keyringFile \<Rightarrow> string"
  ring_Unmarshal :: "string \<Rightarrow> err + keyringFile"
  go_Quote :: "string \<Rightarrow> string"
  write_ring :: "string \<Rightarrow> keyringFile \<Rightarrow> err option"

definition keySize :: nat where "keySize = 32"

text \<open>\<open>base64.StdEncoding\<close>: the unpadded text, filled up with \<open>=\<close> to a multiple of four.\<close>

definition b64_pad :: "string \<Rightarrow> string" where
  "b64_pad s = s @ replicate ((4 - length s mod 4) mod 4) CHR ''=''"

definition b64_unpad :: "string \<Rightarrow> string option" where
  "b64_unpad s =
     (let t = filter (\<lambda>c. c \<noteq> CHR 0x0A \<and> c \<noteq> CHR 0x0D) s;
          body = takeWhile (\<lambda>c. c \<noteq> CHR ''='') t
      in if length t mod 4 = 0 \<and> t = b64_pad body then Some body else None)"

definition std_encode :: "string \<Rightarrow> string" where
  "std_encode s = b64_pad (b64_encode b64_std s)"

definition std_decode :: "string \<Rightarrow> string option" where
  "std_decode s = Option.bind (b64_unpad s) (b64_decode b64_std)"

section \<open>Loading and saving\<close>

text \<open>\<open>Sscanf(s, "%d", &v)\<close> into a variable that holds 0, the error being ignored.\<close>

definition scan_version :: "string \<Rightarrow> int" where
  "scan_version s =
     (case skip_scan_space s of
        None \<Rightarrow> 0
      | Some t \<Rightarrow>
          (let neg = HasPrefix t ''-'';
               u = (if neg \<or> HasPrefix t ''+'' then tl t else t);
               ds = takeWhile is_digit u;
               n = (if neg then - int (digits_val ds) else int (digits_val ds))
           in if ds = [] \<or> n < - max_int64 - 1 \<or> n > max_int64 then 0 else n))"

fun load_keys :: "(int \<times> string) list \<Rightarrow> (string \<times> string) list \<Rightarrow> err + (int \<times> string) list" where
  "load_keys ks [] = Inr ks"
| "load_keys ks ((vs, enc) # rest) =
     (case std_decode enc of
        None \<Rightarrow> Inl (SysError (''corrupt key v'' @ vs @ '' in keyring''))
      | Some key \<Rightarrow>
          if length key \<noteq> keySize then Inl (SysError (''corrupt key v'' @ vs @ '' in keyring''))
          else load_keys (AList.update (scan_version vs) key ks) rest)"

definition KEKFromKeyringJSON :: "crypt \<Rightarrow> string \<Rightarrow> err + KEK" where
  "KEKFromKeyringJSON C d =
     (case ring_Unmarshal C d of
        Inl e \<Rightarrow> Inl (SysError (''corrupt keyring: '' @ err_text e))
      | Inr kf \<Rightarrow>
          (case load_keys [] (kf_Keys kf) of
             Inl e \<Rightarrow> Inl e
           | Inr ks \<Rightarrow>
               if ks = [] \<or> map_of ks (kf_Current kf) = None
               then Inl (SysError ''keyring missing current key'')
               else Inr \<lparr>kk_keys = ks, kk_current = kf_Current kf, kk_path = [], kk_external = False\<rparr>))"

text \<open>\<open>NewKEKFromEnv\<close> with the value of \<open>POSTRA_KEK\<close>; nothing when it is unset.\<close>

definition NewKEKFromEnv :: "string \<Rightarrow> (err + KEK) option" where
  "NewKEKFromEnv v =
     (if v = [] then None
      else Some (case std_decode v of
             None \<Rightarrow> Inl (SysError ''POSTRA_KEK must be base64 of 32 bytes'')
           | Some key \<Rightarrow>
               if length key \<noteq> keySize then Inl (SysError ''POSTRA_KEK must be base64 of 32 bytes'')
               else Inr \<lparr>kk_keys = [(1, key)], kk_current = 1, kk_path = [], kk_external = True\<rparr>))"

definition ring_file :: "KEK \<Rightarrow> keyringFile" where
  "ring_file k =
     \<lparr>kf_Current = kk_current k, kf_Keys = map (\<lambda>(v, key). (fmt_d v, std_encode key)) (kk_keys k)\<rparr>"

definition KeyringJSON :: "crypt \<Rightarrow> KEK \<Rightarrow> string" where
  "KeyringJSON C k = ring_Marshal C (ring_file k)"

definition NewRandomKeyringJSON :: "crypt \<Rightarrow> io \<Rightarrow> string" where
  "NewRandomKeyringJSON C w =
     ring_Marshal C \<lparr>kf_Current = 1, kf_Keys = [(''1'', std_encode (rand_bytes w 0 keySize))]\<rparr>"

definition kek_save :: "crypt \<Rightarrow> KEK \<Rightarrow> err option" where
  "kek_save C k = (if kk_path k = [] then None else write_ring C (kk_path k) (ring_file k))"

section \<open>Rotation\<close>

text \<open>The keyring in memory has changed when saving it fails.\<close>

definition kek_Rotate :: "crypt \<Rightarrow> io \<Rightarrow> KEK \<Rightarrow> (err + int) \<times> KEK" where
  "kek_Rotate C w k =
     (if kk_external k
      then (Inl (SysError (''cannot rotate an externally-injected KEK (POSTRA_KEK); rotate it '' @
              ''in the key manager'')), k)
      else (let nv = wrap64 (kk_current k + 1);
                k' = k\<lparr>kk_keys := AList.update nv (rand_bytes w 0 keySize) (kk_keys k), kk_current := nv\<rparr>
            in (case kek_save C k' of Some e \<Rightarrow> Inl e | None \<Rightarrow> Inr nv, k')))"

definition RetireVersion :: "crypt \<Rightarrow> KEK \<Rightarrow> int \<Rightarrow> err option \<times> KEK" where
  "RetireVersion C k v =
     (if v = kk_current k then (Some (SysError ''cannot retire the current key version''), k)
      else (let k' = k\<lparr>kk_keys := AList.delete v (kk_keys k)\<rparr> in (kek_save C k', k')))"

section \<open>Sealing and opening\<close>

definition gcm_key_ok :: "string \<Rightarrow> bool" where
  "gcm_key_ok key = (length key = 16 \<or> length key = 24 \<or> length key = 32)"

definition gcm_err :: "string \<Rightarrow> err" where
  "gcm_err key = SysError (''crypto/aes: invalid key size '' @ dec (length key))"

definition nonce_panic :: err where
  "nonce_panic = SysError ''panic: crypto/cipher: incorrect nonce length given to GCM''"

text \<open>The key of a version; a version that is missing gives the nil slice.\<close>

definition key_of :: "KEK \<Rightarrow> int \<Rightarrow> string" where
  "key_of k v = (case map_of (kk_keys k) v of Some key \<Rightarrow> key | None \<Rightarrow> [])"

definition kek_Encrypt :: "crypt \<Rightarrow> io \<Rightarrow> KEK \<Rightarrow> string \<Rightarrow> string \<Rightarrow> err + CryptoEnvelope" where
  "kek_Encrypt C w k v aad =
     (let dek = rand_bytes w 0 keySize; nonce = rand_bytes w 1 12; kek = key_of k (kk_current k)
      in if \<not> gcm_key_ok dek then Inl (gcm_err dek)
         else if \<not> gcm_key_ok kek then Inl (gcm_err kek)
         else (let dekNonce = rand_bytes w 2 12
               in Inr \<lparr>en_Alg = ''aes-256-gcm'', en_KeyVersion = kk_current k,
                    en_WrappedDEK = gcm_Seal C kek dekNonce dek aad, en_DEKNonce = dekNonce,
                    en_Nonce = nonce, en_Ciphertext = gcm_Seal C dek nonce v aad\<rparr>))"

text \<open>Opening with a key; a nonce of another length than 12 bytes panics.\<close>

definition open_with :: "crypt \<Rightarrow> string \<Rightarrow> string \<Rightarrow> string \<Rightarrow> string \<Rightarrow> err \<Rightarrow> err + string" where
  "open_with C key nonce ct aad failed =
     (if \<not> gcm_key_ok key then Inl (gcm_err key)
      else if length nonce \<noteq> 12 then Inl nonce_panic
      else case gcm_Open C key nonce ct aad of None \<Rightarrow> Inl failed | Some pt \<Rightarrow> Inr pt)"

definition kek_Decrypt :: "crypt \<Rightarrow> KEK \<Rightarrow> CryptoEnvelope \<Rightarrow> string \<Rightarrow> err + string" where
  "kek_Decrypt C k e aad =
     (if en_Alg e \<noteq> ''aes-256-gcm'' then Inl (SysError (''unsupported algorithm '' @ go_Quote C (en_Alg e)))
      else case map_of (kk_keys k) (en_KeyVersion e) of
             None \<Rightarrow> Inl (SysError (''key version '' @ fmt_d (en_KeyVersion e) @ '' not available (retired?)''))
           | Some key \<Rightarrow>
               (case open_with C key (en_DEKNonce e) (en_WrappedDEK e) aad
                       (SysError ''unwrap DEK failed (wrong KEK or tampered envelope)'') of
                  Inl er \<Rightarrow> Inl er
                | Inr dek \<Rightarrow>
                    open_with C dek (en_Nonce e) (en_Ciphertext e) aad
                      (SysError ''decrypt failed (tampered ciphertext or wrong AAD)'')))"

text \<open>The envelope is changed in place; the Boolean says whether it was.\<close>

definition kek_Rewrap :: "crypt \<Rightarrow> io \<Rightarrow> KEK \<Rightarrow> CryptoEnvelope \<Rightarrow> string \<Rightarrow> err + (bool \<times> CryptoEnvelope)" where
  "kek_Rewrap C w k e aad =
     (if en_KeyVersion e = kk_current k then Inr (False, e)
      else case map_of (kk_keys k) (en_KeyVersion e) of
             None \<Rightarrow> Inl (SysError (''key version '' @ fmt_d (en_KeyVersion e) @ '' not in keyring''))
           | Some oldKey \<Rightarrow>
               (case open_with C oldKey (en_DEKNonce e) (en_WrappedDEK e) aad
                       (SysError ''unwrap DEK failed during rewrap'') of
                  Inl er \<Rightarrow> Inl er
                | Inr dek \<Rightarrow>
                    (let kek = key_of k (kk_current k); nonce = rand_bytes w 0 12
                     in if \<not> gcm_key_ok kek then Inl (gcm_err kek)
                        else Inr (True, e\<lparr>en_WrappedDEK := gcm_Seal C kek nonce dek aad, en_DEKNonce := nonce,
                               en_KeyVersion := kk_current k\<rparr>))))"

section \<open>The laws of the parameters\<close>

text \<open>
  AES-GCM opens what it sealed; \<open>json.Unmarshal\<close> reads back what \<open>json.Marshal\<close> wrote, where the keys of
  a map may come in another order and the texts are ASCII.
\<close>

definition crypt_ok :: "crypt \<Rightarrow> bool" where
  "crypt_ok C \<longleftrightarrow>
     (\<forall>key nonce pt aad. gcm_key_ok key \<longrightarrow> length nonce = 12 \<longrightarrow>
        gcm_Open C key nonce (gcm_Seal C key nonce pt aad) aad = Some pt) \<and>
     (\<forall>e. is_ascii (en_Alg e) \<and> 0 \<le> en_KeyVersion e \<and> en_KeyVersion e \<le> max_int64 \<longrightarrow>
        env_Unmarshal C (env_Marshal C e) = Inr e \<and> env_Marshal C e \<noteq> []) \<and>
     (\<forall>kf. distinct (map fst (kf_Keys kf)) \<and> 0 \<le> kf_Current kf \<and> kf_Current kf \<le> max_int64 \<and>
          list_all (\<lambda>(v, enc). is_ascii v \<and> is_ascii enc) (kf_Keys kf) \<longrightarrow>
        (\<exists>ks. ring_Unmarshal C (ring_Marshal C kf) = Inr (kf\<lparr>kf_Keys := ks\<rparr>) \<and>
              distinct (map fst ks) \<and> set ks = set (kf_Keys kf)))"

definition rand_ok :: "io \<Rightarrow> bool" where
  "rand_ok w \<longleftrightarrow> (\<forall>i n. length (rand_bytes w i n) = n)"

text \<open>A keyring in use: keys of the right size, the current version the latest.\<close>

definition ring_ok :: "KEK \<Rightarrow> bool" where
  "ring_ok k \<longleftrightarrow>
     distinct (map fst (kk_keys k)) \<and> kk_current k \<in> fst ` set (kk_keys k) \<and> kk_current k < max_int64 \<and>
     (\<forall>(v, key)\<in>set (kk_keys k). length key = keySize \<and> 0 \<le> v \<and> v \<le> kk_current k)"

section \<open>Round trips\<close>

lemma pad_mult4: "length (b64_pad s) mod 4 = 0"
proof -
  have "(n + (4 - n mod 4) mod 4) mod 4 = 0" for n :: nat
  proof -
    have "n mod 4 = 0 \<or> n mod 4 = 1 \<or> n mod 4 = 2 \<or> n mod 4 = 3" by arith
    then have "(n mod 4 + (4 - n mod 4) mod 4) mod 4 = 0" by (elim disjE) simp_all
    then show ?thesis by (simp only: mod_add_left_eq)
  qed
  from this [of "length s"] show ?thesis by (simp only: b64_pad_def length_append length_replicate)
qed

lemma std_roundtrip: "std_decode (std_encode s) = Some s"
proof -
  define b where "b = b64_encode b64_std s"
  have "set b \<subseteq> set b64_std" unfolding b_def by (rule set_b64_encode) (simp add: b64_alphabets)
  moreover have "CHR ''='' \<notin> set b64_std" "CHR 0x0A \<notin> set b64_std" "CHR 0x0D \<notin> set b64_std"
    by (simp_all add: b64_std_def)
  ultimately have n: "CHR ''='' \<notin> set b" "CHR 0x0A \<notin> set b" "CHR 0x0D \<notin> set b" by blast+
  have f: "filter (\<lambda>c. c \<noteq> CHR 0x0A \<and> c \<noteq> CHR 0x0D) (b64_pad b) = b64_pad b"
    using n by (intro filter_True) (auto simp: b64_pad_def)
  have t: "takeWhile (\<lambda>c. c \<noteq> CHR ''='') (b64_pad b) = b"
    using n(1) by (auto simp: b64_pad_def takeWhile_append)
  have "b64_unpad (b64_pad b) = Some b"
    unfolding b64_unpad_def f t Let_def by (simp only: pad_mult4 simp_thms if_True)
  moreover have "b64_decode b64_std b = Some s"
    unfolding b_def by (rule b64_roundtrip [OF b64_alphabets(1-4)])
  ultimately show ?thesis by (simp only: std_decode_def std_encode_def b_def [symmetric] bind.simps)
qed

lemma ascii_fmt_d: "is_ascii (fmt_d v)"
proof -
  have "\<forall>c\<in>set (dec n). byte c < 128" for n
    using set_dec by (fastforce simp: is_digit_def)
  then show ?thesis by (simp add: is_ascii_def fmt_d_def list_all_iff byte_def)
qed

lemma ascii_std_encode: "is_ascii (std_encode s)"
proof -
  have "\<forall>c\<in>set b64_std. byte c < 128" by (simp add: b64_std_def byte_def)
  moreover have "set (b64_encode b64_std s) \<subseteq> set b64_std" by (rule set_b64_encode) (simp add: b64_alphabets)
  ultimately have "\<forall>c\<in>set (b64_encode b64_std s). byte c < 128" by blast
  then show ?thesis by (auto simp: is_ascii_def std_encode_def b64_pad_def list_all_iff byte_def)
qed

lemma scan_version_fmt: "0 \<le> v \<Longrightarrow> v \<le> max_int64 \<Longrightarrow> scan_version (fmt_d v) = v"
proof -
  assume v: "0 \<le> v" "v \<le> max_int64"
  have e: "fmt_d v = dec (nat v)" using v by (simp add: fmt_d_def)
  have d: "c \<in> set (dec (nat v)) \<Longrightarrow> is_digit c" for c using set_dec by blast
  obtain c cs where c: "dec (nat v) = c # cs" using dec_not_Nil by (cases "dec (nat v)") auto
  with d have "is_digit c" by simp
  then have g: "graphic c" "c \<noteq> CHR ''-''" "c \<noteq> CHR ''+''" by (auto simp: graphic_def is_digit_def byte_def)
  have t: "takeWhile is_digit (c # cs) = c # cs" using d by (simp add: c takeWhile_eq_all_conv)
  show ?thesis
    unfolding e c scan_version_def skip_graphic [OF g(1)]
    using v g t digits_val_dec [of "nat v"] by (simp add: Let_def HasPrefix_def c max_int64_def)
qed

lemma load_keys_map:
  assumes "\<forall>(v, key)\<in>set ps. length key = keySize \<and> 0 \<le> v \<and> v \<le> max_int64" "distinct (map fst ps)"
  shows "\<exists>ks'. load_keys ks (map (\<lambda>(v, key). (fmt_d v, std_encode key)) ps) = Inr ks' \<and>
     map_of ks' = map_of ks ++ map_of ps"
  using assms
proof (induction ps arbitrary: ks)
  case (Cons p ps)
  obtain v key where p: "p = (v, key)" by (cases p)
  from Cons.prems have k: "length key = keySize" "scan_version (fmt_d v) = v" "v \<notin> fst ` set ps"
    by (auto simp: p scan_version_fmt)
  from Cons.IH [of "AList.update v key ks"] Cons.prems obtain ks' where
    "load_keys (AList.update v key ks) (map (\<lambda>(v, key). (fmt_d v, std_encode key)) ps) = Inr ks'"
    "map_of ks' = map_of (AList.update v key ks) ++ map_of ps" by auto
  moreover have "map_of ps v = None" using k(3) by (simp add: map_of_eq_None_iff)
  then have "map_of (AList.update v key ks) ++ map_of ps = map_of ks ++ map_of (p # ps)"
    by (auto simp: p update_conv' map_add_def fun_eq_iff split: option.splits)
  ultimately show ?case by (simp add: p std_roundtrip k fun_upd_def map_add_def)
qed simp

lemma ring_ok_current:
  assumes "ring_ok k"
  obtains key where "map_of (kk_keys k) (kk_current k) = Some key" "length key = keySize"
    "key_of k (kk_current k) = key" "gcm_key_ok key"
proof -
  from assms have "map_of (kk_keys k) (kk_current k) \<noteq> None" by (auto simp: ring_ok_def map_of_eq_None_iff)
  then obtain key where k: "map_of (kk_keys k) (kk_current k) = Some key" by blast
  from map_of_SomeD [OF k] assms have "length key = keySize" by (auto simp: ring_ok_def)
  then show thesis by (intro that [of key]) (simp_all add: k key_of_def gcm_key_ok_def keySize_def)
qed

lemma load_keys_distinct:
  "load_keys ks ps = Inr ks' \<Longrightarrow> distinct (map fst ks) \<Longrightarrow> distinct (map fst ks')"
  by (induction ks ps rule: load_keys.induct) (auto simp: distinct_update split: option.splits if_splits)

lemma ring_ok_same:
  assumes "ring_ok k" "map_of (kk_keys k') = map_of (kk_keys k)" "kk_current k' = kk_current k" "distinct (map fst (kk_keys k'))"
  shows "ring_ok k'"
proof -
  have "set (kk_keys k') = set (kk_keys k)"
  proof (rule set_eqI)
    fix p
    have "distinct (map fst (kk_keys k))" using assms(1) by (simp add: ring_ok_def)
    from map_of_eq_Some_iff [OF this, of "fst p" "snd p"] map_of_eq_Some_iff [OF assms(4), of "fst p" "snd p"]
    show "p \<in> set (kk_keys k') \<longleftrightarrow> p \<in> set (kk_keys k)" by (simp add: assms(2))
  qed
  with assms show ?thesis by (simp add: ring_ok_def)
qed

text \<open>
  A keyring that is written to the database and read back has the same current version and the same
  key for every version, and is not taken for an external one.
\<close>

lemma keyring_reload:
  assumes "crypt_ok C" and "ring_ok k"
  shows "\<exists>k'. KEKFromKeyringJSON C (KeyringJSON C k) = Inr k' \<and> kk_current k' = kk_current k \<and>
     map_of (kk_keys k') = map_of (kk_keys k) \<and> \<not> kk_external k' \<and> ring_ok k'"
proof -
  let ?enc = "\<lambda>(v, key). (fmt_d v, std_encode key)"
  have d: "distinct (map fst (kf_Keys (ring_file k)))"
  proof -
    have "map fst (kf_Keys (ring_file k)) = map fmt_d (map fst (kk_keys k))"
      by (simp add: ring_file_def case_prod_beta comp_def)
    then show ?thesis using assms(2) by (auto simp: ring_ok_def distinct_map inj_on_def fmt_d_inj)
  qed
  have c: "0 \<le> kf_Current (ring_file k)" "kf_Current (ring_file k) \<le> max_int64"
    using assms(2) by (auto simp: ring_ok_def ring_file_def)
  have l: "list_all (\<lambda>(v, enc). is_ascii v \<and> is_ascii enc) (kf_Keys (ring_file k))"
    by (simp add: ring_file_def list_all_iff case_prod_beta ascii_fmt_d ascii_std_encode)
  have kf: "kf_Keys (ring_file k) = map ?enc (kk_keys k)" by (simp add: ring_file_def)
  from assms(1) d c l obtain ks where "ring_Unmarshal C (ring_Marshal C (ring_file k)) = Inr ((ring_file k)\<lparr>kf_Keys := ks\<rparr>)"
      "distinct (map fst ks)" "set ks = set (kf_Keys (ring_file k))"
    unfolding crypt_ok_def by meson
  note ks = this [unfolded kf]
  define ps where "ps = map (\<lambda>(s, e). (scan_version s, the (std_decode e))) ks"
  have el: "\<exists>v key. p = (fmt_d v, std_encode key) \<and> (v, key) \<in> set (kk_keys k) \<and> scan_version (fmt_d v) = v"
    if "p \<in> set ks" for p
    using that assms(2) by (fastforce simp: ks(3) ring_ok_def intro!: scan_version_fmt)
  have "map ?enc ps = ks"
    unfolding ps_def map_map comp_def using el by (intro map_idI) (fastforce simp: std_roundtrip)
  moreover have sp: "set ps = set (kk_keys k)"
  proof -
    have "(\<lambda>(s, e). (scan_version s, the (std_decode e))) (?enc p) = p" if "p \<in> set (kk_keys k)" for p
      using that assms(2) by (auto simp: ring_ok_def std_roundtrip intro!: scan_version_fmt)
    then show ?thesis by (force simp: ps_def ks(3) image_image)
  qed
  moreover have dp: "distinct (map fst ps)"
  proof -
    have "map fst ps = map scan_version (map fst ks)" by (simp add: ps_def case_prod_beta comp_def)
    moreover have "inj_on scan_version (set (map fst ks))"
    proof (rule inj_onI)
      fix x y
      assume "x \<in> set (map fst ks)" "y \<in> set (map fst ks)" and eq: "scan_version x = scan_version y"
      then obtain p q where "p \<in> set ks" "x = fst p" "q \<in> set ks" "y = fst q" by auto
      with el [of p] el [of q] eq show "x = y" by auto
    qed
    ultimately show ?thesis using ks(2) by (simp only: distinct_map)
  qed
  moreover have m: "map_of ps = map_of (kk_keys k)"
    using sp dp assms(2) by (intro map_of_eqI) (auto simp: ring_ok_def)
  moreover have "\<forall>(v, key)\<in>set ps. length key = keySize \<and> 0 \<le> v \<and> v \<le> max_int64"
    using assms(2) unfolding sp by (fastforce simp: ring_ok_def)
  ultimately obtain ks' where l: "load_keys [] ks = Inr ks'" "map_of ks' = map_of (kk_keys k)"
    using load_keys_map [of ps "[]"] by auto
  from ring_ok_current [OF assms(2)] obtain key where "map_of ks' (kk_current k) = Some key"
    unfolding l(2) by metis
  then have "ks' \<noteq> []" "map_of ks' (kf_Current (ring_file k)) \<noteq> None" by (auto simp: ring_file_def)
  moreover have "ring_ok \<lparr>kk_keys = ks', kk_current = kk_current k, kk_path = [], kk_external = False\<rparr>"
    using assms(2) l load_keys_distinct [OF l(1)] by (intro ring_ok_same [OF assms(2)]) simp_all
  ultimately show ?thesis
    by (simp add: KEKFromKeyringJSON_def KeyringJSON_def ks(1) l) (simp add: ring_file_def)
qed

section \<open>Envelopes stay readable\<close>

lemma open_with_ok:
  "open_with C key nonce ct aad e = Inr pt \<longleftrightarrow>
     gcm_key_ok key \<and> length nonce = 12 \<and> gcm_Open C key nonce ct aad = Some pt"
  by (auto simp: open_with_def split: option.splits)

lemma Decrypt_ok:
  "kek_Decrypt C k e aad = Inr v \<longleftrightarrow>
     en_Alg e = ''aes-256-gcm'' \<and>
     (\<exists>key dek. map_of (kk_keys k) (en_KeyVersion e) = Some key \<and>
        open_with C key (en_DEKNonce e) (en_WrappedDEK e) aad nonce_panic = Inr dek \<and>
        open_with C dek (en_Nonce e) (en_Ciphertext e) aad nonce_panic = Inr v)"
  by (auto simp: kek_Decrypt_def open_with_ok split: option.splits sum.splits)
     (auto simp: open_with_def split: option.splits if_splits)

lemma Encrypt_opens:
  assumes "crypt_ok C" "rand_ok w" "ring_ok k"
  shows "\<exists>e. kek_Encrypt C w k v aad = Inr e \<and> kek_Decrypt C k e aad = Inr v \<and> en_KeyVersion e = kk_current k"
proof -
  from ring_ok_current [OF assms(3)] obtain key where
    "map_of (kk_keys k) (kk_current k) = Some key" "key_of k (kk_current k) = key" "gcm_key_ok key" by metis
  with assms(1,2) show ?thesis
    by (auto simp: kek_Encrypt_def Decrypt_ok open_with_ok crypt_ok_def rand_ok_def gcm_key_ok_def keySize_def Let_def)
qed

lemma Decrypt_more_keys:
  "kek_Decrypt C k e aad = Inr v \<Longrightarrow> map_of (kk_keys k) \<subseteq>\<^sub>m map_of (kk_keys k') \<Longrightarrow> kek_Decrypt C k' e aad = Inr v"
  by (auto simp: Decrypt_ok map_le_def dom_def)

lemma Decrypt_key:
  "kek_Decrypt C k e aad = Inr v \<Longrightarrow> map_of (kk_keys k') (en_KeyVersion e) = map_of (kk_keys k) (en_KeyVersion e) \<Longrightarrow>
   kek_Decrypt C k' e aad = Inr v"
  by (simp add: Decrypt_ok)

lemma Rewrap_opens:
  assumes "crypt_ok C" "rand_ok w" "ring_ok k" "kek_Decrypt C k e aad = Inr v"
  shows "\<exists>b e'. kek_Rewrap C w k e aad = Inr (b, e') \<and> kek_Decrypt C k e' aad = Inr v \<and>
     en_KeyVersion e' = kk_current k \<and> en_Alg e' = en_Alg e \<and> (\<not> b \<longrightarrow> e' = e)"
proof (cases "en_KeyVersion e = kk_current k")
  case False
  from ring_ok_current [OF assms(3)] obtain key where
    k: "map_of (kk_keys k) (kk_current k) = Some key" "key_of k (kk_current k) = key" "gcm_key_ok key" by metis
  from assms(4) obtain old dek where
    d: "map_of (kk_keys k) (en_KeyVersion e) = Some old" "gcm_key_ok old" "length (en_DEKNonce e) = 12"
      "gcm_Open C old (en_DEKNonce e) (en_WrappedDEK e) aad = Some dek"
    by (auto simp: Decrypt_ok open_with_ok)
  have o: "open_with C old (en_DEKNonce e) (en_WrappedDEK e) aad x = Inr dek" for x
    using d by (simp add: open_with_ok)
  let ?n = "rand_bytes w 0 12"
  let ?e' = "e\<lparr>en_WrappedDEK := gcm_Seal C key ?n dek aad, en_DEKNonce := ?n, en_KeyVersion := kk_current k\<rparr>"
  have r: "kek_Rewrap C w k e aad = Inr (True, ?e')"
    using False k d(1) o by (simp add: kek_Rewrap_def Let_def)
  have "open_with C key ?n (gcm_Seal C key ?n dek aad) aad nonce_panic = Inr dek"
    using assms(1,2) k(3) by (simp add: open_with_ok crypt_ok_def rand_ok_def)
  moreover have "open_with C dek (en_Nonce e) (en_Ciphertext e) aad nonce_panic = Inr v"
    using assms(4) d(1) o by (auto simp: Decrypt_ok)
  ultimately have "kek_Decrypt C k ?e' aad = Inr v" using assms(4) k(1) by (simp add: Decrypt_ok)
  with r show ?thesis by (intro exI [of _ True] exI [of _ ?e']) simp
qed (use assms in \<open>auto simp: kek_Rewrap_def\<close>)

lemma in_updateD: "p \<in> set (AList.update u x al) \<Longrightarrow> p = (u, x) \<or> p \<in> set al"
  by (induction al) (auto split: if_splits)

text \<open>Rotation keeps every key and adds a version that was not in use.\<close>

lemma Rotate_ring:
  assumes "ring_ok k" "rand_ok w" "kek_Rotate C w k = (r, k')" "\<not> kk_external k"
  shows "map_of (kk_keys k) \<subseteq>\<^sub>m map_of (kk_keys k')" "kk_current k' = kk_current k + 1"
    "map_of (kk_keys k) (kk_current k') = None"
    "kk_current k + 1 < max_int64 \<Longrightarrow> ring_ok k'" "kk_external k' = kk_external k"
proof -
  from assms(1) have c: "0 \<le> kk_current k" "kk_current k < max_int64" by (auto simp: ring_ok_def)
  then have w: "wrap64 (kk_current k + 1) = kk_current k + 1" by (intro wrap64_id) (simp_all add: max_int64_def)
  have k': "k' = k\<lparr>kk_keys := AList.update (kk_current k + 1) (rand_bytes w 0 keySize) (kk_keys k),
      kk_current := kk_current k + 1\<rparr>"
    using assms(3,4) by (simp add: kek_Rotate_def w Let_def)
  show n: "map_of (kk_keys k) (kk_current k') = None"
    using assms(1) by (fastforce simp: k' ring_ok_def map_of_eq_None_iff)
  then show "map_of (kk_keys k) \<subseteq>\<^sub>m map_of (kk_keys k')"
    by (auto simp: k' map_le_def update_conv' dom_def)
  show "kk_current k' = kk_current k + 1" "kk_external k' = kk_external k" by (simp_all add: k')
  assume lt: "kk_current k + 1 < max_int64"
  then show "ring_ok k'"
    using assms(1,2) lt c
    by (auto simp: ring_ok_def k' distinct_update rand_ok_def dom_update dest!: in_updateD)
qed

lemma Retire_ring:
  assumes "ring_ok k" "RetireVersion C k v = (r, k')"
  shows "ring_ok k'" "kk_current k' = kk_current k" "u \<noteq> v \<or> u = kk_current k \<Longrightarrow> map_of (kk_keys k') u = map_of (kk_keys k) u"
    "kk_external k' = kk_external k"
proof -
  have "v = kk_current k \<and> k' = k \<or> v \<noteq> kk_current k \<and> k' = k\<lparr>kk_keys := AList.delete v (kk_keys k)\<rparr>"
    using assms(2) by (auto simp: RetireVersion_def Let_def split: if_splits)
  note cases = this
  then show "ring_ok k'" "kk_current k' = kk_current k" "kk_external k' = kk_external k"
    using assms(1) distinct_delete [of "kk_keys k" v]
    by (auto simp: ring_ok_def AList.delete_eq image_iff)
  show "u \<noteq> v \<or> u = kk_current k \<Longrightarrow> map_of (kk_keys k') u = map_of (kk_keys k) u"
    using cases by (auto simp: delete_conv')
qed

section \<open>A concrete instance of the parameters\<close>

text \<open>Fields in base64 with bars between them, and a transparent cipher with an authenticated prefix.\<close>

lemma split_join:
  "xs \<noteq> [] \<Longrightarrow> \<forall>x\<in>set xs. c \<notin> set x \<Longrightarrow> split_on c (join [c] xs) = xs"
proof (induction "[c]" xs rule: join.induct)
  case (3 x y xs)
  then show ?case using split_on_sep [of c x "join [c] (y # xs)"] by (simp add: split_on_free)
qed (simp_all add: split_on_free)

abbreviation b64 :: "string \<Rightarrow> string" where
  "b64 s \<equiv> b64_encode b64_std s"

abbreviation unb64 :: "string \<Rightarrow> string" where
  "unb64 s \<equiv> the (b64_decode b64_std s)"

lemma unb64_b64: "unb64 (b64 s) = s"
  by (simp add: b64_roundtrip b64_alphabets)

lemma b64_no_bar: "CHR ''|'' \<notin> set (b64 s)"
proof -
  have "set (b64 s) \<subseteq> set b64_std" by (rule set_b64_encode) (simp add: b64_alphabets)
  moreover have "CHR ''|'' \<notin> set b64_std" by (simp add: b64_std_def)
  ultimately show ?thesis by blast
qed

lemma fmt_d_no_bar: "CHR ''|'' \<notin> set (fmt_d v)"
  using set_dec [of "CHR ''|''"] by (auto simp: fmt_d_def is_digit_def byte_def)

fun pairs :: "string list \<Rightarrow> (string \<times> string) list" where
  "pairs (a # b # r) = (unb64 a, unb64 b) # pairs r"
| "pairs _ = []"

definition sample_crypt :: crypt where
  "sample_crypt =
     \<lparr>gcm_Seal = (\<lambda>key nonce pt aad. key @ nonce @ b64 aad @ ''|'' @ pt),
      gcm_Open = (\<lambda>key nonce ct aad. let pre = key @ nonce @ b64 aad @ ''|''
                   in if prefix pre ct then Some (drop (length pre) ct) else None),
      env_Marshal = (\<lambda>e. join ''|'' [b64 (en_Alg e), fmt_d (en_KeyVersion e), b64 (en_WrappedDEK e),
                   b64 (en_DEKNonce e), b64 (en_Nonce e), b64 (en_Ciphertext e)]),
      env_Unmarshal = (\<lambda>s. let p = split_on CHR ''|'' s
                   in if length p \<noteq> 6 then Inl (SysError ''bad envelope'')
                      else Inr \<lparr>en_Alg = unb64 (p ! 0), en_KeyVersion = fst (Atoi (p ! 1)),
                             en_WrappedDEK = unb64 (p ! 2), en_DEKNonce = unb64 (p ! 3),
                             en_Nonce = unb64 (p ! 4), en_Ciphertext = unb64 (p ! 5)\<rparr>),
      ring_Marshal = (\<lambda>kf. join ''|'' (fmt_d (kf_Current kf) #
                   concat (map (\<lambda>(v, enc). [b64 v, b64 enc]) (kf_Keys kf)))),
      ring_Unmarshal = (\<lambda>s. let p = split_on CHR ''|'' s
                   in Inr \<lparr>kf_Current = fst (Atoi (hd p)), kf_Keys = pairs (tl p)\<rparr>),
      go_Quote = id, write_ring = (\<lambda>_ _. None)\<rparr>"

lemma pairs_concat: "pairs (concat (map (\<lambda>(v, enc). [b64 v, b64 enc]) ps)) = ps"
  by (induction ps) (auto simp: unb64_b64)

lemma sample_crypt_ok: "crypt_ok sample_crypt"
  unfolding crypt_ok_def
proof (intro conjI allI impI)
  fix key nonce pt aad :: string
  show "gcm_Open sample_crypt key nonce (gcm_Seal sample_crypt key nonce pt aad) aad = Some pt"
    by (simp add: sample_crypt_def Let_def)
next
  fix e :: CryptoEnvelope
  assume e: "is_ascii (en_Alg e) \<and> 0 \<le> en_KeyVersion e \<and> en_KeyVersion e \<le> max_int64"
  let ?fs = "[b64 (en_Alg e), fmt_d (en_KeyVersion e), b64 (en_WrappedDEK e), b64 (en_DEKNonce e),
    b64 (en_Nonce e), b64 (en_Ciphertext e)]"
  have "split_on CHR ''|'' (join ''|'' ?fs) = ?fs"
    by (intro split_join) (auto simp: b64_no_bar fmt_d_no_bar)
  then show "env_Unmarshal sample_crypt (env_Marshal sample_crypt e) = Inr e"
    using e Atoi_fmt_d [of "en_KeyVersion e"] unfolding sample_crypt_def
    by (simp add: Let_def unb64_b64 max_int64_def del: join.simps)
  show "env_Marshal sample_crypt e \<noteq> []" by (simp add: sample_crypt_def)
next
  fix kf :: keyringFile
  assume k: "distinct (map fst (kf_Keys kf)) \<and> 0 \<le> kf_Current kf \<and> kf_Current kf \<le> max_int64 \<and>
    list_all (\<lambda>(v, enc). is_ascii v \<and> is_ascii enc) (kf_Keys kf)"
  let ?fs = "fmt_d (kf_Current kf) # concat (map (\<lambda>(v, enc). [b64 v, b64 enc]) (kf_Keys kf))"
  have "split_on CHR ''|'' (join ''|'' ?fs) = ?fs"
    by (intro split_join) (auto simp: b64_no_bar fmt_d_no_bar)
  then have "ring_Unmarshal sample_crypt (ring_Marshal sample_crypt kf) = Inr kf"
    using k Atoi_fmt_d [of "kf_Current kf"] unfolding sample_crypt_def
    by (simp add: Let_def pairs_concat max_int64_def del: join.simps)
  with k show "\<exists>ks. ring_Unmarshal sample_crypt (ring_Marshal sample_crypt kf) = Inr (kf\<lparr>kf_Keys := ks\<rparr>) \<and>
      distinct (map fst ks) \<and> set ks = set (kf_Keys kf)"
    by (intro exI [of _ "kf_Keys kf"]) simp
qed

lemma sample_rand_ok: "rand_ok sample_io"
  by (simp add: rand_ok_def sample_io_def)

definition sample_kek :: KEK where
  "sample_kek = \<lparr>kk_keys = [(1, replicate 32 CHR ''k'')], kk_current = 1, kk_path = [], kk_external = False\<rparr>"

lemma sample_ring_ok: "ring_ok sample_kek"
  by (simp add: ring_ok_def sample_kek_def keySize_def max_int64_def)

end
