(* ===== verification/Secret_Store.thy ===== *)
theory Secret_Store
  imports Key_Ring Object_Store
begin

text \<open>
  The secret store over the database (\<open>src/internal/adapters/secretstore/db.go\<close>), the table of sealed
  secrets, the object store with encryption at rest (\<open>objectstore/encrypted.go\<close>), and the command
  that rotates the key (\<open>keysCmd\<close> of \<open>src/cmd/postra/main.go\<close>).  The abstract secret store is a map
  from references to values; the theorem of refinement says that sealing, rewrapping and rotating
  keys implement it.
\<close>

section \<open>The table of sealed secrets\<close>

record StoredSecret =
  sc_Ref :: string
  sc_Owner :: string
  sc_Type :: string
  sc_Label :: string
  sc_Envelope :: string
  sc_Version :: int
  sc_Revoked :: bool

text \<open>The owner and the type of a row never change.\<close>

definition db_PutSecretEnvelope :: "StoredSecret list \<Rightarrow> StoredSecret \<Rightarrow> StoredSecret list" where
  "db_PutSecretEnvelope s sec =
     (if no_row (\<lambda>r. sc_Ref r = sc_Ref sec) s then s @ [sec\<lparr>sc_Revoked := False\<rparr>]
      else upd_where (\<lambda>r. sc_Ref r = sc_Ref sec)
             (\<lambda>r. r\<lparr>sc_Envelope := sc_Envelope sec, sc_Version := sc_Version sec, sc_Label := sc_Label sec,
                    sc_Revoked := False\<rparr>) s)"

definition db_GetSecretEnvelope :: "StoredSecret list \<Rightarrow> string \<Rightarrow> err + StoredSecret" where
  "db_GetSecretEnvelope s ref =
     (case find (\<lambda>r. sc_Ref r = ref) s of None \<Rightarrow> Inl ErrNotFound | Some r \<Rightarrow> Inr r)"

definition db_MarkSecretEnvelopeRevoked :: "StoredSecret list \<Rightarrow> string \<Rightarrow> StoredSecret list" where
  "db_MarkSecretEnvelopeRevoked s ref =
     upd_where (\<lambda>r. sc_Ref r = ref) (\<lambda>r. r\<lparr>sc_Revoked := True, sc_Envelope := []\<rparr>) s"

definition db_ListSecretEnvelopes :: "StoredSecret list \<Rightarrow> StoredSecret list" where
  "db_ListSecretEnvelopes s = filter (\<lambda>r. \<not> sc_Revoked r) s"

section \<open>The store\<close>

definition secret_aad :: "string \<Rightarrow> string \<Rightarrow> string \<Rightarrow> string" where
  "secret_aad ref owner t = ''postra:'' @ owner @ '':'' @ t @ '':'' @ ref"

definition new_ref :: "io \<Rightarrow> string" where
  "new_ref w = ''sec_'' @ hex (rand_bytes w 3 8)"

definition secret_Put ::
  "crypt \<Rightarrow> io \<Rightarrow> KEK \<Rightarrow> StoredSecret list \<Rightarrow> string \<Rightarrow> string \<Rightarrow> string \<Rightarrow> string
     \<Rightarrow> (err + string) \<times> StoredSecret list" where
  "secret_Put C w k s owner t label v =
     (let ref = new_ref w
      in case kek_Encrypt C w k v (secret_aad ref owner t) of
           Inl e \<Rightarrow> (Inl e, s)
         | Inr env \<Rightarrow>
             (Inr ref, db_PutSecretEnvelope s \<lparr>sc_Ref = ref, sc_Owner = owner, sc_Type = t, sc_Label = label,
                         sc_Envelope = env_Marshal C env, sc_Version = 1, sc_Revoked = False\<rparr>))"

definition unavailable :: "string \<Rightarrow> err" where
  "unavailable ref =
     SysError (''secret '' @ ref @ '' not available in secret store (re-enter password to update)'')"

definition secret_Acquire :: "crypt \<Rightarrow> KEK \<Rightarrow> StoredSecret list \<Rightarrow> string \<Rightarrow> err + string" where
  "secret_Acquire C k s ref =
     (case db_GetSecretEnvelope s ref of
        Inl e \<Rightarrow> Inl (unavailable ref)
      | Inr sec \<Rightarrow>
          if sc_Revoked sec \<or> sc_Envelope sec = [] then Inl (unavailable ref)
          else case env_Unmarshal C (sc_Envelope sec) of
                 Inl e \<Rightarrow> Inl (SysError (''secret '' @ ref @
                            '' envelope corrupt (re-enter password to update): '' @ err_text e))
               | Inr env \<Rightarrow>
                   (case kek_Decrypt C k env (secret_aad ref (sc_Owner sec) (sc_Type sec)) of
                      Inl e \<Rightarrow> Inl (SysError (''secret '' @ ref @ '' decryption failed (KEK/keyring changed; '' @
                                 ''set a stable POSTRA_KEK or re-enter password): '' @ err_text e))
                    | Inr pt \<Rightarrow> Inr pt))"

text \<open>A reference without a row gets one, for the owner \<open>local\<close>.\<close>

definition secret_Rotate ::
  "crypt \<Rightarrow> io \<Rightarrow> KEK \<Rightarrow> StoredSecret list \<Rightarrow> string \<Rightarrow> string \<Rightarrow> err option \<times> StoredSecret list" where
  "secret_Rotate C w k s ref v =
     (let sec = (case db_GetSecretEnvelope s ref of
                   Inr r \<Rightarrow> r
                 | Inl e \<Rightarrow> \<lparr>sc_Ref = ref, sc_Owner = ''local'', sc_Type = ''mail_password'',
                             sc_Label = ''Mail Password'', sc_Envelope = [], sc_Version = 0, sc_Revoked = False\<rparr>)
      in case kek_Encrypt C w k v (secret_aad ref (sc_Owner sec) (sc_Type sec)) of
           Inl e \<Rightarrow> (Some e, s)
         | Inr env \<Rightarrow>
             (None, db_PutSecretEnvelope s (sec\<lparr>sc_Envelope := env_Marshal C env,
                      sc_Version := sc_Version sec + 1, sc_Revoked := False\<rparr>)))"

definition secret_Revoke :: "StoredSecret list \<Rightarrow> string \<Rightarrow> StoredSecret list" where
  "secret_Revoke s ref = db_MarkSecretEnvelopeRevoked s ref"

text \<open>
  \<open>RewrapAll\<close> walks over the list it read first and writes the rows one by one; the \<open>i\<close>-th row is
  rewrapped with the random bytes of \<open>ws i\<close>.  The first failure ends it, keeping what was written.
\<close>

definition rewrap_row :: "crypt \<Rightarrow> io \<Rightarrow> KEK \<Rightarrow> StoredSecret \<Rightarrow> err + StoredSecret option" where
  "rewrap_row C w k sec =
     (if sc_Envelope sec = [] then Inr None
      else case env_Unmarshal C (sc_Envelope sec) of
             Inl e \<Rightarrow> Inl (SysError (''rewrap secret '' @ sc_Ref sec @ '': '' @ err_text e))
           | Inr env \<Rightarrow>
               (case kek_Rewrap C w k env (secret_aad (sc_Ref sec) (sc_Owner sec) (sc_Type sec)) of
                  Inl e \<Rightarrow> Inl (SysError (''rewrap secret '' @ sc_Ref sec @ '': '' @ err_text e))
                | Inr (changed, env') \<Rightarrow>
                    Inr (if changed then Some (sec\<lparr>sc_Envelope := env_Marshal C env'\<rparr>) else None)))"

fun rewrap_loop ::
  "crypt \<Rightarrow> (nat \<Rightarrow> io) \<Rightarrow> KEK \<Rightarrow> int \<Rightarrow> StoredSecret list \<Rightarrow> StoredSecret list
     \<Rightarrow> int \<times> err option \<times> StoredSecret list" where
  "rewrap_loop C ws k n s [] = (n, None, s)"
| "rewrap_loop C ws k n s (sec # secs) =
     (case rewrap_row C (ws (length secs)) k sec of
        Inl e \<Rightarrow> (n, Some e, s)
      | Inr None \<Rightarrow> rewrap_loop C ws k n s secs
      | Inr (Some sec') \<Rightarrow> rewrap_loop C ws k (n + 1) (db_PutSecretEnvelope s sec') secs)"

definition secret_RewrapAll ::
  "crypt \<Rightarrow> (nat \<Rightarrow> io) \<Rightarrow> KEK \<Rightarrow> StoredSecret list \<Rightarrow> int \<times> err option \<times> StoredSecret list" where
  "secret_RewrapAll C ws k s = rewrap_loop C ws k 0 s (db_ListSecretEnvelopes s)"

section \<open>Objects encrypted at rest\<close>

definition objectAAD :: "string \<Rightarrow> string \<Rightarrow> string" where
  "objectAAD kind plaintextHash = ''postra-object:'' @ kind @ '':'' @ plaintextHash"

definition enc_Put ::
  "lib \<Rightarrow> crypt \<Rightarrow> io \<Rightarrow> KEK \<Rightarrow> objs \<Rightarrow> string \<Rightarrow> string \<Rightarrow> err + (string \<times> string \<times> int \<times> objs)" where
  "enc_Put L C w k m kind data =
     (if int (length data) > maxObjectBytes
      then Inl (SysError (''object exceeds '' @ fmt_d maxObjectBytes @ '' bytes''))
      else (let name = hex (sha256 L data)
            in case kek_Encrypt C w k data (objectAAD kind name) of
                 Inl e \<Rightarrow> Inl e
               | Inr env \<Rightarrow> Inr (uri kind name, name, int (length data),
                                 db_PutObject m kind name (env_Marshal C env))))"

definition enc_Get :: "crypt \<Rightarrow> KEK \<Rightarrow> objs \<Rightarrow> string \<Rightarrow> err + string" where
  "enc_Get C k m u =
     (case parseURI u of
        Inl e \<Rightarrow> Inl e
      | Inr (kind, name) \<Rightarrow>
          (case obj_Get m u of
             Inl e \<Rightarrow> Inl e
           | Inr blob \<Rightarrow>
               (case env_Unmarshal C blob of
                  Inl e \<Rightarrow> Inl (SysError (''object '' @ u @ '' is not an envelope: '' @ err_text e))
                | Inr env \<Rightarrow>
                    (case kek_Decrypt C k env (objectAAD kind name) of
                       Inl e \<Rightarrow> Inl (SysError (''object '' @ u @ '' decrypt failed: '' @ err_text e))
                     | Inr pt \<Rightarrow> Inr pt))))"

section \<open>What can be acquired\<close>

definition opened :: "crypt \<Rightarrow> KEK \<Rightarrow> StoredSecret \<Rightarrow> string option" where
  "opened C k r =
     (if sc_Revoked r \<or> sc_Envelope r = [] then None
      else case env_Unmarshal C (sc_Envelope r) of
             Inl e \<Rightarrow> None
           | Inr env \<Rightarrow> (case kek_Decrypt C k env (secret_aad (sc_Ref r) (sc_Owner r) (sc_Type r)) of
                           Inl e \<Rightarrow> None | Inr v \<Rightarrow> Some v))"

text \<open>The abstraction: the map from references to the values that \<open>Acquire\<close> hands out.\<close>

definition acquired :: "crypt \<Rightarrow> KEK \<Rightarrow> StoredSecret list \<Rightarrow> string \<rightharpoonup> string" where
  "acquired C k s ref = (case secret_Acquire C k s ref of Inl e \<Rightarrow> None | Inr v \<Rightarrow> Some v)"

definition vault_ok :: "crypt \<Rightarrow> KEK \<Rightarrow> StoredSecret list \<Rightarrow> bool" where
  "vault_ok C k s \<longleftrightarrow>
     crypt_ok C \<and> ring_ok k \<and> distinct (map sc_Ref s) \<and>
     (\<forall>r\<in>set s. \<not> sc_Revoked r \<longrightarrow> opened C k r \<noteq> None)"

lemma acquired_find:
  "acquired C k s ref = (case find (\<lambda>r. sc_Ref r = ref) s of None \<Rightarrow> None | Some r \<Rightarrow> opened C k r)"
proof (cases "find (\<lambda>r. sc_Ref r = ref) s")
  case (Some r)
  with find_SomeD [OF this] show ?thesis
    by (simp add: acquired_def secret_Acquire_def db_GetSecretEnvelope_def opened_def split: sum.split)
qed (simp add: acquired_def secret_Acquire_def db_GetSecretEnvelope_def)

lemma opened_cong:
  "sc_Ref r = sc_Ref r' \<Longrightarrow> sc_Owner r = sc_Owner r' \<Longrightarrow> sc_Type r = sc_Type r' \<Longrightarrow>
   sc_Envelope r = sc_Envelope r' \<Longrightarrow> sc_Revoked r = sc_Revoked r' \<Longrightarrow> opened C k r = opened C k r'"
  by (simp add: opened_def cong: sum.case_cong)

lemma find_Put:
  "find (\<lambda>r. sc_Ref r = ref) (db_PutSecretEnvelope s sec) =
     (if ref = sc_Ref sec
      then Some (case find (\<lambda>r. sc_Ref r = ref) s of
                   None \<Rightarrow> sec\<lparr>sc_Revoked := False\<rparr>
                 | Some r \<Rightarrow> r\<lparr>sc_Envelope := sc_Envelope sec, sc_Version := sc_Version sec,
                               sc_Label := sc_Label sec, sc_Revoked := False\<rparr>)
      else find (\<lambda>r. sc_Ref r = ref) s)"
proof (cases "no_row (\<lambda>r. sc_Ref r = sc_Ref sec) s")
  case True
  then have "find (\<lambda>r. sc_Ref r = sc_Ref sec) s = None" by (simp only: find_None_no_row)
  with True show ?thesis
    by (cases "ref = sc_Ref sec") (simp_all add: db_PutSecretEnvelope_def find_append split: option.split)
next
  case False
  let ?f = "\<lambda>r. r\<lparr>sc_Envelope := sc_Envelope sec, sc_Version := sc_Version sec, sc_Label := sc_Label sec,
      sc_Revoked := False\<rparr>"
  show ?thesis
  proof (cases "ref = sc_Ref sec")
    case True
    then have "find (\<lambda>r. sc_Ref r = ref) s \<noteq> None" using False by (simp add: find_None_no_row)
    then obtain r where r: "find (\<lambda>r. sc_Ref r = ref) s = Some r" by blast
    have "find (\<lambda>r. sc_Ref r = ref) (upd_where (\<lambda>r. sc_Ref r = sc_Ref sec) ?f s) = Some (?f r)"
      using find_upd_where_same [of "\<lambda>r. sc_Ref r = sc_Ref sec" "\<lambda>r. sc_Ref r = ref" ?f s] r find_SomeD [OF r] True
      by simp
    with r True False show ?thesis by (simp add: db_PutSecretEnvelope_def)
  next
    case neq: False
    have "find (\<lambda>r. sc_Ref r = ref) (upd_where (\<lambda>r. sc_Ref r = sc_Ref sec) ?f s) = find (\<lambda>r. sc_Ref r = ref) s"
      using neq by (intro find_upd_where_other) auto
    with neq False show ?thesis by (simp add: db_PutSecretEnvelope_def)
  qed
qed

lemma set_Put:
  "r \<in> set (db_PutSecretEnvelope s sec) \<Longrightarrow>
     sc_Ref r = sc_Ref sec \<or> r \<in> set s"
  by (auto simp: db_PutSecretEnvelope_def set_upd_where split: if_splits)

lemma refs_Put: "distinct (map sc_Ref s) \<Longrightarrow> distinct (map sc_Ref (db_PutSecretEnvelope s sec))"
  by (auto simp: db_PutSecretEnvelope_def no_row_iff map_upd_where_same)

text \<open>Writing a row that can be opened makes the map hold its value and leaves the rest alone.\<close>

lemma Put_acquired:
  assumes ok: "vault_ok C k s" and v: "opened C k (sec\<lparr>sc_Revoked := False\<rparr>) = Some v"
    and same: "\<forall>r\<in>set s. sc_Ref r = sc_Ref sec \<longrightarrow> sc_Owner r = sc_Owner sec \<and> sc_Type r = sc_Type sec"
  shows "acquired C k (db_PutSecretEnvelope s sec) = (acquired C k s)(sc_Ref sec \<mapsto> v)"
    and "vault_ok C k (db_PutSecretEnvelope s sec)"
proof -
  let ?s' = "db_PutSecretEnvelope s sec"
  show a: "acquired C k ?s' = (acquired C k s)(sc_Ref sec \<mapsto> v)"
  proof
    fix ref
    show "acquired C k ?s' ref = ((acquired C k s)(sc_Ref sec \<mapsto> v)) ref"
    proof (cases "ref = sc_Ref sec")
      case True
      show ?thesis
      proof (cases "find (\<lambda>r. sc_Ref r = ref) s")
        case None
        then show ?thesis using True v by (simp add: acquired_find find_Put)
      next
        case (Some r)
        with find_SomeD [OF this] same True v
          opened_cong [of "r\<lparr>sc_Envelope := sc_Envelope sec, sc_Version := sc_Version sec, sc_Label := sc_Label sec,
            sc_Revoked := False\<rparr>" "sec\<lparr>sc_Revoked := False\<rparr>" C k]
        show ?thesis by (simp add: acquired_find find_Put)
      qed
    qed (simp add: acquired_find find_Put)
  qed
  have d: "distinct (map sc_Ref ?s')" using ok by (simp add: vault_ok_def refs_Put)
  have "opened C k r \<noteq> None" if r: "r \<in> set ?s'" "\<not> sc_Revoked r" for r
  proof (cases "sc_Ref r = sc_Ref sec")
    case True
    from find_unique_key [OF d r(1)] have "acquired C k ?s' (sc_Ref r) = opened C k r"
      by (simp add: acquired_find)
    with a True have "opened C k r = Some v" by (metis fun_upd_same)
    then show ?thesis by simp
  next
    case False
    with set_Put [OF r(1)] have "r \<in> set s" by blast
    with ok r(2) show ?thesis by (simp add: vault_ok_def)
  qed
  with ok d show "vault_ok C k ?s'" by (simp add: vault_ok_def)
qed

lemma env_json:
  assumes "crypt_ok C" "en_Alg e = ''aes-256-gcm''" "0 \<le> en_KeyVersion e" "en_KeyVersion e \<le> max_int64"
  shows "env_Unmarshal C (env_Marshal C e) = Inr e" "env_Marshal C e \<noteq> []"
proof -
  have "is_ascii (en_Alg e)" by (simp add: assms(2) is_ascii_def byte_def)
  with assms(1,3,4) show "env_Unmarshal C (env_Marshal C e) = Inr e" "env_Marshal C e \<noteq> []"
    unfolding crypt_ok_def by blast+
qed

text \<open>A freshly sealed row opens to the value.\<close>

lemma sealed_opens:
  assumes "crypt_ok C" "rand_ok w" "ring_ok k"
  shows "\<exists>env. kek_Encrypt C w k v (secret_aad ref owner t) = Inr env \<and>
     (\<forall>sec. sc_Ref sec = ref \<longrightarrow> sc_Owner sec = owner \<longrightarrow> sc_Type sec = t \<longrightarrow>
        opened C k (sec\<lparr>sc_Envelope := env_Marshal C env, sc_Revoked := False\<rparr>) = Some v)"
proof -
  from Encrypt_opens [OF assms] obtain env where
    env: "kek_Encrypt C w k v (secret_aad ref owner t) = Inr env" "kek_Decrypt C k env (secret_aad ref owner t) = Inr v"
      "en_KeyVersion env = kk_current k" by metis
  from env(2) have "en_Alg env = ''aes-256-gcm''" by (simp add: Decrypt_ok)
  moreover have "0 \<le> kk_current k" "kk_current k \<le> max_int64" using assms(3) by (auto simp: ring_ok_def)
  ultimately have "env_Unmarshal C (env_Marshal C env) = Inr env" "env_Marshal C env \<noteq> []"
    using env_json [OF assms(1)] env(3) by simp_all
  with env show ?thesis by (intro exI [of _ env]) (auto simp: opened_def)
qed

lemma secret_Put_acquired:
  assumes "vault_ok C k s" "rand_ok w" "no_row (\<lambda>r. sc_Ref r = new_ref w) s"
  shows "\<exists>s'. secret_Put C w k s owner t label v = (Inr (new_ref w), s') \<and>
     acquired C k s' = (acquired C k s)(new_ref w \<mapsto> v) \<and> vault_ok C k s'"
proof -
  from assms(1) sealed_opens [OF _ assms(2), of C k v "new_ref w" owner t] obtain env where
    e: "kek_Encrypt C w k v (secret_aad (new_ref w) owner t) = Inr env"
      "\<forall>sec. sc_Ref sec = new_ref w \<longrightarrow> sc_Owner sec = owner \<longrightarrow> sc_Type sec = t \<longrightarrow>
        opened C k (sec\<lparr>sc_Envelope := env_Marshal C env, sc_Revoked := False\<rparr>) = Some v"
    by (auto simp: vault_ok_def)
  let ?sec = "\<lparr>sc_Ref = new_ref w, sc_Owner = owner, sc_Type = t, sc_Label = label,
    sc_Envelope = env_Marshal C env, sc_Version = 1, sc_Revoked = False\<rparr>"
  have "opened C k (?sec\<lparr>sc_Revoked := False\<rparr>) = Some v" using e(2) [rule_format, of ?sec] by simp
  from Put_acquired [OF assms(1) this] assms(3) e(1) show ?thesis
    by (auto simp: secret_Put_def Let_def no_row_iff)
qed

lemma secret_Rotate_acquired:
  assumes "vault_ok C k s" "rand_ok w"
  shows "\<exists>s'. secret_Rotate C w k s ref v = (None, s') \<and>
     acquired C k s' = (acquired C k s)(ref \<mapsto> v) \<and> vault_ok C k s'"
proof -
  define sec where "sec = (case db_GetSecretEnvelope s ref of
      Inr r \<Rightarrow> r | Inl e \<Rightarrow> \<lparr>sc_Ref = ref, sc_Owner = ''local'', sc_Type = ''mail_password'',
        sc_Label = ''Mail Password'', sc_Envelope = [], sc_Version = 0, sc_Revoked = False\<rparr>)"
  have same: "sc_Ref sec = ref \<and> (\<forall>r\<in>set s. sc_Ref r = ref \<longrightarrow> sc_Owner r = sc_Owner sec \<and> sc_Type r = sc_Type sec)"
  proof (cases "find (\<lambda>r. sc_Ref r = ref) s")
    case None
    then have "no_row (\<lambda>r. sc_Ref r = ref) s" by (simp add: find_None_no_row)
    with None show ?thesis by (simp add: sec_def db_GetSecretEnvelope_def no_row_iff)
  next
    case (Some r)
    with find_SomeD [OF this] assms(1) unique_key_eq [of sc_Ref s r] show ?thesis
      by (auto simp: sec_def db_GetSecretEnvelope_def vault_ok_def)
  qed
  from assms(1) sealed_opens [OF _ assms(2), of C k v "sc_Ref sec" "sc_Owner sec" "sc_Type sec"] obtain env where
    e: "kek_Encrypt C w k v (secret_aad (sc_Ref sec) (sc_Owner sec) (sc_Type sec)) = Inr env"
      "\<forall>x. sc_Ref x = sc_Ref sec \<longrightarrow> sc_Owner x = sc_Owner sec \<longrightarrow> sc_Type x = sc_Type sec \<longrightarrow>
        opened C k (x\<lparr>sc_Envelope := env_Marshal C env, sc_Revoked := False\<rparr>) = Some v"
    by (auto simp: vault_ok_def)
  let ?sec = "sec\<lparr>sc_Envelope := env_Marshal C env, sc_Version := sc_Version sec + 1, sc_Revoked := False\<rparr>"
  have "opened C k (?sec\<lparr>sc_Revoked := False\<rparr>) = Some v"
    by (rule trans [OF opened_cong e(2) [rule_format, of ?sec]]) simp_all
  from Put_acquired [OF assms(1) this] same e(1) show ?thesis
    by (auto simp: secret_Rotate_def sec_def [symmetric] Let_def)
qed

lemma secret_Revoke_acquired:
  assumes "vault_ok C k s"
  shows "acquired C k (secret_Revoke s ref) = (acquired C k s)(ref := None)"
    and "vault_ok C k (secret_Revoke s ref)"
proof -
  let ?f = "\<lambda>r. r\<lparr>sc_Revoked := True, sc_Envelope := []\<rparr>"
  show "acquired C k (secret_Revoke s ref) = (acquired C k s)(ref := None)"
  proof
    fix ref'
    have "find (\<lambda>r. sc_Ref r = ref') (secret_Revoke s ref) =
        map_option (\<lambda>r. if sc_Ref r = ref then ?f r else r) (find (\<lambda>r. sc_Ref r = ref') s)"
      unfolding secret_Revoke_def db_MarkSecretEnvelopeRevoked_def by (rule find_upd_where_same) simp
    note f = this
    show "acquired C k (secret_Revoke s ref) ref' = ((acquired C k s)(ref := None)) ref'"
    proof (cases "find (\<lambda>r. sc_Ref r = ref') s")
      case (Some r)
      with find_SomeD [OF this] show ?thesis
        unfolding acquired_find f by (simp add: opened_def acquired_find)
    qed (simp add: acquired_find f)
  qed
  have "\<forall>r\<in>set (secret_Revoke s ref). sc_Revoked r \<or> r \<in> set s"
    by (auto simp: secret_Revoke_def db_MarkSecretEnvelopeRevoked_def set_upd_where)
  moreover have "map sc_Ref (secret_Revoke s ref) = map sc_Ref s"
    by (simp add: secret_Revoke_def db_MarkSecretEnvelopeRevoked_def map_upd_where_same)
  ultimately show "vault_ok C k (secret_Revoke s ref)"
    using assms unfolding vault_ok_def by metis
qed

section \<open>Rewrapping and rotating keys\<close>

lemma opened_other_ring:
  assumes "opened C k r = Some v"
    and "\<And>e. env_Unmarshal C (sc_Envelope r) = Inr e \<Longrightarrow>
      map_of (kk_keys k') (en_KeyVersion e) = map_of (kk_keys k) (en_KeyVersion e)"
  shows "opened C k' r = Some v"
proof -
  from assms(1) obtain e where e: "\<not> sc_Revoked r" "sc_Envelope r \<noteq> []" "env_Unmarshal C (sc_Envelope r) = Inr e"
      "kek_Decrypt C k e (secret_aad (sc_Ref r) (sc_Owner r) (sc_Type r)) = Inr v"
    by (auto simp: opened_def split: if_splits sum.splits)
  with Decrypt_key [OF e(4) assms(2) [OF e(3)]] show ?thesis by (simp add: opened_def)
qed

text \<open>Changing the keyring without touching the versions in use changes nothing that is stored.\<close>

lemma ring_change:
  assumes ok: "vault_ok C k s" and r': "ring_ok k'"
    and same: "\<And>r e. r \<in> set s \<Longrightarrow> \<not> sc_Revoked r \<Longrightarrow> env_Unmarshal C (sc_Envelope r) = Inr e \<Longrightarrow>
      map_of (kk_keys k) (en_KeyVersion e) \<noteq> None \<Longrightarrow>
      map_of (kk_keys k') (en_KeyVersion e) = map_of (kk_keys k) (en_KeyVersion e)"
  shows "vault_ok C k' s" "acquired C k' s = acquired C k s"
proof -
  have o: "opened C k' r = opened C k r" if r: "r \<in> set s" for r
  proof (cases "sc_Revoked r")
    case False
    with ok r obtain v where v: "opened C k r = Some v" by (auto simp: vault_ok_def)
    then obtain e where "env_Unmarshal C (sc_Envelope r) = Inr e" "map_of (kk_keys k) (en_KeyVersion e) \<noteq> None"
      by (auto simp: opened_def Decrypt_ok split: if_splits sum.splits)
    with opened_other_ring [OF v] same [OF r False] have "opened C k' r = Some v" by auto
    with v show ?thesis by simp
  qed (simp add: opened_def)
  show "vault_ok C k' s" using ok r' o by (simp add: vault_ok_def)
  show "acquired C k' s = acquired C k s"
    using o find_SomeD by (fastforce simp: acquired_find fun_eq_iff split: option.split)
qed

text \<open>A row that can be opened is rewrapped to one that opens to the same value.\<close>

lemma rewrap_row_opens:
  assumes "crypt_ok C" "rand_ok w" "ring_ok k" "opened C k r = Some v"
  shows "\<exists>o'. rewrap_row C w k r = Inr o' \<and>
     (case o' of
        None \<Rightarrow> \<exists>e. env_Unmarshal C (sc_Envelope r) = Inr e \<and> en_KeyVersion e = kk_current k
      | Some r' \<Rightarrow> r' = r\<lparr>sc_Envelope := sc_Envelope r'\<rparr> \<and> opened C k r' = Some v \<and>
          (\<exists>e. env_Unmarshal C (sc_Envelope r') = Inr e \<and> en_KeyVersion e = kk_current k))"
proof -
  let ?aad = "secret_aad (sc_Ref r) (sc_Owner r) (sc_Type r)"
  from assms(4) obtain e where e: "\<not> sc_Revoked r" "sc_Envelope r \<noteq> []" "env_Unmarshal C (sc_Envelope r) = Inr e"
      "kek_Decrypt C k e ?aad = Inr v"
    by (auto simp: opened_def split: if_splits sum.splits)
  from Rewrap_opens [OF assms(1-3) e(4)] obtain b e' where rw: "kek_Rewrap C w k e ?aad = Inr (b, e')"
      "kek_Decrypt C k e' ?aad = Inr v" "en_KeyVersion e' = kk_current k" "\<not> b \<longrightarrow> e' = e" by metis
  have "en_Alg e' = ''aes-256-gcm''" using rw(2) by (simp add: Decrypt_ok)
  moreover have "0 \<le> kk_current k" "kk_current k \<le> max_int64" using assms(3) by (auto simp: ring_ok_def)
  ultimately have j: "env_Unmarshal C (env_Marshal C e') = Inr e'" "env_Marshal C e' \<noteq> []"
    using env_json [OF assms(1)] rw(3) by simp_all
  show ?thesis
  proof (cases b)
    case True
    have "opened C k (r\<lparr>sc_Envelope := env_Marshal C e'\<rparr>) = Some v"
      using e(1) j rw(2) by (simp add: opened_def)
    with True e rw j show ?thesis
      by (intro exI [of _ "Some (r\<lparr>sc_Envelope := env_Marshal C e'\<rparr>)"]) (simp add: rewrap_row_def)
  next
    case False
    with e rw show ?thesis by (intro exI [of _ None]) (simp add: rewrap_row_def)
  qed
qed

text \<open>The rows whose envelope is not under the current version yet.\<close>

definition stale :: "crypt \<Rightarrow> KEK \<Rightarrow> StoredSecret list \<Rightarrow> string set" where
  "stale C k s = {sc_Ref r | r e. r \<in> set s \<and> \<not> sc_Revoked r \<and> env_Unmarshal C (sc_Envelope r) = Inr e \<and>
     en_KeyVersion e \<noteq> kk_current k}"

lemma set_Put_exact:
  assumes "distinct (map sc_Ref s)" "r \<in> set s" "sec = r\<lparr>sc_Envelope := x\<rparr>" "\<not> sc_Revoked r"
  shows "set (db_PutSecretEnvelope s sec) = insert sec (set s - {r})"
proof -
  let ?f = "\<lambda>q. q\<lparr>sc_Envelope := sc_Envelope sec, sc_Version := sc_Version sec, sc_Label := sc_Label sec, sc_Revoked := False\<rparr>"
  have n: "\<not> no_row (\<lambda>q. sc_Ref q = sc_Ref sec) s" using assms(2,3) by (auto simp: no_row_iff)
  have k: "q = r" if "q \<in> set s" "sc_Ref q = sc_Ref sec" for q
    using that unique_key_eq [OF assms(1) that(1) assms(2)] assms(3) by simp
  let ?g = "\<lambda>q. if sc_Ref q = sc_Ref sec then ?f q else q"
  have g: "?g r = sec" unfolding assms(3) using assms(4) by (cases r) simp
  have i: "?g ` (set s - {r}) = (\<lambda>q. q) ` (set s - {r})" using k by (intro image_cong) auto
  have e: "insert r (set s - {r}) = set s" using assms(2) by auto
  have "set (db_PutSecretEnvelope s sec) = ?g ` set s"
    using n by (simp add: db_PutSecretEnvelope_def set_upd_where)
  also have "\<dots> = insert (?g r) (?g ` (set s - {r}))"
    by (subst e [symmetric]) (rule image_insert)
  finally show ?thesis unfolding g i by simp
qed

lemma rewrap_loop_ok:
  assumes "vault_ok C k s" "\<And>i. rand_ok (ws i)" "set secs \<subseteq> set s" "distinct (map sc_Ref secs)"
    "\<forall>r\<in>set secs. \<not> sc_Revoked r" "stale C k s \<subseteq> sc_Ref ` set secs"
  shows "\<exists>n' s'. rewrap_loop C ws k n s secs = (n', None, s') \<and> vault_ok C k s' \<and>
     acquired C k s' = acquired C k s \<and> stale C k s' = {}"
  using assms
proof (induction secs arbitrary: n s)
  case Nil
  then show ?case by simp
next
  case (Cons r secs)
  have r: "r \<in> set s" "\<not> sc_Revoked r" "crypt_ok C" "ring_ok k" "distinct (map sc_Ref s)"
    using Cons.prems by (auto simp: vault_ok_def)
  then obtain v where v: "opened C k r = Some v" using Cons.prems(1) by (auto simp: vault_ok_def)
  from rewrap_row_opens [OF r(3) Cons.prems(2) r(4) v] obtain o' where o': "rewrap_row C (ws (length secs)) k r = Inr o'"
      "case o' of None \<Rightarrow> \<exists>e. env_Unmarshal C (sc_Envelope r) = Inr e \<and> en_KeyVersion e = kk_current k
       | Some r' \<Rightarrow> r' = r\<lparr>sc_Envelope := sc_Envelope r'\<rparr> \<and> opened C k r' = Some v \<and>
           (\<exists>e. env_Unmarshal C (sc_Envelope r') = Inr e \<and> en_KeyVersion e = kk_current k)" by blast
  show ?case
  proof (cases o')
    case None
    have "stale C k s \<subseteq> sc_Ref ` set secs"
    proof
      fix x assume x: "x \<in> stale C k s"
      then obtain q e where q: "x = sc_Ref q" "q \<in> set s" "env_Unmarshal C (sc_Envelope q) = Inr e" "en_KeyVersion e \<noteq> kk_current k"
        unfolding stale_def by blast
      with o'(2) None have "q \<noteq> r" by auto
      then have "sc_Ref q \<noteq> sc_Ref r" using unique_key_eq [OF r(5) q(2) r(1)] by blast
      with x q(1) Cons.prems(6) show "x \<in> sc_Ref ` set secs" by auto
    qed
    with Cons.IH [of s n] Cons.prems o'(1) None show ?thesis by simp
  next
    case (Some r')
    with o'(2) obtain e' where r': "r' = r\<lparr>sc_Envelope := sc_Envelope r'\<rparr>" "opened C k r' = Some v"
        "env_Unmarshal C (sc_Envelope r') = Inr e'" "en_KeyVersion e' = kk_current k" by auto
    have rr: "sc_Ref r' = sc_Ref r" "sc_Owner r' = sc_Owner r" "sc_Type r' = sc_Type r" "\<not> sc_Revoked r'"
      using r(2) by (subst r'(1), simp)+
    then have "opened C k (r'\<lparr>sc_Revoked := False\<rparr>) = Some v"
      using r'(2) opened_cong [of "r'\<lparr>sc_Revoked := False\<rparr>" r'] by simp
    moreover have "\<forall>q\<in>set s. sc_Ref q = sc_Ref r' \<longrightarrow> sc_Owner q = sc_Owner r' \<and> sc_Type q = sc_Type r'"
      using unique_key_eq [OF r(5) _ r(1)] rr by auto
    ultimately have put: "acquired C k (db_PutSecretEnvelope s r') = (acquired C k s)(sc_Ref r' \<mapsto> v)"
        "vault_ok C k (db_PutSecretEnvelope s r')"
      using Put_acquired [OF Cons.prems(1)] by blast+
    have "acquired C k s (sc_Ref r) = Some v"
      using find_unique_key [OF r(5,1)] v by (simp add: acquired_find)
    then have same: "acquired C k (db_PutSecretEnvelope s r') = acquired C k s" using put(1) rr(1) by (simp add: fun_upd_idem)
    have set: "set (db_PutSecretEnvelope s r') = insert r' (set s - {r})"
      by (rule set_Put_exact [OF r(5,1) r'(1) r(2)])
    have "set secs \<subseteq> set (db_PutSecretEnvelope s r')"
      using Cons.prems(3,4) unfolding set by auto
    moreover have "stale C k (db_PutSecretEnvelope s r') \<subseteq> sc_Ref ` set secs"
    proof
      fix x assume x: "x \<in> stale C k (db_PutSecretEnvelope s r')"
      then obtain q e where q: "x = sc_Ref q" "q \<in> insert r' (set s - {r})" "\<not> sc_Revoked q"
          "env_Unmarshal C (sc_Envelope q) = Inr e" "en_KeyVersion e \<noteq> kk_current k"
        unfolding stale_def set by blast
      then have "q \<in> set s" "q \<noteq> r" using r'(3,4) by auto
      then have "sc_Ref q \<noteq> sc_Ref r" "x \<in> stale C k s"
        using unique_key_eq [OF r(5) _ r(1)] q unfolding stale_def by blast+
      with q(1) Cons.prems(6) show "x \<in> sc_Ref ` set secs" by auto
    qed
    ultimately have "\<exists>n' s'. rewrap_loop C ws k (n + 1) (db_PutSecretEnvelope s r') secs = (n', None, s') \<and>
        vault_ok C k s' \<and> acquired C k s' = acquired C k (db_PutSecretEnvelope s r') \<and> stale C k s' = {}"
      using Cons.prems(2,4,5) put(2) by (intro Cons.IH) auto
    with same o'(1) Some show ?thesis by simp
  qed
qed

text \<open>
  Rewrapping everything succeeds, keeps what can be acquired, and leaves no envelope under another
  version.
\<close>

lemma RewrapAll_ok:
  assumes "vault_ok C k s" "\<And>i. rand_ok (ws i)"
  shows "\<exists>n s'. secret_RewrapAll C ws k s = (n, None, s') \<and> vault_ok C k s' \<and>
     acquired C k s' = acquired C k s \<and> stale C k s' = {}"
  unfolding secret_RewrapAll_def
  using assms
  by (intro rewrap_loop_ok) (auto simp: db_ListSecretEnvelopes_def distinct_map_filter vault_ok_def stale_def)

section \<open>The command that rotates the key\<close>

text \<open>
  \<open>postra keys rotate\<close> without encryption of the objects at rest: a new version, the secrets
  rewrapped row by row in the database, the old versions retired on request, and then, as the last
  step, the keyring written to the database.
\<close>

definition retire_old :: "crypt \<Rightarrow> KEK \<Rightarrow> int \<Rightarrow> KEK" where
  "retire_old C k nv = foldl (\<lambda>k v. snd (RetireVersion C k v)) k [1..nv - 1]"

definition keys_rotate ::
  "crypt \<Rightarrow> io \<Rightarrow> (nat \<Rightarrow> io) \<Rightarrow> bool \<Rightarrow> KEK \<Rightarrow> string \<Rightarrow> StoredSecret list
     \<Rightarrow> err option \<times> string \<times> StoredSecret list" where
  "keys_rotate C w ws retireOld k ring s =
     (case kek_Rotate C w k of
        (Inl e, k1) \<Rightarrow> (Some e, ring, s)
      | (Inr nv, k1) \<Rightarrow>
          (case secret_RewrapAll C ws k1 s of
             (n, Some e, s') \<Rightarrow> (Some (SysError (''rewrap secrets: '' @ err_text e)), ring, s')
           | (n, None, s') \<Rightarrow>
               (let k2 = (if retireOld then retire_old C k1 nv else k1)
                in (None, if kk_external k2 then ring else KeyringJSON C k2, s'))))"

lemma retire_old_ring:
  assumes "ring_ok k"
  shows "ring_ok (retire_old C k nv) \<and> kk_current (retire_old C k nv) = kk_current k \<and>
     map_of (kk_keys (retire_old C k nv)) (kk_current k) = map_of (kk_keys k) (kk_current k) \<and>
     kk_external (retire_old C k nv) = kk_external k"
proof -
  have "ring_ok k' \<Longrightarrow> ring_ok (foldl (\<lambda>k v. snd (RetireVersion C k v)) k' vs) \<and>
      kk_current (foldl (\<lambda>k v. snd (RetireVersion C k v)) k' vs) = kk_current k' \<and>
      map_of (kk_keys (foldl (\<lambda>k v. snd (RetireVersion C k v)) k' vs)) (kk_current k') =
        map_of (kk_keys k') (kk_current k') \<and>
      kk_external (foldl (\<lambda>k v. snd (RetireVersion C k v)) k' vs) = kk_external k'" for vs k'
  proof (induction vs arbitrary: k')
    case (Cons v vs)
    obtain r k1 where k1: "RetireVersion C k' v = (r, k1)" by (cases "RetireVersion C k' v")
    from Retire_ring [OF Cons.prems k1] Cons.IH [of k1] k1 show ?case by simp
  qed simp
  with assms show ?thesis by (simp add: retire_old_def)
qed

lemma Rotate_internal:
  "\<not> kk_external k \<Longrightarrow> kk_path k = [] \<Longrightarrow> \<exists>k1. kek_Rotate C w k = (Inr (wrap64 (kk_current k + 1)), k1)"
  by (simp add: kek_Rotate_def kek_save_def Let_def)

lemma keys_rotate_ok:
  assumes ok: "vault_ok C k s" and w: "rand_ok w" "\<And>i. rand_ok (ws i)"
    and int: "\<not> kk_external k" "kk_path k = []" "kk_current k + 1 < max_int64"
  shows "\<exists>k' ring' s'. keys_rotate C w ws retireOld k ring s = (None, ring', s') \<and>
     KEKFromKeyringJSON C ring' = Inr k' \<and> vault_ok C k' s' \<and> acquired C k' s' = acquired C k s"
proof -
  from Rotate_internal [OF int(1,2)] obtain nv k1 where rot: "kek_Rotate C w k = (Inr nv, k1)" by blast
  have rk: "ring_ok k" "crypt_ok C" using ok by (simp_all add: vault_ok_def)
  note ring1 = Rotate_ring [OF rk(1) w(1) rot int(1)]
  have ok1: "vault_ok C k1 s" "acquired C k1 s = acquired C k s"
    using ring_change [OF ok ring1(4) [OF int(3)]] ring1(1) by (auto simp: map_le_def dom_def)
  from RewrapAll_ok [of C k1 s ws, OF ok1(1) w(2)] obtain n s' where rw: "secret_RewrapAll C ws k1 s = (n, None, s')"
      "vault_ok C k1 s'" "acquired C k1 s' = acquired C k1 s" "stale C k1 s' = {}" by blast
  define k2 where "k2 = (if retireOld then retire_old C k1 nv else k1)"
  have k2: "ring_ok k2" "kk_current k2 = kk_current k1" "kk_external k2 = False"
      "map_of (kk_keys k2) (kk_current k1) = map_of (kk_keys k1) (kk_current k1)"
    using retire_old_ring [of k1 C nv] rw(2) ring1(5) int(1) by (auto simp: k2_def vault_ok_def)
  from keyring_reload [OF rk(2) k2(1)] obtain k' where k': "KEKFromKeyringJSON C (KeyringJSON C k2) = Inr k'"
      "kk_current k' = kk_current k2" "map_of (kk_keys k') = map_of (kk_keys k2)" "ring_ok k'" by blast
  have "map_of (kk_keys k') (en_KeyVersion e) = map_of (kk_keys k1) (en_KeyVersion e)"
    if "r \<in> set s'" "\<not> sc_Revoked r" "env_Unmarshal C (sc_Envelope r) = Inr e" for r e
  proof -
    have "en_KeyVersion e = kk_current k1" using rw(4) that unfolding stale_def by blast
    then show ?thesis using k'(3) k2(4) by simp
  qed
  then have "vault_ok C k' s'" "acquired C k' s' = acquired C k1 s'"
    using ring_change [OF rw(2) k'(4)] by blast+
  with rot rw ok1(2) k'(1) k2(3) show ?thesis
    by (simp add: keys_rotate_def k2_def [symmetric])
qed

section \<open>Refinement\<close>

text \<open>
  A run of the store beside the map it stands for.  New references are fresh, and a keyring is one
  the application manages itself.
\<close>

inductive vault_run :: "crypt \<Rightarrow> KEK \<Rightarrow> StoredSecret list \<Rightarrow> (string \<rightharpoonup> string) \<Rightarrow> bool" for C where
  empty: "crypt_ok C \<Longrightarrow> ring_ok k \<Longrightarrow> vault_run C k [] Map.empty"
| put: "vault_run C k s m \<Longrightarrow> rand_ok w \<Longrightarrow> no_row (\<lambda>r. sc_Ref r = new_ref w) s \<Longrightarrow>
    secret_Put C w k s owner t label v = (r, s') \<Longrightarrow> vault_run C k s' (m(new_ref w \<mapsto> v))"
| rotate: "vault_run C k s m \<Longrightarrow> rand_ok w \<Longrightarrow> secret_Rotate C w k s ref v = (e, s') \<Longrightarrow>
    vault_run C k s' (m(ref \<mapsto> v))"
| revoke: "vault_run C k s m \<Longrightarrow> vault_run C k (secret_Revoke s ref) (m(ref := None))"
| rewrap: "vault_run C k s m \<Longrightarrow> (\<And>i. rand_ok (ws i)) \<Longrightarrow> secret_RewrapAll C ws k s = (n, e, s') \<Longrightarrow>
    vault_run C k s' m"
| keys: "vault_run C k s m \<Longrightarrow> rand_ok w \<Longrightarrow> (\<And>i. rand_ok (ws i)) \<Longrightarrow> \<not> kk_external k \<Longrightarrow> kk_path k = [] \<Longrightarrow>
    kk_current k + 1 < max_int64 \<Longrightarrow> keys_rotate C w ws retireOld k ring s = (e, ring', s') \<Longrightarrow>
    KEKFromKeyringJSON C ring' = Inr k' \<Longrightarrow> vault_run C k' s' m"

lemma vault_run_simulates: "vault_run C k s m \<Longrightarrow> vault_ok C k s \<and> acquired C k s = m"
proof (induction rule: vault_run.induct)
  case (empty k)
  then show ?case by (simp add: vault_ok_def acquired_find fun_eq_iff)
next
  case (put k s m w owner t label v r s')
  then show ?case using secret_Put_acquired [of C k s w owner t label v] by auto
next
  case (rotate k s m w ref v e s')
  then show ?case using secret_Rotate_acquired [of C k s w ref v] by auto
next
  case (revoke k s m ref)
  then show ?case using secret_Revoke_acquired [of C k s ref] by simp
next
  case (rewrap k s m ws n e s')
  then show ?case using RewrapAll_ok [of C k s ws] by auto
next
  case (keys k s m w ws retireOld ring e ring' s' k')
  then show ?case using keys_rotate_ok [of C k s w ws retireOld ring] by auto
qed

text \<open>
  C23. The secret store implements a map from references to values: after every sequence of stored,
  rotated and revoked secrets, rewraps and key rotations, with or without retiring the old key
  versions, \<open>Acquire\<close> hands out for every reference exactly the value the map holds, and refuses
  every reference the map does not hold.
\<close>

theorem secret_store_refines:
  assumes "vault_run C k s m"
  shows "(case secret_Acquire C k s ref of Inr v \<Rightarrow> m ref = Some v | Inl e \<Rightarrow> m ref = None)"
  using vault_run_simulates [OF assms] by (auto simp: acquired_def split: sum.split)


section \<open>Encrypted objects\<close>

text \<open>Every stored blob is an envelope whose plaintext has the digest that names it.\<close>

definition enc_valid :: "lib \<Rightarrow> crypt \<Rightarrow> io \<Rightarrow> KEK \<Rightarrow> objs \<Rightarrow> bool" where
  "enc_valid L C w k m \<longleftrightarrow>
     crypt_ok C \<and> rand_ok w \<and> ring_ok k \<and>
     (\<forall>kind name blob. m (kind, name) = Some blob \<longrightarrow>
        (\<exists>env d. env_Unmarshal C blob = Inr env \<and> kek_Decrypt C k env (objectAAD kind name) = Inr d \<and>
           name = hex (sha256 L d)))"

definition enc_no_collision :: "lib \<Rightarrow> crypt \<Rightarrow> KEK \<Rightarrow> objs \<Rightarrow> string \<Rightarrow> string \<Rightarrow> bool" where
  "enc_no_collision L C k m kind data \<longleftrightarrow>
     sha256 L data \<noteq> [] \<and>
     (\<forall>name blob env d. m (kind, name) = Some blob \<longrightarrow> env_Unmarshal C blob = Inr env \<longrightarrow>
        kek_Decrypt C k env (objectAAD kind name) = Inr d \<longrightarrow> sha256 L d = sha256 L data \<longrightarrow> d = data)"

lemma enc_Put_Some:
  "enc_Put L C w k m kind d = Inr (u, h, n, m') \<longleftrightarrow>
     int (length d) \<le> maxObjectBytes \<and> h = hex (sha256 L d) \<and> u = uri kind h \<and> n = int (length d) \<and>
     (\<exists>env. kek_Encrypt C w k d (objectAAD kind h) = Inr env \<and> m' = db_PutObject m kind h (env_Marshal C env))"
  by (auto simp: enc_Put_def Let_def split: sum.splits)

lemma enc_sealed:
  assumes "enc_valid L C w k m" "kek_Encrypt C w k d aad = Inr env"
  shows "env_Unmarshal C (env_Marshal C env) = Inr env" "kek_Decrypt C k env aad = Inr d"
proof -
  from assms(1) have ok: "crypt_ok C" "rand_ok w" "ring_ok k" by (simp_all add: enc_valid_def)
  from Encrypt_opens [OF this, of d aad] assms(2) show d: "kek_Decrypt C k env aad = Inr d" by auto
  have "0 \<le> en_KeyVersion env" "en_KeyVersion env \<le> max_int64"
    using Encrypt_opens [OF ok, of d aad] assms(2) ok(3) by (auto simp: ring_ok_def)
  with d show "env_Unmarshal C (env_Marshal C env) = Inr env"
    by (intro env_json(1) [OF ok(1)]) (simp_all add: Decrypt_ok)
qed

interpretation sealed_blobs: content_store "enc_Put L C w k" "enc_Get C k" "enc_valid L C w k" "\<lambda>k. \<not> bad_path k"
    "enc_no_collision L C k"
  for L C w k
proof unfold_locales
  fix s kind d u h n s'
  assume v: "enc_valid L C w k s" and p: "enc_Put L C w k s kind d = Inr (u, h, n, s')"
  then obtain env where env: "kek_Encrypt C w k d (objectAAD kind h) = Inr env" "s' = db_PutObject s kind h (env_Marshal C env)"
      "h = hex (sha256 L d)" "u = uri kind h" by (auto simp: enc_Put_Some)
  note sealed = enc_sealed [OF v env(1)]
  have in_s': "s (kd, nm) = Some b \<or> kd = kind \<and> nm = h \<and> b = env_Marshal C env" if "s' (kd, nm) = Some b" for kd nm b
    using that by (auto simp: env(2) db_PutObject_def split: option.splits if_splits)
  show "enc_valid L C w k s'"
    unfolding enc_valid_def
  proof (intro conjI allI impI)
    fix kd nm b
    assume b: "s' (kd, nm) = Some b"
    from in_s' [OF b] show "\<exists>env d. env_Unmarshal C b = Inr env \<and> kek_Decrypt C k env (objectAAD kd nm) = Inr d \<and>
        nm = hex (sha256 L d)"
    proof
      assume "s (kd, nm) = Some b"
      with v show ?thesis unfolding enc_valid_def by blast
    next
      assume "kd = kind \<and> nm = h \<and> b = env_Marshal C env"
      with sealed env(3) show ?thesis by blast
    qed
  qed (use v in \<open>simp_all add: enc_valid_def\<close>)
  assume k: "\<not> bad_path kind" and nc: "enc_no_collision L C k s kind d"
  have "2 \<le> length h" using nc by (cases "sha256 L d") (auto simp: env(3) enc_no_collision_def length_hex)
  then have pu: "parseURI u = Inr (kind, h)" using k by (simp add: env(3,4) parseURI_uri hex_not_bad)
  show "enc_Get C k s' u = Inr d"
  proof (cases "s (kind, h)")
    case None
    then show ?thesis using pu sealed by (simp add: enc_Get_def obj_Get_def env(2) db_PutObject_def)
  next
    case (Some b)
    with v obtain env' d' where o: "env_Unmarshal C b = Inr env'" "kek_Decrypt C k env' (objectAAD kind h) = Inr d'"
        "h = hex (sha256 L d')" unfolding enc_valid_def by blast
    then have "sha256 L d' = sha256 L d" using env(3) by (metis hex_inj)
    with nc Some o have "d' = d" unfolding enc_no_collision_def by blast
    with o Some pu show ?thesis by (simp add: enc_Get_def obj_Get_def env(2) db_PutObject_def)
  qed
next
  fix s kind d u h n s' u' x
  assume "enc_Put L C w k s kind d = Inr (u, h, n, s')" "enc_Get C k s u' = Inr x"
  then show "enc_Get C k s' u' = Inr x"
    by (auto simp: enc_Get_def obj_Get_def enc_Put_Some db_PutObject_keeps split: sum.splits option.splits prod.splits)
qed

text \<open>
  An object written with encryption at rest is read back unchanged at the returned address, which
  is the digest of the plaintext, also after any further writes.
\<close>

theorem encrypted_object_roundtrip:
  assumes "enc_valid L C w k m" and "\<not> bad_path kind" and "enc_no_collision L C k m kind d"
    and "enc_Put L C w k m kind d = Inr (u, h, n, m')" and "sealed_blobs.put_all L C w k m' ds = Inr m''"
  shows "enc_Get C k m'' u = Inr d \<and> h = hex (sha256 L d) \<and> n = int (length d)"
  using sealed_blobs.get_put_then_all [OF assms] assms(4) by (simp add: enc_Put_Some)

section \<open>Instances\<close>

lemma sample_put:
  obtains s where
    "secret_Put sample_crypt sample_io sample_kek [] ''usr_1'' ''mail_password'' ''m'' ''pw'' = (Inr (new_ref sample_io), s)"
    "vault_ok sample_crypt sample_kek s" "secret_Acquire sample_crypt sample_kek s (new_ref sample_io) = Inr ''pw''"
proof -
  have "vault_ok sample_crypt sample_kek []" by (simp add: vault_ok_def sample_crypt_ok sample_ring_ok)
  from secret_Put_acquired [OF this sample_rand_ok, of "''usr_1''" "''mail_password''" "''m''" "''pw''"] obtain s where
    s: "secret_Put sample_crypt sample_io sample_kek [] ''usr_1'' ''mail_password'' ''m'' ''pw'' = (Inr (new_ref sample_io), s)"
      "vault_ok sample_crypt sample_kek s"
      "acquired sample_crypt sample_kek s = (acquired sample_crypt sample_kek [])(new_ref sample_io \<mapsto> ''pw'')"
    by (auto simp: no_row_def)
  have "acquired sample_crypt sample_kek s (new_ref sample_io) = Some ''pw''" unfolding s(3) by simp
  then have "secret_Acquire sample_crypt sample_kek s (new_ref sample_io) = Inr ''pw''"
    by (simp add: acquired_def split: sum.splits)
  with s show thesis by (intro that)
qed

lemma sample_kek_own: "\<not> kk_external sample_kek" "kk_path sample_kek = []" "kk_current sample_kek + 1 < max_int64"
  by (simp_all add: sample_kek_def max_int64_def)

theorem secret_store_refines_witness:
  "\<exists>s ring' s' k'. secret_Put sample_crypt sample_io sample_kek [] ''usr_1'' ''mail_password'' ''m'' ''pw'' = (Inr (new_ref sample_io), s) \<and>
     keys_rotate sample_crypt sample_io (\<lambda>_. sample_io) True sample_kek [] s = (None, ring', s') \<and>
     KEKFromKeyringJSON sample_crypt ring' = Inr k' \<and>
     secret_Acquire sample_crypt k' s' (new_ref sample_io) = Inr ''pw''"
proof -
  note kek = sample_kek_own
  obtain s where put: "secret_Put sample_crypt sample_io sample_kek [] ''usr_1'' ''mail_password'' ''m'' ''pw'' = (Inr (new_ref sample_io), s)"
      "vault_ok sample_crypt sample_kek s" by (rule sample_put)
  from keys_rotate_ok [OF put(2) sample_rand_ok sample_rand_ok kek, of True "[]"] obtain k' ring' s' where
    rot: "keys_rotate sample_crypt sample_io (\<lambda>_. sample_io) True sample_kek [] s = (None, ring', s')"
      "KEKFromKeyringJSON sample_crypt ring' = Inr k'" by blast
  have "vault_run sample_crypt sample_kek s (Map.empty(new_ref sample_io \<mapsto> ''pw''))"
    by (rule vault_run.put [OF vault_run.empty [OF sample_crypt_ok sample_ring_ok] sample_rand_ok _ put(1)]) (simp add: no_row_def)
  from vault_run.keys [OF this sample_rand_ok sample_rand_ok kek rot]
  have "vault_run sample_crypt k' s' (Map.empty(new_ref sample_io \<mapsto> ''pw''))" .
  from secret_store_refines [OF this, of "new_ref sample_io"] put(1) rot show ?thesis
    by (auto split: sum.splits)
qed


theorem encrypted_object_roundtrip_witness:
  "\<exists>u h n m'. enc_Put sample_lib sample_crypt sample_io sample_kek Map.empty ''raw'' ''hi'' = Inr (u, h, n, m') \<and>
     enc_Get sample_crypt sample_kek m' u = Inr ''hi''"
proof -
  have v: "enc_valid sample_lib sample_crypt sample_io sample_kek Map.empty"
    by (simp add: enc_valid_def sample_crypt_ok sample_rand_ok sample_ring_ok)
  have k: "\<not> bad_path ''raw''" "enc_no_collision sample_lib sample_crypt sample_kek Map.empty ''raw'' ''hi''"
    by (simp_all add: bad_path_def ContainsAny_def enc_no_collision_def sample_lib_def)
  from Encrypt_opens [OF sample_crypt_ok sample_rand_ok sample_ring_ok] obtain env where
    "kek_Encrypt sample_crypt sample_io sample_kek ''hi'' (objectAAD ''raw'' (hex (sha256 sample_lib ''hi''))) = Inr env" by blast
  then obtain u h n m' where p: "enc_Put sample_lib sample_crypt sample_io sample_kek Map.empty ''raw'' ''hi'' = Inr (u, h, n, m')"
    by (simp add: enc_Put_def Let_def maxObjectBytes_def)
  from encrypted_object_roundtrip [OF v k p, of "[]" m'] p show ?thesis by auto
qed

end
