(* ===== verification/Smtp_Client.thy ===== *)
theory Smtp_Client
  imports Outbox_Safety
begin

text \<open>
  The SMTP client (\<open>src/internal/adapters/smtp/client.go\<close>).  What the server and the network answer
  to each step is an input, \<open>smtp_server\<close>; the model adds the commands the client issues, so that
  what it reports can be compared with what the server may have accepted.  Time-outs of the dialer
  and the diagnosis of a connection are not modelled.
\<close>

section \<open>Answers\<close>

text \<open>
  The errors of a step: a reply of the server with its code, the ends of a connection that the
  client can tell apart, and any other fault with its text.
\<close>

datatype step_err =
    Reply int string
  | ConnEOF
  | ConnClosed
  | ConnTimeout
  | OtherFault string

fun step_text :: "step_err \<Rightarrow> string" where
  "step_text (Reply code msg) = fmt_d code @ '' '' @ msg"
| "step_text ConnEOF = ''EOF''"
| "step_text ConnClosed = ''use of closed network connection''"
| "step_text ConnTimeout = ''i/o timeout''"
| "step_text (OtherFault m) = m"

text \<open>
  \<open>sv_ext\<close> are the extensions announced before (\<open>False\<close>) and after the switch to TLS, with their
  parameters; \<open>sv_close\<close> is the answer to the end of the data.
\<close>

record smtp_server =
  sv_dial :: "step_err option"
  sv_greeting :: "step_err option"
  sv_hello :: "step_err option"
  sv_ext :: "bool \<Rightarrow> string \<rightharpoonup> string"
  sv_starttls :: "step_err option"
  sv_auth :: "string \<Rightarrow> step_err option"
  sv_mail :: "string \<Rightarrow> step_err option"
  sv_rcpt :: "string \<Rightarrow> step_err option"
  sv_data :: "step_err option"
  sv_write :: "string \<Rightarrow> step_err option"
  sv_close :: "step_err option"
  sv_quit :: "step_err option"

datatype smtp_cmd =
    CmdStartTLS
  | CmdAuth string
  | CmdMail string
  | CmdRcpt string
  | CmdData
  | CmdBody string
  | CmdEndData
  | CmdQuit

section \<open>Connecting\<close>

text \<open>An error of the connection phase; the credentials were refused, or anything else.\<close>

datatype connect_err = AuthRefused string | NoConnection string

fun connect_text :: "connect_err \<Rightarrow> string" where
  "connect_text (AuthRefused m) = ''smtp auth: '' @ m"
| "connect_text (NoConnection m) = m"

definition JoinHostPort :: "string \<Rightarrow> int \<Rightarrow> string" where
  "JoinHostPort host port =
     (if CHR '':'' \<in> set host then ''['' @ host @ '']:'' @ fmt_d port else host @ '':'' @ fmt_d port)"

definition auth_mechanism :: "string \<Rightarrow> string option" where
  "auth_mechanism ext =
     (if Contains ext ''PLAIN'' then Some ''PLAIN''
      else if Contains ext ''LOGIN'' then Some ''LOGIN''
      else if Contains ext ''CRAM-MD5'' then Some ''CRAM-MD5'' else None)"

definition smtp_authenticate ::
  "lib \<Rightarrow> smtp_server \<Rightarrow> SMTPSendOptions \<Rightarrow> bool \<Rightarrow> connect_err option \<times> smtp_cmd list" where
  "smtp_authenticate L srv opts tls =
     (if so_AuthMethod opts = ''none'' \<or> so_Username opts = [] then (None, [])
      else case sv_ext srv tls ''AUTH'' of
             None \<Rightarrow> (if so_AuthMethod opts = ''auto'' then None
                      else Some (NoConnection ''server does not offer AUTH''), [])
           | Some ext \<Rightarrow>
               (case auth_mechanism ext of
                  None \<Rightarrow> (Some (NoConnection (''no supported AUTH mechanism in '' @ go_quote L ext)), [])
                | Some mech \<Rightarrow>
                    (map_option (\<lambda>e. AuthRefused (step_text e)) (sv_auth srv mech), [CmdAuth mech])))"

definition smtp_connect ::
  "lib \<Rightarrow> smtp_server \<Rightarrow> SMTPSendOptions \<Rightarrow> connect_err option \<times> smtp_cmd list" where
  "smtp_connect L srv opts =
     (case sv_dial srv of
        Some e \<Rightarrow>
          (Some (NoConnection (''smtp connect '' @ JoinHostPort (so_Host opts) (so_Port opts) @ '': '' @ step_text e)), [])
      | None \<Rightarrow>
          (case sv_greeting srv of
             Some e \<Rightarrow> (Some (NoConnection (step_text e)), [])
           | None \<Rightarrow>
               (case sv_hello srv of
                  Some e \<Rightarrow> (Some (NoConnection (step_text e)), [])
                | None \<Rightarrow>
                    if so_Security opts = SecurityStartTLS then
                      (if sv_ext srv False ''STARTTLS'' = None
                       then (Some (NoConnection ''server does not offer STARTTLS''), [])
                       else case sv_starttls srv of
                              Some e \<Rightarrow> (Some (NoConnection (''STARTTLS: '' @ step_text e)), [CmdStartTLS])
                            | None \<Rightarrow> (case smtp_authenticate L srv opts True of
                                         (e, cmds) \<Rightarrow> (e, CmdStartTLS # cmds)))
                    else smtp_authenticate L srv opts (so_Security opts = SecurityTLS))))"

section \<open>Sending\<close>

text \<open>
  \<open>classify\<close>: a reply decides by its code, with the integer division of the code, any other error
  is temporary.  A \<open>SendError\<close> that is not temporary becomes a plain fault.
\<close>

fun classify :: "string \<Rightarrow> step_err \<Rightarrow> err" where
  "classify stage (Reply code msg) =
     (if code div 100 = 4 then TemporaryError (stage @ step_text (Reply code msg))
      else SysError (stage @ step_text (Reply code msg)))"
| "classify stage e = TemporaryError (stage @ step_text e)"

fun isConnectionLost :: "step_err \<Rightarrow> bool" where
  "isConnectionLost ConnEOF = True"
| "isConnectionLost ConnClosed = True"
| "isConnectionLost ConnTimeout = True"
| "isConnectionLost e = Contains (step_text e) ''connection reset''"

fun rcpt_loop :: "smtp_server \<Rightarrow> string list \<Rightarrow> err option \<times> smtp_cmd list" where
  "rcpt_loop srv [] = (None, [])"
| "rcpt_loop srv (r # rs) =
     (case sv_rcpt srv r of
        Some e \<Rightarrow> (Some (classify (''RCPT TO '' @ r @ '': '') e), [CmdRcpt r])
      | None \<Rightarrow> (case rcpt_loop srv rs of (e, cmds) \<Rightarrow> (e, CmdRcpt r # cmds)))"

text \<open>
  The part after the data command; closing the writer sends the final dot.  The message is read from
  memory, so only the connection can fail while it is copied; the buffered writer keeps that fault
  and the close that follows sends nothing more.
\<close>

definition smtp_payload ::
  "smtp_server \<Rightarrow> string \<Rightarrow> (SendReceipt \<times> err option) \<times> smtp_cmd list" where
  "smtp_payload srv message =
     (case sv_write srv message of
        Some e \<Rightarrow> ((no_receipt, Some (TemporaryError (''DATA write: '' @ step_text e))), [CmdBody message])
      | None \<Rightarrow>
          (case sv_close srv of
             Some e \<Rightarrow>
               (if isConnectionLost e
                then ((\<lparr>rc_ServerResponse = step_text e, rc_Uncertain = True\<rparr>, None), [CmdBody message, CmdEndData])
                else ((no_receipt, Some (SysError (''DATA close: '' @ step_text e))), [CmdBody message, CmdEndData]))
           | None \<Rightarrow>
               ((\<lparr>rc_ServerResponse = (case sv_quit srv of
                     Some e \<Rightarrow> if isConnectionLost e then ''250 accepted''
                               else ''accepted (QUIT: '' @ step_text e @ '')''
                   | None \<Rightarrow> ''250 accepted''), rc_Uncertain = False\<rparr>, None),
                [CmdBody message, CmdEndData, CmdQuit])))"

definition smtp_Send ::
  "lib \<Rightarrow> smtp_server \<Rightarrow> SMTPSendOptions \<Rightarrow> Envelope \<Rightarrow> string
     \<Rightarrow> (SendReceipt \<times> err option) \<times> smtp_cmd list" where
  "smtp_Send L srv opts env message =
     (case smtp_connect L srv opts of
        (Some (AuthRefused m), cmds) \<Rightarrow> ((no_receipt, Some (SysError (connect_text (AuthRefused m)))), cmds)
      | (Some (NoConnection m), cmds) \<Rightarrow> ((no_receipt, Some (TemporaryError m)), cmds)
      | (None, cmds) \<Rightarrow>
          (case sv_mail srv (env_From env) of
             Some e \<Rightarrow> ((no_receipt, Some (classify ''MAIL FROM: '' e)), cmds @ [CmdMail (env_From env)])
           | None \<Rightarrow>
               (case rcpt_loop srv (env_To env) of
                  (Some e, rcpts) \<Rightarrow> ((no_receipt, Some e), cmds @ CmdMail (env_From env) # rcpts)
                | (None, rcpts) \<Rightarrow>
                    (case sv_data srv of
                       Some e \<Rightarrow> ((no_receipt, Some (classify ''DATA: '' e)),
                                  cmds @ CmdMail (env_From env) # rcpts @ [CmdData])
                     | None \<Rightarrow>
                         (case smtp_payload srv message of
                            (r, tail) \<Rightarrow> (r, cmds @ CmdMail (env_From env) # rcpts @ CmdData # tail))))))"

text \<open>The world in which the application sends through this client.\<close>

definition wired :: "lib \<Rightarrow> smtp_server \<Rightarrow> io \<Rightarrow> io" where
  "wired L srv w = w\<lparr>smtp_send := (\<lambda>opts env m. fst (smtp_Send L srv opts env m))\<rparr>"

section \<open>Lemmas\<close>

lemma authenticate_cmds: "CmdEndData \<notin> set (snd (smtp_authenticate L srv opts tls)) \<and>
   CmdBody b \<notin> set (snd (smtp_authenticate L srv opts tls))"
  by (simp add: smtp_authenticate_def split: option.split)

lemma connect_cmds: "CmdEndData \<notin> set (snd (smtp_connect L srv opts)) \<and> CmdBody b \<notin> set (snd (smtp_connect L srv opts))"
  using authenticate_cmds [of L srv opts True b] authenticate_cmds [of L srv opts "so_Security opts = SecurityTLS" b]
  by (auto simp: smtp_connect_def case_prod_beta split: option.splits)

lemma rcpt_cmds: "set (snd (rcpt_loop srv rs)) \<subseteq> CmdRcpt ` set rs"
  by (induction rs) (auto simp: case_prod_beta split: option.split)

lemma rcpt_ok: "fst (rcpt_loop srv rs) = None \<Longrightarrow> snd (rcpt_loop srv rs) = map CmdRcpt rs \<and> (\<forall>r\<in>set rs. sv_rcpt srv r = None)"
  by (induction rs) (auto simp: case_prod_beta split: option.splits)

lemma rcpt_err: "fst (rcpt_loop srv rs) = Some e \<Longrightarrow> \<exists>pre r x. r \<in> set rs \<and> sv_rcpt srv r = Some x \<and> e = classify pre x"
  by (induction rs) (auto simp: case_prod_beta split: option.splits)

lemma no_end_rcpt: "CmdEndData \<notin> set (snd (rcpt_loop srv rs))" "CmdBody b \<notin> set (snd (rcpt_loop srv rs))"
  using rcpt_cmds [of srv rs] by auto

text \<open>The cases of a transmission by the point it reaches.\<close>

lemma smtp_Send_cases:
  obtains (early) e where "fst (smtp_Send L srv opts env m) = (no_receipt, Some e)"
      "CmdEndData \<notin> set (snd (smtp_Send L srv opts env m))"
  | (broken) e where "fst (smtp_Send L srv opts env m) = (no_receipt, Some (TemporaryError e))" "sv_write srv m \<noteq> None"
      "CmdEndData \<notin> set (snd (smtp_Send L srv opts env m))"
  | (ended) cmds where "fst (smtp_connect L srv opts) = None" "sv_mail srv (env_From env) = None"
      "\<forall>r\<in>set (env_To env). sv_rcpt srv r = None" "sv_data srv = None" "sv_write srv m = None"
      "fst (smtp_Send L srv opts env m) = fst (smtp_payload srv m)"
      "snd (smtp_Send L srv opts env m) = cmds @ [CmdMail (env_From env)] @ map CmdRcpt (env_To env) @
         [CmdData, CmdBody m, CmdEndData] @ (if sv_close srv = None then [CmdQuit] else [])"
proof -
  obtain ce cc where c: "smtp_connect L srv opts = (ce, cc)" by (cases "smtp_connect L srv opts")
  have nc: "CmdEndData \<notin> set cc" using connect_cmds [of L srv opts] c by simp
  show thesis
  proof (cases ce)
    case (Some x)
    with c nc show thesis by (cases x; intro early) (auto simp: smtp_Send_def)
  next
    case conn: None
    show thesis
    proof (cases "sv_mail srv (env_From env)")
      case (Some x)
      with c nc conn show thesis by (intro early) (auto simp: smtp_Send_def)
    next
      case mail: None
      obtain re rc where r: "rcpt_loop srv (env_To env) = (re, rc)" by (cases "rcpt_loop srv (env_To env)")
      have nr: "CmdEndData \<notin> set rc" using no_end_rcpt(1) [of srv "env_To env"] r by simp
      show thesis
      proof (cases re)
        case (Some x)
        with c nc conn mail r nr show thesis by (intro early) (auto simp: smtp_Send_def)
      next
        case rcpt: None
        with r rcpt_ok [of srv "env_To env"] have rc: "rc = map CmdRcpt (env_To env)"
          "\<forall>r\<in>set (env_To env). sv_rcpt srv r = None" by auto
        show thesis
        proof (cases "sv_data srv")
          case (Some x)
          with c nc conn mail r rcpt nr show thesis by (intro early) (auto simp: smtp_Send_def)
        next
          case data: None
          show thesis
          proof (cases "sv_write srv m")
            case (Some x)
            with c nc conn mail r rcpt nr data show thesis
              by (intro broken) (auto simp: smtp_Send_def smtp_payload_def)
          next
            case wr: None
            have "snd (smtp_payload srv m) = [CmdBody m, CmdEndData] @ (if sv_close srv = None then [CmdQuit] else [])"
              using wr by (simp add: smtp_payload_def split: option.split)
            with c conn mail r rcpt rc data wr show thesis
              by (intro ended [of cc]) (auto simp: smtp_Send_def case_prod_beta)
          qed
        qed
      qed
    qed
  qed
qed

lemma payload_result:
  assumes "sv_write srv m = None"
  shows "fst (smtp_payload srv m) = (rc, e) \<Longrightarrow> e = None \<Longrightarrow> rc_Uncertain rc = (sv_close srv \<noteq> None)"
    and "snd (fst (smtp_payload srv m)) \<noteq> Some (TemporaryError t)"
    and "snd (fst (smtp_payload srv m)) = None \<longleftrightarrow> (\<forall>x. sv_close srv = Some x \<longrightarrow> isConnectionLost x)"
  using assms by (auto simp: smtp_payload_def split: option.splits if_splits)

section \<open>A server that accepts and one that is busy\<close>

definition sample_server :: smtp_server where
  "sample_server = \<lparr>sv_dial = None, sv_greeting = None, sv_hello = None, sv_ext = (\<lambda>_. Map.empty),
     sv_starttls = None, sv_auth = (\<lambda>_. None), sv_mail = (\<lambda>_. None), sv_rcpt = (\<lambda>_. None), sv_data = None,
     sv_write = (\<lambda>_. None), sv_close = Some ConnEOF, sv_quit = None\<rparr>"

definition busy_server :: smtp_server where
  "busy_server = sample_server\<lparr>sv_mail := (\<lambda>_. Some (Reply 450 ''busy''))\<rparr>"

definition sample_opts :: SMTPSendOptions where
  "sample_opts = smtp_options sample_app sample_account None"

definition sample_row :: OutboundMessage where
  "sample_row = new_outbound sample_io (sample_ctx ''local'' []) sample_draft sample_version ''k1''"

lemma sample_auth: "so_AuthMethod (smtp_options a sample_account sec) = ''none''"
  "so_Security (smtp_options a sample_account sec) = SecurityTLS"
  by (simp_all add: smtp_options_def sample_account_def)

section \<open>Properties\<close>



text \<open>
  C7.  An outbox row is scheduled for another attempt only when the server did not get the end of the
  message in this one: no message the server may have accepted is sent a second time.
\<close>

theorem retry_only_unaccepted:
  assumes "deliver L (wired L srv w) a c out acc v = ((rc, e), a1)"
    and "applySendResult (wired L srv w) a1 c out (v_DraftID v) rc e = (res, a2)"
    and "o_Status res = OutboundRetryWait"
    and "(opts, env, raw) \<in> set (drop (length (smtp_log a)) (smtp_log a1))"
  shows "CmdEndData \<notin> set (snd (smtp_Send L srv opts env raw))"
proof (cases rule: deliver_cases [of L "wired L srv w" a c out acc v])
  case (held x)
  then have "a1 = a" using assms(1) by simp
  with assms(4) show ?thesis by simp
next
  case (handed sec raw' b)
  from applySendResult_row(6) [OF assms(2,3)] obtain t where t: "e = Some (TemporaryError t)" by blast
  have t': "transmit L (wired L srv w) b c out acc v sec raw' = ((rc, e), a1)" using handed(4) assms(1) by simp
  then have "smtp_log a1 = smtp_log b @ [(smtp_options b acc sec,
      \<lparr>env_From = a_Email acc, env_To = emails (v_To v) @ emails (v_Cc v) @ emails (v_Bcc v)\<rparr>, raw')]"
    using t by (auto simp: transmit_def Let_def case_prod_beta split: if_splits)
  moreover have "smtp_log b = smtp_log a" using handed(1) by (simp add: app_view_def)
  ultimately have x: "opts = smtp_options b acc sec" "raw = raw'"
      "env = \<lparr>env_From = a_Email acc, env_To = emails (v_To v) @ emails (v_Cc v) @ emails (v_Bcc v)\<rparr>"
    using assms(4) by simp_all
  have "fst (smtp_Send L srv opts env raw) = (rc, e)"
    using t' by (simp add: wired_def transmit_def Let_def case_prod_beta x prod_eq_iff)
  then obtain cmds where "smtp_Send L srv opts env raw = ((rc, e), cmds)" by (metis prod.collapse)
  with t show ?thesis
    by (cases rule: smtp_Send_cases [of L srv opts env raw])
       (use payload_result(2) [of srv raw] in \<open>auto simp: prod_eq_iff\<close>)
qed

theorem retry_only_unaccepted_witness:
  "\<exists>rc e a1 res a2 opts env raw.
     deliver sample_lib (wired sample_lib busy_server sample_io) policy_app (sample_ctx ''local'' [])
       sample_row sample_account sample_version = ((rc, e), a1) \<and>
     applySendResult (wired sample_lib busy_server sample_io) a1 (sample_ctx ''local'' []) sample_row
       (v_DraftID sample_version) rc e = (res, a2) \<and>
     o_Status res = OutboundRetryWait \<and> smtp_log a1 = [(opts, env, raw)] \<and>
     CmdEndData \<notin> set (snd (smtp_Send sample_lib busy_server opts env raw))"
proof -
  let ?w = "wired sample_lib busy_server sample_io" and ?c = "sample_ctx ''local'' []"
  have o: "o_DraftID sample_row = ''drf_1''" "o_Attempts sample_row = 0"
    by (simp_all add: sample_row_def new_outbound_def sample_draft_def)
  have st: "st policy_app = empty_store" by (simp add: policy_app_def sample_app_def)
  have rep: "replyContext (st policy_app) ?c (o_DraftID sample_row) = None"
    by (simp add: replyContext_def o st db_GetDraft_def empty_store_def)
  have pa: "policy_app = policy_app\<lparr>st := empty_store\<rparr>" by (simp add: policy_app_def sample_app_def)
  have del: "deliver sample_lib ?w policy_app ?c sample_row sample_account sample_version =
      transmit sample_lib ?w policy_app ?c sample_row sample_account sample_version None
        (buildMIME sample_lib ?w sample_account sample_version (o_MessageID sample_row) [] [])"
    using deliver_plain [of sample_lib policy_app sample_account sample_version ?c sample_row ?w]
      sample_sendable(1) sample_sendable(2) [of empty_store] rep pa
    by (simp add: sample_account_def sample_version_def)
  have snd: "smtp_send ?w (smtp_options b sample_account None) env raw =
      (no_receipt, Some (TemporaryError (''MAIL FROM: '' @ step_text (Reply 450 ''busy''))))" for b env raw
    by (simp add: wired_def smtp_Send_def smtp_connect_def smtp_authenticate_def busy_server_def
        sample_server_def sample_auth)
  obtain rc e a1 where d: "deliver sample_lib ?w policy_app ?c sample_row sample_account sample_version = ((rc, e), a1)"
    by (metis prod.collapse)
  have r: "rc = no_receipt" "e = Some (TemporaryError (''MAIL FROM: '' @ step_text (Reply 450 ''busy'')))"
    "\<exists>opts env raw. smtp_log a1 = [(opts, env, raw)]" "cfg a1 = sample_cfg" "smtp_log policy_app = []"
    using del d by (auto simp: transmit_def snd policy_app_def sample_app_def)
  obtain res a2 where ap: "applySendResult ?w a1 ?c sample_row (v_DraftID sample_version) rc e = (res, a2)"
    by (metis prod.collapse)
  have "max_retries a1 = 3" by (simp add: max_retries_def r sample_cfg_def)
  then have w: "o_Status res = OutboundRetryWait" using ap r(1,2) o by (auto simp: applySendResult_def Let_def)
  from r(3) obtain opts env raw where l: "smtp_log a1 = [(opts, env, raw)]" by blast
  from retry_only_unaccepted [OF d ap w, of opts env raw] d ap w l r(5) show ?thesis by auto
qed

text \<open>
  A reply to the end of the message is never temporary, whatever its code, and neither is any error
  of the authentication: a server that defers a message with 451 after the data, or a connection
  lost while the credentials are checked, ends the delivery for good.
\<close>

theorem deferred_message_fails:
  "sv_write srv m = None \<Longrightarrow> sv_close srv = Some (Reply 451 ''try again later'') \<Longrightarrow>
     \<exists>t. fst (smtp_payload srv m) = (no_receipt, Some (SysError t))"
  "smtp_connect L srv opts = (Some (AuthRefused t), cmds) \<Longrightarrow>
     \<exists>x. fst (smtp_Send L srv opts env m) = (no_receipt, Some (SysError x))"
proof -
  have "\<not> Contains (step_text (Reply 451 ''try again later'')) ''connection reset''" by code_simp
  then show "sv_write srv m = None \<Longrightarrow> sv_close srv = Some (Reply 451 ''try again later'') \<Longrightarrow>
     \<exists>t. fst (smtp_payload srv m) = (no_receipt, Some (SysError t))"
    by (simp add: smtp_payload_def)
qed (simp add: smtp_Send_def)

end
