(* ===== verification/Inbound_Error.thy ===== *)
theory Inbound_Error
  imports Inbound "HOL-Library.Stream"
begin

text \<open>
  The errors of the inbound adapters (\<open>src/internal/domain/inbound_error.go\<close>) and the connection
  they share: what a read answers, line by line, and what has been sent.  An error is a chain that
  ends in one fault; \<open>errors.As\<close> and \<open>errors.Is\<close> look along the chain.
\<close>

section \<open>Error chains\<close>

text \<open>
  The faults of the network that the sources tell apart, each with its text; \<open>OtherFault\<close> is any
  other one.
\<close>

datatype fault_kind =
    Cancelled | DNSNotFound | DNSFailed | TLSCertificate | TLSHandshake | DeadlineExceeded
  | ConnRefused | ConnReset | HostUnreachable | StreamClosed | OtherFault

text \<open>
  \<open>Negative\<close> is the refusal of the server, with its code and the line, where the error carries it; \<open>Note\<close> is an error
  with a prefix; \<open>Staged\<close> is \<open>InboundError\<close> and \<open>Credential\<close> is \<open>AuthError\<close>.
\<close>

datatype in_err =
    NetFault fault_kind string
  | Negative string "string option"
  | Plain string
  | Note string in_err
  | Staged string string string string int int in_err
  | Credential in_err

fun in_text :: "in_err \<Rightarrow> string" where
  "in_text (NetFault k m) = m"
| "in_text (Negative code line) =
     err_text (InboundRejected code) @ (case line of Some l \<Rightarrow> '': server: '' @ l | None \<Rightarrow> [])"
| "in_text (Plain m) = m"
| "in_text (Note p e) = p @ '': '' @ in_text e"
| "in_text (Staged stage cmd class code elapsed timeout e) = stage @ '': '' @ in_text e"
| "in_text (Credential e) = in_text e"

fun rejected_code :: "in_err \<Rightarrow> string option" where
  "rejected_code (Negative code line) = Some code"
| "rejected_code (NetFault k m) = None"
| "rejected_code (Plain m) = None"
| "rejected_code (Note p e) = rejected_code e"
| "rejected_code (Staged stage cmd class code elapsed timeout e) = rejected_code e"
| "rejected_code (Credential e) = rejected_code e"

fun fault_of :: "in_err \<Rightarrow> fault_kind" where
  "fault_of (NetFault k m) = k"
| "fault_of (Negative code line) = OtherFault"
| "fault_of (Plain m) = OtherFault"
| "fault_of (Note p e) = fault_of e"
| "fault_of (Staged stage cmd class code elapsed timeout e) = fault_of e"
| "fault_of (Credential e) = fault_of e"

fun has_stage :: "in_err \<Rightarrow> bool" where
  "has_stage (Staged stage cmd class code elapsed timeout e) = True"
| "has_stage (Note p e) = has_stage e"
| "has_stage (Credential e) = has_stage e"
| "has_stage e = False"

fun is_credential :: "in_err \<Rightarrow> bool" where
  "is_credential (Credential e) = True"
| "is_credential (Note p e) = is_credential e"
| "is_credential (Staged stage cmd class code elapsed timeout e) = is_credential e"
| "is_credential e = False"

definition text_class :: "lib \<Rightarrow> string \<Rightarrow> string" where
  "text_class L m =
     (let t = ToLower (uni_lower L) m
      in if Contains t ''connection refused'' \<or> Contains t ''actively refused'' then ''refused''
         else if Contains t ''connection reset'' \<or> Contains t ''forcibly closed'' then ''reset''
         else ''other'')"

definition ClassifyInbound :: "lib \<Rightarrow> in_err \<Rightarrow> string" where
  "ClassifyInbound L e =
     (if fault_of e = Cancelled then ''cancelled''
      else if rejected_code e \<noteq> None then ''rejected''
      else case fault_of e of
             DNSNotFound \<Rightarrow> ''dns_not_found''
           | DNSFailed \<Rightarrow> ''dns_failed''
           | TLSCertificate \<Rightarrow> ''tls_certificate''
           | TLSHandshake \<Rightarrow> ''tls_handshake''
           | DeadlineExceeded \<Rightarrow> ''timeout''
           | ConnRefused \<Rightarrow> ''refused''
           | ConnReset \<Rightarrow> ''reset''
           | HostUnreachable \<Rightarrow> ''unreachable''
           | StreamClosed \<Rightarrow> ''closed''
           | _ \<Rightarrow> text_class L (in_text e))"

definition WrapInbound :: "lib \<Rightarrow> string \<Rightarrow> string \<Rightarrow> in_err \<Rightarrow> int \<Rightarrow> int \<Rightarrow> in_err" where
  "WrapInbound L stage command e elapsed timeout =
     (if has_stage e then e
      else Staged stage command (ClassifyInbound L e)
             (case rejected_code e of Some code \<Rightarrow> code | None \<Rightarrow> []) elapsed timeout e)"

section \<open>The connection\<close>

text \<open>What one read answers within its deadline: a line without its ending, or a fault.\<close>

datatype net_event = Line string | Lost fault_kind string

text \<open>
  The environment of one connection: the dial, what the server sends before and after the switch
  to TLS, in lines or in bytes, the bytes found in the reader at that moment, the handshake, and, for
  the \<open>n\<close>-th command, the fault of its write and the time it took.
\<close>

record 'a net_env =
  ne_dial :: "(fault_kind \<times> string) option"
  ne_lines :: "bool \<Rightarrow> 'a stream"
  ne_buffered :: nat
  ne_handshake :: "(fault_kind \<times> string) option"
  ne_write :: "nat \<Rightarrow> (fault_kind \<times> string) option"
  ne_elapsed :: "nat \<Rightarrow> int"

text \<open>
  What has not yet been read, the lines sent, each with whether TLS was on, whether TLS is on, and
  whether the connection is open.
\<close>

record 'a net_conn =
  nc_in :: "'a stream"
  nc_sent :: "(bool \<times> string) list"
  nc_tls :: bool
  nc_open :: bool

definition closed_fault :: in_err where
  "closed_fault = NetFault StreamClosed ''use of closed network connection''"

definition net_close :: "'a net_conn \<Rightarrow> 'a net_conn" where
  "net_close cn = cn\<lparr>nc_open := False\<rparr>"

text \<open>\<open>textproto.Conn.ReadLine\<close>\<close>

definition net_read :: "net_event net_conn \<Rightarrow> (in_err + string) \<times> net_event net_conn" where
  "net_read cn =
     (if \<not> nc_open cn then (Inl closed_fault, cn)
      else case shd (nc_in cn) of
             Line l \<Rightarrow> (Inr l, cn\<lparr>nc_in := stl (nc_in cn)\<rparr>)
           | Lost k m \<Rightarrow> (Inl (NetFault k m), cn\<lparr>nc_in := stl (nc_in cn)\<rparr>))"

text \<open>\<open>textproto.Conn.PrintfLine\<close>; a write that fails may have sent the line all the same.\<close>

definition net_write :: "'a net_env \<Rightarrow> string \<Rightarrow> 'a net_conn \<Rightarrow> in_err option \<times> 'a net_conn" where
  "net_write env line cn =
     (if \<not> nc_open cn then (Some closed_fault, cn)
      else (map_option (\<lambda>(k, m). NetFault k m) (ne_write env (length (nc_sent cn))),
            cn\<lparr>nc_sent := nc_sent cn @ [(nc_tls cn, line)]\<rparr>))"

definition secondsOr :: "int \<Rightarrow> int \<Rightarrow> int" where
  "secondsOr v d = seconds (if v \<le> 0 then d else v)"

section \<open>Lemmas\<close>

lemma net_close_simps [simp]:
  "nc_in (net_close cn) = nc_in cn" "nc_sent (net_close cn) = nc_sent cn" "nc_tls (net_close cn) = nc_tls cn"
  "\<not> nc_open (net_close cn)"
  by (simp_all add: net_close_def)

lemma net_close_in: "net_close (cn\<lparr>nc_in := s\<rparr>) = (net_close cn)\<lparr>nc_in := s\<rparr>"
  by (cases cn) (simp add: net_close_def)

lemma net_read_keeps:
  "net_read cn = (r, cn') \<Longrightarrow> nc_sent cn' = nc_sent cn \<and> nc_tls cn' = nc_tls cn \<and> nc_open cn' = nc_open cn"
  by (auto simp: net_read_def split: if_splits net_event.splits)

lemma net_read_fault: "net_read cn = (Inl e, cn') \<Longrightarrow> rejected_code e = None \<and> \<not> has_stage e \<and> \<not> is_credential e"
  by (auto simp: net_read_def closed_fault_def split: if_splits net_event.splits)

text \<open>What a line adds to the log.\<close>

definition logged :: "'a net_conn \<Rightarrow> string \<Rightarrow> (bool \<times> string) list" where
  "logged cn l = (if nc_open cn then [(nc_tls cn, l)] else [])"

lemma net_write_keeps:
  "net_write env l cn = (e, cn') \<Longrightarrow> nc_in cn' = nc_in cn \<and> nc_tls cn' = nc_tls cn \<and>
     nc_open cn' = nc_open cn \<and> nc_sent cn' = nc_sent cn @ logged cn l"
  by (auto simp: net_write_def logged_def split: if_splits)

lemma net_write_fault:
  "net_write env l cn = (Some e, cn') \<Longrightarrow> rejected_code e = None \<and> \<not> has_stage e \<and> \<not> is_credential e"
  by (auto simp: net_write_def closed_fault_def split: if_splits)

lemma WrapInbound_chain [simp]:
  "rejected_code (WrapInbound L stage cmd e el t) = rejected_code e"
  "is_credential (WrapInbound L stage cmd e el t) = is_credential e"
  "has_stage (WrapInbound L stage cmd e el t)"
  by (simp_all add: WrapInbound_def)

section \<open>The length of a number\<close>

lemma length_dec: "n < 10 ^ k \<Longrightarrow> 0 < k \<Longrightarrow> length (dec n) \<le> k"
proof (induction k arbitrary: n)
  case (Suc k)
  show ?case
  proof (cases "n < 10")
    case False
    with Suc.prems have "n div 10 < 10 ^ k" "0 < k" by (auto simp: less_mult_imp_div_less mult.commute intro: Suc_leI gr0I)
    with Suc.IH show ?thesis using False by (subst dec.simps) simp
  qed (subst dec.simps, simp)
qed simp

lemma length_dec_ge: "10 ^ k \<le> n \<Longrightarrow> k < length (dec n)"
proof (induction k arbitrary: n)
  case (Suc k)
  then have n: "10 \<le> n" "10 ^ k \<le> n div 10"
    by (auto simp: less_eq_div_iff_mult_less_eq mult.commute intro: order_trans [OF _ Suc.prems])
  with Suc.IH [of "n div 10"] show ?case by (subst dec.simps) simp
qed simp

section \<open>What the application relies on\<close>

text \<open>
  The contract of an inbound dialer: with an encrypted account only the upgrade is sent in the clear,
  nothing follows it when the server has sent anything ahead of the handshake, and a failure of the
  credentials is a refusal by the server that is not about its load.
\<close>

locale inbound_dialer =
  fixes dial :: "lib \<Rightarrow> 'a net_env \<Rightarrow> InboundDialOptions \<Rightarrow> in_err option \<times> 'c"
    and sent :: "'c \<Rightarrow> (bool \<times> string) list"
    and upgrade :: string
  assumes clear_text: "dial L env opts = (e, c) \<Longrightarrow> do_Security opts \<in> {SecurityTLS, SecurityStartTLS} \<Longrightarrow>
      (False, l) \<in> set (sent c) \<Longrightarrow> l = upgrade"
    and injected: "dial L env opts = (e, c) \<Longrightarrow> do_Security opts = SecurityStartTLS \<Longrightarrow> 0 < ne_buffered env \<Longrightarrow>
      e \<noteq> None \<and> set (sent c) \<subseteq> {(False, upgrade)}"
    and refused: "dial L env opts = (Some x, c) \<Longrightarrow> is_credential x \<Longrightarrow>
      do_Username opts \<noteq> [] \<and> (\<exists>code. rejected_code x = Some code \<and> \<not> TemporaryRefusal code)"
begin

text \<open>A fault of the network is never held against the account.\<close>

lemma fault_is_no_refusal: "dial L env opts = (Some e, c) \<Longrightarrow> rejected_code e = None \<Longrightarrow> \<not> is_credential e"
  using refused by force

lemma load_is_no_refusal:
  "dial L env opts = (Some e, c) \<Longrightarrow> rejected_code e = Some code \<Longrightarrow> TemporaryRefusal code \<Longrightarrow> \<not> is_credential e"
  using refused by force

text \<open>Over any number of attempts, no line with a credential is ever sent in the clear.\<close>

lemma attempts_clear_text:
  assumes "do_Security opts \<in> {SecurityTLS, SecurityStartTLS}" "l \<noteq> upgrade"
  shows "(False, l) \<notin> (\<Union>i. set (sent (snd (dial L (envs i) opts))))"
proof -
  have "(False, l) \<notin> set (sent (snd (dial L (envs i) opts)))" for i
    using clear_text [of L "envs i" opts "fst (dial L (envs i) opts)" "snd (dial L (envs i) opts)" l] assms by auto
  then show ?thesis by simp
qed

end

end
