(* ===== verification/Pop3_Client.thy ===== *)
theory Pop3_Client
  imports Inbound_Error Sample_World
begin

text \<open>
  The POP3 client (\<open>src/internal/adapters/pop3/client.go\<close>): opening and authenticating a session,
  the commands, and the multi-line responses.  The server is the stream of lines it sends; a loop
  over it that may not end is a partial function, whose value is \<open>None\<close> when it does not return.
\<close>

type_synonym pop_conn = "net_event net_conn"
type_synonym pop_env = "net_event net_env"

section \<open>Commands\<close>

definition commandStage :: "lib \<Rightarrow> string \<Rightarrow> string \<times> string" where
  "commandStage L fmt =
     (let verb = (case Fields fmt of [] \<Rightarrow> [] | f # _ \<Rightarrow> ToUpper (uni_upper L) f)
      in (if verb \<in> {''USER'', ''PASS'', ''APOP'', ''AUTH''} then ''login''
          else if verb = ''STLS'' then ''starttls''
          else if verb \<in> {''STAT'', ''LIST'', ''UIDL''} then ''enumerate''
          else if verb = ''QUIT'' then ''logout'' else ''fetch'', verb))"

definition readResponse :: "lib \<Rightarrow> pop_conn \<Rightarrow> (in_err + string) \<times> pop_conn" where
  "readResponse L cn =
     (case net_read cn of
        (Inl e, cn') \<Rightarrow> (Inl e, cn')
      | (Inr line, cn') \<Rightarrow>
          (if \<not> HasPrefix line ''+OK'' then (Inl (Negative (InboundResponseCode L line) (Some line)), cn')
           else (Inr line, cn')))"

text \<open>The greeting differs from a response only by its deadline.\<close>

definition readGreeting :: "lib \<Rightarrow> pop_conn \<Rightarrow> (in_err + string) \<times> pop_conn" where
  "readGreeting L cn = readResponse L cn"

text \<open>\<open>cmd\<close> with the format and the line it gives; \<open>t\<close> is the time allowed for a command.\<close>

definition pop_cmd ::
  "lib \<Rightarrow> pop_env \<Rightarrow> int \<Rightarrow> string \<Rightarrow> string \<Rightarrow> pop_conn \<Rightarrow> (in_err + string) \<times> pop_conn" where
  "pop_cmd L env t fmt line cn =
     (let (stage, verb) = commandStage L fmt; el = ne_elapsed env (length (nc_sent cn))
      in case net_write env line cn of
           (Some e, cn') \<Rightarrow> (Inl (WrapInbound L stage verb e el t), cn')
         | (None, cn') \<Rightarrow>
             (case readResponse L cn' of
                (Inl e, cn'') \<Rightarrow> (Inl (WrapInbound L stage verb e el t), cn'')
              | (Inr l, cn'') \<Rightarrow> (Inr l, cn'')))"

section \<open>Opening a session\<close>

definition loginFailure :: "string \<Rightarrow> in_err \<Rightarrow> in_err" where
  "loginFailure verb e =
     (case rejected_code e of
        Some code \<Rightarrow> if \<not> TemporaryRefusal code then Credential (Note (verb @ '' rejected'') e) else Note verb e
      | None \<Rightarrow> Note verb e)"

definition connectFailure :: "lib \<Rightarrow> in_err \<Rightarrow> int \<Rightarrow> int \<Rightarrow> in_err" where
  "connectFailure L e elapsed timeout =
     Staged (if ClassifyInbound L e \<in> {''tls_certificate'', ''tls_handshake''} then ''tls_handshake'' else ''tcp_connect'')
       [] (ClassifyInbound L e) [] elapsed timeout (Note ''pop3 connect'' e)"

text \<open>\<open>STLS\<close>: the upgrade is refused when the server sent anything ahead of the handshake.\<close>

definition pop_starttls ::
  "lib \<Rightarrow> pop_env \<Rightarrow> int \<Rightarrow> pop_conn \<Rightarrow> in_err option \<times> pop_conn" where
  "pop_starttls L env t cn =
     (let el = ne_elapsed env (length (nc_sent cn))
      in case pop_cmd L env t ''STLS'' ''STLS'' cn of
           (Inl e, cn') \<Rightarrow> (Some (Note ''STLS'' e), net_close cn')
         | (Inr _, cn') \<Rightarrow>
             if ne_buffered env > 0
             then (let refused = Plain (''STLS: server sent '' @ dec (ne_buffered env) @ '' bytes before TLS handshake'')
                   in (Some (Staged ''starttls'' ''STLS'' (ClassifyInbound L refused) [] el t refused), net_close cn'))
             else case ne_handshake env of
                    Some (k, m) \<Rightarrow>
                      (Some (Staged ''tls_handshake'' ''STLS'' (ClassifyInbound L (NetFault k m)) [] el t
                               (Note ''STLS handshake'' (NetFault k m))), net_close cn')
                  | None \<Rightarrow> (None, cn'\<lparr>nc_in := ne_lines env True, nc_tls := True\<rparr>))"

definition pop_login ::
  "lib \<Rightarrow> pop_env \<Rightarrow> int \<Rightarrow> InboundDialOptions \<Rightarrow> pop_conn \<Rightarrow> in_err option \<times> pop_conn" where
  "pop_login L env t opts cn =
     (if do_Username opts = [] then (None, cn)
      else case pop_cmd L env t ''USER %s'' (''USER '' @ do_Username opts) cn of
             (Inl e, cn') \<Rightarrow> (Some (loginFailure ''USER'' e), net_close cn')
           | (Inr _, cn') \<Rightarrow>
               (let pass = (case do_Password opts of Some p \<Rightarrow> p | None \<Rightarrow> [])
                in case pop_cmd L env t ''PASS %s'' (''PASS '' @ pass) cn' of
                     (Inl e, cn'') \<Rightarrow> (Some (loginFailure ''PASS'' e), net_close cn'')
                   | (Inr _, cn'') \<Rightarrow> (None, cn'')))"

text \<open>A failed dial leaves no connection, which is a closed one here.\<close>

definition pop_Dial :: "lib \<Rightarrow> pop_env \<Rightarrow> InboundDialOptions \<Rightarrow> in_err option \<times> pop_conn" where
  "pop_Dial L env opts =
     (let tls = (do_Security opts = SecurityTLS);
          cn = \<lparr>nc_in = ne_lines env tls, nc_sent = [], nc_tls = tls, nc_open = True\<rparr>;
          connectTO = secondsOr (do_ConnectTimeoutSec opts) 15;
          t = secondsOr (do_CommandTimeoutSec opts) 60
      in case do_Security opts of
           SecurityOther s \<Rightarrow> (Some (Plain (''unknown security mode '' @ go_quote L s)), net_close cn)
         | _ \<Rightarrow>
             (case ne_dial env of
                Some (k, m) \<Rightarrow> (Some (connectFailure L (NetFault k m) (ne_elapsed env 0) connectTO), net_close cn)
              | None \<Rightarrow>
                  (case readGreeting L cn of
                     (Inl e, cn') \<Rightarrow>
                       (Some (WrapInbound L ''greeting'' [] (Note ''pop3 greeting'' e) (ne_elapsed env 0) t), net_close cn')
                   | (Inr _, cn') \<Rightarrow>
                       (if do_Security opts = SecurityStartTLS
                        then (case pop_starttls L env t cn' of
                                (Some e, cn'') \<Rightarrow> (Some e, cn'')
                              | (None, cn'') \<Rightarrow> pop_login L env t opts cn'')
                        else pop_login L env t opts cn'))))"

section \<open>Multi-line responses\<close>

definition maxListBytes :: int where "maxListBytes = 32 * 2 ^ 20"

definition listLineOverhead :: int where "listLineOverhead = 2 + 16"

partial_function (option) readList ::
  "string list \<Rightarrow> int \<Rightarrow> pop_conn \<Rightarrow> ((in_err + string list) \<times> pop_conn) option" where
  "readList lines charged cn =
     (case net_read cn of
        (Inl e, cn') \<Rightarrow> Some (Inl e, cn')
      | (Inr line, cn') \<Rightarrow>
          if line = ''.'' then Some (Inr lines, cn')
          else (let charged' = charged + int (length line) + listLineOverhead
                in if charged' > maxListBytes
                   then Some (Inl (Plain (''pop3 multi-line response exceeds '' @ fmt_d maxListBytes @ '' bytes'')), net_close cn')
                   else readList (lines @ [TrimPrefix line ''.'']) charged' cn'))"

definition unstuff :: "string \<Rightarrow> string" where
  "unstuff line = (if length line > 1 \<and> hd line = CHR ''.'' then tl line else line)"

partial_function (option) retrBody ::
  "string \<Rightarrow> pop_conn \<Rightarrow> ((in_err + string) \<times> pop_conn) option" where
  "retrBody buf cn =
     (case net_read cn of
        (Inl e, cn') \<Rightarrow> Some (Inl e, cn')
      | (Inr line, cn') \<Rightarrow>
          if line = ''.'' then Some (Inr buf, cn')
          else retrBody (buf @ unstuff line @ [CHR 0x0D, CHR 0x0A]) cn')"

section \<open>The session\<close>

text \<open>
  \<open>fmt.Sscanf\<close> with \<open>%d\<close>: leading spaces, an optional sign and decimal digits, within 64 bits;
  the rest of the text.  A space of the format matches at least one space of the text.
\<close>

definition scan_d :: "string \<Rightarrow> (int \<times> string) option" where
  "scan_d s =
     (let s' = strip space_runes s;
          sg = takeWhile (\<lambda>c. c \<in> {CHR ''+'', CHR ''-''}) (take 1 s');
          ds = takeWhile is_digit (drop (length sg) s');
          (n, good) = Atoi (sg @ ds)
      in if ds \<noteq> [] \<and> good then Some (n, drop (length sg + length ds) s') else None)"

definition scan_dd :: "string \<Rightarrow> (int \<times> int) option" where
  "scan_dd s =
     (case scan_d s of
        None \<Rightarrow> None
      | Some (n, r) \<Rightarrow>
          if strip space_runes r = r then None
          else (case scan_d r of None \<Rightarrow> None | Some (m, _) \<Rightarrow> Some (n, m)))"

definition list_entry :: "string \<Rightarrow> RemoteMessage option" where
  "list_entry l = map_option (\<lambda>(n, size). \<lparr>rm_Number = n, rm_UIDL = [], rm_Size = size\<rparr>) (scan_dd l)"

text \<open>\<open>strings.SplitN(s, " ", 2)\<close> gives two parts when the text has a space.\<close>

definition uidl_entry :: "string \<Rightarrow> RemoteMessage option" where
  "uidl_entry l =
     (let s = TrimSpace l; a = takeWhile (\<lambda>c. c \<noteq> CHR '' '') s; b = drop (length a) s
      in if b = [] then None
         else case Atoi a of
                (n, good) \<Rightarrow> if good then Some \<lparr>rm_Number = n, rm_UIDL = TrimSpace (tl b), rm_Size = 0\<rparr> else None)"

definition pop_enumerate ::
  "lib \<Rightarrow> pop_env \<Rightarrow> int \<Rightarrow> string \<Rightarrow> (string \<Rightarrow> RemoteMessage option) \<Rightarrow> pop_conn
     \<Rightarrow> ((in_err + RemoteMessage list) \<times> pop_conn) option" where
  "pop_enumerate L env t verb entry cn =
     (case pop_cmd L env t verb verb cn of
        (Inl e, cn') \<Rightarrow> Some (Inl e, cn')
      | (Inr _, cn') \<Rightarrow>
          (let el = ne_elapsed env (length (nc_sent cn'))
           in map_option (\<lambda>(r, cn''). (case r of
                  Inl e \<Rightarrow> Inl (WrapInbound L ''enumerate'' verb e el t)
                | Inr lines \<Rightarrow> Inr (List.map_filter entry lines), cn'')) (readList [] 0 cn')))"

definition pop_List :: "lib \<Rightarrow> pop_env \<Rightarrow> int \<Rightarrow> pop_conn \<Rightarrow> ((in_err + RemoteMessage list) \<times> pop_conn) option" where
  "pop_List L env t cn = pop_enumerate L env t ''LIST'' list_entry cn"

definition pop_UIDL :: "lib \<Rightarrow> pop_env \<Rightarrow> int \<Rightarrow> pop_conn \<Rightarrow> ((in_err + RemoteMessage list) \<times> pop_conn) option" where
  "pop_UIDL L env t cn = pop_enumerate L env t ''UIDL'' uidl_entry cn"

definition pop_body ::
  "lib \<Rightarrow> pop_env \<Rightarrow> int \<Rightarrow> string \<Rightarrow> string \<Rightarrow> string \<Rightarrow> pop_conn \<Rightarrow> ((in_err + string) \<times> pop_conn) option" where
  "pop_body L env t verb fmt line cn =
     (case pop_cmd L env t fmt line cn of
        (Inl e, cn') \<Rightarrow> Some (Inl e, cn')
      | (Inr _, cn') \<Rightarrow>
          (let el = ne_elapsed env (length (nc_sent cn'))
           in map_option (\<lambda>(r, cn''). (case r of
                  Inl e \<Rightarrow> Inl (WrapInbound L ''fetch'' verb e el t) | Inr body \<Rightarrow> Inr body, cn'')) (retrBody [] cn')))"

definition pop_Retrieve :: "lib \<Rightarrow> pop_env \<Rightarrow> int \<Rightarrow> int \<Rightarrow> pop_conn \<Rightarrow> ((in_err + string) \<times> pop_conn) option" where
  "pop_Retrieve L env t number cn = pop_body L env t ''RETR'' ''RETR %d'' (''RETR '' @ fmt_d number) cn"

definition pop_Top :: "lib \<Rightarrow> pop_env \<Rightarrow> int \<Rightarrow> int \<Rightarrow> int \<Rightarrow> pop_conn \<Rightarrow> ((in_err + string) \<times> pop_conn) option" where
  "pop_Top L env t number lines cn =
     pop_body L env t ''TOP'' ''TOP %d %d'' (''TOP '' @ fmt_d number @ '' '' @ fmt_d lines) cn"

definition pop_Delete :: "lib \<Rightarrow> pop_env \<Rightarrow> int \<Rightarrow> int \<Rightarrow> pop_conn \<Rightarrow> in_err option \<times> pop_conn" where
  "pop_Delete L env t number cn =
     (case pop_cmd L env t ''DELE %d'' (''DELE '' @ fmt_d number) cn of
        (Inl e, cn') \<Rightarrow> (Some e, cn') | (Inr _, cn') \<Rightarrow> (None, cn'))"

definition pop_Quit :: "lib \<Rightarrow> pop_env \<Rightarrow> int \<Rightarrow> pop_conn \<Rightarrow> in_err option \<times> pop_conn" where
  "pop_Quit L env t cn =
     (case pop_cmd L env t ''QUIT'' ''QUIT'' cn of
        (Inl e, cn') \<Rightarrow> (Some e, net_close cn') | (Inr _, cn') \<Rightarrow> (None, net_close cn'))"

section \<open>Dot stuffing\<close>

text \<open>What a server sends for a line of a multi-line response, and for the whole response.\<close>

definition stuff :: "string \<Rightarrow> string" where
  "stuff l = (if l \<noteq> [] \<and> hd l = CHR ''.'' then CHR ''.'' # l else l)"

definition response :: "string list \<Rightarrow> net_event stream \<Rightarrow> net_event stream" where
  "response ls rest = shift (map (Line \<circ> stuff) ls) (SCons (Line ''.'') rest)"

lemma stuff_not_dot [simp]: "stuff l \<noteq> ''.''"
  by (cases l) (auto simp: stuff_def)

lemma TrimPrefix_stuff [simp]: "TrimPrefix (stuff l) ''.'' = l"
  by (cases l) (auto simp: stuff_def TrimPrefix_def)

lemma unstuff_stuff [simp]: "unstuff (stuff l) = l"
  by (cases l) (auto simp: stuff_def unstuff_def)

lemma response_simps [simp]:
  "shd (response [] rest) = Line ''.''" "stl (response [] rest) = rest"
  "shd (response (l # ls) rest) = Line (stuff l)" "stl (response (l # ls) rest) = response ls rest"
  by (simp_all add: response_def)

section \<open>Reading a listing\<close>

definition charge :: "string \<Rightarrow> int" where
  "charge l = int (length l) + listLineOverhead"

lemma charge_min: "18 \<le> charge l"
  by (simp add: charge_def listLineOverhead_def)

lemma readList_Line:
  assumes "nc_open cn" "shd (nc_in cn) = Line l" "l \<noteq> ''.''"
  shows "readList acc charged cn =
    (if charged + charge l > maxListBytes
     then Some (Inl (Plain (''pop3 multi-line response exceeds '' @ fmt_d maxListBytes @ '' bytes'')),
            net_close (cn\<lparr>nc_in := stl (nc_in cn)\<rparr>))
     else readList (acc @ [TrimPrefix l ''.'']) (charged + charge l) (cn\<lparr>nc_in := stl (nc_in cn)\<rparr>))"
  using assms by (subst readList.simps) (simp add: net_read_def charge_def add.assoc)

lemma readList_too_long:
  assumes "nc_open cn" "nc_in cn = response ls rest" "charged + sum_list (map (charge \<circ> stuff) ls) > maxListBytes"
    and "charged \<le> maxListBytes"
  shows "\<exists>e cn'. readList acc charged cn = Some (Inl e, cn')"
  using assms
proof (induction ls arbitrary: acc charged cn)
  case (Cons l ls)
  show ?case
  proof (cases "charged + charge (stuff l) > maxListBytes")
    case True
    then show ?thesis using Cons.prems(1,2) readList_Line [of cn "stuff l" acc charged] by simp
  next
    case False
    let ?cn = "cn\<lparr>nc_in := response ls rest\<rparr>"
    have "\<exists>e cn'. readList (acc @ [l]) (charged + charge (stuff l)) ?cn = Some (Inl e, cn')"
      using Cons.prems False by (intro Cons.IH) simp_all
    with False show ?thesis using Cons.prems(1,2) readList_Line [of cn "stuff l" acc charged] by simp
  qed
qed simp

lemma readList_response:
  assumes "nc_open cn" "nc_in cn = response ls rest" "charged + sum_list (map (charge \<circ> stuff) ls) \<le> maxListBytes"
  shows "readList acc charged cn = Some (Inr (acc @ ls), cn\<lparr>nc_in := rest\<rparr>)"
  using assms
proof (induction ls arbitrary: acc charged cn)
  case Nil
  then show ?case by (subst readList.simps) (simp add: net_read_def)
next
  case (Cons l ls)
  have "0 \<le> sum_list (map (charge \<circ> stuff) ls)"
    using charge_min by (auto intro!: sum_list_nonneg simp: order_trans [OF _ charge_min])
  with Cons.prems(3) have "charged + charge (stuff l) \<le> maxListBytes" by (simp add: comp_def)
  then have "readList acc charged cn = readList (acc @ [l]) (charged + charge (stuff l)) (cn\<lparr>nc_in := response ls rest\<rparr>)"
    using Cons.prems(1,2) readList_Line [of cn "stuff l" acc charged] by simp
  also have "\<dots> = Some (Inr ((acc @ [l]) @ ls), cn\<lparr>nc_in := response ls rest\<rparr>\<lparr>nc_in := rest\<rparr>)"
    using Cons.prems by (intro Cons.IH) simp_all
  finally show ?case by simp
qed

text \<open>Every answer of the server leads to a result, after a bounded number of reads.\<close>

definition read_result ::
  "string list \<Rightarrow> int \<Rightarrow> pop_conn \<Rightarrow> (in_err + string list) \<Rightarrow> pop_conn \<Rightarrow> bool" where
  "read_result acc charged cn r cn' \<longleftrightarrow>
     (\<exists>n. nc_in cn' = sdrop n (nc_in cn) \<and> charged + 18 * int n \<le> maxListBytes + 18) \<and>
     nc_sent cn' = nc_sent cn \<and>
     (\<forall>ls. r = Inr ls \<longrightarrow> (\<exists>new. ls = acc @ new \<and> charged + sum_list (map charge new) \<le> maxListBytes))"

lemma read_result_step:
  assumes "read_result (acc @ [TrimPrefix line ''.'']) (charged + charge line) (cn\<lparr>nc_in := stl (nc_in cn)\<rparr>) r cn'"
  shows "read_result acc charged cn r cn'"
proof -
  have a: "(\<exists>n. nc_in cn' = sdrop n (stl (nc_in cn)) \<and> charged + charge line + 18 * int n \<le> maxListBytes + 18) \<and>
      nc_sent cn' = nc_sent cn \<and>
      (\<forall>ls. r = Inr ls \<longrightarrow> (\<exists>new. ls = (acc @ [TrimPrefix line ''.'']) @ new \<and>
         charged + charge line + sum_list (map charge new) \<le> maxListBytes))"
    using assms unfolding read_result_def by simp
  then obtain n where n: "nc_in cn' = sdrop n (stl (nc_in cn))"
    "charged + charge line + 18 * int n \<le> maxListBytes + 18" by blast
  note s = a [THEN conjunct2, THEN conjunct1] and g = a [THEN conjunct2, THEN conjunct2, rule_format]
  have 1: "nc_in cn' = sdrop (Suc n) (nc_in cn)" "charged + 18 * int (Suc n) \<le> maxListBytes + 18"
    using n charge_min [of line] by simp_all
  have le: "charge (TrimPrefix line ''.'') \<le> charge line" by (simp add: TrimPrefix_def charge_def)
  have "\<exists>new. ls = acc @ new \<and> charged + sum_list (map charge new) \<le> maxListBytes" if r: "r = Inr ls" for ls
  proof -
    from g [OF r] obtain new where x: "ls = (acc @ [TrimPrefix line ''.'']) @ new"
      "charged + charge line + sum_list (map charge new) \<le> maxListBytes" by blast
    with le show ?thesis by (intro exI [of _ "TrimPrefix line ''.'' # new"]) simp
  qed
  with 1 s show ?thesis unfolding read_result_def by blast
qed

lemma readList_returns:
  assumes "charged \<le> maxListBytes"
  shows "\<exists>r cn'. readList acc charged cn = Some (r, cn') \<and> read_result acc charged cn r cn'"
  using assms
proof (induction "nat (maxListBytes - charged)" arbitrary: acc charged cn rule: less_induct)
  case less
  have now: "read_result acc charged cn r (cn'\<lparr>nc_in := sdrop n (nc_in cn)\<rparr>)"
    if "n \<le> 1" "(\<forall>x. r \<noteq> Inr x) \<or> r = Inr acc" "nc_sent cn' = nc_sent cn" for r n cn'
    using that less.prems by (auto simp: read_result_def intro!: exI [of _ n])
  note unfold = readList.simps [of acc charged cn]
  show ?case
  proof (cases "nc_open cn")
    case False
    with now [of 0 "Inl closed_fault" cn] unfold show ?thesis by (simp add: net_read_def)
  next
    case opn: True
    show ?thesis
    proof (cases "shd (nc_in cn)")
      case (Lost k m)
      with opn now [of 1 "Inl (NetFault k m)" cn] unfold show ?thesis by (simp add: net_read_def)
    next
      case (Line l)
      consider (fin) "l = ''.''" | (long) "l \<noteq> ''.''" "charged + charge l > maxListBytes"
        | (more) "l \<noteq> ''.''" "charged + charge l \<le> maxListBytes" by linarith
      then show ?thesis
      proof cases
        case fin
        with opn Line now [of 1 "Inr acc" cn] unfold show ?thesis by (simp add: net_read_def)
      next
        case long
        with readList_Line [OF opn Line, of acc charged]
          now [of 1 "Inl (Plain (''pop3 multi-line response exceeds '' @ fmt_d maxListBytes @ '' bytes''))" "net_close cn"]
        show ?thesis by (simp add: net_close_in)
      next
        case more
        let ?cn = "cn\<lparr>nc_in := stl (nc_in cn)\<rparr>"
        have "nat (maxListBytes - (charged + charge l)) < nat (maxListBytes - charged)"
          using more(2) charge_min [of l] by simp
        from less.hyps [OF this more(2), of "acc @ [TrimPrefix l ''.'']" ?cn]
        obtain r cn' where "readList (acc @ [TrimPrefix l ''.'']) (charged + charge l) ?cn = Some (r, cn')"
          "read_result (acc @ [TrimPrefix l ''.'']) (charged + charge l) ?cn r cn'" by blast
        with readList_Line [OF opn Line, of acc charged] more read_result_step show ?thesis by simp
      qed
    qed
  qed
qed

section \<open>Reading a body\<close>

lemma retrBody_response:
  assumes "nc_open cn" "nc_in cn = response ls rest"
  shows "retrBody buf cn = Some (Inr (buf @ concat (map (\<lambda>l. l @ [CHR 0x0D, CHR 0x0A]) ls)), cn\<lparr>nc_in := rest\<rparr>)"
  using assms
proof (induction ls arbitrary: buf cn)
  case Nil
  then show ?case by (subst retrBody.simps) (simp add: net_read_def)
next
  case (Cons l ls)
  have "retrBody buf cn = retrBody (buf @ l @ [CHR 0x0D, CHR 0x0A]) (cn\<lparr>nc_in := response ls rest\<rparr>)"
    using Cons.prems by (subst retrBody.simps) (simp add: net_read_def)
  also have "\<dots> = Some (Inr ((buf @ l @ [CHR 0x0D, CHR 0x0A]) @ concat (map (\<lambda>l. l @ [CHR 0x0D, CHR 0x0A]) ls)),
      cn\<lparr>nc_in := response ls rest\<rparr>\<lparr>nc_in := rest\<rparr>)"
    using Cons.prems by (intro Cons.IH) simp_all
  finally show ?case by simp
qed

lemma retrBody_endless:
  assumes "nc_open cn" "\<And>n. \<exists>l. nc_in cn !! n = Line l \<and> l \<noteq> ''.''"
  shows "retrBody buf cn = None"
proof (rule ccontr)
  assume "retrBody buf cn \<noteq> None"
  then obtain r where ret: "retrBody buf cn = Some r" by blast
  let ?P = "\<lambda>(buf :: string) cn r. \<not> (nc_open cn \<and> (\<forall>n. \<exists>l. nc_in cn !! n = Line l \<and> l \<noteq> ''.''))"
  have "?P buf cn r"
  proof (rule retrBody.raw_induct [where P = ?P, OF _ ret])
    fix f :: "string \<Rightarrow> pop_conn \<Rightarrow> ((in_err + string) \<times> pop_conn) option" and buf cn r
    assume IH: "\<And>buf cn r. f buf cn = Some r \<Longrightarrow> ?P buf cn r"
      and eq: "(case net_read cn of (Inl e, cn') \<Rightarrow> Some (Inl e, cn')
        | (Inr line, cn') \<Rightarrow> if line = ''.'' then Some (Inr buf, cn')
            else f (buf @ unstuff line @ [CHR 0x0D, CHR 0x0A]) cn') = Some r"
    show "?P buf cn r"
    proof
      assume a: "nc_open cn \<and> (\<forall>n. \<exists>l. nc_in cn !! n = Line l \<and> l \<noteq> ''.'')"
      then obtain l where "shd (nc_in cn) = Line l" "l \<noteq> ''.''" by (metis snth.simps(1))
      with a eq have "f (buf @ unstuff l @ [CHR 0x0D, CHR 0x0A]) (cn\<lparr>nc_in := stl (nc_in cn)\<rparr>) = Some r"
        by (simp add: net_read_def)
      from IH [OF this] a have "\<not> (\<forall>n. \<exists>l. stl (nc_in cn) !! n = Line l \<and> l \<noteq> ''.'')" by simp
      with a show False by (metis snth.simps(2))
    qed
  qed
  with assms show False by blast
qed

section \<open>Commands and sessions\<close>

lemma readResponse_keeps:
  "readResponse L cn = (r, cn') \<Longrightarrow> nc_sent cn' = nc_sent cn \<and> nc_tls cn' = nc_tls cn \<and> nc_open cn' = nc_open cn"
  by (auto simp: readResponse_def split: prod.splits sum.splits if_splits dest!: net_read_keeps)

lemma pop_cmd_keeps:
  "pop_cmd L env t fmt l cn = (r, cn') \<Longrightarrow> nc_sent cn' = nc_sent cn @ logged cn l \<and> nc_tls cn' = nc_tls cn \<and>
     nc_open cn' = nc_open cn"
  by (auto simp: pop_cmd_def Let_def split: option.splits sum.splits prod.splits
      dest!: net_write_keeps readResponse_keeps)

lemma pop_cmd_reads: "\<exists>n\<le>1. nc_in (snd (pop_cmd L env t fmt l cn)) = sdrop n (nc_in cn)"
proof -
  have r: "\<exists>n\<le>1. nc_in (snd (readResponse L c1)) = sdrop n (nc_in c1)" for c1
    by (auto simp: readResponse_def net_read_def split: net_event.split
        intro: exI [of _ "0 :: nat"] exI [of _ "1 :: nat"])
  obtain e c1 where w: "net_write env l cn = (e, c1)" by (cases "net_write env l cn")
  then have "nc_in c1 = nc_in cn" using net_write_keeps by blast
  with r [of c1] show ?thesis
    by (auto simp: pop_cmd_def Let_def w case_prod_beta split: option.splits sum.splits intro: exI [of _ "0 :: nat"])
qed

lemma pop_cmd_fault:
  "pop_cmd L env t fmt l cn = (Inl e, cn') \<Longrightarrow> \<not> is_credential e \<and>
     (rejected_code e \<noteq> None \<longrightarrow> nc_sent cn' = nc_sent cn @ [(nc_tls cn, l)])"
  by (auto simp: pop_cmd_def Let_def readResponse_def net_write_def net_read_def closed_fault_def
      split: option.splits sum.splits prod.splits if_splits net_event.splits)

lemma loginFailure_chain:
  "rejected_code (loginFailure v e) = rejected_code e"
  "\<not> is_credential e \<Longrightarrow>
     is_credential (loginFailure v e) = (\<exists>code. rejected_code e = Some code \<and> \<not> TemporaryRefusal code)"
  by (auto simp: loginFailure_def split: option.split)

lemma pop_cmd_ok:
  assumes "nc_open cn" "nc_in cn = SCons (Line ok) s" "HasPrefix ok ''+OK''" "ne_write env (length (nc_sent cn)) = None"
  shows "pop_cmd L env t fmt l cn = (Inr ok, cn\<lparr>nc_in := s, nc_sent := nc_sent cn @ [(nc_tls cn, l)]\<rparr>)"
  using assms by (simp add: pop_cmd_def net_write_def readResponse_def net_read_def case_prod_beta Let_def)

lemma pop_login_sent:
  "\<exists>new. nc_sent (snd (pop_login L env t opts cn)) = nc_sent cn @ map (\<lambda>l. (nc_tls cn, l)) new"
proof -
  obtain r c1 where u: "pop_cmd L env t ''USER %s'' (''USER '' @ do_Username opts) cn = (r, c1)"
    by (cases "pop_cmd L env t ''USER %s'' (''USER '' @ do_Username opts) cn")
  let ?pass = "case do_Password opts of Some p \<Rightarrow> p | None \<Rightarrow> []"
  obtain r2 c2 where p: "pop_cmd L env t ''PASS %s'' (''PASS '' @ ?pass) c1 = (r2, c2)"
    by (cases "pop_cmd L env t ''PASS %s'' (''PASS '' @ ?pass) c1")
  have 1: "nc_sent c1 = nc_sent cn @ logged cn (''USER '' @ do_Username opts)" "nc_tls c1 = nc_tls cn" "nc_open c1 = nc_open cn"
    using pop_cmd_keeps [OF u] by blast+
  have 2: "nc_sent c2 = nc_sent c1 @ logged c1 (''PASS '' @ ?pass)"
    using pop_cmd_keeps [OF p] by blast
  have "nc_sent c1 = nc_sent cn @ map (\<lambda>l. (nc_tls cn, l)) (if nc_open cn then [''USER '' @ do_Username opts] else [])"
    using 1 by (simp add: logged_def)
  moreover have "nc_sent c2 = nc_sent cn @
      map (\<lambda>l. (nc_tls cn, l)) (if nc_open cn then [''USER '' @ do_Username opts, ''PASS '' @ ?pass] else [])"
    using 1 2 by (simp add: logged_def)
  moreover have "nc_sent (snd (pop_login L env t opts cn)) \<in> {nc_sent cn, nc_sent c1, nc_sent c2}"
    using u p by (auto simp: pop_login_def Let_def split: sum.split)
  ultimately show ?thesis by (elim insertE emptyE; metis append_Nil2 list.map(1))
qed

text \<open>Where a credential failure comes from.\<close>

lemma login_failure:
  assumes "pop_login L env t opts cn = (Some e, cn')" "is_credential e"
  shows "do_Username opts \<noteq> [] \<and> (\<exists>code. rejected_code e = Some code \<and> \<not> TemporaryRefusal code) \<and>
     (\<exists>tls l. last (nc_sent cn') = (tls, l) \<and> (l = ''USER '' @ do_Username opts \<or> HasPrefix l ''PASS ''))"
proof -
  let ?pass = "case do_Password opts of Some p \<Rightarrow> p | None \<Rightarrow> []"
  have ne: "do_Username opts \<noteq> []" using assms(1) by (auto simp: pop_login_def)
  have "\<exists>v x c c'' l fmt. e = loginFailure v x \<and> pop_cmd L env t fmt l c = (Inl x, c'') \<and> cn' = net_close c'' \<and>
      (l = ''USER '' @ do_Username opts \<or> l = ''PASS '' @ ?pass)"
    using assms(1) ne by (auto simp: pop_login_def Let_def split: prod.splits sum.splits) blast+
  then obtain v x c c'' l fmt where x: "e = loginFailure v x" "pop_cmd L env t fmt l c = (Inl x, c'')" "cn' = net_close c''"
      "l = ''USER '' @ do_Username opts \<or> l = ''PASS '' @ ?pass" by blast
  from pop_cmd_fault [OF x(2)] assms(2) x(1) obtain code where code: "rejected_code x = Some code" "\<not> TemporaryRefusal code"
    using loginFailure_chain(2) by blast
  with pop_cmd_fault [OF x(2)] have "last (nc_sent cn') = (nc_tls c, l)" by (simp add: x(3))
  with ne code x show ?thesis by (auto simp: loginFailure_chain(1) HasPrefix_def)
qed

lemma starttls_failure: "pop_starttls L env t cn = (Some e, cn') \<Longrightarrow> \<not> is_credential e"
  by (auto simp: pop_starttls_def Let_def split: prod.splits sum.splits if_splits option.splits dest!: pop_cmd_fault)

lemma pop_starttls_sent:
  "nc_sent (snd (pop_starttls L env t cn)) = nc_sent cn @ logged cn ''STLS''"
  "fst (pop_starttls L env t cn) = None \<Longrightarrow> nc_tls (snd (pop_starttls L env t cn)) \<and> ne_buffered env = 0"
proof -
  obtain r c1 where u: "pop_cmd L env t ''STLS'' ''STLS'' cn = (r, c1)"
    by (cases "pop_cmd L env t ''STLS'' ''STLS'' cn")
  have 1: "nc_sent c1 = nc_sent cn @ logged cn ''STLS''"
    using pop_cmd_keeps [OF u] by blast
  show "nc_sent (snd (pop_starttls L env t cn)) = nc_sent cn @ logged cn ''STLS''"
    "fst (pop_starttls L env t cn) = None \<Longrightarrow> nc_tls (snd (pop_starttls L env t cn)) \<and> ne_buffered env = 0"
    using 1 by (auto simp: pop_starttls_def u Let_def split: sum.splits option.splits if_splits)
qed

text \<open>A session that is opened has passed the greeting and, where asked for, the upgrade.\<close>

definition opened_conn :: "pop_env \<Rightarrow> InboundDialOptions \<Rightarrow> pop_conn" where
  "opened_conn env opts =
     (let tls = (do_Security opts = SecurityTLS)
      in \<lparr>nc_in = ne_lines env tls, nc_sent = [], nc_tls = tls, nc_open = True\<rparr>)"

lemma pop_Dial_cases:
  obtains (early) e cn where "pop_Dial L env opts = (Some e, cn)" "nc_sent cn = []" "\<not> is_credential e"
  | (upgrade) e cn cn' where "do_Security opts = SecurityStartTLS" "nc_sent cn = []" "\<not> nc_tls cn"
      "pop_starttls L env (secondsOr (do_CommandTimeoutSec opts) 60) cn = (Some e, cn')" "pop_Dial L env opts = (Some e, cn')"
  | (upgraded) cn cn' where "do_Security opts = SecurityStartTLS" "nc_sent cn = []" "\<not> nc_tls cn"
      "pop_starttls L env (secondsOr (do_CommandTimeoutSec opts) 60) cn = (None, cn')"
      "pop_Dial L env opts = pop_login L env (secondsOr (do_CommandTimeoutSec opts) 60) opts cn'"
  | (direct) cn where "do_Security opts \<noteq> SecurityStartTLS" "nc_sent cn = []" "nc_tls cn = (do_Security opts = SecurityTLS)"
      "pop_Dial L env opts = pop_login L env (secondsOr (do_CommandTimeoutSec opts) 60) opts cn"
proof -
  let ?t = "secondsOr (do_CommandTimeoutSec opts) 60" and ?c0 = "opened_conn env opts"
  have c0: "nc_sent ?c0 = []" "nc_tls ?c0 = (do_Security opts = SecurityTLS)"
    by (simp_all add: opened_conn_def Let_def)
  note D = pop_Dial_def [of L env opts, unfolded Let_def, folded opened_conn_def [of env opts, unfolded Let_def]]
  obtain g c1 where g: "readGreeting L ?c0 = (g, c1)" by (cases "readGreeting L ?c0")
  have c1: "nc_sent c1 = []" "nc_tls c1 = (do_Security opts = SecurityTLS)"
    using readResponse_keeps [OF g [unfolded readGreeting_def]] c0 by simp_all
  have bad: "\<not> is_credential x" if "g = Inl x" for x
    using g that by (auto simp: readGreeting_def readResponse_def split: prod.splits sum.splits if_splits dest: net_read_fault)
  show thesis
  proof (cases "\<exists>s. do_Security opts = SecurityOther s")
    case True
    then obtain s where "do_Security opts = SecurityOther s" by blast
    then have "pop_Dial L env opts = (Some (Plain (''unknown security mode '' @ go_quote L s)), net_close ?c0)"
      by (simp add: D)
    from early [OF this] c0 show thesis by simp
  next
    case sec: False
    show thesis
    proof (cases "ne_dial env")
      case (Some km)
      obtain k m where km: "km = (k, m)" by (cases km)
      have "pop_Dial L env opts =
          (Some (connectFailure L (NetFault k m) (ne_elapsed env 0) (secondsOr (do_ConnectTimeoutSec opts) 15)), net_close ?c0)"
        using Some sec by (cases "do_Security opts") (simp_all add: D km)
      from early [OF this] c0 show thesis by (simp add: connectFailure_def)
    next
      case dial: None
      show thesis
      proof (cases g)
        case (Inl x)
        have "pop_Dial L env opts =
            (Some (WrapInbound L ''greeting'' [] (Note ''pop3 greeting'' x) (ne_elapsed env 0) ?t), net_close c1)"
          using sec dial g Inl by (cases "do_Security opts") (simp_all add: D)
        from early [OF this] c1 bad [OF Inl] show thesis by simp
      next
        case (Inr y)
        note base = sec dial g Inr
        show thesis
        proof (cases "do_Security opts = SecurityStartTLS")
          case False
          with base have "pop_Dial L env opts = pop_login L env ?t opts c1" by (auto simp: D split: Security.split)
          with False c1 show thesis by (intro direct) auto
        next
          case st: True
          obtain e c2 where s: "pop_starttls L env ?t c1 = (e, c2)" by (cases "pop_starttls L env ?t c1")
          show thesis
          proof (cases e)
            case None
            with st base s have "pop_Dial L env opts = pop_login L env ?t opts c2" by (simp add: D)
            with None st c1 s show thesis by (intro upgraded [of c1 c2]) simp_all
          next
            case (Some x)
            with st base s have "pop_Dial L env opts = (Some x, c2)" by (simp add: D)
            with Some st c1 s show thesis by (intro upgrade [of c1 x c2]) simp_all
          qed
        qed
      qed
    qed
  qed
qed

lemma pop_Dial_clear:
  assumes "pop_Dial L env opts = (e, cn)" and "do_Security opts = SecurityTLS \<or> do_Security opts = SecurityStartTLS"
  shows "(\<forall>l. (False, l) \<in> set (nc_sent cn) \<longrightarrow> l = ''STLS'') \<and>
     (do_Security opts = SecurityStartTLS \<and> ne_buffered env > 0 \<longrightarrow>
        e \<noteq> None \<and> set (nc_sent cn) \<subseteq> {(False, ''STLS'')})"
proof (cases rule: pop_Dial_cases [of L env opts])
  case (early x c)
  with assms(1) have "e = Some x" "cn = c" by simp_all
  with early(2) show ?thesis by simp
next
  case (upgrade x c c')
  with assms(1) pop_starttls_sent(1) [of L env "secondsOr (do_CommandTimeoutSec opts) 60" c]
  show ?thesis by (auto simp: logged_def)
next
  case (upgraded c c')
  have t: "nc_tls c'" "ne_buffered env = 0" "nc_sent c' = logged c ''STLS''"
    using pop_starttls_sent [of L env "secondsOr (do_CommandTimeoutSec opts) 60" c] upgraded by auto
  have "pop_login L env (secondsOr (do_CommandTimeoutSec opts) 60) opts c' = (e, cn)"
    using upgraded(5) assms(1) by (rule trans [OF sym])
  from pop_login_sent [of L env "secondsOr (do_CommandTimeoutSec opts) 60" opts c', unfolded this snd_conv]
  obtain new where "nc_sent cn = nc_sent c' @ map (\<lambda>l. (nc_tls c', l)) new" by blast
  with t show ?thesis by (auto simp: logged_def)
next
  case (direct c)
  have "pop_login L env (secondsOr (do_CommandTimeoutSec opts) 60) opts c = (e, cn)"
    using direct(4) assms(1) by (rule trans [OF sym])
  from pop_login_sent [of L env "secondsOr (do_CommandTimeoutSec opts) 60" opts c, unfolded this snd_conv]
  obtain new where "nc_sent cn = nc_sent c @ map (\<lambda>l. (nc_tls c, l)) new" by blast
  with direct assms(2) show ?thesis by auto
qed

lemma pop_Dial_refused:
  assumes "pop_Dial L env opts = (Some e, cn)" and "is_credential e"
  shows "do_Username opts \<noteq> [] \<and> (\<exists>code. rejected_code e = Some code \<and> \<not> TemporaryRefusal code) \<and>
     (\<exists>tls l. last (nc_sent cn) = (tls, l) \<and> (l = ''USER '' @ do_Username opts \<or> HasPrefix l ''PASS ''))"
  using login_failure [of L env _ opts _ e cn] assms
  by (cases rule: pop_Dial_cases [of L env opts]) (auto dest: starttls_failure)

section \<open>The entries of a listing\<close>

definition uidl_line :: "RemoteMessage \<Rightarrow> string" where
  "uidl_line rm = fmt_d (rm_Number rm) @ '' '' @ rm_UIDL rm"

text \<open>The messages a conforming server lists: RFC 1939 allows unique-ids of 1 to 70 characters.\<close>

definition listable :: "RemoteMessage \<Rightarrow> bool" where
  "listable rm = (1 \<le> rm_Number rm \<and> rm_Number rm < 1000000 \<and> rm_Size rm = 0 \<and>
     rm_UIDL rm \<noteq> [] \<and> length (rm_UIDL rm) \<le> 70 \<and> list_all graphic (rm_UIDL rm))"

lemma digit_graphic: "is_digit c \<Longrightarrow> graphic c"
  by (simp add: is_digit_def graphic_def)

lemma not_graphic_space: "\<not> graphic (CHR '' '')"
  by (simp add: graphic_def byte_def)

lemma dec_graphic: "list_all graphic (dec n)"
  by (auto simp: list_all_iff dest: set_dec digit_graphic)

lemma uidl_entry_line:
  assumes "listable rm"
  shows "uidl_entry (uidl_line rm) = Some rm"
proof -
  let ?n = "fmt_d (rm_Number rm)" and ?u = "rm_UIDL rm"
  have n: "?n = dec (nat (rm_Number rm))" using assms by (simp add: fmt_d_def listable_def)
  have g: "c \<in> set ?n \<Longrightarrow> graphic c" "c \<in> set ?u \<Longrightarrow> graphic c" for c
    using assms dec_graphic [of "nat (rm_Number rm)"] by (auto simp: n listable_def list_all_iff)
  have ne: "?n \<noteq> []" "?u \<noteq> []" using assms by (simp_all add: n listable_def)
  have t: "TrimSpace (uidl_line rm) = uidl_line rm"
    using g ne by (intro TrimSpace_graphic) (simp add: uidl_line_def)
  have "takeWhile (\<lambda>c. c \<noteq> CHR '' '') (?n @ CHR '' '' # ?u) = ?n"
    using g(1) not_graphic_space by (intro takeWhile_tail [THEN trans]) (auto simp: takeWhile_eq_all_conv)
  then have w: "takeWhile (\<lambda>c. c \<noteq> CHR '' '') (uidl_line rm) = ?n" by (simp add: uidl_line_def)
  have u: "TrimSpace ?u = ?u" using g(2) ne by (intro TrimSpace_graphic) simp
  have a: "Atoi ?n = (rm_Number rm, True)"
    using assms by (intro Atoi_fmt_d) (simp_all add: listable_def max_int64_def)
  have "drop (length ?n) (uidl_line rm) = CHR '' '' # ?u" by (simp add: uidl_line_def)
  moreover have "\<not> length (uidl_line rm) \<le> length ?n" by (simp add: uidl_line_def)
  ultimately have "uidl_entry (uidl_line rm) = Some \<lparr>rm_Number = rm_Number rm, rm_UIDL = ?u, rm_Size = 0\<rparr>"
    by (simp add: uidl_entry_def t w Let_def a u)
  also have "\<dots> = Some rm" using assms by (cases rm) (simp add: listable_def)
  finally show ?thesis .
qed

lemma uidl_line_stuff: "listable rm \<Longrightarrow> stuff (uidl_line rm) = uidl_line rm"
proof -
  assume "listable rm"
  then have n: "fmt_d (rm_Number rm) = dec (nat (rm_Number rm))" by (simp add: fmt_d_def listable_def)
  have "is_digit (hd (dec k))" for k by (rule set_dec [OF hd_in_set]) simp
  moreover have "\<not> is_digit (CHR ''.'')" by (simp add: is_digit_def byte_def)
  ultimately have "hd (dec k) \<noteq> CHR ''.''" for k by metis
  then show ?thesis by (simp add: stuff_def uidl_line_def n)
qed

lemma charge_uidl_line: "listable rm \<Longrightarrow> charge (uidl_line rm) \<le> 95"
proof -
  assume l: "listable rm"
  then have "rm_Number rm < 1000000" by (simp add: listable_def)
  then have "nat (rm_Number rm) < 1000000" by linarith
  then have "nat (rm_Number rm) < 10 ^ 6" by simp
  then have "length (dec (nat (rm_Number rm))) \<le> 6" by (rule length_dec) simp
  then have "length (fmt_d (rm_Number rm)) \<le> 6" using l by (simp add: fmt_d_def listable_def)
  then show ?thesis using l by (simp add: charge_def uidl_line_def listLineOverhead_def listable_def)
qed

lemma sum_list_le: "(\<And>x. x \<in> set xs \<Longrightarrow> f x \<le> (b :: int)) \<Longrightarrow> sum_list (map f xs) \<le> int (length xs) * b"
  by (induction xs) (auto simp: algebra_simps intro: add_mono)

lemma sum_list_ge: "(\<And>x. x \<in> set xs \<Longrightarrow> (b :: int) \<le> f x) \<Longrightarrow> int (length xs) * b \<le> sum_list (map f xs)"
  by (induction xs) (auto simp: algebra_simps intro: add_mono)

lemma map_filter_Some: "(\<And>x. x \<in> set xs \<Longrightarrow> f (g x) = Some x) \<Longrightarrow> List.map_filter f (map g xs) = xs"
  by (induction xs) (simp_all add: List.map_filter_def)

lemma length_map_filter_le: "length (List.map_filter f xs) \<le> length xs"
  by (simp add: List.map_filter_def)

text \<open>An entry with the longest unique-id.\<close>

definition full_entry :: "nat \<Rightarrow> RemoteMessage" where
  "full_entry n = \<lparr>rm_Number = int n, rm_UIDL = replicate 70 (CHR ''u''), rm_Size = 0\<rparr>"

lemma full_entry_listable: "1 \<le> n \<Longrightarrow> n < 1000000 \<Longrightarrow> listable (full_entry n)"
  by (simp add: listable_def full_entry_def list_all_iff graphic_def byte_def)

lemma full_entry_charge: "10 ^ k \<le> n \<Longrightarrow> 90 + int k \<le> charge (uidl_line (full_entry n))"
  using length_dec_ge [of k n]
  by (simp add: charge_def uidl_line_def full_entry_def listLineOverhead_def fmt_d_def)

lemma full_entries_charge:
  assumes "100000 \<le> b" "b \<le> 1000000"
  shows "99999 * 90 + int (b - 100000) * 95 \<le> sum_list (map (charge \<circ> uidl_line) (map full_entry [1..<b]))"
proof -
  define a :: nat where "a = 100000"
  have "[1..<b] = [1..<a] @ [a..<b]" using assms(1) upt_add_eq_append [of 1 a "b - a"] by (simp add: a_def)
  moreover have "int (length [1..<a]) * 90 \<le> sum_list (map (\<lambda>n. charge (uidl_line (full_entry n))) [1..<a])"
    using full_entry_charge [of 0] by (intro sum_list_ge) auto
  moreover have "int (length [a..<b]) * 95 \<le> sum_list (map (\<lambda>n. charge (uidl_line (full_entry n))) [a..<b])"
    using full_entry_charge [of 5] by (intro sum_list_ge) (auto simp: a_def)
  ultimately have "int (a - 1) * 90 + int (b - a) * 95 \<le> sum_list (map (\<lambda>n. charge (uidl_line (full_entry n))) [1..<b])"
    by simp
  then show ?thesis by (simp add: a_def comp_def)
qed

section \<open>A small server\<close>

definition sample_net :: pop_env where
  "sample_net = \<lparr>ne_dial = None, ne_lines = (\<lambda>tls. sconst (Line (if tls then ''-ERR [AUTH] no'' else ''+OK''))),
     ne_buffered = 0, ne_handshake = None, ne_write = (\<lambda>_. None), ne_elapsed = (\<lambda>_. 0)\<rparr>"

definition sample_conn :: "net_event stream \<Rightarrow> pop_conn" where
  "sample_conn s = \<lparr>nc_in = SCons (Line ''+OK'') s, nc_sent = [], nc_tls = True, nc_open = True\<rparr>"

definition sample_dial :: InboundDialOptions where
  "sample_dial = \<lparr>do_Host = ''pop.corp.test'', do_Port = 110, do_Security = SecurityStartTLS,
     do_Username = ''kim'', do_Password = Some ''pw'', do_InsecureSkipVerify = False,
     do_ConnectTimeoutSec = 0, do_CommandTimeoutSec = 0, do_MaxMessageBytes = 0\<rparr>"

lemma sample_dial_fails:
  "\<exists>e cn. pop_Dial sample_lib sample_net sample_dial = (Some e, cn) \<and> is_credential e \<and>
     nc_sent cn = [(False, ''STLS''), (True, ''USER kim'')]"
proof -
  have c: "InboundResponseCode sample_lib ''-ERR [AUTH] no'' = ''AUTH''" by code_simp
  have t: "\<not> TemporaryRefusal ''AUTH''" by code_simp
  have v: "has_stage (WrapInbound L a b e el tt)" "rejected_code (WrapInbound L a b e el tt) = rejected_code e" for L a b e el tt
    by simp_all
  show ?thesis
    by (simp add: pop_Dial_def Let_def sample_dial_def sample_net_def readGreeting_def readResponse_def net_read_def
        HasPrefix_def pop_starttls_def pop_cmd_def net_write_def case_prod_beta pop_login_def loginFailure_def c t v)
qed

section \<open>Properties\<close>

text \<open>
  C29.  Whatever the server sends, and however long it sends it, an enumeration ends: after at most
  1864137 lines it has a result, and a list it returns has at most 1864135 messages.
\<close>

theorem enumeration_ends:
  "\<exists>r cn' n. pop_enumerate L env t verb entry cn = Some (r, cn') \<and> nc_in cn' = sdrop n (nc_in cn) \<and>
     n \<le> 1864137 \<and> (case r of Inl e \<Rightarrow> True | Inr ms \<Rightarrow> length ms \<le> 1864135)"
proof -
  obtain r c1 where c: "pop_cmd L env t verb verb cn = (r, c1)" by (cases "pop_cmd L env t verb verb cn")
  obtain k where k: "k \<le> 1" "nc_in c1 = sdrop k (nc_in cn)"
    using pop_cmd_reads [of L env t verb verb cn] c by auto
  show ?thesis
  proof (cases r)
    case (Inl e)
    with c k show ?thesis by (simp add: pop_enumerate_def) (rule exI [of _ k], simp)
  next
    case (Inr l)
    have m: "maxListBytes = 33554432" by (simp add: maxListBytes_def)
    obtain r2 c2 where r2: "readList [] 0 c1 = Some (r2, c2)" "read_result [] 0 c1 r2 c2"
      using readList_returns [of 0 "[]" c1] m by auto
    obtain n where n: "nc_in c2 = sdrop n (nc_in c1)" "18 * int n \<le> 33554450"
      using r2(2) by (auto simp: read_result_def m)
    have len: "length ls \<le> 1864135" if "r2 = Inr ls" for ls
    proof -
      have "sum_list (map charge ls) \<le> 33554432" using r2(2) that by (auto simp: read_result_def m)
      moreover have "int (length ls) * 18 \<le> sum_list (map charge ls)" by (rule sum_list_ge) (rule charge_min)
      ultimately show ?thesis by linarith
    qed
    let ?r = "case r2 of Inl e \<Rightarrow> Inl (WrapInbound L ''enumerate'' verb e (ne_elapsed env (length (nc_sent c1))) t)
        | Inr lines \<Rightarrow> Inr (List.map_filter entry lines)"
    have "pop_enumerate L env t verb entry cn = Some (?r, c2)"
      using c Inr r2(1) by (simp add: pop_enumerate_def Let_def)
    moreover have "nc_in c2 = sdrop (k + n) (nc_in cn)" using n(1) k(2) by (simp add: sdrop_add)
    moreover have "k + n \<le> 1864137" using k(1) n(2) by linarith
    moreover have "case ?r of Inl e \<Rightarrow> True | Inr ms \<Rightarrow> length ms \<le> 1864135"
      using len length_map_filter_le [of entry] by (cases r2) (auto intro: order_trans)
    ultimately show ?thesis by (intro exI conjI)
  qed
qed

text \<open>
  A maildrop of up to 353204 messages, as a conforming server lists it, is enumerated in full:
  every message with its number and its unique-id, in order, and the bytes after the listing are
  left for the next command.
\<close>

theorem uidl_lists_maildrop:
  assumes "nc_open cn" and "ne_write env (length (nc_sent cn)) = None" and "HasPrefix ok ''+OK''"
    and "nc_in cn = SCons (Line ok) (response (map uidl_line ms) rest)"
    and "list_all listable ms" and "length ms \<le> 353204"
  shows "pop_UIDL L env t cn = Some (Inr ms, cn\<lparr>nc_in := rest, nc_sent := nc_sent cn @ [(nc_tls cn, ''UIDL'')]\<rparr>)"
proof -
  let ?c1 = "cn\<lparr>nc_in := response (map uidl_line ms) rest, nc_sent := nc_sent cn @ [(nc_tls cn, ''UIDL'')]\<rparr>"
  note c = pop_cmd_ok [OF assms(1,4,3,2), of L t "''UIDL''" "''UIDL''"]
  have l: "listable rm" if "rm \<in> set ms" for rm using that assms(5) by (simp add: list_all_iff)
  have "sum_list (map (\<lambda>rm. charge (stuff (uidl_line rm))) ms) \<le> int (length ms) * 95"
    using l by (intro sum_list_le) (simp add: uidl_line_stuff charge_uidl_line)
  also have "\<dots> \<le> maxListBytes" using assms(6) by (simp add: maxListBytes_def)
  finally have "readList [] 0 ?c1 = Some (Inr ([] @ map uidl_line ms), ?c1\<lparr>nc_in := rest\<rparr>)"
    using assms(1) by (intro readList_response) (simp_all add: comp_def)
  moreover have "List.map_filter uidl_entry (map uidl_line ms) = ms"
    using l by (intro map_filter_Some uidl_entry_line)
  ultimately show ?thesis using c by (simp add: pop_UIDL_def pop_enumerate_def Let_def)
qed

theorem uidl_lists_maildrop_witness:
  "pop_UIDL sample_lib sample_net 60 (sample_conn (response (map uidl_line [full_entry 7]) (sconst (Line ''+OK'')))) =
     Some (Inr [full_entry 7], \<lparr>nc_in = sconst (Line ''+OK''), nc_sent = [(True, ''UIDL'')], nc_tls = True, nc_open = True\<rparr>)"
  using uidl_lists_maildrop [of "sample_conn (response (map uidl_line [full_entry 7]) (sconst (Line ''+OK'')))"
      sample_net "''+OK''" "[full_entry 7]" "sconst (Line ''+OK'')" sample_lib 60]
  by (simp add: sample_conn_def sample_net_def HasPrefix_def full_entry_listable)

text \<open>
  A retrieved message is the message the server sent: the lines come back with their endings,
  without the dot that the server put before a line that begins with one.
\<close>

theorem retrieve_returns_message:
  assumes "nc_open cn" and "ne_write env (length (nc_sent cn)) = None" and "HasPrefix ok ''+OK''"
    and "nc_in cn = SCons (Line ok) (response ls rest)"
  shows "pop_Retrieve L env t n cn = Some (Inr (concat (map (\<lambda>l. l @ [CHR 0x0D, CHR 0x0A]) ls)),
     cn\<lparr>nc_in := rest, nc_sent := nc_sent cn @ [(nc_tls cn, ''RETR '' @ fmt_d n)]\<rparr>)"
proof -
  let ?c1 = "cn\<lparr>nc_in := response ls rest, nc_sent := nc_sent cn @ [(nc_tls cn, ''RETR '' @ fmt_d n)]\<rparr>"
  have "retrBody [] ?c1 = Some (Inr ([] @ concat (map (\<lambda>l. l @ [CHR 0x0D, CHR 0x0A]) ls)), ?c1\<lparr>nc_in := rest\<rparr>)"
    using assms(1) by (intro retrBody_response) simp_all
  with pop_cmd_ok [OF assms(1,4,3,2), of L t "''RETR %d''" "''RETR '' @ fmt_d n"] show ?thesis
    by (simp add: pop_Retrieve_def pop_body_def Let_def)
qed

theorem retrieve_returns_message_witness:
  "fst (the (pop_Retrieve sample_lib sample_net 60 1 (sample_conn (response [''.a'', ''''] (sconst (Line ''+OK'')))))) =
     Inr (''.a'' @ [CHR 0x0D, CHR 0x0A, CHR 0x0D, CHR 0x0A])"
  using retrieve_returns_message [of "sample_conn (response [''.a'', ''''] (sconst (Line ''+OK'')))"
      sample_net "''+OK''" "[''.a'', '''']" "sconst (Line ''+OK'')" sample_lib 60 1]
  by (simp add: sample_conn_def sample_net_def HasPrefix_def)

text \<open>
  C30.  With an encrypted account no credential leaves before TLS is on: the only command sent in the
  clear is the upgrade itself, and when the server has sent anything ahead of the handshake the
  session is refused without another command.
\<close>

theorem credentials_wait_for_tls:
  assumes "pop_Dial L env opts = (e, cn)" and "do_Security opts = SecurityTLS \<or> do_Security opts = SecurityStartTLS"
  shows "(\<forall>l. (False, l) \<in> set (nc_sent cn) \<longrightarrow> l = ''STLS'') \<and>
     (do_Security opts = SecurityStartTLS \<and> ne_buffered env > 0 \<longrightarrow>
        e \<noteq> None \<and> set (nc_sent cn) \<subseteq> {(False, ''STLS'')})"
  using pop_Dial_clear [OF assms] .

theorem credentials_wait_for_tls_witness:
  "\<exists>e cn. pop_Dial sample_lib sample_net sample_dial = (e, cn) \<and> (True, ''USER kim'') \<in> set (nc_sent cn) \<and>
     (\<forall>l. (False, l) \<in> set (nc_sent cn) \<longrightarrow> l = ''STLS'')"
proof -
  obtain e cn where d: "pop_Dial sample_lib sample_net sample_dial = (Some e, cn)"
    "nc_sent cn = [(False, ''STLS''), (True, ''USER kim'')]" using sample_dial_fails by blast
  have "do_Security sample_dial = SecurityTLS \<or> do_Security sample_dial = SecurityStartTLS"
    by (simp add: sample_dial_def)
  from credentials_wait_for_tls [OF d(1) this] d show ?thesis by auto
qed

text \<open>
  An account is parked as having a wrong password only when the server refused the user or the
  password, with a code that is not about its load: no network fault and no temporary refusal is
  ever reported as a credential failure.
\<close>

theorem credential_failure_is_refusal:
  assumes "pop_Dial L env opts = (Some e, cn)" and "is_credential e"
  shows "do_Username opts \<noteq> [] \<and> (\<exists>code. rejected_code e = Some code \<and> \<not> TemporaryRefusal code) \<and>
     (\<exists>tls l. last (nc_sent cn) = (tls, l) \<and> (l = ''USER '' @ do_Username opts \<or> HasPrefix l ''PASS ''))"
  using pop_Dial_refused [OF assms] .

theorem credential_failure_is_refusal_witness:
  "\<exists>e cn code. pop_Dial sample_lib sample_net sample_dial = (Some e, cn) \<and> rejected_code e = Some code \<and>
     \<not> TemporaryRefusal code"
  using sample_dial_fails credential_failure_is_refusal [of sample_lib sample_net sample_dial] by blast

text \<open>
  The body of a message has no bound: a server that sends lines for ever, and never the final dot,
  keeps the client reading for ever, unlike an enumeration.
\<close>

theorem retrieve_unbounded:
  assumes "nc_open cn" "nc_in cn = SCons (Line ''+OK'') (sconst (Line ''x''))" "ne_write env (length (nc_sent cn)) = None"
  shows "pop_Retrieve L env t n cn = None"
proof -
  let ?c1 = "cn\<lparr>nc_in := sconst (Line ''x''), nc_sent := nc_sent cn @ [(nc_tls cn, ''RETR '' @ fmt_d n)]\<rparr>"
  have "retrBody [] ?c1 = None" using assms(1) by (intro retrBody_endless) simp_all
  moreover have "HasPrefix ''+OK'' ''+OK''" by (simp add: HasPrefix_def)
  ultimately show ?thesis
    using pop_cmd_ok [OF assms(1,2) _ assms(3), of L t "''RETR %d''" "''RETR '' @ fmt_d n"]
    by (simp add: pop_Retrieve_def pop_body_def Let_def)
qed

text \<open>
  The bound of an enumeration charges 95 bytes for a message whose number has six digits and whose
  unique-id has 70 characters: a conforming maildrop of 364000 messages is refused.
\<close>

theorem maildrop_364000_refused:
  assumes "nc_open cn" "nc_in cn = SCons (Line ''+OK'') (response (map uidl_line ms) rest)"
    and "ne_write env (length (nc_sent cn)) = None"
    and "ms = map (\<lambda>n. \<lparr>rm_Number = int n, rm_UIDL = replicate 70 (CHR ''u''), rm_Size = 0\<rparr>) [1..<364001]"
  shows "list_all listable ms \<and> (\<exists>e cn'. pop_UIDL L env t cn = Some (Inl e, cn'))"
proof -
  define b :: nat where "b = 364001"
  have ms: "ms = map full_entry [1..<b]" unfolding b_def assms(4) full_entry_def ..
  have b: "100000 \<le> b" "b \<le> 1000000" "int (b - 100000) = 264001" by (simp_all add: b_def)
  have l: "list_all listable ms" unfolding ms using b(2) by (auto simp: list_all_iff full_entry_listable)
  let ?c1 = "cn\<lparr>nc_in := response (map uidl_line ms) rest, nc_sent := nc_sent cn @ [(nc_tls cn, ''UIDL'')]\<rparr>"
  have "sum_list (map (charge \<circ> stuff) (map uidl_line ms)) = sum_list (map (charge \<circ> uidl_line) ms)"
    using l by (auto simp: list_all_iff uidl_line_stuff intro!: arg_cong [where f = sum_list])
  then have long: "maxListBytes < 0 + sum_list (map (charge \<circ> stuff) (map uidl_line ms))"
    using full_entries_charge [OF b(1,2)] b(3) by (simp add: ms maxListBytes_def)
  have "\<exists>e cn'. readList [] 0 ?c1 = Some (Inl e, cn')"
    by (rule readList_too_long [OF _ _ long]) (use assms(1) in \<open>simp_all add: maxListBytes_def\<close>)
  moreover have "HasPrefix ''+OK'' ''+OK''" by (simp add: HasPrefix_def)
  ultimately show ?thesis
    using l pop_cmd_ok [OF assms(1,2) _ assms(3), of L t "''UIDL''" "''UIDL''"]
    by (auto simp: pop_UIDL_def pop_enumerate_def Let_def)
qed

section \<open>The dialer of the application\<close>

interpretation pop3_dialer: inbound_dialer pop_Dial nc_sent "''STLS''"
proof
  fix L env opts e c l
  assume d: "pop_Dial L env opts = (e, c)"
  show "do_Security opts \<in> {SecurityTLS, SecurityStartTLS} \<Longrightarrow> (False, l) \<in> set (nc_sent c) \<Longrightarrow> l = ''STLS''"
    using pop_Dial_clear [OF d] by blast
  show "do_Security opts = SecurityStartTLS \<Longrightarrow> 0 < ne_buffered env \<Longrightarrow> e \<noteq> None \<and> set (nc_sent c) \<subseteq> {(False, ''STLS'')}"
    using pop_Dial_clear [OF d] by blast
next
  fix L env opts e c
  assume "pop_Dial L env opts = (Some e, c)" "is_credential e"
  then show "do_Username opts \<noteq> [] \<and> (\<exists>code. rejected_code e = Some code \<and> \<not> TemporaryRefusal code)"
    using pop_Dial_refused by blast
qed

end
