(* ===== verification/Imap_Stream.thy ===== *)
theory Imap_Stream
  imports Inbound_Error
begin

text \<open>
  The protocol reader of the IMAP client (\<open>src/internal/adapters/imap/client.go\<close>): lines,
  literals and the responses they make up, read byte by byte from what the server sends.  Every loop
  of the reader is bounded, so its functions are total; the deadlines that bound single reads are
  part of the input, as faults.
\<close>

section \<open>Bytes and lines\<close>

datatype net_byte = Byte char | Fault fault_kind string

type_synonym imap_conn = "net_byte net_conn"
type_synonym imap_env = "net_byte net_env"

text \<open>
  \<open>bufio.Reader.ReadSlice\<close>: the bytes up to a line feed, or a full buffer without one, or a fault,
  which drops what was read before it.
\<close>

datatype slice_end = SliceFound | BufferFull | SliceFault in_err

primrec read_slice :: "nat \<Rightarrow> net_byte stream \<Rightarrow> (string \<times> slice_end) \<times> net_byte stream" where
  "read_slice 0 s = (([], BufferFull), s)"
| "read_slice (Suc n) s =
     (case shd s of
        Fault k m \<Rightarrow> (([], SliceFault (NetFault k m)), stl s)
      | Byte c \<Rightarrow>
          if c = CHR 0x0A then (([c], SliceFound), stl s)
          else (case read_slice n (stl s) of ((frag, e), s') \<Rightarrow> ((c # frag, e), s')))"

definition bufferSize :: nat where "bufferSize = 4096"

definition maxLineBytes :: int where "maxLineBytes = 2 ^ 20"

definition TrimRight :: "string \<Rightarrow> string \<Rightarrow> string" where
  "TrimRight cs s = rev (dropWhile (\<lambda>c. c \<in> set cs) (rev s))"

lemma read_slice_full: "read_slice n s = ((frag, BufferFull), s') \<Longrightarrow> length frag = n"
  by (induction n arbitrary: s frag) (auto split: net_byte.splits if_splits prod.splits)

text \<open>The loop of \<open>readBoundedLine\<close>: a line, a fault, or \<open>Inl None\<close> for a line over the bound.\<close>

function bounded_from :: "string \<Rightarrow> net_byte stream \<Rightarrow> (in_err option + string) \<times> net_byte stream" where
  "bounded_from acc s =
     (case read_slice bufferSize s of
        ((frag, SliceFault f), s') \<Rightarrow> (Inl (Some f), s')
      | ((frag, SliceFound), s') \<Rightarrow>
          if int (length acc) + int (length frag) > maxLineBytes then (Inl None, s')
          else (Inr (TrimRight [CHR 0x0D, CHR 0x0A] (acc @ frag)), s')
      | ((frag, BufferFull), s') \<Rightarrow>
          if int (length acc) + int (length frag) > maxLineBytes then (Inl None, s')
          else bounded_from (acc @ frag) s')"
  by pat_completeness auto
termination
  by (relation "measure (\<lambda>(acc, s). nat (maxLineBytes + 1 - int (length acc)))")
     (auto dest!: sym [THEN read_slice_full] simp: bufferSize_def nat_less_iff)

declare bounded_from.simps [simp del]

section \<open>The session\<close>

record imap_session =
  im_conn :: imap_conn
  im_commandTO :: int
  im_maxLiteral :: int
  im_tagN :: nat
  im_uidValidity :: string
  im_exists :: int
  im_index :: "RemoteMessage list"
  im_indexed :: bool
  im_deleted :: bool
  im_literals :: "string list"
  im_broken :: "in_err option"

definition errUnframed :: string where
  "errUnframed = ''imap session abandoned: response stream could not be resynchronized''"

definition unframed :: "string \<Rightarrow> in_err" where
  "unframed m = Plain (errUnframed @ '': '' @ m)"

definition im_close :: "imap_session \<Rightarrow> imap_session" where
  "im_close S = S\<lparr>im_conn := net_close (im_conn S)\<rparr>"

definition abandon :: "in_err \<Rightarrow> imap_session \<Rightarrow> imap_session" where
  "abandon e S = (im_close S)\<lparr>im_broken := Some e\<rparr>"

definition im_rest :: "net_byte stream \<Rightarrow> imap_session \<Rightarrow> imap_session" where
  "im_rest s S = S\<lparr>im_conn := (im_conn S)\<lparr>nc_in := s\<rparr>\<rparr>"

definition readBoundedLine :: "imap_session \<Rightarrow> (in_err + string) \<times> imap_session" where
  "readBoundedLine S =
     (case bounded_from [] (nc_in (im_conn S)) of
        (Inl (Some e), s) \<Rightarrow> (Inl e, im_rest s S)
      | (Inl None, s) \<Rightarrow>
          (let e = unframed (''protocol line exceeds '' @ fmt_d maxLineBytes @ '' bytes'')
           in (Inl e, abandon e (im_rest s S)))
      | (Inr line, s) \<Rightarrow> (Inr line, im_rest s S))"

section \<open>Literals\<close>

definition literalMargin :: int where "literalMargin = 2 ^ 20"
definition resyncDrainFactor :: int where "resyncDrainFactor = 4"
definition maxResponseBytes :: int where "maxResponseBytes = 8 * 2 ^ 20"
definition responseLineOverhead :: int where "responseLineOverhead = 2 + 16"
definition maxResponseLiterals :: nat where "maxResponseLiterals = 64"

definition refusalThreshold :: "imap_session \<Rightarrow> int" where
  "refusalThreshold S =
     (if im_maxLiteral S \<le> 0 then 0
      else if im_maxLiteral S > max_int64 - literalMargin then max_int64
      else im_maxLiteral S + literalMargin)"

definition resyncBudget :: "imap_session \<Rightarrow> int" where
  "resyncBudget S =
     (let limit = refusalThreshold S
      in if limit \<le> 0 \<or> limit > max_int64 div resyncDrainFactor then max_int64
         else limit * resyncDrainFactor)"

text \<open>
  \<open>io.CopyN\<close>: exactly that many bytes.  The sources copy a literal in pieces of 1 MiB to refresh the
  deadline; the bytes are the same.
\<close>

primrec read_exact :: "nat \<Rightarrow> net_byte stream \<Rightarrow> (in_err + string) \<times> net_byte stream" where
  "read_exact 0 s = (Inr [], s)"
| "read_exact (Suc n) s =
     (case shd s of
        Fault k m \<Rightarrow> (Inl (NetFault k m), stl s)
      | Byte c \<Rightarrow> (case read_exact n (stl s) of
                     (Inl e, s') \<Rightarrow> (Inl e, s') | (Inr cs, s') \<Rightarrow> (Inr (c # cs), s')))"

definition readLiteral :: "int \<Rightarrow> imap_session \<Rightarrow> in_err option \<times> imap_session" where
  "readLiteral n S =
     (case read_exact (nat n) (nc_in (im_conn S)) of
        (Inl e, s) \<Rightarrow> (Some e, im_rest s S)
      | (Inr lit, s) \<Rightarrow> (None, (im_rest s S)\<lparr>im_literals := im_literals S @ [lit]\<rparr>))"

definition discardLiteral :: "int \<Rightarrow> imap_session \<Rightarrow> in_err option \<times> imap_session" where
  "discardLiteral n S =
     (if n > resyncBudget S
      then (let e = unframed (fmt_d n @ ''-byte literal exceeds the '' @ fmt_d (resyncBudget S) @ ''-byte resync budget'')
            in (Some e, abandon e S))
      else case read_exact (nat n) (nc_in (im_conn S)) of
             (Inl f, s) \<Rightarrow>
               (let e = Note (errUnframed @ '': discarding a '' @ fmt_d n @ ''-byte literal'') f
                in (Some e, abandon e (im_rest s S)))
           | (Inr _, s) \<Rightarrow> (None, im_rest s S))"

text \<open>\<open>reLit\<close>: the digits of an announcement that ends the line.\<close>

definition lit_suffix :: "string \<Rightarrow> string option" where
  "lit_suffix line =
     (case rev line of
        [] \<Rightarrow> None
      | c # r \<Rightarrow>
          if c = CHR 0x7D \<and> takeWhile is_digit r \<noteq> [] \<and> dropWhile is_digit r \<noteq> [] \<and>
             hd (dropWhile is_digit r) = CHR 0x7B
          then Some (rev (takeWhile is_digit r)) else None)"

section \<open>Responses\<close>

text \<open>
  One literal, announced by the digits \<open>ds\<close> at the end of the line, and the rest of the line.  The
  state is the line, the protocol text counted so far, the number of literals and the first refusal.
\<close>

type_synonym lit_state = "string \<times> int \<times> nat \<times> in_err option"

definition resp_too_long :: in_err where
  "resp_too_long = unframed (''response exceeds '' @ fmt_d maxResponseBytes @ '' bytes of protocol text'')"

definition refusal :: "imap_session \<Rightarrow> int \<Rightarrow> in_err" where
  "refusal S n = Plain (''server literal '' @ fmt_d n @ '' bytes exceeds max message size '' @ fmt_d (im_maxLiteral S))"

definition over_limit :: "imap_session \<Rightarrow> int \<Rightarrow> bool" where
  "over_limit S n = (refusalThreshold S > 0 \<and> n > refusalThreshold S)"

definition lit_step ::
  "lib \<Rightarrow> imap_session \<Rightarrow> string \<Rightarrow> lit_state \<Rightarrow> (in_err + lit_state) \<times> imap_session" where
  "lit_step L S ds x =
     (case x of (line, resp, cnt, refused) \<Rightarrow>
       (case Atoi ds of
          (n, False) \<Rightarrow>
            (let e = unframed (''unreadable literal length '' @ go_quote L ds @
                       '': strconv.ParseInt: parsing '' @ go_quote L ds @ '': value out of range'')
             in (Inl e, abandon e S))
        | (n, True) \<Rightarrow>
            if cnt + 1 > maxResponseLiterals
            then (let e = unframed (''response announces more than '' @ dec maxResponseLiterals @ '' literals'')
                  in (Inl e, abandon e S))
            else
             (let refused' = (if over_limit S n \<and> refused = None then Some (refusal S n) else refused)
              in case (if over_limit S n then discardLiteral n S else readLiteral n S) of
                   (Some e, S1) \<Rightarrow> (Inl e, S1)
                 | (None, S1) \<Rightarrow>
                     (case readBoundedLine S1 of
                        (Inl e, S2) \<Rightarrow> (Inl e, S2)
                      | (Inr cont, S2) \<Rightarrow>
                          (let resp' = resp + int (length cont) + responseLineOverhead
                           in if resp' > maxResponseBytes then (Inl resp_too_long, abandon resp_too_long S2)
                              else (Inr (take (length line - (length ds + 2)) line @ cont, resp', cnt + 1, refused'), S2))))))"

lemma lit_step_Inr:
  "lit_step L S ds (line, resp, cnt, refused) = (Inr (line', resp', cnt', refused'), S') \<Longrightarrow>
     cnt' = Suc cnt \<and> cnt < maxResponseLiterals \<and> resp \<le> resp' \<and> resp' \<le> maxResponseBytes"
  by (auto simp: lit_step_def Let_def responseLineOverhead_def
      split: prod.splits bool.splits option.splits sum.splits if_splits)

text \<open>The inner loop of \<open>execRaw\<close>.\<close>

function lit_loop :: "lib \<Rightarrow> imap_session \<Rightarrow> lit_state \<Rightarrow> (in_err + lit_state) \<times> imap_session" where
  "lit_loop L S x =
     (case lit_suffix (fst x) of
        None \<Rightarrow> (Inr x, S)
      | Some ds \<Rightarrow>
          (case lit_step L S ds x of
             (Inl e, S') \<Rightarrow> (Inl e, S')
           | (Inr x', S') \<Rightarrow> lit_loop L S' x'))"
  by pat_completeness auto
termination
  by (relation "measure (\<lambda>(L, S, line, resp, cnt, refused). maxResponseLiterals - cnt)")
     (auto dest!: sym [THEN lit_step_Inr])

declare lit_loop.simps [simp del]

lemma lit_loop_resp:
  "lit_loop L S x = (Inr x', S') \<Longrightarrow> fst (snd x) \<le> fst (snd x') \<and>
     (fst (snd x) \<le> maxResponseBytes \<longrightarrow> fst (snd x') \<le> maxResponseBytes)"
proof (induction L S x arbitrary: x' S' rule: lit_loop.induct)
  case (1 L S x)
  show ?case
  proof (cases "lit_suffix (fst x)")
    case None
    with "1.prems" show ?thesis by (subst (asm) lit_loop.simps) simp
  next
    case (Some ds)
    obtain r S1 where st: "lit_step L S ds x = (r, S1)" by (cases "lit_step L S ds x")
    with Some "1.prems" obtain x1 where r: "r = Inr x1" "lit_loop L S1 x1 = (Inr x', S')"
      by (subst (asm) lit_loop.simps) (auto split: sum.splits)
    obtain l1 p1 c1 f1 where x1: "x1 = (l1, p1, c1, f1)" by (cases x1)
    obtain l p c f where x: "x = (l, p, c, f)" by (cases x)
    from "1.IH" [OF Some st [symmetric] r] lit_step_Inr [of L S ds l p c f l1 p1 c1 f1 S1] st r(1)
    show ?thesis by (auto simp: x x1)
  qed
qed

text \<open>The outer loop: the lines up to the tagged completion.\<close>

function exec_loop ::
  "lib \<Rightarrow> string \<Rightarrow> imap_session \<Rightarrow> string list \<Rightarrow> int \<Rightarrow> nat \<Rightarrow> in_err option
     \<Rightarrow> (string list \<times> in_err option) \<times> imap_session" where
  "exec_loop L tag S untagged resp cnt refused =
     (case readBoundedLine S of
        (Inl e, S1) \<Rightarrow> (([], Some e), S1)
      | (Inr line, S1) \<Rightarrow>
          (let resp1 = resp + int (length line) + responseLineOverhead
           in if resp1 > maxResponseBytes then (([], Some resp_too_long), abandon resp_too_long S1)
              else case lit_loop L S1 (line, resp1, cnt, refused) of
                     (Inl e, S2) \<Rightarrow> (([], Some e), S2)
                   | (Inr (line', resp', cnt', refused'), S2) \<Rightarrow>
                       if HasPrefix line' (tag @ '' '')
                       then (let status = TrimPrefix line' (tag @ '' '')
                             in if HasPrefix status ''OK'' then ((untagged, refused'), S2)
                                else ((untagged, Some (Negative (InboundResponseCode L status) (Some status))), S2))
                       else exec_loop L tag S2 (untagged @ [line']) resp' cnt' refused'))"
  by pat_completeness auto
termination
  by (relation "measure (\<lambda>(L, tag, S, untagged, resp, cnt, refused). nat (maxResponseBytes + 1 - resp))")
     (auto dest!: sym [THEN lit_loop_resp] simp: responseLineOverhead_def nat_less_iff)

declare exec_loop.simps [simp del]

text \<open>The tag of the next command.\<close>

definition next_tag :: "imap_session \<Rightarrow> string" where
  "next_tag S = CHR ''a'' # dec (im_tagN S + 1)"

definition execRaw ::
  "lib \<Rightarrow> imap_env \<Rightarrow> string \<Rightarrow> imap_session \<Rightarrow> (string list \<times> in_err option) \<times> imap_session" where
  "execRaw L env line S =
     (case im_broken S of
        Some e \<Rightarrow> (([], Some e), S)
      | None \<Rightarrow>
          (let tag = next_tag S; S1 = S\<lparr>im_tagN := im_tagN S + 1\<rparr>
           in case net_write env (tag @ '' '' @ line) (im_conn S1) of
                (Some e, cn) \<Rightarrow> (([], Some e), S1\<lparr>im_conn := cn\<rparr>)
              | (None, cn) \<Rightarrow> exec_loop L tag (S1\<lparr>im_conn := cn, im_literals := []\<rparr>) [] 0 0 None))"

section \<open>Commands\<close>

definition commandVerb :: "lib \<Rightarrow> string \<Rightarrow> string" where
  "commandVerb L fmt =
     (case Fields fmt of
        [] \<Rightarrow> []
      | f # fs \<Rightarrow>
          (let verb = ToUpper (uni_upper L) f
           in if verb = ''UID'' \<and> fs \<noteq> [] then verb @ '' '' @ ToUpper (uni_upper L) (hd fs) else verb))"

definition imap_commandStage :: "lib \<Rightarrow> string \<Rightarrow> string" where
  "imap_commandStage L fmt =
     (let verb = commandVerb L fmt
      in if verb = ''LOGIN'' \<or> verb = ''AUTHENTICATE'' then ''login''
         else if verb = ''SELECT'' \<or> verb = ''EXAMINE'' then ''select''
         else if verb = ''STARTTLS'' then ''starttls''
         else if verb = ''LIST'' then ''list''
         else if verb = ''IDLE'' then ''idle''
         else if verb = ''LOGOUT'' then ''logout''
         else if Contains fmt ''RFC822.SIZE'' then ''enumerate'' else ''fetch'')"

definition failed :: "lib \<Rightarrow> string \<Rightarrow> string \<Rightarrow> in_err \<Rightarrow> int \<Rightarrow> imap_session \<Rightarrow> in_err" where
  "failed L stage verb e elapsed S = WrapInbound L stage verb e elapsed (im_commandTO S)"

text \<open>\<open>exec\<close> with the format and the line it gives.\<close>

definition exec ::
  "lib \<Rightarrow> imap_env \<Rightarrow> string \<Rightarrow> string \<Rightarrow> imap_session \<Rightarrow> (string list \<times> in_err option) \<times> imap_session" where
  "exec L env fmt line S =
     (case execRaw L env line S of
        ((untagged, e), S') \<Rightarrow>
          ((untagged, map_option (\<lambda>x. failed L (imap_commandStage L fmt) (commandVerb L fmt) x
                        (ne_elapsed env (length (nc_sent (im_conn S)))) S') e), S'))"

section \<open>Reading lines back\<close>

abbreviation LF :: char where "LF \<equiv> CHR 0x0A"
abbreviation CR :: char where "CR \<equiv> CHR 0x0D"

definition sends :: "string \<Rightarrow> net_byte stream \<Rightarrow> net_byte stream" where
  "sends s rest = shift (map Byte s) rest"

text \<open>The text of a line as it is written: without line feeds, and not ending in a carriage return.\<close>

definition line_text :: "string \<Rightarrow> bool" where
  "line_text t = (LF \<notin> set t \<and> (t \<noteq> [] \<longrightarrow> last t \<noteq> CR))"

lemma sends_simps [simp]: "sends [] rest = rest" "shd (sends (c # s) rest) = Byte c" "stl (sends (c # s) rest) = sends s rest"
  by (simp_all add: sends_def)

lemma sends_append: "sends (a @ b) rest = sends a (sends b rest)"
  by (simp add: sends_def)

lemma read_slice_short:
  "LF \<notin> set l \<Longrightarrow> length l < n \<Longrightarrow> read_slice n (sends (l @ [LF]) rest) = ((l @ [LF], SliceFound), rest)"
proof (induction l arbitrary: n)
  case Nil
  then show ?case by (cases n) simp_all
next
  case (Cons c l)
  then show ?case by (cases n) auto
qed

lemma read_slice_long:
  "LF \<notin> set l \<Longrightarrow> n \<le> length l \<Longrightarrow>
     read_slice n (sends (l @ [LF]) rest) = ((take n l, BufferFull), sends (drop n l @ [LF]) rest)"
proof (induction n arbitrary: l)
  case (Suc n)
  then show ?case by (cases l) auto
qed simp

lemma bounded_from_line:
  assumes "LF \<notin> set l" "int (length acc) + int (length l) < maxLineBytes"
  shows "bounded_from acc (sends (l @ [LF]) rest) = (Inr (TrimRight [CR, LF] (acc @ l @ [LF])), rest)"
  using assms
proof (induction "length l" arbitrary: l acc rule: less_induct)
  case less
  show ?case
  proof (cases "length l < bufferSize")
    case True
    with less.prems read_slice_short show ?thesis by (subst bounded_from.simps) simp
  next
    case False
    then have n: "bufferSize \<le> length l" "0 < bufferSize" by (simp_all add: bufferSize_def)
    have "bounded_from acc (sends (l @ [LF]) rest) =
        bounded_from (acc @ take bufferSize l) (sends (drop bufferSize l @ [LF]) rest)"
      using less.prems n read_slice_long [of l bufferSize rest] by (subst bounded_from.simps) simp
    also have "\<dots> = (Inr (TrimRight [CR, LF] ((acc @ take bufferSize l) @ drop bufferSize l @ [LF])), rest)"
      using less.prems n by (intro less.hyps) (auto dest: in_set_dropD)
    also have "(acc @ take bufferSize l) @ drop bufferSize l @ [LF] = acc @ l @ [LF]" by (metis append.assoc append_take_drop_id)
    finally show ?thesis .
  qed
qed

lemma TrimRight_line: "line_text t \<Longrightarrow> TrimRight [CR, LF] (t @ [CR, LF]) = t"
  by (cases t rule: rev_cases) (auto simp: TrimRight_def line_text_def)

lemma readBoundedLine_line:
  assumes "nc_in (im_conn S) = sends (t @ [CR, LF]) rest" "line_text t" "int (length t) + 1 < maxLineBytes"
  shows "readBoundedLine S = (Inr t, im_rest rest S)"
proof -
  have "bounded_from [] (sends ((t @ [CR]) @ [LF]) rest) = (Inr (TrimRight [CR, LF] ([] @ (t @ [CR]) @ [LF])), rest)"
    using assms(2,3) by (intro bounded_from_line) (simp_all add: line_text_def)
  then show ?thesis using assms TrimRight_line by (simp add: readBoundedLine_def)
qed

lemma read_exact_sends: "read_exact (length l) (sends l rest) = (Inr l, rest)"
  by (induction l) simp_all

section \<open>Responses as they are written\<close>

definition announce :: "nat \<Rightarrow> string" where
  "announce n = CHR 0x7B # dec n @ [CHR 0x7D]"

text \<open>
  A response line: pieces of text, each followed by a literal, and the text that ends it.  Its bytes,
  and the line the client makes of it, without the literals and their announcements.
\<close>

type_synonym wire_line = "(string \<times> string) list \<times> string"

fun wire_bytes :: "(string \<times> string) list \<Rightarrow> string \<Rightarrow> string" where
  "wire_bytes [] t = t @ [CR, LF]"
| "wire_bytes ((u, l) # segs) t = u @ announce (length l) @ [CR, LF] @ l @ wire_bytes segs t"

fun wire_cost :: "(string \<times> string) list \<Rightarrow> string \<Rightarrow> int" where
  "wire_cost [] t = int (length t) + responseLineOverhead"
| "wire_cost ((u, l) # segs) t = int (length (u @ announce (length l))) + responseLineOverhead + wire_cost segs t"

definition wire_text :: "(string \<times> string) list \<Rightarrow> string \<Rightarrow> string" where
  "wire_text segs t = concat (map fst segs) @ t"

text \<open>The pieces fit in a line, and a literal that is refused can still be skipped.\<close>

definition piece_ok :: "string \<Rightarrow> bool" where
  "piece_ok t = (line_text t \<and> int (length t) + 1 < maxLineBytes)"

definition literal_ok :: "imap_session \<Rightarrow> string \<Rightarrow> bool" where
  "literal_ok S l = (int (length l) \<le> max_int64 \<and>
     (over_limit S (int (length l)) \<longrightarrow> int (length l) \<le> resyncBudget S))"

fun wire_ok :: "imap_session \<Rightarrow> (string \<times> string) list \<Rightarrow> string \<Rightarrow> bool" where
  "wire_ok S [] t = piece_ok t"
| "wire_ok S ((u, l) # segs) t = (piece_ok (u @ announce (length l)) \<and> literal_ok S l \<and> wire_ok S segs t)"

text \<open>The literals that are kept and the first that is refused.\<close>

definition kept :: "imap_session \<Rightarrow> string list \<Rightarrow> string list" where
  "kept S ls = filter (\<lambda>l. \<not> over_limit S (int (length l))) ls"

fun refuse :: "imap_session \<Rightarrow> in_err option \<Rightarrow> string list \<Rightarrow> in_err option" where
  "refuse S f [] = f"
| "refuse S f (l # ls) =
     refuse S (if over_limit S (int (length l)) \<and> f = None then Some (refusal S (int (length l))) else f) ls"

lemma lit_suffix_announce: "lit_suffix (a @ announce n) = Some (dec n)"
proof -
  have d: "list_all is_digit (dec n)" by (auto simp: list_all_iff dest: set_dec)
  have n: "\<not> is_digit (CHR 0x7B)" by (simp add: is_digit_def byte_def)
  have "takeWhile is_digit (rev (dec n) @ CHR 0x7B # rev a) = rev (dec n)"
    using d n by (subst takeWhile_append2) (auto simp: list_all_iff)
  moreover have "dropWhile is_digit (rev (dec n) @ CHR 0x7B # rev a) = CHR 0x7B # rev a"
    using d n by (subst dropWhile_append2) (auto simp: list_all_iff)
  ultimately show ?thesis using n by (simp add: lit_suffix_def announce_def)
qed

lemma take_announce: "take (length (a @ announce n) - (length (dec n) + 2)) (a @ announce n) = a"
  by (simp add: announce_def)

lemma Atoi_dec: "int n \<le> max_int64 \<Longrightarrow> Atoi (dec n) = (int n, True)"
  using Atoi_fmt_d [of "int n"] by (simp add: fmt_d_def max_int64_def)

lemma im_rest_simps [simp]:
  "nc_in (im_conn (im_rest s S)) = s" "im_rest s (im_rest s' S) = im_rest s S"
  "im_literals (im_rest s S) = im_literals S" "im_maxLiteral (im_rest s S) = im_maxLiteral S"
  "im_broken (im_rest s S) = im_broken S"
  "im_rest s (S\<lparr>im_literals := x\<rparr>) = (im_rest s S)\<lparr>im_literals := x\<rparr>"
  "(im_rest s S)\<lparr>im_literals := im_literals S\<rparr> = im_rest s S"
  by (simp_all add: im_rest_def)

text \<open>The limits depend on the configured size only.\<close>

lemma limits_of:
  assumes "im_maxLiteral S' = im_maxLiteral S"
  shows "over_limit S' = over_limit S" "resyncBudget S' = resyncBudget S" "refusal S' = refusal S"
    "wire_ok S' segs t = wire_ok S segs t" "kept S' ls = kept S ls" "refuse S' f ls = refuse S f ls"
proof -
  show 1: "over_limit S' = over_limit S" "resyncBudget S' = resyncBudget S" "refusal S' = refusal S"
    using assms by (simp_all add: over_limit_def refusalThreshold_def resyncBudget_def refusal_def fun_eq_iff Let_def)
  show "wire_ok S' segs t = wire_ok S segs t"
    by (induction segs) (auto simp: literal_ok_def 1)
  show "kept S' ls = kept S ls" by (simp add: kept_def 1)
  show "refuse S' f ls = refuse S f ls"
    by (induction ls arbitrary: f) (auto simp: 1)
qed

lemma limit_cong [simp]:
  "over_limit (im_rest s S) = over_limit S"
  "over_limit (S\<lparr>im_tagN := x0\<rparr>) = over_limit S"
  "over_limit (S\<lparr>im_conn := x1\<rparr>) = over_limit S"
  "over_limit (S\<lparr>im_uidValidity := x2\<rparr>) = over_limit S"
  "over_limit (S\<lparr>im_exists := x3\<rparr>) = over_limit S"
  "over_limit (S\<lparr>im_index := x4\<rparr>) = over_limit S"
  "over_limit (S\<lparr>im_indexed := x5\<rparr>) = over_limit S"
  "over_limit (S\<lparr>im_deleted := x6\<rparr>) = over_limit S"
  "over_limit (S\<lparr>im_literals := x7\<rparr>) = over_limit S"
  "resyncBudget (im_rest s S) = resyncBudget S"
  "resyncBudget (S\<lparr>im_tagN := x0\<rparr>) = resyncBudget S"
  "resyncBudget (S\<lparr>im_conn := x1\<rparr>) = resyncBudget S"
  "resyncBudget (S\<lparr>im_uidValidity := x2\<rparr>) = resyncBudget S"
  "resyncBudget (S\<lparr>im_exists := x3\<rparr>) = resyncBudget S"
  "resyncBudget (S\<lparr>im_index := x4\<rparr>) = resyncBudget S"
  "resyncBudget (S\<lparr>im_indexed := x5\<rparr>) = resyncBudget S"
  "resyncBudget (S\<lparr>im_deleted := x6\<rparr>) = resyncBudget S"
  "resyncBudget (S\<lparr>im_literals := x7\<rparr>) = resyncBudget S"
  "refusal (im_rest s S) = refusal S"
  "refusal (S\<lparr>im_tagN := x0\<rparr>) = refusal S"
  "refusal (S\<lparr>im_conn := x1\<rparr>) = refusal S"
  "refusal (S\<lparr>im_uidValidity := x2\<rparr>) = refusal S"
  "refusal (S\<lparr>im_exists := x3\<rparr>) = refusal S"
  "refusal (S\<lparr>im_index := x4\<rparr>) = refusal S"
  "refusal (S\<lparr>im_indexed := x5\<rparr>) = refusal S"
  "refusal (S\<lparr>im_deleted := x6\<rparr>) = refusal S"
  "refusal (S\<lparr>im_literals := x7\<rparr>) = refusal S"
  by (rule limits_of, simp)+

lemma wire_cong [simp]:
  "wire_ok (im_rest s S) segs t = wire_ok S segs t"
  "wire_ok (S\<lparr>im_tagN := x0\<rparr>) segs t = wire_ok S segs t"
  "wire_ok (S\<lparr>im_conn := x1\<rparr>) segs t = wire_ok S segs t"
  "wire_ok (S\<lparr>im_uidValidity := x2\<rparr>) segs t = wire_ok S segs t"
  "wire_ok (S\<lparr>im_exists := x3\<rparr>) segs t = wire_ok S segs t"
  "wire_ok (S\<lparr>im_index := x4\<rparr>) segs t = wire_ok S segs t"
  "wire_ok (S\<lparr>im_indexed := x5\<rparr>) segs t = wire_ok S segs t"
  "wire_ok (S\<lparr>im_deleted := x6\<rparr>) segs t = wire_ok S segs t"
  "wire_ok (S\<lparr>im_literals := x7\<rparr>) segs t = wire_ok S segs t"
  "kept (im_rest s S) ls = kept S ls"
  "kept (S\<lparr>im_tagN := x0\<rparr>) ls = kept S ls"
  "kept (S\<lparr>im_conn := x1\<rparr>) ls = kept S ls"
  "kept (S\<lparr>im_uidValidity := x2\<rparr>) ls = kept S ls"
  "kept (S\<lparr>im_exists := x3\<rparr>) ls = kept S ls"
  "kept (S\<lparr>im_index := x4\<rparr>) ls = kept S ls"
  "kept (S\<lparr>im_indexed := x5\<rparr>) ls = kept S ls"
  "kept (S\<lparr>im_deleted := x6\<rparr>) ls = kept S ls"
  "kept (S\<lparr>im_literals := x7\<rparr>) ls = kept S ls"
  "refuse (im_rest s S) f ls = refuse S f ls"
  "refuse (S\<lparr>im_tagN := x0\<rparr>) f ls = refuse S f ls"
  "refuse (S\<lparr>im_conn := x1\<rparr>) f ls = refuse S f ls"
  "refuse (S\<lparr>im_uidValidity := x2\<rparr>) f ls = refuse S f ls"
  "refuse (S\<lparr>im_exists := x3\<rparr>) f ls = refuse S f ls"
  "refuse (S\<lparr>im_index := x4\<rparr>) f ls = refuse S f ls"
  "refuse (S\<lparr>im_indexed := x5\<rparr>) f ls = refuse S f ls"
  "refuse (S\<lparr>im_deleted := x6\<rparr>) f ls = refuse S f ls"
  "refuse (S\<lparr>im_literals := x7\<rparr>) f ls = refuse S f ls"
  by (rule limits_of, simp)+

lemma wire_cost_pos: "18 \<le> wire_cost segs t"
  by (induction segs) (auto simp: responseLineOverhead_def)

text \<open>Reading one literal and the next piece of text.\<close>

fun wire_head :: "(string \<times> string) list \<Rightarrow> string \<Rightarrow> string" where
  "wire_head [] t = t"
| "wire_head ((u, l) # segs) t = u @ announce (length l)"

fun wire_tail :: "(string \<times> string) list \<Rightarrow> string \<Rightarrow> string" where
  "wire_tail [] t = []"
| "wire_tail ((u, l) # segs) t = l @ wire_bytes segs t"

lemma wire_bytes_head: "wire_bytes segs t = (wire_head segs t @ [CR, LF]) @ wire_tail segs t"
  by (cases "(segs, t)" rule: wire_bytes.cases) simp_all

lemma wire_ok_head: "wire_ok S segs t \<Longrightarrow> piece_ok (wire_head segs t)"
  by (cases "(segs, t)" rule: wire_bytes.cases) simp_all

lemma take_literal:
  assumes "nc_in (im_conn S) = sends l rest" "literal_ok S l"
  shows "(if over_limit S (int (length l)) then discardLiteral (int (length l)) S else readLiteral (int (length l)) S) =
    (None, (im_rest rest S)\<lparr>im_literals := im_literals S @ kept S [l]\<rparr>)"
  using assms read_exact_sends [of l rest]
  by (auto simp: discardLiteral_def readLiteral_def literal_ok_def kept_def)

lemma lit_step_wire:
  assumes "nc_in (im_conn S) = sends (l @ wire_bytes segs t) rest" "literal_ok S l" "wire_ok S segs t"
    and "cnt < maxResponseLiterals" "resp + (int (length (wire_head segs t)) + responseLineOverhead) \<le> maxResponseBytes"
  shows "lit_step L S (dec (length l)) (a @ announce (length l), resp, cnt, f) =
    (Inr (a @ wire_head segs t, resp + (int (length (wire_head segs t)) + responseLineOverhead), Suc cnt, refuse S f [l]),
     (im_rest (sends (wire_tail segs t) rest) S)\<lparr>im_literals := im_literals S @ kept S [l]\<rparr>)"
proof -
  let ?s = "sends (wire_bytes segs t) rest"
  let ?S1 = "(im_rest ?s S)\<lparr>im_literals := im_literals S @ kept S [l]\<rparr>"
  have n: "Atoi (dec (length l)) = (int (length l), True)" using assms(2) by (simp add: Atoi_dec literal_ok_def)
  have t: "(if over_limit S (int (length l)) then discardLiteral (int (length l)) S else readLiteral (int (length l)) S) = (None, ?S1)"
    using assms(1,2) take_literal [of S l ?s] by (simp add: sends_append)
  have "nc_in (im_conn ?S1) = sends (wire_head segs t @ [CR, LF]) (sends (wire_tail segs t) rest)"
    unfolding wire_bytes_head sends_append by simp
  from readBoundedLine_line [OF this] wire_ok_head [OF assms(3)]
  have r: "readBoundedLine ?S1 = (Inr (wire_head segs t), im_rest (sends (wire_tail segs t) rest) ?S1)"
    by (simp add: piece_ok_def)
  show ?thesis
    using assms(4,5) by (simp add: lit_step_def n t r Let_def take_announce [simplified] add.assoc)
qed

lemma lit_loop_wire:
  assumes "nc_in (im_conn S) = sends (wire_tail segs t) rest" "wire_ok S segs t"
    and "cnt + length segs \<le> maxResponseLiterals"
    and "resp + (wire_cost segs t - (int (length (wire_head segs t)) + responseLineOverhead)) \<le> maxResponseBytes"
    and "lit_suffix (a @ wire_text segs t) = None"
  shows "lit_loop L S (a @ wire_head segs t, resp, cnt, f) =
    (Inr (a @ wire_text segs t, resp + (wire_cost segs t - (int (length (wire_head segs t)) + responseLineOverhead)),
        cnt + length segs, refuse S f (map snd segs)),
     (im_rest rest S)\<lparr>im_literals := im_literals S @ kept S (map snd segs)\<rparr>)"
  using assms
proof (induction segs arbitrary: S a resp cnt f)
  case Nil
  then have "im_rest rest S = S" by (simp add: im_rest_def)
  with Nil show ?case by (subst lit_loop.simps) (simp add: wire_text_def kept_def)
next
  case (Cons x segs)
  obtain u l where x: "x = (u, l)" by (cases x)
  let ?c = "int (length (wire_head segs t)) + responseLineOverhead"
  let ?S1 = "(im_rest (sends (wire_tail segs t) rest) S)\<lparr>im_literals := im_literals S @ kept S [l]\<rparr>"
  have p: "18 \<le> wire_cost segs t - ?c + 18" 
    using wire_cost_pos [of "tl segs" t] by (cases "(segs, t)" rule: wire_bytes.cases) auto
  have st: "lit_step L S (dec (length l)) ((a @ u) @ announce (length l), resp, cnt, f) =
      (Inr ((a @ u) @ wire_head segs t, resp + ?c, Suc cnt, refuse S f [l]), ?S1)"
    using Cons.prems p by (intro lit_step_wire) (simp_all add: x)
  have "lit_loop L S ((a @ u) @ announce (length l), resp, cnt, f) =
      lit_loop L ?S1 ((a @ u) @ wire_head segs t, resp + ?c, Suc cnt, refuse S f [l])"
    by (subst lit_loop.simps) (simp only: fst_conv lit_suffix_announce option.case st prod.case sum.case)
  also have "\<dots> = (Inr ((a @ u) @ wire_text segs t, resp + ?c + (wire_cost segs t - ?c),
        Suc cnt + length segs, refuse ?S1 (refuse S f [l]) (map snd segs)),
      (im_rest rest ?S1)\<lparr>im_literals := im_literals ?S1 @ kept ?S1 (map snd segs)\<rparr>)"
    using Cons.prems by (intro Cons.IH) (simp_all add: x wire_text_def)
  finally show ?case by (simp add: x wire_text_def kept_def)
qed

section \<open>Whole responses\<close>

text \<open>
  The bytes of a response: its untagged lines, and the tagged completion; what they cost against the
  bounds; the literals.
\<close>

definition response_bytes :: "wire_line list \<Rightarrow> string \<Rightarrow> string" where
  "response_bytes rs fin = concat (map (\<lambda>(segs, t). wire_bytes segs t) rs) @ fin @ [CR, LF]"

definition response_cost :: "wire_line list \<Rightarrow> string \<Rightarrow> int" where
  "response_cost rs fin = sum_list (map (\<lambda>(segs, t). wire_cost segs t) rs) + int (length fin) + responseLineOverhead"

definition response_lits :: "wire_line list \<Rightarrow> string list" where
  "response_lits rs = concat (map (\<lambda>(segs, t). map snd segs) rs)"

definition response_texts :: "wire_line list \<Rightarrow> string list" where
  "response_texts rs = map (\<lambda>(segs, t). wire_text segs t) rs"

definition response_ok :: "imap_session \<Rightarrow> string \<Rightarrow> wire_line list \<Rightarrow> string \<Rightarrow> bool" where
  "response_ok S tag rs fin =
     (list_all (\<lambda>(segs, t). wire_ok S segs t \<and> lit_suffix (wire_text segs t) = None \<and>
        \<not> HasPrefix (wire_text segs t) (tag @ '' '')) rs \<and> piece_ok fin \<and> lit_suffix fin = None)"

lemma response_ok_cong [simp]:
  "response_ok (im_rest s S) tag rs fin = response_ok S tag rs fin"
  "response_ok (S\<lparr>im_tagN := x0\<rparr>) tag rs fin = response_ok S tag rs fin"
  "response_ok (S\<lparr>im_conn := x1\<rparr>) tag rs fin = response_ok S tag rs fin"
  "response_ok (S\<lparr>im_uidValidity := x2\<rparr>) tag rs fin = response_ok S tag rs fin"
  "response_ok (S\<lparr>im_exists := x3\<rparr>) tag rs fin = response_ok S tag rs fin"
  "response_ok (S\<lparr>im_index := x4\<rparr>) tag rs fin = response_ok S tag rs fin"
  "response_ok (S\<lparr>im_indexed := x5\<rparr>) tag rs fin = response_ok S tag rs fin"
  "response_ok (S\<lparr>im_deleted := x6\<rparr>) tag rs fin = response_ok S tag rs fin"
  "response_ok (S\<lparr>im_literals := x7\<rparr>) tag rs fin = response_ok S tag rs fin"
  by (simp_all add: response_ok_def)

lemma refuse_append: "refuse S f (a @ b) = refuse S (refuse S f a) b"
  by (induction a arbitrary: f) auto

lemma response_cost_pos: "18 \<le> response_cost rs fin"
proof -
  have "0 \<le> sum_list (map (\<lambda>(segs, t). wire_cost segs t) rs)"
    using wire_cost_pos by (intro sum_list_nonneg) (auto intro: order_trans [of 0 18])
  then show ?thesis by (simp add: response_cost_def responseLineOverhead_def)
qed

lemma exec_loop_line:
  assumes "nc_in (im_conn S) = sends (wire_bytes segs t) rest" "wire_ok S segs t" "lit_suffix (wire_text segs t) = None"
    and "cnt + length segs \<le> maxResponseLiterals" "resp + wire_cost segs t \<le> maxResponseBytes"
  shows "exec_loop L tag S acc resp cnt f =
    (let S' = (im_rest rest S)\<lparr>im_literals := im_literals S @ kept S (map snd segs)\<rparr>;
         f' = refuse S f (map snd segs); line = wire_text segs t
     in if HasPrefix line (tag @ '' '')
        then (let status = TrimPrefix line (tag @ '' '')
              in if HasPrefix status ''OK'' then ((acc, f'), S')
                 else ((acc, Some (Negative (InboundResponseCode L status) (Some status))), S'))
        else exec_loop L tag S' (acc @ [line]) (resp + wire_cost segs t) (cnt + length segs) f')"
proof -
  let ?h = "wire_head segs t" and ?S1 = "im_rest (sends (wire_tail segs t) rest) S"
  have "nc_in (im_conn S) = sends (?h @ [CR, LF]) (sends (wire_tail segs t) rest)"
    using assms(1) unfolding wire_bytes_head sends_append .
  from readBoundedLine_line [OF this] wire_ok_head [OF assms(2)]
  have r: "readBoundedLine S = (Inr ?h, ?S1)" by (simp add: piece_ok_def)
  have p: "int (length ?h) + responseLineOverhead \<le> wire_cost segs t"
    using wire_cost_pos [of "tl segs" t] by (cases "(segs, t)" rule: wire_bytes.cases) auto
  have "lit_loop L ?S1 ([] @ ?h, resp + (int (length ?h) + responseLineOverhead), cnt, f) =
    (Inr ([] @ wire_text segs t, resp + (int (length ?h) + responseLineOverhead) +
          (wire_cost segs t - (int (length ?h) + responseLineOverhead)),
        cnt + length segs, refuse ?S1 f (map snd segs)),
     (im_rest rest ?S1)\<lparr>im_literals := im_literals ?S1 @ kept ?S1 (map snd segs)\<rparr>)"
    using assms by (intro lit_loop_wire) simp_all
  with r p assms(5) show ?thesis
    by (subst exec_loop.simps) (simp add: Let_def add.assoc [symmetric])
qed

lemma exec_loop_response:
  assumes "nc_in (im_conn S) = sends (response_bytes rs (tag @ '' '' @ status)) rest"
    and "response_ok S tag rs (tag @ '' '' @ status)"
    and "cnt + length (response_lits rs) \<le> maxResponseLiterals"
    and "resp + response_cost rs (tag @ '' '' @ status) \<le> maxResponseBytes"
  shows "exec_loop L tag S acc resp cnt f =
    ((acc @ response_texts rs,
      if HasPrefix status ''OK'' then refuse S f (response_lits rs)
      else Some (Negative (InboundResponseCode L status) (Some status))),
     (im_rest rest S)\<lparr>im_literals := im_literals S @ kept S (response_lits rs)\<rparr>)"
  using assms
proof (induction rs arbitrary: S acc resp cnt f)
  case Nil
  let ?fin = "tag @ '' '' @ status"
  note exec_loop_line [of S "[]" ?fin rest cnt resp L tag acc f]
  moreover have "HasPrefix ?fin (tag @ '' '')" "TrimPrefix ?fin (tag @ '' '') = status"
    by (simp_all add: HasPrefix_def TrimPrefix_def)
  ultimately show ?case using Nil.prems
    by (simp add: response_bytes_def response_ok_def response_cost_def wire_text_def kept_def response_texts_def response_lits_def Let_def)
next
  case (Cons r rs)
  obtain segs t where r: "r = (segs, t)" by (cases r)
  let ?fin = "tag @ '' '' @ status" and ?ls = "map snd segs"
  let ?S1 = "(im_rest (sends (response_bytes rs ?fin) rest) S)\<lparr>im_literals := im_literals S @ kept S ?ls\<rparr>"
  have c: "wire_cost segs t + response_cost rs ?fin = response_cost (r # rs) ?fin"
    by (simp add: response_cost_def r)
  have n: "length (response_lits (r # rs)) = length segs + length (response_lits rs)"
    by (simp add: response_lits_def r)
  have ok: "wire_ok S segs t" "lit_suffix (wire_text segs t) = None" "\<not> HasPrefix (wire_text segs t) (tag @ '' '')"
    "response_ok S tag rs ?fin"
    using Cons.prems(2) by (simp_all add: response_ok_def r)
  have i: "nc_in (im_conn S) = sends (wire_bytes segs t) (sends (response_bytes rs ?fin) rest)"
    using Cons.prems(1) by (simp add: response_bytes_def r sends_append)
  have "exec_loop L tag S acc resp cnt f =
      exec_loop L tag ?S1 (acc @ [wire_text segs t]) (resp + wire_cost segs t) (cnt + length segs) (refuse S f ?ls)"
    using exec_loop_line [OF i ok(1,2), of cnt resp L tag acc f] Cons.prems(3,4) n c response_cost_pos [of rs ?fin] ok(3)
    by (simp add: Let_def)
  also have "\<dots> = (((acc @ [wire_text segs t]) @ response_texts rs,
      if HasPrefix status ''OK'' then refuse ?S1 (refuse S f ?ls) (response_lits rs)
      else Some (Negative (InboundResponseCode L status) (Some status))),
     (im_rest rest ?S1)\<lparr>im_literals := im_literals ?S1 @ kept ?S1 (response_lits rs)\<rparr>)"
    using Cons.prems(3,4) ok(4) n c by (intro Cons.IH) simp_all
  finally show ?case
    by (simp add: response_texts_def response_lits_def r refuse_append kept_def)
qed

text \<open>A command that is sent and answered.\<close>

definition answered :: "imap_session \<Rightarrow> string \<Rightarrow> net_byte stream \<Rightarrow> string list \<Rightarrow> imap_session" where
  "answered S line rest ls =
     S\<lparr>im_tagN := im_tagN S + 1,
       im_conn := (im_conn S)\<lparr>nc_sent := nc_sent (im_conn S) @ [(nc_tls (im_conn S), next_tag S @ '' '' @ line)],
         nc_in := rest\<rparr>,
       im_literals := ls\<rparr>"

definition usable :: "imap_env \<Rightarrow> imap_session \<Rightarrow> bool" where
  "usable env S = (im_broken S = None \<and> nc_open (im_conn S) \<and> ne_write env (length (nc_sent (im_conn S))) = None)"

lemma execRaw_response:
  assumes "usable env S" "nc_in (im_conn S) = sends (response_bytes rs (next_tag S @ '' '' @ status)) rest"
    and "response_ok S (next_tag S) rs (next_tag S @ '' '' @ status)"
    and "length (response_lits rs) \<le> maxResponseLiterals"
    and "response_cost rs (next_tag S @ '' '' @ status) \<le> maxResponseBytes"
  shows "execRaw L env line S =
    ((response_texts rs,
      if HasPrefix status ''OK'' then refuse S None (response_lits rs)
      else Some (Negative (InboundResponseCode L status) (Some status))),
     answered S line rest (kept S (response_lits rs)))"
proof -
  let ?S1 = "S\<lparr>im_tagN := im_tagN S + 1, im_conn := (im_conn S)\<lparr>nc_sent := nc_sent (im_conn S) @
      [(nc_tls (im_conn S), next_tag S @ '' '' @ line)]\<rparr>, im_literals := []\<rparr>"
  have ok: "response_ok ?S1 (next_tag S) rs (next_tag S @ '' '' @ status)"
    using assms(3) by simp
  have "exec_loop L (next_tag S) ?S1 [] 0 0 None =
    (([] @ response_texts rs,
      if HasPrefix status ''OK'' then refuse ?S1 None (response_lits rs)
      else Some (Negative (InboundResponseCode L status) (Some status))),
     (im_rest rest ?S1)\<lparr>im_literals := im_literals ?S1 @ kept ?S1 (response_lits rs)\<rparr>)"
    using assms ok by (intro exec_loop_response) simp_all
  then show ?thesis
    using assms(1)
    by (simp add: execRaw_def usable_def net_write_def Let_def answered_def im_rest_def)
qed

section \<open>What reading a response changes\<close>

text \<open>
  Whatever the server sends, reading keeps what the session knows about the mailbox and what was
  sent; it adds at most \<open>k\<close> literals, none over the limit; and either it leaves the session as sound as
  it was, or it has abandoned it and closed the connection.
\<close>

definition reads :: "nat \<Rightarrow> imap_session \<Rightarrow> imap_session \<Rightarrow> bool" where
  "reads k S S' \<longleftrightarrow>
     im_maxLiteral S' = im_maxLiteral S \<and> im_commandTO S' = im_commandTO S \<and> im_tagN S' = im_tagN S \<and>
     im_uidValidity S' = im_uidValidity S \<and> im_exists S' = im_exists S \<and> im_index S' = im_index S \<and>
     im_indexed S' = im_indexed S \<and> im_deleted S' = im_deleted S \<and>
     nc_sent (im_conn S') = nc_sent (im_conn S) \<and> nc_tls (im_conn S') = nc_tls (im_conn S) \<and>
     (\<exists>new. im_literals S' = im_literals S @ new \<and> length new \<le> k \<and> (\<forall>l\<in>set new. \<not> over_limit S (int (length l)))) \<and>
     (im_broken S' = im_broken S \<and> nc_open (im_conn S') = nc_open (im_conn S) \<or>
      im_broken S' \<noteq> None \<and> \<not> nc_open (im_conn S'))"

lemma reads_refl [intro]: "reads k S S"
  by (simp add: reads_def)

lemma reads_rest [intro]: "reads k S (im_rest s S)"
  by (simp add: reads_def im_rest_def)

lemma reads_abandon: "reads k S S' \<Longrightarrow> reads k S (abandon e S')"
  by (simp add: reads_def abandon_def im_close_def)

lemma reads_trans: "reads j S S1 \<Longrightarrow> reads k S1 S2 \<Longrightarrow> reads (j + k) S S2"
proof -
  assume a: "reads j S S1" and b: "reads k S1 S2"
  obtain n1 where n1: "im_literals S1 = im_literals S @ n1" "length n1 \<le> j" "\<forall>l\<in>set n1. \<not> over_limit S (int (length l))"
    using a unfolding reads_def by blast
  obtain n2 where n2: "im_literals S2 = im_literals S1 @ n2" "length n2 \<le> k" "\<forall>l\<in>set n2. \<not> over_limit S1 (int (length l))"
    using b unfolding reads_def by blast
  have "over_limit S1 = over_limit S" using a by (intro limits_of) (simp add: reads_def)
  with n1 n2 have "im_literals S2 = im_literals S @ (n1 @ n2)" "length (n1 @ n2) \<le> j + k"
    "\<forall>l\<in>set (n1 @ n2). \<not> over_limit S (int (length l))" by auto
  then have "\<exists>new. im_literals S2 = im_literals S @ new \<and> length new \<le> j + k \<and>
      (\<forall>l\<in>set new. \<not> over_limit S (int (length l)))" by blast
  with a b show ?thesis by (auto simp: reads_def)
qed

lemma reads_mono: "reads j S S' \<Longrightarrow> j \<le> k \<Longrightarrow> reads k S S'"
  unfolding reads_def by (meson order_trans)

lemma readBoundedLine_reads: "readBoundedLine S = (r, S') \<Longrightarrow> reads 0 S S'"
  by (auto simp: readBoundedLine_def Let_def reads_rest reads_abandon split: prod.splits sum.splits option.splits)

lemma take_literal_reads:
  "(if over_limit S n then discardLiteral n S else readLiteral n S) = (r, S') \<Longrightarrow> reads 1 S S'"
proof -
  assume a: "(if over_limit S n then discardLiteral n S else readLiteral n S) = (r, S')"
  have len: "length l = m" if "read_exact m s = (Inr l, s')" for m l s s'
    using that by (induction m arbitrary: l s) (auto split: net_byte.splits sum.splits prod.splits)
  show ?thesis
  proof (cases "over_limit S n")
    case True
    with a show ?thesis
      by (auto simp: discardLiteral_def Let_def reads_rest reads_refl reads_abandon split: prod.splits sum.splits if_splits)
  next
    case False
    obtain r0 s where x: "read_exact (nat n) (nc_in (im_conn S)) = (r0, s)" by (cases "read_exact (nat n) (nc_in (im_conn S))")
    show ?thesis
    proof (cases r0)
      case (Inl e)
      with a False x show ?thesis by (auto simp: readLiteral_def reads_rest)
    next
      case (Inr l)
      with len x have "length l = nat n" by blast
      then have "\<not> over_limit S (int (length l))" using False by (cases "n \<ge> 0") (auto simp: over_limit_def)
      with a False x Inr show ?thesis
        by (auto simp: readLiteral_def reads_def im_rest_def)
    qed
  qed
qed

lemma lit_step_reads:
  assumes "lit_step L S ds (line, resp, cnt, refused) = (r, S')"
  shows "reads (if cnt < maxResponseLiterals then 1 else 0) S S'"
proof -
  obtain n ok where n: "Atoi ds = (n, ok)" by (cases "Atoi ds")
  show ?thesis
  proof (cases "ok \<and> cnt < maxResponseLiterals")
    case False
    with assms n show ?thesis
      by (cases ok) (auto simp: lit_step_def Let_def reads_refl reads_abandon)
  next
    case True
    obtain e1 S1 where t: "(if over_limit S n then discardLiteral n S else readLiteral n S) = (e1, S1)"
      by (cases "if over_limit S n then discardLiteral n S else readLiteral n S")
    obtain c S2 where c: "readBoundedLine S1 = (c, S2)" by (cases "readBoundedLine S1")
    note r1 = take_literal_reads [OF t] and r2 = readBoundedLine_reads [OF c]
    have r12: "reads 1 S S2" using reads_trans [OF r1 r2] by simp
    have "S' \<in> {S1, S2, abandon resp_too_long S2}"
      using assms n t c True by (auto simp: lit_step_def Let_def split: option.splits sum.splits if_splits)
    then show ?thesis using r1 r12 reads_abandon [OF r12] True by auto
  qed
qed

text \<open>The text of the lines is bounded with the cost of the response.\<close>

lemma lit_step_text:
  "lit_step L S ds (line, resp, cnt, refused) = (Inr (line', resp', cnt', refused'), S') \<Longrightarrow>
     int (length line') - int (length line) \<le> resp' - resp"
  by (auto simp: lit_step_def Let_def responseLineOverhead_def
      split: prod.splits bool.splits option.splits sum.splits if_splits)

lemma lit_loop_reads:
  assumes "lit_loop L S x = (r, S')" "x = (line, resp, cnt, refused)" "cnt \<le> maxResponseLiterals"
  shows "case r of
      Inl e \<Rightarrow> reads (maxResponseLiterals - cnt) S S'
    | Inr (line', resp', cnt', refused') \<Rightarrow> reads (cnt' - cnt) S S' \<and> cnt \<le> cnt' \<and> cnt' \<le> maxResponseLiterals \<and>
        int (length line') - int (length line) \<le> resp' - resp"
  using assms
proof (induction L S x arbitrary: line resp cnt refused r S' rule: lit_loop.induct)
  case (1 L S x)
  show ?case
  proof (cases "lit_suffix (fst x)")
    case None
    with "1.prems" show ?thesis by (subst (asm) lit_loop.simps) (auto simp: reads_refl)
  next
    case (Some ds)
    obtain r1 S1 where st: "lit_step L S ds x = (r1, S1)" by (cases "lit_step L S ds x")
    note rd = lit_step_reads [OF st [unfolded "1.prems"(2)]]
    show ?thesis
    proof (cases r1)
      case (Inl e)
      with Some st "1.prems" have "r = Inl e" "S' = S1" by (subst (asm) lit_loop.simps, simp)+
      with rd "1.prems"(3) show ?thesis by (auto intro: reads_mono split: if_splits)
    next
      case (Inr x1)
      obtain l1 p1 c1 f1 where x1: "x1 = (l1, p1, c1, f1)" by (cases x1)
      have lp: "lit_loop L S1 x1 = (r, S')"
        using Some st Inr "1.prems"(1) by (subst (asm) lit_loop.simps) simp
      have c: "c1 = Suc cnt" "cnt < maxResponseLiterals"
        using lit_step_Inr [OF st [unfolded "1.prems"(2) Inr x1]] by blast+
      note tx = lit_step_text [OF st [unfolded "1.prems"(2) Inr x1]]
      have rd1: "reads 1 S S1" using rd c by simp
      from c have "c1 \<le> maxResponseLiterals" by simp
      note IH = "1.IH" [OF Some st [symmetric] Inr lp x1 this]
      show ?thesis
      proof (cases r)
        case (Inl e)
        with IH reads_trans [OF rd1, of "maxResponseLiterals - c1" S']
        have "reads (1 + (maxResponseLiterals - c1)) S S'" by simp
        with Inl c show ?thesis by (auto intro: reads_mono)
      next
        case r: (Inr x2)
        obtain l2 p2 c2 f2 where x2: "x2 = (l2, p2, c2, f2)" by (cases x2)
        with IH r have i: "reads (c2 - c1) S1 S'" "c1 \<le> c2" "c2 \<le> maxResponseLiterals"
          "int (length l2) - int (length l1) \<le> p2 - p1" by auto
        have "reads (1 + (c2 - c1)) S S'" by (rule reads_trans [OF rd1 i(1)])
        moreover have "1 + (c2 - c1) = c2 - cnt" using i(2) c by simp
        ultimately show ?thesis using i c tx by (simp add: r x2)
      qed
    qed
  qed
qed

definition text_cost :: "string list \<Rightarrow> int" where
  "text_cost ls = sum_list (map (\<lambda>l. int (length l) + responseLineOverhead) ls)"

lemma exec_loop_reads:
  assumes "exec_loop L tag S acc resp cnt refused = ((ls, e), S')" "cnt \<le> maxResponseLiterals"
    and "text_cost acc \<le> resp" "resp \<le> maxResponseBytes"
  shows "reads (maxResponseLiterals - cnt) S S' \<and> text_cost ls \<le> maxResponseBytes"
  using assms
proof (induction L tag S acc resp cnt refused arbitrary: ls e S' rule: exec_loop.induct)
  case (1 L tag S acc resp cnt refused)
  have nil: "text_cost [] \<le> maxResponseBytes" by (simp add: text_cost_def maxResponseBytes_def)
  obtain r S1 where rl: "readBoundedLine S = (r, S1)" by (cases "readBoundedLine S")
  note rd0 = readBoundedLine_reads [OF rl]
  then have rd: "reads (maxResponseLiterals - cnt) S S1" by (rule reads_mono) simp
  show ?case
  proof (cases r)
    case (Inl x)
    with rl "1.prems"(1) have "S' = S1" "ls = []" by (subst (asm) exec_loop.simps, simp)+
    with rd nil show ?thesis by simp
  next
    case (Inr line)
    let ?resp1 = "resp + int (length line) + responseLineOverhead"
    show ?thesis
    proof (cases "?resp1 > maxResponseBytes")
      case True
      with rl Inr "1.prems"(1) have "S' = abandon resp_too_long S1" "ls = []"
        by (subst (asm) exec_loop.simps, simp add: Let_def)+
      with reads_abandon [OF rd] nil show ?thesis by simp
    next
      case False
      obtain r2 S2 where lp: "lit_loop L S1 (line, ?resp1, cnt, refused) = (r2, S2)"
        by (cases "lit_loop L S1 (line, ?resp1, cnt, refused)")
      note ll = lit_loop_reads [OF lp refl "1.prems"(2)]
      show ?thesis
      proof (cases r2)
        case (Inl x)
        with rl Inr False lp "1.prems"(1) have "S' = S2" "ls = []" by (subst (asm) exec_loop.simps, simp add: Let_def)+
        with ll Inl reads_trans [OF rd0] nil show ?thesis by auto
      next
        case r2: (Inr x)
        obtain l2 p2 c2 f2 where x: "x = (l2, p2, c2, f2)" by (cases x)
        have i: "reads (c2 - cnt) S S2" "cnt \<le> c2" "c2 \<le> maxResponseLiterals" "int (length l2) - int (length line) \<le> p2 - ?resp1"
          using ll reads_trans [OF rd0, of "c2 - cnt" S2] by (auto simp: r2 x)
        have p2: "p2 \<le> maxResponseBytes" using lit_loop_resp [OF lp [unfolded r2 x]] False by simp
        have tc: "text_cost (acc @ [l2]) \<le> p2"
          using i(4) "1.prems"(3) by (simp add: text_cost_def)
        have acc: "text_cost acc \<le> maxResponseBytes" using "1.prems"(3,4) by simp
        show ?thesis
        proof (cases "HasPrefix l2 (tag @ '' '')")
          case True
          with rl Inr False lp r2 x "1.prems"(1) have "S' = S2" "ls = acc"
            by (subst (asm) exec_loop.simps, auto simp: Let_def split: if_splits)+
          with i acc show ?thesis by (auto intro: reads_mono)
        next
          case no: False
          with rl Inr False lp r2 x "1.prems"(1)
          have ex: "exec_loop L tag S2 (acc @ [l2]) p2 c2 f2 = ((ls, e), S')"
            by (subst (asm) exec_loop.simps) (simp add: Let_def)
          have "reads (maxResponseLiterals - c2) S2 S' \<and> text_cost ls \<le> maxResponseBytes"
            using "1.IH" [OF rl [symmetric] Inr refl False lp [symmetric] r2 [unfolded x] refl refl refl no ex i(3) tc p2] .
          then show ?thesis using reads_trans [OF i(1), of "maxResponseLiterals - c2" S'] i(2,3) by simp
        qed
      qed
    qed
  qed
qed

text \<open>A command adds one line to what was sent, at most 64 literals and a bounded amount of text.\<close>

definition commands :: "imap_session \<Rightarrow> string \<Rightarrow> imap_session \<Rightarrow> bool" where
  "commands S line S' \<longleftrightarrow>
     im_maxLiteral S' = im_maxLiteral S \<and> im_commandTO S' = im_commandTO S \<and>
     im_uidValidity S' = im_uidValidity S \<and> im_exists S' = im_exists S \<and> im_index S' = im_index S \<and>
     im_indexed S' = im_indexed S \<and> im_deleted S' = im_deleted S \<and> nc_tls (im_conn S') = nc_tls (im_conn S) \<and>
     nc_sent (im_conn S') = nc_sent (im_conn S) @
       (if im_broken S = None then logged (im_conn S) (next_tag S @ '' '' @ line) else []) \<and>
     (im_broken S' = im_broken S \<and> nc_open (im_conn S') = nc_open (im_conn S) \<or>
      im_broken S' \<noteq> None \<and> \<not> nc_open (im_conn S'))"

lemma execRaw_commands:
  assumes "execRaw L env line S = ((ls, e), S')"
  shows "commands S line S'" and "text_cost ls \<le> maxResponseBytes"
    and "length (im_literals S') \<le> max maxResponseLiterals (length (im_literals S))"
    and "im_literals S' \<noteq> im_literals S \<Longrightarrow> \<forall>l\<in>set (im_literals S'). \<not> over_limit S (int (length l))"
proof -
  have nil: "text_cost [] \<le> maxResponseBytes" "text_cost [] \<le> 0" "0 \<le> maxResponseBytes"
    by (simp_all add: text_cost_def maxResponseBytes_def)
  have "commands S line S' \<and> text_cost ls \<le> maxResponseBytes \<and>
    length (im_literals S') \<le> max maxResponseLiterals (length (im_literals S)) \<and>
    (im_literals S' \<noteq> im_literals S \<longrightarrow> (\<forall>l\<in>set (im_literals S'). \<not> over_limit S (int (length l))))"
  proof (cases "im_broken S")
    case (Some x)
    with assms nil show ?thesis by (auto simp: execRaw_def commands_def)
  next
    case ok: None
    let ?S1 = "S\<lparr>im_tagN := im_tagN S + 1\<rparr>"
    obtain w cn where w: "net_write env (next_tag S @ '' '' @ line) (im_conn S) = (w, cn)"
      by (cases "net_write env (next_tag S @ '' '' @ line) (im_conn S)")
    note wk = net_write_keeps [OF w]
    show ?thesis
    proof (cases w)
      case (Some x)
      with assms w ok have "ls = []" "S' = ?S1\<lparr>im_conn := cn\<rparr>" by (auto simp: execRaw_def Let_def)
      with wk ok nil show ?thesis by (simp add: commands_def)
    next
      case None
      let ?S2 = "?S1\<lparr>im_conn := cn, im_literals := []\<rparr>"
      have "exec_loop L (next_tag S) ?S2 [] 0 0 None = ((ls, e), S')"
        using assms w ok None by (simp add: execRaw_def Let_def)
      from exec_loop_reads [OF this _ nil(2,3)]
      have r: "reads maxResponseLiterals ?S2 S'" "text_cost ls \<le> maxResponseBytes" by simp_all
      have l: "length (im_literals S') \<le> maxResponseLiterals" "\<forall>l\<in>set (im_literals S'). \<not> over_limit S (int (length l))"
        using r(1) by (auto simp: reads_def)
      have "commands S line S'" using r(1) wk ok by (auto simp: reads_def commands_def)
      with r(2) l show ?thesis by simp
    qed
  qed
  then show "commands S line S'" "text_cost ls \<le> maxResponseBytes"
    "length (im_literals S') \<le> max maxResponseLiterals (length (im_literals S))"
    "im_literals S' \<noteq> im_literals S \<Longrightarrow> \<forall>l\<in>set (im_literals S'). \<not> over_limit S (int (length l))"
    by blast+
qed

lemma exec_commands: "exec L env fmt line S = ((ls, e), S') \<Longrightarrow> commands S line S'"
  by (auto simp: exec_def split: prod.splits intro: execRaw_commands(1))

section \<open>The errors of a command\<close>

text \<open>An error that says nothing about credentials.\<close>

definition harmless :: "in_err \<Rightarrow> bool" where
  "harmless e = (\<not> is_credential e \<and> rejected_code e = None)"

lemma harmless_simps [simp]:
  "harmless (NetFault k m)" "harmless (Plain m)" "harmless (unframed m)" "harmless (Note m e) = harmless e"
  "harmless resp_too_long" "harmless (refusal S n)" "harmless closed_fault"
  by (simp_all add: harmless_def unframed_def resp_too_long_def refusal_def closed_fault_def)

lemma read_slice_fault: "read_slice n s = ((frag, SliceFault f), s') \<Longrightarrow> harmless f"
  by (induction n arbitrary: s frag) (auto split: net_byte.splits if_splits prod.splits)

lemma bounded_from_fault: "bounded_from acc s = (Inl (Some f), s') \<Longrightarrow> harmless f"
proof (induction acc s rule: bounded_from.induct)
  case (1 acc s)
  obtain frag e s1 where r: "read_slice bufferSize s = ((frag, e), s1)" by (cases "read_slice bufferSize s") auto
  show ?case
  proof (cases e)
    case SliceFound
    with r "1.prems" show ?thesis by (subst (asm) bounded_from.simps) (simp split: if_splits)
  next
    case BufferFull
    with r "1.prems" show ?thesis
      by (subst (asm) bounded_from.simps) (auto split: if_splits dest: "1.IH" [OF r [symmetric] refl])
  next
    case (SliceFault g)
    with r "1.prems" read_slice_fault show ?thesis by (subst (asm) bounded_from.simps) auto
  qed
qed

lemma readBoundedLine_fault: "readBoundedLine S = (Inl e, S') \<Longrightarrow> harmless e"
  by (auto simp: readBoundedLine_def Let_def split: prod.splits sum.splits option.splits dest: bounded_from_fault)

lemma read_exact_fault: "read_exact n s = (Inl e, s') \<Longrightarrow> harmless e"
  by (induction n arbitrary: s) (auto split: net_byte.splits prod.splits sum.splits)

lemma take_literal_fault:
  "(if over_limit S n then discardLiteral n S else readLiteral n S) = (Some e, S') \<Longrightarrow> harmless e"
  by (auto simp: discardLiteral_def readLiteral_def Let_def split: if_splits prod.splits sum.splits dest: read_exact_fault)

lemma lit_step_fault:
  assumes "lit_step L S ds (line, resp, cnt, refused) = (r, S')" "\<And>x. refused = Some x \<Longrightarrow> harmless x"
  shows "(\<forall>e. r = Inl e \<longrightarrow> harmless e) \<and>
    (\<forall>l' p' c' f'. r = Inr (l', p', c', Some f') \<longrightarrow> harmless f')"
proof -
  obtain n ok where n: "Atoi ds = (n, ok)" by (cases "Atoi ds")
  obtain e1 S1 where t: "(if over_limit S n then discardLiteral n S else readLiteral n S) = (e1, S1)"
    by (cases "if over_limit S n then discardLiteral n S else readLiteral n S")
  obtain c S2 where c: "readBoundedLine S1 = (c, S2)" by (cases "readBoundedLine S1")
  show ?thesis
    using assms n t c take_literal_fault [of S n _ S1] readBoundedLine_fault [of S1 _ S2]
    by (cases ok) (auto simp: lit_step_def Let_def split: option.splits sum.splits if_splits)
qed

lemma lit_loop_fault:
  assumes "lit_loop L S x = (r, S')" "x = (line, resp, cnt, refused)" "\<And>x. refused = Some x \<Longrightarrow> harmless x"
  shows "(\<forall>e. r = Inl e \<longrightarrow> harmless e) \<and> (\<forall>l' p' c' f'. r = Inr (l', p', c', Some f') \<longrightarrow> harmless f')"
  using assms
proof (induction L S x arbitrary: line resp cnt refused rule: lit_loop.induct)
  case (1 L S x)
  show ?case
  proof (cases "lit_suffix (fst x)")
    case None
    with "1.prems" show ?thesis by (subst (asm) lit_loop.simps) auto
  next
    case (Some ds)
    obtain r1 S1 where st: "lit_step L S ds x = (r1, S1)" by (cases "lit_step L S ds x")
    note sf = lit_step_fault [OF st [unfolded "1.prems"(2)] "1.prems"(3)]
    show ?thesis
    proof (cases r1)
      case (Inl e)
      with Some st "1.prems"(1) have "r = Inl e" by (subst (asm) lit_loop.simps) simp
      with sf Inl show ?thesis by simp
    next
      case (Inr x1)
      obtain l1 p1 c1 f1 where x1: "x1 = (l1, p1, c1, f1)" by (cases x1)
      have lp: "lit_loop L S1 x1 = (r, S')"
        using Some st Inr "1.prems"(1) by (subst (asm) lit_loop.simps) simp
      show ?thesis
        by (rule "1.IH" [OF Some st [symmetric] Inr lp x1]) (use sf Inr x1 in auto)
    qed
  qed
qed

lemma exec_loop_fault:
  assumes "exec_loop L tag S acc resp cnt refused = ((ls, Some e), S')" "\<And>x. refused = Some x \<Longrightarrow> harmless x"
  shows "\<not> is_credential e"
  using assms
proof (induction L tag S acc resp cnt refused rule: exec_loop.induct)
  case (1 L tag S acc resp cnt refused)
  have h: "harmless x \<Longrightarrow> \<not> is_credential x" for x by (simp add: harmless_def)
  obtain r S1 where rl: "readBoundedLine S = (r, S1)" by (cases "readBoundedLine S")
  show ?case
  proof (cases r)
    case (Inl x)
    with rl "1.prems"(1) readBoundedLine_fault h show ?thesis by (subst (asm) exec_loop.simps) auto
  next
    case (Inr line)
    let ?resp1 = "resp + int (length line) + responseLineOverhead"
    show ?thesis
    proof (cases "?resp1 > maxResponseBytes")
      case True
      with rl Inr "1.prems"(1) have "e = resp_too_long" by (subst (asm) exec_loop.simps) (simp add: Let_def)
      then show ?thesis by (simp add: h)
    next
      case False
      obtain r2 S2 where lp: "lit_loop L S1 (line, ?resp1, cnt, refused) = (r2, S2)"
        by (cases "lit_loop L S1 (line, ?resp1, cnt, refused)")
      note lf = lit_loop_fault [OF lp refl "1.prems"(2)]
      show ?thesis
      proof (cases r2)
        case (Inl x)
        with rl Inr False lp "1.prems"(1) have "e = x" by (subst (asm) exec_loop.simps) (simp add: Let_def)
        with lf Inl h show ?thesis by simp
      next
        case r2: (Inr x)
        obtain l2 p2 c2 f2 where x: "x = (l2, p2, c2, f2)" by (cases x)
        have f2: "f2 = Some y \<Longrightarrow> harmless y" for y using lf by (simp add: r2 x)
        show ?thesis
        proof (cases "HasPrefix l2 (tag @ '' '')")
          case True
          with rl Inr False lp r2 x "1.prems"(1) f2 h show ?thesis
            by (subst (asm) exec_loop.simps) (auto simp: Let_def split: if_splits)
        next
          case no: False
          with rl Inr False lp r2 x "1.prems"(1)
          have ex: "exec_loop L tag S2 (acc @ [l2]) p2 c2 f2 = ((ls, Some e), S')"
            by (subst (asm) exec_loop.simps) (simp add: Let_def)
          show ?thesis
            by (rule "1.IH" [OF rl [symmetric] Inr refl False lp [symmetric] r2 [unfolded x] refl refl refl no ex f2])
        qed
      qed
    qed
  qed
qed

text \<open>A command that fails on a sound session: what the error says, and when the server refused it.\<close>

lemma exec_fault:
  assumes "exec L env fmt line S = ((ls, Some e), S')" "im_broken S = None"
  shows "\<not> is_credential e"
    and "rejected_code e \<noteq> None \<Longrightarrow> nc_sent (im_conn S') = nc_sent (im_conn S) @ [(nc_tls (im_conn S), next_tag S @ '' '' @ line)]"
proof -
  obtain x where x: "execRaw L env line S = ((ls, Some x), S')" "is_credential e = is_credential x"
    "rejected_code e = rejected_code x"
    using assms(1) by (auto simp: exec_def failed_def split: prod.splits)
  obtain w cn where w: "net_write env (next_tag S @ '' '' @ line) (im_conn S) = (w, cn)"
    by (cases "net_write env (next_tag S @ '' '' @ line) (im_conn S)")
  have "\<not> is_credential x \<and> (rejected_code x \<noteq> None \<longrightarrow> nc_open (im_conn S))"
  proof (cases w)
    case (Some y)
    with x(1) w assms(2) have "x = y" by (simp add: execRaw_def Let_def)
    with net_write_fault [OF w [unfolded Some]] show ?thesis by simp
  next
    case None
    with x(1) w assms(2)
    have "exec_loop L (next_tag S) (S\<lparr>im_tagN := im_tagN S + 1, im_conn := cn, im_literals := []\<rparr>) [] 0 0 None = ((ls, Some x), S')"
      by (simp add: execRaw_def Let_def)
    from exec_loop_fault [OF this] have "\<not> is_credential x" by simp
    moreover have "nc_open (im_conn S)" using w None by (auto simp: net_write_def split: if_splits)
    ultimately show ?thesis by simp
  qed
  with x(2,3) execRaw_commands(1) [OF x(1)] assms(2)
  show "\<not> is_credential e"
    "rejected_code e \<noteq> None \<Longrightarrow> nc_sent (im_conn S') = nc_sent (im_conn S) @ [(nc_tls (im_conn S), next_tag S @ '' '' @ line)]"
    by (simp_all add: commands_def logged_def)
qed

text \<open>A command that succeeds leaves the session as sound as it was.\<close>

lemma readBoundedLine_sound: "readBoundedLine S = (Inr l, S') \<Longrightarrow> im_broken S' = im_broken S"
  by (auto simp: readBoundedLine_def Let_def split: prod.splits sum.splits option.splits)

lemma lit_step_sound: "lit_step L S ds x = (Inr y, S') \<Longrightarrow> im_broken S' = im_broken S"
  by (auto simp: lit_step_def Let_def discardLiteral_def readLiteral_def
      split: prod.splits bool.splits option.splits sum.splits if_splits dest!: readBoundedLine_sound)

lemma lit_loop_sound: "lit_loop L S x = (Inr y, S') \<Longrightarrow> im_broken S' = im_broken S"
proof (induction L S x rule: lit_loop.induct)
  case (1 L S x)
  show ?case
  proof (cases "lit_suffix (fst x)")
    case None
    with "1.prems" show ?thesis by (subst (asm) lit_loop.simps) simp
  next
    case (Some ds)
    obtain r1 S1 where st: "lit_step L S ds x = (r1, S1)" by (cases "lit_step L S ds x")
    with Some "1.prems" obtain x1 where "r1 = Inr x1" "lit_loop L S1 x1 = (Inr y, S')"
      by (subst (asm) lit_loop.simps) (auto split: sum.splits)
    with "1.IH" [OF Some st [symmetric]] lit_step_sound st show ?thesis by fastforce
  qed
qed

lemma exec_loop_sound: "exec_loop L tag S acc resp cnt refused = ((ls, None), S') \<Longrightarrow> im_broken S' = im_broken S"
proof (induction L tag S acc resp cnt refused rule: exec_loop.induct)
  case (1 L tag S acc resp cnt refused)
  obtain r S1 where rl: "readBoundedLine S = (r, S1)" by (cases "readBoundedLine S")
  from "1.prems" rl obtain line where r: "r = Inr line" by (subst (asm) exec_loop.simps) (auto split: sum.splits)
  let ?resp1 = "resp + int (length line) + responseLineOverhead"
  from "1.prems" rl r have le: "\<not> ?resp1 > maxResponseBytes" by (subst (asm) exec_loop.simps) (auto simp: Let_def split: if_splits)
  obtain r2 S2 where lp: "lit_loop L S1 (line, ?resp1, cnt, refused) = (r2, S2)"
    by (cases "lit_loop L S1 (line, ?resp1, cnt, refused)")
  from "1.prems" rl r le lp obtain x where r2: "r2 = Inr x"
    by (subst (asm) exec_loop.simps) (auto simp: Let_def split: sum.splits)
  obtain l2 p2 c2 f2 where x: "x = (l2, p2, c2, f2)" by (cases x)
  have b: "im_broken S2 = im_broken S"
    using readBoundedLine_sound [OF rl [unfolded r]] lit_loop_sound [OF lp [unfolded r2]] by simp
  show ?case
  proof (cases "HasPrefix l2 (tag @ '' '')")
    case True
    with "1.prems" rl r le lp r2 x b show ?thesis
      by (subst (asm) exec_loop.simps) (auto simp: Let_def split: if_splits)
  next
    case no: False
    with "1.prems" rl r le lp r2 x have "exec_loop L tag S2 (acc @ [l2]) p2 c2 f2 = ((ls, None), S')"
      by (subst (asm) exec_loop.simps) (simp add: Let_def)
    with "1.IH" [OF rl [symmetric] r refl le lp [symmetric] r2 [unfolded x] refl refl refl no] b show ?thesis by simp
  qed
qed

lemma exec_sound: "exec L env fmt line S = ((ls, None), S') \<Longrightarrow> im_broken S' = im_broken S"
  by (auto simp: exec_def execRaw_def Let_def split: prod.splits option.splits dest!: exec_loop_sound)

end
