(* ===== verification/Imap_Client.thy ===== *)
theory Imap_Client
  imports Imap_Stream Sample_World
begin

text \<open>
  The IMAP client (\<open>src/internal/adapters/imap/client.go\<close>) on the protocol reader of
  \<open>Imap_Stream\<close>: opening a session, selecting and enumerating a mailbox, fetching and deleting.
  Waiting for changes (\<open>Idle\<close>), the list of folders and the discovery of the Sent folder are not
  modelled.
\<close>

section \<open>Texts of responses\<close>

text \<open>The patterns with one number: anchored at the start of the line, or the leftmost occurrence.\<close>

definition line_number :: "string \<Rightarrow> string \<Rightarrow> string \<Rightarrow> string option" where
  "line_number pre post l =
     (let r = drop (length pre) l; ds = takeWhile is_digit r
      in if prefix pre l \<and> ds \<noteq> [] \<and> prefix post (drop (length ds) r) then Some ds else None)"

fun find_number :: "string \<Rightarrow> string \<Rightarrow> string option" where
  "find_number pre [] = None"
| "find_number pre (c # s) =
     (let ds = takeWhile is_digit (drop (length pre) (c # s))
      in if prefix pre (c # s) \<and> ds \<noteq> [] then Some ds else find_number pre s)"

definition reFetch :: "string \<Rightarrow> string option" where "reFetch = line_number ''* '' '' FETCH ''"
definition reExist :: "string \<Rightarrow> string option" where "reExist = line_number ''* '' '' EXISTS''"
definition reUID :: "string \<Rightarrow> string option" where "reUID = find_number ''UID ''"
definition reSize :: "string \<Rightarrow> string option" where "reSize = find_number ''RFC822.SIZE ''"
definition reValid :: "string \<Rightarrow> string option" where "reValid = find_number ''UIDVALIDITY ''"

definition quote :: "string \<Rightarrow> string" where
  "quote s = CHR 0x22 # concat (map (\<lambda>c. if c = CHR 0x5C \<or> c = CHR 0x22 then [CHR 0x5C, c] else [c]) s) @ [CHR 0x22]"

text \<open>The greeting, whatever its case; non-ASCII text never folds to the ASCII conditions here.\<close>

definition isGreeting :: "string \<Rightarrow> bool" where
  "isGreeting line =
     (prefix ''* '' line \<and>
      (let rest = drop 2 line
       in list_ex (\<lambda>cond. length rest \<ge> length cond \<and> map ascii_upper (take (length cond) rest) = cond \<and>
            (length rest = length cond \<or> rest ! length cond = CHR '' '')) [''OK'', ''PREAUTH'', ''BYE'']))"

section \<open>Mailboxes\<close>

text \<open>What the lines of a \<open>SELECT\<close> say; a number out of range counts as the largest one.\<close>

definition select_line :: "string \<Rightarrow> imap_session \<Rightarrow> imap_session" where
  "select_line l S =
     (let S1 = (case reExist l of Some ds \<Rightarrow> S\<lparr>im_exists := fst (Atoi ds)\<rparr> | None \<Rightarrow> S)
      in case reValid l of Some v \<Rightarrow> S1\<lparr>im_uidValidity := v\<rparr> | None \<Rightarrow> S1)"

definition selectInbox :: "lib \<Rightarrow> imap_env \<Rightarrow> imap_session \<Rightarrow> in_err option \<times> imap_session" where
  "selectInbox L env S =
     (case exec L env ''SELECT INBOX'' ''SELECT INBOX'' S of
        ((_, Some e), S1) \<Rightarrow> (Some (Note ''SELECT INBOX'' e), S1)
      | ((lines, None), S1) \<Rightarrow> (None, fold select_line lines S1))"

definition SelectMailbox :: "lib \<Rightarrow> imap_env \<Rightarrow> string \<Rightarrow> imap_session \<Rightarrow> in_err option \<times> imap_session" where
  "SelectMailbox L env name S =
     (case exec L env ''SELECT %s'' (''SELECT '' @ quote name) S of
        ((_, Some e), S1) \<Rightarrow> (Some (Note (''SELECT '' @ name) e), S1)
      | ((lines, None), S1) \<Rightarrow>
          (None, fold select_line lines (S1\<lparr>im_exists := 0, im_index := [], im_indexed := False\<rparr>)))"

definition fetch_entry :: "string \<Rightarrow> string \<Rightarrow> RemoteMessage option" where
  "fetch_entry validity l =
     (case reFetch l of
        None \<Rightarrow> None
      | Some ds \<Rightarrow>
          Some \<lparr>rm_Number = fst (Atoi ds),
                rm_UIDL = (case reUID l of Some u \<Rightarrow> validity @ ''.'' @ u | None \<Rightarrow> []),
                rm_Size = (case reSize l of Some n \<Rightarrow> fst (Atoi n) | None \<Rightarrow> 0)\<rparr>)"

definition enumerateBatch :: int where "enumerateBatch = 2000"

text \<open>
  The loop of \<open>ensureIndex\<close>, with the number of messages of the mailbox; the sequence numbers are
  far from the end of the 64-bit range.
\<close>

function index_loop :: "lib \<Rightarrow> imap_env \<Rightarrow> int \<Rightarrow> int \<Rightarrow> imap_session \<Rightarrow> in_err option \<times> imap_session" where
  "index_loop L env cnt start S =
     (if start > cnt then (None, S)
      else (let fin = min (start + enumerateBatch - 1) cnt
            in case exec L env ''FETCH %d:%d (UID RFC822.SIZE)''
                      (''FETCH '' @ fmt_d start @ '':'' @ fmt_d fin @ '' (UID RFC822.SIZE)'') S of
                 ((_, Some e), S1) \<Rightarrow> (Some e, S1)
               | ((lines, None), S1) \<Rightarrow>
                   index_loop L env cnt (start + enumerateBatch)
                     (S1\<lparr>im_index := im_index S1 @ List.map_filter (fetch_entry (im_uidValidity S1)) lines\<rparr>)))"
  by pat_completeness auto
termination
  by (relation "measure (\<lambda>(L, env, cnt, start, S). nat (cnt + 1 - start))") (auto simp: enumerateBatch_def)

declare index_loop.simps [simp del]

definition ensureIndex :: "lib \<Rightarrow> imap_env \<Rightarrow> imap_session \<Rightarrow> in_err option \<times> imap_session" where
  "ensureIndex L env S =
     (if im_indexed S then (None, S)
      else (let S1 = S\<lparr>im_indexed := True\<rparr>
            in if im_exists S1 = 0 then (None, S1) else index_loop L env (im_exists S1) 1 S1))"

definition imap_UIDL :: "lib \<Rightarrow> imap_env \<Rightarrow> imap_session \<Rightarrow> (in_err + RemoteMessage list) \<times> imap_session" where
  "imap_UIDL L env S =
     (case ensureIndex L env S of (Some e, S1) \<Rightarrow> (Inl e, S1) | (None, S1) \<Rightarrow> (Inr (im_index S1), S1))"

definition imap_List :: "lib \<Rightarrow> imap_env \<Rightarrow> imap_session \<Rightarrow> (in_err + RemoteMessage list) \<times> imap_session" where
  "imap_List L env S =
     (case ensureIndex L env S of (Some e, S1) \<Rightarrow> (Inl e, S1) | (None, S1) \<Rightarrow> (Inr (im_index S1), S1))"

section \<open>Messages\<close>

definition firstLiteral :: "imap_session \<Rightarrow> (in_err + string) \<times> imap_session" where
  "firstLiteral S =
     (case im_literals S of
        [] \<Rightarrow> (Inl (Plain ''no message literal in FETCH response''), S)
      | l # _ \<Rightarrow> (Inr l, S\<lparr>im_literals := []\<rparr>))"

definition imap_Retrieve :: "lib \<Rightarrow> imap_env \<Rightarrow> int \<Rightarrow> imap_session \<Rightarrow> (in_err + string) \<times> imap_session" where
  "imap_Retrieve L env number S =
     (case exec L env ''FETCH %d (BODY.PEEK[])'' (''FETCH '' @ fmt_d number @ '' (BODY.PEEK[])'') S of
        ((_, Some e), S1) \<Rightarrow> (Inl e, S1)
      | ((_, None), S1) \<Rightarrow> firstLiteral S1)"

definition imap_Top :: "lib \<Rightarrow> imap_env \<Rightarrow> int \<Rightarrow> imap_session \<Rightarrow> (in_err + string) \<times> imap_session" where
  "imap_Top L env number S =
     (case exec L env ''FETCH %d (BODY.PEEK[HEADER])'' (''FETCH '' @ fmt_d number @ '' (BODY.PEEK[HEADER])'') S of
        ((_, Some e), S1) \<Rightarrow> (Inl e, S1)
      | ((_, None), S1) \<Rightarrow> firstLiteral S1)"

definition imap_Delete :: "lib \<Rightarrow> imap_env \<Rightarrow> int \<Rightarrow> imap_session \<Rightarrow> in_err option \<times> imap_session" where
  "imap_Delete L env number S =
     (case exec L env (''STORE %d +FLAGS ('' @ [CHR 0x5C] @ ''Deleted)'') (''STORE '' @ fmt_d number @ '' +FLAGS ('' @ [CHR 0x5C] @ ''Deleted)'') S of
        ((_, Some e), S1) \<Rightarrow> (Some e, S1)
      | ((_, None), S1) \<Rightarrow> (None, S1\<lparr>im_deleted := True\<rparr>))"

definition imap_Quit :: "lib \<Rightarrow> imap_env \<Rightarrow> imap_session \<Rightarrow> in_err option \<times> imap_session" where
  "imap_Quit L env S =
     (let S1 = (if im_deleted S then snd (exec L env ''EXPUNGE'' ''EXPUNGE'' S) else S)
      in case exec L env ''LOGOUT'' ''LOGOUT'' S1 of ((_, e), S2) \<Rightarrow> (e, im_close S2))"

section \<open>Opening a session\<close>

definition imap_connectFailure :: "lib \<Rightarrow> in_err \<Rightarrow> int \<Rightarrow> int \<Rightarrow> in_err" where
  "imap_connectFailure L e elapsed timeout =
     Staged (if ClassifyInbound L e \<in> {''tls_certificate'', ''tls_handshake''} then ''tls_handshake'' else ''tcp_connect'')
       [] (ClassifyInbound L e) [] elapsed timeout (Note ''imap connect'' e)"

definition imap_starttls :: "lib \<Rightarrow> imap_env \<Rightarrow> imap_session \<Rightarrow> in_err option \<times> imap_session" where
  "imap_starttls L env S =
     (let el = ne_elapsed env (length (nc_sent (im_conn S)))
      in case exec L env ''STARTTLS'' ''STARTTLS'' S of
           ((_, Some e), S1) \<Rightarrow> (Some (Note ''STARTTLS'' e), im_close S1)
         | ((_, None), S1) \<Rightarrow>
             if ne_buffered env > 0
             then (let refused = Plain (''STARTTLS: server sent '' @ dec (ne_buffered env) @ '' bytes before TLS handshake'')
                   in (Some (Staged ''starttls'' ''STARTTLS'' (ClassifyInbound L refused) [] el (im_commandTO S1) refused),
                       im_close S1))
             else case ne_handshake env of
                    Some (k, m) \<Rightarrow>
                      (Some (Staged ''tls_handshake'' ''STARTTLS'' (ClassifyInbound L (NetFault k m)) [] el (im_commandTO S1)
                               (Note ''STARTTLS handshake'' (NetFault k m))), im_close S1)
                  | None \<Rightarrow> (None, S1\<lparr>im_conn := (im_conn S1)\<lparr>nc_in := ne_lines env True, nc_tls := True\<rparr>\<rparr>))"

definition imap_loginFailure :: "in_err \<Rightarrow> in_err" where
  "imap_loginFailure e =
     (case rejected_code e of
        Some code \<Rightarrow> if \<not> TemporaryRefusal code then Credential (Note ''LOGIN rejected'' e) else Note ''LOGIN'' e
      | None \<Rightarrow> Note ''LOGIN'' e)"

definition imap_login :: "lib \<Rightarrow> imap_env \<Rightarrow> bool \<Rightarrow> InboundDialOptions \<Rightarrow> imap_session \<Rightarrow> in_err option \<times> imap_session" where
  "imap_login L env preAuth opts S =
     (if preAuth \<or> do_Username opts = [] then (None, S)
      else let pass = (case do_Password opts of Some p \<Rightarrow> p | None \<Rightarrow> [])
           in case exec L env ''LOGIN %s %s'' (''LOGIN '' @ quote (do_Username opts) @ '' '' @ quote pass) S of
                ((_, Some e), S1) \<Rightarrow> (Some (imap_loginFailure e), im_close S1)
              | ((_, None), S1) \<Rightarrow> (None, S1))"

definition imap_open :: "imap_env \<Rightarrow> InboundDialOptions \<Rightarrow> imap_session" where
  "imap_open env opts =
     (let tls = (do_Security opts = SecurityTLS)
      in \<lparr>im_conn = \<lparr>nc_in = ne_lines env tls, nc_sent = [], nc_tls = tls, nc_open = True\<rparr>,
          im_commandTO = secondsOr (do_CommandTimeoutSec opts) 60, im_maxLiteral = do_MaxMessageBytes opts,
          im_tagN = 0, im_uidValidity = [], im_exists = 0, im_index = [], im_indexed = False, im_deleted = False,
          im_literals = [], im_broken = None\<rparr>)"

text \<open>What is left of \<open>Dial\<close> after the greeting: the upgrade, the credentials, the inbox.\<close>

definition imap_enter :: "lib \<Rightarrow> imap_env \<Rightarrow> bool \<Rightarrow> InboundDialOptions \<Rightarrow> imap_session \<Rightarrow> in_err option \<times> imap_session" where
  "imap_enter L env preAuth opts S =
     (case (if do_Security opts = SecurityStartTLS then imap_starttls L env S else (None, S)) of
        (Some e, S1) \<Rightarrow> (Some e, S1)
      | (None, S1) \<Rightarrow>
          (case imap_login L env preAuth opts S1 of
             (Some e, S2) \<Rightarrow> (Some e, S2)
           | (None, S2) \<Rightarrow>
               (case selectInbox L env S2 of
                  (Some e, S3) \<Rightarrow> (Some e, im_close S3)
                | (None, S3) \<Rightarrow> (None, S3))))"

definition imap_Dial :: "lib \<Rightarrow> imap_env \<Rightarrow> InboundDialOptions \<Rightarrow> in_err option \<times> imap_session" where
  "imap_Dial L env opts =
     (let S = imap_open env opts; connectTO = secondsOr (do_ConnectTimeoutSec opts) 15; el = ne_elapsed env 0
      in case do_Security opts of
           SecurityOther s \<Rightarrow> (Some (Plain (''unknown security mode '' @ go_quote L s)), im_close S)
         | _ \<Rightarrow>
             (case ne_dial env of
                Some (k, m) \<Rightarrow> (Some (imap_connectFailure L (NetFault k m) el connectTO), im_close S)
              | None \<Rightarrow>
                  (case readBoundedLine S of
                     (Inl e, S1) \<Rightarrow> (Some (failed L ''greeting'' [] (Note ''imap greeting'' e) el S1), im_close S1)
                   | (Inr greeting, S1) \<Rightarrow>
                       if HasPrefix greeting ''* BYE''
                       then (Some (failed L ''greeting'' [] (Negative (InboundResponseCode L greeting) None) el S1), im_close S1)
                       else if \<not> isGreeting greeting
                       then (Some (failed L ''greeting'' [] (Plain (''imap greeting: '' @ dec (length greeting) @
                               '' bytes that are not an IMAP greeting (no untagged OK, PREAUTH or BYE)'')) el S1), im_close S1)
                       else imap_enter L env (HasPrefix greeting ''* PREAUTH'') opts S1)))"

section \<open>What the operations send\<close>

text \<open>Every line an operation adds is sent with the encryption the session has.\<close>

definition adds :: "imap_session \<Rightarrow> imap_session \<Rightarrow> bool" where
  "adds S S' \<longleftrightarrow> nc_tls (im_conn S') = nc_tls (im_conn S) \<and>
     (\<exists>new. nc_sent (im_conn S') = nc_sent (im_conn S) @ map (\<lambda>l. (nc_tls (im_conn S), l)) new) \<and>
     (im_broken S \<noteq> None \<longrightarrow> nc_sent (im_conn S') = nc_sent (im_conn S) \<and> im_broken S' = im_broken S)"

lemma adds_refl [intro, simp]: "adds S S"
  by (simp add: adds_def)

lemma adds_trans [trans]:
  assumes "adds S S1" "adds S1 S2"
  shows "adds S S2"
proof -
  obtain n1 where n1: "nc_sent (im_conn S1) = nc_sent (im_conn S) @ map (\<lambda>l. (nc_tls (im_conn S), l)) n1"
    using assms(1) unfolding adds_def by blast
  obtain n2 where n2: "nc_sent (im_conn S2) = nc_sent (im_conn S1) @ map (\<lambda>l. (nc_tls (im_conn S1), l)) n2"
    using assms(2) unfolding adds_def by blast
  have "nc_sent (im_conn S2) = nc_sent (im_conn S) @ map (\<lambda>l. (nc_tls (im_conn S), l)) (n1 @ n2)"
    using n1 n2 assms(1) by (simp add: adds_def)
  then have "\<exists>new. nc_sent (im_conn S2) = nc_sent (im_conn S) @ map (\<lambda>l. (nc_tls (im_conn S), l)) new" ..
  with assms show ?thesis by (simp add: adds_def)
qed

lemma adds_cong:
  "im_conn S2 = im_conn S1 \<Longrightarrow> im_broken S2 = im_broken S1 \<Longrightarrow> adds S S1 \<Longrightarrow> adds S S2"
  by (simp add: adds_def)

lemma adds_close: "adds S S1 \<Longrightarrow> adds S (im_close S1)"
  by (simp add: adds_def im_close_def)

lemma exec_adds: "exec L env fmt line S = (r, S') \<Longrightarrow> adds S S'"
proof -
  assume "exec L env fmt line S = (r, S')"
  then obtain x where x: "execRaw L env line S = (x, S')" by (auto simp: exec_def split: prod.splits)
  have c: "commands S line S'" using execRaw_commands(1) [of L env line S "fst x" "snd x" S'] x by simp
  have "im_broken S \<noteq> None \<Longrightarrow> S' = S" using x by (auto simp: execRaw_def)
  with c show ?thesis
    by (auto simp: commands_def adds_def logged_def intro: exI [of _ "[]"] exI [of _ "[next_tag S @ '' '' @ line]"])
qed

lemma select_line_conn [simp]: "im_conn (select_line l S) = im_conn S" "im_broken (select_line l S) = im_broken S"
  by (simp_all add: select_line_def Let_def split: option.split)

lemma select_lines_conn [simp]:
  "im_conn (fold select_line ls S) = im_conn S" "im_broken (fold select_line ls S) = im_broken S"
  by (induction ls arbitrary: S) simp_all

lemma selectInbox_adds: "selectInbox L env S = (r, S') \<Longrightarrow> adds S S'"
  by (auto simp: selectInbox_def split: prod.splits option.splits dest!: exec_adds intro: adds_cong)

lemma SelectMailbox_adds: "SelectMailbox L env name S = (r, S') \<Longrightarrow> adds S S'"
  by (auto simp: SelectMailbox_def split: prod.splits option.splits dest!: exec_adds intro: adds_cong)

lemma index_loop_adds: "index_loop L env n start S = (r, S') \<Longrightarrow> adds S S' \<and> im_indexed S' = im_indexed S"
proof (induction L env n start S arbitrary: r S' rule: index_loop.induct)
  case (1 L env n start S)
  show ?case
  proof (cases "start > n")
    case True
    with "1.prems" show ?thesis by (subst (asm) index_loop.simps) simp
  next
    case False
    define fin where "fin = min (start + enumerateBatch - 1) n"
    obtain ls e S1 where x: "exec L env ''FETCH %d:%d (UID RFC822.SIZE)''
        (''FETCH '' @ fmt_d start @ '':'' @ fmt_d fin @ '' (UID RFC822.SIZE)'') S = ((ls, e), S1)"
      by (metis prod.collapse)
    note a = exec_adds [OF x] and c = exec_commands [OF x]
    show ?thesis
    proof (cases e)
      case (Some y)
      with "1.prems" False x have "S' = S1"
        unfolding index_loop.simps [of L env n start S] fin_def [symmetric] Let_def by simp
      with a c show ?thesis by (simp add: commands_def)
    next
      case None
      let ?S2 = "S1\<lparr>im_index := im_index S1 @ List.map_filter (fetch_entry (im_uidValidity S1)) ls\<rparr>"
      have lp: "index_loop L env n (start + enumerateBatch) ?S2 = (r, S')"
        using "1.prems" False x None
        unfolding index_loop.simps [of L env n start S] fin_def [symmetric] Let_def by simp
      have "adds ?S2 S' \<and> im_indexed S' = im_indexed ?S2"
        by (rule "1.IH" [OF False fin_def x [symmetric] refl None lp])
      moreover have "adds S ?S2" using a by (rule adds_cong [rotated 2]) simp_all
      ultimately show ?thesis using c adds_trans by (auto simp: commands_def)
    qed
  qed
qed

lemma ensureIndex_adds: "ensureIndex L env S = (r, S') \<Longrightarrow> adds S S' \<and> im_indexed S'"
  by (auto simp: ensureIndex_def Let_def adds_def split: if_splits dest!: index_loop_adds)

section \<open>Opening a session\<close>

lemma imap_starttls_sent:
  assumes "imap_starttls L env S = (e, S')" "im_broken S = None"
  shows "nc_sent (im_conn S') = nc_sent (im_conn S) @ logged (im_conn S) (next_tag S @ '' STARTTLS'')"
    and "e = None \<Longrightarrow> nc_tls (im_conn S') \<and> ne_buffered env = 0"
    and "e = Some x \<Longrightarrow> \<not> is_credential x"
proof -
  obtain ls y S1 where x: "exec L env ''STARTTLS'' ''STARTTLS'' S = ((ls, y), S1)" by (metis prod.collapse)
  have 1: "nc_sent (im_conn S1) = nc_sent (im_conn S) @ logged (im_conn S) (next_tag S @ '' STARTTLS'')"
    using exec_commands [OF x] assms(2) by (simp add: commands_def)
  have 2: "y = Some z \<Longrightarrow> \<not> is_credential z" for z using exec_fault(1) [of L env _ _ S ls z S1] x assms(2) by simp
  show "nc_sent (im_conn S') = nc_sent (im_conn S) @ logged (im_conn S) (next_tag S @ '' STARTTLS'')"
    "e = None \<Longrightarrow> nc_tls (im_conn S') \<and> ne_buffered env = 0" "e = Some x \<Longrightarrow> \<not> is_credential x"
    using assms(1) 1 2 by (auto simp: imap_starttls_def x Let_def im_close_def split: option.splits if_splits)
qed

lemma imap_login_adds: "imap_login L env p opts S = (e, S') \<Longrightarrow> adds S S'"
  by (auto simp: imap_login_def Let_def split: if_splits prod.splits option.splits dest!: exec_adds intro: adds_close)

lemma imap_login_failure:
  assumes "imap_login L env p opts S = (Some e, S')" "im_broken S = None" "is_credential e"
  shows "\<not> p \<and> do_Username opts \<noteq> [] \<and> (\<exists>code. rejected_code e = Some code \<and> \<not> TemporaryRefusal code) \<and>
    (\<exists>pass. last (nc_sent (im_conn S')) = (nc_tls (im_conn S), next_tag S @ '' LOGIN '' @ quote (do_Username opts) @ '' '' @ quote pass))"
proof -
  let ?pass = "case do_Password opts of Some p \<Rightarrow> p | None \<Rightarrow> []"
  have n: "\<not> p" "do_Username opts \<noteq> []" using assms(1) by (auto simp: imap_login_def split: if_splits)
  obtain ls y S1 where x: "exec L env ''LOGIN %s %s'' (''LOGIN '' @ quote (do_Username opts) @ '' '' @ quote ?pass) S = ((ls, y), S1)"
    by (metis prod.collapse)
  from assms(1) n x obtain z where z: "y = Some z" "e = imap_loginFailure z" "S' = im_close S1"
    by (auto simp: imap_login_def Let_def split: option.splits)
  note f = exec_fault [OF x [unfolded z(1)] assms(2)]
  from assms(3) f(1) obtain code where c: "rejected_code z = Some code" "\<not> TemporaryRefusal code"
    by (auto simp: z(2) imap_loginFailure_def split: option.splits if_splits)
  then have "nc_sent (im_conn S') = nc_sent (im_conn S) @
      [(nc_tls (im_conn S), next_tag S @ '' '' @ ''LOGIN '' @ quote (do_Username opts) @ '' '' @ quote ?pass)]"
    using f(2) by (simp add: z(3) im_close_def)
  moreover have "rejected_code e = Some code" using c by (simp add: z(2) imap_loginFailure_def)
  ultimately show ?thesis using n c by auto
qed

lemma selectInbox_failure: "selectInbox L env S = (Some e, S') \<Longrightarrow> im_broken S = None \<Longrightarrow> \<not> is_credential e"
  by (auto simp: selectInbox_def split: prod.splits option.splits dest: exec_fault(1))

lemma imap_login_sound: "imap_login L env p opts S = (None, S') \<Longrightarrow> im_broken S' = im_broken S"
  by (auto simp: imap_login_def Let_def split: if_splits prod.splits option.splits dest: exec_sound)

lemma imap_starttls_sound: "imap_starttls L env S = (None, S') \<Longrightarrow> im_broken S' = im_broken S"
  by (auto simp: imap_starttls_def Let_def split: if_splits prod.splits option.splits dest: exec_sound)

text \<open>The session after the greeting is new: nothing sent, and sound.\<close>

lemma imap_enter_sent:
  assumes "imap_enter L env p opts S = (e, S')" "im_broken S = None" "nc_sent (im_conn S) = []" "im_tagN S = 0"
    and "nc_tls (im_conn S) = (do_Security opts = SecurityTLS)"
  shows "do_Security opts \<in> {SecurityTLS, SecurityStartTLS} \<Longrightarrow> (False, l) \<in> set (nc_sent (im_conn S')) \<Longrightarrow> l = ''a1 STARTTLS''"
    and "do_Security opts = SecurityStartTLS \<Longrightarrow> 0 < ne_buffered env \<Longrightarrow>
      e \<noteq> None \<and> set (nc_sent (im_conn S')) \<subseteq> {(False, ''a1 STARTTLS'')}"
    and "e = Some x \<Longrightarrow> is_credential x \<Longrightarrow> do_Username opts \<noteq> [] \<and> \<not> p \<and>
      (\<exists>code. rejected_code x = Some code \<and> \<not> TemporaryRefusal code)"
proof -
  have tag: "next_tag S = ''a1''" using assms(4) by (simp add: next_tag_def) code_simp
  define st where "st = (if do_Security opts = SecurityStartTLS then imap_starttls L env S else (None, S))"
  obtain e1 S1 where s1: "st = (e1, S1)" by (cases st)
  have log1: "set (nc_sent (im_conn S1)) \<subseteq> {(False, ''a1 STARTTLS'')}"
    "e1 = None \<Longrightarrow> do_Security opts \<in> {SecurityTLS, SecurityStartTLS} \<Longrightarrow> nc_tls (im_conn S1)"
    "e1 = None \<Longrightarrow> do_Security opts = SecurityStartTLS \<Longrightarrow> ne_buffered env = 0"
    "e1 = Some y \<Longrightarrow> \<not> is_credential y" "e1 = None \<Longrightarrow> im_broken S1 = None" for y
    using s1 imap_starttls_sent [of L env S e1 S1] imap_starttls_sound [of L env S S1] assms(2-5) tag
    by (auto simp: st_def logged_def split: if_splits)
  have "(do_Security opts \<in> {SecurityTLS, SecurityStartTLS} \<longrightarrow> (False, l) \<in> set (nc_sent (im_conn S')) \<longrightarrow> l = ''a1 STARTTLS'') \<and>
    (do_Security opts = SecurityStartTLS \<longrightarrow> 0 < ne_buffered env \<longrightarrow>
      e \<noteq> None \<and> set (nc_sent (im_conn S')) \<subseteq> {(False, ''a1 STARTTLS'')}) \<and>
    (e = Some x \<longrightarrow> is_credential x \<longrightarrow> do_Username opts \<noteq> [] \<and> \<not> p \<and>
      (\<exists>code. rejected_code x = Some code \<and> \<not> TemporaryRefusal code))"
  proof (cases e1)
    case (Some y)
    with assms(1) s1 have "e = Some y" "S' = S1" by (simp_all add: imap_enter_def st_def)
    with log1 Some show ?thesis by auto
  next
    case None
    obtain e2 S2 where s2: "imap_login L env p opts S1 = (e2, S2)" by (cases "imap_login L env p opts S1")
    obtain e3 S3 where s3: "selectInbox L env S2 = (e3, S3)" by (cases "selectInbox L env S2")
    note b1 = log1(5) [OF None]
    have a: "adds S1 S2" "adds S2 S3" using imap_login_adds [OF s2] selectInbox_adds [OF s3] .
    then have "adds S1 S3" by (rule adds_trans)
    have "(e = e2 \<and> S' = S2 \<and> e2 \<noteq> None) \<or> (e2 = None \<and> e = e3 \<and> (S' = S3 \<or> S' = im_close S3))"
      using assms(1) s1 None s2 s3 by (auto simp: imap_enter_def st_def [symmetric] split: option.splits)
    moreover from this have ad: "adds S1 S'" using a \<open>adds S1 S3\<close> adds_close by auto
    ultimately have cr: "e = Some x \<Longrightarrow> is_credential x \<Longrightarrow> e2 = Some x"
      using selectInbox_failure [of L env S2 x S3] s3 imap_login_sound [of L env p opts S1 S2] s2 b1 by auto
    obtain new where new: "nc_sent (im_conn S') = nc_sent (im_conn S1) @ map (\<lambda>l. (nc_tls (im_conn S1), l)) new"
      using ad unfolding adds_def by blast
    show ?thesis
      using new log1(1,2,3) None imap_login_failure [of L env p opts S1 x S2] s2 b1 cr by auto
  qed
  then show "do_Security opts \<in> {SecurityTLS, SecurityStartTLS} \<Longrightarrow> (False, l) \<in> set (nc_sent (im_conn S')) \<Longrightarrow> l = ''a1 STARTTLS''"
    "do_Security opts = SecurityStartTLS \<Longrightarrow> 0 < ne_buffered env \<Longrightarrow>
      e \<noteq> None \<and> set (nc_sent (im_conn S')) \<subseteq> {(False, ''a1 STARTTLS'')}"
    "e = Some x \<Longrightarrow> is_credential x \<Longrightarrow> do_Username opts \<noteq> [] \<and> \<not> p \<and>
      (\<exists>code. rejected_code x = Some code \<and> \<not> TemporaryRefusal code)"
    by blast+
qed

text \<open>A dial either fails before any command or goes on from the greeting.\<close>

lemma imap_Dial_cases:
  assumes "imap_Dial L env opts = (e, S')"
  obtains (early) x where "e = Some x" "nc_sent (im_conn S') = []" "\<not> is_credential x"
  | (entered) p S where "imap_enter L env p opts S = (e, S')" "im_broken S = None" "nc_sent (im_conn S) = []" "im_tagN S = 0"
      "nc_tls (im_conn S) = (do_Security opts = SecurityTLS)"
proof -
  let ?S = "imap_open env opts"
  have S: "im_broken ?S = None" "nc_sent (im_conn ?S) = []" "im_tagN ?S = 0" "nc_tls (im_conn ?S) = (do_Security opts = SecurityTLS)"
    by (simp_all add: imap_open_def Let_def)
  obtain r S1 where r: "readBoundedLine ?S = (r, S1)" by (cases "readBoundedLine ?S")
  have S1: "nc_sent (im_conn S1) = []" "im_tagN S1 = 0" "nc_tls (im_conn S1) = (do_Security opts = SecurityTLS)"
    using readBoundedLine_reads [OF r] S by (simp_all add: reads_def)
  have cr: "r = Inl x \<Longrightarrow> \<not> is_credential x" for x using readBoundedLine_fault r by (auto simp: harmless_def)
  have snd: "r = Inr l \<Longrightarrow> im_broken S1 = None" for l using readBoundedLine_sound r S(1) by auto
  have "(\<exists>x. e = Some x \<and> nc_sent (im_conn S') = [] \<and> \<not> is_credential x) \<or> (\<exists>p l. imap_enter L env p opts S1 = (e, S') \<and> r = Inr l)"
    using assms S(2) S1(1) cr
    by (auto simp: imap_Dial_def Let_def r im_close_def imap_connectFailure_def failed_def
        split: Security.splits option.splits sum.splits if_splits)
  then show thesis
  proof
    assume "\<exists>x. e = Some x \<and> nc_sent (im_conn S') = [] \<and> \<not> is_credential x"
    with early show thesis by blast
  next
    assume "\<exists>p l. imap_enter L env p opts S1 = (e, S') \<and> r = Inr l"
    with entered S1 snd show thesis by blast
  qed
qed

section \<open>The dialer of the application\<close>

interpretation imap_dialer: inbound_dialer imap_Dial "\<lambda>S. nc_sent (im_conn S)" "''a1 STARTTLS''"
proof
  fix L env opts e c l
  assume d: "imap_Dial L env opts = (e, c)"
  show "do_Security opts \<in> {SecurityTLS, SecurityStartTLS} \<Longrightarrow> (False, l) \<in> set (nc_sent (im_conn c)) \<Longrightarrow> l = ''a1 STARTTLS''"
    by (rule imap_Dial_cases [OF d]) (simp, metis imap_enter_sent(1))
  show "do_Security opts = SecurityStartTLS \<Longrightarrow> 0 < ne_buffered env \<Longrightarrow>
      e \<noteq> None \<and> set (nc_sent (im_conn c)) \<subseteq> {(False, ''a1 STARTTLS'')}"
    by (rule imap_Dial_cases [OF d]) (simp, metis imap_enter_sent(2))
next
  fix L env opts x c
  assume d: "imap_Dial L env opts = (Some x, c)" "is_credential x"
  show "do_Username opts \<noteq> [] \<and> (\<exists>code. rejected_code x = Some code \<and> \<not> TemporaryRefusal code)"
    by (rule imap_Dial_cases [OF d(1)]) (use d(2) in simp, metis imap_enter_sent(3) d(2))
qed

section \<open>Enumerating a mailbox\<close>

text \<open>
  A conforming server: the line for a message, given as its sequence number, its UID and its size, and
  the responses to the batches of an enumeration, the first of them with the tag number \<open>t\<close>.
\<close>

definition fetch_line :: "nat \<times> nat \<times> nat \<Rightarrow> string" where
  "fetch_line m = (case m of (n, u, sz) \<Rightarrow>
     ''* '' @ dec n @ '' FETCH (UID '' @ dec u @ '' RFC822.SIZE '' @ dec sz @ '')'')"

definition mailbox_entry :: "string \<Rightarrow> nat \<times> nat \<times> nat \<Rightarrow> RemoteMessage" where
  "mailbox_entry v m = (case m of (n, u, sz) \<Rightarrow>
     \<lparr>rm_Number = int n, rm_UIDL = v @ ''.'' @ dec u, rm_Size = int sz\<rparr>)"

definition batch :: nat where "batch = 2000"

definition tag_no :: "nat \<Rightarrow> string" where
  "tag_no t = CHR ''a'' # dec t"

function mailbox_responses :: "nat \<Rightarrow> (nat \<times> nat \<times> nat) list \<Rightarrow> net_byte stream \<Rightarrow> net_byte stream" where
  "mailbox_responses t ms rest =
     (if ms = [] then rest
      else sends (response_bytes (map (\<lambda>m. ([], fetch_line m)) (take batch ms)) (tag_no t @ '' '' @ ''OK done''))
             (mailbox_responses (t + 1) (drop batch ms) rest))"
  by pat_completeness auto
termination
  by (relation "measure (\<lambda>(t, ms, rest). length ms)") (auto simp: batch_def)

declare mailbox_responses.simps [simp del]

definition countable_message :: "nat \<times> nat \<times> nat \<Rightarrow> bool" where
  "countable_message m = (case m of (n, u, sz) \<Rightarrow> n < 10 ^ 18 \<and> u < 10 ^ 18 \<and> sz < 10 ^ 18)"

lemma takeWhile_dec: "\<not> is_digit c \<Longrightarrow> takeWhile is_digit (dec n @ c # s) = dec n"
proof -
  assume "\<not> is_digit c"
  moreover have "\<And>x. x \<in> set (dec n) \<Longrightarrow> is_digit x" by (rule set_dec)
  ultimately show ?thesis by (simp add: takeWhile_append2)
qed

lemma not_digits [simp]: "\<not> is_digit (CHR '' '')" "\<not> is_digit (CHR '')'')" "\<not> is_digit (CHR ''U'')" "\<not> is_digit (CHR ''R'')"
  by (simp_all add: is_digit_def byte_def)

lemma find_number_skip: "(\<And>c. c \<in> set a \<Longrightarrow> c \<noteq> p) \<Longrightarrow> find_number (p # pre) (a @ s) = find_number (p # pre) s"
  by (induction a) (auto simp: Let_def)

lemma find_number_here: "\<not> is_digit c \<Longrightarrow> find_number (p # pre) ((p # pre) @ dec n @ c # s) = Some (dec n)"
  by (simp add: Let_def takeWhile_dec)

lemma no_letter_dec: "c \<in> set (dec n) \<Longrightarrow> c \<noteq> CHR ''U'' \<and> c \<noteq> CHR ''R'' \<and> c \<noteq> CHR 0x0A"
  using set_dec [of c n] by (auto simp: is_digit_def byte_def)

lemma fetch_line_parts:
  "reFetch (fetch_line (n, u, sz)) = Some (dec n)" "reUID (fetch_line (n, u, sz)) = Some (dec u)"
  "reSize (fetch_line (n, u, sz)) = Some (dec sz)"
proof -
  let ?l = "fetch_line (n, u, sz)"
  have 1: "?l = ''* '' @ dec n @ CHR '' '' # ''FETCH (UID '' @ dec u @ '' RFC822.SIZE '' @ dec sz @ '')''"
    by (simp add: fetch_line_def)
  show "reFetch ?l = Some (dec n)"
    by (simp add: 1 reFetch_def line_number_def Let_def takeWhile_dec)
  have 2: "?l = (''* '' @ dec n @ '' FETCH ('') @ ''UID '' @ dec u @ CHR '' '' # ''RFC822.SIZE '' @ dec sz @ '')''"
    by (simp add: fetch_line_def)
  have "find_number ''UID '' ?l = find_number ''UID '' (''UID '' @ dec u @ CHR '' '' # ''RFC822.SIZE '' @ dec sz @ '')'')"
    unfolding 2 by (rule find_number_skip) (auto dest: no_letter_dec)
  also have "\<dots> = Some (dec u)" by (rule find_number_here) simp
  finally show "reUID ?l = Some (dec u)" by (simp add: reUID_def)
  have 3: "?l = (''* '' @ dec n @ '' FETCH (UID '' @ dec u @ '' '') @ ''RFC822.SIZE '' @ dec sz @ CHR '')'' # []"
    by (simp add: fetch_line_def)
  have "find_number ''RFC822.SIZE '' ?l = find_number ''RFC822.SIZE '' (''RFC822.SIZE '' @ dec sz @ CHR '')'' # [])"
    unfolding 3 by (rule find_number_skip) (auto dest: no_letter_dec)
  also have "\<dots> = Some (dec sz)" by (rule find_number_here) simp
  finally show "reSize ?l = Some (dec sz)" by (simp add: reSize_def)
qed

lemma fetch_entry_line:
  assumes "countable_message m"
  shows "fetch_entry v (fetch_line m) = Some (mailbox_entry v m)"
proof -
  obtain n u sz where m: "m = (n, u, sz)" by (cases m)
  have "int n \<le> max_int64" "int sz \<le> max_int64" using assms by (simp_all add: m countable_message_def max_int64_def)
  then show ?thesis by (simp add: m fetch_entry_def fetch_line_parts Atoi_dec mailbox_entry_def)
qed

lemma fetch_line_ok:
  assumes "countable_message m"
  shows "piece_ok (fetch_line m)" "lit_suffix (fetch_line m) = None" "int (length (fetch_line m)) \<le> 100"
    "\<not> HasPrefix (fetch_line m) (CHR ''a'' # s)"
proof -
  obtain n u sz where m: "m = (n, u, sz)" by (cases m)
  have d: "length (dec n) \<le> 18" "length (dec u) \<le> 18" "length (dec sz) \<le> 18"
    using assms by (auto simp: m countable_message_def intro: length_dec)
  then show len: "int (length (fetch_line m)) \<le> 100" by (simp add: m fetch_line_def)
  have "LF \<notin> set (fetch_line m)" "last (fetch_line m) = CHR '')''"
    by (auto simp: m fetch_line_def dest: no_letter_dec)
  with len show "piece_ok (fetch_line m)" by (auto simp: piece_ok_def line_text_def maxLineBytes_def)
  show "lit_suffix (fetch_line m) = None" by (simp add: m fetch_line_def lit_suffix_def)
  show "\<not> HasPrefix (fetch_line m) (CHR ''a'' # s)" by (simp add: m fetch_line_def HasPrefix_def)
qed

lemma tag_line_ok:
  "t < 10 ^ 18 \<Longrightarrow> piece_ok (tag_no t @ '' '' @ ''OK done'') \<and> lit_suffix (tag_no t @ '' '' @ ''OK done'') = None \<and>
     length (tag_no t @ '' '' @ ''OK done'') \<le> 28"
  using length_dec [of t 18]
  by (auto simp: tag_no_def piece_ok_def line_text_def maxLineBytes_def lit_suffix_def dest: no_letter_dec)

lemma batch_response_ok:
  assumes "list_all countable_message ms" "length ms \<le> batch" "t < 10 ^ 18"
  shows "response_ok S (tag_no t) (map (\<lambda>m. ([], fetch_line m)) ms) (tag_no t @ '' '' @ ''OK done'')"
    and "response_cost (map (\<lambda>m. ([], fetch_line m)) ms) (tag_no t @ '' '' @ ''OK done'') \<le> maxResponseBytes"
    and "response_lits (map (\<lambda>m. ([], fetch_line m)) ms) = []"
    and "response_texts (map (\<lambda>m. ([], fetch_line m)) ms) = map fetch_line ms"
proof -
  show "response_ok S (tag_no t) (map (\<lambda>m. ([], fetch_line m)) ms) (tag_no t @ '' '' @ ''OK done'')"
    using assms fetch_line_ok tag_line_ok [OF assms(3)]
    by (auto simp: response_ok_def list_all_iff wire_text_def tag_no_def)
  have "sum_list (map (\<lambda>(segs, t). wire_cost segs t) (map (\<lambda>m. ([], fetch_line m)) ms)) \<le> 118 * int (length ms)"
    using assms(1) by (induction ms) (auto simp: responseLineOverhead_def dest: fetch_line_ok(3))
  also have "\<dots> \<le> 118 * 2000" using assms(2) by (simp add: batch_def)
  finally show "response_cost (map (\<lambda>m. ([], fetch_line m)) ms) (tag_no t @ '' '' @ ''OK done'') \<le> maxResponseBytes"
    using tag_line_ok [OF assms(3)] by (simp add: response_cost_def responseLineOverhead_def maxResponseBytes_def)
  show "response_lits (map (\<lambda>m. ([], fetch_line m)) ms) = []" by (simp add: response_lits_def)
  show "response_texts (map (\<lambda>m. ([], fetch_line m)) ms) = map fetch_line ms"
    by (simp add: response_texts_def wire_text_def comp_def)
qed

lemma map_filter_all: "(\<And>x. x \<in> set xs \<Longrightarrow> f (g x) = Some (h x)) \<Longrightarrow> List.map_filter f (map g xs) = map h xs"
  by (induction xs) (simp_all add: List.map_filter_def)

lemma exec_batch:
  assumes "usable env S" "nc_in (im_conn S) = sends (response_bytes (map (\<lambda>m. ([], fetch_line m)) ms)
      (tag_no (im_tagN S + 1) @ '' '' @ ''OK done'')) rest"
    and "list_all countable_message ms" "length ms \<le> batch" "im_tagN S + 1 < 10 ^ 18"
  shows "exec L env fmt line S = ((map fetch_line ms, None), answered S line rest [])"
proof -
  have t: "next_tag S = tag_no (im_tagN S + 1)" by (simp add: next_tag_def tag_no_def)
  note b = batch_response_ok [OF assms(3,4,5)]
  have "HasPrefix ''OK done'' ''OK''" by (simp add: HasPrefix_def)
  with execRaw_response [OF assms(1), of "map (\<lambda>m. ([], fetch_line m)) ms" "''OK done''" rest L line] assms(2) b
  show ?thesis by (simp add: exec_def t kept_def)
qed

lemma answered_simps [simp]:
  "im_tagN (answered S line rest ls) = im_tagN S + 1" "nc_in (im_conn (answered S line rest ls)) = rest"
  "im_index (answered S line rest ls) = im_index S" "im_uidValidity (answered S line rest ls) = im_uidValidity S"
  "im_broken (answered S line rest ls) = im_broken S" "nc_open (im_conn (answered S line rest ls)) = nc_open (im_conn S)"
  "im_literals (answered S line rest ls) = ls"
  by (simp_all add: answered_def)

lemma index_loop_mailbox:
  assumes "im_broken S = None" "nc_open (im_conn S)" "\<And>k. ne_write env k = None"
    and "nc_in (im_conn S) = mailbox_responses (im_tagN S + 1) ms rest"
    and "list_all countable_message ms" "im_tagN S + length ms < 10 ^ 18" "start = cnt - int (length ms) + 1"
  shows "\<exists>S'. index_loop L env cnt start S = (None, S') \<and> im_index S' = im_index S @ map (mailbox_entry (im_uidValidity S)) ms \<and>
    nc_in (im_conn S') = rest \<and> im_broken S' = None"
  using assms
proof (induction "length ms" arbitrary: ms S start rule: less_induct)
  case less
  show ?case
  proof (cases "ms = []")
    case True
    with less.prems show ?thesis
      by (subst index_loop.simps) (simp add: mailbox_responses.simps [of _ "[]"])
  next
    case False
    let ?ms1 = "take batch ms" and ?ms2 = "drop batch ms"
    define cmd where "cmd = ''FETCH '' @ fmt_d start @ '':'' @ fmt_d (min (start + enumerateBatch - 1) cnt) @ '' (UID RFC822.SIZE)''"
    let ?rest = "mailbox_responses (im_tagN S + 1 + 1) ?ms2 rest"
    let ?S1 = "answered S cmd ?rest []"
    let ?S2 = "?S1\<lparr>im_index := im_index S @ map (mailbox_entry (im_uidValidity S)) ?ms1\<rparr>"
    have c1: "list_all countable_message ?ms1" "list_all countable_message ?ms2"
      using less.prems(5) by (auto simp: list_all_iff dest: in_set_takeD in_set_dropD)
    have len: "length ms > 0" using False by simp
    have i: "nc_in (im_conn S) = sends (response_bytes (map (\<lambda>m. ([], fetch_line m)) ?ms1)
        (tag_no (im_tagN S + 1) @ '' '' @ ''OK done'')) ?rest"
      using less.prems(4) False by (simp add: mailbox_responses.simps [of _ ms])
    have t: "im_tagN S + 1 < 10 ^ 18" using less.prems(6) len by linarith
    have "exec L env ''FETCH %d:%d (UID RFC822.SIZE)'' cmd S = ((map fetch_line ?ms1, None), ?S1)"
      using less.prems(1-3) c1(1) by (intro exec_batch [OF _ i _ _ t]) (simp_all add: usable_def)
    moreover have "List.map_filter (fetch_entry (im_uidValidity S)) (map fetch_line ?ms1) = map (mailbox_entry (im_uidValidity S)) ?ms1"
      using c1(1) by (intro map_filter_all fetch_entry_line) (simp add: list_all_iff)
    moreover have "\<not> start > cnt" using less.prems(7) len by simp
    ultimately have step: "index_loop L env cnt start S = index_loop L env cnt (start + enumerateBatch) ?S2"
      unfolding index_loop.simps [of L env cnt start S] Let_def cmd_def [symmetric] by simp
    show ?thesis
    proof (cases "length ms \<le> batch")
      case True
      then have e: "?ms2 = []" "?ms1 = ms" by simp_all
      have "start + enumerateBatch > cnt" using less.prems(7) True by (simp add: enumerateBatch_def batch_def)
      then have "index_loop L env cnt (start + enumerateBatch) ?S2 = (None, ?S2)" by (subst index_loop.simps) simp
      with step e less.prems(1) show ?thesis by (simp add: mailbox_responses.simps [of _ "[]"])
    next
      case big: False
      have d: "length ?ms2 < length ms" "int (length ?ms2) = int (length ms) - 2000" using big len by (simp_all add: batch_def)
      have "\<exists>S'. index_loop L env cnt (start + enumerateBatch) ?S2 = (None, S') \<and>
          im_index S' = im_index ?S2 @ map (mailbox_entry (im_uidValidity ?S2)) ?ms2 \<and>
          nc_in (im_conn S') = rest \<and> im_broken S' = None"
        using less.prems c1(2) d by (intro less.hyps) (simp_all add: enumerateBatch_def)
      with step show ?thesis by (simp add: map_append [symmetric] del: map_append)
    qed
  qed
qed

section \<open>Runs of a session\<close>

text \<open>Any operation of an open session, with what it may do.\<close>

inductive imap_step :: "lib \<Rightarrow> imap_env \<Rightarrow> imap_session \<Rightarrow> imap_session \<Rightarrow> bool" for L env where
  uidl: "imap_UIDL L env S = (r, S') \<Longrightarrow> imap_step L env S S'"
| list: "imap_List L env S = (r, S') \<Longrightarrow> imap_step L env S S'"
| retrieve: "imap_Retrieve L env n S = (r, S') \<Longrightarrow> imap_step L env S S'"
| top: "imap_Top L env n S = (r, S') \<Longrightarrow> imap_step L env S S'"
| delete: "imap_Delete L env n S = (e, S') \<Longrightarrow> imap_step L env S S'"
| select: "SelectMailbox L env name S = (e, S') \<Longrightarrow> imap_step L env S S'"
| quit: "imap_Quit L env S = (e, S') \<Longrightarrow> imap_step L env S S'"

inductive imap_run :: "lib \<Rightarrow> imap_env \<Rightarrow> imap_session \<Rightarrow> imap_session \<Rightarrow> bool" for L env where
  start: "imap_run L env S S"
| more: "imap_run L env S S1 \<Longrightarrow> imap_step L env S1 S2 \<Longrightarrow> imap_run L env S S2"

lemma firstLiteral_adds: "firstLiteral S = (r, S') \<Longrightarrow> adds S S'"
  by (auto simp: firstLiteral_def split: list.splits intro: adds_cong [OF _ _ adds_refl])

lemma imap_step_adds: "imap_step L env S S' \<Longrightarrow> adds S S'"
proof (induction rule: imap_step.induct)
  case (uidl S r S')
  then show ?case by (auto simp: imap_UIDL_def split: prod.splits option.splits dest: ensureIndex_adds)
next
  case (list S r S')
  then show ?case by (auto simp: imap_List_def split: prod.splits option.splits dest: ensureIndex_adds)
next
  case (retrieve n S r S')
  then show ?case
    by (auto simp: imap_Retrieve_def split: prod.splits option.splits dest!: exec_adds dest: firstLiteral_adds intro: adds_trans)
next
  case (top n S r S')
  then show ?case
    by (auto simp: imap_Top_def split: prod.splits option.splits dest!: exec_adds dest: firstLiteral_adds intro: adds_trans)
next
  case (delete n S e S')
  then show ?case
    by (auto simp: imap_Delete_def split: prod.splits option.splits dest!: exec_adds intro: adds_cong)
next
  case (select name S e S')
  then show ?case by (rule SelectMailbox_adds)
next
  case (quit S e S')
  obtain x S1 where e: "exec L env ''EXPUNGE'' ''EXPUNGE'' S = (x, S1)" by (cases "exec L env ''EXPUNGE'' ''EXPUNGE'' S") auto
  define S2 where "S2 = (if im_deleted S then S1 else S)"
  obtain y S3 where o: "exec L env ''LOGOUT'' ''LOGOUT'' S2 = (y, S3)" by (cases "exec L env ''LOGOUT'' ''LOGOUT'' S2") auto
  have "adds S S2" using exec_adds [OF e] by (simp add: S2_def)
  then have "adds S S3" using exec_adds [OF o] by (rule adds_trans)
  moreover have "S' = im_close S3" using quit e o by (cases "im_deleted S") (auto simp: imap_Quit_def S2_def Let_def split: prod.splits)
  ultimately show ?case by (simp add: adds_close)
qed

lemma imap_run_adds: "imap_run L env S S' \<Longrightarrow> adds S S'"
  by (induction rule: imap_run.induct) (auto intro: adds_trans dest: imap_step_adds)

section \<open>A small session\<close>

definition sample_imap_env :: imap_env where
  "sample_imap_env = \<lparr>ne_dial = None, ne_lines = (\<lambda>_. sconst (Byte LF)), ne_buffered = 0, ne_handshake = None,
     ne_write = (\<lambda>_. None), ne_elapsed = (\<lambda>_. 0)\<rparr>"

definition sample_imap :: "net_byte stream \<Rightarrow> imap_session" where
  "sample_imap s = (imap_open sample_imap_env \<lparr>do_Host = ''imap.corp.test'', do_Port = 993, do_Security = SecurityTLS,
      do_Username = ''kim'', do_Password = None, do_InsecureSkipVerify = False, do_ConnectTimeoutSec = 0,
      do_CommandTimeoutSec = 0, do_MaxMessageBytes = 0\<rparr>)
     \<lparr>im_conn := \<lparr>nc_in = s, nc_sent = [], nc_tls = True, nc_open = True\<rparr>, im_exists := 1, im_uidValidity := ''9''\<rparr>"

lemma sample_imap_simps [simp]:
  "im_broken (sample_imap s) = None" "nc_open (im_conn (sample_imap s))" "nc_in (im_conn (sample_imap s)) = s"
  "im_tagN (sample_imap s) = 0" "im_exists (sample_imap s) = 1" "\<not> im_indexed (sample_imap s)"
  "im_index (sample_imap s) = []" "im_uidValidity (sample_imap s) = ''9''" "im_literals (sample_imap s) = []"
  "over_limit (sample_imap s) n = False" "ne_write sample_imap_env k = None" "usable sample_imap_env (sample_imap s)"
  "next_tag (sample_imap s) = tag_no 1"
  by (simp_all add: sample_imap_def imap_open_def Let_def over_limit_def refusalThreshold_def sample_imap_env_def
      usable_def next_tag_def tag_no_def)

section \<open>Properties\<close>





text \<open>
  C27.  A response costs a bounded amount of memory, whatever the server sends: at most 8 MiB of
  protocol text and 64 literals, none of them larger than the configured size allows.
\<close>

theorem imap_response_bounded:
  assumes "exec L env fmt line S = ((ls, e), S')"
  shows "text_cost ls \<le> maxResponseBytes \<and> length (im_literals S') \<le> max 64 (length (im_literals S)) \<and>
    (im_literals S' \<noteq> im_literals S \<longrightarrow> (\<forall>l\<in>set (im_literals S'). \<not> over_limit S (int (length l))))"
proof -
  obtain x where "execRaw L env line S = ((ls, x), S')"
    using assms by (auto simp: exec_def split: prod.splits)
  from execRaw_commands [OF this] show ?thesis by (auto simp: maxResponseLiterals_def)
qed

theorem imap_response_bounded_witness:
  "\<exists>ls e S'. exec sample_lib sample_imap_env ''NOOP'' ''NOOP''
      (sample_imap (sends (response_bytes [([], fetch_line (1, 7, 100))] (tag_no 1 @ '' OK done'')) (sconst (Byte LF)))) = ((ls, e), S') \<and>
     ls = [fetch_line (1, 7, 100)] \<and> text_cost ls \<le> maxResponseBytes"
proof -
  let ?S = "sample_imap (sends (response_bytes [([], fetch_line (1, 7, 100))] (tag_no 1 @ '' OK done'')) (sconst (Byte LF)))"
  have "exec sample_lib sample_imap_env ''NOOP'' ''NOOP'' ?S =
      ((map fetch_line [(1, 7, 100)], None), answered ?S ''NOOP'' (sconst (Byte LF)) [])"
    by (rule exec_batch) (simp_all add: countable_message_def batch_def)
  from imap_response_bounded [OF this] this show ?thesis by auto
qed

text \<open>
  Once a session has been abandoned because its stream is no longer in frame, nothing is ever
  sent over it again, whatever operations follow.
\<close>

theorem imap_abandoned_silent:
  assumes "imap_run L env S S'" "im_broken S \<noteq> None"
  shows "nc_sent (im_conn S') = nc_sent (im_conn S) \<and> im_broken S' = im_broken S"
  using imap_run_adds [OF assms(1)] assms(2) by (simp add: adds_def)

theorem imap_abandoned_silent_witness:
  "\<exists>S'. imap_run sample_lib sample_imap_env (abandon resp_too_long (sample_imap (sconst (Byte LF)))) S' \<and> nc_sent (im_conn S') = []"
proof -
  let ?S = "abandon resp_too_long (sample_imap (sconst (Byte LF)))"
  obtain e S' where "imap_Quit sample_lib sample_imap_env ?S = (e, S')" by (cases "imap_Quit sample_lib sample_imap_env ?S")
  then have r: "imap_run sample_lib sample_imap_env ?S S'"
    by (intro imap_run.more [OF imap_run.start] imap_step.quit)
  moreover have "im_broken ?S \<noteq> None" "nc_sent (im_conn ?S) = []"
    by (simp_all add: abandon_def im_close_def sample_imap_def)
  ultimately show ?thesis using imap_abandoned_silent [OF r] by auto
qed

text \<open>
  An enumeration that fails is reported once: the index is marked as complete before it is built, so
  the fallback that the sync makes next, a listing, returns the messages read so far as the whole
  mailbox.
\<close>

theorem imap_failed_enumeration_hidden:
  assumes "imap_UIDL L env S = (Inl e, S')"
  shows "imap_List L env S' = (Inr (im_index S'), S')"
proof -
  have "ensureIndex L env S = (Some e, S')" using assms by (auto simp: imap_UIDL_def split: prod.splits option.splits)
  then have "im_indexed S'" using ensureIndex_adds by blast
  then show ?thesis by (simp add: imap_List_def ensureIndex_def)
qed

end
