(* ===== verification/Sync_Run.thy ===== *)
theory Sync_Run
  imports Inbound Mail_Ingest
begin

text \<open>
  A sync session: the listing, the loop over the inbox, the pass over the Sent folder and the
  outcome of the job (\<open>runSync\<close>, \<open>sentFolderPass\<close>, \<open>sentFolderDue\<close> and \<open>syncSentFolder\<close> of
  \<open>src/internal/application/sync.go\<close>), with the job table of the store.  The connection
  attempts, the heartbeat, metrics and the rendering of diagnostics are not modelled.  The \<open>i\<close>-th
  message of a pass is handled in the world \<open>ws i\<close>, and \<open>stop i\<close> says whether the job has been
  cancelled when its turn comes.
\<close>

section \<open>Jobs\<close>

definition db_CreateJob :: "store \<Rightarrow> int \<Rightarrow> Job \<Rightarrow> err + store" where
  "db_CreateJob s ts j =
     (if \<not> no_row (\<lambda>r. j_ID r = j_ID j) (jobs s) then Inl (UniqueViolation ''jobs.id'')
      else Inr (s\<lparr>jobs := jobs s @ [j\<lparr>j_CreatedAt := ts, j_UpdatedAt := ts\<rparr>]\<rparr>))"

definition db_UpdateJob :: "store \<Rightarrow> int \<Rightarrow> Job \<Rightarrow> store" where
  "db_UpdateJob s ts j =
     s\<lparr>jobs := upd_where (\<lambda>r. j_ID r = j_ID j)
         (\<lambda>r. r\<lparr>j_Status := j_Status j, j_Progress := j_Progress j, j_Stats := j_Stats j,
                j_Error := j_Error j, j_UpdatedAt := ts\<rparr>) (jobs s)\<rparr>"

definition job_open :: "Job \<Rightarrow> bool" where
  "job_open j = (j_Status j = JobQueued \<or> j_Status j = JobRunning)"

definition db_TouchJob :: "store \<Rightarrow> int \<Rightarrow> string \<Rightarrow> store" where
  "db_TouchJob s ts jid =
     s\<lparr>jobs := upd_where (\<lambda>r. j_ID r = jid \<and> job_open r) (\<lambda>r. r\<lparr>j_UpdatedAt := ts\<rparr>) (jobs s)\<rparr>"

definition interrupt_job :: "int \<Rightarrow> Job \<Rightarrow> Job" where
  "interrupt_job ts j =
     j\<lparr>j_Status := JobFailed, j_Error := ''interrupted (worker restart or failover)'', j_UpdatedAt := ts\<rparr>"

definition db_FailStaleAccountJobs :: "store \<Rightarrow> int \<Rightarrow> string \<Rightarrow> int \<Rightarrow> int \<times> store" where
  "db_FailStaleAccountJobs s ts accountID graceSeconds =
     (let stale = (\<lambda>r. j_AccountID r = accountID \<and> job_open r \<and> j_UpdatedAt r < ts - graceSeconds)
      in (int (length (filter stale (jobs s))),
          s\<lparr>jobs := upd_where stale (interrupt_job ts) (jobs s)\<rparr>))"

definition db_RecoverStaleJobsExcept :: "store \<Rightarrow> int \<Rightarrow> string list \<Rightarrow> int \<Rightarrow> int \<times> store" where
  "db_RecoverStaleJobsExcept s ts activeJobIDs graceSeconds =
     (let stale = (\<lambda>r. job_open r \<and> (graceSeconds > 0 \<longrightarrow> j_UpdatedAt r < ts - graceSeconds) \<and>
                       j_ID r \<notin> set activeJobIDs)
      in (int (length (filter stale (jobs s))),
          s\<lparr>jobs := upd_where stale (interrupt_job ts) (jobs s)\<rparr>))"

definition db_GetJob :: "store \<Rightarrow> string \<Rightarrow> string \<Rightarrow> err + Job" where
  "db_GetJob s userID jid =
     (case find (\<lambda>r. j_ID r = jid \<and> j_UserID r = userID) (jobs s) of
        None \<Rightarrow> Inl ErrNotFound | Some j \<Rightarrow> Inr j)"

section \<open>The listing\<close>

text \<open>
  The sizes of \<open>LIST\<close> by message number, the last entry of a number counting; a number that is not
  listed has size 0.
\<close>

definition listed_size :: "RemoteMessage list \<Rightarrow> int \<Rightarrow> int" where
  "listed_size listed n =
     (case find (\<lambda>m. rm_Number m = n) (rev listed) of Some m \<Rightarrow> rm_Size m | None \<Rightarrow> 0)"

text \<open>Whether the server supports \<open>UIDL\<close>, and the messages, the newest first.\<close>

definition sync_listing :: "InboundSession \<Rightarrow> err + (bool \<times> RemoteMessage list)" where
  "sync_listing sess =
     (case se_UIDL sess of
        Inl e \<Rightarrow> (case se_List sess of Inl e' \<Rightarrow> Inl e' | Inr listed \<Rightarrow> Inr (False, rev listed))
      | Inr remote \<Rightarrow>
          Inr (True, rev (case se_List sess of
                            Inl e \<Rightarrow> remote
                          | Inr listed \<Rightarrow> map (\<lambda>rm. rm\<lparr>rm_Size := listed_size listed (rm_Number rm)\<rparr>) remote)))"

record SyncOptions =
  opt_MaxMessages :: int
  opt_FullSync :: bool
  opt_fromIdle :: bool

definition sync_limit :: "app \<Rightarrow> SyncOptions \<Rightarrow> int" where
  "sync_limit a opts =
     (if opt_FullSync opts \<or> opt_MaxMessages opts < 0 then 0
      else if opt_MaxMessages opts > 0 then opt_MaxMessages opts else MaxPerSync (cfg a))"

section \<open>The loop over the inbox\<close>

record sync_state =
  z_app :: app
  z_stats :: SyncStats
  z_job :: Job
  z_fetched :: int
  z_attempted :: int
  z_err :: "err option"

definition save_progress :: "io \<Rightarrow> app \<Rightarrow> Job \<Rightarrow> app" where
  "save_progress w a j = a\<lparr>st := db_UpdateJob (st a) (now w) j\<rparr>"

definition progress_text :: "int \<Rightarrow> nat \<Rightarrow> string" where
  "progress_text n cnt = fmt_d n @ ''/'' @ dec cnt"

text \<open>One message of the inbox that is neither cut off nor cancelled.\<close>

definition inbox_step ::
  "lib \<Rightarrow> io \<Rightarrow> ctx \<Rightarrow> InboundSession \<Rightarrow> MailAccount \<Rightarrow> bool \<Rightarrow> nat \<Rightarrow> RemoteMessage \<Rightarrow> sync_state
     \<Rightarrow> sync_state" where
  "inbox_step L w c sess acc uidlSupported cnt rm z =
     (let a = z_app z; stats = (z_stats z)\<lparr>sy_Seen := sy_Seen (z_stats z) + 1\<rparr>
      in if uidlSupported \<and> rm_UIDL rm \<noteq> [] \<and> db_HasCheckpoint (st a) (a_ID acc) (rm_UIDL rm)
         then z\<lparr>z_stats := stats\<lparr>sy_Duplicate := sy_Duplicate stats + 1\<rparr>\<rparr>
         else if MaxMessageBytes (cfg a) > 0 \<and> rm_Size rm > MaxMessageBytes (cfg a)
         then z\<lparr>z_stats := stats\<lparr>sy_Oversize := sy_Oversize stats + 1\<rparr>\<rparr>
         else case ingestOne L w a c (se_Retrieve sess (rm_Number rm)) acc rm uidlSupported stats MailboxInbox of
                (Some e, stats', a') \<Rightarrow>
                  z\<lparr>z_app := a', z_stats := stats'\<lparr>sy_Failed := sy_Failed stats' + 1\<rparr>,
                    z_attempted := z_attempted z + 1, z_err := Some e\<rparr>
              | (None, stats', a') \<Rightarrow>
                  (let job = (z_job z)\<lparr>j_Progress := progress_text (z_fetched z + 1) cnt\<rparr>
                   in z\<lparr>z_app := save_progress w a' job, z_stats := stats', z_job := job,
                        z_fetched := z_fetched z + 1, z_attempted := z_attempted z + 1\<rparr>))"

text \<open>The loop; the Boolean says that the job was cancelled.\<close>

fun inbox_loop ::
  "lib \<Rightarrow> (nat \<Rightarrow> io) \<Rightarrow> (nat \<Rightarrow> bool) \<Rightarrow> ctx \<Rightarrow> InboundSession \<Rightarrow> MailAccount \<Rightarrow> bool \<Rightarrow> int \<Rightarrow> nat
     \<Rightarrow> nat \<Rightarrow> sync_state \<Rightarrow> RemoteMessage list \<Rightarrow> bool \<times> sync_state" where
  "inbox_loop L ws stop c sess acc u maxN cnt i z [] = (False, z)"
| "inbox_loop L ws stop c sess acc u maxN cnt i z (rm # rms) =
     (if stop i then (True, z)
      else if maxN > 0 \<and> z_fetched z \<ge> maxN then (False, z)
      else inbox_loop L ws stop c sess acc u maxN cnt (Suc i)
             (inbox_step L (ws i) c sess acc u cnt rm z) rms)"

section \<open>The Sent folder\<close>

text \<open>
  \<open>sentFolderDue\<close>: the map holds when the folder of an account was last read; times are in
  nanoseconds.
\<close>

definition sentFolderIdleInterval :: int where
  "sentFolderIdleInterval = 600 * 1000000000"

definition sentFolderDue ::
  "(string \<rightharpoonup> int) \<Rightarrow> int \<Rightarrow> string \<Rightarrow> SyncOptions \<Rightarrow> bool \<times> (string \<rightharpoonup> int)" where
  "sentFolderDue seen t accountID opts =
     (if opt_fromIdle opts \<and>
         (case seen accountID of Some t0 \<Rightarrow> t - t0 < sentFolderIdleInterval | None \<Rightarrow> False)
      then (False, seen) else (True, seen(accountID \<mapsto> t)))"

datatype sent_outcome = SentNotCapable | SentSynced | SentThrottled | SentNone | SentFailed | SentCancelled

definition sent_step ::
  "lib \<Rightarrow> io \<Rightarrow> ctx \<Rightarrow> SentFolder \<Rightarrow> MailAccount \<Rightarrow> nat \<Rightarrow> RemoteMessage \<Rightarrow> sync_state \<Rightarrow> sync_state" where
  "sent_step L w c sf acc cnt rm0 z =
     (if rm_UIDL rm0 = [] then z
      else
       (let a = z_app z; stats = (z_stats z)\<lparr>sy_Seen := sy_Seen (z_stats z) + 1\<rparr>;
            rm = rm0\<lparr>rm_UIDL := ''sent:'' @ rm_UIDL rm0\<rparr>
        in if db_HasCheckpoint (st a) (a_ID acc) (rm_UIDL rm)
           then z\<lparr>z_stats := stats\<lparr>sy_Duplicate := sy_Duplicate stats + 1\<rparr>\<rparr>
           else if MaxMessageBytes (cfg a) > 0 \<and> rm_Size rm > MaxMessageBytes (cfg a)
           then z\<lparr>z_stats := stats\<lparr>sy_Oversize := sy_Oversize stats + 1\<rparr>\<rparr>
           else case ingestOne L w a c (sf_Retrieve sf (rm_Number rm)) acc rm True stats MailboxSent of
                  (Some e, stats', a') \<Rightarrow>
                    z\<lparr>z_app := a', z_stats := stats'\<lparr>sy_Failed := sy_Failed stats' + 1\<rparr>\<rparr>
                | (None, stats', a') \<Rightarrow>
                    (let job = (z_job z)\<lparr>j_Progress := ''sent '' @ progress_text (z_fetched z + 1) cnt\<rparr>
                     in z\<lparr>z_app := save_progress w a' job, z_stats := stats', z_job := job,
                          z_fetched := z_fetched z + 1\<rparr>)))"

fun sent_loop ::
  "lib \<Rightarrow> (nat \<Rightarrow> io) \<Rightarrow> (nat \<Rightarrow> bool) \<Rightarrow> ctx \<Rightarrow> SentFolder \<Rightarrow> MailAccount \<Rightarrow> int \<Rightarrow> nat \<Rightarrow> nat
     \<Rightarrow> sync_state \<Rightarrow> RemoteMessage list \<Rightarrow> sent_outcome \<times> sync_state" where
  "sent_loop L ws stop c sf acc maxN cnt i z [] = (SentSynced, z)"
| "sent_loop L ws stop c sf acc maxN cnt i z (rm # rms) =
     (if stop i then (SentCancelled, z)
      else if maxN > 0 \<and> z_fetched z \<ge> maxN then (SentSynced, z)
      else sent_loop L ws stop c sf acc maxN cnt (Suc i) (sent_step L (ws i) c sf acc cnt rm z) rms)"

text \<open>The pass starts with its own counters, on the state and the job the inbox loop left.\<close>

definition syncSentFolder ::
  "lib \<Rightarrow> (nat \<Rightarrow> io) \<Rightarrow> (nat \<Rightarrow> bool) \<Rightarrow> ctx \<Rightarrow> SentFolder \<Rightarrow> MailAccount \<Rightarrow> int \<Rightarrow> sync_state
     \<Rightarrow> (sent_outcome \<times> err option) \<times> sync_state" where
  "syncSentFolder L ws stop c sf acc maxN z =
     (case sf_SentMailbox sf of
        Inl e \<Rightarrow> ((SentFailed, Some e), z)
      | Inr name \<Rightarrow>
          if name = [] then ((SentNone, None), z)
          else case sf_SelectMailbox sf name of
                 Some e \<Rightarrow> ((SentFailed, Some e), z)
               | None \<Rightarrow>
                   (case sf_UIDL sf of
                      Inl e \<Rightarrow> ((SentFailed, Some e), z)
                    | Inr remote \<Rightarrow>
                        (let (r, z') = sent_loop L ws stop c sf acc maxN (length remote) 0 z (rev remote)
                         in ((r, None), z'))))"

definition sentFolderPass ::
  "lib \<Rightarrow> (nat \<Rightarrow> io) \<Rightarrow> (nat \<Rightarrow> bool) \<Rightarrow> ctx \<Rightarrow> InboundSession \<Rightarrow> MailAccount \<Rightarrow> int \<Rightarrow> SyncOptions
     \<Rightarrow> (string \<rightharpoonup> int) \<Rightarrow> int \<Rightarrow> sync_state
     \<Rightarrow> (sent_outcome \<times> err option) \<times> (string \<rightharpoonup> int) \<times> sync_state" where
  "sentFolderPass L ws stop c sess acc maxN opts seen t z =
     (case se_Sent sess of
        None \<Rightarrow> ((SentNotCapable, None), seen, z)
      | Some sf \<Rightarrow>
          (case sentFolderDue seen t (a_ID acc) opts of
             (False, seen') \<Rightarrow> ((SentThrottled, None), seen', z)
           | (True, seen') \<Rightarrow>
               (let (r, z') = syncSentFolder L ws stop c sf acc maxN z in (r, seen', z'))))"

section \<open>The outcome\<close>

text \<open>Failed when nothing that was tried came through, partial when some of it did not.\<close>

definition sync_status :: "SyncStats \<Rightarrow> int \<Rightarrow> SyncStats \<Rightarrow> JobStatus" where
  "sync_status stats attempted sentStats =
     (if sy_Failed stats > 0
      then (if sy_Failed stats = attempted \<and> sy_New sentStats = 0 then JobFailed else JobPartial)
      else JobSucceeded)"

definition job_stats :: "SyncStats \<Rightarrow> SyncStats \<Rightarrow> (string \<times> int) list" where
  "job_stats stats sent =
     [(''seen'', sy_Seen stats), (''new'', sy_New stats), (''duplicate'', sy_Duplicate stats),
      (''failed'', sy_Failed stats), (''oversize'', sy_Oversize stats), (''parse_error'', sy_ParseError stats)] @
     (if sy_Seen sent > 0
      then [(''sent_seen'', sy_Seen sent), (''sent_new'', sy_New sent),
            (''sent_duplicate'', sy_Duplicate sent), (''sent_failed'', sy_Failed sent)] else [])"

definition no_stats :: SyncStats where
  "no_stats = \<lparr>sy_Seen = 0, sy_New = 0, sy_Duplicate = 0, sy_Failed = 0, sy_Oversize = 0, sy_ParseError = 0\<rparr>"

definition start_sync :: "app \<Rightarrow> Job \<Rightarrow> sync_state" where
  "start_sync a job = \<lparr>z_app = a, z_stats = no_stats, z_job = job, z_fetched = 0, z_attempted = 0, z_err = None\<rparr>"

text \<open>
  The session after the listing, without body repair: the inbox, the Sent folder, the outcome.  The
  second components of \<open>ws2\<close> and \<open>stop2\<close> belong to the Sent folder.
\<close>

definition sync_session ::
  "lib \<Rightarrow> (nat \<Rightarrow> io) \<Rightarrow> (nat \<Rightarrow> bool) \<Rightarrow> (nat \<Rightarrow> io) \<Rightarrow> (nat \<Rightarrow> bool) \<Rightarrow> ctx \<Rightarrow> InboundSession \<Rightarrow> MailAccount
     \<Rightarrow> SyncOptions \<Rightarrow> (string \<rightharpoonup> int) \<Rightarrow> int \<Rightarrow> bool \<Rightarrow> RemoteMessage list \<Rightarrow> app \<Rightarrow> Job
     \<Rightarrow> JobStatus \<times> SyncStats \<times> SyncStats \<times> (string \<rightharpoonup> int) \<times> app" where
  "sync_session L ws stop ws2 stop2 c sess acc opts seen t u remote a job =
     (let maxN = sync_limit a opts
      in case inbox_loop L ws stop c sess acc u maxN (length remote) 0 (start_sync a job) remote of
           (True, z) \<Rightarrow> (JobCancelled, z_stats z, no_stats, seen, z_app z)
         | (False, z) \<Rightarrow>
             (case sentFolderPass L ws2 stop2 c sess acc maxN opts seen t
                     (z\<lparr>z_stats := no_stats, z_fetched := 0\<rparr>) of
                ((r, e), seen', z') \<Rightarrow>
                  (if r = SentCancelled then JobCancelled
                   else sync_status (z_stats z) (z_attempted z) (z_stats z'),
                   z_stats z, z_stats z', seen', z_app z')))"

section \<open>What one ingestion changes\<close>

lemma AddCheckpoint_mono: "db_HasCheckpoint s x y \<Longrightarrow> db_HasCheckpoint (db_AddCheckpoint s x' y' m) x y"
  by (auto simp: db_AddCheckpoint_def db_HasCheckpoint_def)

lemma storeMessage_mono:
  assumes "db_HasCheckpoint (st a) x y"
  shows "db_HasCheckpoint (st (snd (storeMessage L w a c acc raw h parsed uidl mb))) x y"
proof (cases rule: storeMessage_cases [of L w a c acc raw h parsed uidl mb])
  case (failed e)
  then show ?thesis using assms by (simp add: mail_view_def db_HasCheckpoint_def)
next
  case (dup s i)
  then have "db_HasCheckpoint s x y" using assms by (simp add: mail_view_def db_HasCheckpoint_def)
  then show ?thesis using dup(3) by (simp add: AddCheckpoint_mono)
next
  case (stored u t a1 body a2 s)
  have "checkpoints s = checkpoints (st a)"
    using stored(1) insert_ok(4) [OF stored(3)] by (simp add: mail_view_def)
  then have "db_HasCheckpoint s x y" using assms by (simp add: db_HasCheckpoint_def)
  then show ?thesis using stored(5) by (simp add: AddCheckpoint_mono)
qed

lemma scan_parts_cfg [simp]: "cfg (snd (scan_parts L w c mid n a ps)) = cfg a"
  by (induction L w c mid n a ps rule: scan_parts.induct)
     (auto simp: Let_def case_prod_beta split: sum.split prod.split)

lemma storeMessage_cfg [simp]: "cfg (snd (storeMessage L w a c acc raw h parsed uidl mb)) = cfg a"
  by (auto simp: storeMessage_def Let_def case_prod_beta split: sum.split)

lemma LocalDelete_cfg [simp]: "cfg (snd (LocalDelete L w a c i)) = cfg a"
proof -
  obtain g a1 where g: "delete_gate L w a c = (g, a1)" by (cases "delete_gate L w a c")
  then have "cfg a1 = cfg a" using delete_gate_state [of L w a c] by auto
  then show ?thesis
    using LocalDelete_def [of L w a c i, folded delete_gate_def, unfolded g Let_def]
    by (auto split: option.split sum.split prod.split)
qed

lemma run_actions_cfg [simp]: "cfg (snd (run_actions L w a c m ch names xs)) = cfg a"
proof (induction xs arbitrary: m ch names)
  case (Cons x xs)
  obtain e a' where "LocalDelete L w a c (m_ID m) = (e, a')" by (cases "LocalDelete L w a c (m_ID m)")
  moreover from this have "cfg a' = cfg a" using LocalDelete_cfg by (metis snd_conv)
  ultimately show ?case using Cons by (cases e) (simp_all add: case_prod_beta)
qed simp

lemma run_rules_cfg: "cfg (snd (run_rules L w a c body m ch matched rs)) = cfg a"
proof (induction rs arbitrary: a m ch matched)
  case Nil
  then show ?case by (auto simp: finish_rules_def Let_def split: sum.split)
next
  case (Cons r rs)
  obtain out a' where ra: "run_actions L w a c m ch [] (r_Actions r) = (out, a')"
    by (cases "run_actions L w a c m ch [] (r_Actions r)")
  then have "cfg a' = cfg a" using run_actions_cfg by (metis snd_conv)
  with Cons ra show ?case by (cases out) (auto simp: Let_def finish_rules_def split: sum.split)
qed

lemma ingest_rules_cfg [simp]: "cfg (evaluateRulesOnIngest L w a c m b) = cfg a"
  using run_rules_cfg [of L w a c "Some b" m False "[]" "db_ListRules (st a) (m_UserID m)"]
  by (auto simp: evaluateRulesOnIngest_def evaluateRules_def Let_def split: prod.splits option.splits)

text \<open>
  Every way an ingestion can end: with an error, as oversize, as a duplicate, or as a new message.
\<close>

lemma ingestOne_cases:
  assumes "ingestOne L w a c content acc rm u stats mb = (e, stats', a')"
  obtains (unread) x where "e = Some x" "stats' = stats" "a' = a"
  | (failed) x n raw h parsed uidl where "e = Some x" "stats' = stats\<lparr>sy_ParseError := n\<rparr>"
      "storeMessage L w a c acc raw h parsed uidl mb = (Inl x, a')"
  | (oversize) bytes where "e = None" "stats' = stats\<lparr>sy_Oversize := sy_Oversize stats + 1\<rparr>" "a' = a"
      "content = Inr bytes" "MaxMessageBytes (cfg a) > 0"
      "int (length (take (nat (rawReadLimit (MaxMessageBytes (cfg a)))) bytes)) > MaxMessageBytes (cfg a)"
  | (known) n uidl where "e = None"
      "stats' = stats\<lparr>sy_ParseError := n, sy_Duplicate := sy_Duplicate stats + 1\<rparr>"
      "a' = a \<or> a' = a\<lparr>st := db_AddCheckpoint (st a) (a_ID acc) uidl []\<rparr>"
  | (clash) n raw h parsed uidl where "e = None"
      "stats' = stats\<lparr>sy_ParseError := n, sy_Duplicate := sy_Duplicate stats + 1\<rparr>"
      "storeMessage L w a c acc raw h parsed uidl mb = (Inr None, a')"
  | (new) n raw h parsed uidl m b a1 where "e = None"
      "stats' = stats\<lparr>sy_ParseError := n, sy_New := sy_New stats + 1\<rparr>"
      "storeMessage L w a c acc raw h parsed uidl mb = (Inr (Some (m, b)), a1)"
      "a' = (if mb \<noteq> MailboxSent then evaluateRulesOnIngest L w a1 c m b else a1)"
proof (cases content)
  case (Inl x)
  with assms show thesis by (intro unread [of x]) (simp_all add: ingestOne_def)
next
  case (Inr bytes)
  define raw where "raw = take (nat (rawReadLimit (MaxMessageBytes (cfg a)))) bytes"
  define h where "h = hex (sha256 L raw)"
  define parsed where "parsed = parse_mail L raw"
  define stats1 where "stats1 = (if pm_ParseError parsed \<noteq> []
      then stats\<lparr>sy_ParseError := sy_ParseError stats + 1\<rparr> else stats)"
  define uidl where "uidl = (if rm_UIDL rm = [] then fallback_uidl L parsed raw h else rm_UIDL rm)"
  have s1: "\<exists>n. stats1 = stats\<lparr>sy_ParseError := n\<rparr>"
    unfolding stats1_def by (cases "pm_ParseError parsed = []") (auto intro: exI [of _ "sy_ParseError stats"])
  then obtain n where n: "stats1 = stats\<lparr>sy_ParseError := n\<rparr>" ..
  have eq: "ingestOne L w a c content acc rm u stats mb =
     (if MaxMessageBytes (cfg a) > 0 \<and> int (length raw) > MaxMessageBytes (cfg a)
      then (None, stats\<lparr>sy_Oversize := sy_Oversize stats + 1\<rparr>, a)
      else if db_IsDuplicateHash (st a) (a_ID acc) h
      then (None, stats\<lparr>sy_Duplicate := sy_Duplicate stats + 1\<rparr>,
            if u \<and> rm_UIDL rm \<noteq> [] then a\<lparr>st := db_AddCheckpoint (st a) (a_ID acc) (rm_UIDL rm) []\<rparr> else a)
      else if mb = MailboxSent \<and> db_HasSentCopy (st a) (a_ID acc) (pm_MessageID parsed)
      then (None, stats1\<lparr>sy_Duplicate := sy_Duplicate stats1 + 1\<rparr>,
            a\<lparr>st := db_AddCheckpoint (st a) (a_ID acc) (rm_UIDL rm) []\<rparr>)
      else if rm_UIDL rm = [] \<and> db_HasCheckpoint (st a) (a_ID acc) (fallback_uidl L parsed raw h)
      then (None, stats1\<lparr>sy_Duplicate := sy_Duplicate stats1 + 1\<rparr>, a)
      else case storeMessage L w a c acc raw h parsed uidl mb of
             (Inl x, a1) \<Rightarrow> (Some x, stats1, a1)
           | (Inr None, a1) \<Rightarrow> (None, stats1\<lparr>sy_Duplicate := sy_Duplicate stats1 + 1\<rparr>, a1)
           | (Inr (Some (msg, body)), a1) \<Rightarrow>
               (None, stats1\<lparr>sy_New := sy_New stats1 + 1\<rparr>,
                if mb \<noteq> MailboxSent then evaluateRulesOnIngest L w a1 c msg body else a1))"
    unfolding ingestOne_def Inr sum.case Let_def raw_def [symmetric] h_def [symmetric]
      parsed_def [symmetric] stats1_def [symmetric] uidl_def [symmetric] ..
  consider (big) "MaxMessageBytes (cfg a) > 0 \<and> int (length raw) > MaxMessageBytes (cfg a)"
    | (hash) "\<not> (MaxMessageBytes (cfg a) > 0 \<and> int (length raw) > MaxMessageBytes (cfg a))"
        "db_IsDuplicateHash (st a) (a_ID acc) h"
    | (seen) "ingestOne L w a c content acc rm u stats mb =
          (None, stats1\<lparr>sy_Duplicate := sy_Duplicate stats1 + 1\<rparr>,
           a\<lparr>st := db_AddCheckpoint (st a) (a_ID acc) (rm_UIDL rm) []\<rparr>) \<or>
        ingestOne L w a c content acc rm u stats mb = (None, stats1\<lparr>sy_Duplicate := sy_Duplicate stats1 + 1\<rparr>, a)"
    | (store) "ingestOne L w a c content acc rm u stats mb =
        (case storeMessage L w a c acc raw h parsed uidl mb of
             (Inl x, a1) \<Rightarrow> (Some x, stats1, a1)
           | (Inr None, a1) \<Rightarrow> (None, stats1\<lparr>sy_Duplicate := sy_Duplicate stats1 + 1\<rparr>, a1)
           | (Inr (Some (msg, body)), a1) \<Rightarrow>
               (None, stats1\<lparr>sy_New := sy_New stats1 + 1\<rparr>,
                if mb \<noteq> MailboxSent then evaluateRulesOnIngest L w a1 c msg body else a1))"
    unfolding eq by argo
  then show thesis
  proof cases
    case big
    then show thesis using assms Inr eq by (intro oversize [of bytes]) (auto simp: raw_def)
  next
    case hash
    have "stats = stats\<lparr>sy_ParseError := sy_ParseError stats\<rparr>" by simp
    with hash show thesis using assms eq
      by (intro known [of "sy_ParseError stats" "rm_UIDL rm"]) (auto split: if_splits)
  next
    case seen
    then show thesis using assms n by (intro known [of n "rm_UIDL rm"]) auto
  next
    case store
    obtain r a1 where sm: "storeMessage L w a c acc raw h parsed uidl mb = (r, a1)"
      by (cases "storeMessage L w a c acc raw h parsed uidl mb")
    show thesis
    proof (cases r)
      case (Inl x)
      with store assms sm n show thesis by (intro failed [of x n raw h parsed uidl]) simp_all
    next
      case (Inr o')
      show thesis
      proof (cases o')
        case None
        with store assms sm n Inr show thesis by (intro clash [of n raw h parsed uidl]) simp_all
      next
        case (Some mb')
        obtain m b where "mb' = (m, b)" by (cases mb')
        with store assms sm n Inr Some show thesis by (intro new [of n raw h parsed uidl m b a1]) simp_all
      qed
    qed
  qed
qed

lemma ingestOne_keeps:
  assumes "ingestOne L w a c content acc rm u stats mb = (e, stats', a')"
  shows "db_HasCheckpoint (st a) x y \<Longrightarrow> db_HasCheckpoint (st a') x y" and "cfg a' = cfg a"
proof -
  have sm: "db_HasCheckpoint (st a) x y \<Longrightarrow> db_HasCheckpoint (st a1) x y" "cfg a1 = cfg a"
    if "storeMessage L w a c acc raw h parsed uidl box = (r, a1)" for raw h parsed uidl box r a1
    using storeMessage_mono [of a x y L w c acc raw h parsed uidl box]
      storeMessage_cfg [of L w a c acc raw h parsed uidl box] that by simp_all
  have rules: "db_HasCheckpoint (st (evaluateRulesOnIngest L w a1 c m b)) x y = db_HasCheckpoint (st a1) x y"
    for a1 m b by (rule HasCheckpoint_cong) simp
  show "db_HasCheckpoint (st a) x y \<Longrightarrow> db_HasCheckpoint (st a') x y"
    using assms by (cases rule: ingestOne_cases) (auto simp: rules AddCheckpoint_mono dest: sm(1))
  show "cfg a' = cfg a"
    using assms by (cases rule: ingestOne_cases) (auto dest: sm(2))
qed

definition handled :: "SyncStats \<Rightarrow> int" where
  "handled s = sy_New s + sy_Duplicate s + sy_Oversize s"

lemma ingestOne_stats:
  assumes "ingestOne L w a c content acc rm u stats mb = (e, stats', a')"
  shows "sy_Seen stats' = sy_Seen stats" "sy_Failed stats' = sy_Failed stats"
    "handled stats' = handled stats + (if e = None then 1 else 0)"
    "sy_New stats \<le> sy_New stats'" "sy_New stats' \<le> sy_New stats + (if e = None then 1 else 0)"
  using assms by (cases rule: ingestOne_cases; simp add: handled_def)+

section \<open>The loop\<close>

lemma save_progress_frame [simp]:
  "mail_view (st (save_progress w a j)) = mail_view (st a)" "cfg (save_progress w a j) = cfg a"
  by (simp_all add: save_progress_def db_UpdateJob_def mail_view_def)

lemma HasCheckpoint_view: "mail_view s' = mail_view s \<Longrightarrow> db_HasCheckpoint s' x y = db_HasCheckpoint s x y"
  by (simp add: mail_view_def db_HasCheckpoint_def)

text \<open>Every way a step can end.\<close>

lemma inbox_step_cases:
  obtains (known) "inbox_step L w c sess acc u cnt rm z =
      z\<lparr>z_stats := (z_stats z)\<lparr>sy_Seen := sy_Seen (z_stats z) + 1, sy_Duplicate := sy_Duplicate (z_stats z) + 1\<rparr>\<rparr>"
      "u" "db_HasCheckpoint (st (z_app z)) (a_ID acc) (rm_UIDL rm)"
  | (listed) "inbox_step L w c sess acc u cnt rm z =
      z\<lparr>z_stats := (z_stats z)\<lparr>sy_Seen := sy_Seen (z_stats z) + 1, sy_Oversize := sy_Oversize (z_stats z) + 1\<rparr>\<rparr>"
      "MaxMessageBytes (cfg (z_app z)) > 0" "rm_Size rm > MaxMessageBytes (cfg (z_app z))"
  | (error) x stats' a' where
      "ingestOne L w (z_app z) c (se_Retrieve sess (rm_Number rm)) acc rm u
         ((z_stats z)\<lparr>sy_Seen := sy_Seen (z_stats z) + 1\<rparr>) MailboxInbox = (Some x, stats', a')"
      "z_stats (inbox_step L w c sess acc u cnt rm z) = stats'\<lparr>sy_Failed := sy_Failed stats' + 1\<rparr>"
      "z_app (inbox_step L w c sess acc u cnt rm z) = a'"
      "z_fetched (inbox_step L w c sess acc u cnt rm z) = z_fetched z"
      "z_attempted (inbox_step L w c sess acc u cnt rm z) = z_attempted z + 1"
  | (ended) stats' a' where
      "ingestOne L w (z_app z) c (se_Retrieve sess (rm_Number rm)) acc rm u
         ((z_stats z)\<lparr>sy_Seen := sy_Seen (z_stats z) + 1\<rparr>) MailboxInbox = (None, stats', a')"
      "z_stats (inbox_step L w c sess acc u cnt rm z) = stats'"
      "mail_view (st (z_app (inbox_step L w c sess acc u cnt rm z))) = mail_view (st a')"
      "cfg (z_app (inbox_step L w c sess acc u cnt rm z)) = cfg a'"
      "z_fetched (inbox_step L w c sess acc u cnt rm z) = z_fetched z + 1"
      "z_attempted (inbox_step L w c sess acc u cnt rm z) = z_attempted z + 1"
proof -
  let ?s = "(z_stats z)\<lparr>sy_Seen := sy_Seen (z_stats z) + 1\<rparr>"
  let ?call = "ingestOne L w (z_app z) c (se_Retrieve sess (rm_Number rm)) acc rm u ?s MailboxInbox"
  obtain e stats' a' where call: "?call = (e, stats', a')" by (cases ?call)
  consider "u \<and> rm_UIDL rm \<noteq> [] \<and> db_HasCheckpoint (st (z_app z)) (a_ID acc) (rm_UIDL rm)"
    | "\<not> (u \<and> rm_UIDL rm \<noteq> [] \<and> db_HasCheckpoint (st (z_app z)) (a_ID acc) (rm_UIDL rm))"
      "MaxMessageBytes (cfg (z_app z)) > 0 \<and> rm_Size rm > MaxMessageBytes (cfg (z_app z))"
    | "\<not> (u \<and> rm_UIDL rm \<noteq> [] \<and> db_HasCheckpoint (st (z_app z)) (a_ID acc) (rm_UIDL rm))"
      "\<not> (MaxMessageBytes (cfg (z_app z)) > 0 \<and> rm_Size rm > MaxMessageBytes (cfg (z_app z)))" by blast
  then show thesis
  proof cases
    case 1
    then show thesis by (intro known) (simp_all add: inbox_step_def Let_def)
  next
    case 2
    then show thesis by (intro listed) (auto simp add: inbox_step_def Let_def)
  next
    case 3
    show thesis
    proof (cases e)
      case None
      with 3 call show thesis by (intro ended [of stats' a']) (auto simp: inbox_step_def Let_def)
    next
      case (Some x)
      with 3 call show thesis by (intro error [of x stats' a']) (auto simp: inbox_step_def Let_def)
    qed
  qed
qed

text \<open>What a step keeps and counts.\<close>

lemma inbox_step_keeps:
  "db_HasCheckpoint (st (z_app z)) x y \<Longrightarrow>
     db_HasCheckpoint (st (z_app (inbox_step L w c sess acc u cnt rm z))) x y"
  "cfg (z_app (inbox_step L w c sess acc u cnt rm z)) = cfg (z_app z)"
  by (cases rule: inbox_step_cases [of L w c sess acc u cnt rm z];
      auto dest: ingestOne_keeps HasCheckpoint_view)+

definition accounted :: "sync_state \<Rightarrow> bool" where
  "accounted z \<longleftrightarrow> sy_Seen (z_stats z) = handled (z_stats z) + sy_Failed (z_stats z) \<and>
     z_attempted z = z_fetched z + sy_Failed (z_stats z) \<and> 0 \<le> sy_Failed (z_stats z) \<and> 0 \<le> z_fetched z \<and>
     sy_New (z_stats z) \<le> z_fetched z"

lemma inbox_step_accounted:
  assumes "accounted z"
  shows "accounted (inbox_step L w c sess acc u cnt rm z)"
proof (cases rule: inbox_step_cases [of L w c sess acc u cnt rm z])
  case (error x stats' a')
  note st = ingestOne_stats [OF error(1)]
  show ?thesis using assms error st by (simp add: accounted_def handled_def)
next
  case (ended stats' a')
  note st = ingestOne_stats [OF ended(1)]
  show ?thesis using assms ended st by (simp add: accounted_def handled_def)
qed (use assms in \<open>simp_all add: accounted_def handled_def\<close>)

lemma inbox_loop_accounted:
  assumes "accounted z" "inbox_loop L ws stop c sess acc u maxN cnt i z rms = (b, z')"
  shows "accounted z'" and "maxN > 0 \<longrightarrow> z_fetched z \<le> maxN \<longrightarrow> z_fetched z' \<le> maxN"
    and "sy_Seen (z_stats z') \<le> sy_Seen (z_stats z) + int (length rms)"
proof -
  have seen: "sy_Seen (z_stats (inbox_step L w c sess acc u cnt rm z)) = sy_Seen (z_stats z) + 1"
    "z_fetched (inbox_step L w c sess acc u cnt rm z) \<le> z_fetched z + 1" for w rm z
    by (cases rule: inbox_step_cases [of L w c sess acc u cnt rm z]; auto dest: ingestOne_stats)+
  have "accounted z' \<and> (maxN > 0 \<longrightarrow> z_fetched z \<le> maxN \<longrightarrow> z_fetched z' \<le> maxN) \<and>
      sy_Seen (z_stats z') \<le> sy_Seen (z_stats z) + int (length rms)"
    using assms
  proof (induction rms arbitrary: i z)
    case (Cons rm rms)
    let ?z1 = "inbox_step L (ws i) c sess acc u cnt rm z"
    show ?case
    proof (cases "stop i \<or> maxN > 0 \<and> z_fetched z \<ge> maxN")
      case True
      with Cons.prems have "z' = z" by (auto split: if_splits)
      with Cons.prems(1) show ?thesis by simp
    next
      case False
      with Cons.prems(2) have run: "inbox_loop L ws stop c sess acc u maxN cnt (Suc i) ?z1 rms = (b, z')"
        by auto
      from Cons.IH [OF inbox_step_accounted [OF Cons.prems(1)] run] seen [of "ws i" rm z] False
      show ?thesis by auto
    qed
  qed simp
  then show "accounted z'" "maxN > 0 \<longrightarrow> z_fetched z \<le> maxN \<longrightarrow> z_fetched z' \<le> maxN"
    "sy_Seen (z_stats z') \<le> sy_Seen (z_stats z) + int (length rms)" by simp_all
qed

section \<open>Nothing is fetched twice\<close>

text \<open>
  A message is settled when it has a checkpoint, or is too large by its listed size or by the bytes
  the server delivers for it.
\<close>

definition too_large :: "int \<Rightarrow> InboundSession \<Rightarrow> RemoteMessage \<Rightarrow> bool" where
  "too_large limit sess rm \<longleftrightarrow> limit > 0 \<and>
     (rm_Size rm > limit \<or>
      (\<exists>bytes. se_Retrieve sess (rm_Number rm) = Inr bytes \<and>
         int (length (take (nat (rawReadLimit limit)) bytes)) > limit))"

definition settled :: "InboundSession \<Rightarrow> MailAccount \<Rightarrow> app \<Rightarrow> RemoteMessage \<Rightarrow> bool" where
  "settled sess acc a rm \<longleftrightarrow>
     db_HasCheckpoint (st a) (a_ID acc) (rm_UIDL rm) \<or> too_large (MaxMessageBytes (cfg a)) sess rm"

lemma settled_step:
  "settled sess acc (z_app z) rm' \<Longrightarrow> settled sess acc (z_app (inbox_step L w c sess acc u cnt rm z)) rm'"
  using inbox_step_keeps by (auto simp: settled_def)

lemma step_settles:
  assumes "rm_UIDL rm \<noteq> []"
    and "sy_Failed (z_stats (inbox_step L w c sess acc True cnt rm z)) \<le> sy_Failed (z_stats z)"
  shows "settled sess acc (z_app (inbox_step L w c sess acc True cnt rm z)) rm"
proof (cases rule: inbox_step_cases [of L w c sess acc True cnt rm z])
  case (ended stats' a')
  note in1 = ended(1)
  from in1 have content: "\<exists>bytes. se_Retrieve sess (rm_Number rm) = Inr bytes"
    by (cases "se_Retrieve sess (rm_Number rm)") (auto simp: ingestOne_def)
  have "cfg a' = cfg (z_app z)" using ingestOne_keeps(2) [OF in1] .
  have "settled sess acc a' rm"
  proof (cases "sy_Oversize stats' = sy_Oversize (z_stats z)")
    case True
    from content obtain bytes where "se_Retrieve sess (rm_Number rm) = Inr bytes" ..
    with in1 have "db_HasCheckpoint (st a') (a_ID acc) (rm_UIDL rm)"
      using ingest_ok_checkpoint [of L "w" "z_app z" c bytes acc rm
          "(z_stats z)\<lparr>sy_Seen := sy_Seen (z_stats z) + 1\<rparr>" MailboxInbox stats' a'] assms(1) True by simp
    then show ?thesis by (simp add: settled_def)
  next
    case False
    from in1 show ?thesis
    proof (cases rule: ingestOne_cases)
      case (oversize bytes)
      then show ?thesis by (auto simp: settled_def too_large_def)
    qed (use False in simp_all)
  qed
  then show ?thesis using ended(3,4) by (auto simp: settled_def dest: HasCheckpoint_view)
next
  case (error x stats' a')
  with assms(2) ingestOne_stats(2) [OF error(1)] show ?thesis by simp
qed (auto simp: settled_def too_large_def)

lemma step_failed_mono: "sy_Failed (z_stats z) \<le> sy_Failed (z_stats (inbox_step L w c sess acc u cnt rm z))"
  by (cases rule: inbox_step_cases [of L w c sess acc u cnt rm z]; auto dest: ingestOne_stats)

lemma loop_failed_mono:
  "inbox_loop L ws stop c sess acc u maxN cnt i z rms = (b, z') \<Longrightarrow> sy_Failed (z_stats z) \<le> sy_Failed (z_stats z')"
proof (induction rms arbitrary: i z)
  case (Cons rm rms)
  then show ?case using step_failed_mono [of z L "ws i" c sess acc u cnt rm]
    by (auto split: if_splits intro: order_trans)
qed simp

lemma loop_settled_mono:
  "inbox_loop L ws stop c sess acc u maxN cnt i z rms = (b, z') \<Longrightarrow> settled sess acc (z_app z) rm' \<Longrightarrow>
   settled sess acc (z_app z') rm'"
  by (induction rms arbitrary: i z) (auto split: if_splits intro: settled_step)

lemma loop_settles:
  assumes "inbox_loop L ws stop c sess acc True maxN cnt i z rms = (False, z')" "maxN \<le> 0"
    and "sy_Failed (z_stats z') \<le> sy_Failed (z_stats z)" "\<forall>rm\<in>set rms. rm_UIDL rm \<noteq> []"
  shows "\<forall>rm\<in>set rms. settled sess acc (z_app z') rm"
  using assms
proof (induction rms arbitrary: i z)
  case (Cons rm rms)
  let ?z1 = "inbox_step L (ws i) c sess acc True cnt rm z"
  have run: "inbox_loop L ws stop c sess acc True maxN cnt (Suc i) ?z1 rms = (False, z')"
    using Cons.prems(1,2) by (auto split: if_splits)
  have f: "sy_Failed (z_stats ?z1) \<le> sy_Failed (z_stats z)" "sy_Failed (z_stats z') \<le> sy_Failed (z_stats ?z1)"
    using loop_failed_mono [OF run] step_failed_mono [of z L "ws i" c sess acc True cnt rm] Cons.prems(3) by auto
  have "settled sess acc (z_app ?z1) rm" using step_settles f(1) Cons.prems(4) by simp
  then have "settled sess acc (z_app z') rm" using loop_settled_mono [OF run] by blast
  with Cons.IH [OF run Cons.prems(2) f(2)] Cons.prems(4) show ?case by simp
qed simp

lemma settled_skip:
  assumes "settled sess acc (z_app z) rm" "rm_UIDL rm \<noteq> []"
  shows "mail_view (st (z_app (inbox_step L w c sess acc True cnt rm z))) = mail_view (st (z_app z))"
    "sy_New (z_stats (inbox_step L w c sess acc True cnt rm z)) = sy_New (z_stats z)"
    "sy_Failed (z_stats (inbox_step L w c sess acc True cnt rm z)) = sy_Failed (z_stats z)"
  using assms by (auto simp: settled_def too_large_def inbox_step_def Let_def ingestOne_def)

lemma settled_loop:
  assumes "inbox_loop L ws stop c sess acc True maxN cnt i z rms = (b, z')"
    and "\<forall>rm\<in>set rms. settled sess acc (z_app z) rm \<and> rm_UIDL rm \<noteq> []"
  shows "mail_view (st (z_app z')) = mail_view (st (z_app z)) \<and> sy_New (z_stats z') = sy_New (z_stats z) \<and>
    sy_Failed (z_stats z') = sy_Failed (z_stats z)"
  using assms
proof (induction rms arbitrary: i z)
  case (Cons rm rms)
  let ?z1 = "inbox_step L (ws i) c sess acc True cnt rm z"
  have "\<forall>r\<in>set rms. settled sess acc (z_app ?z1) r \<and> rm_UIDL r \<noteq> []"
    using Cons.prems(2) settled_step by auto
  then show ?case
    using Cons.IH [of "Suc i" ?z1] Cons.prems settled_skip [of sess acc z rm L "ws i" c cnt]
    by (auto split: if_splits)
qed simp

section \<open>Properties\<close>

text \<open>
  Every message of the listing that a sync looks at is counted exactly once, as new, duplicate,
  oversize or failed; the attempts are the successful ones plus the failed ones, no more new
  messages are reported than were fetched, and a sync with a limit never fetches more than the
  limit, however many messages are listed and however it ends.
\<close>

theorem sync_counts:
  assumes "inbox_loop L ws stop c sess acc u maxN cnt 0 (start_sync a job) remote = (b, z)"
  shows "sy_Seen (z_stats z) = sy_New (z_stats z) + sy_Duplicate (z_stats z) + sy_Oversize (z_stats z) + sy_Failed (z_stats z) \<and>
     sy_Seen (z_stats z) \<le> int (length remote) \<and>
     z_attempted z = z_fetched z + sy_Failed (z_stats z) \<and> sy_New (z_stats z) \<le> z_fetched z \<and>
     (maxN > 0 \<longrightarrow> z_fetched z \<le> maxN)"
proof -
  have "accounted (start_sync a job)"
    by (simp add: accounted_def start_sync_def no_stats_def handled_def)
  from inbox_loop_accounted [OF this assms] show ?thesis
    by (simp add: accounted_def handled_def start_sync_def no_stats_def)
qed


text \<open>A maildrop with one message, the content of which is stored already.\<close>

definition sample_job :: Job where
  "sample_job = \<lparr>j_ID = ''job_1'', j_UserID = ''usr_1'', j_Type = ''sync'', j_AccountID = ''acc_1'',
     j_Status = JobRunning, j_Progress = [], j_Stats = [], j_Error = [], j_CreatedAt = 1, j_UpdatedAt = 1\<rparr>"

definition sample_remote :: RemoteMessage where
  "sample_remote = \<lparr>rm_Number = 1, rm_UIDL = ''u9'', rm_Size = 2\<rparr>"

lemma dup_sync:
  "\<exists>z. inbox_loop sample_lib (\<lambda>_. sample_io) (\<lambda>_. False) (sample_ctx ''scheduler'' []) sample_session
     sample_account True 0 1 0 (start_sync dup_app sample_job) [sample_remote] = (False, z) \<and>
   sy_Failed (z_stats z) = 0 \<and> sy_Seen (z_stats z) = 1"
proof -
  have h: "hex (sha256 sample_lib ''hi'') = ''6869''" by code_simp
  have cap: "MaxMessageBytes (cfg dup_app) = 1000000" "nat (rawReadLimit 1000000) = 1000001"
    "se_Retrieve sample_session n = Inr ''hi''" for n
    by (simp_all add: dup_app_def sample_app_def sample_cfg_def rawReadLimit_def max_int64_def
        sample_session_def Let_def)
  have dup: "db_IsDuplicateHash (st dup_app) (a_ID sample_account) ''6869''"
    "\<not> db_HasCheckpoint (st dup_app) x y" for x y
    by (simp_all add: db_IsDuplicateHash_def dup_app_def sample_message_def sample_account_def
        db_HasCheckpoint_def empty_store_def)
  show ?thesis
    by (simp add: inbox_step_def Let_def start_sync_def no_stats_def sample_remote_def ingestOne_def cap h dup)
qed

theorem sync_counts_witness:
  "\<exists>z. inbox_loop sample_lib (\<lambda>_. sample_io) (\<lambda>_. False) (sample_ctx ''scheduler'' []) sample_session
     sample_account True 0 1 0 (start_sync dup_app sample_job) [sample_remote] = (False, z) \<and>
   sy_New (z_stats z) + sy_Duplicate (z_stats z) + sy_Oversize (z_stats z) = 1"
proof -
  obtain z where z: "inbox_loop sample_lib (\<lambda>_. sample_io) (\<lambda>_. False) (sample_ctx ''scheduler'' []) sample_session
     sample_account True 0 1 0 (start_sync dup_app sample_job) [sample_remote] = (False, z)"
    "sy_Failed (z_stats z) = 0" "sy_Seen (z_stats z) = 1" using dup_sync by blast
  from sync_counts [OF z(1)] z show ?thesis by auto
qed


end
