(* ===== verification/Sync_Diagnostics.thy ===== *)
theory Sync_Diagnostics
  imports Inbound_Error Sync_Run
begin

text \<open>
  What an operator is told about a failed sync (\<open>src/internal/application/sync_diagnostics.go\<close> and
  \<open>provider_diagnostics.go\<close>): the diagnostic of a session, its rendering, the read boundary that lets
  only known words and numbers through, and the attempts to connect.  The rendering of seconds with
  one decimal is a parameter, \<open>secs\<close>.
\<close>

section \<open>Texts\<close>

text \<open>UTF-8 of code points of the basic plane.\<close>

definition rune_bytes :: "nat \<Rightarrow> nat list" where
  "rune_bytes c =
     (if c < 0x80 then [c]
      else if c < 0x800 then [0xC0 + c div 64, 0x80 + c mod 64]
      else [0xE0 + c div 4096, 0x80 + c div 64 mod 64, 0x80 + c mod 64])"

definition runes :: "nat list \<Rightarrow> string" where
  "runes cs = utf8 (concat (map rune_bytes cs))"

definition providerFailed :: string where
  "providerFailed =
     runes [0xC678, 0xBD80, 0x20, 0xC11C, 0xBE44, 0xC2A4, 0x20, 0xC694, 0xCCAD, 0xC5D0, 0x20,
     0xC2E4, 0xD328, 0xD588, 0xC2B5, 0xB2C8, 0xB2E4, 0x2E, 0x20, 0xC11C, 0xBC84, 0x20, 0xC5F0,
     0xACB0, 0xB7, 0xC778, 0xC99D, 0xB7, 0xC815, 0xCC45, 0x20, 0xC124, 0xC815, 0xC744, 0x20,
     0xD655, 0xC778, 0xD558, 0xC138, 0xC694, 0x2E]"

definition providerAuthFailed :: string where
  "providerAuthFailed =
     runes [0xBA54, 0xC77C, 0x20, 0xC778, 0xC99D, 0xC5D0, 0x20, 0xC2E4, 0xD328, 0xD588, 0xC2B5,
     0xB2C8, 0xB2E4, 0x2E, 0x20, 0xAD00, 0xB9AC, 0xC790, 0xC5D0, 0xAC8C, 0x20, 0xBA54, 0xC77C,
     0x20, 0xACC4, 0xC815, 0x20, 0xBE44, 0xBC00, 0xAC12, 0x20, 0xD655, 0xC778, 0xC744, 0x20,
     0xC694, 0xCCAD, 0xD558, 0xC138, 0xC694, 0x2E]"

definition providerTimeout :: string where
  "providerTimeout =
     runes [0xC11C, 0xBE44, 0xC2A4, 0x20, 0xC751, 0xB2F5, 0x20, 0xC2DC, 0xAC04, 0xC774, 0x20,
     0xCD08, 0xACFC, 0xB418, 0xC5C8, 0xC2B5, 0xB2C8, 0xB2E4, 0x2E, 0x20, 0xC791, 0xC5C5, 0xB7,
     0xBC1C, 0xC1A1, 0x20, 0xC0C1, 0xD0DC, 0xB97C, 0x20, 0xD655, 0xC778, 0xD55C, 0x20, 0xB4A4,
     0x20, 0xB2E4, 0xC2DC, 0x20, 0xC2DC, 0xB3C4, 0xD558, 0xC138, 0xC694, 0x2E]"

definition providerCancelled :: string where
  "providerCancelled =
     runes [0xC791, 0xC5C5, 0xC774, 0x20, 0xCDE8, 0xC18C, 0xB418, 0xC5C8, 0xC2B5, 0xB2C8,
     0xB2E4, 0x2E]"

definition providerUnexpected :: string where
  "providerUnexpected =
     runes [0xC791, 0xC5C5, 0x20, 0xC911, 0x20, 0xB0B4, 0xBD80, 0x20, 0xC624, 0xB958, 0xAC00,
     0x20, 0xBC1C, 0xC0DD, 0xD588, 0xC2B5, 0xB2C8, 0xB2E4, 0x2E, 0x20, 0xAD00, 0xB9AC, 0xC790,
     0xC5D0, 0xAC8C, 0x20, 0xC791, 0xC5C5, 0x20, 0x49, 0x44, 0xB97C, 0x20, 0xC804, 0xB2EC,
     0xD558, 0xC138, 0xC694, 0x2E]"

definition providerListFailed :: string where
  "providerListFailed =
     runes [0xBA54, 0xC77C, 0x20, 0xBAA9, 0xB85D, 0xC744, 0x20, 0xAC00, 0xC838, 0xC624, 0xC9C0,
     0x20, 0xBABB, 0xD588, 0xC2B5, 0xB2C8, 0xB2E4, 0x2E, 0x20, 0xC11C, 0xBC84, 0x20, 0xC0C1,
     0xD0DC, 0xC640, 0x20, 0xACC4, 0xC815, 0x20, 0xAD8C, 0xD55C, 0xC744, 0x20, 0xD655, 0xC778,
     0xD558, 0xC138, 0xC694, 0x2E]"

definition providerSyncFailed :: string where
  "providerSyncFailed =
     runes [0xBA54, 0xC77C, 0x20, 0xB3D9, 0xAE30, 0xD654, 0xC5D0, 0x20, 0xC2E4, 0xD328, 0xD588,
     0xC2B5, 0xB2C8, 0xB2E4, 0x2E, 0x20, 0xC11C, 0xBC84, 0x20, 0xC5F0, 0xACB0, 0xB7, 0xC778,
     0xC99D, 0x20, 0xC124, 0xC815, 0xACFC, 0x20, 0xACC4, 0xC815, 0x20, 0xC0C1, 0xD0DC, 0xB97C,
     0x20, 0xD655, 0xC778, 0xD558, 0xC138, 0xC694, 0x2E]"

definition providerEmbedFailed :: string where
  "providerEmbedFailed =
     runes [0xBA54, 0xC77C, 0x20, 0xC0C9, 0xC778, 0x20, 0xC791, 0xC5C5, 0xC5D0, 0x20, 0xC2E4,
     0xD328, 0xD588, 0xC2B5, 0xB2C8, 0xB2E4] @ ''. AI '' @ runes [0xC5F0, 0xACB0, 0xACFC, 0x20,
     0xBCA1, 0xD130, 0x20, 0xC800, 0xC7A5, 0xC18C, 0x20, 0xC124, 0xC815, 0xC744, 0x20, 0xD655,
     0xC778, 0xD558, 0xC138, 0xC694, 0x2E]"

definition providerHidden :: string where
  "providerHidden =
     runes [0xC11C, 0xBC84, 0x20, 0xC9C4, 0xB2E8, 0x20, 0xB0B4, 0xC6A9, 0xC740, 0x20, 0xBCF4,
     0xC548, 0xC744, 0x20, 0xC704, 0xD574, 0x20, 0xC228, 0xACBC, 0xC2B5, 0xB2C8, 0xB2E4, 0x2E,
     0x20, 0xC791, 0xC5C5, 0x20, 0xC0C1, 0xD0DC, 0xC640, 0x20, 0xD1B5, 0xACC4, 0xB97C, 0x20,
     0xD655, 0xC778, 0xD558, 0xC138, 0xC694, 0x2E]"

definition providerAIContext :: string where
  "providerAIContext =
     runes [0x41, 0x49, 0x20, 0xC785, 0xB825, 0xC774, 0x20, 0xBAA8, 0xB378] @ '' Context '' @
     runes [0xD55C, 0xB3C4, 0xB97C, 0x20, 0xCD08, 0xACFC, 0xD588, 0xC2B5, 0xB2C8, 0xB2E4, 0x2E,
     0x20, 0xC785, 0xB825, 0x20, 0xBC94, 0xC704, 0xB97C, 0x20, 0xC904, 0xC774, 0xAC70, 0xB098,
     0x20, 0xAD00, 0xB9AC, 0xC790, 0xC5D0, 0xC11C, 0x20, 0xBAA8, 0xB378, 0x20, 0xD55C, 0xB3C4,
     0x20, 0xC790, 0xB3D9, 0x20, 0xAC10, 0xC9C0, 0xB7, 0xB300, 0xCCB4, 0x20, 0xD55C, 0xB3C4,
     0xB97C, 0x20, 0xD655, 0xC778, 0xD558, 0xC138, 0xC694, 0x2E]"

definition providerAIOutput :: string where
  "providerAIOutput =
     runes [0x41, 0x49, 0x20, 0xCD9C, 0xB825, 0xC774, 0x20, 0xD1A0, 0xD070, 0x20, 0xD55C,
     0xB3C4, 0xC5D0, 0xC11C, 0x20, 0xC911, 0xB2E8, 0xB418, 0xC5C8, 0xC2B5, 0xB2C8, 0xB2E4,
     0x2E, 0x20, 0xC5F0, 0xACB0, 0xB7, 0xC778, 0xC99D, 0x20, 0xC2E4, 0xD328, 0xAC00, 0x20,
     0xC544, 0xB2D9, 0xB2C8, 0xB2E4, 0x2E, 0x20, 0xCD9C, 0xB825, 0x20, 0xC0C1, 0xD55C, 0xC744,
     0x20, 0xD655, 0xC778, 0xD558, 0xAC70, 0xB098, 0x20, 0xB354, 0x20, 0xC9E7, 0xC740, 0x20,
     0xB2F5, 0xBCC0, 0xC744, 0x20, 0xC694, 0xCCAD, 0xD558, 0xC138, 0xC694, 0x2E]"

definition providerAIEmpty :: string where
  "providerAIEmpty =
     runes [0x41, 0x49, 0x20, 0xC11C, 0xBC84, 0xC5D0, 0x20, 0xC5F0, 0xACB0, 0xD588, 0xC73C,
     0xB098, 0x20, 0xC0AC, 0xC6A9, 0xD560, 0x20, 0xD14D, 0xC2A4, 0xD2B8, 0xAC00, 0x20, 0xC5C6,
     0xC2B5, 0xB2C8, 0xB2E4, 0x2E, 0x20, 0xBAA8, 0xB378, 0xC758, 0x20, 0xC0DD, 0xC131, 0x20,
     0xBC29, 0xC2DD, 0xACFC, 0x20, 0xCD9C, 0xB825, 0x20, 0xD1A0, 0xD070, 0x20, 0xC124, 0xC815,
     0xC744, 0x20, 0xD655, 0xC778, 0xD558, 0xC138, 0xC694, 0x2E]"

definition providerAIDisabled :: string where
  "providerAIDisabled =
     runes [0xAD00, 0xB9AC, 0xC790, 0xAC00, 0x20, 0xBE44, 0xD65C, 0xC131, 0xD654, 0xD55C] @
     '' AI '' @ runes [0xBAA8, 0xB378, 0xC785, 0xB2C8, 0xB2E4, 0x2E, 0x20, 0xC0AC, 0xC6A9,
     0xD560, 0x20, 0xBAA8, 0xB378, 0xC744, 0x20, 0xD655, 0xC778, 0xD558, 0xC138, 0xC694, 0x2E]"

definition providerAIEmbedding :: string where
  "providerAIEmbedding =
     runes [0xC784, 0xBCA0, 0xB529, 0x20, 0xC751, 0xB2F5, 0xC758, 0x20, 0xAC1C, 0xC218, 0xB7,
     0xC21C, 0xC11C, 0xB7, 0xBCA1, 0xD130, 0x20, 0xD615, 0xC2DD, 0xC774, 0x20, 0xC62C, 0xBC14,
     0xB974, 0xC9C0, 0x20, 0xC54A, 0xC544, 0x20, 0xC800, 0xC7A5, 0xD558, 0xC9C0, 0x20, 0xC54A,
     0xC558, 0xC2B5, 0xB2C8, 0xB2E4, 0x2E, 0x20, 0xBAA8, 0xB378, 0xACFC, 0x20, 0xC784, 0xBCA0,
     0xB529, 0x20, 0xC11C, 0xBC84, 0xB97C, 0x20, 0xD655, 0xC778, 0xD558, 0xC138, 0xC694, 0x2E]"

definition providerAIResponse :: string where
  "providerAIResponse =
     runes [0x41, 0x49, 0x20, 0xC751, 0xB2F5, 0xC774, 0x20, 0xC911, 0xAC04, 0xC5D0, 0x20,
     0xB04A, 0xAE30, 0xAC70, 0xB098, 0x20, 0xD615, 0xC2DD, 0xC774, 0x20, 0xC62C, 0xBC14,
     0xB974, 0xC9C0, 0x20, 0xC54A, 0xC544, 0x20, 0xC0AC, 0xC6A9, 0xD558, 0xC9C0, 0x20, 0xC54A,
     0xC558, 0xC2B5, 0xB2C8, 0xB2E4, 0x2E, 0x20, 0xC11C, 0xBC84, 0x20, 0xC0C1, 0xD0DC, 0xB97C,
     0x20, 0xD655, 0xC778, 0xD55C, 0x20, 0xB4A4, 0x20, 0xB2E4, 0xC2DC, 0x20, 0xC2DC, 0xB3C4,
     0xD558, 0xC138, 0xC694, 0x2E]"

definition providerAIAuth :: string where
  "providerAIAuth =
     runes [0x41, 0x49, 0x20, 0xC11C, 0xBC84, 0x20, 0xC778, 0xC99D, 0xC5D0, 0x20, 0xC2E4,
     0xD328, 0xD588, 0xC2B5, 0xB2C8, 0xB2E4] @ ''. API Key '' @ runes [0xB610, 0xB294, 0x20,
     0xAC8C, 0xC774, 0xD2B8, 0xC6E8, 0xC774, 0x20, 0xC778, 0xC99D, 0x20, 0xC124, 0xC815,
     0xC744, 0x20, 0xD655, 0xC778, 0xD558, 0xC138, 0xC694] @ ''. Postra '' @ runes [0xB85C,
     0xADF8, 0xC778, 0x20, 0xC138, 0xC158, 0x20, 0xBB38, 0xC81C, 0xB294, 0x20, 0xC544, 0xB2D9,
     0xB2C8, 0xB2E4, 0x2E]"

definition providerAIForbidden :: string where
  "providerAIForbidden =
     runes [0x41, 0x49, 0x20, 0xC11C, 0xBC84, 0xC5D0, 0xC11C, 0x20, 0xBAA8, 0xB378, 0x20,
     0xC811, 0xADFC, 0xC744, 0x20, 0xD5C8, 0xC6A9, 0xD558, 0xC9C0, 0x20, 0xC54A, 0xC558,
     0xC2B5, 0xB2C8, 0xB2E4, 0x2E, 0x20, 0xBAA8, 0xB378, 0x20, 0xAD8C, 0xD55C, 0xACFC, 0x20,
     0xAC8C, 0xC774, 0xD2B8, 0xC6E8, 0xC774, 0x20, 0xC815, 0xCC45, 0xC744, 0x20, 0xD655,
     0xC778, 0xD558, 0xC138, 0xC694, 0x2E]"

definition providerAIRate :: string where
  "providerAIRate =
     runes [0x41, 0x49, 0x20, 0xC11C, 0xBC84, 0xC758, 0x20, 0xC694, 0xCCAD, 0x20, 0xC81C,
     0xD55C, 0xC5D0, 0x20, 0xB3C4, 0xB2EC, 0xD588, 0xC2B5, 0xB2C8, 0xB2E4, 0x2E, 0x20, 0xC790,
     0xB3D9, 0xC73C, 0xB85C, 0x20, 0xB2E4, 0xB978, 0x20, 0xBAA8, 0xB378, 0xC744, 0x20, 0xD638,
     0xCD9C, 0xD558, 0xC9C0, 0x20, 0xC54A, 0xC558, 0xC2B5, 0xB2C8, 0xB2E4, 0x2E, 0x20, 0xC7A0,
     0xC2DC, 0x20, 0xD6C4, 0x20, 0xB2E4, 0xC2DC, 0x20, 0xC2DC, 0xB3C4, 0xD558, 0xC138, 0xC694,
     0x2E]"

definition providerAIQuota :: string where
  "providerAIQuota =
     runes [0x41, 0x49, 0x20, 0xACC4, 0xC815, 0xC758, 0x20, 0xC0AC, 0xC6A9, 0x20, 0xD55C,
     0xB3C4, 0xC5D0, 0x20, 0xB3C4, 0xB2EC, 0xD588, 0xC2B5, 0xB2C8, 0xB2E4, 0x2E, 0x20, 0xAD00,
     0xB9AC, 0xC790, 0xC5D0, 0xAC8C, 0x20, 0xD560, 0xB2F9, 0xB7C9, 0xC744, 0x20, 0xD655,
     0xC778, 0xD558, 0xC138, 0xC694, 0x2E, 0x20, 0xC790, 0xB3D9, 0xC73C, 0xB85C, 0x20, 0xB2E4,
     0xB978, 0x20, 0xBAA8, 0xB378, 0xC744, 0x20, 0xD638, 0xCD9C, 0xD558, 0xC9C0, 0x20, 0xC54A,
     0xC558, 0xC2B5, 0xB2C8, 0xB2E4, 0x2E]"

definition providerAITimeout :: string where
  "providerAITimeout =
     runes [0x41, 0x49, 0x20, 0xC11C, 0xBC84, 0x20, 0xC751, 0xB2F5, 0x20, 0xC2DC, 0xAC04,
     0xC774, 0x20, 0xCD08, 0xACFC, 0xB418, 0xC5C8, 0xC2B5, 0xB2C8, 0xB2E4, 0x2E, 0x20, 0xC911,
     0xBCF5, 0x20, 0xCC98, 0xB9AC, 0xB97C, 0x20, 0xD53C, 0xD558, 0xAE30, 0x20, 0xC704, 0xD574,
     0x20, 0xC790, 0xB3D9, 0xC73C, 0xB85C, 0x20, 0xB2E4, 0xC2DC, 0x20, 0xD638, 0xCD9C, 0xD558,
     0xC9C0, 0x20, 0xC54A, 0xC558, 0xC2B5, 0xB2C8, 0xB2E4, 0x2E, 0x20, 0xC11C, 0xBC84, 0x20,
     0xC0C1, 0xD0DC, 0xC640] @ '' Timeout '' @ runes [0xC124, 0xC815, 0xC744, 0x20, 0xD655,
     0xC778, 0xD558, 0xC138, 0xC694, 0x2E]"

definition providerAINetwork :: string where
  "providerAINetwork =
     runes [0x41, 0x49, 0x20, 0xC11C, 0xBC84, 0xC5D0, 0x20, 0xC5F0, 0xACB0, 0xD560, 0x20,
     0xC218, 0x20, 0xC5C6, 0xC2B5, 0xB2C8, 0xB2E4] @ ''. Endpoint'' @ runes [0xB7, 0xB0B4,
     0xBD80] @ '' DNS'' @ runes [0xB7, 0xB124, 0xD2B8, 0xC6CC, 0xD06C, 0xB7, 0xC778, 0xC99D,
     0xC11C, 0xB97C, 0x20, 0xD655, 0xC778, 0xD558, 0xC138, 0xC694, 0x2E]"

definition providerAIRejected :: string where
  "providerAIRejected =
     runes [0x41, 0x49, 0x20, 0xC11C, 0xBC84, 0xAC00, 0x20, 0xC694, 0xCCAD, 0xC744, 0x20,
     0xAC70, 0xBD80, 0xD588, 0xC2B5, 0xB2C8, 0xB2E4, 0x2E, 0x20, 0xBAA8, 0xB378, 0x20, 0xC774,
     0xB984, 0xB7, 0xC694, 0xCCAD, 0x20, 0xD615, 0xC2DD, 0xB7] @ ''API '' @ runes [0xD638,
     0xD658, 0xC131, 0xC744, 0x20, 0xD655, 0xC778, 0xD558, 0xC138, 0xC694, 0x2E]"

definition syncStoppedTimeout :: string where
  "syncStoppedTimeout =
     runes [0xBA54, 0xC77C, 0x20, 0xC11C, 0xBC84, 0xAC00, 0x20, 0xC81C, 0xD55C, 0x20, 0xC2DC,
     0xAC04, 0x20, 0xC548, 0xC5D0, 0x20, 0xC751, 0xB2F5, 0xD558, 0xC9C0, 0x20, 0xC54A, 0xC558,
     0xC2B5, 0xB2C8, 0xB2E4, 0x2E, 0x20, 0xC791, 0xC5C5, 0x20, 0xC0C1, 0xC138, 0xC5D0, 0xC11C,
     0x20, 0xBA48, 0xCD98, 0x20, 0xB2E8, 0xACC4, 0xC640, 0x20, 0xC18C, 0xC694, 0x20, 0xC2DC,
     0xAC04, 0xC744, 0x20, 0xD655, 0xC778, 0xD558, 0xC138, 0xC694, 0x2E]"

definition syncStoppedRefused :: string where
  "syncStoppedRefused =
     runes [0xBA54, 0xC77C, 0x20, 0xC11C, 0xBC84, 0xAC00, 0x20, 0xC5F0, 0xACB0, 0xC744, 0x20,
     0xAC70, 0xBD80, 0xD588, 0xC2B5, 0xB2C8, 0xB2E4, 0x2E, 0x20, 0xD638, 0xC2A4, 0xD2B8, 0xB7,
     0xD3EC, 0xD2B8, 0xC640, 0x20, 0xBC29, 0xD654, 0xBCBD, 0x20, 0xC815, 0xCC45, 0xC744, 0x20,
     0xD655, 0xC778, 0xD558, 0xC138, 0xC694, 0x2E]"

definition syncStoppedReset :: string where
  "syncStoppedReset =
     runes [0xBA54, 0xC77C, 0x20, 0xC11C, 0xBC84, 0xAC00, 0x20, 0xC5F0, 0xACB0, 0xC744, 0x20,
     0xB04A, 0xC5C8, 0xC2B5, 0xB2C8, 0xB2E4, 0x2E, 0x20, 0xB3D9, 0xC2DC, 0x20, 0xC811, 0xC18D,
     0x20, 0xC218, 0x20, 0xC81C, 0xD55C, 0xACFC, 0x20, 0xC11C, 0xBC84, 0x20, 0xB85C, 0xADF8,
     0xB97C, 0x20, 0xD655, 0xC778, 0xD558, 0xC138, 0xC694, 0x2E]"

definition syncStoppedUnreachable :: string where
  "syncStoppedUnreachable =
     runes [0xBA54, 0xC77C, 0x20, 0xC11C, 0xBC84, 0xAE4C, 0xC9C0, 0x20, 0xB124, 0xD2B8, 0xC6CC,
     0xD06C, 0x20, 0xACBD, 0xB85C, 0xAC00, 0x20, 0xC5C6, 0xC2B5, 0xB2C8, 0xB2E4] @ ''. DNS'' @
     runes [0xB7, 0xB77C, 0xC6B0, 0xD305, 0xB7, 0xBC29, 0xD654, 0xBCBD, 0xC744, 0x20, 0xD655,
     0xC778, 0xD558, 0xC138, 0xC694, 0x2E]"

definition syncStoppedDNS :: string where
  "syncStoppedDNS =
     runes [0xBA54, 0xC77C, 0x20, 0xC11C, 0xBC84, 0x20, 0xC8FC, 0xC18C, 0xB97C, 0x20, 0xD655,
     0xC778, 0xD560, 0x20, 0xC218, 0x20, 0xC5C6, 0xC2B5, 0xB2C8, 0xB2E4, 0x2E, 0x20, 0xD638,
     0xC2A4, 0xD2B8, 0x20, 0xC774, 0xB984, 0xACFC, 0x20, 0xB0B4, 0xBD80] @ '' DNS'' @
     runes [0xB97C, 0x20, 0xD655, 0xC778, 0xD558, 0xC138, 0xC694, 0x2E]"

definition syncStoppedTLS :: string where
  "syncStoppedTLS =
     ''TLS '' @ runes [0xC5F0, 0xACB0, 0xC744, 0x20, 0xC644, 0xB8CC, 0xD558, 0xC9C0, 0x20,
     0xBABB, 0xD588, 0xC2B5, 0xB2C8, 0xB2E4, 0x2E, 0x20, 0xC778, 0xC99D, 0xC11C, 0xB7, 0xC2E0,
     0xB8B0, 0x20, 0xC800, 0xC7A5, 0xC18C, 0xC640, 0x20, 0xBCF4, 0xC548, 0x20, 0xBAA8, 0xB4DC,
     0xB97C, 0x20, 0xD655, 0xC778, 0xD558, 0xC138, 0xC694, 0x2E]"

definition syncStoppedRejected :: string where
  "syncStoppedRejected =
     runes [0xBA54, 0xC77C, 0x20, 0xC11C, 0xBC84, 0xAC00, 0x20, 0xBA85, 0xB839, 0xC744, 0x20,
     0xAC70, 0xBD80, 0xD588, 0xC2B5, 0xB2C8, 0xB2E4, 0x2E, 0x20, 0xC791, 0xC5C5, 0x20, 0xC0C1,
     0xC138, 0xC758, 0x20, 0xB2E8, 0xACC4, 0xC640, 0x20, 0xC11C, 0xBC84, 0x20, 0xC751, 0xB2F5,
     0x20, 0xCF54, 0xB4DC, 0xB97C, 0x20, 0xD655, 0xC778, 0xD558, 0xC138, 0xC694, 0x2E]"

definition syncStoppedConfig :: string where
  "syncStoppedConfig =
     runes [0xB3D9, 0xAE30, 0xD654, 0xB97C, 0x20, 0xC2DC, 0xC791, 0xD558, 0xAE30, 0x20, 0xC804,
     0x20, 0xC124, 0xC815, 0x20, 0xD655, 0xC778, 0x20, 0xB2E8, 0xACC4, 0xC5D0, 0xC11C, 0x20,
     0xC911, 0xB2E8, 0xB418, 0xC5C8, 0xC2B5, 0xB2C8, 0xB2E4, 0x2E, 0x20, 0xC791, 0xC5C5, 0x20,
     0xC0C1, 0xC138, 0xC758, 0x20, 0xB2E8, 0xACC4, 0xB97C, 0x20, 0xD655, 0xC778, 0xD558,
     0xC138, 0xC694, 0x2E]"

text \<open>The messages that the read boundary recognises.\<close>

definition provider_messages :: "string list" where
  "provider_messages =
     [providerFailed, providerAuthFailed, providerTimeout, providerCancelled,
      providerUnexpected, providerListFailed, providerSyncFailed, providerEmbedFailed,
      providerHidden, providerAIContext, providerAIOutput, providerAIEmpty, providerAIDisabled,
      providerAIEmbedding, providerAIResponse, providerAIAuth, providerAIForbidden,
      providerAIRate, providerAIQuota, providerAITimeout, providerAINetwork,
      providerAIRejected, syncStoppedTimeout, syncStoppedRefused, syncStoppedReset,
      syncStoppedUnreachable, syncStoppedDNS, syncStoppedTLS, syncStoppedRejected,
      syncStoppedConfig]"

definition syncStageLabels :: "(string \<times> string) list" where
  "syncStageLabels =
     [(''policy'', runes [0xAD00, 0xB9AC, 0xC790, 0x20, 0xC815, 0xCC45, 0x20, 0xD655, 0xC778]),
      (''secret'', runes [0xBA54, 0xC77C, 0x20, 0xBE44, 0xBC00, 0xAC12, 0x20, 0xC0AC, 0xC6A9]),
      (''host_check'', runes [0xC11C, 0xBC84, 0x20, 0xC8FC, 0xC18C, 0x20, 0xD655, 0xC778]),
      (''tcp_connect'', runes [0xC11C, 0xBC84, 0x20, 0xC5F0, 0xACB0] @ ''(TCP)''),
      (''tls_handshake'', ''TLS '' @ runes [0xD578, 0xB4DC, 0xC170, 0xC774, 0xD06C]),
      (''greeting'', runes [0xC11C, 0xBC84, 0x20, 0xD658, 0xC601, 0x20, 0xBA54, 0xC2DC, 0xC9C0, 0x20,
        0xC218, 0xC2E0]),
      (''starttls'', ''STARTTLS '' @ runes [0xC804, 0xD658]),
      (''login'', runes [0xB85C, 0xADF8, 0xC778]),
      (''select'', runes [0xBA54, 0xC77C, 0xD568, 0x20, 0xC120, 0xD0DD]),
      (''enumerate'', runes [0xBA54, 0xC77C, 0x20, 0xBAA9, 0xB85D, 0x20, 0xC870, 0xD68C]),
      (''fetch'', runes [0xBA54, 0xC77C, 0x20, 0xBCF8, 0xBB38, 0x20, 0xC218, 0xC2E0]),
      (''list'', runes [0xBA54, 0xC77C, 0xD568, 0x20, 0xBAA9, 0xB85D, 0x20, 0xC870, 0xD68C]),
      (''idle'', runes [0xC2E4, 0xC2DC, 0xAC04, 0x20, 0xB300, 0xAE30] @ ''(IDLE)''),
      (''logout'', runes [0xC138, 0xC158, 0x20, 0xC885, 0xB8CC])]"

definition syncClassLabels :: "(string \<times> string) list" where
  "syncClassLabels =
     [(''timeout'', runes [0xC81C, 0xD55C, 0x20, 0xC2DC, 0xAC04, 0x20, 0xC548, 0xC5D0, 0x20, 0xC751,
        0xB2F5, 0xC774, 0x20, 0xC5C6, 0xC5C8, 0xC2B5, 0xB2C8, 0xB2E4]),
      (''refused'', runes [0xC11C, 0xBC84, 0xAC00, 0x20, 0xC5F0, 0xACB0, 0xC744, 0x20, 0xAC70, 0xBD80,
        0xD588, 0xC2B5, 0xB2C8, 0xB2E4]),
      (''reset'', runes [0xC11C, 0xBC84, 0xAC00, 0x20, 0xC5F0, 0xACB0, 0xC744, 0x20, 0xB04A, 0xC5C8,
        0xC2B5, 0xB2C8, 0xB2E4]),
      (''closed'', runes [0xC751, 0xB2F5, 0xC774, 0x20, 0xB05D, 0xB098, 0xAE30, 0x20, 0xC804, 0xC5D0,
        0x20, 0xC5F0, 0xACB0, 0xC774, 0x20, 0xB2EB, 0xD614, 0xC2B5, 0xB2C8, 0xB2E4]),
      (''unreachable'', runes [0xC11C, 0xBC84, 0xAE4C, 0xC9C0, 0x20, 0xB124, 0xD2B8, 0xC6CC, 0xD06C, 0x20,
        0xACBD, 0xB85C, 0xAC00, 0x20, 0xC5C6, 0xC5C8, 0xC2B5, 0xB2C8, 0xB2E4]),
      (''dns_not_found'', runes [0xD638, 0xC2A4, 0xD2B8, 0x20, 0xC774, 0xB984, 0xC744, 0x20, 0xCC3E, 0xC9C0,
        0x20, 0xBABB, 0xD588, 0xC2B5, 0xB2C8, 0xB2E4]),
      (''dns_failed'', runes [0xC774, 0xB984, 0x20, 0xC870, 0xD68C, 0xC5D0, 0x20, 0xC2E4, 0xD328, 0xD588,
        0xC2B5, 0xB2C8, 0xB2E4]),
      (''tls_certificate'', runes [0xC11C, 0xBC84, 0x20, 0xC778, 0xC99D, 0xC11C, 0xB97C, 0x20, 0xC2E0, 0xB8B0,
        0xD560, 0x20, 0xC218, 0x20, 0xC5C6, 0xC5C8, 0xC2B5, 0xB2C8, 0xB2E4]),
      (''tls_handshake'', ''TLS '' @ runes [0xD578, 0xB4DC, 0xC170, 0xC774, 0xD06C, 0xAC00, 0x20, 0xC2E4, 0xD328,
        0xD588, 0xC2B5, 0xB2C8, 0xB2E4]),
      (''rejected'', runes [0xC11C, 0xBC84, 0xAC00, 0x20, 0xBA85, 0xB839, 0xC744, 0x20, 0xAC70, 0xBD80,
        0xD588, 0xC2B5, 0xB2C8, 0xB2E4]),
      (''cancelled'', runes [0xC791, 0xC5C5, 0xC774, 0x20, 0xCDE8, 0xC18C, 0xB418, 0xC5C8, 0xC2B5, 0xB2C8,
        0xB2E4]),
      (''config'', runes [0xC11C, 0xBC84, 0xC5D0, 0x20, 0xC5F0, 0xACB0, 0xD558, 0xAE30, 0x20, 0xC804,
        0xC5D0, 0x20, 0xC911, 0xB2E8, 0xB418, 0xC5C8, 0xC2B5, 0xB2C8, 0xB2E4]),
      (''other'', runes [0xC54C, 0x20, 0xC218, 0x20, 0xC5C6, 0xB294, 0x20, 0xC624, 0xB958, 0xB85C, 0x20,
        0xC911, 0xB2E8, 0xB418, 0xC5C8, 0xC2B5, 0xB2C8, 0xB2E4])]"

definition sentOutcomeLabels :: "(string \<times> string) list" where
  "sentOutcomeLabels =
     [(''synced'', runes [0xBCF4, 0xB0B8, 0x20, 0xBA54, 0xC77C, 0xD568, 0xB3C4, 0x20, 0xD655, 0xC778,
        0xD588, 0xC2B5, 0xB2C8, 0xB2E4]),
      (''throttled'', runes [0xBCF4, 0xB0B8, 0x20, 0xBA54, 0xC77C, 0xD568, 0xC740, 0x20, 0xC2E4, 0xC2DC,
        0xAC04, 0x20, 0xB3D9, 0xAE30, 0xD654, 0xC5D0, 0xC11C, 0x20, 0xC0DD, 0xB7B5, 0xD588,
        0xC2B5, 0xB2C8, 0xB2E4, 0x28, 0xC8FC, 0xAE30, 0xC801, 0x20, 0xB3D9, 0xAE30, 0xD654,
        0xC5D0, 0xC11C, 0x20, 0xD655, 0xC778, 0x29]),
      (''none'', runes [0xC11C, 0xBC84, 0xC5D0, 0x20, 0xBCF4, 0xB0B8, 0x20, 0xBA54, 0xC77C, 0xD568,
        0xC774, 0x20, 0xC5C6, 0xC5B4, 0x20, 0xAC74, 0xB108, 0xB6F0, 0xC5C8, 0xC2B5, 0xB2C8,
        0xB2E4]),
      (''failed'', runes [0xBCF4, 0xB0B8, 0x20, 0xBA54, 0xC77C, 0xD568, 0x20, 0xD655, 0xC778, 0xC5D0,
        0x20, 0xC2E4, 0xD328, 0xD588, 0xC2B5, 0xB2C8, 0xB2E4, 0x28, 0xBC1B, 0xC740, 0x20,
        0xBA54, 0xC77C, 0xC740, 0x20, 0xC815, 0xC0C1, 0x20, 0xB3D9, 0xAE30, 0xD654, 0x29])]"

text \<open>A Go map read with a key it does not have gives the empty string.\<close>

definition label :: "(string \<times> string) list \<Rightarrow> string \<Rightarrow> string" where
  "label m k = (case map_of m k of Some v \<Rightarrow> v | None \<Rightarrow> [])"

section \<open>The diagnostic\<close>

record SyncDiagnostic =
  dg_Stage :: string
  dg_Command :: string
  dg_Class :: string
  dg_Code :: string
  dg_ElapsedMS :: int
  dg_TimeoutMS :: int
  dg_Attempts :: int
  dg_Recovered :: string
  dg_Protocol :: string
  dg_Host :: string
  dg_Port :: int
  dg_Security :: string
  dg_HostSessions :: int
  dg_AccountSessions :: int
  dg_SlotWaitMS :: int
  dg_Sent :: string
  dg_SentStage :: string
  dg_SentClass :: string
  dg_Summary :: string

definition syncFailureMessage :: "SyncDiagnostic \<Rightarrow> string" where
  "syncFailureMessage d =
     (let c = dg_Class d
      in if c = ''timeout'' then syncStoppedTimeout
         else if c = ''refused'' then syncStoppedRefused
         else if c = ''reset'' \<or> c = ''closed'' then syncStoppedReset
         else if c = ''unreachable'' then syncStoppedUnreachable
         else if c = ''dns_not_found'' \<or> c = ''dns_failed'' then syncStoppedDNS
         else if c = ''tls_certificate'' \<or> c = ''tls_handshake'' then syncStoppedTLS
         else if c = ''rejected'' then syncStoppedRejected
         else if c = ''config'' then syncStoppedConfig
         else providerSyncFailed)"

definition syncFailure :: "SyncDiagnostic \<Rightarrow> in_err \<Rightarrow> string \<Rightarrow> string" where
  "syncFailure d e fallback = (if has_stage e then syncFailureMessage d else fallback)"

definition durationMS :: "int \<Rightarrow> int" where
  "durationMS d = (if d \<le> 0 then 0 else d div 1000000)"

definition isConfigStage :: "string \<Rightarrow> bool" where
  "isConfigStage stage = (stage \<in> {''policy'', ''secret'', ''host_check''})"

text \<open>The first \<open>InboundError\<close> of a chain: stage, command, class, code, elapsed, timeout.\<close>

fun inbound_of :: "in_err \<Rightarrow> (string \<times> string \<times> string \<times> string \<times> int \<times> int) option" where
  "inbound_of (Staged stage cmd class code elapsed timeout e) = Some (stage, cmd, class, code, elapsed, timeout)"
| "inbound_of (Note p e) = inbound_of e"
| "inbound_of (Credential e) = inbound_of e"
| "inbound_of e = None"

definition syncDiagnosticStage :: "lib \<Rightarrow> string \<Rightarrow> in_err \<Rightarrow> SyncDiagnostic \<Rightarrow> SyncDiagnostic" where
  "syncDiagnosticStage L fallback e d =
     (case inbound_of e of
        Some (stage, cmd, class, code, elapsed, timeout) \<Rightarrow>
          d\<lparr>dg_Stage := stage, dg_Command := cmd, dg_Class := class, dg_Code := code,
            dg_ElapsedMS := durationMS elapsed, dg_TimeoutMS := durationMS timeout\<rparr>
      | None \<Rightarrow>
          d\<lparr>dg_Stage := fallback, dg_Command := [],
            dg_Code := (case rejected_code e of Some code \<Rightarrow> code | None \<Rightarrow> []),
            dg_Class := (if isConfigStage fallback then ''config'' else ClassifyInbound L e)\<rparr>)"

section \<open>Rendering\<close>

definition seconds_text :: "(int \<Rightarrow> string) \<Rightarrow> int \<Rightarrow> string" where
  "seconds_text secs ms = (if ms < 1000 then fmt_d ms @ ''ms'' else secs ms @ (runes [0xCD08]))"

definition syncTarget :: "lib \<Rightarrow> SyncDiagnostic \<Rightarrow> string" where
  "syncTarget L d =
     (if dg_Host d = [] then []
      else TrimSpace (ToUpper (uni_upper L) (dg_Protocol d) @ '' '' @ dg_Host d @
             (if dg_Port d > 0 then '':'' @ fmt_d (dg_Port d) else []) @
             (if dg_Security d \<noteq> [] then '' ('' @ dg_Security d @ '')'' else [])))"

definition sync_step :: "string \<Rightarrow> string \<Rightarrow> string \<Rightarrow> string \<Rightarrow> string" where
  "sync_step dstage dclass dcommand dcode =
     (let stage = label syncStageLabels dstage; class = label syncClassLabels dclass
      in if stage = [] \<and> class = [] then []
         else if stage = [] then class
         else if class = [] then stage @ (runes [0x20, 0xB2E8, 0xACC4, 0xC5D0, 0xC11C, 0x20, 0xC911, 0xB2E8, 0xB418, 0xC5C8,
          0xC2B5, 0xB2C8, 0xB2E4])
         else (if dcommand \<noteq> [] then stage @ (runes [0x20, 0xB2E8, 0xACC4, 0x28]) @ dcommand @ ''): '' @ class
               else stage @ (runes [0x20, 0xB2E8, 0xACC4, 0x3A, 0x20]) @ class) @
              (if dcode \<noteq> [] then '' ['' @ dcode @ '']'' else []))"

definition syncStep :: "SyncDiagnostic \<Rightarrow> string" where
  "syncStep d = sync_step (dg_Stage d) (dg_Class d) (dg_Command d) (dg_Code d)"

definition syncTiming :: "(int \<Rightarrow> string) \<Rightarrow> SyncDiagnostic \<Rightarrow> string" where
  "syncTiming secs d =
     (let el = seconds_text secs (dg_ElapsedMS d); to = seconds_text secs (dg_TimeoutMS d)
      in if dg_ElapsedMS d = 0 \<and> dg_TimeoutMS d = 0 then []
         else if dg_TimeoutMS d = 0 then el @ (runes [0x20, 0xD6C4, 0x20, 0xC911, 0xB2E8])
         else if dg_ElapsedMS d = 0 then (runes [0xC81C, 0xD55C, 0x20]) @ to
         else if dg_Class d = ''timeout'' \<and> wrap64 (dg_ElapsedMS d * 10) < wrap64 (dg_TimeoutMS d * 9)
         then (runes [0xC81C, 0xD55C, 0x20]) @ to @ (runes [0x20, 0xC911, 0x20]) @ el @ (runes [0xC5D0, 0x20, 0xC911, 0xB2E8, 0x28, 0xC774, 0x20, 0xB2E8, 0xACC4, 0xC758,
          0x20, 0xC81C, 0xD55C, 0x20, 0xC2DC, 0xAC04, 0xC5D0, 0xB294, 0x20, 0xC774, 0xB974,
          0xC9C0, 0x20, 0xC54A, 0xC558, 0xC2B5, 0xB2C8, 0xB2E4, 0x29])
         else (runes [0xC81C, 0xD55C, 0x20]) @ to @ (runes [0x20, 0xC911, 0x20]) @ el @ (runes [0x20, 0xACBD, 0xACFC]))"

definition syncSessions :: "SyncDiagnostic \<Rightarrow> string" where
  "syncSessions d =
     (if dg_HostSessions d \<le> 0 then []
      else (runes [0xC774, 0x20, 0xC11C, 0xBC84, 0xC5D0] @ '' Postra'' @ runes [0xAC00, 0x20,
          0xC720, 0xC9C0, 0x20, 0xC911, 0xC778, 0x20, 0xC5F0, 0xACB0, 0x20]) @ fmt_d (dg_HostSessions d) @ (runes [0xAC1C]) @
           (if dg_AccountSessions d > 0 then (runes [0x28, 0xC774, 0x20, 0xACC4, 0xC815, 0x20]) @ fmt_d (dg_AccountSessions d) @ (runes [0xAC1C, 0x29]) else []))"

definition greetingNotIMAPHint :: string where
  "greetingNotIMAPHint =
     runes [0xC11C, 0xBC84, 0xC758, 0x20, 0xCCAB, 0x20, 0xC751, 0xB2F5, 0xC774] @ '' IMAP '' @
     runes [0xD658, 0xC601, 0x20, 0xBA54, 0xC2DC, 0xC9C0, 0xAC00, 0x20, 0xC544, 0xB2D9, 0xB2C8,
     0xB2E4, 0x2E, 0x20, 0xC218, 0xC2E0, 0x20, 0xD3EC, 0xD2B8, 0xC640, 0x20, 0xD504, 0xB85C,
     0xD1A0, 0xCF5C, 0x20, 0xC870, 0xD569, 0xC744, 0x20, 0xD655, 0xC778, 0xD558, 0xC138,
     0xC694] @ ''(POP3 110'' @ runes [0xB7] @ ''995 '' @ runes [0xB610, 0xB294] @
     '' SMTP 25'' @ runes [0xB7] @ ''587 '' @ runes [0xD3EC, 0xD2B8, 0xC5D0] @ '' IMAP'' @
     runes [0xC73C, 0xB85C, 0x20, 0xC811, 0xC18D, 0xD588, 0xAC70, 0xB098, 0x2C, 0x20, 0xD504,
     0xB85D, 0xC2DC, 0xAC00, 0x20, 0xB2E4, 0xB978, 0x20, 0xC11C, 0xBC84, 0xB85C, 0x20, 0xC5F0,
     0xACB0, 0xD558, 0xACE0, 0x20, 0xC788, 0xC744, 0x20, 0xC218, 0x20, 0xC788, 0xC2B5, 0xB2C8,
     0xB2E4, 0x29]"

definition syncHint :: "SyncDiagnostic \<Rightarrow> string" where
  "syncHint d =
     (let connecting = (dg_Stage d \<in> {''tcp_connect'', ''greeting'', ''login''});
          implicitTLS = (dg_Port d = 993 \<or> dg_Port d = 995)
      in if dg_Class d = ''rejected'' \<and> TemporaryRefusal (dg_Code d)
         then (runes [0xC11C, 0xBC84, 0xAC00, 0x20, 0xC77C, 0xC2DC, 0xC801, 0xC778, 0x20, 0xC0AC,
          0xC720, 0xB85C, 0x20, 0xAC70, 0xBD80, 0xD588, 0xC2B5, 0xB2C8, 0xB2E4, 0x2E, 0x20,
          0xBE44, 0xBC00, 0xBC88, 0xD638, 0x20, 0xBB38, 0xC81C, 0xAC00, 0x20, 0xC544, 0xB2C8,
          0xBA70, 0x20, 0xACC4, 0xC815, 0x20, 0xC0C1, 0xD0DC, 0xB294, 0x20, 0xBC14, 0xAFB8,
          0xC9C0, 0x20, 0xC54A, 0xC558, 0xC2B5, 0xB2C8, 0xB2E4])
         else if dg_Stage d = ''greeting'' \<and> implicitTLS \<and> dg_Security d \<noteq> ''tls''
         then (runes [0xC774, 0x20, 0xD3EC, 0xD2B8, 0xB294, 0x20, 0xC811, 0xC18D, 0x20, 0xC9C1,
          0xD6C4] @ '' TLS'' @ runes [0xB97C, 0x20, 0xC694, 0xAD6C, 0xD569, 0xB2C8, 0xB2E4,
          0x2E, 0x20, 0xACC4, 0xC815, 0xC758, 0x20, 0xBCF4, 0xC548, 0x20, 0xBAA8, 0xB4DC,
          0xB97C] @ '' TLS'' @ runes [0xB85C, 0x20, 0xBC14, 0xAFB8, 0xC138, 0xC694, 0x28,
          0xD604, 0xC7AC, 0x20]) @ dg_Security d @ '')''
         else if connecting \<and> dg_AccountSessions d > 1
         then (runes [0xC774, 0x20, 0xACC4, 0xC815, 0xC758, 0x20, 0xB3D9, 0xC2DC, 0x20, 0xC811,
          0xC18D, 0x20, 0xD5C8, 0xC6A9, 0x20, 0xC218, 0xB97C, 0x20, 0xD655, 0xC778, 0xD558,
          0xC138, 0xC694, 0x2E, 0x20, 0xC2E4, 0xC2DC, 0xAC04, 0x20, 0xB300, 0xAE30] @
          ''(IDLE) '' @ runes [0xC5F0, 0xACB0, 0xACFC, 0x20, 0xB3D9, 0xAE30, 0xD654, 0x20,
          0xC5F0, 0xACB0, 0xC744, 0x20, 0xD568, 0xAED8, 0x20, 0xC0AC, 0xC6A9, 0xD569, 0xB2C8,
          0xB2E4, 0x2E, 0x20, 0xACC4, 0xC815, 0xB2F9, 0x20, 0x31, 0xAC1C, 0xB9CC, 0x20, 0xD5C8,
          0xC6A9, 0xD558, 0xB294, 0x20, 0xC11C, 0xBC84, 0xB77C, 0xBA74, 0x20, 0xAD00, 0xB9AC,
          0xC790, 0x20, 0xC124, 0xC815, 0xC5D0, 0xC11C] @ '' IMAP '' @ runes [0xC2E4, 0xC2DC,
          0xAC04, 0x20, 0xC218, 0xC2E0] @ ''(IDLE)'' @ runes [0xC744, 0x20, 0xB044, 0xC138,
          0xC694])
         else if dg_Stage d = ''greeting'' \<and> dg_Class d \<in> {''timeout'', ''closed'', ''reset''}
         then (''TCP '' @ runes [0xC5F0, 0xACB0, 0xC740, 0x20, 0xB418, 0xC5C8, 0xC73C, 0xB098, 0x20,
          0xC11C, 0xBC84, 0xAC00, 0x20, 0xC138, 0xC158, 0xC744, 0x20, 0xC2DC, 0xC791, 0xD558,
          0xC9C0, 0x20, 0xC54A, 0xC558, 0xC2B5, 0xB2C8, 0xB2E4, 0x2E, 0x20, 0xB3D9, 0xC2DC,
          0x20, 0xC811, 0xC18D, 0x20, 0xC81C, 0xD55C, 0xB7, 0xC811, 0xC18D, 0x20, 0xBE48,
          0xB3C4, 0x20, 0xC81C, 0xD55C, 0xB7, 0xCC28, 0xB2E8, 0x20, 0xBAA9, 0xB85D, 0xB7,
          0xD504, 0xB85D, 0xC2DC, 0xB97C, 0x20, 0xD655, 0xC778, 0xD558, 0xC138, 0xC694])
         else if dg_Stage d = ''greeting'' \<and> dg_Protocol d = ''imap'' \<and> dg_Class d = ''other''
         then greetingNotIMAPHint
         else if dg_Stage d = ''tls_handshake'' \<and> dg_Class d = ''timeout''
         then (runes [0xBCF4, 0xC548, 0x20, 0xBAA8, 0xB4DC] @ ''(TLS/STARTTLS)'' @ runes [0xC640,
          0x20, 0xD3EC, 0xD2B8, 0x20, 0xC870, 0xD569, 0xC744, 0x20, 0xD655, 0xC778, 0xD558,
          0xC138, 0xC694])
         else if dg_Stage d = ''fetch'' \<and> dg_Class d = ''timeout''
         then (runes [0xD070, 0x20, 0xCCA8, 0xBD80, 0xB97C, 0x20, 0xBC1B, 0xB294, 0x20, 0xC911,
          0x20, 0xBA48, 0xCDC4, 0xC744, 0x20, 0xC218, 0x20, 0xC788, 0xC2B5, 0xB2C8, 0xB2E4,
          0x2E, 0x20, 0xBA54, 0xC77C, 0x20, 0xCD5C, 0xB300, 0x20, 0xD06C, 0xAE30, 0xC640, 0x20,
          0xBA85, 0xB839, 0x20, 0xC81C, 0xD55C, 0x20, 0xC2DC, 0xAC04, 0xC744, 0x20, 0xD655,
          0xC778, 0xD558, 0xC138, 0xC694])
         else [])"

definition syncSentDetail :: "SyncDiagnostic \<Rightarrow> string" where
  "syncSentDetail d =
     (let step = sync_step (dg_SentStage d) (dg_SentClass d) [] []
      in if step = [] then [] else (runes [0x20, 0x2014, 0x20]) @ step)"

definition syncDiagnosticSummary :: "lib \<Rightarrow> (int \<Rightarrow> string) \<Rightarrow> SyncDiagnostic \<Rightarrow> string" where
  "syncDiagnosticSummary L secs d =
     join (runes [0x20, 0xB7, 0x20]) (filter (\<lambda>p. p \<noteq> [])
       [syncTarget L d, syncStep d, syncTiming secs d,
        (if dg_Attempts d > 1
         then (runes [0xC5F0, 0xACB0, 0x20, 0xC2DC, 0xB3C4, 0x20]) @ fmt_d (dg_Attempts d) @ (runes [0xD68C]) @
              (let class = label syncClassLabels (dg_Recovered d)
               in if class \<noteq> [] then (runes [0x28, 0xC774, 0xC804, 0x20, 0xC2DC, 0xB3C4, 0x3A, 0x20]) @ class @ (runes [0x20, 0x2014, 0x20, 0xC7AC, 0xC5F0, 0xACB0, 0x20, 0xD6C4, 0x20, 0xC9C4,
          0xD589, 0x29]) else [])
         else []),
        (if dg_SlotWaitMS d \<ge> 1000
         then (runes [0xB3D9, 0xC2DC, 0x20, 0xC2E4, 0xD589, 0x20, 0xC81C, 0xD55C, 0xC73C, 0xB85C,
          0x20]) @ seconds_text secs (dg_SlotWaitMS d) @ (runes [0x20, 0xB300, 0xAE30, 0x20, 0xD6C4, 0x20, 0xC2DC, 0xC791]) else []),
        syncSessions d, syncHint d,
        (let sent = label sentOutcomeLabels (dg_Sent d)
         in if sent \<noteq> [] \<and> dg_Sent d = ''failed'' then sent @ syncSentDetail d else sent)])"

section \<open>The read boundary\<close>

definition allowed :: "(string \<times> string) list \<Rightarrow> string \<Rightarrow> string" where
  "allowed vocabulary v = (if v \<in> fst ` set vocabulary then v else [])"

definition allowedToken :: "string list \<Rightarrow> string \<Rightarrow> string" where
  "allowedToken tokens v = (if v \<in> set tokens then v else [])"

definition allowedCommand :: "string \<Rightarrow> string" where
  "allowedCommand v =
     (if v \<noteq> [] \<and> length v \<le> 20 \<and> list_all (\<lambda>c. 65 \<le> byte c \<and> byte c \<le> 90 \<or> c = CHR '' '') v then v else [])"

definition allowedCode :: "lib \<Rightarrow> string \<Rightarrow> string" where
  "allowedCode L v = (if InboundResponseCode L (''['' @ v @ '']'') = v then v else [])"

definition host_char :: "char \<Rightarrow> bool" where
  "host_char c = (97 \<le> byte c \<and> byte c \<le> 122 \<or> 65 \<le> byte c \<and> byte c \<le> 90 \<or> is_digit c \<or>
     c \<in> {CHR ''.'', CHR ''-'', CHR '':'', CHR ''_''})"

definition allowedHost :: "string \<Rightarrow> string" where
  "allowedHost v = (if v \<noteq> [] \<and> length v \<le> 253 \<and> list_all host_char v then v else [])"

definition positive :: "int \<Rightarrow> int" where
  "positive v = (if v < 0 then 0 else v)"

definition safe_fields :: "lib \<Rightarrow> SyncDiagnostic \<Rightarrow> SyncDiagnostic" where
  "safe_fields L d =
     \<lparr>dg_Stage = allowed syncStageLabels (dg_Stage d), dg_Command = allowedCommand (dg_Command d),
      dg_Class = allowed syncClassLabels (dg_Class d), dg_Code = allowedCode L (dg_Code d),
      dg_ElapsedMS = positive (dg_ElapsedMS d), dg_TimeoutMS = positive (dg_TimeoutMS d),
      dg_Attempts = positive (dg_Attempts d), dg_Recovered = allowed syncClassLabels (dg_Recovered d),
      dg_Protocol = allowedToken [''pop3'', ''imap''] (dg_Protocol d),
      dg_Host = allowedHost (dg_Host d), dg_Port = positive (dg_Port d),
      dg_Security = allowedToken [''tls'', ''starttls'', ''none''] (dg_Security d),
      dg_HostSessions = positive (dg_HostSessions d), dg_AccountSessions = positive (dg_AccountSessions d),
      dg_SlotWaitMS = positive (dg_SlotWaitMS d),
      dg_Sent = allowed sentOutcomeLabels (dg_Sent d), dg_SentStage = allowed syncStageLabels (dg_SentStage d),
      dg_SentClass = allowed syncClassLabels (dg_SentClass d), dg_Summary = []\<rparr>"

definition safeSyncDiagnostic :: "lib \<Rightarrow> (int \<Rightarrow> string) \<Rightarrow> SyncDiagnostic \<Rightarrow> SyncDiagnostic option" where
  "safeSyncDiagnostic L secs d =
     (let out = safe_fields L d; s = syncDiagnosticSummary L secs out
      in if dg_Stage out = [] \<and> dg_Class out = [] \<and> dg_Sent out = [] \<and> dg_Recovered out = [] \<and> dg_Host out = [] then None
         else if s = [] then None else Some (out\<lparr>dg_Summary := s\<rparr>))"

definition jobDiagnostic :: "string \<Rightarrow> JobStatus \<Rightarrow> string \<Rightarrow> string" where
  "jobDiagnostic kind status message =
     (if message \<in> set provider_messages then message
      else if status = JobCancelled then providerCancelled
      else if status = JobFailed \<or> status = JobPartial
      then (if kind = ''sync'' then providerSyncFailed else if kind = ''embed'' then providerEmbedFailed else providerFailed)
      else if message \<noteq> [] then providerHidden else [])"

section \<open>Connecting\<close>

definition syncDialAttempts :: nat where "syncDialAttempts = 3"

definition limitShaped :: "SyncDiagnostic \<Rightarrow> bool" where
  "limitShaped d =
     (if dg_Class d = ''rejected'' then TemporaryRefusal (dg_Code d)
      else dg_Stage d \<in> {''greeting'', ''login''} \<and> dg_Class d \<in> {''timeout'', ''closed'', ''reset''})"

text \<open>The waits between the attempts, in seconds.\<close>

definition syncDialWaits :: "SyncDiagnostic \<Rightarrow> int list" where
  "syncDialWaits d = (if limitShaped d then [10] else [2, 5])"

definition retryableInbound :: "lib \<Rightarrow> in_err \<Rightarrow> bool" where
  "retryableInbound L e =
     (if is_credential e then False
      else case rejected_code e of
             Some code \<Rightarrow> TemporaryRefusal code
           | None \<Rightarrow>
               (let (class, code) = (case inbound_of e of
                      Some (stage, cmd, class, code, elapsed, timeout) \<Rightarrow>
                        (if class \<noteq> [] then class else ClassifyInbound L e, code)
                    | None \<Rightarrow> (ClassifyInbound L e, []))
                in if class = ''rejected'' then TemporaryRefusal code
                   else class \<in> {''timeout'', ''refused'', ''reset'', ''closed'', ''other''}))"

text \<open>
  \<open>dialInboundForSync\<close>: \<open>outcome i\<close> is the error of the \<open>i\<close>-th attempt to open the session, \<open>census i\<close>
  the connections held then, to the host and by the account, and \<open>stop i\<close> says that the sync was
  cancelled by then or during the wait.  The first component is the error it ends with.
\<close>

fun dial_attempts ::
  "lib \<Rightarrow> (nat \<Rightarrow> in_err option) \<Rightarrow> (nat \<Rightarrow> int \<times> int) \<Rightarrow> (nat \<Rightarrow> bool) \<Rightarrow> nat \<Rightarrow> nat \<Rightarrow> in_err option \<Rightarrow> SyncDiagnostic
     \<Rightarrow> in_err option \<times> SyncDiagnostic" where
  "dial_attempts L outcome census stop attempt 0 last_err d = (last_err, d)"
| "dial_attempts L outcome census stop attempt (Suc n) last_err d =
     (let d1 = d\<lparr>dg_Attempts := int attempt\<rparr>
      in case outcome attempt of
           None \<Rightarrow>
             (None, if attempt > 1
                    then d1\<lparr>dg_Recovered := dg_Class d1, dg_Stage := [], dg_Command := [], dg_Class := [], dg_Code := [],
                            dg_ElapsedMS := 0, dg_TimeoutMS := 0\<rparr>
                    else d1)
         | Some e \<Rightarrow>
             (let d2 = (syncDiagnosticStage L ''tcp_connect'' e d1)\<lparr>dg_HostSessions := fst (census attempt),
                          dg_AccountSessions := snd (census attempt)\<rparr>
              in if attempt > length (syncDialWaits d2) \<or> \<not> retryableInbound L e \<or> stop attempt then (Some e, d2)
                 else dial_attempts L outcome census stop (attempt + 1) n (Some e) d2))"

definition dialInboundForSync ::
  "lib \<Rightarrow> (nat \<Rightarrow> in_err option) \<Rightarrow> (nat \<Rightarrow> int \<times> int) \<Rightarrow> (nat \<Rightarrow> bool) \<Rightarrow> SyncDiagnostic
     \<Rightarrow> in_err option \<times> SyncDiagnostic" where
  "dialInboundForSync L outcome census stop d = dial_attempts L outcome census stop 1 syncDialAttempts None d"

section \<open>Lemmas\<close>

lemma allowed_cases: "allowed m v \<in> insert [] (fst ` set m)"
  by (simp add: allowed_def)

lemma allowed_again [simp]: "allowed m (allowed m v) = allowed m v"
  by (simp add: allowed_def)

lemma allowedToken_again [simp]: "allowedToken m (allowedToken m v) = allowedToken m v"
  by (simp add: allowedToken_def)

lemma allowedCommand_again [simp]: "allowedCommand (allowedCommand v) = allowedCommand v"
  by (simp add: allowedCommand_def)

lemma allowedHost_again [simp]: "allowedHost (allowedHost v) = allowedHost v"
  by (simp add: allowedHost_def)

lemma positive_again [simp]: "positive (positive n) = positive n"
  by (simp add: positive_def)

lemma InboundResponseCode_cases: "InboundResponseCode L reply \<in> insert [] (set inboundCodes)"
  by (simp add: InboundResponseCode_def Let_def split: option.splits list.splits)

lemma allowedCode_cases: "allowedCode L v \<in> insert [] (set inboundCodes)"
  using InboundResponseCode_cases [of L "''['' @ v @ '']''"] by (auto simp: allowedCode_def)

lemma allowedCode_again [simp]: "allowedCode L (allowedCode L v) = allowedCode L v"
  by (simp add: allowedCode_def)

lemma safe_fields_again: "safe_fields L ((safe_fields L d)\<lparr>dg_Summary := s\<rparr>) = safe_fields L d"
  by (simp add: safe_fields_def)

text \<open>The rendering does not read the summary that is there.\<close>

lemma summary_ignored: "syncDiagnosticSummary L secs (d\<lparr>dg_Summary := s\<rparr>) = syncDiagnosticSummary L secs d"
proof -
  have "syncTarget L (d\<lparr>dg_Summary := s\<rparr>) = syncTarget L d" by (simp add: syncTarget_def)
  moreover have "syncStep (d\<lparr>dg_Summary := s\<rparr>) = syncStep d" by (simp add: syncStep_def)
  moreover have "syncTiming secs (d\<lparr>dg_Summary := s\<rparr>) = syncTiming secs d"
    by (cases d) (simp only: syncTiming_def SyncDiagnostic.select_convs SyncDiagnostic.update_convs)
  moreover have "syncSessions (d\<lparr>dg_Summary := s\<rparr>) = syncSessions d" by (cases d) (simp only: syncSessions_def SyncDiagnostic.select_convs SyncDiagnostic.update_convs)
  moreover have "syncHint (d\<lparr>dg_Summary := s\<rparr>) = syncHint d" by (cases d) (simp only: syncHint_def SyncDiagnostic.select_convs SyncDiagnostic.update_convs)
  moreover have "syncSentDetail (d\<lparr>dg_Summary := s\<rparr>) = syncSentDetail d" by (simp add: syncSentDetail_def)
  ultimately show ?thesis by (cases d) (simp only: syncDiagnosticSummary_def SyncDiagnostic.select_convs SyncDiagnostic.update_convs)
qed

lemma safe_some:
  assumes "safeSyncDiagnostic L secs d = Some out"
  shows "out = (safe_fields L d)\<lparr>dg_Summary := syncDiagnosticSummary L secs (safe_fields L d)\<rparr>"
    and "safeSyncDiagnostic L secs out = Some out"
proof -
  let ?f = "safe_fields L d"
  show out: "out = ?f\<lparr>dg_Summary := syncDiagnosticSummary L secs ?f\<rparr>"
    using assms by (simp add: safeSyncDiagnostic_def Let_def split: if_splits)
  have "safe_fields L out = ?f" by (simp add: out safe_fields_again)
  with assms out show "safeSyncDiagnostic L secs out = Some out"
    by (simp add: safeSyncDiagnostic_def Let_def split: if_splits)
qed

text \<open>The line of a refusal, taken out of a chain.\<close>

fun erase_line :: "in_err \<Rightarrow> in_err" where
  "erase_line (Negative code line) = Negative code None"
| "erase_line (Note p e) = Note p (erase_line e)"
| "erase_line (Staged stage cmd class code elapsed timeout e) = Staged stage cmd class code elapsed timeout (erase_line e)"
| "erase_line (Credential e) = Credential (erase_line e)"
| "erase_line e = e"

lemma erase_line_chain [simp]:
  "rejected_code (erase_line e) = rejected_code e" "fault_of (erase_line e) = fault_of e"
  "inbound_of (erase_line e) = inbound_of e" "is_credential (erase_line e) = is_credential e"
  "has_stage (erase_line e) = has_stage e"
  by (induction e) simp_all

lemma erase_line_none: "rejected_code e = None \<Longrightarrow> erase_line e = e"
  by (induction e) simp_all

lemma ClassifyInbound_erase [simp]: "ClassifyInbound L (erase_line e) = ClassifyInbound L e"
  by (cases "rejected_code e") (simp_all add: erase_line_none ClassifyInbound_def)

lemma ClassifyInbound_known: "ClassifyInbound L e \<in> fst ` set syncClassLabels"
  by (simp add: ClassifyInbound_def text_class_def Let_def syncClassLabels_def split: fault_kind.splits)

text \<open>Two chains that differ in what the server wrote give the same diagnostic and the same retries.\<close>

lemma erase_line_diagnostic:
  "syncDiagnosticStage L fallback (erase_line e) d = syncDiagnosticStage L fallback e d"
  "syncFailure d (erase_line e) m = syncFailure d e m"
  "retryableInbound L (erase_line e) = retryableInbound L e"
  by (simp_all only: syncDiagnosticStage_def syncFailure_def retryableInbound_def erase_line_chain ClassifyInbound_erase)

lemma length_syncDialWaits: "length (syncDialWaits d) = (if limitShaped d then 1 else 2)"
  by (simp add: syncDialWaits_def)

lemma dial_attempts_erase:
  "dial_attempts L (\<lambda>i. map_option erase_line (outcome i)) census stop a n (map_option erase_line e) d =
     (case dial_attempts L outcome census stop a n e d of (r, d') \<Rightarrow> (map_option erase_line r, d'))"
proof (induction n arbitrary: a e d)
  case (Suc n)
  show ?case
  proof (cases "outcome a")
    case (Some x)
    from Suc.IH [of "a + 1" "Some x"] show ?thesis
      by (simp only: dial_attempts.simps Some option.map option.case Let_def erase_line_diagnostic split: if_splits)
        simp
  qed (simp add: Let_def)
qed simp

lemma dial_attempts_outcome:
  assumes "dial_attempts L outcome census stop a n e d = (r, d')" "0 < n" "a + n = 4" "0 < a"
  shows "\<exists>k. a \<le> k \<and> k \<le> 3 \<and> dg_Attempts d' = int k \<and> r = outcome k \<and>
    (\<forall>i. a \<le> i \<longrightarrow> i < k \<longrightarrow> (\<exists>x. outcome i = Some x \<and> retryableInbound L x \<and> \<not> stop i)) \<and>
    (r = None \<longrightarrow> 1 < k \<longrightarrow> dg_Class d' = []) \<and>
    (\<forall>x. r = Some x \<longrightarrow> \<not> retryableInbound L x \<or> stop k \<or> k = 3 \<or> k = 2 \<and> limitShaped d')"
  using assms
proof (induction n arbitrary: a e d)
  case (Suc n)
  let ?d1 = "d\<lparr>dg_Attempts := int a\<rparr>"
  show ?case
  proof (cases "outcome a")
    case None
    with Suc.prems show ?thesis by (intro exI [of _ a]) (auto simp: Let_def)
  next
    case (Some x)
    let ?d2 = "(syncDiagnosticStage L ''tcp_connect'' x ?d1)\<lparr>dg_HostSessions := fst (census a),
        dg_AccountSessions := snd (census a)\<rparr>"
    have a2: "dg_Attempts ?d2 = int a" by (simp add: syncDiagnosticStage_def split: option.splits)
    show ?thesis
    proof (cases "a > length (syncDialWaits ?d2) \<or> \<not> retryableInbound L x \<or> stop a")
      case True
      with Some Suc.prems have r: "r = Some x" "d' = ?d2" by (simp_all add: Let_def)
      from True have "\<not> retryableInbound L x \<or> stop a \<or> a = 3 \<or> a = 2 \<and> limitShaped ?d2"
        using Suc.prems by (auto simp: length_syncDialWaits split: if_splits)
      with r a2 Some Suc.prems show ?thesis by (intro exI [of _ a]) auto
    next
      case False
      then have "n \<noteq> 0" using Suc.prems by (auto simp: length_syncDialWaits split: if_splits)
      moreover from False Some Suc.prems
      have "dial_attempts L outcome census stop (a + 1) n (Some x) ?d2 = (r, d')" by (simp add: Let_def)
      ultimately obtain k where k: "a + 1 \<le> k" "k \<le> 3" "dg_Attempts d' = int k" "r = outcome k"
        "\<forall>i. a + 1 \<le> i \<longrightarrow> i < k \<longrightarrow> (\<exists>x. outcome i = Some x \<and> retryableInbound L x \<and> \<not> stop i)"
        "r = None \<longrightarrow> 1 < k \<longrightarrow> dg_Class d' = []"
        "\<forall>x. r = Some x \<longrightarrow> \<not> retryableInbound L x \<or> stop k \<or> k = 3 \<or> k = 2 \<and> limitShaped d'"
        using Suc.IH [of "a + 1" "Some x" ?d2] Suc.prems by auto
      from k(5) False Some
      have "\<forall>i. a \<le> i \<longrightarrow> i < k \<longrightarrow> (\<exists>x. outcome i = Some x \<and> retryableInbound L x \<and> \<not> stop i)"
        by (metis add.commute le_antisym not_less_eq_eq plus_1_eq_Suc)
      with k show ?thesis by (intro exI [of _ k]) auto
    qed
  qed
qed simp

text \<open>The error that ends the attempts is the error of one of them.\<close>

lemma dial_attempts_last:
  assumes "dialInboundForSync L outcome census stop d = (r, d')"
  shows "\<exists>k. r = outcome k"
  using dial_attempts_outcome [OF assms [unfolded dialInboundForSync_def]] by (auto simp: syncDialAttempts_def)

section \<open>Properties\<close>


text \<open>
  Opening the session of a sync makes one to three attempts, and the diagnostic counts them: each but the last failed in
  a way that may pass, while the sync was not stopped; it ends with the outcome of the last attempt, and gives up
  on an error that cannot pass, on a stop, after the third attempt, or after the second when the refusal looks like a limit
  on connections.  What the server wrote in its refusals makes no difference.
\<close>

theorem dial_retries_bounded:
  assumes "dialInboundForSync L outcome census stop d = (r, d')"
  shows "(\<exists>k \<in> {1..3}. dg_Attempts d' = int k \<and> r = outcome k \<and>
      (\<forall>i \<in> {1..<k}. \<exists>x. outcome i = Some x \<and> retryableInbound L x \<and> \<not> stop i) \<and>
      (r = None \<longrightarrow> 1 < k \<longrightarrow> dg_Class d' = []) \<and>
      (\<forall>x. r = Some x \<longrightarrow> \<not> retryableInbound L x \<or> stop k \<or> k = 3 \<or> k = 2 \<and> limitShaped d') \<and>
      (\<forall>x. outcome 1 = Some x \<longrightarrow> is_credential x \<longrightarrow> k = 1)) \<and>
    dialInboundForSync L (\<lambda>i. map_option erase_line (outcome i)) census stop d = (map_option erase_line r, d')"
proof (rule conjI)
  obtain k where k: "1 \<le> k" "k \<le> 3" "dg_Attempts d' = int k" "r = outcome k"
    "\<forall>i. 1 \<le> i \<longrightarrow> i < k \<longrightarrow> (\<exists>x. outcome i = Some x \<and> retryableInbound L x \<and> \<not> stop i)"
    "r = None \<longrightarrow> 1 < k \<longrightarrow> dg_Class d' = []"
    "\<forall>x. r = Some x \<longrightarrow> \<not> retryableInbound L x \<or> stop k \<or> k = 3 \<or> k = 2 \<and> limitShaped d'"
  proof -
    have "0 < syncDialAttempts" "1 + syncDialAttempts = 4" "0 < (1::nat)" by (simp_all add: syncDialAttempts_def)
    from dial_attempts_outcome [OF assms [unfolded dialInboundForSync_def] this] show thesis
      by (elim exE conjE) (rule that)
  qed
  moreover have "k = 1" if "outcome 1 = Some x" "is_credential x" for x
  proof (rule ccontr)
    assume "k \<noteq> 1"
    with k(1,5) that(1) have "retryableInbound L x" by auto
    with that(2) show False by (simp add: retryableInbound_def)
  qed
  ultimately show "\<exists>k \<in> {1..3}. dg_Attempts d' = int k \<and> r = outcome k \<and>
      (\<forall>i \<in> {1..<k}. \<exists>x. outcome i = Some x \<and> retryableInbound L x \<and> \<not> stop i) \<and>
      (r = None \<longrightarrow> 1 < k \<longrightarrow> dg_Class d' = []) \<and>
      (\<forall>x. r = Some x \<longrightarrow> \<not> retryableInbound L x \<or> stop k \<or> k = 3 \<or> k = 2 \<and> limitShaped d') \<and>
      (\<forall>x. outcome 1 = Some x \<longrightarrow> is_credential x \<longrightarrow> k = 1)"
    by (intro bexI [of _ k]) auto
  show "dialInboundForSync L (\<lambda>i. map_option erase_line (outcome i)) census stop d = (map_option erase_line r, d')"
    using assms dial_attempts_erase [of L outcome census stop 1 syncDialAttempts None d]
    by (simp add: dialInboundForSync_def)
qed

definition busy_then_open :: "nat \<Rightarrow> in_err option" where
  "busy_then_open i =
     (if i = 1 then Some (Staged ''login'' ''LOGIN'' ''rejected'' ''UNAVAILABLE'' 5000000 0 (Negative ''UNAVAILABLE'' (Some ''busy'')))
      else None)"

definition no_diagnostic :: SyncDiagnostic where
  "no_diagnostic =
     \<lparr>dg_Stage = [], dg_Command = [], dg_Class = [], dg_Code = [], dg_ElapsedMS = 0, dg_TimeoutMS = 0, dg_Attempts = 0,
      dg_Recovered = [], dg_Protocol = ''imap'', dg_Host = ''mail.test'', dg_Port = 993, dg_Security = ''tls'',
      dg_HostSessions = 0, dg_AccountSessions = 0, dg_SlotWaitMS = 0, dg_Sent = [], dg_SentStage = [],
      dg_SentClass = [], dg_Summary = []\<rparr>"

lemma busy_then_open_dial:
  "dialInboundForSync L busy_then_open (\<lambda>_. (1, 1)) (\<lambda>_. False) no_diagnostic =
     (None, no_diagnostic\<lparr>dg_Attempts := 2, dg_Recovered := ''rejected'', dg_HostSessions := 1, dg_AccountSessions := 1\<rparr>)"
  by (simp add: dialInboundForSync_def syncDialAttempts_def numeral_3_eq_3 Let_def busy_then_open_def
      syncDiagnosticStage_def length_syncDialWaits limitShaped_def TemporaryRefusal_def retryableInbound_def
      no_diagnostic_def)

theorem dial_retries_bounded_witness:
  "dg_Attempts (no_diagnostic\<lparr>dg_Attempts := 2, dg_Recovered := ''rejected'', dg_HostSessions := 1, dg_AccountSessions := 1\<rparr>) = 2 \<and>
   dialInboundForSync sample_lib (\<lambda>i. map_option erase_line (busy_then_open i)) (\<lambda>_. (1, 1)) (\<lambda>_. False) no_diagnostic =
     (None, no_diagnostic\<lparr>dg_Attempts := 2, dg_Recovered := ''rejected'', dg_HostSessions := 1, dg_AccountSessions := 1\<rparr>)"
  using dial_retries_bounded [OF busy_then_open_dial, of sample_lib] by simp

definition told :: SyncDiagnostic where
  "told = no_diagnostic\<lparr>dg_Stage := ''login'', dg_Command := ''LOGIN'', dg_Class := ''rejected'', dg_Code := ''AUTH hunter2'',
     dg_Host := []\<rparr>"

lemma join_nonempty: "x \<in> set xs \<Longrightarrow> x \<noteq> [] \<Longrightarrow> join s xs \<noteq> []"
  by (induction s xs rule: join.induct) auto

lemma runes_nonempty: "cs \<noteq> [] \<Longrightarrow> runes cs \<noteq> []"
  by (cases cs) (simp_all add: runes_def utf8_def rune_bytes_def)

lemma told_fields: "safe_fields sample_lib told = told\<lparr>dg_Code := []\<rparr>"
proof -
  have "allowedCode sample_lib ''AUTH hunter2'' = []" by code_simp
  then show ?thesis
    by (simp add: told_def no_diagnostic_def safe_fields_def allowedToken_def allowedHost_def positive_def allowed_def
        syncStageLabels_def syncClassLabels_def sentOutcomeLabels_def allowedCommand_def byte_def)
qed

lemma told_summary: "syncDiagnosticSummary L secs (told\<lparr>dg_Code := []\<rparr>) \<noteq> []"
proof -
  have "label syncStageLabels ''login'' \<noteq> []" "label syncClassLabels ''rejected'' \<noteq> []"
    by (simp_all add: label_def syncStageLabels_def syncClassLabels_def runes_nonempty)
  then have "sync_step ''login'' ''rejected'' ''LOGIN'' [] \<noteq> []" by (simp add: sync_step_def Let_def)
  then have "syncStep (told\<lparr>dg_Code := []\<rparr>) \<noteq> []" by (simp add: syncStep_def told_def no_diagnostic_def)
  then show ?thesis
    unfolding syncDiagnosticSummary_def
    by (intro join_nonempty [of "syncStep (told\<lparr>dg_Code := []\<rparr>)"]) simp_all
qed


end
