(* ===== verification/Sync_Connect.thy ===== *)
theory Sync_Connect
  imports Pop3_Client Imap_Client Sync_Diagnostics
begin

text \<open>
  How a sync opens its session (\<open>dialInbound\<close> of \<open>src/internal/application/app.go\<close> over an adapter,
  the first part of \<open>runSync\<close> and its \<open>finish\<close> in \<open>sync.go\<close>): the checks before the dial, the
  attempts, and what becomes of the account and of the job when no session could be opened.  The
  interface \<open>inbound_dialer\<close> stands for either adapter.
\<close>

section \<open>The checks before the dial\<close>

text \<open>The stage and the error of a check that stops the dial, or the options of the dial.\<close>

definition connect_gate :: "lib \<Rightarrow> io \<Rightarrow> app \<Rightarrow> MailAccount \<Rightarrow> (string \<times> err) + InboundDialOptions" where
  "connect_gate L w a acc =
     (let protocol = (if a_InboundProtocol acc = ''imap'' then ''imap'' else ''pop3'');
          plain = (a_POP3Security acc = SecurityNone \<or> a_InsecureSkipVerify acc)
      in if \<not> SettingBool a (''mail.'' @ protocol @ ''_enabled'') then Inl (''policy'', UserError (msg_disabled protocol))
         else if SettingBool a ''mail.tls_required'' \<and> plain then Inl (''policy'', UserError msg_tls)
         else if \<not> AllowInsecureMail (cfg a) \<and> plain then Inl (''policy'', UserError msg_plain)
         else case validateMailHost L w a (a_POP3Host acc) of
                Some e \<Rightarrow> Inl (''host_check'', e)
              | None \<Rightarrow>
                  (case inboundDialer L w acc of
                     Inl e \<Rightarrow> Inl (''policy'', e)
                   | Inr dial \<Rightarrow>
                       if a_POP3Secret acc = [] then Inr (dial_options a acc None)
                       else (case acquire_secret w (a_POP3Secret acc) of
                               Inl e \<Rightarrow> Inl (''secret'', e)
                             | Inr pw \<Rightarrow> Inr (dial_options a acc (Some pw)))))"

definition touch_secret :: "io \<Rightarrow> MailAccount \<Rightarrow> app \<Rightarrow> app" where
  "touch_secret w acc a =
     (if a_POP3Secret acc = [] then a
      else a\<lparr>st := db_TouchCredential (st a) (now w) (a_POP3Secret acc)\<rparr>)"

lemma dialInbound_gate:
  "dialInbound L w a acc =
     (case connect_gate L w a acc of
        Inl (stage, e) \<Rightarrow> (Inl (stageError stage e), a)
      | Inr opts \<Rightarrow> (projr (inboundDialer L w acc) opts, touch_secret w acc a))"
  by (auto simp: dialInbound_def connect_gate_def Let_def touch_secret_def split: option.splits sum.splits if_splits)

text \<open>The gate is a matter of the settings, the configuration, the resolver and the secret store.\<close>

lemma connect_gate_store [simp]: "connect_gate L w (a\<lparr>st := s\<rparr>) acc = connect_gate L w a acc"
proof -
  have "SettingBool (a\<lparr>st := s\<rparr>) k = SettingBool a k" for k 
    by (simp add: SettingBool_def Setting_def split: option.split)
  moreover have "validateMailHost L w (a\<lparr>st := s\<rparr>) h = validateMailHost L w a h" for h
  proof -
    have "check_ips L (a\<lparr>st := s\<rparr>) h ips = check_ips L a h ips" for h ips
      by (induction ips) (simp_all add: Let_def)
    then show ?thesis by (simp add: validateMailHost_def Let_def split: sum.split)
  qed
  moreover have "cfg (a\<lparr>st := s\<rparr>) = cfg a" "dial_options (a\<lparr>st := s\<rparr>) acc o1 = dial_options a acc o1" for o1
    by (simp_all add: dial_options_def)
  ultimately show ?thesis by (simp only: connect_gate_def)
qed

section \<open>Opening the session\<close>

definition background :: ctx where
  "background = \<lparr>c_actor = None, c_principal = None\<rparr>"

definition sync_diagnostic :: "MailAccount \<Rightarrow> int \<Rightarrow> SyncDiagnostic" where
  "sync_diagnostic acc slotWait =
     \<lparr>dg_Stage = [], dg_Command = [], dg_Class = [], dg_Code = [], dg_ElapsedMS = 0, dg_TimeoutMS = 0, dg_Attempts = 0,
      dg_Recovered = [], dg_Protocol = (if a_InboundProtocol acc = ''imap'' then ''imap'' else ''pop3''),
      dg_Host = a_POP3Host acc, dg_Port = a_POP3Port acc, dg_Security = security_text (a_POP3Security acc),
      dg_HostSessions = 0, dg_AccountSessions = 0, dg_SlotWaitMS = durationMS slotWait, dg_Sent = [],
      dg_SentStage = [], dg_SentClass = [], dg_Summary = []\<rparr>"

text \<open>
  \<open>providerDiagnostic\<close> on the errors of the adapters, none of which is a \<open>PublicError\<close>; whether a
  fault of the network calls itself a timeout is the parameter \<open>timed\<close>.
\<close>

definition providerDiagnostic :: "(in_err \<Rightarrow> bool) \<Rightarrow> in_err \<Rightarrow> string" where
  "providerDiagnostic timed e =
     (if fault_of e = Cancelled then providerCancelled
      else if fault_of e = DeadlineExceeded then providerTimeout
      else if is_credential e then providerAuthFailed
      else if timed e then providerTimeout
      else providerFailed)"

text \<open>The error of the \<open>i\<close>-th attempt, made in the world \<open>ws i\<close> on the connection \<open>envs i\<close>.\<close>

definition attempt_outcome ::
  "lib \<Rightarrow> (lib \<Rightarrow> 'a net_env \<Rightarrow> InboundDialOptions \<Rightarrow> in_err option \<times> 'c) \<Rightarrow> (nat \<Rightarrow> io) \<Rightarrow> (nat \<Rightarrow> 'a net_env)
     \<Rightarrow> app \<Rightarrow> MailAccount \<Rightarrow> nat \<Rightarrow> in_err option" where
  "attempt_outcome L dial ws envs a acc i =
     (case connect_gate L (ws i) a acc of
        Inl (stage, e) \<Rightarrow> Some (Staged stage [] ''config'' [] 0 0 (Plain (err_text e)))
      | Inr opts \<Rightarrow> fst (dial L (envs i) opts))"

text \<open>The uses of the secret that the first \<open>n\<close> attempts record.\<close>

fun touches :: "lib \<Rightarrow> (nat \<Rightarrow> io) \<Rightarrow> MailAccount \<Rightarrow> nat \<Rightarrow> app \<Rightarrow> app" where
  "touches L ws acc 0 a = a"
| "touches L ws acc (Suc n) a =
     (let a' = touches L ws acc n a
      in case connect_gate L (ws (Suc n)) a' acc of
           Inl e \<Rightarrow> a' | Inr opts \<Rightarrow> touch_secret (ws (Suc n)) acc a')"

text \<open>\<open>finish\<close>: the outcome of the job, at the time \<open>now w\<close>; the incident it records is not modelled.\<close>

definition sync_finish ::
  "lib \<Rightarrow> (int \<Rightarrow> string) \<Rightarrow> io \<Rightarrow> MailAccount \<Rightarrow> JobStatus \<Rightarrow> string \<Rightarrow> SyncDiagnostic \<Rightarrow> SyncStats \<Rightarrow> SyncStats
     \<Rightarrow> Job \<Rightarrow> app \<Rightarrow> Job \<times> SyncDiagnostic option \<times> app" where
  "sync_finish L secs w acc status errMsg d stats sent job a =
     (let job' = job\<lparr>j_Status := status, j_Error := jobDiagnostic (j_Type job) status errMsg,
                     j_Stats := job_stats stats sent\<rparr>
      in (job', safeSyncDiagnostic L secs d,
          app_audit (a\<lparr>st := db_UpdateJob (st a) (now w) job'\<rparr>) w background ''sync_finish''
            (''account:'' @ a_ID acc) (job_status_text status)
            (''job:'' @ j_ID job @ '' new='' @ fmt_d (sy_New stats) @ '' dup='' @ fmt_d (sy_Duplicate stats) @
             '' failed='' @ fmt_d (sy_Failed stats))))"

text \<open>
  \<open>runSync\<close> up to the open session.  When there is none, the job ends; an error of the credentials
  parks the account first.
\<close>

definition sync_open ::
  "lib \<Rightarrow> (int \<Rightarrow> string) \<Rightarrow> (in_err \<Rightarrow> bool) \<Rightarrow> (lib \<Rightarrow> 'a net_env \<Rightarrow> InboundDialOptions \<Rightarrow> in_err option \<times> 'c)
     \<Rightarrow> (nat \<Rightarrow> io) \<Rightarrow> (nat \<Rightarrow> 'a net_env) \<Rightarrow> (nat \<Rightarrow> int \<times> int) \<Rightarrow> (nat \<Rightarrow> bool) \<Rightarrow> io \<Rightarrow> MailAccount \<Rightarrow> int \<Rightarrow> Job \<Rightarrow> app
     \<Rightarrow> (Job \<times> SyncDiagnostic option \<times> app) + (SyncDiagnostic \<times> app)" where
  "sync_open L secs timed dial ws envs census stop w acc slotWait job a =
     (let running = job\<lparr>j_Status := JobRunning\<rparr>;
          a1 = a\<lparr>st := db_UpdateJob (st a) (now w) running\<rparr>;
          (err, d) = dialInboundForSync L (attempt_outcome L dial ws envs a1 acc) census stop (sync_diagnostic acc slotWait);
          a2 = touches L ws acc (nat (dg_Attempts d)) a1
      in case err of
           None \<Rightarrow> Inr (d, a2)
         | Some e \<Rightarrow>
             Inl (if is_credential e
                  then sync_finish L secs w acc JobFailed providerAuthFailed (d\<lparr>dg_Stage := ''login''\<rparr>) no_stats no_stats
                         running (a2\<lparr>st := db_SetAccountStatus (st a2) (now w) (a_UserID acc) (a_ID acc) AccountCredentialError\<rparr>)
                  else sync_finish L secs w acc JobFailed (syncFailure d e (providerDiagnostic timed e)) d no_stats no_stats
                         running a2))"

section \<open>Lemmas\<close>

lemma touches_accounts [simp]: "accounts (st (touches L ws acc n a)) = accounts (st a)"
  by (induction n) (auto simp: Let_def touch_secret_def db_TouchCredential_def split: sum.splits)

lemma sync_finish_job:
  "sync_finish L secs w acc status m d stats sent job a = (job', dg, a') \<Longrightarrow>
     j_Status job' = status \<and> j_Error job' = jobDiagnostic (j_Type job) status m \<and>
     dg = safeSyncDiagnostic L secs d \<and> accounts (st a') = accounts (st a)"
  by (auto simp: sync_finish_def Let_def db_UpdateJob_def)

text \<open>The text of a job is one of the program's own messages, or empty.\<close>

lemma jobDiagnostic_known: "jobDiagnostic kind status m \<in> insert [] (set provider_messages)"
  by (simp add: jobDiagnostic_def provider_messages_def)

lemma jobDiagnostic_failed: "jobDiagnostic kind JobFailed m \<in> set provider_messages"
  by (simp add: jobDiagnostic_def provider_messages_def)

text \<open>A session that could not be opened leaves a failed job that tells only the program's own words.\<close>

lemma connect_failure_recorded:
  assumes "sync_open L secs timed dial ws envs census stop w acc slotWait job a = Inl (job', dg, a')"
  shows "j_Status job' = JobFailed \<and> j_Error job' \<in> set provider_messages \<and>
    (\<forall>d. dg = Some d \<longrightarrow> safeSyncDiagnostic L secs d = Some d)"
proof -
  from assms obtain m d a2 where
    "sync_finish L secs w acc JobFailed m d no_stats no_stats (job\<lparr>j_Status := JobRunning\<rparr>) a2 = (job', dg, a')"
    by (auto simp: sync_open_def Let_def split: option.splits prod.splits if_splits)
  from sync_finish_job [OF this] show ?thesis using safe_some(2) jobDiagnostic_failed by auto
qed

context inbound_dialer
begin

text \<open>An account is parked only for what the last attempt was told.\<close>

lemma parked_only_on_refusal:
  assumes "sync_open L secs timed dial ws envs census stop w acc slotWait job a = Inl (job', dg, a')"
    and "accounts (st a') \<noteq> accounts (st a)"
  shows "\<exists>i opts x c code. connect_gate L (ws i) a acc = Inr opts \<and> dial L (envs i) opts = (Some x, c) \<and>
    rejected_code x = Some code \<and> \<not> TemporaryRefusal code \<and> do_Username opts \<noteq> []"
proof -
  let ?a1 = "a\<lparr>st := db_UpdateJob (st a) (now w) (job\<lparr>j_Status := JobRunning\<rparr>)\<rparr>"
  obtain err d where d: "dialInboundForSync L (attempt_outcome L dial ws envs ?a1 acc) census stop
      (sync_diagnostic acc slotWait) = (err, d)" by force
  with assms(1) obtain e where e: "err = Some e" by (auto simp: sync_open_def Let_def split: option.splits)
  have acc: "accounts (st ?a1) = accounts (st a)" by (simp add: db_UpdateJob_def)
  have c: "is_credential e"
  proof (rule ccontr)
    assume "\<not> is_credential e"
    with assms(1) d e have "sync_finish L secs w acc JobFailed (syncFailure d e (providerDiagnostic timed e)) d no_stats
        no_stats (job\<lparr>j_Status := JobRunning\<rparr>) (touches L ws acc (nat (dg_Attempts d)) ?a1) = (job', dg, a')"
      by (simp add: sync_open_def Let_def)
    from sync_finish_job [OF this] acc have "accounts (st a') = accounts (st a)" by simp
    with assms(2) show False by simp
  qed
  obtain i where i: "attempt_outcome L dial ws envs ?a1 acc i = Some e"
    using dial_attempts_last [OF d] e by auto
  with c obtain opts where g: "connect_gate L (ws i) a acc = Inr opts" "fst (dial L (envs i) opts) = Some e"
    by (auto simp: attempt_outcome_def split: sum.splits)
  then obtain s where s: "dial L (envs i) opts = (Some e, s)" by (cases "dial L (envs i) opts") auto
  from refused [OF s c] g(1) s show ?thesis by blast
qed

lemma open_failure:
  assumes "sync_open L secs timed dial ws envs census stop w acc slotWait job a = Inl (job', dg, a')"
  shows "j_Status job' = JobFailed \<and> j_Error job' \<in> set provider_messages \<and>
    (\<forall>d. dg = Some d \<longrightarrow> safeSyncDiagnostic L secs d = Some d) \<and>
    (accounts (st a') \<noteq> accounts (st a) \<longrightarrow>
      (\<exists>i opts x c code. connect_gate L (ws i) a acc = Inr opts \<and> dial L (envs i) opts = (Some x, c) \<and>
        rejected_code x = Some code \<and> \<not> TemporaryRefusal code \<and> do_Username opts \<noteq> []))"
  using connect_failure_recorded [OF assms] parked_only_on_refusal [OF assms] by blast

end

text \<open>What an error of the credentials does.\<close>

lemma sync_open_parks:
  assumes "dialInboundForSync L (attempt_outcome L dial ws envs
      (a\<lparr>st := db_UpdateJob (st a) (now w) (job\<lparr>j_Status := JobRunning\<rparr>)\<rparr>) acc) census stop (sync_diagnostic acc slotWait) = (Some e, d)"
    and "is_credential e"
  shows "\<exists>job' dg a'. sync_open L secs timed dial ws envs census stop w acc slotWait job a = Inl (job', dg, a') \<and>
    accounts (st a') = upd_where (\<lambda>r. a_ID r = a_ID acc \<and> a_UserID r = a_UserID acc)
      (\<lambda>r. r\<lparr>a_Status := AccountCredentialError, a_UpdatedAt := now w\<rparr>) (accounts (st a))"
proof -
  let ?a1 = "a\<lparr>st := db_UpdateJob (st a) (now w) (job\<lparr>j_Status := JobRunning\<rparr>)\<rparr>"
  let ?a2 = "touches L ws acc (nat (dg_Attempts d)) ?a1"
  let ?a3 = "?a2\<lparr>st := db_SetAccountStatus (st ?a2) (now w) (a_UserID acc) (a_ID acc) AccountCredentialError\<rparr>"
  obtain job' dg a' where f: "sync_finish L secs w acc JobFailed providerAuthFailed (d\<lparr>dg_Stage := ''login''\<rparr>) no_stats no_stats
      (job\<lparr>j_Status := JobRunning\<rparr>) ?a3 = (job', dg, a')" by (rule prod_cases3)
  have "sync_open L secs timed dial ws envs census stop w acc slotWait job a = Inl (job', dg, a')"
    unfolding sync_open_def Let_def assms(1) using assms(2) f by simp
  moreover have "accounts (st ?a1) = accounts (st a)" by (simp add: db_UpdateJob_def)
  with sync_finish_job [OF f] have "accounts (st a') = upd_where (\<lambda>r. a_ID r = a_ID acc \<and> a_UserID r = a_UserID acc)
      (\<lambda>r. r\<lparr>a_Status := AccountCredentialError, a_UpdatedAt := now w\<rparr>) (accounts (st a))"
    by (simp add: db_SetAccountStatus_def)
  ultimately show ?thesis by blast
qed

text \<open>
  The outcome of a sync whose enumeration failed, when the session then lists nothing, as an IMAP
  session does whose index failed at its first batch: a success without a message.
\<close>

theorem failed_enumeration_succeeds:
  assumes "se_UIDL sess = Inl e" "se_List sess = Inr []" "se_Sent sess = None"
  shows "sync_listing sess = Inr (False, []) \<and>
    fst (sync_session L ws stop ws2 stop2 c sess acc opts seen t False [] a job) = JobSucceeded"
  using assms by (simp add: sync_listing_def sync_session_def Let_def start_sync_def sentFolderPass_def
      sync_status_def no_stats_def)

section \<open>Properties\<close>


definition starttls_account :: MailAccount where
  "starttls_account = sample_account\<lparr>a_POP3Security := SecurityStartTLS, a_POP3Port := 110\<rparr>"

definition mail_app :: app where
  "mail_app = sample_app\<lparr>setting_values := map_of [(''mail.pop3_enabled'', ''true'')],
     st := empty_store\<lparr>accounts := [starttls_account]\<rparr>\<rparr>"

definition queued_job :: Job where
  "queued_job = \<lparr>j_ID = ''job_1'', j_UserID = ''usr_1'', j_Type = ''sync'', j_AccountID = ''acc_1'', j_Status = JobQueued,
     j_Progress = [], j_Stats = [], j_Error = [], j_CreatedAt = 1, j_UpdatedAt = 1\<rparr>"

lemma sample_now: "now sample_io = 1000"
  by (simp add: sample_io_def)

lemma mail_app_gate: "connect_gate sample_lib sample_io mail_app starttls_account = Inr (dial_options mail_app starttls_account None)"
proof -
  have "validateMailHost sample_lib sample_io mail_app ''pop.corp.test'' = None" by code_simp
  moreover have "SettingBool mail_app ''mail.pop3_enabled''" "\<not> SettingBool mail_app ''mail.tls_required''" by code_simp+
  ultimately show ?thesis
    by (simp add: connect_gate_def Let_def starttls_account_def sample_account_def inboundDialer_def)
qed

lemma mail_app_dial:
  "\<exists>e cn. pop_Dial sample_lib sample_net (dial_options mail_app starttls_account None) = (Some e, cn) \<and> is_credential e"
proof -
  have c: "InboundResponseCode sample_lib ''-ERR [AUTH] no'' = ''AUTH''" by code_simp
  have t: "\<not> TemporaryRefusal ''AUTH''" by code_simp
  have v: "has_stage (WrapInbound L a b e el tt)" "rejected_code (WrapInbound L a b e el tt) = rejected_code e" for L a b e el tt
    by simp_all
  show ?thesis
    by (simp add: pop_Dial_def Let_def dial_options_def starttls_account_def sample_account_def sample_net_def readGreeting_def
        readResponse_def net_read_def HasPrefix_def pop_starttls_def pop_cmd_def net_write_def case_prod_beta pop_login_def
        loginFailure_def c t v)
qed


end
