(* ===== verification/Sync_Jobs.thy ===== *)
theory Sync_Jobs
  imports Sync_Run
begin

text \<open>
  Starting and cancelling syncs (\<open>StartSync\<close> and \<open>CancelJob\<close> of \<open>src/internal/application/sync.go\<close>):
  the lock of an account, the jobs whose workers are alive in this process, and the cleaning of jobs
  that a crashed worker left behind.  A worker is the pair of its job and its account; what it does
  until it ends is \<open>runSync\<close>.
\<close>

section \<open>Definitions\<close>

text \<open>\<open>syncLocks\<close>, the workers, and the jobs that have been cancelled (\<open>jobCancels\<close> with their contexts).\<close>

record sync_jobs =
  sj_app :: app
  sj_locks :: "string list"
  sj_workers :: "(string \<times> string) list"
  sj_cancelled :: "string list"

definition staleJobGraceSeconds :: int where "staleJobGraceSeconds = 60"

definition StartSync :: "io \<Rightarrow> ctx \<Rightarrow> string \<Rightarrow> sync_jobs \<Rightarrow> (err + Job) \<times> sync_jobs" where
  "StartSync w c accountID J =
     (let a = sj_app J
      in case GetAccount (st a) c accountID of
           Inl e \<Rightarrow> (Inl e, J)
         | Inr acc \<Rightarrow>
             if a_Status acc \<noteq> AccountActive
             then (Inl (UserError (''account '' @ accountID @ '' is '' @ account_status_text (a_Status acc))), J)
             else if a_POP3Host acc = []
             then (Inl (UserError (''account '' @ accountID @ '' has no POP3 server configured'')), J)
             else if accountID \<in> set (sj_locks J)
             then (Inl (UserError (''a sync for account '' @ accountID @ '' is already running'')), J)
             else
               (let s1 = snd (db_FailStaleAccountJobs (st a) (now w) accountID staleJobGraceSeconds);
                    job = \<lparr>j_ID = new_id w ''job'' 0, j_UserID = userIDFrom c, j_Type = ''sync'', j_AccountID = accountID,
                           j_Status = JobQueued, j_Progress = [], j_Stats = [], j_Error = [], j_CreatedAt = now w,
                           j_UpdatedAt = now w\<rparr>
                in case db_CreateJob s1 (now w) job of
                     Inl e \<Rightarrow> (Inl e, J\<lparr>sj_app := a\<lparr>st := s1\<rparr>\<rparr>)
                   | Inr s2 \<Rightarrow>
                       (Inr job, J\<lparr>sj_app := app_audit (a\<lparr>st := s2\<rparr>) w c ''sync_start'' (''account:'' @ accountID) ''ok''
                                               (''job:'' @ j_ID job),
                                   sj_locks := accountID # sj_locks J, sj_workers := (j_ID job, accountID) # sj_workers J\<rparr>)))"

definition CancelJob :: "io \<Rightarrow> ctx \<Rightarrow> string \<Rightarrow> sync_jobs \<Rightarrow> err option \<times> sync_jobs" where
  "CancelJob w c jobID J =
     (case db_GetJob (st (sj_app J)) (userIDFrom c) jobID of
        Inl e \<Rightarrow> (Some e, J)
      | Inr j \<Rightarrow>
          if jobID \<in> fst ` set (sj_workers J)
          then (None, J\<lparr>sj_cancelled := jobID # sj_cancelled J,
                        sj_app := app_audit (sj_app J) w c ''job_cancel'' (''job:'' @ jobID) ''ok'' []\<rparr>)
          else (Some (UserError (''job '' @ jobID @ '' is not running'')), J))"

text \<open>The deferred calls of the worker when \<open>runSync\<close> has returned, in their order.\<close>

definition worker_ends :: "string \<times> string \<Rightarrow> sync_jobs \<Rightarrow> sync_jobs" where
  "worker_ends wk J =
     J\<lparr>sj_workers := filter (\<lambda>x. fst x \<noteq> fst wk) (sj_workers J),
       sj_locks := filter (\<lambda>x. x \<noteq> snd wk) (sj_locks J),
       sj_cancelled := filter (\<lambda>x. x \<noteq> fst wk) (sj_cancelled J)\<rparr>"

text \<open>\<open>RecoverStaleJobs\<close> (\<open>scheduler.go\<close>) spares the jobs whose workers are alive here.\<close>

definition RecoverStaleJobs :: "io \<Rightarrow> ctx \<Rightarrow> sync_jobs \<Rightarrow> sync_jobs" where
  "RecoverStaleJobs w c J =
     (case db_RecoverStaleJobsExcept (st (sj_app J)) (now w) (map fst (sj_workers J)) staleJobGraceSeconds of
        (n, s') \<Rightarrow>
          (let a' = (sj_app J)\<lparr>st := s'\<rparr>
           in J\<lparr>sj_app := (if n > 0 then app_audit a' w (WithActor c ''scheduler'') ''jobs_recovered'' ''jobs'' ''ok''
                                            ''no heartbeat past grace window''
                           else a')\<rparr>))"

text \<open>
  A run: users start and cancel syncs, workers write their jobs, beat and end, stale jobs are cleaned,
  and everything else may at most remove jobs (the purge of a deleted user).  A new job has an id that
  neither a row nor a worker has.
\<close>

definition fresh_job :: "string \<Rightarrow> sync_jobs \<Rightarrow> bool" where
  "fresh_job jid J \<longleftrightarrow> jid \<notin> j_ID ` set (jobs (st (sj_app J))) \<and> jid \<notin> fst ` set (sj_workers J)"

inductive jobs_step :: "sync_jobs \<Rightarrow> sync_jobs \<Rightarrow> bool" where
  start: "fresh_job (new_id w ''job'' 0) J \<Longrightarrow> jobs_step J (snd (StartSync w c aid J))"
| cancel: "jobs_step J (snd (CancelJob w c jid J))"
| saves: "(j_ID job, aid) \<in> set (sj_workers J) \<Longrightarrow>
    jobs_step J (J\<lparr>sj_app := (sj_app J)\<lparr>st := db_UpdateJob (st (sj_app J)) ts job\<rparr>\<rparr>)"
| beats: "(jid, aid) \<in> set (sj_workers J) \<Longrightarrow>
    jobs_step J (J\<lparr>sj_app := (sj_app J)\<lparr>st := db_TouchJob (st (sj_app J)) ts jid\<rparr>\<rparr>)"
| reaps: "jobs_step J (RecoverStaleJobs w c J)"
| ends: "wk \<in> set (sj_workers J) \<Longrightarrow> jobs_step J (worker_ends wk J)"
| other: "jobs (st a') = filter keep (jobs (st (sj_app J))) \<Longrightarrow> jobs_step J (J\<lparr>sj_app := a'\<rparr>)"

inductive jobs_run :: "sync_jobs \<Rightarrow> sync_jobs \<Rightarrow> bool" where
  refl: "jobs_run J J"
| step: "jobs_run J J1 \<Longrightarrow> jobs_step J1 J2 \<Longrightarrow> jobs_run J J2"

text \<open>
  What every run keeps: the locks are those of the workers, one worker for a lock; no two workers or
  rows share a job; the row of a worker's job names the worker's account.
\<close>

definition rows_of_workers :: "(string \<times> string) list \<Rightarrow> Job list \<Rightarrow> bool" where
  "rows_of_workers ws js \<longleftrightarrow> (\<forall>(jid, aid) \<in> set ws. \<forall>r \<in> set js. j_ID r = jid \<longrightarrow> j_AccountID r = aid)"

definition jobs_ok :: "sync_jobs \<Rightarrow> bool" where
  "jobs_ok J \<longleftrightarrow> distinct (map snd (sj_workers J)) \<and> distinct (map fst (sj_workers J)) \<and>
     set (sj_locks J) = snd ` set (sj_workers J) \<and> set (sj_cancelled J) \<subseteq> fst ` set (sj_workers J) \<and>
     distinct (map j_ID (jobs (st (sj_app J)))) \<and> rows_of_workers (sj_workers J) (jobs (st (sj_app J)))"

text \<open>A process that has just started has no worker.\<close>

definition fresh_process :: "sync_jobs \<Rightarrow> bool" where
  "fresh_process J \<longleftrightarrow> sj_workers J = [] \<and> sj_locks J = [] \<and> sj_cancelled J = [] \<and>
     distinct (map j_ID (jobs (st (sj_app J))))"

lemma fresh_process_ok: "fresh_process J \<Longrightarrow> jobs_ok J"
  by (simp add: fresh_process_def jobs_ok_def rows_of_workers_def)

section \<open>The rows\<close>

text \<open>Identifiers and accounts of the rows.\<close>

definition job_keys :: "Job list \<Rightarrow> (string \<times> string) list" where
  "job_keys js = map (\<lambda>r. (j_ID r, j_AccountID r)) js"

lemma map_ID_keys: "map j_ID js = map fst (job_keys js)"
  by (simp add: job_keys_def)

lemma rows_keys: "rows_of_workers ws js = (\<forall>i a x. (i, a) \<in> set ws \<longrightarrow> (i, x) \<in> set (job_keys js) \<longrightarrow> x = a)"
  by (auto simp: rows_of_workers_def job_keys_def)

lemma rows_of_workers_Cons:
  assumes "rows_of_workers ws js" "jid \<notin> fst ` set ws" "jid \<notin> fst ` set (job_keys js)"
    and "job_keys js' = job_keys js @ [(jid, aid)]"
  shows "rows_of_workers ((jid, aid) # ws) js'"
proof -
  have n: "(jid, a) \<notin> set ws" "(jid, x) \<notin> set (job_keys js)" for a x using assms(2,3) by (metis fst_conv imageI)+
  show ?thesis using assms(1) n unfolding rows_keys assms(4) by auto
qed

lemma job_keys_upd [simp]:
  "(\<And>r. j_ID (f r) = j_ID r) \<Longrightarrow> (\<And>r. j_AccountID (f r) = j_AccountID r) \<Longrightarrow> job_keys (upd_where P f js) = job_keys js"
  unfolding job_keys_def by (intro map_upd_where_same) simp

lemma interrupt_job_keys [simp]: "j_ID (interrupt_job ts j) = j_ID j" "j_AccountID (interrupt_job ts j) = j_AccountID j"
  by (simp_all add: interrupt_job_def)

lemma keys_frame [simp]:
  "job_keys (jobs (db_UpdateJob s ts j)) = job_keys (jobs s)"
  "job_keys (jobs (db_TouchJob s ts jid)) = job_keys (jobs s)"
  "job_keys (jobs (snd (db_FailStaleAccountJobs s ts aid g))) = job_keys (jobs s)"
  "job_keys (jobs (snd (db_RecoverStaleJobsExcept s ts ids g))) = job_keys (jobs s)"
  by (simp_all add: db_UpdateJob_def db_TouchJob_def db_FailStaleAccountJobs_def db_RecoverStaleJobsExcept_def Let_def)

lemma jobs_ok_keys:
  assumes "jobs_ok J" and "job_keys (jobs (st a')) = job_keys (jobs (st (sj_app J)))"
  shows "jobs_ok (J\<lparr>sj_app := a'\<rparr>)"
  using assms by (simp add: jobs_ok_def map_ID_keys rows_keys)

text \<open>A row outside the condition of an update is still there.\<close>

lemma untouched_row: "r \<in> set rs \<Longrightarrow> \<not> P r \<Longrightarrow> r \<in> set (upd_where P f rs)"
  by (auto simp: set_upd_where)

section \<open>Steps\<close>

lemma StartSync_cases:
  obtains (refused) e a' where "StartSync w c aid J = (Inl e, J\<lparr>sj_app := a'\<rparr>)"
      "job_keys (jobs (st a')) = job_keys (jobs (st (sj_app J)))"
      "\<And>r. r \<in> set (jobs (st (sj_app J))) \<Longrightarrow> j_AccountID r \<noteq> aid \<Longrightarrow> r \<in> set (jobs (st a'))"
      "aid \<in> set (sj_locks J) \<Longrightarrow> a' = sj_app J"
  | (started) job a' js where "aid \<notin> set (sj_locks J)" "j_ID job = new_id w ''job'' 0"
      "StartSync w c aid J = (Inr job, J\<lparr>sj_app := a', sj_locks := aid # sj_locks J,
          sj_workers := (j_ID job, aid) # sj_workers J\<rparr>)"
      "jobs (st a') = js @ [job\<lparr>j_CreatedAt := now w, j_UpdatedAt := now w\<rparr>]" "j_AccountID job = aid"
      "job_keys js = job_keys (jobs (st (sj_app J)))"
      "\<And>r. r \<in> set (jobs (st (sj_app J))) \<Longrightarrow> j_AccountID r \<noteq> aid \<Longrightarrow> r \<in> set js"
proof -
  let ?a = "sj_app J"
  let ?s1 = "snd (db_FailStaleAccountJobs (st ?a) (now w) aid staleJobGraceSeconds)"
  let ?job = "\<lparr>j_ID = new_id w ''job'' 0, j_UserID = userIDFrom c, j_Type = ''sync'', j_AccountID = aid,
      j_Status = JobQueued, j_Progress = [], j_Stats = [], j_Error = [], j_CreatedAt = now w, j_UpdatedAt = now w\<rparr>"
  have keep: "r \<in> set (jobs ?s1)" if "r \<in> set (jobs (st ?a))" "j_AccountID r \<noteq> aid" for r
    using that by (simp add: db_FailStaleAccountJobs_def Let_def untouched_row)
  have same: "J = J\<lparr>sj_app := ?a\<rparr>" by simp
  note defs = StartSync_def Let_def
  show thesis
  proof (cases "GetAccount (st ?a) c aid")
    case (Inl e)
    then show thesis using same by (intro refused [of e ?a]) (simp_all add: defs)
  next
    case (Inr acc)
    show thesis
    proof (cases "a_Status acc \<noteq> AccountActive \<or> a_POP3Host acc = [] \<or> aid \<in> set (sj_locks J)")
      case True
      then have "\<exists>e. StartSync w c aid J = (Inl e, J)" using Inr by (auto simp: defs)
      then obtain e where "StartSync w c aid J = (Inl e, J)" by blast
      then show thesis using same by (intro refused [of e ?a]) simp_all
    next
      case False
      show thesis
      proof (cases "db_CreateJob ?s1 (now w) ?job")
        case (Inl e)
        then show thesis using False Inr keep by (intro refused [of e "?a\<lparr>st := ?s1\<rparr>"]) (simp_all add: defs)
      next
        case c: (Inr s2)
        have s2: "jobs s2 = jobs ?s1 @ [?job\<lparr>j_CreatedAt := now w, j_UpdatedAt := now w\<rparr>]"
          using c by (auto simp: db_CreateJob_def split: if_splits)
        show thesis
          by (rule started [of ?job "app_audit (?a\<lparr>st := s2\<rparr>) w c ''sync_start'' (''account:'' @ aid) ''ok'' (''job:'' @ j_ID ?job)"
                "jobs ?s1"])
             (use False Inr c s2 keep in \<open>simp_all add: defs\<close>)
      qed
    qed
  qed
qed

lemma StartSync_ok:
  assumes "jobs_ok J" and "fresh_job (new_id w ''job'' 0) J"
  shows "jobs_ok (snd (StartSync w c aid J))"
proof (cases rule: StartSync_cases [of w c aid J])
  case (refused e a')
  then show ?thesis using jobs_ok_keys [OF assms(1), of a'] by simp
next
  case (started job a' js)
  have k: "job_keys (jobs (st a')) = job_keys (jobs (st (sj_app J))) @ [(j_ID job, aid)]"
    using started(4,5,6) by (simp add: job_keys_def)
  have f: "j_ID job \<notin> fst ` set (job_keys (jobs (st (sj_app J))))" "j_ID job \<notin> fst ` set (sj_workers J)"
    using assms(2) started(2) by (auto simp: fresh_job_def job_keys_def)
  have n: "aid \<notin> snd ` set (sj_workers J)" using assms(1) started(1) by (simp add: jobs_ok_def)
  show ?thesis
    using assms(1) f n k started(3) rows_of_workers_Cons [OF _ f(2,1) k]
    by (simp add: jobs_ok_def map_ID_keys subset_insertI2)
qed

lemma CancelJob_ok: "jobs_ok J \<Longrightarrow> jobs_ok (snd (CancelJob w c jid J))"
  by (auto simp: CancelJob_def jobs_ok_def split: sum.splits)

lemma RecoverStaleJobs_app:
  obtains a' where "RecoverStaleJobs w c J = J\<lparr>sj_app := a'\<rparr>"
    "jobs (st a') = jobs (snd (db_RecoverStaleJobsExcept (st (sj_app J)) (now w) (map fst (sj_workers J)) staleJobGraceSeconds))"
  by (cases "db_RecoverStaleJobsExcept (st (sj_app J)) (now w) (map fst (sj_workers J)) staleJobGraceSeconds")
     (simp add: RecoverStaleJobs_def Let_def)

lemma RecoverStaleJobs_ok: "jobs_ok J \<Longrightarrow> jobs_ok (RecoverStaleJobs w c J)"
  by (cases rule: RecoverStaleJobs_app [of w c J]) (simp add: jobs_ok_keys)

text \<open>Filtering by one key drops exactly the pair with that key when keys are distinct.\<close>

lemma drop_by_key:
  assumes "distinct (map fst ws)" "distinct (map snd ws)" "wk \<in> set ws"
  shows "snd ` set (filter (\<lambda>x. fst x \<noteq> fst wk) ws) = {x \<in> snd ` set ws. x \<noteq> snd wk}"
proof -
  have "fst x \<noteq> fst wk \<longleftrightarrow> snd x \<noteq> snd wk" if "x \<in> set ws" for x
    using assms that by (metis distinct_map inj_on_eq_iff)
  then show ?thesis by auto
qed

lemma worker_ends_ok:
  assumes "jobs_ok J" "wk \<in> set (sj_workers J)"
  shows "jobs_ok (worker_ends wk J)"
proof -
  have d: "distinct (map fst (sj_workers J))" "distinct (map snd (sj_workers J))" using assms(1) by (simp_all add: jobs_ok_def)
  show ?thesis
    using assms d drop_by_key [OF d assms(2)]
    by (auto simp: worker_ends_def jobs_ok_def rows_of_workers_def distinct_map_filter)
qed

lemma jobs_step_ok: "jobs_step J J' \<Longrightarrow> jobs_ok J \<Longrightarrow> jobs_ok J'"
proof (induction rule: jobs_step.induct)
  case (other a' keep J)
  then show ?case by (auto simp: jobs_ok_def rows_of_workers_def distinct_map_filter)
qed (simp_all add: StartSync_ok CancelJob_ok RecoverStaleJobs_ok worker_ends_ok jobs_ok_keys)

lemma jobs_run_ok: "jobs_run J J' \<Longrightarrow> jobs_ok J \<Longrightarrow> jobs_ok J'"
  by (induction rule: jobs_run.induct) (auto intro: jobs_step_ok)

section \<open>A sync that runs\<close>

definition sample_jobs :: sync_jobs where
  "sample_jobs = \<lparr>sj_app = sample_app\<lparr>st := empty_store\<lparr>accounts := [sample_account]\<rparr>\<rparr>, sj_locks = [],
     sj_workers = [], sj_cancelled = []\<rparr>"

lemma sample_start:
  "fresh_process sample_jobs" "fresh_job (new_id sample_io ''job'' 0) sample_jobs"
  "sj_workers (snd (StartSync sample_io (sample_ctx ''local'' []) ''acc_1'' sample_jobs)) = [(''job_0'', ''acc_1'')]"
proof -
  have z: "dec 0 = ''0''" by code_simp
  show "fresh_process sample_jobs" "fresh_job (new_id sample_io ''job'' 0) sample_jobs"
    "sj_workers (snd (StartSync sample_io (sample_ctx ''local'' []) ''acc_1'' sample_jobs)) = [(''job_0'', ''acc_1'')]"
    by (simp_all add: fresh_process_def fresh_job_def sample_jobs_def sample_defs StartSync_def Let_def GetAccount_def
        db_GetAccount_def userIDFrom_def sample_account_def db_FailStaleAccountJobs_def db_CreateJob_def empty_store_def
        no_row_def z)
qed

section \<open>Properties\<close>

text \<open>
  C33.  Whatever is started, cancelled, saved, cleaned or ended, and in whatever order: an account has
  at most one worker; while it has one, a further start of its sync is refused and changes nothing;
  and the cleaning of stale jobs, by another start or by the reaper, leaves the worker's job as it is.
\<close>

theorem one_sync_per_account:
  assumes "fresh_process J0" and "jobs_run J0 J" and "(jid, aid) \<in> set (sj_workers J)"
  shows "(\<forall>jid'. (jid', aid) \<in> set (sj_workers J) \<longrightarrow> jid' = jid) \<and>
    (\<forall>w c. isl (fst (StartSync w c aid J)) \<and> snd (StartSync w c aid J) = J) \<and>
    (\<forall>w c x. \<forall>r \<in> set (jobs (st (sj_app J))). j_ID r = jid \<longrightarrow>
       r \<in> set (jobs (st (sj_app (snd (StartSync w c x J))))) \<and>
       r \<in> set (jobs (st (sj_app (RecoverStaleJobs w c J)))))"
proof (intro conjI allI ballI impI)
  have ok: "jobs_ok J" using assms(1,2) by (rule jobs_run_ok [rotated, OF fresh_process_ok])
  then have locked: "aid \<in> set (sj_locks J)" using assms(3) by (force simp: jobs_ok_def)
  have one: "StartSync w c aid J = (fst (StartSync w c aid J), J) \<and> isl (fst (StartSync w c aid J))" for w c
    by (cases rule: StartSync_cases [of w c aid J]) (use locked in simp_all)
  show "isl (fst (StartSync w c aid J))" for w c using one by blast
  show same: "snd (StartSync w c aid J) = J" for w c using one [of w c] by (metis snd_conv)
  show "jid' = jid" if "(jid', aid) \<in> set (sj_workers J)" for jid'
    using ok assms(3) that by (metis jobs_ok_def distinct_map fst_conv inj_on_eq_iff snd_conv)
  fix w c x r assume r: "r \<in> set (jobs (st (sj_app J)))" "j_ID r = jid"
  have acc: "j_AccountID r = aid" using ok assms(3) r by (auto simp: jobs_ok_def rows_of_workers_def)
  show "r \<in> set (jobs (st (sj_app (snd (StartSync w c x J)))))"
  proof (cases "x = aid")
    case True
    then show ?thesis using same r(1) by simp
  next
    case False
    then show ?thesis by (cases rule: StartSync_cases [of w c x J]) (use acc r in auto)
  qed
  show "r \<in> set (jobs (st (sj_app (RecoverStaleJobs w c J))))"
  proof (cases rule: RecoverStaleJobs_app [of w c J])
    case (1 a')
    have "j_ID r \<in> fst ` set (sj_workers J)" using assms(3) r(2) by force
    then show ?thesis using 1 r(1) by (simp add: db_RecoverStaleJobsExcept_def Let_def untouched_row)
  qed
qed

theorem one_sync_per_account_witness:
  "isl (fst (StartSync sample_io (sample_ctx ''local'' []) ''acc_1''
     (snd (StartSync sample_io (sample_ctx ''local'' []) ''acc_1'' sample_jobs))))"
proof -
  let ?J = "snd (StartSync sample_io (sample_ctx ''local'' []) ''acc_1'' sample_jobs)"
  have "jobs_run sample_jobs ?J"
    by (rule jobs_run.step [OF jobs_run.refl jobs_step.start [OF sample_start(2)]])
  moreover have "(''job_0'', ''acc_1'') \<in> set (sj_workers ?J)" by (simp add: sample_start(3))
  ultimately show ?thesis using one_sync_per_account [OF sample_start(1)] by blast
qed

end
