(* ===== verification/Leader_Lease.thy ===== *)
theory Leader_Lease
  imports Domain_Model
begin

text \<open>
  Leader election among the nodes of a deployment (\<open>electLeader\<close>, \<open>setLeaderState\<close> and \<open>releaseLease\<close> of
  \<open>src/internal/application/app.go\<close>) over the lease row of the settings table (\<open>TryAcquireLease\<close> of
  \<open>src/internal/adapters/persistence/store.go\<close>).  Only the leader runs the background workers.

  Time is one clock of the deployment in nanoseconds; \<open>time.Now().Unix()\<close> is its whole seconds, so the
  row knows seconds where a node counts nanoseconds.
\<close>

section \<open>Definitions\<close>

text \<open>The JSON value of the row; a row that does not parse is the zero lease.\<close>

record Lease =
  le_NodeID :: string
  le_ExpiresAt :: int

record leader_node =
  ln_id :: string
  ln_WorkerEnabled :: bool
  ln_isLeader :: bool
  ln_leaseValidUntil :: int

definition second :: int where "second = 1000000000"

definition unix :: "int \<Rightarrow> int" where "unix t = t div second"

definition leaderLeaseSec :: int where "leaderLeaseSec = 15"

text \<open>\<open>TryAcquireLease\<close> at time \<open>t\<close>, one transaction: whether the lease was taken, and the row after.\<close>

definition TryAcquireLease :: "Lease option \<Rightarrow> int \<Rightarrow> string \<Rightarrow> int \<Rightarrow> bool \<times> Lease option" where
  "TryAcquireLease row t nodeID durationSec =
     (let isFree = (case row of None \<Rightarrow> True
                    | Some current \<Rightarrow> le_ExpiresAt current < unix t \<or> le_NodeID current = nodeID)
      in if \<not> isFree then (False, row)
         else (True, Some \<lparr>le_NodeID = nodeID, le_ExpiresAt = unix t + durationSec\<rparr>))"

text \<open>The state of a node after \<open>setLeaderState\<close>, and whether it has just become the leader.\<close>

definition setLeaderState :: "bool \<Rightarrow> leader_node \<Rightarrow> leader_node \<times> bool" where
  "setLeaderState s n = (n\<lparr>ln_isLeader := s\<rparr>, s \<and> \<not> ln_isLeader n)"

text \<open>
  One round of the election: \<open>t0\<close> is the clock when it began, \<open>answer\<close> what the store said: \<open>None\<close> for an error, else
  whether the lease was acquired.
\<close>

definition electLeader :: "int \<Rightarrow> bool option \<Rightarrow> leader_node \<Rightarrow> leader_node" where
  "electLeader t0 answer n =
     (if \<not> ln_WorkerEnabled n then fst (setLeaderState False n)
      else case answer of
             None \<Rightarrow> if ln_isLeader n \<and> \<not> t0 < ln_leaseValidUntil n then fst (setLeaderState False n) else n
           | Some acquired \<Rightarrow>
               fst (setLeaderState acquired
                      (if acquired then n\<lparr>ln_leaseValidUntil := t0 + leaderLeaseSec * second\<rparr> else n)))"

text \<open>\<open>releaseLease\<close> on shutdown writes the row whatever it holds now.\<close>

definition releaseLease :: "int \<Rightarrow> leader_node \<Rightarrow> Lease option \<Rightarrow> leader_node \<times> Lease option" where
  "releaseLease t n row =
     (if \<not> ln_isLeader n then (n, row)
      else (fst (setLeaderState False n), Some \<lparr>le_NodeID = ln_id n, le_ExpiresAt = unix t - 1\<rparr>))"

text \<open>
  A deployment: the clock, the row, and the nodes.  A round of a node is one step at the time its
  transaction commits; it began at most the time since then before.  A round that fails may still
  have written the row (the commit went through and its answer was lost).
\<close>

record cluster =
  cl_time :: int
  cl_row :: "Lease option"
  cl_node :: "string \<Rightarrow> leader_node"

definition set_node :: "string \<Rightarrow> leader_node \<Rightarrow> cluster \<Rightarrow> cluster" where
  "set_node i n C = C\<lparr>cl_node := (cl_node C)(i := n)\<rparr>"

definition elect :: "int \<Rightarrow> string \<Rightarrow> cluster \<Rightarrow> cluster" where
  "elect t0 i C =
     (let n = cl_node C i
      in if \<not> ln_WorkerEnabled n then set_node i (electLeader t0 None n) C
         else case TryAcquireLease (cl_row C) (cl_time C) i leaderLeaseSec of
                (ok, row) \<Rightarrow> set_node i (electLeader t0 (Some ok) n) (C\<lparr>cl_row := row\<rparr>))"

definition elect_fails :: "int \<Rightarrow> string \<Rightarrow> bool \<Rightarrow> cluster \<Rightarrow> cluster" where
  "elect_fails t0 i written C =
     (let n = cl_node C i
      in set_node i (electLeader t0 None n)
           (if written \<and> ln_WorkerEnabled n
            then C\<lparr>cl_row := snd (TryAcquireLease (cl_row C) (cl_time C) i leaderLeaseSec)\<rparr> else C))"

definition release :: "string \<Rightarrow> cluster \<Rightarrow> cluster" where
  "release i C =
     (case releaseLease (cl_time C) (cl_node C i) (cl_row C) of (n, row) \<Rightarrow> set_node i n (C\<lparr>cl_row := row\<rparr>))"

text \<open>
  Steps.  The flag says whether a node may release the lease although its own has run out, which
  the source allows.
\<close>

inductive cluster_step :: "bool \<Rightarrow> cluster \<Rightarrow> cluster \<Rightarrow> bool" for late where
  passes: "cl_time C \<le> t \<Longrightarrow> cluster_step late C (C\<lparr>cl_time := t\<rparr>)"
| elects: "t0 \<le> cl_time C \<Longrightarrow> cluster_step late C (elect t0 i C)"
| fails: "t0 \<le> cl_time C \<Longrightarrow> cluster_step late C (elect_fails t0 i written C)"
| releases: "late \<or> cl_time C \<le> ln_leaseValidUntil (cl_node C i) \<Longrightarrow> cluster_step late C (release i C)"

inductive cluster_run :: "bool \<Rightarrow> cluster \<Rightarrow> cluster \<Rightarrow> bool" for late where
  refl: "cluster_run late C C"
| step: "cluster_run late C C1 \<Longrightarrow> cluster_step late C1 C2 \<Longrightarrow> cluster_run late C C2"

text \<open>A node leads by right while the lease it knows of has not run out.\<close>

definition entitled :: "cluster \<Rightarrow> string \<Rightarrow> bool" where
  "entitled C i \<longleftrightarrow> ln_isLeader (cl_node C i) \<and> cl_time C \<le> ln_leaseValidUntil (cl_node C i)"

text \<open>At the start nobody leads, and a node knows its name.\<close>

definition cluster_init :: "cluster \<Rightarrow> bool" where
  "cluster_init C \<longleftrightarrow> (\<forall>i. ln_id (cl_node C i) = i \<and> \<not> ln_isLeader (cl_node C i))"

section \<open>The invariant\<close>

text \<open>
  A leader whose lease has not run out holds the row, and the row outlives what it knows; no leader
  counts on more than one term from now.
\<close>

fun outlives :: "Lease option \<Rightarrow> string \<Rightarrow> int \<Rightarrow> bool" where
  "outlives None i v = False"
| "outlives (Some l) i v = (le_NodeID l = i \<and> v < (le_ExpiresAt l + 1) * second)"

definition holds_row :: "cluster \<Rightarrow> string \<Rightarrow> bool" where
  "holds_row C i = outlives (cl_row C) i (ln_leaseValidUntil (cl_node C i))"

lemma outlives_Some: "outlives r i v = (\<exists>l. r = Some l \<and> le_NodeID l = i \<and> v < (le_ExpiresAt l + 1) * second)"
  by (cases r) auto

definition lease_inv :: "cluster \<Rightarrow> bool" where
  "lease_inv C \<longleftrightarrow> (\<forall>i. ln_id (cl_node C i) = i) \<and>
     (\<forall>i. ln_isLeader (cl_node C i) \<longrightarrow> ln_leaseValidUntil (cl_node C i) \<le> cl_time C + leaderLeaseSec * second) \<and>
     (\<forall>i. entitled C i \<longrightarrow> holds_row C i)"

lemma entitled_unique: "lease_inv C \<Longrightarrow> entitled C i \<Longrightarrow> entitled C j \<Longrightarrow> i = j"
  unfolding lease_inv_def holds_row_def outlives_Some by (metis option.inject)

lemma entitled_term: "lease_inv C \<Longrightarrow> entitled C i \<Longrightarrow> ln_leaseValidUntil (cl_node C i) \<le> cl_time C + leaderLeaseSec * second"
  by (simp add: lease_inv_def entitled_def)

lemma unix_bounds: "unix t * second \<le> t" "t < (unix t + 1) * second"
  by (simp_all add: unix_def second_def minus_mult_div_eq_mod [symmetric] algebra_simps)

lemma unix_le: "a < (e + 1) * second \<Longrightarrow> t \<le> a \<Longrightarrow> unix t \<le> e"
  by (simp add: unix_def second_def)

lemma set_node_simps [simp]:
  "cl_time (set_node i n C) = cl_time C" "cl_row (set_node i n C) = cl_row C"
  "cl_node (set_node i n C) j = (if j = i then n else cl_node C j)"
  by (simp_all add: set_node_def)

lemma setLeaderState_simps [simp]:
  "ln_id (fst (setLeaderState s n)) = ln_id n" "ln_WorkerEnabled (fst (setLeaderState s n)) = ln_WorkerEnabled n"
  "ln_isLeader (fst (setLeaderState s n)) = s"
  "ln_leaseValidUntil (fst (setLeaderState s n)) = ln_leaseValidUntil n"
  by (simp_all add: setLeaderState_def)

lemma electLeader_id [simp]: "ln_id (electLeader t0 r n) = ln_id n"
  by (simp add: electLeader_def split: option.split)

lemma electLeader_error:
  "ln_isLeader (electLeader t0 None n) \<Longrightarrow> ln_isLeader n"
  "ln_leaseValidUntil (electLeader t0 None n) = ln_leaseValidUntil n"
  by (simp_all add: electLeader_def split: if_splits)

lemma term_end: "t0 \<le> t \<Longrightarrow> t0 + leaderLeaseSec * second < (unix t + leaderLeaseSec + 1) * second"
  using unix_bounds(2) [of t] by (simp add: algebra_simps)

text \<open>Nobody takes the row from a node that is entitled; the node itself renews it.\<close>

lemma acquire_entitled:
  assumes "lease_inv C" "entitled C j"
  shows "TryAcquireLease (cl_row C) (cl_time C) i leaderLeaseSec =
     (if i = j then (True, Some \<lparr>le_NodeID = i, le_ExpiresAt = unix (cl_time C) + leaderLeaseSec\<rparr>) else (False, cl_row C))"
proof -
  obtain l where l: "cl_row C = Some l" "le_NodeID l = j" "ln_leaseValidUntil (cl_node C j) < (le_ExpiresAt l + 1) * second"
    using assms unfolding lease_inv_def holds_row_def outlives_Some by blast
  have "unix (cl_time C) \<le> le_ExpiresAt l" using unix_le [OF l(3)] assms(2) by (simp add: entitled_def)
  then show ?thesis using l by (auto simp: TryAcquireLease_def Let_def)
qed

text \<open>Enough for the invariant after a step of one node.\<close>

lemma lease_inv_set_node:
  assumes "lease_inv C" "ln_id n = i"
    and "ln_isLeader n \<Longrightarrow> ln_leaseValidUntil n \<le> cl_time C + leaderLeaseSec * second"
    and "ln_isLeader n \<Longrightarrow> cl_time C \<le> ln_leaseValidUntil n \<Longrightarrow> holds_row (set_node i n (C\<lparr>cl_row := row\<rparr>)) i"
    and "\<And>j. j \<noteq> i \<Longrightarrow> entitled C j \<Longrightarrow> row = cl_row C"
  shows "lease_inv (set_node i n (C\<lparr>cl_row := row\<rparr>))"
proof -
  let ?C = "set_node i n (C\<lparr>cl_row := row\<rparr>)"
  have e: "entitled ?C j = entitled C j" if "j \<noteq> i" for j using that by (simp add: entitled_def)
  have h: "holds_row ?C j = holds_row C j" if "j \<noteq> i" "row = cl_row C" for j using that by (simp add: holds_row_def)
  have "holds_row ?C j" if "entitled ?C j" for j
  proof (cases "j = i")
    case True
    then show ?thesis using that assms(4) by (simp add: entitled_def)
  next
    case False
    then have "entitled C j" using that e by blast
    then show ?thesis using False assms(1,5) h by (simp add: lease_inv_def)
  qed
  then show ?thesis using assms(1-3) by (simp add: lease_inv_def)
qed

lemma lease_inv_elect:
  assumes "lease_inv C" "t0 \<le> cl_time C"
  shows "lease_inv (elect t0 i C)"
proof -
  let ?n = "cl_node C i"
  have id: "ln_id ?n = i" using assms(1) by (simp add: lease_inv_def)
  show ?thesis
  proof (cases "ln_WorkerEnabled ?n")
    case False
    then have "elect t0 i C = set_node i (fst (setLeaderState False ?n)) (C\<lparr>cl_row := cl_row C\<rparr>)"
      by (simp add: elect_def Let_def electLeader_def)
    moreover have "lease_inv (set_node i (fst (setLeaderState False ?n)) (C\<lparr>cl_row := cl_row C\<rparr>))"
      by (rule lease_inv_set_node [OF assms(1)]) (simp_all add: id)
    ultimately show ?thesis by simp
  next
    case True
    obtain ok row where acq: "TryAcquireLease (cl_row C) (cl_time C) i leaderLeaseSec = (ok, row)" by fastforce
    let ?m = "electLeader t0 (Some ok) ?n"
    have el: "elect t0 i C = set_node i ?m (C\<lparr>cl_row := row\<rparr>)" using acq True by (simp add: elect_def Let_def)
    have others: "row = cl_row C" if "j \<noteq> i" "entitled C j" for j
      using acquire_entitled [OF assms(1) that(2), of i] that(1) acq by simp
    have m: "ln_isLeader ?m = ok" "ok \<Longrightarrow> ln_leaseValidUntil ?m = t0 + leaderLeaseSec * second" "ln_id ?m = i"
      using True id by (simp_all add: electLeader_def)
    have "ok \<Longrightarrow> row = Some \<lparr>le_NodeID = i, le_ExpiresAt = unix (cl_time C) + leaderLeaseSec\<rparr>"
      using acq by (auto simp: TryAcquireLease_def Let_def split: if_splits)
    then have h: "ok \<Longrightarrow> holds_row (set_node i ?m (C\<lparr>cl_row := row\<rparr>)) i"
      using m term_end [OF assms(2)] by (simp add: holds_row_def)
    show ?thesis unfolding el
      by (rule lease_inv_set_node [OF assms(1) m(3)]) (use m h others assms(2) in auto)
  qed
qed

lemma lease_inv_elect_fails:
  assumes "lease_inv C"
  shows "lease_inv (elect_fails t0 i written C)"
proof -
  let ?n = "cl_node C i" and ?m = "electLeader t0 None (cl_node C i)"
  have id: "ln_id ?m = i" using assms by (simp add: lease_inv_def)
  define row where "row = (if written \<and> ln_WorkerEnabled ?n
      then snd (TryAcquireLease (cl_row C) (cl_time C) i leaderLeaseSec) else cl_row C)"
  have el: "elect_fails t0 i written C = set_node i ?m (C\<lparr>cl_row := row\<rparr>)"
    by (simp add: elect_fails_def Let_def row_def)
  have others: "row = cl_row C" if "j \<noteq> i" "entitled C j" for j
    using acquire_entitled [OF assms that(2), of i] that(1) by (simp add: row_def)
  have h: "holds_row (set_node i ?m (C\<lparr>cl_row := row\<rparr>)) i"
    if "ln_isLeader ?m" "cl_time C \<le> ln_leaseValidUntil ?m"
  proof -
    have e: "entitled C i" using that electLeader_error [of t0 ?n] by (simp add: entitled_def)
    have "ln_leaseValidUntil ?m < (unix (cl_time C) + leaderLeaseSec + 1) * second"
      using entitled_term [OF assms e] term_end [of "cl_time C" "cl_time C"] by (simp add: electLeader_error)
    moreover have "holds_row C i" using e assms by (simp add: lease_inv_def)
    ultimately show ?thesis using acquire_entitled [OF assms e, of i]
      by (auto simp: row_def holds_row_def electLeader_error split: if_splits)
  qed
  show ?thesis unfolding el
    by (rule lease_inv_set_node [OF assms id]) (use h others assms electLeader_error [of t0 ?n] in \<open>auto simp: lease_inv_def\<close>)
qed

lemma lease_inv_release:
  assumes "lease_inv C" "cl_time C \<le> ln_leaseValidUntil (cl_node C i)"
  shows "lease_inv (release i C)"
proof (cases "ln_isLeader (cl_node C i)")
  case False
  have "release i C = C" using False by (simp add: release_def releaseLease_def set_node_def)
  then show ?thesis using assms(1) by simp
next
  case True
  then have e: "entitled C i" using assms(2) by (simp add: entitled_def)
  show ?thesis
    using True lease_inv_set_node [OF assms(1), of "fst (setLeaderState False (cl_node C i))" i] entitled_unique [OF assms(1) e]
      assms(1) by (auto simp: release_def releaseLease_def lease_inv_def)
qed

lemma lease_inv_passes:
  assumes "lease_inv C" "cl_time C \<le> t"
  shows "lease_inv (C\<lparr>cl_time := t\<rparr>)"
  proof -
  have "entitled C i" if "entitled (C\<lparr>cl_time := t\<rparr>) i" for i using that assms(2) by (simp add: entitled_def)
  moreover have "holds_row (C\<lparr>cl_time := t\<rparr>) i = holds_row C i" for i by (simp add: holds_row_def)
  ultimately show ?thesis using assms by (fastforce simp: lease_inv_def)
qed

lemma lease_inv_step: "cluster_step False C C' \<Longrightarrow> lease_inv C \<Longrightarrow> lease_inv C'"
  by (induction rule: cluster_step.induct)
     (simp_all add: lease_inv_passes lease_inv_elect lease_inv_elect_fails lease_inv_release)

lemma lease_inv_run: "cluster_run False C C' \<Longrightarrow> lease_inv C \<Longrightarrow> lease_inv C'"
  by (induction rule: cluster_run.induct) (auto intro: lease_inv_step)

lemma cluster_init_inv: "cluster_init C \<Longrightarrow> lease_inv C"
  by (simp add: cluster_init_def lease_inv_def entitled_def)

section \<open>Runs\<close>

text \<open>A deployment of nodes that have just started, and the moments of a run, in milliseconds.\<close>

definition sample_cluster :: cluster where
  "sample_cluster = \<lparr>cl_time = 0, cl_row = None,
     cl_node = (\<lambda>i. \<lparr>ln_id = i, ln_WorkerEnabled = True, ln_isLeader = False, ln_leaseValidUntil = 0\<rparr>)\<rparr>"

datatype cluster_event = At int | Elects string | Fails string | Releases string

fun play :: "cluster_event list \<Rightarrow> cluster \<Rightarrow> cluster" where
  "play [] C = C"
| "play (At ms # es) C = play es (C\<lparr>cl_time := ms * 1000000\<rparr>)"
| "play (Elects i # es) C = play es (elect (cl_time C) i C)"
| "play (Fails i # es) C = play es (elect_fails (cl_time C) i False C)"
| "play (Releases i # es) C = play es (release i C)"

fun playable :: "bool \<Rightarrow> cluster_event list \<Rightarrow> cluster \<Rightarrow> bool" where
  "playable late [] C = True"
| "playable late (At ms # es) C = (cl_time C \<le> ms * 1000000 \<and> playable late es (C\<lparr>cl_time := ms * 1000000\<rparr>))"
| "playable late (Elects i # es) C = playable late es (elect (cl_time C) i C)"
| "playable late (Fails i # es) C = playable late es (elect_fails (cl_time C) i False C)"
| "playable late (Releases i # es) C =
     ((late \<or> cl_time C \<le> ln_leaseValidUntil (cl_node C i)) \<and> playable late es (release i C))"

lemma cluster_run_trans: "cluster_run late B C \<Longrightarrow> cluster_run late A B \<Longrightarrow> cluster_run late A C"
  by (induction rule: cluster_run.induct) (auto intro: cluster_run.intros)

lemma step_run: "cluster_step late C C' \<Longrightarrow> cluster_run late C C'"
  by (rule cluster_run.step [OF cluster_run.refl])

lemma play_runs: "playable late es C \<Longrightarrow> cluster_run late C (play es C)"
proof (induction es C rule: play.induct)
  case (2 ms es C)
  then show ?case by (auto intro: cluster_run_trans step_run cluster_step.passes)
next
  case (3 i es C)
  then show ?case by (auto intro: cluster_run_trans step_run cluster_step.elects)
next
  case (4 i es C)
  then show ?case by (auto intro: cluster_run_trans step_run cluster_step.fails)
next
  case (5 i es C)
  then show ?case by (auto intro: cluster_run_trans step_run cluster_step.releases)
qed (simp add: cluster_run.refl)

lemmas play_defs = entitled_def elect_def elect_fails_def release_def releaseLease_def electLeader_def
  TryAcquireLease_def Let_def unix_def second_def leaderLeaseSec_def

definition sample_round :: "cluster_event list" where
  "sample_round = [Elects ''a'', Elects ''b'', At 8000, Elects ''b'', Elects ''a'']"

section \<open>Properties\<close>

text \<open>
  C34.  As long as no node gives the lease back after its own has run out, at any moment at most one
  node leads by right: of two nodes that both take themselves for the leader, one has passed the end of
  the lease it knows of.  The row is counted in whole seconds, rounds may be slow, and a failed round may
  have written the row all the same.
\<close>

theorem one_entitled_leader:
  assumes "cluster_init C0" and "cluster_run False C0 C" and "entitled C i" and "entitled C j"
  shows "i = j"
  using lease_inv_run [OF assms(2) cluster_init_inv [OF assms(1)]] assms(3,4) by (rule entitled_unique)

theorem one_entitled_leader_witness:
  "{j. entitled (play sample_round sample_cluster) j} = {''a''}"
proof -
  have i: "cluster_init sample_cluster" by (simp add: cluster_init_def sample_cluster_def)
  have r: "cluster_run False sample_cluster (play sample_round sample_cluster)"
    by (rule play_runs) (simp add: sample_round_def sample_cluster_def play_defs)
  have e: "entitled (play sample_round sample_cluster) ''a''"
    by (simp add: sample_round_def sample_cluster_def play_defs)
  then show ?thesis using one_entitled_leader [OF i r _ e] by blast
qed

text \<open>
  Two things the source does not rule out.  A leader whose renewals fail goes on leading until a round that
  began after the end of its lease has failed, while another node may lead already.  And a node that shuts down
  after another took the lease over writes the row of that other away, so that a third becomes leader by right.
\<close>

lemma leaders_overlap:
  "\<exists>C. cluster_run False sample_cluster C \<and> ln_isLeader (cl_node C ''a'') \<and> ln_isLeader (cl_node C ''b'')"
proof (intro exI conjI)
  let ?es = "[Elects ''a'', At 8000, Fails ''a'', At 16000, Elects ''b'']"
  show "cluster_run False sample_cluster (play ?es sample_cluster)"
    by (rule play_runs) (simp add: sample_cluster_def play_defs)
  show "ln_isLeader (cl_node (play ?es sample_cluster) ''a'')" "ln_isLeader (cl_node (play ?es sample_cluster) ''b'')"
    by (simp_all add: sample_cluster_def play_defs)
qed

lemma late_release_breaks_lease:
  "\<exists>C. cluster_run True sample_cluster C \<and> entitled C ''b'' \<and> entitled C ''c''"
proof (intro exI conjI)
  let ?es = "[Elects ''a'', At 16000, Elects ''b'', At 17000, Releases ''a'', Elects ''c'']"
  show "cluster_run True sample_cluster (play ?es sample_cluster)"
    by (rule play_runs) (simp add: sample_cluster_def play_defs)
  show "entitled (play ?es sample_cluster) ''b''" "entitled (play ?es sample_cluster) ''c''"
    by (simp_all add: sample_cluster_def play_defs)
qed

end
