(* ===== verification/Accounts.thy ===== *)
theory Accounts
  imports Sync_Connect Secret_Store Auth_Service
begin

text \<open>
  Mail accounts and the secrets they use (\<open>src/internal/application/accounts.go\<close>, with the rows of
  \<open>src/internal/adapters/persistence/store.go\<close>).  The staged connection test only reports and is not
  modelled.
\<close>

section \<open>The table\<close>

definition db_CreateAccount :: "store \<Rightarrow> int \<Rightarrow> MailAccount \<Rightarrow> err + (MailAccount \<times> store)" where
  "db_CreateAccount s ts acc0 =
     (let acc = acc0\<lparr>a_CreatedAt := ts, a_UpdatedAt := ts\<rparr>
      in if \<not> no_row (\<lambda>r. a_ID r = a_ID acc) (accounts s) then Inl (UniqueViolation ''mail_accounts.id'')
         else Inr (acc, s\<lparr>accounts := accounts s @ [acc]\<rparr>))"

text \<open>The id, the owner and the time of creation of a row never change.\<close>

definition db_UpdateAccount :: "store \<Rightarrow> int \<Rightarrow> MailAccount \<Rightarrow> err + (MailAccount \<times> store)" where
  "db_UpdateAccount s ts acc0 =
     (let acc = acc0\<lparr>a_UpdatedAt := ts\<rparr>; mine = (\<lambda>r. a_ID r = a_ID acc \<and> a_UserID r = a_UserID acc)
      in if no_row mine (accounts s) then Inl ErrNotFound
         else Inr (acc, s\<lparr>accounts := upd_where mine (\<lambda>r. acc\<lparr>a_CreatedAt := a_CreatedAt r\<rparr>) (accounts s)\<rparr>))"

section \<open>Fields\<close>

definition normInboundProtocol :: "lib \<Rightarrow> string \<Rightarrow> err + string" where
  "normInboundProtocol L p =
     (if p = [] \<or> p = ''pop3'' then Inr ''pop3''
      else if p = ''imap'' then Inr ''imap''
      else Inl (UserError (''invalid inbound protocol '' @ go_quote L p @ '' (pop3|imap)'')))"

definition normSecurity :: "lib \<Rightarrow> string \<Rightarrow> Security \<Rightarrow> err + Security" where
  "normSecurity L s def =
     (if s = [] then Inr def
      else if s = ''tls'' then Inr SecurityTLS
      else if s = ''starttls'' then Inr SecurityStartTLS
      else if s = ''none'' then Inr SecurityNone
      else Inl (UserError (''invalid security mode '' @ go_quote L s @ '' (tls|starttls|none)'')))"

definition portOr :: "int \<Rightarrow> Security \<Rightarrow> int \<Rightarrow> int \<Rightarrow> int" where
  "portOr p sec tlsDefault plainDefault = (if p > 0 then p else if sec = SecurityTLS then tlsDefault else plainDefault)"

record CreateAccountInput =
  ci_Name :: string
  ci_Email :: string
  ci_InboundProtocol :: string
  ci_POP3Host :: string
  ci_POP3Port :: int
  ci_POP3Security :: string
  ci_POP3Username :: string
  ci_POP3SecretRef :: string
  ci_SMTPHost :: string
  ci_SMTPPort :: int
  ci_SMTPSecurity :: string
  ci_SMTPUsername :: string
  ci_SMTPAuth :: string
  ci_SMTPSecretRef :: string
  ci_InsecureSkipVerify :: bool

text \<open>The hosts that are checked: those that are given.\<close>

fun validateHosts :: "lib \<Rightarrow> io \<Rightarrow> app \<Rightarrow> string list \<Rightarrow> (string \<times> err) option" where
  "validateHosts L w a [] = None"
| "validateHosts L w a (h # hs) =
     (if h = [] then validateHosts L w a hs
      else case validateMailHost L w a h of Some e \<Rightarrow> Some (h, e) | None \<Rightarrow> validateHosts L w a hs)"

declare validateHosts.simps [simp del]

definition new_account :: "io \<Rightarrow> string \<Rightarrow> CreateAccountInput \<Rightarrow> string \<Rightarrow> Security \<Rightarrow> Security \<Rightarrow> MailAccount" where
  "new_account w userID inp protocol pop3Sec smtpSec =
     \<lparr>a_ID = new_id w ''acc'' 0, a_UserID = userID, a_Name = ci_Name inp, a_Email = ci_Email inp,
      a_Status = AccountActive, a_InboundProtocol = protocol, a_POP3Host = ci_POP3Host inp,
      a_POP3Port = (if protocol = ''imap'' then portOr (ci_POP3Port inp) pop3Sec 993 143
                    else portOr (ci_POP3Port inp) pop3Sec 995 110),
      a_POP3Security = pop3Sec, a_POP3Username = ci_POP3Username inp, a_POP3Secret = ci_POP3SecretRef inp,
      a_SMTPHost = ci_SMTPHost inp, a_SMTPPort = portOr (ci_SMTPPort inp) smtpSec 465 587,
      a_SMTPSecurity = smtpSec, a_SMTPUsername = ci_SMTPUsername inp,
      a_SMTPAuth = (if ci_SMTPAuth inp = [] then ''auto'' else ci_SMTPAuth inp),
      a_SMTPSecret = ci_SMTPSecretRef inp, a_InsecureSkipVerify = ci_InsecureSkipVerify inp,
      a_CreatedAt = 0, a_UpdatedAt = 0\<rparr>"

section \<open>Operations\<close>

definition CreateAccount :: "lib \<Rightarrow> io \<Rightarrow> app \<Rightarrow> ctx \<Rightarrow> CreateAccountInput \<Rightarrow> (err + MailAccount) \<times> app" where
  "CreateAccount L w a c inp =
     (case normSecurity L (ci_POP3Security inp) SecurityTLS of
        Inl e \<Rightarrow> (Inl e, a)
      | Inr pop3Sec \<Rightarrow>
          (case normSecurity L (ci_SMTPSecurity inp) SecurityTLS of
             Inl e \<Rightarrow> (Inl e, a)
           | Inr smtpSec \<Rightarrow>
               if ci_Email inp = [] then (Inl (UserError ''email is required''), a)
               else (case normInboundProtocol L (ci_InboundProtocol inp) of
                       Inl e \<Rightarrow> (Inl e, a)
                     | Inr protocol \<Rightarrow>
                         (let acc = new_account w (userIDFrom c) inp protocol pop3Sec smtpSec
                          in case validateHosts L w a [a_POP3Host acc, a_SMTPHost acc] of
                               Some (h, e) \<Rightarrow> (Inl e, app_audit a w c ''account_create'' (''host:'' @ h) ''denied'' (err_text e))
                             | None \<Rightarrow>
                                 (case checkInsecureAllowed w a c acc of
                                    (Some e, a1) \<Rightarrow> (Inl e, a1)
                                  | (None, a1) \<Rightarrow>
                                      (case db_CreateAccount (st a1) (now w) acc of
                                         Inl e \<Rightarrow> (Inl e, a1)
                                       | Inr (acc', s') \<Rightarrow>
                                           (Inr acc', app_audit (a1\<lparr>st := s'\<rparr>) w c ''account_create''
                                              (''account:'' @ a_ID acc') ''ok'' (a_Email acc'))))))))"

definition ListAccounts :: "app \<Rightarrow> ctx \<Rightarrow> MailAccount list" where
  "ListAccounts a c = db_ListAccounts (st a) (userIDFrom c)"

record UpdateAccountInput =
  ui_AccountID :: string
  ui_Status :: "string option"
  ui_Name :: "string option"
  ui_Email :: "string option"
  ui_InboundProtocol :: "string option"
  ui_POP3Host :: "string option"
  ui_POP3Port :: "int option"
  ui_POP3Security :: "string option"
  ui_POP3Username :: "string option"
  ui_POP3SecretRef :: "string option"
  ui_SMTPHost :: "string option"
  ui_SMTPPort :: "int option"
  ui_SMTPSecurity :: "string option"
  ui_SMTPUsername :: "string option"
  ui_SMTPAuth :: "string option"
  ui_SMTPSecretRef :: "string option"
  ui_InsecureSkipVerify :: "bool option"

definition set_opt :: "'x option \<Rightarrow> 'x \<Rightarrow> 'x" where
  "set_opt v old = (case v of Some x \<Rightarrow> x | None \<Rightarrow> old)"

text \<open>The text fields that are taken over first.\<close>

definition set_texts :: "UpdateAccountInput \<Rightarrow> MailAccount \<Rightarrow> MailAccount" where
  "set_texts u acc =
     acc\<lparr>a_Name := set_opt (ui_Name u) (a_Name acc), a_Email := set_opt (ui_Email u) (a_Email acc),
         a_POP3Host := set_opt (ui_POP3Host u) (a_POP3Host acc),
         a_POP3Username := set_opt (ui_POP3Username u) (a_POP3Username acc),
         a_SMTPHost := set_opt (ui_SMTPHost u) (a_SMTPHost acc),
         a_SMTPUsername := set_opt (ui_SMTPUsername u) (a_SMTPUsername acc),
         a_SMTPAuth := set_opt (ui_SMTPAuth u) (a_SMTPAuth acc)\<rparr>"

text \<open>The edited row, or the first complaint about it.\<close>

definition edit_account :: "lib \<Rightarrow> UpdateAccountInput \<Rightarrow> MailAccount \<Rightarrow> err + MailAccount" where
  "edit_account L u acc0 =
     (let acc = set_texts u acc0
      in if TrimSpace (a_Email acc) = [] then Inl (UserError ''email is required'')
         else if a_SMTPAuth acc \<noteq> ''auto'' \<and> a_SMTPAuth acc \<noteq> ''none'' then Inl (UserError ''invalid SMTP auth mode'')
         else case (case ui_InboundProtocol u of None \<Rightarrow> Inr (a_InboundProtocol acc) | Some p \<Rightarrow> normInboundProtocol L p) of
                Inl e \<Rightarrow> Inl e
              | Inr protocol \<Rightarrow>
                  if ui_Status u \<noteq> None \<and> ui_Status u \<noteq> Some ''active'' \<and> ui_Status u \<noteq> Some ''disabled''
                  then Inl (UserError ''invalid account status'')
                  else
                    (let status = (if ui_Status u = Some ''active'' then AccountActive
                                   else if ui_Status u = Some ''disabled'' then AccountDisabled else a_Status acc);
                         p1 = set_opt (ui_POP3Port u) (a_POP3Port acc); p2 = set_opt (ui_SMTPPort u) (a_SMTPPort acc)
                     in if p1 \<le> 0 \<or> p1 > 65535 \<or> p2 \<le> 0 \<or> p2 > 65535
                        then Inl (UserError ''mail server ports must be between 1 and 65535'')
                        else case (case ui_POP3Security u of None \<Rightarrow> Inr (a_POP3Security acc)
                                   | Some x \<Rightarrow> normSecurity L x (a_POP3Security acc)) of
                               Inl e \<Rightarrow> Inl e
                             | Inr s1 \<Rightarrow>
                                 (case (case ui_SMTPSecurity u of None \<Rightarrow> Inr (a_SMTPSecurity acc)
                                        | Some x \<Rightarrow> normSecurity L x (a_SMTPSecurity acc)) of
                                    Inl e \<Rightarrow> Inl e
                                  | Inr s2 \<Rightarrow>
                                      Inr (acc\<lparr>a_Status := status, a_InboundProtocol := protocol, a_POP3Port := p1,
                                               a_POP3Security := s1,
                                               a_POP3Secret := set_opt (ui_POP3SecretRef u) (a_POP3Secret acc),
                                               a_SMTPPort := p2, a_SMTPSecurity := s2,
                                               a_SMTPSecret := set_opt (ui_SMTPSecretRef u) (a_SMTPSecret acc),
                                               a_InsecureSkipVerify :=
                                                 set_opt (ui_InsecureSkipVerify u) (a_InsecureSkipVerify acc)\<rparr>))))"

definition UpdateAccount :: "lib \<Rightarrow> io \<Rightarrow> app \<Rightarrow> ctx \<Rightarrow> UpdateAccountInput \<Rightarrow> (err + MailAccount) \<times> app" where
  "UpdateAccount L w a c u =
     (case GetAccount (st a) c (ui_AccountID u) of
        Inl e \<Rightarrow> (Inl e, a)
      | Inr acc0 \<Rightarrow>
          (case edit_account L u acc0 of
             Inl e \<Rightarrow> (Inl e, a)
           | Inr acc \<Rightarrow>
               (case validateHosts L w a [a_POP3Host acc, a_SMTPHost acc] of
                  Some (h, e) \<Rightarrow> (Inl e, a)
                | None \<Rightarrow>
                    (case checkInsecureAllowed w a c acc of
                       (Some e, a1) \<Rightarrow> (Inl e, a1)
                     | (None, a1) \<Rightarrow>
                         (case db_UpdateAccount (st a1) (now w) acc of
                            Inl e \<Rightarrow> (Inl e, a1)
                          | Inr (acc', s') \<Rightarrow>
                              (Inr acc', app_audit (a1\<lparr>st := s'\<rparr>) w c ''account_update'' (''account:'' @ a_ID acc') ''ok'' []))))))"

definition DeleteAccount :: "io \<Rightarrow> app \<Rightarrow> ctx \<Rightarrow> string \<Rightarrow> err option \<times> app" where
  "DeleteAccount w a c aid =
     (case db_GetAccount (st a) (userIDFrom c) aid of
        Inl e \<Rightarrow> (Some e, a)
      | Inr acc \<Rightarrow>
          (None, app_audit (a\<lparr>st := db_SetAccountStatus (st a) (now w) (userIDFrom c) aid AccountDeleted\<rparr>) w c
                   ''account_delete'' (''account:'' @ aid) ''ok'' (a_Email acc)))"

definition DisableAccount :: "io \<Rightarrow> app \<Rightarrow> ctx \<Rightarrow> string \<Rightarrow> err option \<times> app" where
  "DisableAccount w a c aid =
     (case GetAccount (st a) c aid of
        Inl e \<Rightarrow> (Some e, a)
      | Inr acc \<Rightarrow>
          (None, app_audit (a\<lparr>st := db_SetAccountStatus (st a) (now w) (userIDFrom c) aid AccountDisabled\<rparr>) w c
                   ''account_disable'' (''account:'' @ aid) ''ok'' []))"

section \<open>Secrets\<close>

text \<open>The application with its secret store: the key that seals and the table of sealed secrets, if there is one.\<close>

record vault_app =
  va_app :: app
  va_secrets :: "(KEK \<times> StoredSecret list) option"

definition msg_no_secrets :: err where
  "msg_no_secrets = PublicError ''secret_store_unavailable'' 503"

definition va_audit :: "vault_app \<Rightarrow> io \<Rightarrow> ctx \<Rightarrow> string \<Rightarrow> string \<Rightarrow> string \<Rightarrow> string \<Rightarrow> vault_app" where
  "va_audit V w c action resource result detail =
     V\<lparr>va_app := app_audit (va_app V) w c action resource result detail\<rparr>"

text \<open>What a failing secret store says is no provider error; the audit gets the general text.\<close>

definition RegisterSecret ::
  "crypt \<Rightarrow> io \<Rightarrow> ctx \<Rightarrow> string \<Rightarrow> string \<Rightarrow> string \<Rightarrow> vault_app \<Rightarrow> (err + string) \<times> vault_app" where
  "RegisterSecret C w c secretType lbl v V =
     (case va_secrets V of
        None \<Rightarrow> (Inl msg_no_secrets, V)
      | Some (k, s) \<Rightarrow>
          if v = [] then (Inl (UserError ''secret value is empty''), V)
          else (case secret_Put C w k s (userIDFrom c) secretType lbl v of
                  (Inl e, s') \<Rightarrow>
                    (Inl e, va_audit (V\<lparr>va_secrets := Some (k, s')\<rparr>) w c ''secret_register'' [] ''error'' providerFailed)
                | (Inr ref, s') \<Rightarrow>
                    (let a = va_app V;
                         a' = a\<lparr>st := db_PutCredentialRef (st a) (now w) \<lparr>cr_Ref = ref, cr_OwnerID = userIDFrom c,
                                cr_Type = secretType, cr_Provider = ''local'', cr_Label = lbl, cr_Status = ''active'',
                                cr_Version = 1, cr_CreatedAt = 0, cr_LastUsedAt = 0\<rparr>\<rparr>
                     in (Inr ref, va_audit (V\<lparr>va_app := a', va_secrets := Some (k, s')\<rparr>) w c ''secret_register''
                                    (''secret:'' @ ref) ''ok'' lbl))))"

text \<open>Without a secret store the next two would follow a nil interface; the model keeps the state there.\<close>

definition RotateSecret :: "crypt \<Rightarrow> io \<Rightarrow> ctx \<Rightarrow> string \<Rightarrow> string \<Rightarrow> vault_app \<Rightarrow> err option \<times> vault_app" where
  "RotateSecret C w c ref v V =
     (case va_secrets V of
        None \<Rightarrow> (Some (SysError ''nil secret store''), V)
      | Some (k, s) \<Rightarrow>
          (case secret_Rotate C w k s ref v of
             (Some e, s') \<Rightarrow>
               (Some e, va_audit (V\<lparr>va_secrets := Some (k, s')\<rparr>) w c ''secret_rotate'' (''secret:'' @ ref) ''error''
                          providerFailed)
           | (None, s') \<Rightarrow>
               (None, va_audit (V\<lparr>va_secrets := Some (k, s')\<rparr>) w c ''secret_rotate'' (''secret:'' @ ref) ''ok'' [])))"

definition RevokeSecret :: "io \<Rightarrow> ctx \<Rightarrow> string \<Rightarrow> vault_app \<Rightarrow> err option \<times> vault_app" where
  "RevokeSecret w c ref V =
     (case va_secrets V of
        None \<Rightarrow> (Some (SysError ''nil secret store''), V)
      | Some (k, s) \<Rightarrow>
          (let a = va_app V; a' = a\<lparr>st := db_SetCredentialStatus (st a) ref ''revoked''\<rparr>
           in (None, va_audit (V\<lparr>va_app := a', va_secrets := Some (k, secret_Revoke s ref)\<rparr>) w c ''secret_revoke''
                       (''secret:'' @ ref) ''ok'' [])))"

section \<open>Well-formed accounts\<close>

definition known_security :: "Security \<Rightarrow> bool" where
  "known_security s = (s = SecurityTLS \<or> s = SecurityStartTLS \<or> s = SecurityNone)"

definition account_typed :: "MailAccount \<Rightarrow> bool" where
  "account_typed acc \<longleftrightarrow> a_Email acc \<noteq> [] \<and> (a_InboundProtocol acc = ''pop3'' \<or> a_InboundProtocol acc = ''imap'') \<and>
     known_security (a_POP3Security acc) \<and> known_security (a_SMTPSecurity acc) \<and> a_SMTPAuth acc \<noteq> [] \<and>
     0 < a_POP3Port acc \<and> 0 < a_SMTPPort acc"

definition accounts_ok :: "MailAccount list \<Rightarrow> bool" where
  "accounts_ok as \<longleftrightarrow> distinct (map a_ID as) \<and> list_all account_typed as"

text \<open>The rows of everybody else.\<close>

definition others :: "string \<Rightarrow> MailAccount list \<Rightarrow> MailAccount list" where
  "others uid as = filter (\<lambda>r. a_UserID r \<noteq> uid) as"

text \<open>What the administrator's policy asks of an account.\<close>

definition account_allowed :: "lib \<Rightarrow> io \<Rightarrow> app \<Rightarrow> MailAccount \<Rightarrow> bool" where
  "account_allowed L w a acc \<longleftrightarrow>
     list_all (\<lambda>h. h = [] \<or> validateMailHost L w a h = None) [a_POP3Host acc, a_SMTPHost acc] \<and>
     (let plain = a_POP3Security acc = SecurityNone \<or> a_SMTPSecurity acc = SecurityNone \<or> a_InsecureSkipVerify acc
      in \<not> (SettingBool a ''mail.tls_required'' \<and> plain) \<and>
         \<not> (SettingBool a ''mail.smtp_auth_required'' \<and> a_SMTPAuth acc = ''none'') \<and>
         ((plain \<or> a_SMTPAuth acc = ''none'') \<longrightarrow> AllowInsecureMail (cfg a)))"

lemma normInboundProtocol_ok: "normInboundProtocol L p = Inr q \<Longrightarrow> q = ''pop3'' \<or> q = ''imap''"
  by (auto simp: normInboundProtocol_def split: if_splits)

lemma normSecurity_ok: "normSecurity L s d = Inr q \<Longrightarrow> known_security d \<Longrightarrow> known_security q"
  by (auto simp: normSecurity_def known_security_def split: if_splits)

lemma portOr_pos: "0 < t \<Longrightarrow> 0 < p \<Longrightarrow> 0 < portOr q s t p"
  by (simp add: portOr_def)

lemma known_defaults [simp]: "known_security SecurityTLS"
  by (simp add: known_security_def)

lemma validateHosts_None: "validateHosts L w a hs = None \<longleftrightarrow> list_all (\<lambda>h. h = [] \<or> validateMailHost L w a h = None) hs"
  by (induction hs) (auto simp: validateHosts.simps split: option.split)

lemma checkInsecureAllowed_view:
  "accounts (st (snd (checkInsecureAllowed w a c acc))) = accounts (st a)"
  "users (st (snd (checkInsecureAllowed w a c acc))) = users (st a)"
  "system_settings (st (snd (checkInsecureAllowed w a c acc))) = system_settings (st a)"
  by (simp_all add: checkInsecureAllowed_def)

lemma checkInsecureAllowed_None:
  "fst (checkInsecureAllowed w a c acc) = None \<longleftrightarrow>
     (let plain = a_POP3Security acc = SecurityNone \<or> a_SMTPSecurity acc = SecurityNone \<or> a_InsecureSkipVerify acc
      in \<not> (SettingBool a ''mail.tls_required'' \<and> plain) \<and>
         \<not> (SettingBool a ''mail.smtp_auth_required'' \<and> a_SMTPAuth acc = ''none'') \<and>
         ((plain \<or> a_SMTPAuth acc = ''none'') \<longrightarrow> AllowInsecureMail (cfg a)))"
  by (auto simp: checkInsecureAllowed_def Let_def)

lemma allowed_iff:
  "account_allowed L w a acc \<longleftrightarrow>
     validateHosts L w a [a_POP3Host acc, a_SMTPHost acc] = None \<and> fst (checkInsecureAllowed w a c acc) = None"
  unfolding account_allowed_def validateHosts_None checkInsecureAllowed_None by blast

section \<open>Operations keep accounts well-formed\<close>

lemma db_CreateAccount_view:
  assumes "db_CreateAccount s ts acc = Inr (acc', s')"
  shows "accounts s' = accounts s @ [acc']" "a_ID acc' \<notin> a_ID ` set (accounts s)" "acc' = acc\<lparr>a_CreatedAt := ts, a_UpdatedAt := ts\<rparr>"
  using assms by (auto simp: db_CreateAccount_def Let_def no_row_iff split: if_splits)

lemma db_UpdateAccount_view:
  assumes "db_UpdateAccount s ts acc = Inr (acc', s')"
  shows "accounts s' = upd_where (\<lambda>r. a_ID r = a_ID acc \<and> a_UserID r = a_UserID acc)
           (\<lambda>r. acc'\<lparr>a_CreatedAt := a_CreatedAt r\<rparr>) (accounts s)"
    and "acc' = acc\<lparr>a_UpdatedAt := ts\<rparr>"
  using assms by (auto simp: db_UpdateAccount_def Let_def split: if_splits)

text \<open>What a successful operation leaves in the table.\<close>

lemma CreateAccount_Inr:
  assumes "CreateAccount L w a c inp = (Inr acc, a')"
  shows "\<exists>protocol s1 s2. normInboundProtocol L (ci_InboundProtocol inp) = Inr protocol \<and>
      normSecurity L (ci_POP3Security inp) SecurityTLS = Inr s1 \<and> normSecurity L (ci_SMTPSecurity inp) SecurityTLS = Inr s2 \<and>
      ci_Email inp \<noteq> [] \<and> acc = (new_account w (userIDFrom c) inp protocol s1 s2)\<lparr>a_CreatedAt := now w, a_UpdatedAt := now w\<rparr> \<and>
      accounts (st a') = accounts (st a) @ [acc] \<and> a_ID acc \<notin> a_ID ` set (accounts (st a)) \<and> account_allowed L w a acc"
proof -
  from assms obtain s1 s2 p where n: "normSecurity L (ci_POP3Security inp) SecurityTLS = Inr s1"
      "normSecurity L (ci_SMTPSecurity inp) SecurityTLS = Inr s2" "ci_Email inp \<noteq> []"
      "normInboundProtocol L (ci_InboundProtocol inp) = Inr p"
    by (auto simp: CreateAccount_def split: sum.splits if_splits)
  let ?acc = "new_account w (userIDFrom c) inp p s1 s2"
  obtain e a1 where chk: "checkInsecureAllowed w a c ?acc = (e, a1)" by fastforce
  have v: "validateHosts L w a [a_POP3Host ?acc, a_SMTPHost ?acc] = None" "e = None"
    using assms n chk by (auto simp: CreateAccount_def Let_def split: option.splits prod.splits)
  obtain acc' s' where cr: "db_CreateAccount (st a1) (now w) ?acc = Inr (acc', s')"
      and res: "acc = acc'" "accounts (st a') = accounts s'"
    using assms n chk v by (auto simp: CreateAccount_def Let_def split: sum.splits prod.splits)
  have "accounts (st a1) = accounts (st a)" using checkInsecureAllowed_view(1) [of w a c ?acc] chk by simp
  moreover have "account_allowed L w a ?acc" using v chk allowed_iff [of L w a ?acc c] by simp
  then have "account_allowed L w a acc'"
    unfolding db_CreateAccount_view(3) [OF cr] by (simp add: account_allowed_def)
  ultimately show ?thesis
    using n db_CreateAccount_view [OF cr] res by (intro exI [of _ p] exI [of _ s1] exI [of _ s2]) simp
qed

lemma new_account_typed:
  assumes "normInboundProtocol L i = Inr p" "normSecurity L x SecurityTLS = Inr s1" "normSecurity L y SecurityTLS = Inr s2"
    and "ci_Email inp \<noteq> []"
  shows "account_typed ((new_account w uid inp p s1 s2)\<lparr>a_CreatedAt := t, a_UpdatedAt := t'\<rparr>)"
  using normInboundProtocol_ok [OF assms(1)] normSecurity_ok [OF assms(2)] normSecurity_ok [OF assms(3)] assms(4)
  by (auto simp: account_typed_def new_account_def intro: portOr_pos)

text \<open>An edit of a well-formed row is well-formed and keeps its id and its owner.\<close>

lemma set_texts_frame [simp]:
  "a_ID (set_texts u acc) = a_ID acc" "a_UserID (set_texts u acc) = a_UserID acc"
  "a_POP3Security (set_texts u acc) = a_POP3Security acc" "a_SMTPSecurity (set_texts u acc) = a_SMTPSecurity acc"
  "a_InboundProtocol (set_texts u acc) = a_InboundProtocol acc"
  by (simp_all add: set_texts_def)

lemma edit_account_typed:
  assumes "edit_account L u acc0 = Inr acc" "account_typed acc0"
  shows "account_typed acc" "a_ID acc = a_ID acc0" "a_UserID acc = a_UserID acc0"
proof -
  note e = assms(1) [unfolded edit_account_def Let_def]
  obtain p s1 s2 where p: "(case ui_InboundProtocol u of None \<Rightarrow> Inr (a_InboundProtocol (set_texts u acc0))
        | Some p \<Rightarrow> normInboundProtocol L p) = Inr p"
      and s1: "(case ui_POP3Security u of None \<Rightarrow> Inr (a_POP3Security (set_texts u acc0))
        | Some x \<Rightarrow> normSecurity L x (a_POP3Security (set_texts u acc0))) = Inr s1"
      and s2: "(case ui_SMTPSecurity u of None \<Rightarrow> Inr (a_SMTPSecurity (set_texts u acc0))
        | Some x \<Rightarrow> normSecurity L x (a_SMTPSecurity (set_texts u acc0))) = Inr s2"
    using e by (simp split: sum.splits if_splits)
  have ok: "TrimSpace (a_Email (set_texts u acc0)) \<noteq> []" "a_SMTPAuth (set_texts u acc0) \<noteq> []"
    "0 < set_opt (ui_POP3Port u) (a_POP3Port (set_texts u acc0))" "0 < set_opt (ui_SMTPPort u) (a_SMTPPort (set_texts u acc0))"
    using e p s1 s2 by (auto split: if_splits)
  have acc: "a_ID acc = a_ID acc0" "a_UserID acc = a_UserID acc0" "a_Email acc = a_Email (set_texts u acc0)"
    "a_SMTPAuth acc = a_SMTPAuth (set_texts u acc0)" "a_InboundProtocol acc = p" "a_POP3Security acc = s1"
    "a_SMTPSecurity acc = s2" "a_POP3Port acc = set_opt (ui_POP3Port u) (a_POP3Port (set_texts u acc0))"
    "a_SMTPPort acc = set_opt (ui_SMTPPort u) (a_SMTPPort (set_texts u acc0))"
    using e p s1 s2 by (auto split: if_splits)
  have pq: "p = ''pop3'' \<or> p = ''imap''"
    using p assms(2) normInboundProtocol_ok by (auto simp: account_typed_def split: option.splits)
  have k: "known_security s1" "known_security s2"
    using s1 s2 assms(2) normSecurity_ok by (auto simp: account_typed_def split: option.splits)
  have "a_Email acc \<noteq> []" using ok(1) acc(3) by (metis TrimSpace_Nil)
  with ok acc pq k show "account_typed acc" "a_ID acc = a_ID acc0" "a_UserID acc = a_UserID acc0"
    by (simp_all add: account_typed_def)
qed

lemma UpdateAccount_Inr:
  assumes "UpdateAccount L w a c u = (Inr acc, a')"
  shows "\<exists>acc0 acc1. GetAccount (st a) c (ui_AccountID u) = Inr acc0 \<and> edit_account L u acc0 = Inr acc1 \<and>
      acc = acc1\<lparr>a_UpdatedAt := now w\<rparr> \<and> account_allowed L w a acc1 \<and>
      accounts (st a') = upd_where (\<lambda>r. a_ID r = a_ID acc1 \<and> a_UserID r = a_UserID acc1)
        (\<lambda>r. acc\<lparr>a_CreatedAt := a_CreatedAt r\<rparr>) (accounts (st a))"
proof -
  from assms obtain acc0 acc1 where g: "GetAccount (st a) c (ui_AccountID u) = Inr acc0" "edit_account L u acc0 = Inr acc1"
    by (auto simp: UpdateAccount_def split: sum.splits)
  obtain e a1 where chk: "checkInsecureAllowed w a c acc1 = (e, a1)" by fastforce
  have v: "validateHosts L w a [a_POP3Host acc1, a_SMTPHost acc1] = None" "e = None"
    using assms g chk by (auto simp: UpdateAccount_def split: option.splits prod.splits)
  obtain acc' s' where up: "db_UpdateAccount (st a1) (now w) acc1 = Inr (acc', s')"
      and res: "acc = acc'" "accounts (st a') = accounts s'"
    using assms g chk v by (auto simp: UpdateAccount_def split: sum.splits prod.splits)
  have "accounts (st a1) = accounts (st a)" using checkInsecureAllowed_view(1) [of w a c acc1] chk by simp
  moreover have "account_allowed L w a acc1" using v chk allowed_iff [of L w a acc1 c] by simp
  ultimately show ?thesis using g res db_UpdateAccount_view [OF up] by auto
qed

lemma refused_keeps_accounts:
  "CreateAccount L w a c inp = (Inl e, a') \<Longrightarrow> accounts (st a') = accounts (st a)"
  "UpdateAccount L w a c u = (Inl e, a') \<Longrightarrow> accounts (st a') = accounts (st a)"
  using checkInsecureAllowed_view(1) [of w a c] unfolding CreateAccount_def UpdateAccount_def Let_def
  by (auto split: sum.splits option.splits prod.splits if_splits) (metis snd_conv)+

lemma GetAccount_row:
  "GetAccount s c aid = Inr acc \<Longrightarrow> acc \<in> set (accounts s) \<and> a_UserID acc = userIDFrom c \<and> a_ID acc = aid"
  by (auto simp: GetAccount_def db_GetAccount_def find_Some_iff split: option.splits if_splits dest!: find_SomeD)

lemma accounts_ok_upd:
  assumes "accounts_ok as" "\<And>r. r \<in> set as \<Longrightarrow> P r \<Longrightarrow> account_typed (f r) \<and> a_ID (f r) = a_ID r"
  shows "accounts_ok (upd_where P f as)"
proof -
  have "map a_ID (upd_where P f as) = map a_ID as" using assms(2) by (induction as) auto
  moreover have "list_all account_typed (upd_where P f as)"
    using assms by (auto simp: accounts_ok_def list_all_iff set_upd_where)
  ultimately show ?thesis using assms(1) by (simp add: accounts_ok_def)
qed

lemma others_upd: "(\<And>r. P r \<Longrightarrow> a_UserID r = uid \<and> a_UserID (f r) = uid) \<Longrightarrow> others uid (upd_where P f as) = others uid as"
  by (induction as) (auto simp: others_def)

lemma CreateAccount_ok:
  "accounts_ok (accounts (st a)) \<Longrightarrow> accounts_ok (accounts (st (snd (CreateAccount L w a c inp))))"
  "others (userIDFrom c) (accounts (st (snd (CreateAccount L w a c inp)))) = others (userIDFrom c) (accounts (st a))"
proof -
  obtain r a' where r: "CreateAccount L w a c inp = (r, a')" by fastforce
  have "(accounts_ok (accounts (st a)) \<longrightarrow> accounts_ok (accounts (st a'))) \<and>
      others (userIDFrom c) (accounts (st a')) = others (userIDFrom c) (accounts (st a))"
  proof (cases r)
    case (Inl e)
    then show ?thesis using r refused_keeps_accounts(1) by metis
  next
    case (Inr acc)
    from CreateAccount_Inr [OF r [unfolded Inr]] obtain p s1 s2 where
      n: "normInboundProtocol L (ci_InboundProtocol inp) = Inr p"
        "normSecurity L (ci_POP3Security inp) SecurityTLS = Inr s1" "normSecurity L (ci_SMTPSecurity inp) SecurityTLS = Inr s2"
        "ci_Email inp \<noteq> []" and
      acc: "acc = (new_account w (userIDFrom c) inp p s1 s2)\<lparr>a_CreatedAt := now w, a_UpdatedAt := now w\<rparr>"
        "accounts (st a') = accounts (st a) @ [acc]" "a_ID acc \<notin> a_ID ` set (accounts (st a))" by blast
    have "account_typed acc" unfolding acc(1) by (rule new_account_typed [OF n])
    moreover have "a_UserID acc = userIDFrom c" by (simp add: acc(1) new_account_def)
    ultimately show ?thesis using acc(2,3) by (simp add: accounts_ok_def others_def)
  qed
  then show "accounts_ok (accounts (st a)) \<Longrightarrow> accounts_ok (accounts (st (snd (CreateAccount L w a c inp))))"
    "others (userIDFrom c) (accounts (st (snd (CreateAccount L w a c inp)))) = others (userIDFrom c) (accounts (st a))"
    by (simp_all add: r)
qed

lemma UpdateAccount_ok:
  assumes "accounts_ok (accounts (st a))"
  shows "accounts_ok (accounts (st (snd (UpdateAccount L w a c u))))"
    and "others (userIDFrom c) (accounts (st (snd (UpdateAccount L w a c u)))) = others (userIDFrom c) (accounts (st a))"
proof -
  obtain r a' where r: "UpdateAccount L w a c u = (r, a')" by fastforce
  have "accounts_ok (accounts (st a')) \<and> others (userIDFrom c) (accounts (st a')) = others (userIDFrom c) (accounts (st a))"
  proof (cases r)
    case (Inl e)
    then show ?thesis using assms r refused_keeps_accounts(2) by metis
  next
    case (Inr acc)
    from UpdateAccount_Inr [OF r [unfolded Inr]] obtain acc0 acc1 where
      g: "GetAccount (st a) c (ui_AccountID u) = Inr acc0" "edit_account L u acc0 = Inr acc1"
      and acc: "acc = acc1\<lparr>a_UpdatedAt := now w\<rparr>"
        "accounts (st a') = upd_where (\<lambda>r. a_ID r = a_ID acc1 \<and> a_UserID r = a_UserID acc1)
           (\<lambda>r. acc\<lparr>a_CreatedAt := a_CreatedAt r\<rparr>) (accounts (st a))" by blast
    have "account_typed acc0" using GetAccount_row [OF g(1)] assms by (simp add: accounts_ok_def list_all_iff)
    note ed = edit_account_typed [OF g(2) this]
    have "account_typed (acc\<lparr>a_CreatedAt := t\<rparr>)" "a_ID acc = a_ID acc1" "a_UserID acc = userIDFrom c" for t
      using ed GetAccount_row [OF g(1)] by (simp_all add: acc(1) account_typed_def)
    moreover have "a_UserID acc1 = userIDFrom c" using ed GetAccount_row [OF g(1)] by simp
    ultimately show ?thesis unfolding acc(2) using assms by (auto intro!: accounts_ok_upd others_upd)
  qed
  then show "accounts_ok (accounts (st (snd (UpdateAccount L w a c u))))"
    "others (userIDFrom c) (accounts (st (snd (UpdateAccount L w a c u)))) = others (userIDFrom c) (accounts (st a))"
    by (simp_all add: r)
qed

lemma SetAccountStatus_ok:
  "accounts_ok (accounts s) \<Longrightarrow> accounts_ok (accounts (db_SetAccountStatus s ts uid aid x))"
  "others uid (accounts (db_SetAccountStatus s ts uid aid x)) = others uid (accounts s)"
proof -
  have t: "account_typed (r\<lparr>a_Status := x, a_UpdatedAt := ts\<rparr>) = account_typed r" for r by (simp add: account_typed_def)
  show "accounts_ok (accounts s) \<Longrightarrow> accounts_ok (accounts (db_SetAccountStatus s ts uid aid x))"
    by (auto simp: db_SetAccountStatus_def t accounts_ok_def [of "accounts s"] list_all_iff intro!: accounts_ok_upd)
  show "others uid (accounts (db_SetAccountStatus s ts uid aid x)) = others uid (accounts s)"
    by (auto simp: db_SetAccountStatus_def intro!: others_upd)
qed

lemma status_ops_view:
  "\<exists>s. accounts (st (snd (DeleteAccount w a c aid))) = accounts s \<and>
     (s = st a \<or> s = db_SetAccountStatus (st a) (now w) (userIDFrom c) aid AccountDeleted)"
  "\<exists>s. accounts (st (snd (DisableAccount w a c aid))) = accounts s \<and>
     (s = st a \<or> s = db_SetAccountStatus (st a) (now w) (userIDFrom c) aid AccountDisabled)"
  by (auto simp: DeleteAccount_def DisableAccount_def split: sum.split)

lemma status_ops_ok:
  "accounts_ok (accounts (st a)) \<Longrightarrow> accounts_ok (accounts (st (snd (DeleteAccount w a c aid))))"
  "accounts_ok (accounts (st a)) \<Longrightarrow> accounts_ok (accounts (st (snd (DisableAccount w a c aid))))"
  "others (userIDFrom c) (accounts (st (snd (DeleteAccount w a c aid)))) = others (userIDFrom c) (accounts (st a))"
  "others (userIDFrom c) (accounts (st (snd (DisableAccount w a c aid)))) = others (userIDFrom c) (accounts (st a))"
  using status_ops_view [of w a c aid] SetAccountStatus_ok by metis+

section \<open>Runs\<close>

text \<open>
  Users add, edit, delete and disable accounts; a sync or an administrator may set the status of an account;
  a purge removes rows; everything else leaves the table alone.
\<close>

inductive account_step :: "lib \<Rightarrow> app \<Rightarrow> app \<Rightarrow> bool" for L where
  creates: "account_step L a (snd (CreateAccount L w a c inp))"
| updates: "account_step L a (snd (UpdateAccount L w a c u))"
| deletes: "account_step L a (snd (DeleteAccount w a c aid))"
| disables: "account_step L a (snd (DisableAccount w a c aid))"
| marks: "account_step L a (a\<lparr>st := db_SetAccountStatus (st a) ts uid aid x\<rparr>)"
| other: "accounts (st a') = filter keep (accounts (st a)) \<Longrightarrow> account_step L a a'"

inductive account_run :: "lib \<Rightarrow> app \<Rightarrow> app \<Rightarrow> bool" for L where
  refl: "account_run L a a"
| step: "account_run L a a1 \<Longrightarrow> account_step L a1 a2 \<Longrightarrow> account_run L a a2"

lemma account_step_ok: "account_step L a a' \<Longrightarrow> accounts_ok (accounts (st a)) \<Longrightarrow> accounts_ok (accounts (st a'))"
proof (induction rule: account_step.induct)
  case (other a' keep a)
  then show ?case by (auto simp: accounts_ok_def list_all_iff distinct_map_filter)
qed (simp_all add: CreateAccount_ok UpdateAccount_ok status_ops_ok SetAccountStatus_ok)

section \<open>Examples\<close>

definition sample_create :: CreateAccountInput where
  "sample_create = \<lparr>ci_Name = ''Kim'', ci_Email = ''kim@corp.test'', ci_InboundProtocol = ''imap'', ci_POP3Host = [],
     ci_POP3Port = 0, ci_POP3Security = ''starttls'', ci_POP3Username = ''kim'', ci_POP3SecretRef = ''sec_1'',
     ci_SMTPHost = [], ci_SMTPPort = 70000, ci_SMTPSecurity = [], ci_SMTPUsername = ''kim'', ci_SMTPAuth = ''plain'',
     ci_SMTPSecretRef = ''sec_1'', ci_InsecureSkipVerify = False\<rparr>"

definition unchanged :: "string \<Rightarrow> UpdateAccountInput" where
  "unchanged aid = \<lparr>ui_AccountID = aid, ui_Status = None, ui_Name = None, ui_Email = None, ui_InboundProtocol = None,
     ui_POP3Host = None, ui_POP3Port = None, ui_POP3Security = None, ui_POP3Username = None, ui_POP3SecretRef = None,
     ui_SMTPHost = None, ui_SMTPPort = None, ui_SMTPSecurity = None, ui_SMTPUsername = None, ui_SMTPAuth = None,
     ui_SMTPSecretRef = None, ui_InsecureSkipVerify = None\<rparr>"

lemma sample_create_ok:
  "\<exists>a'. CreateAccount sample_lib sample_io sample_app (sample_ctx ''local'' []) sample_create =
     (Inr ((new_account sample_io ''usr_1'' sample_create ''imap'' SecurityStartTLS SecurityTLS)
             \<lparr>a_CreatedAt := 1000, a_UpdatedAt := 1000\<rparr>), a') \<and>
     accounts (st a') = [(new_account sample_io ''usr_1'' sample_create ''imap'' SecurityStartTLS SecurityTLS)
             \<lparr>a_CreatedAt := 1000, a_UpdatedAt := 1000\<rparr>]"
  by (simp add: CreateAccount_def sample_create_def normSecurity_def normInboundProtocol_def Let_def validateHosts.simps
      new_account_def checkInsecureAllowed_def sample_defs userIDFrom_def db_CreateAccount_def empty_store_def no_row_def
      Setting_def SettingBool_def portOr_def)

text \<open>An account with a port and an authentication mode that no edit accepts, not even one that changes nothing.\<close>

lemma created_account_cannot_be_edited:
  "\<exists>acc a'. CreateAccount sample_lib sample_io sample_app (sample_ctx ''local'' []) sample_create = (Inr acc, a') \<and>
     fst (UpdateAccount sample_lib sample_io a' (sample_ctx ''local'' []) (unchanged (a_ID acc))) =
       Inl (UserError ''invalid SMTP auth mode'')"
proof -
  obtain a' where a': "CreateAccount sample_lib sample_io sample_app (sample_ctx ''local'' []) sample_create =
     (Inr ((new_account sample_io ''usr_1'' sample_create ''imap'' SecurityStartTLS SecurityTLS)
             \<lparr>a_CreatedAt := 1000, a_UpdatedAt := 1000\<rparr>), a')"
     "accounts (st a') = [(new_account sample_io ''usr_1'' sample_create ''imap'' SecurityStartTLS SecurityTLS)
             \<lparr>a_CreatedAt := 1000, a_UpdatedAt := 1000\<rparr>]"
    using sample_create_ok by blast
  have t: "TrimSpace ''kim@corp.test'' \<noteq> []" by code_simp
  show ?thesis
    by (intro exI conjI, rule a'(1))
       (simp add: UpdateAccount_def a'(2) GetAccount_def db_GetAccount_def unchanged_def new_account_def sample_create_def
         sample_defs userIDFrom_def edit_account_def set_texts_def set_opt_def Let_def t)
qed

text \<open>Rotating and revoking a secret do not ask whose it is.\<close>

lemma secret_ops_ignore_owner:
  "fst (RotateSecret C w c ref v V) = fst (RotateSecret C w c' ref v V)"
  "va_secrets (snd (RotateSecret C w c ref v V)) = va_secrets (snd (RotateSecret C w c' ref v V))"
  "fst (RevokeSecret w c ref V) = fst (RevokeSecret w c' ref V)"
  "va_secrets (snd (RevokeSecret w c ref V)) = va_secrets (snd (RevokeSecret w c' ref V))"
  by (simp_all add: RotateSecret_def RevokeSecret_def va_audit_def Let_def split: option.split prod.split)

section \<open>Properties\<close>

text \<open>
  C35.  Over every run of operations on accounts, refused ones included, every row of the table is well-formed: its
  protocol and security modes are known ones, its ports are positive, its address and authentication mode are
  not empty, and ids stay unique.
\<close>

theorem accounts_well_typed:
  assumes "account_run L a a'" and "accounts_ok (accounts (st a))"
  shows "accounts_ok (accounts (st a'))"
  using assms by (induction rule: account_run.induct) (auto intro: account_step_ok)

theorem accounts_well_typed_witness:
  "accounts_ok (accounts (st (snd (DisableAccount sample_io
     (snd (CreateAccount sample_lib sample_io sample_app (sample_ctx ''local'' []) sample_create))
     (sample_ctx ''local'' []) ''acc_0''))))"
  by (rule accounts_well_typed [OF account_run.step [OF account_run.step [OF account_run.refl account_step.creates]
        account_step.disables]])
     (simp add: sample_defs empty_store_def accounts_ok_def)



end
