(* ===== verification/Sso_Identity.thy ===== *)
theory Sso_Identity
  imports Accounts Sync_Jobs Auth_Safety "HOL-Library.Countable"
begin

text \<open>
  Sign-in through an identity provider (\<open>src/internal/application/oidc.go\<close>) and the mail account that an
  organisation's policy gives to whoever signs in (\<open>admin_mail_provision.go\<close>).  What the provider answers and what
  the verifier of \<open>go-oidc\<close> makes of a token are inputs.  The incidents the code files for operators are not
  modelled.
\<close>

section \<open>Fixed messages\<close>

definition guide_invalid_client :: string where
  "guide_invalid_client =
     runes [0x43, 0x6C, 0x69, 0x65, 0x6E, 0x74, 0x20, 0x49, 0x44, 0x2C, 0x20, 0xBCC4, 0xB3C4, 0x20, 0xC800,
     0xC7A5, 0xB41C, 0x20, 0x43, 0x6C, 0x69, 0x65, 0x6E, 0x74, 0x20, 0x53, 0x65, 0x63, 0x72, 0x65, 0x74,
     0xACFC, 0x20, 0xC778, 0xC99D, 0x20, 0xC11C, 0xBC84, 0xC758, 0x20, 0xD074, 0xB77C, 0xC774, 0xC5B8,
     0xD2B8, 0x20, 0xC778, 0xC99D, 0x20, 0xBC29, 0xC2DD, 0xC744, 0x20, 0xD655, 0xC778, 0xD558, 0xC138,
     0xC694]"

definition guide_invalid_grant :: string where
  "guide_invalid_grant =
     runes [0xC778, 0xC99D, 0x20, 0xCF54, 0xB4DC, 0xAC00, 0x20, 0xB9CC, 0xB8CC, 0xB418, 0xC5C8, 0xAC70,
     0xB098, 0x20, 0xC774, 0xBBF8, 0x20, 0xC0AC, 0xC6A9, 0xB418, 0xC5C8, 0xC744, 0x20, 0xC218, 0x20,
     0xC788, 0xC2B5, 0xB2C8, 0xB2E4, 0x2E, 0x20, 0xB2E4, 0xC2DC, 0x20, 0xB85C, 0xADF8, 0xC778, 0xD558,
     0xACE0, 0x20, 0x43, 0x61, 0x6C, 0x6C, 0x62, 0x61, 0x63, 0x6B, 0x20, 0x55, 0x52, 0x4C, 0xACFC, 0x20,
     0x50, 0x4B, 0x43, 0x45, 0x20, 0xC124, 0xC815, 0xC744, 0x20, 0xD655, 0xC778, 0xD558, 0xC138, 0xC694]"

definition guide_invalid_request :: string where
  "guide_invalid_request =
     runes [0x43, 0x61, 0x6C, 0x6C, 0x62, 0x61, 0x63, 0x6B, 0x20, 0x55, 0x52, 0x4C, 0x2C, 0x20, 0x50, 0x4B,
     0x43, 0x45, 0xC640, 0x20, 0xC778, 0xC99D, 0x20, 0xC11C, 0xBC84, 0xC758, 0x20, 0xD074, 0xB77C, 0xC774,
     0xC5B8, 0xD2B8, 0x20, 0xC694, 0xCCAD, 0x20, 0xC124, 0xC815, 0xC744, 0x20, 0xD655, 0xC778, 0xD558,
     0xC138, 0xC694]"

definition guide_invalid_scope :: string where
  "guide_invalid_scope =
     runes [0x6F, 0x70, 0x65, 0x6E, 0x69, 0x64, 0x2C, 0x20, 0x70, 0x72, 0x6F, 0x66, 0x69, 0x6C, 0x65, 0x2C,
     0x20, 0x65, 0x6D, 0x61, 0x69, 0x6C, 0x2C, 0x20, 0x67, 0x72, 0x6F, 0x75, 0x70, 0x73, 0x20, 0xBC94,
     0xC704, 0xAC00, 0x20, 0xD574, 0xB2F9, 0x20, 0xD074, 0xB77C, 0xC774, 0xC5B8, 0xD2B8, 0xC5D0, 0x20,
     0xD5C8, 0xC6A9, 0xB418, 0xB294, 0xC9C0, 0x20, 0xD655, 0xC778, 0xD558, 0xC138, 0xC694]"

definition guide_grant_type :: string where
  "guide_grant_type =
     runes [0xD074, 0xB77C, 0xC774, 0xC5B8, 0xD2B8, 0xC758, 0x20, 0x41, 0x75, 0x74, 0x68, 0x6F, 0x72, 0x69,
     0x7A, 0x61, 0x74, 0x69, 0x6F, 0x6E, 0x20, 0x43, 0x6F, 0x64, 0x65, 0x20, 0xD750, 0xB984, 0xACFC, 0x20,
     0xD1A0, 0xD070, 0x20, 0xBC1C, 0xAE09, 0x20, 0xAD8C, 0xD55C, 0xC744, 0x20, 0xD655, 0xC778, 0xD558,
     0xC138, 0xC694]"

definition guide_access_denied :: string where
  "guide_access_denied =
     runes [0xC0AC, 0xC6A9, 0xC790, 0xC640, 0x20, 0xD074, 0xB77C, 0xC774, 0xC5B8, 0xD2B8, 0xC758, 0x20,
     0xB85C, 0xADF8, 0xC778, 0x20, 0xAD8C, 0xD55C, 0xC744, 0x20, 0xD655, 0xC778, 0xD558, 0xC138, 0xC694]"

definition guide_interaction :: string where
  "guide_interaction =
     runes [0xC778, 0xC99D, 0x20, 0xC11C, 0xBC84, 0xC5D0, 0xC11C, 0x20, 0xB85C, 0xADF8, 0xC778, 0xB7,
     0xACC4, 0xC815, 0x20, 0xC120, 0xD0DD, 0xB7, 0xB3D9, 0xC758, 0xB97C, 0x20, 0xC644, 0xB8CC, 0xD55C,
     0x20, 0xB4A4, 0x20, 0xB2E4, 0xC2DC, 0x20, 0xC2DC, 0xB3C4, 0xD558, 0xC138, 0xC694]"

definition guide_server_error :: string where
  "guide_server_error =
     runes [0xC778, 0xC99D, 0x20, 0xC11C, 0xBC84, 0x20, 0xC0C1, 0xD0DC, 0xB97C, 0x20, 0xD655, 0xC778,
     0xD55C, 0x20, 0xB4A4, 0x20, 0xC7A0, 0xC2DC, 0x20, 0xD6C4, 0x20, 0xB2E4, 0xC2DC, 0x20, 0xB85C, 0xADF8,
     0xC778, 0xD558, 0xC138, 0xC694]"

definition guide_fallback :: string where
  "guide_fallback =
     runes [0xC778, 0xC99D, 0x20, 0xC11C, 0xBC84, 0x20, 0xC5F0, 0xACB0, 0x2C, 0x20, 0x43, 0x6C, 0x69, 0x65,
     0x6E, 0x74, 0x20, 0xC124, 0xC815, 0xACFC, 0x20, 0x43, 0x61, 0x6C, 0x6C, 0x62, 0x61, 0x63, 0x6B, 0x20,
     0x55, 0x52, 0x4C, 0xC744, 0x20, 0xD655, 0xC778, 0xD55C, 0x20, 0xB4A4, 0x20, 0xB2E4, 0xC2DC, 0x20,
     0xB85C, 0xADF8, 0xC778, 0xD558, 0xC138, 0xC694]"

definition msg_no_account :: string where
  "msg_no_account =
     runes [0x4F, 0x49, 0x44, 0x43, 0x20, 0xC0AC, 0xC6A9, 0xC790, 0x20, 0xC790, 0xB3D9, 0x20, 0xC0DD,
     0xC131, 0xC774, 0x20, 0xBE44, 0xD65C, 0xC131, 0xD654, 0xB418, 0xC5B4, 0x20, 0xC788, 0xACE0, 0x2C,
     0x20, 0xC5F0, 0xACB0, 0xD560, 0x20, 0xAE30, 0xC874, 0x20, 0xACC4, 0xC815, 0xB3C4, 0x20, 0xC5C6,
     0xC2B5, 0xB2C8, 0xB2E4, 0x2E, 0x20, 0xAD00, 0xB9AC, 0xC790, 0xC5D0, 0xAC8C, 0x20, 0xBB38, 0xC758,
     0xD558, 0xC138, 0xC694, 0x20, 0x28, 0xC0AC, 0xC6A9, 0xC790, 0xBA85, 0x2F, 0xC774, 0xBA54, 0xC77C,
     0xC774, 0x20, 0xAE30, 0xC874, 0x20, 0xACC4, 0xC815, 0xACFC, 0x20, 0xC77C, 0xCE58, 0xD558, 0xB294,
     0xC9C0, 0x20, 0xD655, 0xC778, 0x29, 0x2E]"

definition msg_exchange_failed :: string where
  "msg_exchange_failed =
     runes [0x4F, 0x49, 0x44, 0x43, 0x20, 0xCF54, 0xB4DC, 0x20, 0xAD50, 0xD658, 0x20, 0xC2E4, 0xD328, 0x3A,
     0x20]"

definition msg_id_token_failed :: string where
  "msg_id_token_failed =
     runes [0x4F, 0x49, 0x44, 0x43, 0x20, 0x49, 0x44, 0x20, 0xD1A0, 0xD070, 0x20, 0xAC80, 0xC99D, 0x20,
     0xC2E4, 0xD328, 0x3A, 0x20, 0x49, 0x73, 0x73, 0x75, 0x65, 0x72, 0x2C, 0x20, 0x43, 0x6C, 0x69, 0x65,
     0x6E, 0x74, 0x20, 0x49, 0x44, 0x28, 0x61, 0x75, 0x64, 0x69, 0x65, 0x6E, 0x63, 0x65, 0x29, 0x2C, 0x20,
     0xC11C, 0xBA85, 0x2F, 0x4A, 0x57, 0x4B, 0x53, 0x2C, 0x20, 0xC11C, 0xBC84, 0x20, 0xC2DC, 0xAC04,
     0xACFC, 0x20, 0xD1A0, 0xD070, 0x20, 0xB9CC, 0xB8CC, 0xB97C, 0x20, 0xD655, 0xC778, 0xD55C, 0x20,
     0xB4A4, 0x20, 0xB2E4, 0xC2DC, 0x20, 0xB85C, 0xADF8, 0xC778, 0xD558, 0xC138, 0xC694]"

definition msg_discovery_failed :: string where
  "msg_discovery_failed =
     runes [0x4F, 0x49, 0x44, 0x43, 0x20, 0x44, 0x69, 0x73, 0x63, 0x6F, 0x76, 0x65, 0x72, 0x79, 0x20,
     0xC2E4, 0xD328, 0x3A, 0x20]"

definition link_arrow :: string where
  "link_arrow =
     runes [0x20, 0x2192, 0x20, 0x6C, 0x6F, 0x67, 0x69, 0x6E, 0x3D]"

section \<open>Settings\<close>

text \<open>The OIDC part of \<open>config.AuthConfig\<close>.\<close>

record AuthConfig =
  OIDCIssuer :: string
  OIDCClientID :: string
  OIDCClientSecret :: string
  OIDCSecretRef :: string
  OIDCRedirectURL :: string
  OIDCAutoProvision :: bool
  OIDCAdminGroup :: string
  OIDCAutoLogin :: bool

record oidcRuntime =
  rt_Issuer :: string
  rt_ClientID :: string
  rt_ClientSecret :: string
  rt_SecretRef :: string
  rt_RedirectURL :: string
  rt_AdminGroup :: string
  rt_AutoProvision :: bool
  rt_AutoLogin :: bool

text \<open>The OIDC entries of \<open>SystemSettings\<close>: what is stored, else the configuration.\<close>

definition oidc_defaults :: "AuthConfig \<Rightarrow> string \<rightharpoonup> string" where
  "oidc_defaults A = map_of
     [(''auth.oidc.issuer'', OIDCIssuer A), (''auth.oidc.client_id'', OIDCClientID A),
      (''auth.oidc.secret_ref'', OIDCSecretRef A), (''auth.oidc.redirect_url'', OIDCRedirectURL A),
      (''auth.oidc.auto_provision'', bool_text (OIDCAutoProvision A)), (''auth.oidc.admin_group'', OIDCAdminGroup A),
      (''auth.oidc.auto_login'', bool_text (OIDCAutoLogin A))]"

definition SystemSettings_oidc :: "AuthConfig \<Rightarrow> app \<Rightarrow> string \<rightharpoonup> string" where
  "SystemSettings_oidc A a = oidc_defaults A ++ system_settings (st a)"

definition setting_text :: "(string \<rightharpoonup> string) \<Rightarrow> string \<Rightarrow> string" where
  "setting_text values key = (case values key of Some v \<Rightarrow> v | None \<Rightarrow> [])"

text \<open>\<open>strconv.ParseBool\<close>.\<close>

definition ParseBool :: "string \<Rightarrow> bool option" where
  "ParseBool s =
     (if s \<in> set [''1'', ''t'', ''T'', ''true'', ''TRUE'', ''True''] then Some True
      else if s \<in> set [''0'', ''f'', ''F'', ''false'', ''FALSE'', ''False''] then Some False else None)"

definition boolSetting :: "(string \<rightharpoonup> string) \<Rightarrow> string \<Rightarrow> bool \<Rightarrow> bool" where
  "boolSetting values key fallback =
     (case values key of
        None \<Rightarrow> fallback
      | Some v \<Rightarrow> (case ParseBool v of Some b \<Rightarrow> b | None \<Rightarrow> fallback))"

definition oidc_runtime :: "AuthConfig \<Rightarrow> io \<Rightarrow> app \<Rightarrow> err + oidcRuntime" where
  "oidc_runtime A w a =
     (let values = SystemSettings_oidc A a;
          text = (\<lambda>k. TrimSpace (setting_text values k));
          rt = \<lparr>rt_Issuer = text ''auth.oidc.issuer'', rt_ClientID = text ''auth.oidc.client_id'', rt_ClientSecret = [],
                rt_SecretRef = text ''auth.oidc.secret_ref'', rt_RedirectURL = text ''auth.oidc.redirect_url'',
                rt_AdminGroup = text ''auth.oidc.admin_group'',
                rt_AutoProvision = boolSetting values ''auth.oidc.auto_provision'' (OIDCAutoProvision A),
                rt_AutoLogin = boolSetting values ''auth.oidc.auto_login'' (OIDCAutoLogin A)\<rparr>
      in if rt_SecretRef rt \<noteq> []
         then (case acquire_secret w (rt_SecretRef rt) of
                 Inl e \<Rightarrow> Inl e | Inr s \<Rightarrow> Inr (rt\<lparr>rt_ClientSecret := s\<rparr>))
         else if system_settings (st a) ''auth.oidc.secret_ref'' = None
         then Inr (rt\<lparr>rt_ClientSecret := OIDCClientSecret A\<rparr>)
         else Inr rt)"

definition oidc_configured :: "oidcRuntime \<Rightarrow> bool" where
  "oidc_configured rt = (rt_Issuer rt \<noteq> [] \<and> rt_ClientID rt \<noteq> [] \<and> rt_RedirectURL rt \<noteq> [])"

section \<open>Claims\<close>

datatype audience = AudString string | AudList "string option list" | AudNone

record oidcClaims =
  oc_Subject :: string
  oc_PreferredUsername :: string
  oc_Email :: string
  oc_EmailVerified :: "bool option"
  oc_Name :: string
  oc_Groups :: "string list"
  oc_AuthorizedParty :: string
  oc_Audience :: audience

definition emailUnverified :: "oidcClaims \<Rightarrow> bool" where
  "emailUnverified c = (oc_EmailVerified c = Some False)"

definition oidcRole :: "string list \<Rightarrow> string \<Rightarrow> UserRole" where
  "oidcRole groups adminGroup =
     (if adminGroup = [] then RoleUser
      else if list_ex (\<lambda>g. TrimPrefix g ''/'' = TrimPrefix adminGroup ''/'') groups then RoleAdmin else RoleUser)"

definition tokenForClient :: "oidcClaims \<Rightarrow> string \<Rightarrow> bool" where
  "tokenForClient c clientID =
     (oc_AuthorizedParty c = clientID \<and>
      (case oc_Audience c of
         AudString s \<Rightarrow> s = clientID | AudList vs \<Rightarrow> Some clientID \<in> set vs | AudNone \<Rightarrow> False))"

definition shortSubject :: "lib \<Rightarrow> string \<Rightarrow> string" where
  "shortSubject L subject = b64_encode b64_url (take 6 (sha256 L subject))"

section \<open>From an identity to a user\<close>

definition errOIDCUserDisabled :: err where
  "errOIDCUserDisabled = UserError ''user is disabled''"

definition errOIDCNoAccount :: err where
  "errOIDCNoAccount = UserError msg_no_account"

definition oidcLinkCandidate :: "lib \<Rightarrow> store \<Rightarrow> oidcClaims \<Rightarrow> User option" where
  "oidcLinkCandidate L s claims =
     (let by_login =
            (let login = TrimSpace (oc_PreferredUsername claims)
             in if login = [] then None
                else case db_GetUserByLogin s login of
                       Inl e \<Rightarrow> None
                     | Inr (u, h) \<Rightarrow>
                         if u_Email u \<noteq> [] \<and> oc_Email claims \<noteq> [] \<and> \<not> EqualFold L (u_Email u) (oc_Email claims)
                         then None else Some u)
      in if oc_Email claims \<noteq> [] \<and> \<not> emailUnverified claims
         then (case db_GetUserByEmail s (oc_Email claims) of Inr u \<Rightarrow> Some u | Inl e \<Rightarrow> by_login)
         else by_login)"

text \<open>Whether the candidate may be adopted.\<close>

definition adoptable :: "lib \<Rightarrow> oidcRuntime \<Rightarrow> oidcClaims \<Rightarrow> User \<Rightarrow> bool" where
  "adoptable L rt claims u =
     (let preprovisioned = u_AuthProvider u = ''oidc'' \<and> u_OIDCSubject u = [] \<and> u_OIDCIssuer u = rt_Issuer rt
      in u_Status u = UserActive \<and> u_OIDCSubject u = [] \<and> (u_AuthProvider u = ''local'' \<or> preprovisioned) \<and>
         \<not> (preprovisioned \<and> (emailUnverified claims \<or> u_Email u = [] \<or> \<not> EqualFold L (u_Email u) (oc_Email claims))))"

definition adopt :: "io \<Rightarrow> oidcRuntime \<Rightarrow> oidcClaims \<Rightarrow> User \<Rightarrow> User" where
  "adopt w rt claims u =
     u\<lparr>u_OIDCIssuer := rt_Issuer rt, u_OIDCSubject := oc_Subject claims,
       u_Email := (if u_Email u = [] then oc_Email claims else u_Email u),
       u_Role := (if oidcRole (oc_Groups claims) (rt_AdminGroup rt) = RoleAdmin then RoleAdmin else u_Role u),
       u_LastLoginAt := now w\<rparr>"

definition linkExistingLocalUser ::
  "lib \<Rightarrow> io \<Rightarrow> app \<Rightarrow> ctx \<Rightarrow> oidcRuntime \<Rightarrow> oidcClaims \<Rightarrow> User option \<times> app" where
  "linkExistingLocalUser L w a c rt claims =
     (case oidcLinkCandidate L (st a) claims of
        None \<Rightarrow> (None, a)
      | Some cand \<Rightarrow>
          if \<not> adoptable L rt claims cand then (None, a)
          else case db_UpdateUser (st a) (now w) (adopt w rt claims cand) of
                 Inl e \<Rightarrow> (None, a)
               | Inr (u, s') \<Rightarrow>
                   (Some u, app_audit (a\<lparr>st := s'\<rparr>) w (WithPrincipal c (principalFor u ''oidc'')) ''user_oidc_link''
                              (''user:'' @ u_ID u) ''ok'' (rt_Issuer rt @ link_arrow @ u_LoginID u)))"

text \<open>The user that is created for an identity nobody has.\<close>

definition new_login :: "lib \<Rightarrow> store \<Rightarrow> oidcClaims \<Rightarrow> string" where
  "new_login L s claims =
     (let l1 = TrimSpace (oc_PreferredUsername claims);
          l2 = (if l1 = [] then TrimSpace (oc_Email claims) else l1);
          l3 = (if l2 = [] then ''oidc-'' @ shortSubject L (oc_Subject claims) else l2)
      in case db_GetUserByLogin s l3 of
           Inr x \<Rightarrow> l3 @ ''-'' @ shortSubject L (oc_Subject claims)
         | Inl e \<Rightarrow> l3)"

definition sso_user :: "lib \<Rightarrow> io \<Rightarrow> store \<Rightarrow> oidcRuntime \<Rightarrow> oidcClaims \<Rightarrow> User" where
  "sso_user L w s rt claims =
     (let login = new_login L s claims
      in \<lparr>u_ID = new_id w ''usr'' 0, u_LoginID = login,
          u_DisplayName = (if oc_Name claims = [] then login else oc_Name claims), u_Email = oc_Email claims,
          u_Role = oidcRole (oc_Groups claims) (rt_AdminGroup rt), u_Status = UserActive, u_AuthProvider = ''oidc'',
          u_OIDCIssuer = rt_Issuer rt, u_OIDCSubject = oc_Subject claims, u_CreatedAt = 0, u_UpdatedAt = 0,
          u_LastLoginAt = now w\<rparr>)"

text \<open>Link or create; the last branch is the race that the unique index decides.\<close>

definition sso_enrol ::
  "lib \<Rightarrow> io \<Rightarrow> app \<Rightarrow> ctx \<Rightarrow> oidcRuntime \<Rightarrow> oidcClaims \<Rightarrow> string \<Rightarrow> (err + (User \<times> bool)) \<times> app" where
  "sso_enrol L w a c rt claims via =
     (case linkExistingLocalUser L w a c rt claims of
        (Some u, a1) \<Rightarrow> (Inr (u, True), a1)
      | (None, a1) \<Rightarrow>
          if \<not> rt_AutoProvision rt then (Inl errOIDCNoAccount, a1)
          else (case db_CreateUser (st a1) (now w) (sso_user L w (st a1) rt claims) [] of
                  Inr (u, s') \<Rightarrow>
                    (Inr (u, True), app_audit (a1\<lparr>st := s'\<rparr>) w (WithPrincipal c (principalFor u via)) ''user_provision''
                       (''user:'' @ u_ID u) ''ok''
                       (rt_Issuer rt @ (if via \<noteq> ''oidc'' then '' via '' @ via else [])))
                | Inl e \<Rightarrow>
                    (case db_GetUserByOIDC (st a1) (rt_Issuer rt) (oc_Subject claims) of
                       Inr x \<Rightarrow> if u_Status x = UserActive then (Inr (x, False), a1) else (Inl e, a1)
                     | Inl e' \<Rightarrow> (Inl e, a1))))"

definition resolveOIDCIdentity ::
  "lib \<Rightarrow> io \<Rightarrow> app \<Rightarrow> ctx \<Rightarrow> oidcRuntime \<Rightarrow> oidcClaims \<Rightarrow> string \<Rightarrow> (err + (User \<times> bool)) \<times> app" where
  "resolveOIDCIdentity L w a c rt claims via =
     (case db_GetUserByOIDC (st a) (rt_Issuer rt) (oc_Subject claims) of
        Inr u \<Rightarrow>
          if u_Status u = UserDeleted
          then (case db_UpdateUser (st a) (now w) (tombstoneUserIdentity u) of
                  Inl e \<Rightarrow> (Inl e, a)
                | Inr (u', s') \<Rightarrow> sso_enrol L w (a\<lparr>st := s'\<rparr>) c rt claims via)
          else if u_Status u \<noteq> UserActive then (Inl errOIDCUserDisabled, a)
          else (Inr (u, False), a)
      | Inl e \<Rightarrow> if e = ErrNotFound then sso_enrol L w a c rt claims via else (Inl e, a))"

section \<open>The organisation's mail account\<close>

text \<open>
  \<open>admin_mail_provision.go\<close>: the policy is a group of settings; whoever signs in gets an account of the server it
  names, under the address of the user and with the secret of the policy.
\<close>

definition oidc_mail_input :: "(string \<rightharpoonup> string) \<Rightarrow> string \<Rightarrow> CreateAccountInput" where
  "oidc_mail_input values email =
     \<lparr>ci_Name = email, ci_Email = email, ci_InboundProtocol = ''imap'',
      ci_POP3Host = setting_text values ''oidc.mail.imap_host'',
      ci_POP3Port = fst (Atoi (setting_text values ''oidc.mail.imap_port'')),
      ci_POP3Security = setting_text values ''oidc.mail.imap_security'', ci_POP3Username = email,
      ci_POP3SecretRef = setting_text values ''oidc.mail.inbound_secret_ref'',
      ci_SMTPHost = setting_text values ''oidc.mail.smtp_host'',
      ci_SMTPPort = fst (Atoi (setting_text values ''oidc.mail.smtp_port'')),
      ci_SMTPSecurity = setting_text values ''oidc.mail.smtp_security'', ci_SMTPUsername = email,
      ci_SMTPAuth = setting_text values ''oidc.mail.smtp_auth'',
      ci_SMTPSecretRef = setting_text values ''oidc.mail.smtp_secret_ref'',
      ci_InsecureSkipVerify = (setting_text values ''oidc.mail.insecure_skip_verify'' = ''true'')\<rparr>"

definition startInitialOIDCMailSync :: "io \<Rightarrow> ctx \<Rightarrow> MailAccount \<Rightarrow> sync_jobs \<Rightarrow> sync_jobs" where
  "startInitialOIDCMailSync w c acc J =
     (if a_Status acc \<noteq> AccountActive then J
      else case StartSync w c (a_ID acc) J of
             (Inl e, J') \<Rightarrow> J'\<lparr>sj_app := app_audit (sj_app J') w c ''oidc_initial_sync'' (''account:'' @ a_ID acc) ''error''
                                       (err_text e)\<rparr>
           | (Inr job, J') \<Rightarrow> J'\<lparr>sj_app := app_audit (sj_app J') w c ''oidc_initial_sync'' (''account:'' @ a_ID acc) ''ok'' []\<rparr>)"

definition autoProvisionOIDCMail :: "lib \<Rightarrow> io \<Rightarrow> ctx \<Rightarrow> User \<Rightarrow> sync_jobs \<Rightarrow> err option \<times> sync_jobs" where
  "autoProvisionOIDCMail L w c u J =
     (let a = sj_app J; values = system_settings (st a)
      in if values ''oidc.mail.enabled'' \<noteq> Some ''true'' then (None, J)
         else case normalizedProvisionEmail L (u_Email u) of
                Inl e \<Rightarrow> (Some e, J)
              | Inr email \<Rightarrow>
                  (let oc = WithPrincipal c (principalFor u ''oidc_auto_provision'')
                   in case find (\<lambda>x. EqualFold L (a_Email x) email \<and> a_Status x \<noteq> AccountDeleted) (ListAccounts a oc) of
                        Some x \<Rightarrow> (None, startInitialOIDCMailSync w oc x J)
                      | None \<Rightarrow>
                          (case CreateAccount L w a oc (oidc_mail_input values email) of
                             (Inl e, a1) \<Rightarrow> (Some e, J\<lparr>sj_app := a1\<rparr>)
                           | (Inr acc, a1) \<Rightarrow>
                               (let off = values ''oidc.mail.automatic_sync'' = Some ''false'';
                                    a2 = (if off then a1\<lparr>st := db_SetAccountStatus (st a1) (now w) (u_ID u) (a_ID acc) AccountDisabled\<rparr>
                                          else a1);
                                    acc2 = (if off then acc\<lparr>a_Status := AccountDisabled\<rparr> else acc);
                                    J3 = startInitialOIDCMailSync w oc acc2 (J\<lparr>sj_app := a2\<rparr>)
                                in (None, J3\<lparr>sj_app := app_audit (sj_app J3) w oc ''oidc_mail_auto_provision''
                                            (''account:'' @ a_ID acc2) ''ok'' (''email='' @ email)\<rparr>)))))"

text \<open>A failure never blocks the sign-in.\<close>

definition tryAutoProvisionOIDCMail :: "lib \<Rightarrow> io \<Rightarrow> ctx \<Rightarrow> User \<Rightarrow> sync_jobs \<Rightarrow> sync_jobs" where
  "tryAutoProvisionOIDCMail L w c u J =
     (case autoProvisionOIDCMail L w c u J of
        (None, J') \<Rightarrow> J'
      | (Some e, J') \<Rightarrow> J'\<lparr>sj_app := app_audit (sj_app J') w (WithPrincipal c (principalFor u ''oidc'')) ''oidc_mail_auto_provision''
                                  (''user:'' @ u_ID u) ''error'' (err_text e)\<rparr>)"

section \<open>The sign-in\<close>

record keycloakAccessClaims =
  ka_Type :: string
  ka_ClientID :: string
  ka_Scope :: string
  ka_Expires :: int
  ka_NotBefore :: int
  ka_Confirmation :: string

text \<open>A verified token: what the verifier reads, and the claims where they decode.\<close>

record id_token =
  it_Subject :: string
  it_Audience :: "string list"
  it_Nonce :: string
  it_Expiry :: int
  it_Claims :: "oidcClaims option"
  it_Access :: "keycloakAccessClaims option"

text \<open>
  The provider: why its discovery fails for an issuer, if it does; what the exchange of a code and a PKCE verifier
  gives, an error code or perhaps an ID token; and the verifier, which checks the signature, the issuer and the
  expiry of a token.  A verifier with a client id also wants it among the audiences.
\<close>

record idp =
  ip_discover :: "string \<Rightarrow> string option"
  ip_exchange :: "string \<Rightarrow> string \<Rightarrow> string + string option"
  ip_verify :: "string \<Rightarrow> string \<Rightarrow> id_token option"

definition verify_for :: "idp \<Rightarrow> string \<Rightarrow> string \<Rightarrow> string \<Rightarrow> id_token option" where
  "verify_for P issuer client raw =
     (case ip_verify P issuer raw of
        Some t \<Rightarrow> if client \<in> set (it_Audience t) then Some t else None | None \<Rightarrow> None)"

definition OIDCProviderErrorGuidance :: "string \<Rightarrow> string" where
  "OIDCProviderErrorGuidance code =
     (let guidance =
        (if code = ''invalid_client'' then guide_invalid_client
         else if code = ''invalid_grant'' then guide_invalid_grant
         else if code = ''invalid_request'' then guide_invalid_request
         else if code = ''invalid_scope'' then guide_invalid_scope
         else if code \<in> set [''unauthorized_client'', ''unsupported_grant_type'', ''unsupported_response_type''] then guide_grant_type
         else if code = ''access_denied'' then guide_access_denied
         else if code \<in> set [''login_required'', ''interaction_required'', ''consent_required'', ''account_selection_required'']
         then guide_interaction
         else if code \<in> set [''server_error'', ''temporarily_unavailable''] then guide_server_error else [])
      in if guidance \<noteq> [] then code @ '': '' @ guidance else guide_fallback)"

record OIDCFlow =
  fl_State :: string
  fl_Nonce :: string
  fl_CodeVerifier :: string
  fl_ExpiresAt :: int
  fl_Silent :: bool
  fl_ReturnTo :: string

definition OIDCLoginRequired :: "string \<Rightarrow> bool" where
  "OIDCLoginRequired code = (code \<in> set [''login_required'', ''interaction_required'', ''consent_required''])"

text \<open>\<open>local\<close> says whether \<open>url.Parse\<close> accepts the text as neither absolute nor with a host.\<close>

definition SafeReturnTo :: "(string \<Rightarrow> bool) \<Rightarrow> string \<Rightarrow> bool" where
  "SafeReturnTo local v =
     (HasPrefix v ''/'' \<and> \<not> HasPrefix v ''//'' \<and> \<not> HasPrefix v [CHR ''/'', CHR 0x5C] \<and>
      list_all (\<lambda>ch. ch \<noteq> CHR 0x0D \<and> ch \<noteq> CHR 0x0A) v \<and> local v)"

definition OIDCReturnToOrDefault :: "(string \<Rightarrow> bool) \<Rightarrow> string \<Rightarrow> string" where
  "OIDCReturnToOrDefault local v = (if SafeReturnTo local v then v else ''/app/'')"

text \<open>\<open>BeginOIDC\<close> up to the authorization URL, which a library builds from the flow.\<close>

definition BeginOIDC ::
  "(string \<Rightarrow> bool) \<Rightarrow> idp \<Rightarrow> AuthConfig \<Rightarrow> io \<Rightarrow> app \<Rightarrow> string \<Rightarrow> bool \<Rightarrow> string \<Rightarrow> err + (oidcRuntime \<times> OIDCFlow)" where
  "BeginOIDC local P A w a verifier silent returnTo =
     (case oidc_runtime A w a of
        Inl e \<Rightarrow> Inl e
      | Inr rt \<Rightarrow>
          if \<not> oidc_configured rt then Inl (UserError ''OIDC is not fully configured'')
          else (case ip_discover P (rt_Issuer rt) of
                  Some d \<Rightarrow> Inl (UserError (msg_discovery_failed @ d))
                | None \<Rightarrow>
                    Inr (rt, \<lparr>fl_State = token w 0 24, fl_Nonce = token w 1 24, fl_CodeVerifier = verifier,
                             fl_ExpiresAt = now w + 600, fl_Silent = (silent \<and> rt_AutoLogin rt),
                             fl_ReturnTo = OIDCReturnToOrDefault local returnTo\<rparr>)))"

definition CompleteOIDC ::
  "lib \<Rightarrow> idp \<Rightarrow> AuthConfig \<Rightarrow> io \<Rightarrow> ctx \<Rightarrow> string \<Rightarrow> OIDCFlow \<Rightarrow> sync_jobs \<Rightarrow> (err + User) \<times> sync_jobs" where
  "CompleteOIDC L P A w c code flow J =
     (let a = sj_app J
      in case oidc_runtime A w a of
           Inl e \<Rightarrow> (Inl e, J)
         | Inr rt \<Rightarrow>
             (case ip_discover P (rt_Issuer rt) of
                Some d \<Rightarrow> (Inl (UserError (msg_discovery_failed @ d)), J)
              | None \<Rightarrow>
                  (case ip_exchange P code (fl_CodeVerifier flow) of
                     Inl errcode \<Rightarrow> (Inl (UserError (msg_exchange_failed @ OIDCProviderErrorGuidance errcode)), J)
                   | Inr None \<Rightarrow> (Inl (UserError ''OIDC provider returned no ID token''), J)
                   | Inr (Some raw) \<Rightarrow>
                       (case verify_for P (rt_Issuer rt) (rt_ClientID rt) raw of
                          None \<Rightarrow> (Inl (UserError msg_id_token_failed), J)
                        | Some t \<Rightarrow>
                            (case it_Claims t of
                               None \<Rightarrow> (Inl (UserError ''OIDC ID token has invalid claims''), J)
                             | Some claims \<Rightarrow>
                                 if oc_Subject claims = [] then (Inl (UserError ''OIDC ID token has invalid claims''), J)
                                 else if it_Nonce t \<noteq> fl_Nonce flow then (Inl (UserError ''OIDC nonce mismatch''), J)
                                 else (case resolveOIDCIdentity L w a c rt claims ''oidc'' of
                                         (Inl e, a1) \<Rightarrow> (Inl e, J\<lparr>sj_app := a1\<rparr>)
                                       | (Inr (u0, first), a1) \<Rightarrow>
                                           (let (u, a2) = (if first then (u0, a1)
                                                  else case db_UpdateUser (st a1) (now w) (u0\<lparr>u_LastLoginAt := now w\<rparr>) of
                                                         Inl e \<Rightarrow> (u0\<lparr>u_LastLoginAt := now w\<rparr>, a1)
                                                       | Inr (u1, s') \<Rightarrow> (u1, a1\<lparr>st := s'\<rparr>));
                                                J2 = J\<lparr>sj_app := a2\<rparr>
                                            in (Inr u, if TrimSpace (oc_Email claims) = [] then J2
                                                       else tryAutoProvisionOIDCMail L w c u J2))))))))"

section \<open>Signed cookies\<close>

text \<open>
  The state key of the process: the HMAC under it, and the JSON texts of a flow and of an error note (a message and
  its time of expiry).
\<close>

record signer =
  sg_mac :: "string \<Rightarrow> string"
  sg_flow :: "OIDCFlow \<Rightarrow> string"
  sg_unflow :: "string \<Rightarrow> OIDCFlow option"
  sg_note :: "string \<Rightarrow> int \<Rightarrow> string"
  sg_unnote :: "string \<Rightarrow> (string \<times> int) option"

definition oidcErrorDomain :: string where "oidcErrorDomain = ''oidc-error:''"

definition signed :: "signer \<Rightarrow> string \<Rightarrow> string \<Rightarrow> string" where
  "signed S scope payload = b64_encode b64_url payload @ ''.'' @ b64_encode b64_url (sg_mac S (scope @ payload))"

definition verifyOIDCSigned :: "signer \<Rightarrow> string \<Rightarrow> string \<Rightarrow> string option" where
  "verifyOIDCSigned S scope v =
     (case split_on (CHR ''.'') v of
        [x, y] \<Rightarrow>
          (case b64_decode b64_url x of
             None \<Rightarrow> None
           | Some payload \<Rightarrow>
               (case b64_decode b64_url y of
                  None \<Rightarrow> None
                | Some sig \<Rightarrow> if sig = sg_mac S (scope @ payload) then Some payload else None))
      | _ \<Rightarrow> None)"

definition SignOIDCFlow :: "signer \<Rightarrow> OIDCFlow \<Rightarrow> string" where
  "SignOIDCFlow S flow = signed S [] (sg_flow S flow)"

definition VerifyOIDCFlow :: "signer \<Rightarrow> io \<Rightarrow> string \<Rightarrow> err + OIDCFlow" where
  "VerifyOIDCFlow S w v =
     (case verifyOIDCSigned S [] v of
        None \<Rightarrow> Inl (UserError ''invalid OIDC login state'')
      | Some payload \<Rightarrow>
          (case sg_unflow S payload of
             None \<Rightarrow> Inl (UserError ''expired or invalid OIDC login state'')
           | Some flow \<Rightarrow> if now w > fl_ExpiresAt flow then Inl (UserError ''expired or invalid OIDC login state'')
                          else Inr flow))"

text \<open>A long reason is cut before the rune that does not fit.\<close>

definition rune_start :: "char \<Rightarrow> bool" where
  "rune_start ch = (byte ch < 128 \<or> 192 \<le> byte ch)"

fun cut_rune :: "string \<Rightarrow> nat \<Rightarrow> nat" where
  "cut_rune m 0 = 0"
| "cut_rune m (Suc n) = (if rune_start (m ! Suc n) then Suc n else cut_rune m n)"

definition SignOIDCError :: "signer \<Rightarrow> io \<Rightarrow> string \<Rightarrow> string" where
  "SignOIDCError S w message =
     (let m = (if length message > 1024 then take (cut_rune message 1024) message @ utf8 [0xE2, 0x80, 0xA6] else message)
      in signed S oidcErrorDomain (sg_note S m (now w + 60)))"

definition VerifyOIDCError :: "signer \<Rightarrow> io \<Rightarrow> string \<Rightarrow> string option" where
  "VerifyOIDCError S w v =
     (case verifyOIDCSigned S oidcErrorDomain v of
        None \<Rightarrow> None
      | Some payload \<Rightarrow>
          (case sg_unnote S payload of
             None \<Rightarrow> None
           | Some (m, e) \<Rightarrow> if m = [] \<or> now w > e then None else Some m))"

section \<open>The callback\<close>

text \<open>
  \<open>authOIDCCallback\<close> of \<open>src/internal/transport/httpapi/auth_routes.go\<close>: the flow cookie and the query of the
  request, and what becomes of it, where authentication is enabled at all; the redirect itself is left out.
\<close>

datatype callback_result =
    NoRoute
  | LoggedIn User string string
  | NoSession
  | SignInFailed

definition authOIDCCallback ::
  "bool \<Rightarrow> lib \<Rightarrow> idp \<Rightarrow> AuthConfig \<Rightarrow> signer \<Rightarrow> io \<Rightarrow> ctx \<Rightarrow> string option \<Rightarrow> string \<Rightarrow> string \<Rightarrow> string \<Rightarrow> string \<Rightarrow> string
     \<Rightarrow> sync_jobs \<Rightarrow> callback_result \<times> sync_jobs" where
  "authOIDCCallback enabled L P A S w c cookie state errcode code userAgent ip J =
     (if \<not> enabled then (NoRoute, J) else
      case cookie of
        None \<Rightarrow> (SignInFailed, J)
      | Some ck \<Rightarrow>
          (case VerifyOIDCFlow S w ck of
             Inl e \<Rightarrow> (SignInFailed, J)
           | Inr flow \<Rightarrow>
               if fl_State flow \<noteq> state then (SignInFailed, J)
               else if errcode \<noteq> []
               then (if fl_Silent flow \<and> OIDCLoginRequired errcode then NoSession else SignInFailed, J)
               else (case CompleteOIDC L P A w (WithActor c ''oidc'') code flow J of
                       (Inl e, J1) \<Rightarrow> (SignInFailed, J1)
                     | (Inr u, J1) \<Rightarrow>
                         (case CreateSession L w (sj_app J1) u userAgent ip of
                            (Inl e, a2) \<Rightarrow> (SignInFailed, J1\<lparr>sj_app := a2\<rparr>)
                          | (Inr (raw, csrf, ss), a2) \<Rightarrow> (LoggedIn u raw csrf, J1\<lparr>sj_app := a2\<rparr>)))))"

section \<open>Rows of users\<close>

text \<open>No two users share an identity; the unique index of the table says so.\<close>

definition same_identity :: "User \<Rightarrow> User \<Rightarrow> bool" where
  "same_identity x y \<longleftrightarrow> u_OIDCSubject x \<noteq> [] \<and> u_OIDCIssuer x = u_OIDCIssuer y \<and> u_OIDCSubject x = u_OIDCSubject y"

definition identities_unique :: "store \<Rightarrow> bool" where
  "identities_unique s \<longleftrightarrow> (\<forall>r \<in> set (users s). \<forall>r' \<in> set (users s). same_identity (fst r) (fst r') \<longrightarrow>
     u_ID (fst r) = u_ID (fst r'))"

lemma same_identity_sym: "same_identity x y \<Longrightarrow> same_identity y x"
  by (auto simp: same_identity_def)

lemma identities_change:
  assumes "identities_unique s" "\<And>x. x \<in> set (users s') \<Longrightarrow> fst x = u \<or> x \<in> set (users s)"
    and "\<And>r. r \<in> set (users s) \<Longrightarrow> same_identity (fst r) u \<Longrightarrow> u_ID (fst r) = u_ID u"
  shows "identities_unique s'"
  unfolding identities_unique_def
proof (intro ballI impI)
  fix r r' assume r: "r \<in> set (users s')" "r' \<in> set (users s')" and same: "same_identity (fst r) (fst r')"
  note same' = same_identity_sym [OF same]
  consider "fst r = u" "fst r' = u" | "fst r = u" "r' \<in> set (users s)" | "r \<in> set (users s)" "fst r' = u"
    | "r \<in> set (users s)" "r' \<in> set (users s)" using assms(2) r by blast
  then show "u_ID (fst r) = u_ID (fst r')"
  proof cases
    case 2
    then show ?thesis using assms(3) [of r'] same' by simp
  next
    case 3
    then show ?thesis using assms(3) [of r] same by simp
  next
    case 4
    then show ?thesis using assms(1) same unfolding identities_unique_def by blast
  qed simp
qed

definition users_wf :: "store \<Rightarrow> bool" where
  "users_wf s \<longleftrightarrow> users_inv s \<and> identities_unique s"

lemma users_wf_cong: "users s' = users s \<Longrightarrow> users_wf s' = users_wf s"
  by (simp add: users_wf_def users_inv_def identities_unique_def)

lemma GetUser_row:
  assumes "users_inv s" "r \<in> set (users s)"
  shows "db_GetUser s (u_ID (fst r)) = Inr (fst r)"
proof -
  have d: "distinct (map (u_ID \<circ> fst) (users s))" using assms(1) by (simp only: users_inv_def)
  show ?thesis using find_unique_key [OF d assms(2)] by (simp add: db_GetUser_def)
qed

lemma clash_None:
  assumes "user_clash s u = None" "r \<in> set (users s)" "same_identity (fst r) u"
  shows "u_ID (fst r) = u_ID u"
  using assms by (auto simp: user_clash_def same_identity_def no_row_iff split: if_splits)

lemma UpdateUser_Inr:
  assumes "users_wf s" "r0 \<in> set (users s)" "u_ID u0 = u_ID (fst r0)" "u_CreatedAt u0 = u_CreatedAt (fst r0)"
    and "db_UpdateUser s ts u0 = Inr (u, s')"
  shows "u = u0\<lparr>u_UpdatedAt := ts\<rparr>" "users s' = upd_where (\<lambda>r. u_ID (fst r) = u_ID u) (\<lambda>r. (u, snd r)) (users s)"
    "users_wf s'" "system_settings s' = system_settings s" "accounts s' = accounts s"
proof -
  show u: "u = u0\<lparr>u_UpdatedAt := ts\<rparr>" and "system_settings s' = system_settings s" "accounts s' = accounts s"
    using assms(5) by (auto simp: db_UpdateUser_def Let_def split: if_splits option.splits)
  have raw: "users s' = upd_where (\<lambda>r. u_ID (fst r) = u_ID u) (\<lambda>r. (u\<lparr>u_CreatedAt := u_CreatedAt (fst r)\<rparr>, snd r)) (users s)"
    and c: "user_clash s u = None"
    using assms(5) by (auto simp: db_UpdateUser_def Let_def split: if_splits option.splits)
  have one: "fst r = fst r0" if "r \<in> set (users s)" "u_ID (fst r) = u_ID u" for r
  proof -
    have "u_ID (fst r) = u_ID (fst r0)" using that(2) u assms(3) by simp
    then have "r = r0" using assms(1,2) that(1) unique_key_eq [of "u_ID \<circ> fst" "users s" r r0]
      by (simp add: users_wf_def users_inv_def)
    then show ?thesis by simp
  qed
  have same: "u\<lparr>u_CreatedAt := u_CreatedAt (fst r)\<rparr> = u" if "r \<in> set (users s)" "u_ID (fst r) = u_ID u" for r
    using one [OF that] u assms(4) by simp
  show us: "users s' = upd_where (\<lambda>r. u_ID (fst r) = u_ID u) (\<lambda>r. (u, snd r)) (users s)"
    unfolding raw upd_where_def using same by (intro map_cong) auto
  have "map (u_ID \<circ> fst) (users s') = map (u_ID \<circ> fst) (users s)"
    unfolding us upd_where_def by (simp add: comp_def)
  then have "users_inv s'" using assms(1) by (simp add: users_wf_def users_inv_def)
  moreover have "identities_unique s'"
  proof (rule identities_change [of s _ u])
    show "identities_unique s" using assms(1) by (simp add: users_wf_def)
    show "fst x = u \<or> x \<in> set (users s)" if "x \<in> set (users s')" for x
      using that unfolding us by (auto elim: in_upd_whereE)
  qed (rule clash_None [OF c])
  ultimately show "users_wf s'" by (simp add: users_wf_def)
qed

lemma CreateUser_Inr:
  assumes "users_wf s" "db_CreateUser s ts u0 h = Inr (u, s')"
  shows "u = u0\<lparr>u_CreatedAt := ts, u_UpdatedAt := ts\<rparr>" "users s' = users s @ [(u, h)]" "users_wf s'"
    "u_ID u \<notin> (u_ID \<circ> fst) ` set (users s)" "system_settings s' = system_settings s" "accounts s' = accounts s"
proof -
  show u: "u = u0\<lparr>u_CreatedAt := ts, u_UpdatedAt := ts\<rparr>" and us: "users s' = users s @ [(u, h)]"
    and new: "u_ID u \<notin> (u_ID \<circ> fst) ` set (users s)" and "system_settings s' = system_settings s"
    and "accounts s' = accounts s"
    using assms(2) by (auto simp: db_CreateUser_def Let_def no_row_iff split: if_splits option.splits)
  have c: "user_clash s u = None"
    using assms(2) u by (auto simp: db_CreateUser_def Let_def split: if_splits option.splits)
  have "identities_unique s'"
    by (rule identities_change [of s _ u, OF _ _ clash_None [OF c]]) (use assms(1) us in \<open>auto simp: users_wf_def\<close>)
  then show "users_wf s'" using assms(1) us new by (simp add: users_wf_def users_inv_def)
qed

section \<open>Who an identity becomes\<close>

text \<open>The people an identity may stand for: the user already bound to it, or one that nobody is bound to yet and that it names.\<close>

definition bound :: "oidcRuntime \<Rightarrow> oidcClaims \<Rightarrow> User \<Rightarrow> bool" where
  "bound rt claims x \<longleftrightarrow> u_OIDCIssuer x = rt_Issuer rt \<and> u_OIDCSubject x = oc_Subject claims"

definition named_by_email :: "oidcClaims \<Rightarrow> User \<Rightarrow> bool" where
  "named_by_email claims x \<longleftrightarrow> \<not> emailUnverified claims \<and> u_Email x \<noteq> [] \<and>
     sql_lower (u_Email x) = sql_lower (TrimSpace (oc_Email claims))"

definition named_by_login :: "lib \<Rightarrow> oidcClaims \<Rightarrow> User \<Rightarrow> bool" where
  "named_by_login L claims x \<longleftrightarrow> TrimSpace (oc_PreferredUsername claims) \<noteq> [] \<and>
     sql_lower (u_LoginID x) = sql_lower (TrimSpace (oc_PreferredUsername claims)) \<and>
     (u_Email x = [] \<or> oc_Email claims = [] \<or> EqualFold L (u_Email x) (oc_Email claims))"

definition free_and_named :: "lib \<Rightarrow> oidcRuntime \<Rightarrow> oidcClaims \<Rightarrow> User \<Rightarrow> bool" where
  "free_and_named L rt claims x \<longleftrightarrow> u_OIDCSubject x = [] \<and> u_Status x = UserActive \<and>
     (named_by_email claims x \<or> named_by_login L claims x) \<and>
     (u_AuthProvider x = ''local'' \<or>
      u_AuthProvider x = ''oidc'' \<and> u_OIDCIssuer x = rt_Issuer rt \<and> \<not> emailUnverified claims \<and> u_Email x \<noteq> [] \<and>
        EqualFold L (u_Email x) (oc_Email claims))"

lemma find_user_row: "find P (users s) = Some r \<Longrightarrow> r \<in> set (users s) \<and> P r"
  by (metis find_SomeD)

lemma GetUserByEmail_row:
  assumes "db_GetUserByEmail s e = Inr u"
  shows "\<exists>h. (u, h) \<in> set (users s) \<and> u_Email u \<noteq> [] \<and> sql_lower (u_Email u) = sql_lower (TrimSpace e) \<and> u_Status u = UserActive"
proof -
  let ?rows = "filter (\<lambda>r. sql_lower (u_Email (fst r)) = sql_lower (TrimSpace e) \<and> u_Email (fst r) \<noteq> [] \<and>
                     u_Status (fst r) = UserActive) (users s)"
  obtain r where r: "take 2 ?rows = [r]" "u = fst r"
    using assms by (auto simp: db_GetUserByEmail_def Let_def split: if_splits list.splits)
  have "r \<in> set ?rows" by (rule in_set_takeD [of r 2]) (simp only: r(1) list.set insertI1)
  then have "r \<in> set (users s) \<and> sql_lower (u_Email (fst r)) = sql_lower (TrimSpace e) \<and> u_Email (fst r) \<noteq> [] \<and>
      u_Status (fst r) = UserActive" by simp
  then show ?thesis by (intro exI [of _ "snd r"]) (simp add: r(2))
qed

lemma GetUserByLogin_row:
  "db_GetUserByLogin s l = Inr (u, h) \<Longrightarrow> (u, h) \<in> set (users s) \<and> sql_lower (u_LoginID u) = sql_lower l"
  by (auto simp: db_GetUserByLogin_def split: option.splits dest!: find_user_row)

lemma GetUserByOIDC_row:
  "db_GetUserByOIDC s i x = Inr u \<Longrightarrow> \<exists>h. (u, h) \<in> set (users s) \<and> u_OIDCIssuer u = i \<and> u_OIDCSubject u = x"
  by (auto simp: db_GetUserByOIDC_def split: option.splits dest!: find_user_row)

lemma link_candidate_named:
  assumes "oidcLinkCandidate L s claims = Some u"
  shows "\<exists>h. (u, h) \<in> set (users s) \<and> (named_by_email claims u \<or> named_by_login L claims u)"
proof (cases "oc_Email claims \<noteq> [] \<and> \<not> emailUnverified claims \<and> db_GetUserByEmail s (oc_Email claims) = Inr u")
  case True
  then show ?thesis using GetUserByEmail_row [of s "oc_Email claims" u] by (auto simp: named_by_email_def)
next
  case False
  then obtain h where g: "db_GetUserByLogin s (TrimSpace (oc_PreferredUsername claims)) = Inr (u, h)"
      "TrimSpace (oc_PreferredUsername claims) \<noteq> []"
      "\<not> (u_Email u \<noteq> [] \<and> oc_Email claims \<noteq> [] \<and> \<not> EqualFold L (u_Email u) (oc_Email claims))"
    using assms by (auto simp: oidcLinkCandidate_def Let_def split: if_splits sum.splits)
  then show ?thesis using GetUserByLogin_row [OF g(1)] by (auto simp: named_by_login_def)
qed

text \<open>What a change of the table keeps for everybody but one user.\<close>

definition others_kept :: "string \<Rightarrow> store \<Rightarrow> store \<Rightarrow> bool" where
  "others_kept uid s s' \<longleftrightarrow> filter (\<lambda>r. u_ID (fst r) \<noteq> uid) (users s') = filter (\<lambda>r. u_ID (fst r) \<noteq> uid) (users s)"

lemma others_kept_upd:
  "users s' = upd_where (\<lambda>r. u_ID (fst r) = u_ID u) (\<lambda>r. (u, snd r)) (users s) \<Longrightarrow> others_kept (u_ID u) s s'"
proof -
  have "filter (\<lambda>r. u_ID (fst r) \<noteq> u_ID u) (upd_where (\<lambda>r. u_ID (fst r) = u_ID u) (\<lambda>r. (u, snd r)) rows) =
      filter (\<lambda>r. u_ID (fst r) \<noteq> u_ID u) rows" for rows
    by (induction rows) auto
  then show "users s' = upd_where (\<lambda>r. u_ID (fst r) = u_ID u) (\<lambda>r. (u, snd r)) (users s) \<Longrightarrow> others_kept (u_ID u) s s'"
    by (simp add: others_kept_def)
qed

text \<open>The outcome of linking or creating.\<close>

definition enrolled :: "lib \<Rightarrow> oidcRuntime \<Rightarrow> oidcClaims \<Rightarrow> store \<Rightarrow> User \<Rightarrow> store \<Rightarrow> bool" where
  "enrolled L rt claims s u s' \<longleftrightarrow> users_wf s' \<and> others_kept (u_ID u) s s' \<and>
     bound rt claims u \<and> u_Status u = UserActive \<and> db_GetUser s' (u_ID u) = Inr u \<and>
     (\<forall>(x, h) \<in> set (users s). u_ID x = u_ID u \<longrightarrow> bound rt claims x \<or> free_and_named L rt claims x) \<and>
     (u_Role u = RoleAdmin \<longrightarrow> oidcRole (oc_Groups claims) (rt_AdminGroup rt) = RoleAdmin \<or>
        (\<exists>(x, h) \<in> set (users s). u_ID x = u_ID u \<and> u_Role x = RoleAdmin))"

lemma row_unique:
  assumes "users_wf s" "(x, h) \<in> set (users s)" "(y, k) \<in> set (users s)" "u_ID x = u_ID y"
  shows "x = y"
proof -
  have "distinct (map (u_ID \<circ> fst) (users s))" using assms(1) by (simp add: users_wf_def users_inv_def)
  from unique_key_eq [OF this assms(2,3)] assms(4) show ?thesis by simp
qed

lemma link_Some:
  assumes "users_wf (st a)" "linkExistingLocalUser L w a c rt claims = (Some u, a')"
  shows "enrolled L rt claims (st a) u (st a')"
proof -
  obtain cand where cand: "oidcLinkCandidate L (st a) claims = Some cand" "adoptable L rt claims cand"
    using assms(2) by (auto simp: linkExistingLocalUser_def split: option.splits if_splits)
  obtain s' where up: "db_UpdateUser (st a) (now w) (adopt w rt claims cand) = Inr (u, s')" "users (st a') = users s'"
    using assms(2) cand by (auto simp: linkExistingLocalUser_def split: sum.splits)
  from link_candidate_named [OF cand(1)] obtain h where
    row: "(cand, h) \<in> set (users (st a))" and named: "named_by_email claims cand \<or> named_by_login L claims cand" by blast
  have row1: "u_ID (adopt w rt claims cand) = u_ID (fst (cand, h))"
    "u_CreatedAt (adopt w rt claims cand) = u_CreatedAt (fst (cand, h))" by (simp_all add: adopt_def)
  note ui = UpdateUser_Inr [OF assms(1) row row1 up(1)]
  have u: "u_ID u = u_ID cand" "bound rt claims u" "u_Status u = UserActive"
      "u_Role u = (if oidcRole (oc_Groups claims) (rt_AdminGroup rt) = RoleAdmin then RoleAdmin else u_Role cand)"
    using cand(2) by (simp_all add: ui(1) adopt_def bound_def adoptable_def Let_def)
  have "users_wf (st a')" using ui(3) users_wf_cong [of "st a'" s'] up(2) by simp
  moreover have "others_kept (u_ID u) (st a) (st a')" using others_kept_upd [of "st a'" u "st a"] ui(2) up(2) by simp
  moreover have "(u, h) \<in> set (users (st a'))" using row u(1) unfolding up(2) ui(2) set_upd_where by force
  then have "db_GetUser (st a') (u_ID u) = Inr u"
    using GetUser_row [of "st a'" "(u, h)"] \<open>users_wf (st a')\<close> by (simp add: users_wf_def)
  moreover have "free_and_named L rt claims cand"
    using cand(2) named by (auto simp: adoptable_def free_and_named_def Let_def)
  then have "\<forall>(x, k) \<in> set (users (st a)). u_ID x = u_ID u \<longrightarrow> bound rt claims x \<or> free_and_named L rt claims x"
    using row_unique [OF assms(1) _ row] u(1) by fastforce
  moreover have "\<exists>(x, k) \<in> set (users (st a)). u_ID x = u_ID u \<and> u_Role x = RoleAdmin" if "u_Role cand = RoleAdmin"
    using row u(1) that by (intro bexI [of _ "(cand, h)"]) simp_all
  ultimately show ?thesis using u by (auto simp: enrolled_def split: if_splits)
qed

lemma link_None: "linkExistingLocalUser L w a c rt claims = (None, a') \<Longrightarrow> a' = a"
  by (auto simp: linkExistingLocalUser_def split: option.splits if_splits sum.splits)

lemma create_enrols:
  assumes "users_wf (st a)" "db_CreateUser (st a) (now w) (sso_user L w (st a) rt claims) [] = Inr (u, s')"
  shows "enrolled L rt claims (st a) u s'"
proof -
  note cr = CreateUser_Inr [OF assms]
  have "(u, []) \<in> set (users s')" using cr(2) by simp
  then have "db_GetUser s' (u_ID u) = Inr u" using GetUser_row [of s' "(u, [])"] cr(3) by (simp add: users_wf_def)
  moreover have new: "u_ID x \<noteq> u_ID u" if "(x, h) \<in> set (users (st a))" for x h
    using cr(4) that by (force simp: image_iff)
  moreover have "others_kept (u_ID u) (st a) s'" using cr(2) by (simp add: others_kept_def)
  moreover have "bound rt claims u" "u_Status u = UserActive" "u_Role u = oidcRole (oc_Groups claims) (rt_AdminGroup rt)"
    by (simp_all add: cr(1) sso_user_def Let_def bound_def)
  ultimately show ?thesis using cr(3) by (auto simp: enrolled_def)
qed

text \<open>What an answer means in the table before and after: the user bound already, or one newly bound.\<close>

definition resolved :: "lib \<Rightarrow> oidcRuntime \<Rightarrow> oidcClaims \<Rightarrow> store \<Rightarrow> User \<Rightarrow> store \<Rightarrow> bool" where
  "resolved L rt claims s u s' \<longleftrightarrow>
     u_Status u = UserActive \<and> bound rt claims u \<and> users_wf s' \<and>
     (enrolled L rt claims s u s' \<or> users s' = users s \<and> db_GetUser s (u_ID u) = Inr u)"

lemma enrol_resolved:
  assumes "users_wf (st a)" "sso_enrol L w a c rt claims via = (Inr (u, first), a')"
  shows "resolved L rt claims (st a) u (st a')"
proof -
  obtain r a1 where ln: "linkExistingLocalUser L w a c rt claims = (r, a1)" by fastforce
  show ?thesis
  proof (cases r)
    case (Some v)
    then show ?thesis using assms(2) ln link_Some [OF assms(1), of L w c rt claims v a1]
      by (auto simp: sso_enrol_def resolved_def enrolled_def)
  next
    case None
    then have a1: "a1 = a" using ln link_None by blast
    have auto: "rt_AutoProvision rt" using assms(2) ln None by (auto simp: sso_enrol_def split: if_splits)
    show ?thesis
    proof (cases "db_CreateUser (st a) (now w) (sso_user L w (st a) rt claims) []")
      case (Inl e)
      then have g: "db_GetUserByOIDC (st a) (rt_Issuer rt) (oc_Subject claims) = Inr u" "u_Status u = UserActive" "a' = a"
        using assms(2) ln None a1 auto by (auto simp: sso_enrol_def split: sum.splits if_splits)
      from GetUserByOIDC_row [OF g(1)] obtain h where h: "(u, h) \<in> set (users (st a))" "bound rt claims u"
        by (auto simp: bound_def)
      have "db_GetUser (st a) (u_ID u) = Inr u" using GetUser_row [of "st a" "(u, h)"] h(1) assms(1) by (simp add: users_wf_def)
      then show ?thesis using g h assms(1) by (simp add: resolved_def)
    next
      case (Inr p)
      obtain v s' where p: "p = (v, s')" by fastforce
      have e: "enrolled L rt claims (st a) v s'" using create_enrols [OF assms(1)] Inr p by blast
      have "u = v" "users (st a') = users s'"
        using assms(2) ln None a1 auto Inr p by (auto simp: sso_enrol_def)
      then show ?thesis using e users_wf_cong [of "st a'" s'] by (simp add: resolved_def enrolled_def others_kept_def db_GetUser_def)
    qed
  qed
qed

lemma resolved_facts:
  assumes "users_wf s" "resolved L rt claims s u s'"
  shows "db_GetUser s' (u_ID u) = Inr u"
    "(x, h) \<in> set (users s) \<Longrightarrow> u_ID x = u_ID u \<Longrightarrow> bound rt claims x \<or> free_and_named L rt claims x"
    "(x, h) \<in> set (users s) \<Longrightarrow> u_ID x \<noteq> u_ID u \<Longrightarrow> (x, h) \<in> set (users s')"
    "u_Role u = RoleAdmin \<Longrightarrow> oidcRole (oc_Groups claims) (rt_AdminGroup rt) \<noteq> RoleAdmin \<Longrightarrow>
       \<exists>y k. (y, k) \<in> set (users s) \<and> u_ID y = u_ID u \<and> u_Role y = RoleAdmin"
proof -
  have "db_GetUser s' (u_ID u) = Inr u \<and>
    ((x, h) \<in> set (users s) \<longrightarrow> u_ID x = u_ID u \<longrightarrow> bound rt claims x \<or> free_and_named L rt claims x) \<and>
    ((x, h) \<in> set (users s) \<longrightarrow> u_ID x \<noteq> u_ID u \<longrightarrow> (x, h) \<in> set (users s')) \<and>
    (u_Role u = RoleAdmin \<longrightarrow> oidcRole (oc_Groups claims) (rt_AdminGroup rt) \<noteq> RoleAdmin \<longrightarrow>
       (\<exists>y k. (y, k) \<in> set (users s) \<and> u_ID y = u_ID u \<and> u_Role y = RoleAdmin))"
  proof (cases "enrolled L rt claims s u s'")
    case True
    then have k: "filter (\<lambda>r. u_ID (fst r) \<noteq> u_ID u) (users s') = filter (\<lambda>r. u_ID (fst r) \<noteq> u_ID u) (users s)"
      by (simp add: enrolled_def others_kept_def)
    have "(x, h) \<in> set (users s')" if "(x, h) \<in> set (users s)" "u_ID x \<noteq> u_ID u"
    proof -
      have "(x, h) \<in> set (filter (\<lambda>r. u_ID (fst r) \<noteq> u_ID u) (users s))" using that by simp
      then show ?thesis unfolding k [symmetric] by simp
    qed
    then show ?thesis using True by (auto simp: enrolled_def)
  next
    case False
    then have g: "users s' = users s" "db_GetUser s (u_ID u) = Inr u" "bound rt claims u"
      using assms(2) by (auto simp: resolved_def)
    then obtain k where k: "(u, k) \<in> set (users s)"
      by (auto simp: db_GetUser_def split: option.splits dest!: find_user_row)
    have "db_GetUser s' (u_ID u) = Inr u" using g by (simp add: db_GetUser_def)
    then show ?thesis using g k row_unique [OF assms(1) _ k, of x h] by auto
  qed
  then show "db_GetUser s' (u_ID u) = Inr u"
    "(x, h) \<in> set (users s) \<Longrightarrow> u_ID x = u_ID u \<Longrightarrow> bound rt claims x \<or> free_and_named L rt claims x"
    "(x, h) \<in> set (users s) \<Longrightarrow> u_ID x \<noteq> u_ID u \<Longrightarrow> (x, h) \<in> set (users s')"
    "u_Role u = RoleAdmin \<Longrightarrow> oidcRole (oc_Groups claims) (rt_AdminGroup rt) \<noteq> RoleAdmin \<Longrightarrow>
       \<exists>y k. (y, k) \<in> set (users s) \<and> u_ID y = u_ID u \<and> u_Role y = RoleAdmin"
    by blast+
qed

text \<open>The answer for an identity, over the three ways it is found.\<close>

definition sso_sound :: "lib \<Rightarrow> oidcRuntime \<Rightarrow> oidcClaims \<Rightarrow> store \<Rightarrow> User \<Rightarrow> store \<Rightarrow> bool" where
  "sso_sound L rt claims s u s' \<longleftrightarrow>
     u_Status u = UserActive \<and> bound rt claims u \<and> users_wf s' \<and> db_GetUser s' (u_ID u) = Inr u \<and>
     list_all (\<lambda>(x, h). if u_ID x = u_ID u then bound rt claims x \<or> free_and_named L rt claims x
                        else (x, h) \<in> set (users s') \<or> u_Status x = UserDeleted \<and> bound rt claims x) (users s) \<and>
     (u_Role u \<noteq> RoleAdmin \<or> oidcRole (oc_Groups claims) (rt_AdminGroup rt) = RoleAdmin \<or>
        list_ex (\<lambda>(x, h). u_ID x = u_ID u \<and> u_Role x = RoleAdmin) (users s))"

lemma sso_soundI:
  assumes "u_Status u = UserActive" "bound rt claims u" "users_wf s'" "db_GetUser s' (u_ID u) = Inr u"
    and "\<And>x h. (x, h) \<in> set (users s) \<Longrightarrow>
           if u_ID x = u_ID u then bound rt claims x \<or> free_and_named L rt claims x
           else (x, h) \<in> set (users s') \<or> u_Status x = UserDeleted \<and> bound rt claims x"
    and "u_Role u = RoleAdmin \<Longrightarrow> oidcRole (oc_Groups claims) (rt_AdminGroup rt) \<noteq> RoleAdmin \<Longrightarrow>
           \<exists>y k. (y, k) \<in> set (users s) \<and> u_ID y = u_ID u \<and> u_Role y = RoleAdmin"
  shows "sso_sound L rt claims s u s'"
proof -
  have "list_ex (\<lambda>(x, h). u_ID x = u_ID u \<and> u_Role x = RoleAdmin) (users s)"
    if "u_Role u = RoleAdmin" "oidcRole (oc_Groups claims) (rt_AdminGroup rt) \<noteq> RoleAdmin"
    using assms(6) [OF that] by (fastforce simp: list_ex_iff)
  then show ?thesis using assms(1-4) assms(5) unfolding sso_sound_def list_all_iff by fastforce
qed

lemma resolved_sound:
  assumes "users_wf s" "resolved L rt claims s u s'"
  shows "sso_sound L rt claims s u s'"
proof (rule sso_soundI)
  note f = resolved_facts [OF assms]
  show "db_GetUser s' (u_ID u) = Inr u" by (rule f(1))
  show "u_Status u = UserActive" "bound rt claims u" "users_wf s'" using assms(2) by (simp_all add: resolved_def)
  show "if u_ID x = u_ID u then bound rt claims x \<or> free_and_named L rt claims x
        else (x, h) \<in> set (users s') \<or> u_Status x = UserDeleted \<and> bound rt claims x"
    if "(x, h) \<in> set (users s)" for x h
    using f(2,3) [OF that] by simp
  show "\<exists>y k. (y, k) \<in> set (users s) \<and> u_ID y = u_ID u \<and> u_Role y = RoleAdmin"
    if "u_Role u = RoleAdmin" "oidcRole (oc_Groups claims) (rt_AdminGroup rt) \<noteq> RoleAdmin"
    by (rule f(4) [OF that])
qed

lemma tombstone_sound:
  assumes "users_wf s" "(x, k) \<in> set (users s)" "bound rt claims x" "u_Status x = UserDeleted"
    and "db_UpdateUser s ts (tombstoneUserIdentity x) = Inr (x', s1)" "resolved L rt claims s1 u s'"
  shows "sso_sound L rt claims s u s'"
proof -
  have "u_ID (tombstoneUserIdentity x) = u_ID (fst (x, k))" "u_CreatedAt (tombstoneUserIdentity x) = u_CreatedAt (fst (x, k))"
    by (simp_all add: tombstoneUserIdentity_def)
  note up = UpdateUser_Inr [OF assms(1,2) this assms(5)]
  have x': "u_ID x' = u_ID x" "u_Role x' = u_Role x" using up(1) by (simp_all add: tombstoneUserIdentity_def)
  have keep: "(y, h) \<in> set (users s1)" if "(y, h) \<in> set (users s)" "u_ID y \<noteq> u_ID x" for y h
    using that unfolding up(2) set_upd_where x'(1) by force
  have before: "\<exists>y' h'. (y', h') \<in> set (users s) \<and> u_ID y' = u_ID y \<and> u_Role y' = u_Role y" if "(y, h) \<in> set (users s1)" for y h
    using that unfolding up(2) by (elim in_upd_whereE) (use x' assms(2) in auto)
  note f = resolved_facts [OF up(3) assms(6)]
  show ?thesis
  proof (rule sso_soundI)
    show "db_GetUser s' (u_ID u) = Inr u" by (rule f(1))
    show "u_Status u = UserActive" "bound rt claims u" "users_wf s'" using assms(6) by (simp_all add: resolved_def)
    show "if u_ID y = u_ID u then bound rt claims y \<or> free_and_named L rt claims y
          else (y, h) \<in> set (users s') \<or> u_Status y = UserDeleted \<and> bound rt claims y"
      if "(y, h) \<in> set (users s)" for y h
    proof (cases "u_ID y = u_ID x")
      case True
      then show ?thesis using row_unique [OF assms(1) that assms(2)] assms(3,4) by simp
    next
      case False
      then show ?thesis using f(2,3) [OF keep [OF that]] by simp
    qed
    show "\<exists>y h. (y, h) \<in> set (users s) \<and> u_ID y = u_ID u \<and> u_Role y = RoleAdmin"
      if "u_Role u = RoleAdmin" "oidcRole (oc_Groups claims) (rt_AdminGroup rt) \<noteq> RoleAdmin"
    proof -
      from f(4) [OF that] obtain y h where y: "(y, h) \<in> set (users s1)" "u_ID y = u_ID u" "u_Role y = RoleAdmin" by blast
      from before [OF y(1)] y(2,3) show ?thesis by metis
    qed
  qed
qed

section \<open>Sealed cookies\<close>

lemma split_dots_two: "CHR ''.'' \<notin> set x \<Longrightarrow> CHR ''.'' \<notin> set y \<Longrightarrow> split_on (CHR ''.'') (x @ CHR ''.'' # y) = [x, y]"
  by (simp add: split_on_sep split_on_free)

lemma no_dot_b64: "CHR ''.'' \<notin> set (b64_encode b64_url p)"
proof -
  have "CHR ''.'' \<notin> set b64_url" by (simp add: b64_url_def)
  with set_b64_encode [of b64_url p] show ?thesis using b64_alphabets(7) by blast
qed

lemma b64_url_roundtrip: "b64_decode b64_url (b64_encode b64_url p) = Some p"
proof -
  have "CHR 0x0A \<notin> set b64_url" "CHR 0x0D \<notin> set b64_url" by (simp_all add: b64_url_def)
  then show ?thesis using b64_roundtrip [of b64_url p] b64_alphabets(6,7) by blast
qed

lemma verify_signed:
  "verifyOIDCSigned S scope (signed S scope' p) = (if sg_mac S (scope' @ p) = sg_mac S (scope @ p) then Some p else None)"
  using split_dots_two [OF no_dot_b64 no_dot_b64, of p "sg_mac S (scope' @ p)"]
  by (simp add: verifyOIDCSigned_def signed_def b64_url_roundtrip)

lemma verify_Some: "verifyOIDCSigned S scope v = Some p \<Longrightarrow> \<exists>x y. split_on (CHR ''.'') v = [x, y] \<and> b64_decode b64_url x = Some p \<and>
    b64_decode b64_url y = Some (sg_mac S (scope @ p))"
  by (auto simp: verifyOIDCSigned_def split: list.splits option.splits if_splits)

section \<open>Steps of the sign-in\<close>

lemma resolve_sound:
  assumes "users_wf (st a)" and "resolveOIDCIdentity L w a c rt claims via = (Inr (u, first), a')"
  shows "sso_sound L rt claims (st a) u (st a')"
proof (cases "db_GetUserByOIDC (st a) (rt_Issuer rt) (oc_Subject claims)")
  case (Inl e)
  then have "sso_enrol L w a c rt claims via = (Inr (u, first), a')"
    using assms(2) by (simp add: resolveOIDCIdentity_def split: if_splits)
  then show ?thesis using assms(1) by (blast intro: resolved_sound enrol_resolved)
next
  case (Inr x)
  from GetUserByOIDC_row [OF Inr] obtain k where x: "(x, k) \<in> set (users (st a))" "bound rt claims x"
    by (auto simp: bound_def)
  show ?thesis
  proof (cases "u_Status x = UserDeleted")
    case True
    then obtain x' s1 where up: "db_UpdateUser (st a) (now w) (tombstoneUserIdentity x) = Inr (x', s1)"
      and en: "sso_enrol L w (a\<lparr>st := s1\<rparr>) c rt claims via = (Inr (u, first), a')"
      using assms(2) Inr by (auto simp: resolveOIDCIdentity_def split: sum.splits)
    have "u_ID (tombstoneUserIdentity x) = u_ID (fst (x, k))" "u_CreatedAt (tombstoneUserIdentity x) = u_CreatedAt (fst (x, k))"
      by (simp_all add: tombstoneUserIdentity_def)
    from UpdateUser_Inr(3) [OF assms(1) x(1) this up] have "resolved L rt claims s1 u (st a')"
      using enrol_resolved [OF _ en] by simp
    then show ?thesis by (rule tombstone_sound [OF assms(1) x True up])
  next
    case False
    then have u: "u = x" "a' = a" "u_Status x = UserActive"
      using assms(2) Inr by (auto simp: resolveOIDCIdentity_def split: if_splits)
    have "db_GetUser (st a) (u_ID x) = Inr x" using GetUser_row [of "st a" "(x, k)"] x(1) assms(1) by (simp add: users_wf_def)
    then have "resolved L rt claims (st a) u (st a')" using u x(2) assms(1) by (simp add: resolved_def)
    then show ?thesis using assms(1) by (blast intro: resolved_sound)
  qed
qed

lemma CompleteOIDC_Inr:
  assumes "CompleteOIDC L P A w c code flow J = (Inr u, J')"
  obtains rt raw t claims u0 first a1 where
    "oidc_runtime A w (sj_app J) = Inr rt" "ip_exchange P code (fl_CodeVerifier flow) = Inr (Some raw)"
    "ip_verify P (rt_Issuer rt) raw = Some t" "rt_ClientID rt \<in> set (it_Audience t)" "it_Nonce t = fl_Nonce flow"
    "it_Claims t = Some claims" "oc_Subject claims \<noteq> []"
    "resolveOIDCIdentity L w (sj_app J) c rt claims ''oidc'' = (Inr (u0, first), a1)"
    "u = u0 \<or> u = u0\<lparr>u_LastLoginAt := now w\<rparr> \<or>
       (\<exists>s'. db_UpdateUser (st a1) (now w) (u0\<lparr>u_LastLoginAt := now w\<rparr>) = Inr (u, s'))"
  using assms
  by (auto simp: CompleteOIDC_def verify_for_def Let_def split: sum.splits option.splits if_splits prod.splits)

lemma UpdateUser_same:
  "db_UpdateUser s ts u0 = Inr (u, s') \<Longrightarrow> u = u0\<lparr>u_UpdatedAt := ts\<rparr>"
  by (auto simp: db_UpdateUser_def Let_def split: if_splits option.splits)

lemma callback_LoggedIn:
  assumes "authOIDCCallback enabled L P A S w c cookie state errcode code userAgent ip J = (LoggedIn u raw csrf, J')"
  obtains ck flow J1 where "enabled" "cookie = Some ck" "VerifyOIDCFlow S w ck = Inr flow" "fl_State flow = state" "errcode = []"
    "CompleteOIDC L P A w (WithActor c ''oidc'') code flow J = (Inr u, J1)"
  using assms by (auto simp: authOIDCCallback_def split: option.splits sum.splits if_splits prod.splits)

section \<open>Examples\<close>

definition sample_rt :: oidcRuntime where
  "sample_rt = \<lparr>rt_Issuer = ''https://idp.test'', rt_ClientID = ''postra'', rt_ClientSecret = [], rt_SecretRef = [],
     rt_RedirectURL = ''https://mail.test/cb'', rt_AdminGroup = ''admins'', rt_AutoProvision = True, rt_AutoLogin = False\<rparr>"

text \<open>Someone who calls the address of somebody else his own; the provider says that it was never verified.\<close>

definition sample_claims :: oidcClaims where
  "sample_claims = \<lparr>oc_Subject = ''sub_9'', oc_PreferredUsername = ''mallory'', oc_Email = ''ceo@corp.test'',
     oc_EmailVerified = Some False, oc_Name = [], oc_Groups = [], oc_AuthorizedParty = [], oc_Audience = AudNone\<rparr>"

lemma sample_login: "TrimSpace ''mallory'' = ''mallory''"
  by code_simp

lemma sample_enrols:
  assumes "users (st a) = []" "cfg a = sample_cfg"
  shows "sso_enrol sample_lib sample_io a c sample_rt sample_claims ''oidc'' =
    (let u = (sso_user sample_lib sample_io (st a) sample_rt sample_claims)\<lparr>u_CreatedAt := 1000, u_UpdatedAt := 1000\<rparr>
     in (Inr (u, True), app_audit (a\<lparr>st := (st a)\<lparr>users := [(u, [])]\<rparr>\<rparr>) sample_io (WithPrincipal c (principalFor u ''oidc''))
          ''user_provision'' (''user:'' @ u_ID u) ''ok'' ''https://idp.test''))"
  using assms by (simp add: sso_enrol_def linkExistingLocalUser_def oidcLinkCandidate_def sample_claims_def sample_login
    db_GetUserByLogin_def db_GetUserByEmail_def emailUnverified_def Let_def db_CreateUser_def user_clash_def no_row_def
    sample_defs sample_rt_def)
lemma sample_resolves:
  "\<exists>u a'. resolveOIDCIdentity sample_lib sample_io sample_app (sample_ctx ''oidc'' []) sample_rt sample_claims ''oidc'' =
     (Inr (u, True), a')"
proof -
  have "users (st sample_app) = []" "cfg sample_app = sample_cfg" by (simp_all add: sample_app_def empty_store_def)
  from sample_enrols [OF this] show ?thesis
    by (simp add: resolveOIDCIdentity_def db_GetUserByOIDC_def sample_app_def empty_store_def Let_def)
qed

text \<open>
  The policy gives the account of an address to whoever names it: the address the provider calls unverified, which
  links nobody, still opens the mailbox that the policy's secret opens.
\<close>

definition org_policy_app :: app where
  "org_policy_app = sample_app\<lparr>st := (st sample_app)\<lparr>system_settings := map_of
     [(''oidc.mail.enabled'', ''true''), (''oidc.mail.automatic_sync'', ''false''),
      (''oidc.mail.inbound_secret_ref'', ''sec_org''), (''oidc.mail.smtp_secret_ref'', ''sec_org'')]\<rparr>\<rparr>"

lemma unverified_email_gets_mailbox:
  "\<exists>u a'. emailUnverified sample_claims \<and>
     sso_enrol sample_lib sample_io org_policy_app (sample_ctx ''oidc'' []) sample_rt sample_claims ''oidc'' = (Inr (u, True), a') \<and>
     map (\<lambda>x. (a_UserID x, a_POP3Username x, a_POP3Secret x))
       (accounts (st (sj_app (snd (autoProvisionOIDCMail sample_lib sample_io (sample_ctx ''oidc'' []) u
          \<lparr>sj_app = a', sj_locks = [], sj_workers = [], sj_cancelled = []\<rparr>))))) =
       [(u_ID u, ''ceo@corp.test'', ''sec_org'')]"
proof -
  have e: "users (st org_policy_app) = []" "cfg org_policy_app = sample_cfg" by (simp_all add: org_policy_app_def sample_app_def empty_store_def)
  have m: "normalizedProvisionEmail sample_lib ''ceo@corp.test'' = Inr ''ceo@corp.test''" by code_simp
  have n: "normSecurity sample_lib [] SecurityTLS = Inr SecurityTLS" "normInboundProtocol sample_lib ''imap'' = Inr ''imap''"
    "fst (Atoi []) = 0" by code_simp+
  show ?thesis
    by (intro exI conjI, simp add: emailUnverified_def sample_claims_def, simp only: sample_enrols [OF e] Let_def)
       (simp add: autoProvisionOIDCMail_def sso_user_def Let_def sample_claims_def org_policy_app_def sample_io_def sample_cfg_def
         sample_app_def sample_principal_def sample_ctx_def empty_store_def m n ListAccounts_def db_ListAccounts_def
         CreateAccount_def oidc_mail_input_def setting_text_def validateHosts.simps new_account_def checkInsecureAllowed_def
         userIDFrom_def db_CreateAccount_def no_row_def Setting_def SettingBool_def portOr_def startInitialOIDCMailSync_def
         db_SetAccountStatus_def upd_where_def WithPrincipal_def principalFor_def)
qed

text \<open>Texts for flows and notes, one for each, and a code that no two texts share.\<close>

definition text_of :: "'a::countable \<Rightarrow> string" where
  "text_of x = replicate (to_nat x) CHR ''x''"

definition of_text :: "string \<Rightarrow> 'a::countable" where
  "of_text s = from_nat (length s)"

lemma of_text_of: "of_text (text_of x) = x"
  by (simp add: of_text_def text_of_def)

definition flow_of :: "string \<times> string \<times> string \<times> int \<times> bool \<times> string \<Rightarrow> OIDCFlow" where
  "flow_of = (\<lambda>(s, n, v, e, q, r). \<lparr>fl_State = s, fl_Nonce = n, fl_CodeVerifier = v, fl_ExpiresAt = e, fl_Silent = q, fl_ReturnTo = r\<rparr>)"

definition sample_signer :: signer where
  "sample_signer = \<lparr>sg_mac = id,
     sg_flow = (\<lambda>f. text_of (fl_State f, fl_Nonce f, fl_CodeVerifier f, fl_ExpiresAt f, fl_Silent f, fl_ReturnTo f)),
     sg_unflow = (\<lambda>s. Some (flow_of (of_text s))), sg_note = (\<lambda>m e. text_of (m, e)), sg_unnote = (\<lambda>s. Some (of_text s))\<rparr>"

definition sample_flow :: OIDCFlow where
  "sample_flow = \<lparr>fl_State = ''s'', fl_Nonce = ''n'', fl_CodeVerifier = ''v'', fl_ExpiresAt = 1600, fl_Silent = False,
     fl_ReturnTo = ''/app/''\<rparr>"

lemma sample_flow_verifies: "VerifyOIDCFlow sample_signer sample_io (SignOIDCFlow sample_signer sample_flow) = Inr sample_flow"
  by (simp add: VerifyOIDCFlow_def SignOIDCFlow_def verify_signed)
     (simp add: sample_signer_def of_text_of flow_of_def sample_flow_def sample_io_def)

definition sample_auth :: AuthConfig where
  "sample_auth = \<lparr>OIDCIssuer = ''https://idp.test'', OIDCClientID = ''postra'', OIDCClientSecret = [], OIDCSecretRef = [],
     OIDCRedirectURL = ''https://mail.test/cb'', OIDCAutoProvision = True, OIDCAdminGroup = ''admins'', OIDCAutoLogin = False\<rparr>"

definition sample_idp :: idp where
  "sample_idp = \<lparr>ip_discover = (\<lambda>_. None), ip_exchange = (\<lambda>code v. Inr (Some ''idt'')),
     ip_verify = (\<lambda>iss raw. Some \<lparr>it_Subject = ''sub_9'', it_Audience = [''postra''], it_Nonce = ''n'', it_Expiry = 2000,
        it_Claims = Some sample_claims, it_Access = None\<rparr>)\<rparr>"

definition idle_jobs :: "app \<Rightarrow> sync_jobs" where
  "idle_jobs a = \<lparr>sj_app = a, sj_locks = [], sj_workers = [], sj_cancelled = []\<rparr>"

lemma sample_runtime:
  assumes "system_settings (st a) = Map.empty"
  shows "oidc_runtime sample_auth w a = Inr sample_rt"
proof -
  have t: "TrimSpace ''https://idp.test'' = ''https://idp.test''" "TrimSpace ''postra'' = ''postra''" "TrimSpace [] = []"
    "TrimSpace ''https://mail.test/cb'' = ''https://mail.test/cb''" "TrimSpace ''admins'' = ''admins''" by code_simp+
  show ?thesis
    by (simp add: assms oidc_runtime_def SystemSettings_oidc_def oidc_defaults_def sample_auth_def
      setting_text_def boolSetting_def ParseBool_def bool_text_def sample_rt_def t Let_def)
qed

lemma sample_callback:
  "\<exists>u raw csrf J'. authOIDCCallback True sample_lib sample_idp sample_auth sample_signer sample_io (sample_ctx ''oidc'' [])
     (Some (SignOIDCFlow sample_signer sample_flow)) ''s'' [] ''code'' ''agent'' ''ip'' (idle_jobs sample_app) = (LoggedIn u raw csrf, J')"
proof -
  have e: "users (st sample_app) = []" "cfg sample_app = sample_cfg" by (simp_all add: sample_app_def empty_store_def)
  have t: "TrimSpace ''ceo@corp.test'' \<noteq> []" by code_simp
  have r: "resolveOIDCIdentity sample_lib sample_io sample_app c sample_rt sample_claims ''oidc'' =
      sso_enrol sample_lib sample_io sample_app c sample_rt sample_claims ''oidc''" for c
    by (simp add: resolveOIDCIdentity_def db_GetUserByOIDC_def sample_app_def empty_store_def)
  have f: "rt_Issuer sample_rt = ''https://idp.test''" "rt_ClientID sample_rt = ''postra''" "oc_Subject sample_claims \<noteq> []"
    "oc_Email sample_claims = ''ceo@corp.test''" by (simp_all add: sample_rt_def sample_claims_def)
  have q: "tryAutoProvisionOIDCMail sample_lib sample_io c u J = J" if "system_settings (st (sj_app J)) = Map.empty" for c u J
    using that by (simp add: tryAutoProvisionOIDCMail_def autoProvisionOIDCMail_def)
  have ss: "\<exists>x a'. CreateSession sample_lib sample_io a u ag ip = (Inr x, a')"
    if "sessions (st a) = []" "users (st a) = [(u, h)]" for a u h ag ip
    using that by (simp add: CreateSession_def db_CreateSession_def no_row_def Let_def)
  have k: "\<exists>x a'. CreateSession sample_lib sample_io (app_audit (sample_app\<lparr>st := (st sample_app)\<lparr>users := [(u, [])]\<rparr>\<rparr>)
      sample_io c x1 x2 x3 x4) u ag ip = (Inr x, a')" for u c x1 x2 x3 x4 ag ip
    by (rule ss) (simp_all add: sample_app_def empty_store_def)
  have rt: "oidc_runtime sample_auth sample_io sample_app = Inr sample_rt"
    by (rule sample_runtime) (simp add: sample_app_def empty_store_def)
  let ?c = "WithActor (sample_ctx ''oidc'' []) ''oidc''"
  let ?u = "(sso_user sample_lib sample_io (st sample_app) sample_rt sample_claims)\<lparr>u_CreatedAt := 1000, u_UpdatedAt := 1000\<rparr>"
  let ?a = "app_audit (sample_app\<lparr>st := (st sample_app)\<lparr>users := [(?u, [])]\<rparr>\<rparr>) sample_io
     (WithPrincipal ?c (principalFor ?u ''oidc'')) ''user_provision'' (''user:'' @ u_ID ?u) ''ok'' ''https://idp.test''"
  have e1: "sso_enrol sample_lib sample_io sample_app ?c sample_rt sample_claims ''oidc'' = (Inr (?u, True), ?a)"
    using sample_enrols [OF e] by (simp only: Let_def)
  have q1: "tryAutoProvisionOIDCMail sample_lib sample_io ?c ?u ((idle_jobs sample_app)\<lparr>sj_app := ?a\<rparr>) = (idle_jobs sample_app)\<lparr>sj_app := ?a\<rparr>"
    by (rule q) (simp add: sample_app_def empty_store_def)
  have co: "CompleteOIDC sample_lib sample_idp sample_auth sample_io ?c ''code'' sample_flow (idle_jobs sample_app) =
    (Inr ?u, (idle_jobs sample_app)\<lparr>sj_app := ?a\<rparr>)"
    using q1 by (simp only: CompleteOIDC_def Let_def idle_jobs_def sync_jobs.simps rt sum.simps sample_idp_def
       idp.simps option.simps verify_for_def id_token.simps f r e1 prod.simps if_False if_True t list.set simp_thms insert_iff)
       (simp add: sample_flow_def)
  obtain x a' where se: "CreateSession sample_lib sample_io ?a ?u ''agent'' ''ip'' = (Inr x, a')" using k by blast
  obtain raw csrf sn where x: "x = (raw, csrf, sn)" by (cases x) auto
  have "fl_State sample_flow = ''s''" by (simp add: sample_flow_def)
  with co se [unfolded x] have "authOIDCCallback True sample_lib sample_idp sample_auth sample_signer sample_io (sample_ctx ''oidc'' [])
     (Some (SignOIDCFlow sample_signer sample_flow)) ''s'' [] ''code'' ''agent'' ''ip'' (idle_jobs sample_app) =
     (LoggedIn ?u raw csrf, (idle_jobs sample_app)\<lparr>sj_app := a'\<rparr>)"
    by (simp add: authOIDCCallback_def sample_flow_verifies)
  then show ?thesis by blast
qed

section \<open>Properties\<close>

text \<open>
  C13.  Whoever signs in through the identity provider becomes an active user bound to exactly that issuer and
  subject, and stays it.  It is the user bound to them before, or a new one, or one that was bound to nobody and that
  the token names, by an address the provider does not call unverified or by the login with no other address; a user
  bound to another identity is never taken over, nobody else's row changes (a deleted user who still had the
  identity loses it), and only membership of the administrators' group makes an administrator.
\<close>

theorem sso_takes_over_nobody:
  assumes "users_wf (st a)" and "resolveOIDCIdentity L w a c rt claims via = (Inr (u, first), a')"
  shows "sso_sound L rt claims (st a) u (st a')"
  using assms by (rule resolve_sound)

theorem sso_takes_over_nobody_witness:
  "\<exists>u a'. resolveOIDCIdentity sample_lib sample_io sample_app (sample_ctx ''oidc'' []) sample_rt sample_claims ''oidc'' =
      (Inr (u, True), a') \<and> sso_sound sample_lib sample_rt sample_claims (st sample_app) u (st a')"
proof -
  obtain u a' where r: "resolveOIDCIdentity sample_lib sample_io sample_app (sample_ctx ''oidc'' []) sample_rt sample_claims ''oidc'' =
      (Inr (u, True), a')" using sample_resolves by blast
  have "users_wf (st sample_app)" by (simp add: users_wf_def users_inv_def identities_unique_def sample_defs empty_store_def)
  from sso_takes_over_nobody [OF this r] r show ?thesis by blast
qed






end
