(* ===== verification/Mcp_Oauth.thy ===== *)
theory Mcp_Oauth
  imports Sso_Identity Mcp_Policy
begin

text \<open>
  Bearer tokens of the identity provider (\<open>src/internal/application/mcp_oauth.go\<close>, \<open>oidc.go\<close>): what the
  administrator allows for agents that come with an OAuth access token, how such a token becomes a principal, and the
  older tokens that the REST interface takes.  \<open>url.Parse\<close> is an argument, as are the provider and its verifier.
\<close>

section \<open>Addresses and settings\<close>

text \<open>The fields of \<open>url.URL\<close> the code reads; \<open>Hostname\<close> is the host without its port.\<close>

record url =
  url_Scheme :: string
  url_Opaque :: string
  url_HasUser :: bool
  url_Host :: string
  url_Hostname :: string
  url_Path :: string
  url_RawPath :: string
  url_RawQuery :: string
  url_ForceQuery :: bool
  url_Fragment :: string

record urls =
  parse_url :: "string \<Rightarrow> url option"
  url_text :: "url \<Rightarrow> string"

text \<open>\<open>strings.FieldsFunc\<close> with a predicate on bytes.\<close>

fun fields_by :: "(char \<Rightarrow> bool) \<Rightarrow> string \<Rightarrow> string \<Rightarrow> string list" where
  "fields_by sep cur [] = (if cur = [] then [] else [cur])"
| "fields_by sep cur (x # xs) =
     (if sep x then (if cur = [] then [] else [cur]) @ fields_by sep [] xs else fields_by sep (cur @ [x]) xs)"

definition oauthList :: "string \<Rightarrow> string list" where
  "oauthList raw = fields_by (\<lambda>ch. ch \<in> set [CHR '','', CHR '' '', CHR 0x0A, CHR 0x0D, CHR 0x09]) [] raw"

text \<open>\<open>path.Clean\<close>: the elements acc so far, the last one first.\<close>

fun clean_loop :: "bool \<Rightarrow> string list \<Rightarrow> string list \<Rightarrow> string list" where
  "clean_loop rooted acc [] = rev acc"
| "clean_loop rooted acc (e # es) =
     (if e = [] \<or> e = ''.'' then clean_loop rooted acc es
      else if e = ''..'' then
        (case acc of
           [] \<Rightarrow> clean_loop rooted (if rooted then [] else [''..'']) es
         | k # ks \<Rightarrow> clean_loop rooted (if k = ''..'' then ''..'' # acc else ks) es)
      else clean_loop rooted (e # acc) es)"

definition path_Clean :: "string \<Rightarrow> string" where
  "path_Clean p =
     (let rooted = HasPrefix p ''/''; body = join ''/'' (clean_loop rooted [] (split_on (CHR ''/'') p))
      in if rooted then ''/'' @ body else if body = [] then ''.'' else body)"

definition TrimSuffix :: "string \<Rightarrow> string \<Rightarrow> string" where
  "TrimSuffix s p = (if HasSuffix s p then take (length s - length p) s else s)"

definition validOAuthURL :: "urls \<Rightarrow> string \<Rightarrow> bool" where
  "validOAuthURL U raw =
     (case parse_url U raw of
        None \<Rightarrow> False
      | Some u \<Rightarrow>
          if url_Hostname u = [] \<or> url_HasUser u \<or> url_Fragment u \<noteq> [] \<or> url_RawQuery u \<noteq> [] \<or> url_ForceQuery u \<or>
             url_Opaque u \<noteq> [] \<or> url_RawPath u \<noteq> [] \<or>
             ContainsAny raw [CHR 0x5C, CHR '' '', CHR 0x09, CHR 0x0D, CHR 0x0A, CHR ''#'', CHR ''%'']
          then False
          else if url_Path u \<noteq> [] \<and> TrimSuffix (url_Path u) ''/'' \<noteq> path_Clean (url_Path u) then False
          else url_Scheme u = ''https'' \<or>
               url_Scheme u = ''http'' \<and> url_Hostname u \<in> set [''localhost'', ''127.0.0.1'', ''::1''])"

definition msg_resource_url :: string where
  "msg_resource_url =
     runes [0x4F, 0x41, 0x75, 0x74, 0x68, 0x20, 0x4D, 0x43, 0x50, 0x20, 0xACF5, 0xAC1C, 0x20, 0x55, 0x52,
     0x4C, 0xC740, 0x20, 0xC778, 0xC99D, 0xC815, 0xBCF4, 0xB7, 0xCFFC, 0xB9AC, 0xB7, 0xD504, 0xB798,
     0xADF8, 0xBA3C, 0xD2B8, 0x20, 0xC5C6, 0xB294, 0x20, 0x48, 0x54, 0x54, 0x50, 0x53, 0x20, 0x55, 0x52,
     0x4C, 0xC774, 0xC5B4, 0xC57C, 0x20, 0xD569, 0xB2C8, 0xB2E4, 0x20, 0x28, 0x6C, 0x6F, 0x63, 0x61, 0x6C,
     0x68, 0x6F, 0x73, 0x74, 0x20, 0xAC1C, 0xBC1C, 0x20, 0xC608, 0xC678, 0x29]"

definition msg_many_clients :: string where
  "msg_many_clients =
     runes [0x4F, 0x41, 0x75, 0x74, 0x68, 0x20, 0x43, 0x6C, 0x69, 0x65, 0x6E, 0x74, 0xB294, 0x20, 0xCD5C,
     0xB300, 0x20, 0x35, 0x30, 0xAC1C, 0xAE4C, 0xC9C0, 0x20, 0xD5C8, 0xC6A9, 0xD560, 0x20, 0xC218, 0x20,
     0xC788, 0xC2B5, 0xB2C8, 0xB2E4]"

definition msg_one_client :: string where
  "msg_one_client =
     runes [0x4F, 0x41, 0x75, 0x74, 0x68, 0x20, 0xD504, 0xB85D, 0xC2DC, 0x20, 0x43, 0x6C, 0x69, 0x65, 0x6E,
     0x74, 0x20, 0x49, 0x44, 0xB294, 0x20, 0xACF5, 0xBC31, 0xB7, 0xC27C, 0xD45C, 0x20, 0xC5C6, 0xB294,
     0x20, 0xD558, 0xB098, 0xC758, 0x20, 0xAC12, 0xC774, 0xC5B4, 0xC57C, 0x20, 0xD569, 0xB2C8, 0xB2E4]"

definition msg_long_client :: string where
  "msg_long_client =
     runes [0x4F, 0x41, 0x75, 0x74, 0x68, 0x20, 0x43, 0x6C, 0x69, 0x65, 0x6E, 0x74, 0x20, 0x49, 0x44,
     0xAC00, 0x20, 0xB108, 0xBB34, 0x20, 0xAE41, 0xB2C8, 0xB2E4]"

definition msg_client_chars :: string where
  "msg_client_chars =
     runes [0x4F, 0x41, 0x75, 0x74, 0x68, 0x20, 0x43, 0x6C, 0x69, 0x65, 0x6E, 0x74, 0x20, 0x49, 0x44,
     0xB294, 0x20, 0xC601, 0xBB38, 0xB7, 0xC22B, 0xC790, 0x20, 0xBC0F, 0x20, 0x2E, 0x20, 0x5F, 0x20, 0x3A,
     0x20, 0x2D, 0x20, 0xBB38, 0xC790, 0xB9CC, 0x20, 0xC0AC, 0xC6A9, 0xD560, 0x20, 0xC218, 0x20, 0xC788,
     0xC2B5, 0xB2C8, 0xB2E4]"

definition ascii_alnum :: "char \<Rightarrow> bool" where
  "ascii_alnum ch =
     (let n = byte ch in 97 \<le> n \<and> n \<le> 122 \<or> 65 \<le> n \<and> n \<le> 90 \<or> 48 \<le> n \<and> n \<le> 57)"

definition client_char :: "char \<Rightarrow> bool" where
  "client_char ch = (ascii_alnum ch \<or> ch \<in> set ''._:-'')"

fun client_ids_error :: "string list \<Rightarrow> err option" where
  "client_ids_error [] = None"
| "client_ids_error (i # is) =
     (if length i > 128 then Some (UserError msg_long_client)
      else if \<not> list_all client_char i then Some (UserError msg_client_chars)
      else client_ids_error is)"

definition proxy_id_key :: string where "proxy_id_key = ''mcp.oauth.proxy.client_id''"

definition validateMCPOAuthSetting :: "urls \<Rightarrow> string \<Rightarrow> string \<Rightarrow> err option" where
  "validateMCPOAuthSetting U key v =
     (if key = ''mcp.oauth.resource_url''
      then (if v \<noteq> [] \<and> \<not> validOAuthURL U v then Some (UserError msg_resource_url) else None)
      else if key = ''mcp.oauth.allowed_client_ids'' \<or> key = proxy_id_key
      then (let ids = oauthList v
            in if length ids > 50 then Some (UserError msg_many_clients)
               else if key = proxy_id_key \<and> v \<noteq> [] \<and> (length ids \<noteq> 1 \<or> hd ids \<noteq> v) then Some (UserError msg_one_client)
               else client_ids_error ids)
      else if key = ''mcp.oauth.allowed_scopes''
      then (case NormalizeMCPScopes (Some (oauthList v)) of Inl e \<Rightarrow> Some e | Inr out \<Rightarrow> None)
      else None)"

definition oauthProxyClientID :: "urls \<Rightarrow> (string \<rightharpoonup> string) \<Rightarrow> string" where
  "oauthProxyClientID U values =
     (let i = TrimSpace (setting_text values proxy_id_key)
      in if validateMCPOAuthSetting U ''mcp.oauth.allowed_client_ids'' i \<noteq> None then [] else i)"

definition oauthAllowedClients :: "urls \<Rightarrow> (string \<rightharpoonup> string) \<Rightarrow> string list" where
  "oauthAllowedClients U values =
     (let ids = oauthList (setting_text values ''mcp.oauth.allowed_client_ids''); pid = oauthProxyClientID U values
      in if pid \<noteq> [] \<and> \<not> contains ids pid then ids @ [pid] else ids)"

definition oauthProxyOrigin :: "urls \<Rightarrow> string \<Rightarrow> string" where
  "oauthProxyOrigin U resourceURL =
     (if \<not> validOAuthURL U resourceURL then []
      else case parse_url U resourceURL of Some u \<Rightarrow> url_Scheme u @ ''://'' @ url_Host u | None \<Rightarrow> [])"

definition oauthProxyConfigured :: "urls \<Rightarrow> (string \<rightharpoonup> string) \<Rightarrow> bool" where
  "oauthProxyConfigured U values =
     (oauthProxyClientID U values \<noteq> [] \<and> oauthProxyClientID U values \<noteq> setting_text values ''auth.oidc.client_id'' \<and>
      oauthProxyOrigin U (setting_text values ''mcp.oauth.resource_url'') \<noteq> [])"

definition oauthConfigured :: "urls \<Rightarrow> (string \<rightharpoonup> string) \<Rightarrow> string \<Rightarrow> bool" where
  "oauthConfigured U values endpoint =
     (let resource = setting_text values ''mcp.oauth.resource_url''; clients = oauthAllowedClients U values
      in (case parse_url U resource of None \<Rightarrow> False | Some u \<Rightarrow> validOAuthURL U resource \<and> url_Path u = endpoint) \<and>
         validOAuthURL U (setting_text values ''auth.oidc.issuer'') \<and> clients \<noteq> [] \<and>
         \<not> contains clients (setting_text values ''auth.oidc.client_id'') \<and>
         validateMCPOAuthSetting U ''mcp.oauth.allowed_client_ids'' (setting_text values ''mcp.oauth.allowed_client_ids'') = None \<and>
         validateMCPOAuthSetting U ''mcp.oauth.allowed_scopes'' (setting_text values ''mcp.oauth.allowed_scopes'') = None)"

record MCPOAuthProxyInfo =
  px_Enabled :: bool
  px_Configured :: bool
  px_Issuer :: string
  px_MetadataURL :: string
  px_RegistrationEndpoint :: string
  px_AuthorizationEndpoint :: string
  px_TokenEndpoint :: string
  px_CallbackURL :: string
  px_ClientID :: string

definition oauthProxyInfo :: "urls \<Rightarrow> (string \<rightharpoonup> string) \<Rightarrow> bool \<Rightarrow> MCPOAuthProxyInfo" where
  "oauthProxyInfo U values configured =
     (let info = \<lparr>px_Enabled = (setting_text values ''mcp.oauth.proxy.enabled'' = ''true''), px_Configured = False,
                  px_Issuer = [], px_MetadataURL = [], px_RegistrationEndpoint = [], px_AuthorizationEndpoint = [],
                  px_TokenEndpoint = [], px_CallbackURL = [], px_ClientID = oauthProxyClientID U values\<rparr>;
          origin = oauthProxyOrigin U (setting_text values ''mcp.oauth.resource_url'')
      in if origin = [] then info
         else info\<lparr>px_Configured := configured \<and> oauthProxyConfigured U values, px_Issuer := origin,
                   px_MetadataURL := origin @ ''/.well-known/oauth-authorization-server'',
                   px_RegistrationEndpoint := origin @ ''/oauth/register'',
                   px_AuthorizationEndpoint := origin @ ''/oauth/authorize'',
                   px_TokenEndpoint := origin @ ''/oauth/token'', px_CallbackURL := origin @ ''/oauth/callback''\<rparr>)"

record MCPOAuthInfo =
  oi_Enabled :: bool
  oi_Configured :: bool
  oi_Issuer :: string
  oi_ResourceURL :: string
  oi_MetadataURL :: string
  oi_AllowedClientIDs :: "string list"
  oi_ScopesSupported :: "string list"
  oi_AuthorizationServer :: string
  oi_Proxy :: MCPOAuthProxyInfo

text \<open>A scope is offered when it is known, listed by the administrator and its permission is switched on.\<close>

fun supported_loop :: "(string \<rightharpoonup> string) \<Rightarrow> string list \<Rightarrow> string list \<Rightarrow> string list" where
  "supported_loop values out [] = out"
| "supported_loop values out (s # ss) =
     supported_loop values
       (if contains MCPScopes s \<and> setting_text values (scope_setting s) = ''true'' \<and> \<not> contains out s
        then out @ [s] else out) ss"

definition MCPOAuthConnection :: "urls \<Rightarrow> (string \<rightharpoonup> string) \<Rightarrow> string \<Rightarrow> MCPOAuthInfo" where
  "MCPOAuthConnection U values started =
     (let active = (if started = [] then ''/mcp'' else started);
          configured = oauthConfigured U values active;
          issuer0 = setting_text values ''auth.oidc.issuer''; resource0 = setting_text values ''mcp.oauth.resource_url'';
          issuer = (if validOAuthURL U issuer0 then issuer0 else []);
          resource = (if validOAuthURL U resource0 then resource0 else []);
          metadata = (if \<not> validOAuthURL U resource then []
                      else case parse_url U resource of
                             None \<Rightarrow> []
                           | Some u \<Rightarrow> url_text U (u\<lparr>url_Path := ''/.well-known/oauth-protected-resource'' @ url_Path u\<rparr>));
          enabled = (setting_text values ''mcp.oauth.enabled'' = ''true''); info = oauthProxyInfo U values configured
      in \<lparr>oi_Enabled = enabled, oi_Configured = configured, oi_Issuer = issuer, oi_ResourceURL = resource,
          oi_MetadataURL = metadata, oi_AllowedClientIDs = oauthAllowedClients U values,
          oi_ScopesSupported = supported_loop values [] (oauthList (setting_text values ''mcp.oauth.allowed_scopes'')),
          oi_AuthorizationServer =
            (if enabled \<and> configured \<and> px_Enabled info \<and> px_Configured info then px_Issuer info else issuer),
          oi_Proxy = info\<rparr>)"

section \<open>Access tokens\<close>

definition access_valid :: "io \<Rightarrow> keycloakAccessClaims \<Rightarrow> bool" where
  "access_valid w k = (ka_Type k = ''Bearer'' \<and> ka_Expires k > now w \<and> ka_NotBefore k \<le> now w \<and> ka_Confirmation k = [])"

text \<open>
  What the check needs around the application: the addresses, the endpoint in use, the provider, and what its verifier
  says of a token it refuses.
\<close>

record resource_env =
  re_urls :: urls
  re_started :: string
  re_idp :: idp
  re_verify_error :: "string \<Rightarrow> string \<Rightarrow> string"
  re_auth :: AuthConfig

definition oauth_info :: "resource_env \<Rightarrow> app \<Rightarrow> MCPOAuthInfo" where
  "oauth_info E a = MCPOAuthConnection (re_urls E) (setting_values a) (re_started E)"

text \<open>A principal with the fields that only this way of authentication fills.\<close>

record oauth_grant =
  og_Principal :: Principal
  og_ClientID :: string
  og_Issuer :: string
  og_ExpiresAt :: int

definition mcpOAuthUser ::
  "lib \<Rightarrow> resource_env \<Rightarrow> io \<Rightarrow> ctx \<Rightarrow> string \<Rightarrow> id_token \<Rightarrow> sync_jobs \<Rightarrow> (string + User) \<times> sync_jobs" where
  "mcpOAuthUser L E w c issuer t J =
     (let a = sj_app J;
          slow =
            (case it_Claims t of
               None \<Rightarrow> (Inl ''the token claims could not be read'', J)
             | Some claims0 \<Rightarrow>
                 (let claims = claims0\<lparr>oc_Subject := it_Subject t\<rparr>; values = SystemSettings_oidc (re_auth E) a;
                      rt = \<lparr>rt_Issuer = issuer, rt_ClientID = [], rt_ClientSecret = [], rt_SecretRef = [], rt_RedirectURL = [],
                            rt_AdminGroup = TrimSpace (setting_text values ''auth.oidc.admin_group''),
                            rt_AutoProvision = boolSetting values ''auth.oidc.auto_provision'' (OIDCAutoProvision (re_auth E)),
                            rt_AutoLogin = False\<rparr>;
                      actor = WithActor c ''mcp_oauth''
                  in case resolveOIDCIdentity L w a actor rt claims ''mcp_oauth'' of
                       (Inl e, a1) \<Rightarrow>
                         (Inl (if e = errOIDCNoAccount then
                                 ''no Postra user is linked to this Keycloak subject, none can be linked by its username or email, and creating SSO users (auth.oidc.auto_provision) is off; an administrator must create or link the account, or turn automatic creation on''
                               else if e = errOIDCUserDisabled then ''the linked Postra user is not active''
                               else ''the Postra account for this Keycloak subject could not be resolved''),
                          J\<lparr>sj_app := a1\<rparr>)
                     | (Inr (u, first), a1) \<Rightarrow>
                         (Inr u, if first \<and> TrimSpace (oc_Email claims) \<noteq> []
                                 then tryAutoProvisionOIDCMail L w actor u (J\<lparr>sj_app := a1\<rparr>) else J\<lparr>sj_app := a1\<rparr>)))
      in case db_GetUserByOIDC (st a) issuer (it_Subject t) of
           Inr u \<Rightarrow> if u_Status u = UserActive then (Inr u, J) else slow
         | Inl e \<Rightarrow> slow)"

fun granted_loop :: "string list \<Rightarrow> string list \<Rightarrow> string list \<Rightarrow> string list" where
  "granted_loop supported out [] = out"
| "granted_loop supported out (s # ss) =
     granted_loop supported (if contains supported s \<and> \<not> contains out s then out @ [s] else out) ss"

text \<open>
  Either the reason why the token is refused, or the grant and a remark that is empty when the grant is of use.
\<close>

definition AuthenticateMCPOAuthTokenReason ::
  "lib \<Rightarrow> resource_env \<Rightarrow> io \<Rightarrow> ctx \<Rightarrow> string \<Rightarrow> sync_jobs \<Rightarrow> (string + oauth_grant \<times> string) \<times> sync_jobs" where
  "AuthenticateMCPOAuthTokenReason L E w c raw J =
     (let a = sj_app J; oi = oauth_info E a
      in if length raw > 32768 \<or> Count raw ''.'' \<noteq> 2 then (Inl ''the credential is not a compact JWT access token'', J)
         else if \<not> oi_Enabled oi \<or> \<not> oi_Configured oi \<or> \<not> SettingBool a ''mcp.enabled'' \<or> \<not> SettingBool a ''mcp.http_enabled''
         then (Inl ''OAuth MCP is disabled or incompletely configured on this deployment'', J)
         else if ip_discover (re_idp E) (oi_Issuer oi) \<noteq> None
         then (Inl (''the Keycloak issuer '' @ oi_Issuer oi @ '' could not be discovered''), J)
         else case ip_verify (re_idp E) (oi_Issuer oi) raw of
                None \<Rightarrow> (Inl (''the token did not verify against the issuer: '' @ re_verify_error E (oi_Issuer oi) raw), J)
              | Some t \<Rightarrow>
                  if TrimSpace (it_Subject t) = [] then (Inl ''the token carries no subject'', J)
                  else if \<not> contains (it_Audience t) (oi_ResourceURL oi)
                  then (Inl (''the token audience '' @ join '', '' (it_Audience t) @ '' does not name the MCP resource '' @
                          oi_ResourceURL oi @
                          ''; add a Keycloak Audience mapper with that custom audience to the scopes this client requests''), J)
                  else case it_Access t of
                         None \<Rightarrow> (Inl ''the token claims could not be read'', J)
                       | Some k \<Rightarrow>
                           if \<not> access_valid w k
                           then (Inl (''the token is not a usable bearer access token (typ='' @ ka_Type k @
                                   ''; it may be an ID token, expired, not yet valid, or sender-constrained)''), J)
                           else if \<not> contains (oi_AllowedClientIDs oi) (ka_ClientID k)
                           then (Inl (''the token was issued to client '' @ ka_ClientID k @
                                   '', which mcp.oauth.allowed_client_ids does not list''), J)
                           else (case mcpOAuthUser L E w c (oi_Issuer oi) t J of
                                   (Inl reason, J1) \<Rightarrow> (Inl reason, J1)
                                 | (Inr u, J1) \<Rightarrow>
                                     (let scopes = granted_loop (oi_ScopesSupported oi) [] (Fields (ka_Scope k));
                                          p = (principalFor u ''mcp_oauth'')\<lparr>p_MCPScopes := scopes\<rparr>;
                                          g = \<lparr>og_Principal = p, og_ClientID = ka_ClientID k, og_Issuer = oi_Issuer oi,
                                               og_ExpiresAt = it_Expiry t\<rparr>
                                      in (Inr (g, if scopes \<noteq> [] then []
                                                  else ''the token carries none of the scopes this deployment grants ('' @
                                                       join '' '' (oi_ScopesSupported oi) @
                                                       ''); the Keycloak client scopes must be defined with Include in token scope on''),
                                          J1))))"

text \<open>The older token of the REST interface, which is acc apart from the one for agents.\<close>

definition AuthenticateOIDCAccessToken :: "resource_env \<Rightarrow> io \<Rightarrow> app \<Rightarrow> string \<Rightarrow> err + Principal" where
  "AuthenticateOIDCAccessToken E w a raw =
     (case oidc_runtime (re_auth E) w a of
        Inl e \<Rightarrow> Inl ErrNotFound
      | Inr rt \<Rightarrow>
          if rt_Issuer rt = [] \<or> rt_ClientID rt = [] then Inl ErrNotFound
          else (case ip_discover (re_idp E) (rt_Issuer rt) of
                  Some d \<Rightarrow> Inl (SysError d)
                | None \<Rightarrow>
                    (case verify_for (re_idp E) (rt_Issuer rt) (rt_ClientID rt) raw of
                       None \<Rightarrow> Inl ErrNotFound
                     | Some t \<Rightarrow>
                         (case it_Claims t of
                            None \<Rightarrow> Inl ErrNotFound
                          | Some claims \<Rightarrow>
                              if oc_Subject claims = [] \<or> \<not> tokenForClient claims (rt_ClientID rt) then Inl ErrNotFound
                              else (case it_Access t of
                                      None \<Rightarrow> Inl ErrNotFound
                                    | Some k \<Rightarrow>
                                        (let oi = oauth_info E a
                                         in if \<not> access_valid w k then Inl ErrNotFound
                                            else if list_ex (\<lambda>s. contains MCPScopes s) (Fields (ka_Scope k)) then Inl ErrNotFound
                                            else if contains (oi_AllowedClientIDs oi) (ka_ClientID k) \<or>
                                                    oi_ResourceURL oi \<noteq> [] \<and> contains (it_Audience t) (oi_ResourceURL oi)
                                            then Inl ErrNotFound
                                            else (case db_GetUserByOIDC (st a) (rt_Issuer rt) (oc_Subject claims) of
                                                    Inl e \<Rightarrow> Inl ErrNotFound
                                                  | Inr u \<Rightarrow>
                                                      if u_Status u \<noteq> UserActive then Inl ErrNotFound
                                                      else Inr (principalFor u ''oidc_bearer''))))))))"

section \<open>Lemmas\<close>

lemma supported_loop_spec:
  "set (supported_loop values out ss) =
     set out \<union> {s \<in> set ss. s \<in> set MCPScopes \<and> setting_text values (scope_setting s) = ''true''}"
  "distinct out \<Longrightarrow> distinct (supported_loop values out ss)"
  by (induction ss arbitrary: out) auto

lemma granted_loop_spec:
  "set (granted_loop supported out ss) = set out \<union> {s \<in> set ss. s \<in> set supported}"
  "distinct out \<Longrightarrow> distinct (granted_loop supported out ss)"
  by (induction ss arbitrary: out) auto

lemma scopes_supported:
  "s \<in> set (oi_ScopesSupported (oauth_info E a)) \<longleftrightarrow>
     s \<in> set (oauthList (setting_text (setting_values a) ''mcp.oauth.allowed_scopes'')) \<and> s \<in> set MCPScopes \<and>
     setting_text (setting_values a) (scope_setting s) = ''true''"
  by (auto simp: oauth_info_def MCPOAuthConnection_def Let_def supported_loop_spec)

lemma mcpOAuthUser_Inr:
  assumes "mcpOAuthUser L E w c issuer t J = (Inr u, J')" and "users_wf (st (sj_app J))"
  shows "u_Status u = UserActive \<and> u_OIDCIssuer u = issuer \<and> u_OIDCSubject u = it_Subject t"
proof (cases "\<exists>x. db_GetUserByOIDC (st (sj_app J)) issuer (it_Subject t) = Inr x \<and> u_Status x = UserActive")
  case True
  then obtain x where x: "db_GetUserByOIDC (st (sj_app J)) issuer (it_Subject t) = Inr x" "u_Status x = UserActive" by blast
  then have "u = x" using assms(1) by (simp add: mcpOAuthUser_def Let_def)
  with x GetUserByOIDC_row [OF x(1)] show ?thesis by auto
next
  case False
  then obtain claims rt first a1 where
    r: "resolveOIDCIdentity L w (sj_app J) (WithActor c ''mcp_oauth'') rt claims ''mcp_oauth'' = (Inr (u, first), a1)"
    and e: "rt_Issuer rt = issuer" "oc_Subject claims = it_Subject t"
    using assms(1)
    by (auto simp: mcpOAuthUser_def Let_def split: sum.splits if_splits option.splits prod.splits)
  from resolve_sound [OF assms(2) r] e show ?thesis by (simp add: sso_sound_def bound_def)
qed

lemma mcp_oauth_ok:
  assumes "AuthenticateMCPOAuthTokenReason L E w c raw J = (Inr (g, remark), J')"
  obtains t k u where
    "oi_Enabled (oauth_info E (sj_app J))" "oi_Configured (oauth_info E (sj_app J))"
    "SettingBool (sj_app J) ''mcp.enabled''" "SettingBool (sj_app J) ''mcp.http_enabled''"
    "ip_verify (re_idp E) (oi_Issuer (oauth_info E (sj_app J))) raw = Some t"
    "oi_ResourceURL (oauth_info E (sj_app J)) \<in> set (it_Audience t)" "it_Access t = Some k" "access_valid w k"
    "ka_ClientID k \<in> set (oi_AllowedClientIDs (oauth_info E (sj_app J)))"
    "mcpOAuthUser L E w c (oi_Issuer (oauth_info E (sj_app J))) t J = (Inr u, J')"
    "og_Principal g = (principalFor u ''mcp_oauth'')
       \<lparr>p_MCPScopes := granted_loop (oi_ScopesSupported (oauth_info E (sj_app J))) [] (Fields (ka_Scope k))\<rparr>"
    "og_ClientID g = ka_ClientID k" "og_Issuer g = oi_Issuer (oauth_info E (sj_app J))" "og_ExpiresAt g = it_Expiry t"
  using assms
  by (auto simp: AuthenticateMCPOAuthTokenReason_def Let_def split: if_splits option.splits sum.splits prod.splits)

lemma oidc_bearer_ok:
  assumes "AuthenticateOIDCAccessToken E w a raw = Inr p"
  obtains rt t k u where "oidc_runtime (re_auth E) w a = Inr rt"
    "ip_verify (re_idp E) (rt_Issuer rt) raw = Some t" "it_Access t = Some k"
    "ka_ClientID k \<notin> set (oi_AllowedClientIDs (oauth_info E a))"
    "list_all (\<lambda>s. s \<notin> set MCPScopes) (Fields (ka_Scope k))"
    "db_GetUserByOIDC (st a) (rt_Issuer rt) (oc_Subject (the (it_Claims t))) = Inr u" "u_Status u = UserActive"
    "p = principalFor u ''oidc_bearer''"
  using assms
  by (auto simp: AuthenticateOIDCAccessToken_def verify_for_def Let_def list_all_iff list_ex_iff
      split: if_splits option.splits sum.splits)

section \<open>Examples\<close>

definition sample_url :: "string \<Rightarrow> string \<Rightarrow> url" where
  "sample_url host p = \<lparr>url_Scheme = ''https'', url_Opaque = [], url_HasUser = False, url_Host = host, url_Hostname = host,
     url_Path = p, url_RawPath = [], url_RawQuery = [], url_ForceQuery = False, url_Fragment = []\<rparr>"

definition sample_urls :: urls where
  "sample_urls = \<lparr>parse_url = map_of [(''https://mail.test/mcp'', sample_url ''mail.test'' ''/mcp''),
      (''https://idp.test'', sample_url ''idp.test'' []), (''https://agent.test/cb'', sample_url ''agent.test'' ''/cb''),
      (''https://idp.test/auth'', sample_url ''idp.test'' ''/auth''), (''https://idp.test/token'', sample_url ''idp.test'' ''/token'')],
     url_text = (\<lambda>u. url_Scheme u @ ''://'' @ url_Host u @ url_Path u)\<rparr>"

definition oauth_values :: "(string \<times> string) list" where
  "oauth_values = [(''mcp.enabled'', ''true''), (''mcp.http_enabled'', ''true''), (''mcp.oauth.enabled'', ''true''),
     (''mcp.oauth.resource_url'', ''https://mail.test/mcp''), (''auth.oidc.issuer'', ''https://idp.test''),
     (''auth.oidc.client_id'', ''postra''), (''mcp.oauth.allowed_client_ids'', ''agent''),
     (''mcp.oauth.allowed_scopes'', ''mail.read, mail.send''), (''mcp.permissions.read'', ''true''),
     (''mcp.oauth.proxy.enabled'', ''true''), (''mcp.oauth.proxy.client_id'', ''postra-proxy'')]"

definition oauth_app :: app where
  "oauth_app = sample_app\<lparr>setting_values := map_of oauth_values\<rparr>"

definition agent_token :: id_token where
  "agent_token = \<lparr>it_Subject = ''sub_9'', it_Audience = [''https://mail.test/mcp''], it_Nonce = [], it_Expiry = 2000,
     it_Claims = Some sample_claims,
     it_Access = Some \<lparr>ka_Type = ''Bearer'', ka_ClientID = ''agent'', ka_Scope = ''openid mail.read mail.send admin.write'',
       ka_Expires = 2000, ka_NotBefore = 0, ka_Confirmation = []\<rparr>\<rparr>"

definition sample_env :: resource_env where
  "sample_env = \<lparr>re_urls = sample_urls, re_started = ''/mcp'',
     re_idp = sample_idp\<lparr>ip_verify := (\<lambda>iss raw. if raw = ''a.b.c'' then Some agent_token else None)\<rparr>,
     re_verify_error = (\<lambda>iss raw. []), re_auth = sample_auth\<rparr>"

lemma sample_oauth:
  "oi_Enabled (oauth_info sample_env oauth_app)" "oi_Configured (oauth_info sample_env oauth_app)"
  "oi_Issuer (oauth_info sample_env oauth_app) = ''https://idp.test''"
  "oi_ResourceURL (oauth_info sample_env oauth_app) = ''https://mail.test/mcp''"
  "oi_AllowedClientIDs (oauth_info sample_env oauth_app) = [''agent'', ''postra-proxy'']"
  "oi_ScopesSupported (oauth_info sample_env oauth_app) = [''mail.read'']"
  "SettingBool oauth_app ''mcp.enabled''" "SettingBool oauth_app ''mcp.http_enabled''"
  by code_simp+

lemma oauth_app_rows: "users (st oauth_app) = []" "cfg oauth_app = sample_cfg" "system_settings (st oauth_app) = Map.empty"
  "sessions (st oauth_app) = []" "mcp_keys (st oauth_app) = []"
  by (simp_all add: oauth_app_def sample_app_def empty_store_def)

text \<open>
  The first token of an unknown subject creates a user, although the comment on the check says that nothing is
  provisioned here.
\<close>

lemma agent_user_provisioned:
  "\<exists>u J'. mcpOAuthUser sample_lib sample_env sample_io c ''https://idp.test'' agent_token (idle_jobs oauth_app) = (Inr u, J') \<and>
     users (st (sj_app J')) = [(u, [])]"
proof -
  have t: "TrimSpace (oc_Email sample_claims) \<noteq> []" by code_simp
  have s: "sample_claims\<lparr>oc_Subject := it_Subject agent_token\<rparr> = sample_claims" "it_Claims agent_token = Some sample_claims"
    by (simp_all add: agent_token_def sample_claims_def)
  let ?v = "SystemSettings_oidc (re_auth sample_env) oauth_app"
  let ?rt = "\<lparr>rt_Issuer = ''https://idp.test'', rt_ClientID = [], rt_ClientSecret = [], rt_SecretRef = [], rt_RedirectURL = [],
     rt_AdminGroup = TrimSpace (setting_text ?v ''auth.oidc.admin_group''),
     rt_AutoProvision = boolSetting ?v ''auth.oidc.auto_provision'' (OIDCAutoProvision (re_auth sample_env)),
     rt_AutoLogin = False\<rparr>"
  let ?c = "WithActor c ''mcp_oauth''"
  have auto: "rt_AutoProvision ?rt"
    by (simp add: SystemSettings_oidc_def oidc_defaults_def oauth_app_rows boolSetting_def ParseBool_def bool_text_def
        sample_env_def sample_auth_def)
  let ?u = "(sso_user sample_lib sample_io (st oauth_app) ?rt sample_claims)\<lparr>u_CreatedAt := 1000, u_UpdatedAt := 1000\<rparr>"
  obtain a1 where r: "resolveOIDCIdentity sample_lib sample_io oauth_app ?c ?rt sample_claims ''mcp_oauth'' = (Inr (?u, True), a1)"
    and a1: "users (st a1) = [(?u, [])]" "system_settings (st a1) = Map.empty"
    using auto
    by (simp add: resolveOIDCIdentity_def db_GetUserByOIDC_def oauth_app_rows sso_enrol_def linkExistingLocalUser_def
        oidcLinkCandidate_def db_GetUserByLogin_def db_GetUserByEmail_def emailUnverified_def sample_claims_def sample_login Let_def
        db_CreateUser_def user_clash_def no_row_def sample_io_def)
  have q: "tryAutoProvisionOIDCMail sample_lib sample_io ?c u J = J" if "system_settings (st (sj_app J)) = Map.empty" for u J
    using that by (simp add: tryAutoProvisionOIDCMail_def autoProvisionOIDCMail_def)
  have "mcpOAuthUser sample_lib sample_env sample_io c ''https://idp.test'' agent_token (idle_jobs oauth_app) =
    (Inr ?u, (idle_jobs oauth_app)\<lparr>sj_app := a1\<rparr>)"
    using q [of "(idle_jobs oauth_app)\<lparr>sj_app := a1\<rparr>" ?u] a1(2)
    by (simp add: mcpOAuthUser_def idle_jobs_def db_GetUserByOIDC_def oauth_app_rows s r t Let_def)
  with a1(1) show ?thesis by (intro exI [of _ ?u] exI [of _ "(idle_jobs oauth_app)\<lparr>sj_app := a1\<rparr>"]) simp
qed

lemma sample_agent:
  "\<exists>g J'. AuthenticateMCPOAuthTokenReason sample_lib sample_env sample_io c ''a.b.c'' (idle_jobs oauth_app) = (Inr (g, []), J') \<and>
     p_MCPScopes (og_Principal g) = [''mail.read'']"
proof -
  obtain u J' where u: "mcpOAuthUser sample_lib sample_env sample_io c ''https://idp.test'' agent_token (idle_jobs oauth_app) = (Inr u, J')"
    using agent_user_provisioned by blast
  have t: "TrimSpace (it_Subject agent_token) \<noteq> []" "Count ''a.b.c'' ''.'' = 2"
    "granted_loop [''mail.read''] [] (Fields ''openid mail.read mail.send admin.write'') = [''mail.read'']" by code_simp+
  have "ip_verify (re_idp sample_env) iss ''a.b.c'' = Some agent_token" "ip_discover (re_idp sample_env) iss = None" for iss
    by (simp_all add: sample_env_def sample_idp_def)
  moreover have "it_Audience agent_token = [''https://mail.test/mcp'']"
    "it_Access agent_token = Some \<lparr>ka_Type = ''Bearer'', ka_ClientID = ''agent'',
       ka_Scope = ''openid mail.read mail.send admin.write'', ka_Expires = 2000, ka_NotBefore = 0, ka_Confirmation = []\<rparr>"
    by (simp_all add: agent_token_def)
  moreover have "sj_app (idle_jobs oauth_app) = oauth_app" by (simp add: idle_jobs_def)
  ultimately show ?thesis
    by (simp add: AuthenticateMCPOAuthTokenReason_def sample_oauth t u access_valid_def sample_io_def [THEN arg_cong, of now] Let_def)
qed

text \<open>A user's own token for the web client, and that user.\<close>

definition rest_token :: id_token where
  "rest_token = agent_token\<lparr>it_Audience := [''postra''],
     it_Claims := Some (sample_claims\<lparr>oc_AuthorizedParty := ''postra'', oc_Audience := AudString ''postra''\<rparr>),
     it_Access := Some \<lparr>ka_Type = ''Bearer'', ka_ClientID = ''postra'', ka_Scope = ''openid'', ka_Expires = 2000,
       ka_NotBefore = 0, ka_Confirmation = []\<rparr>\<rparr>"

definition rest_env :: resource_env where
  "rest_env = sample_env\<lparr>re_idp := sample_idp\<lparr>ip_verify := (\<lambda>iss raw. if raw = ''a.b.c'' then Some rest_token else None)\<rparr>\<rparr>"

definition rest_app :: app where
  "rest_app = oauth_app\<lparr>st := (st oauth_app)\<lparr>users := [(sso_user sample_lib sample_io (st oauth_app) sample_rt sample_claims, [])]\<rparr>\<rparr>"

lemma sample_rest: "\<exists>p. AuthenticateOIDCAccessToken rest_env sample_io rest_app ''a.b.c'' = Inr p"
proof -
  have info: "oauth_info rest_env rest_app = oauth_info sample_env oauth_app"
    by (simp add: oauth_info_def rest_env_def sample_env_def rest_app_def)
  have rt: "oidc_runtime (re_auth rest_env) sample_io rest_app = Inr sample_rt"
    by (simp add: rest_env_def sample_env_def) (rule sample_runtime, simp add: rest_app_def oauth_app_rows)
  have p: "ip_verify (re_idp rest_env) iss ''a.b.c'' = Some rest_token" "ip_discover (re_idp rest_env) iss = None" for iss
    by (simp_all add: rest_env_def sample_idp_def)
  have f: "list_ex (\<lambda>s. contains MCPScopes s) (Fields ''openid'') = False" by code_simp
  let ?u = "sso_user sample_lib sample_io (st oauth_app) sample_rt sample_claims"
  have rows: "users (st rest_app) = [(?u, [])]" by (simp add: rest_app_def)
  have u: "u_OIDCIssuer ?u = ''https://idp.test''" "u_OIDCSubject ?u = ''sub_9''" "u_Status ?u = UserActive"
    by (simp_all add: sso_user_def Let_def sample_rt_def sample_claims_def)
  have g: "db_GetUserByOIDC (st rest_app) ''https://idp.test'' ''sub_9'' = Inr ?u"
    by (simp add: db_GetUserByOIDC_def rows u)
  have s: "rt_Issuer sample_rt = ''https://idp.test''" "rt_ClientID sample_rt = ''postra''" "now sample_io = 1000"
    "it_Audience rest_token = [''postra'']"
    "it_Claims rest_token = Some (sample_claims\<lparr>oc_AuthorizedParty := ''postra'', oc_Audience := AudString ''postra''\<rparr>)"
    "it_Access rest_token = Some \<lparr>ka_Type = ''Bearer'', ka_ClientID = ''postra'', ka_Scope = ''openid'', ka_Expires = 2000,
       ka_NotBefore = 0, ka_Confirmation = []\<rparr>" "oc_Subject sample_claims = ''sub_9''"
    by (simp_all add: sample_rt_def sample_io_def rest_token_def sample_claims_def)
  show ?thesis
    by (simp add: AuthenticateOIDCAccessToken_def verify_for_def p info sample_oauth rt f s access_valid_def tokenForClient_def g u)
qed

section \<open>Properties\<close>



text \<open>
  No token serves both as a user's unrestricted credential of the REST interface and as an agent's: what one check
  accepts the other refuses, as long as a token reads the same whichever issuer it is verified for.
\<close>

theorem bearer_kinds_disjoint:
  assumes "\<And>i i' t t'. ip_verify (re_idp E) i raw = Some t \<Longrightarrow> ip_verify (re_idp E) i' raw = Some t' \<Longrightarrow> t = t'"
    and "AuthenticateOIDCAccessToken E w (sj_app J) raw = Inr p"
  shows "isl (fst (AuthenticateMCPOAuthTokenReason L E w' c raw J))"
proof -
  obtain q J' where q: "AuthenticateMCPOAuthTokenReason L E w' c raw J = (q, J')" by (rule prod.exhaust)
  show ?thesis
  proof (cases q)
    case (Inr x)
    obtain g remark where x: "x = (g, remark)" by (rule prod.exhaust)
    from q [unfolded Inr x] obtain t k where
      m: "ip_verify (re_idp E) (oi_Issuer (oauth_info E (sj_app J))) raw = Some t" "it_Access t = Some k"
         "ka_ClientID k \<in> set (oi_AllowedClientIDs (oauth_info E (sj_app J)))" by (rule mcp_oauth_ok) blast
    from assms(2) obtain rt :: oidcRuntime and t' k' where
      r: "ip_verify (re_idp E) (rt_Issuer rt) raw = Some t'" "it_Access t' = Some k'"
         "ka_ClientID k' \<notin> set (oi_AllowedClientIDs (oauth_info E (sj_app J)))" by (rule oidc_bearer_ok) blast
    show ?thesis using assms(1) [OF m(1) r(1)] m(2,3) r(2,3) by simp
  qed (use q in simp)
qed

theorem bearer_kinds_disjoint_witness:
  "isl (fst (AuthenticateMCPOAuthTokenReason sample_lib rest_env sample_io (sample_ctx ''rest'' []) ''a.b.c'' (idle_jobs rest_app)))"
proof -
  obtain p where p: "AuthenticateOIDCAccessToken rest_env sample_io (sj_app (idle_jobs rest_app)) ''a.b.c'' = Inr p"
    using sample_rest by (auto simp: idle_jobs_def)
  have "t = t'" if "ip_verify (re_idp rest_env) i ''a.b.c'' = Some t" "ip_verify (re_idp rest_env) i' ''a.b.c'' = Some t'" for i i' t t'
    using that by (simp add: rest_env_def)
  from bearer_kinds_disjoint [OF this p] show ?thesis .
qed

end
