(* ===== verification/Mcp_Oauth_Proxy.thy ===== *)
theory Mcp_Oauth_Proxy
  imports Mcp_Oauth
begin

text \<open>
  The authorization server that agents see (\<open>src/internal/application/mcp_oauth_proxy.go\<close>): clients register
  themselves, a person confirms in the browser what a client asks for, the provider authenticates that person, and the
  client redeems its code.  Between these steps the server keeps nothing; it hands out sealed envelopes.  The provider's
  endpoints, the cipher and the JSON texts are arguments.
\<close>

section \<open>Registered clients\<close>

record MCPOAuthClient =
  xc_ID :: string
  xc_Name :: string
  xc_SecretHash :: string
  xc_RedirectURIs :: "string list"
  xc_AuthMethod :: string
  xc_CreatedAt :: int
  xc_LastUsedAt :: int

definition db_CreateMCPOAuthClient :: "MCPOAuthClient list \<Rightarrow> MCPOAuthClient \<Rightarrow> err + MCPOAuthClient list" where
  "db_CreateMCPOAuthClient cs x =
     (if \<not> no_row (\<lambda>r. xc_ID r = xc_ID x) cs then Inl (UniqueViolation ''mcp_oauth_clients.id'') else Inr (cs @ [x]))"

definition db_GetMCPOAuthClient :: "MCPOAuthClient list \<Rightarrow> string \<Rightarrow> err + MCPOAuthClient" where
  "db_GetMCPOAuthClient cs i = (case find (\<lambda>r. xc_ID r = i) cs of None \<Rightarrow> Inl ErrNotFound | Some x \<Rightarrow> Inr x)"

definition db_CountMCPOAuthClients :: "MCPOAuthClient list \<Rightarrow> nat" where
  "db_CountMCPOAuthClients cs = length cs"

definition db_TouchMCPOAuthClient :: "MCPOAuthClient list \<Rightarrow> string \<Rightarrow> int \<Rightarrow> MCPOAuthClient list" where
  "db_TouchMCPOAuthClient cs i ts = upd_where (\<lambda>r. xc_ID r = i) (\<lambda>r. r\<lparr>xc_LastUsedAt := ts\<rparr>) cs"

definition db_DeleteMCPOAuthClient :: "MCPOAuthClient list \<Rightarrow> string \<Rightarrow> err + MCPOAuthClient list" where
  "db_DeleteMCPOAuthClient cs i =
     (if no_row (\<lambda>r. xc_ID r = i) cs then Inl ErrNotFound else Inr (del_where (\<lambda>r. xc_ID r = i) cs))"

definition db_PruneMCPOAuthClients :: "MCPOAuthClient list \<Rightarrow> int \<Rightarrow> MCPOAuthClient list" where
  "db_PruneMCPOAuthClients cs unusedBefore = del_where (\<lambda>r. max (xc_CreatedAt r) (xc_LastUsedAt r) < unusedBefore) cs"

definition db_ListMCPOAuthClients :: "MCPOAuthClient list \<Rightarrow> MCPOAuthClient list" where
  "db_ListMCPOAuthClients cs = sort_key (\<lambda>x. - xc_CreatedAt x) cs"

section \<open>Envelopes\<close>

record oauthProxyConsent =
  cs_ClientID :: string
  cs_RedirectURI :: string
  cs_State :: string
  cs_CodeChallenge :: string
  cs_Scopes :: "string list"
  cs_Nonce :: string
  cs_ExpiresAt :: int

record oauthProxyState =
  ps_ClientID :: string
  ps_RedirectURI :: string
  ps_State :: string
  ps_CodeChallenge :: string
  ps_Scopes :: "string list"
  ps_Verifier :: string
  ps_Nonce :: string
  ps_ExpiresAt :: int

record oauthProxyCode =
  cd_ClientID :: string
  cd_RedirectURI :: string
  cd_CodeChallenge :: string
  cd_Scopes :: "string list"
  cd_UpstreamCode :: string
  cd_Verifier :: string
  cd_Nonce :: string
  cd_ExpiresAt :: int

record oauthProxyRefresh =
  rf_ClientID :: string
  rf_UpstreamRefresh :: string

text \<open>AES-GCM under the key of the proxy (nonce, associated data, text), and the JSON texts of the envelopes.\<close>

record sealer =
  ae_seal :: "string \<Rightarrow> string \<Rightarrow> string \<Rightarrow> string"
  ae_open :: "string \<Rightarrow> string \<Rightarrow> string \<Rightarrow> string option"
  js_consent :: "oauthProxyConsent \<Rightarrow> string"
  un_consent :: "string \<Rightarrow> oauthProxyConsent option"
  js_state :: "oauthProxyState \<Rightarrow> string"
  un_state :: "string \<Rightarrow> oauthProxyState option"
  js_code :: "oauthProxyCode \<Rightarrow> string"
  un_code :: "string \<Rightarrow> oauthProxyCode option"
  js_refresh :: "oauthProxyRefresh \<Rightarrow> string"
  un_refresh :: "string \<Rightarrow> oauthProxyRefresh option"

definition sealOAuthProxy :: "sealer \<Rightarrow> io \<Rightarrow> string \<Rightarrow> string \<Rightarrow> string" where
  "sealOAuthProxy Z w kind plain =
     (let nonce = rand_bytes w 0 12 in b64_encode b64_url (nonce @ ae_seal Z nonce kind plain))"

definition openOAuthProxy :: "sealer \<Rightarrow> string \<Rightarrow> string \<Rightarrow> string option" where
  "openOAuthProxy Z kind raw =
     (if length raw > 16384 then None
      else case b64_decode b64_url raw of
             None \<Rightarrow> None
           | Some d \<Rightarrow> if length d < 12 then None else ae_open Z (take 12 d) kind (drop 12 d))"

definition open_as :: "sealer \<Rightarrow> string \<Rightarrow> (string \<Rightarrow> 'x option) \<Rightarrow> string \<Rightarrow> 'x option" where
  "open_as Z kind un raw = (case openOAuthProxy Z kind raw of None \<Rightarrow> None | Some plain \<Rightarrow> un plain)"

section \<open>State and errors\<close>

text \<open>
  The last field is there for the theorems only: every envelope the server has sealed, each with the one that led to
  it.
\<close>

datatype sealed_item =
    SConsent oauthProxyConsent MCPOAuthClient
  | SState oauthProxyState oauthProxyConsent
  | SCode oauthProxyCode oauthProxyState
  | SRefresh oauthProxyRefresh

record proxy =
  pr_jobs :: sync_jobs
  pr_clients :: "MCPOAuthClient list"
  pr_sealed :: "sealed_item list"

abbreviation pr_app :: "proxy \<Rightarrow> app" where "pr_app P \<equiv> sj_app (pr_jobs P)"

definition pr_audit :: "proxy \<Rightarrow> io \<Rightarrow> ctx \<Rightarrow> string \<Rightarrow> string \<Rightarrow> string \<Rightarrow> string \<Rightarrow> proxy" where
  "pr_audit P w c action res outcome detail =
     P\<lparr>pr_jobs := (pr_jobs P)\<lparr>sj_app := app_audit (pr_app P) w c action res outcome detail\<rparr>\<rparr>"

record MCPOAuthProxyError =
  pe_Code :: string
  pe_Description :: string
  pe_Status :: int
  pe_RedirectURI :: string
  pe_State :: string

datatype proxy_fault = OAuthFault MCPOAuthProxyError | OtherFault err

definition oauthErr :: "int \<Rightarrow> string \<Rightarrow> string \<Rightarrow> proxy_fault" where
  "oauthErr status code description =
     OAuthFault \<lparr>pe_Code = code, pe_Description = description, pe_Status = status, pe_RedirectURI = [], pe_State = []\<rparr>"

definition MCPOAuthProxy :: "resource_env \<Rightarrow> app \<Rightarrow> MCPOAuthInfo \<times> bool" where
  "MCPOAuthProxy E a =
     (let oi = oauth_info E a
      in (oi, oi_Enabled oi \<and> oi_Configured oi \<and> px_Enabled (oi_Proxy oi) \<and> px_Configured (oi_Proxy oi) \<and>
              SettingBool a ''mcp.enabled'' \<and> SettingBool a ''mcp.http_enabled''))"

section \<open>Registration\<close>

definition isLoopbackHost :: "lib \<Rightarrow> string \<Rightarrow> bool" where
  "isLoopbackHost L host = (ToLower (uni_lower L) host \<in> set [''localhost'', ''127.0.0.1'', ''::1''])"

definition validOAuthRedirectURI :: "lib \<Rightarrow> urls \<Rightarrow> string \<Rightarrow> bool" where
  "validOAuthRedirectURI L U raw =
     (if raw = [] \<or> length raw > 2048 \<or> TrimSpace raw \<noteq> raw \<or>
         ContainsAny raw [CHR ''#'', CHR 0x5C, CHR '' '', CHR 0x09, CHR 0x0D, CHR 0x0A] then False
      else case parse_url U raw of
             None \<Rightarrow> False
           | Some u \<Rightarrow>
               if url_Scheme u = [] \<or> url_HasUser u \<or> url_Fragment u \<noteq> [] then False
               else (let s = ToLower (uni_lower L) (url_Scheme u)
                     in if s = ''https'' then url_Hostname u \<noteq> []
                        else if s = ''http'' then isLoopbackHost L (url_Hostname u)
                        else if s \<in> set [''javascript'', ''data'', ''vbscript'', ''file'', ''blob'', ''about'', ''ftp''] then False
                        else list_all (\<lambda>ch. ascii_alnum ch \<or> ch \<in> set ''.-+'') (url_Scheme u)))"

definition redirectURIMatches :: "lib \<Rightarrow> urls \<Rightarrow> string \<Rightarrow> string \<Rightarrow> bool" where
  "redirectURIMatches L U registered requested =
     (if registered = requested then True
      else case (parse_url U registered, parse_url U requested) of
             (Some a, Some b) \<Rightarrow>
               if url_Scheme a \<noteq> ''http'' \<or> url_Scheme b \<noteq> ''http'' \<or> \<not> isLoopbackHost L (url_Hostname a) \<or>
                  url_Hostname a \<noteq> url_Hostname b then False
               else url_Path a = url_Path b \<and> url_RawQuery a = url_RawQuery b \<and> \<not> url_HasUser a \<and> \<not> url_HasUser b \<and>
                    url_Fragment b = []
           | _ \<Rightarrow> False)"

text \<open>Control characters of a valid UTF-8 text: the bytes below 32, 127, and U+0080 to U+009F.\<close>

fun drop_controls :: "string \<Rightarrow> string" where
  "drop_controls [] = []"
| "drop_controls [x] = (if byte x < 32 \<or> byte x = 127 then [] else [x])"
| "drop_controls (x # y # r) =
     (if byte x < 32 \<or> byte x = 127 then drop_controls (y # r)
      else if byte x = 0xC2 \<and> 0x80 \<le> byte y \<and> byte y < 0xA0 then drop_controls r
      else x # drop_controls (y # r))"

definition cleanClientName :: "string \<Rightarrow> string" where
  "cleanClientName name = take 200 (drop_controls (TrimSpace name))"

record MCPOAuthClientRegistration =
  rg_RedirectURIs :: "string list"
  rg_AuthMethod :: string
  rg_GrantTypes :: "string list"
  rg_ResponseTypes :: "string list"
  rg_ClientName :: string
  rg_Scope :: string

record MCPOAuthClientRegistered =
  rd_ClientID :: string
  rd_ClientSecret :: string
  rd_IssuedAt :: int
  rd_ClientName :: string
  rd_RedirectURIs :: "string list"
  rd_SecretExpiresAt :: int
  rd_AuthMethod :: string
  rd_GrantTypes :: "string list"
  rd_ResponseTypes :: "string list"
  rd_Scope :: string

definition oauthProxyClientMaxIdle :: int where "oauthProxyClientMaxIdle = 30 * 24 * 3600"
definition oauthProxyClientLimit :: nat where "oauthProxyClientLimit = 500"

definition auth_methods :: "string list" where
  "auth_methods = [''none'', ''client_secret_basic'', ''client_secret_post'']"

text \<open>What is wrong with a registration, if anything; the client it asks for.\<close>

definition checkRegistration :: "lib \<Rightarrow> urls \<Rightarrow> MCPOAuthClientRegistration \<Rightarrow> proxy_fault option" where
  "checkRegistration L U req =
     (if rg_RedirectURIs req = [] \<or> length (rg_RedirectURIs req) > 10
      then Some (oauthErr 400 ''invalid_redirect_uri'' ''redirect_uris must list 1 to 10 HTTPS, loopback or native-app URIs'')
      else if \<not> list_all (validOAuthRedirectURI L U) (rg_RedirectURIs req)
      then Some (oauthErr 400 ''invalid_redirect_uri'' ''redirect_uris must be HTTPS, loopback HTTP or a native-app scheme without fragments or credentials'')
      else if rg_AuthMethod req \<noteq> [] \<and> rg_AuthMethod req \<notin> set auth_methods
      then Some (oauthErr 400 ''invalid_client_metadata'' ''token_endpoint_auth_method must be none, client_secret_basic or client_secret_post'')
      else if \<not> list_all (\<lambda>g. g = ''authorization_code'' \<or> g = ''refresh_token'') (rg_GrantTypes req)
      then Some (oauthErr 400 ''invalid_client_metadata'' ''only authorization_code and refresh_token grants are supported'')
      else if \<not> list_all (\<lambda>g. g = ''code'') (rg_ResponseTypes req)
      then Some (oauthErr 400 ''invalid_client_metadata'' ''only the code response type is supported'')
      else None)"

definition new_client :: "lib \<Rightarrow> io \<Rightarrow> MCPOAuthClientRegistration \<Rightarrow> MCPOAuthClient" where
  "new_client L w req =
     (let method = (if rg_AuthMethod req = [] then ''client_secret_basic'' else rg_AuthMethod req)
      in \<lparr>xc_ID = ''dcr-'' @ hex (rand_bytes w 0 16), xc_Name = cleanClientName (rg_ClientName req),
          xc_SecretHash = (if method = ''none'' then [] else tokenHash L (token w 0 32)),
          xc_RedirectURIs = rev (remdups (rev (rg_RedirectURIs req))), xc_AuthMethod = method, xc_CreatedAt = now w,
          xc_LastUsedAt = 0\<rparr>)"

definition RegisterMCPOAuthClient ::
  "lib \<Rightarrow> resource_env \<Rightarrow> io \<Rightarrow> ctx \<Rightarrow> MCPOAuthClientRegistration \<Rightarrow> proxy
     \<Rightarrow> (proxy_fault + MCPOAuthClientRegistered) \<times> proxy" where
  "RegisterMCPOAuthClient L E w c req P =
     (if \<not> snd (MCPOAuthProxy E (pr_app P))
      then (Inl (oauthErr 404 ''invalid_request'' ''dynamic client registration is not enabled''), P)
      else case checkRegistration L (re_urls E) req of
             Some e \<Rightarrow> (Inl e, P)
           | None \<Rightarrow>
               (let clients = db_PruneMCPOAuthClients (pr_clients P) (now w - oauthProxyClientMaxIdle);
                    P1 = P\<lparr>pr_clients := clients\<rparr>; x = new_client L w req
                in if db_CountMCPOAuthClients clients \<ge> oauthProxyClientLimit
                   then (Inl (oauthErr 429 ''invalid_client_metadata'' ''too many registered clients; ask the administrator to remove unused registrations''), P1)
                   else case db_CreateMCPOAuthClient clients x of
                          Inl e \<Rightarrow> (Inl (OtherFault e), P1)
                        | Inr cs \<Rightarrow>
                            (Inr \<lparr>rd_ClientID = xc_ID x, rd_ClientSecret = (if xc_AuthMethod x = ''none'' then [] else token w 0 32),
                                  rd_IssuedAt = now w, rd_ClientName = xc_Name x, rd_RedirectURIs = xc_RedirectURIs x,
                                  rd_SecretExpiresAt = 0, rd_AuthMethod = xc_AuthMethod x,
                                  rd_GrantTypes = [''authorization_code'', ''refresh_token''], rd_ResponseTypes = [''code''],
                                  rd_Scope = join '' '' (oi_ScopesSupported (oauth_info E (pr_app P)))\<rparr>,
                             pr_audit (P1\<lparr>pr_clients := cs\<rparr>) w (WithActor c ''mcp_oauth_proxy'') ''mcp_oauth_client_register''
                               (''oauth_client:'' @ xc_ID x) ''ok'' (xc_Name x))))"

definition ListMCPOAuthClients :: "ctx \<Rightarrow> proxy \<Rightarrow> err + MCPOAuthClient list" where
  "ListMCPOAuthClients c P =
     (case requireAdmin c of Inl e \<Rightarrow> Inl e | Inr p \<Rightarrow> Inr (db_ListMCPOAuthClients (pr_clients P)))"

definition DeleteMCPOAuthClient :: "io \<Rightarrow> ctx \<Rightarrow> string \<Rightarrow> proxy \<Rightarrow> err option \<times> proxy" where
  "DeleteMCPOAuthClient w c i P =
     (case requireAdmin c of
        Inl e \<Rightarrow> (Some e, P)
      | Inr p \<Rightarrow>
          (case db_DeleteMCPOAuthClient (pr_clients P) i of
             Inl e \<Rightarrow> (Some e, P)
           | Inr cs \<Rightarrow> (None, pr_audit (P\<lparr>pr_clients := cs\<rparr>) w c ''mcp_oauth_client_delete'' (''oauth_client:'' @ i) ''ok'' [])))"

section \<open>Authorization\<close>

record MCPOAuthAuthorizeRequest =
  az_ResponseType :: string
  az_ClientID :: string
  az_RedirectURI :: string
  az_State :: string
  az_Scope :: string
  az_CodeChallenge :: string
  az_CodeChallengeMethod :: string
  az_Resource :: string

definition IsPreregisteredMCPOAuthClient :: "resource_env \<Rightarrow> app \<Rightarrow> string \<Rightarrow> bool" where
  "IsPreregisteredMCPOAuthClient E a i =
     (let (oi, on) = MCPOAuthProxy E a
      in on \<and> i \<noteq> [] \<and> i \<noteq> px_ClientID (oi_Proxy oi) \<and> contains (oi_AllowedClientIDs oi) i)"

definition validPKCEChallenge :: "string \<Rightarrow> bool" where
  "validPKCEChallenge v =
     (43 \<le> length v \<and> length v \<le> 128 \<and> list_all (\<lambda>ch. ascii_alnum ch \<or> ch \<in> set ''-._~'') v)"

definition resolveProxyScopes :: "MCPOAuthInfo \<Rightarrow> string \<Rightarrow> string list" where
  "resolveProxyScopes oi requested =
     (let out = granted_loop (oi_ScopesSupported oi) [] (Fields requested)
      in if out \<noteq> [] then out else filter (contains (oi_ScopesSupported oi)) DefaultMCPScopes)"

definition normal_resource :: "lib \<Rightarrow> urls \<Rightarrow> string \<Rightarrow> string" where
  "normal_resource L U raw =
     (case parse_url U raw of
        None \<Rightarrow> raw
      | Some u \<Rightarrow> url_text U (u\<lparr>url_Scheme := ToLower (uni_lower L) (url_Scheme u), url_Host := ToLower (uni_lower L) (url_Host u),
                               url_Path := TrimSuffix (url_Path u) ''/''\<rparr>))"

definition sameOAuthResource :: "lib \<Rightarrow> urls \<Rightarrow> string \<Rightarrow> string \<Rightarrow> bool" where
  "sameOAuthResource L U requested configured = (normal_resource L U requested = normal_resource L U configured)"

record MCPOAuthConsent =
  ct_ClientID :: string
  ct_ClientName :: string
  ct_RedirectURI :: string
  ct_Scopes :: "string list"
  ct_Request :: string

definition oauthProxyStateTTL :: int where "oauthProxyStateTTL = 600"
definition oauthProxyCodeTTL :: int where "oauthProxyCodeTTL = 90"

definition msg_unknown_client :: string where
  "msg_unknown_client = ''this deployment no longer knows this client registration. Remove the Postra connection in your MCP client and add it again so it registers anew.''"

definition PrepareMCPOAuthProxy ::
  "lib \<Rightarrow> resource_env \<Rightarrow> sealer \<Rightarrow> io \<Rightarrow> MCPOAuthAuthorizeRequest \<Rightarrow> string \<Rightarrow> proxy
     \<Rightarrow> (proxy_fault + MCPOAuthConsent) \<times> proxy" where
  "PrepareMCPOAuthProxy L E Z w req nonce P =
     (let (oi, on) = MCPOAuthProxy E (pr_app P)
      in if \<not> on then (Inl (oauthErr 404 ''invalid_request'' ''OAuth proxy is not enabled''), P)
         else if az_ClientID req = [] \<or> length (az_ClientID req) > 128
         then (Inl (oauthErr 400 ''invalid_client'' ''client_id is required''), P)
         else case db_GetMCPOAuthClient (pr_clients P) (az_ClientID req) of
                Inl e \<Rightarrow> (Inl (oauthErr 400 ''invalid_client'' msg_unknown_client), P)
              | Inr x \<Rightarrow>
                  if az_RedirectURI req = [] \<and> length (xc_RedirectURIs x) \<noteq> 1
                  then (Inl (oauthErr 400 ''invalid_request'' ''redirect_uri is required''), P)
                  else
                    (let uri = (if az_RedirectURI req = [] then hd (xc_RedirectURIs x) else az_RedirectURI req);
                         fail = (\<lambda>code description. Inl (OAuthFault \<lparr>pe_Code = code, pe_Description = description, pe_Status = 302,
                                    pe_RedirectURI = uri, pe_State = az_State req\<rparr>));
                         scopes = resolveProxyScopes oi (az_Scope req)
                     in if \<not> list_ex (\<lambda>registered. redirectURIMatches L (re_urls E) registered uri) (xc_RedirectURIs x)
                        then (Inl (oauthErr 400 ''invalid_request'' ''redirect_uri does not match the registered redirect URIs''), P)
                        else if length (az_State req) > 2048 then (fail ''invalid_request'' ''state is too long'', P)
                        else if az_ResponseType req \<noteq> ''code''
                        then (fail ''unsupported_response_type'' ''only response_type=code is supported'', P)
                        else if az_CodeChallengeMethod req \<noteq> ''S256'' \<or> \<not> validPKCEChallenge (az_CodeChallenge req)
                        then (fail ''invalid_request'' ''PKCE with code_challenge_method=S256 is required'', P)
                        else if az_Resource req \<noteq> [] \<and> \<not> sameOAuthResource L (re_urls E) (az_Resource req) (oi_ResourceURL oi)
                        then (fail ''invalid_target'' (''resource must be '' @ oi_ResourceURL oi), P)
                        else if scopes = []
                        then (fail ''invalid_scope'' (''no requested scope is allowed here; supported scopes: '' @
                                join '' '' (oi_ScopesSupported oi)), P)
                        else if nonce = [] then (Inl (OtherFault (SysError ''consent nonce is required'')), P)
                        else
                          (let cs = \<lparr>cs_ClientID = xc_ID x, cs_RedirectURI = uri, cs_State = az_State req,
                                     cs_CodeChallenge = az_CodeChallenge req, cs_Scopes = scopes, cs_Nonce = nonce,
                                     cs_ExpiresAt = now w + oauthProxyStateTTL\<rparr>
                           in (Inr \<lparr>ct_ClientID = xc_ID x, ct_ClientName = xc_Name x, ct_RedirectURI = uri, ct_Scopes = scopes,
                                    ct_Request = sealOAuthProxy Z w ''consent'' (js_consent Z cs)\<rparr>,
                               P\<lparr>pr_sealed := SConsent cs x # pr_sealed P\<rparr>))))"

text \<open>The provider: its two endpoints, and what it answers to a code or a refresh token.\<close>

record upstream_token =
  ut_AccessToken :: string
  ut_SecondsLeft :: "int option"
  ut_RefreshToken :: string

record upstream =
  us_endpoints :: "string \<Rightarrow> (string \<times> string) option"
  us_exchange :: "string \<Rightarrow> string \<Rightarrow> string \<Rightarrow> string + upstream_token"
  us_refresh :: "string \<Rightarrow> string \<Rightarrow> upstream_token option"

definition UpstreamMCPOAuthEndpoints :: "resource_env \<Rightarrow> upstream \<Rightarrow> app \<Rightarrow> (string \<times> string) option" where
  "UpstreamMCPOAuthEndpoints E V a =
     (let (oi, on) = MCPOAuthProxy E a
      in if \<not> on \<or> ip_discover (re_idp E) (oi_Issuer oi) \<noteq> None then None
         else case us_endpoints V (oi_Issuer oi) of
                None \<Rightarrow> None
              | Some (auth, tok) \<Rightarrow>
                  if validOAuthURL (re_urls E) auth \<and> validOAuthURL (re_urls E) tok then Some (auth, tok) else None)"

text \<open>
  Where the browser goes next: back to the client with parameters added to its address, or on to the provider with the
  proxy's client, its callback, the scopes, the sealed state, the verifier whose challenge is sent, and the resource.
\<close>

datatype redirect =
    ToClient string "(string \<times> string) list"
  | ToProvider string string "string list" string string string

definition BeginMCPOAuthProxy ::
  "resource_env \<Rightarrow> upstream \<Rightarrow> sealer \<Rightarrow> io \<Rightarrow> ctx \<Rightarrow> string \<Rightarrow> string \<Rightarrow> string \<Rightarrow> bool \<Rightarrow> proxy
     \<Rightarrow> (proxy_fault + redirect) \<times> proxy" where
  "BeginMCPOAuthProxy E V Z w c verifier sealedRequest nonce allow P =
     (let (oi, on) = MCPOAuthProxy E (pr_app P);
          bad = Inl (oauthErr 400 ''invalid_request'' ''the consent request is missing, invalid or expired; start the connection again from the MCP client'')
      in if \<not> on then (Inl (oauthErr 404 ''invalid_request'' ''OAuth proxy is not enabled''), P)
         else case open_as Z ''consent'' (un_consent Z) sealedRequest of
                None \<Rightarrow> (bad, P)
              | Some cs \<Rightarrow>
                  if now w > cs_ExpiresAt cs \<or> nonce = [] \<or> cs_Nonce cs \<noteq> nonce then (bad, P)
                  else case db_GetMCPOAuthClient (pr_clients P) (cs_ClientID cs) of
                         Inl e \<Rightarrow> (Inl (oauthErr 400 ''invalid_client'' ''this client registration no longer exists. Remove the Postra connection in your MCP client and add it again so it registers anew.''), P)
                       | Inr x \<Rightarrow>
                           if \<not> allow
                           then (Inr (ToClient (cs_RedirectURI cs) ([(''error'', ''access_denied''),
                                   (''error_description'', ''the user refused the connection'')] @
                                   (if cs_State cs \<noteq> [] then [(''state'', cs_State cs)] else []))), P)
                           else case UpstreamMCPOAuthEndpoints E V (pr_app P) of
                                  None \<Rightarrow>
                                    (Inl (OAuthFault \<lparr>pe_Code = ''temporarily_unavailable'',
                                            pe_Description = ''the upstream authorization server could not be discovered'',
                                            pe_Status = 302, pe_RedirectURI = cs_RedirectURI cs, pe_State = cs_State cs\<rparr>), P)
                                | Some ep \<Rightarrow>
                                    (let ps = \<lparr>ps_ClientID = xc_ID x, ps_RedirectURI = cs_RedirectURI cs, ps_State = cs_State cs,
                                               ps_CodeChallenge = cs_CodeChallenge cs, ps_Scopes = cs_Scopes cs,
                                               ps_Verifier = verifier, ps_Nonce = token w 0 16,
                                               ps_ExpiresAt = now w + oauthProxyStateTTL\<rparr>;
                                         P1 = P\<lparr>pr_sealed := SState ps cs # pr_sealed P,
                                                pr_clients := db_TouchMCPOAuthClient (pr_clients P) (xc_ID x) (now w)\<rparr>
                                     in (Inr (ToProvider (px_ClientID (oi_Proxy oi)) (px_CallbackURL (oi_Proxy oi))
                                                (''openid'' # cs_Scopes cs) (sealOAuthProxy Z w ''state'' (js_state Z ps)) verifier
                                                (oi_ResourceURL oi)),
                                         pr_audit P1 w (WithActor c ''mcp_oauth_proxy'') ''mcp_oauth_proxy_consent''
                                           (''oauth_client:'' @ xc_ID x) ''ok'' (cs_RedirectURI cs))))"

definition passed_on_errors :: "string list" where
  "passed_on_errors = [''access_denied'', ''login_required'', ''interaction_required'', ''consent_required'', ''invalid_scope'',
     ''unauthorized_client'', ''server_error'', ''temporarily_unavailable'']"

definition CompleteMCPOAuthProxy ::
  "resource_env \<Rightarrow> sealer \<Rightarrow> io \<Rightarrow> string \<Rightarrow> string \<Rightarrow> string \<Rightarrow> proxy \<Rightarrow> (proxy_fault + redirect) \<times> proxy" where
  "CompleteMCPOAuthProxy E Z w code sealedState providerError P =
     (if \<not> snd (MCPOAuthProxy E (pr_app P)) then (Inl (oauthErr 404 ''invalid_request'' ''OAuth proxy is not enabled''), P)
      else case open_as Z ''state'' (un_state Z) sealedState of
             None \<Rightarrow> (Inl (oauthErr 400 ''invalid_request'' ''the login state is missing, invalid or expired; start the connection again''), P)
           | Some ps \<Rightarrow>
               if now w > ps_ExpiresAt ps
               then (Inl (oauthErr 400 ''invalid_request'' ''the login state is missing, invalid or expired; start the connection again''), P)
               else if parse_url (re_urls E) (ps_RedirectURI ps) = None
               then (Inl (oauthErr 400 ''invalid_request'' ''invalid redirect target''), P)
               else
                 (let st = (if ps_State ps \<noteq> [] then [(''state'', ps_State ps)] else [])
                  in if providerError \<noteq> [] \<or> code = []
                     then (Inr (ToClient (ps_RedirectURI ps)
                             (st @ [(''error'', if providerError \<in> set passed_on_errors then providerError else ''access_denied'')])), P)
                     else if length code > 4096 then (Inl (oauthErr 400 ''invalid_request'' ''invalid authorization code''), P)
                     else
                       (let cd = \<lparr>cd_ClientID = ps_ClientID ps, cd_RedirectURI = ps_RedirectURI ps,
                                  cd_CodeChallenge = ps_CodeChallenge ps, cd_Scopes = ps_Scopes ps, cd_UpstreamCode = code,
                                  cd_Verifier = ps_Verifier ps, cd_Nonce = ps_Nonce ps, cd_ExpiresAt = now w + oauthProxyCodeTTL\<rparr>
                        in (Inr (ToClient (ps_RedirectURI ps) (st @ [(''code'', sealOAuthProxy Z w ''code'' (js_code Z cd))])),
                            P\<lparr>pr_sealed := SCode cd ps # pr_sealed P\<rparr>))))"

section \<open>Tokens\<close>

record MCPOAuthTokenRequest =
  tr_GrantType :: string
  tr_Code :: string
  tr_RedirectURI :: string
  tr_ClientID :: string
  tr_ClientSecret :: string
  tr_CodeVerifier :: string
  tr_RefreshToken :: string

record MCPOAuthTokenResponse =
  to_AccessToken :: string
  to_TokenType :: string
  to_ExpiresIn :: int
  to_RefreshToken :: string
  to_Scope :: string

definition oauthProxySecret :: "io \<Rightarrow> app \<Rightarrow> err + string" where
  "oauthProxySecret w a =
     (let r = Setting a ''mcp.oauth.proxy.client_secret_ref'' in if r = [] then Inr [] else acquire_secret w r)"

definition authenticateProxyClient :: "lib \<Rightarrow> proxy \<Rightarrow> MCPOAuthTokenRequest \<Rightarrow> proxy_fault + MCPOAuthClient" where
  "authenticateProxyClient L P req =
     (if tr_ClientID req = [] \<or> length (tr_ClientID req) > 128 then Inl (oauthErr 401 ''invalid_client'' ''client_id is required'')
      else case db_GetMCPOAuthClient (pr_clients P) (tr_ClientID req) of
             Inl e \<Rightarrow> Inl (oauthErr 401 ''invalid_client'' ''unknown client_id'')
           | Inr x \<Rightarrow>
               if xc_AuthMethod x = ''none'' then Inr x
               else if xc_AuthMethod x = ''client_secret_basic'' \<or> xc_AuthMethod x = ''client_secret_post''
               then (if tr_ClientSecret req = [] \<or> tokenHash L (tr_ClientSecret req) \<noteq> xc_SecretHash x
                     then Inl (oauthErr 401 ''invalid_client'' ''client authentication failed'') else Inr x)
               else Inl (oauthErr 401 ''invalid_client'' ''client authentication failed''))"

definition pkceMatches :: "lib \<Rightarrow> string \<Rightarrow> string \<Rightarrow> bool" where
  "pkceMatches L verifier challenge =
     (43 \<le> length verifier \<and> length verifier \<le> 128 \<and> b64_encode b64_url (sha256 L verifier) = challenge)"

text \<open>The provider's tokens for a code, and for a refresh token.\<close>

definition redeem_code ::
  "lib \<Rightarrow> upstream \<Rightarrow> sealer \<Rightarrow> io \<Rightarrow> string \<Rightarrow> MCPOAuthClient \<Rightarrow> MCPOAuthTokenRequest \<Rightarrow> proxy_fault + upstream_token" where
  "redeem_code L V Z w secret x req =
     (let bad = Inl (oauthErr 400 ''invalid_grant'' ''the authorization code is invalid, expired or issued to another client'')
      in case open_as Z ''code'' (un_code Z) (tr_Code req) of
           None \<Rightarrow> bad
         | Some cd \<Rightarrow>
             if cd_ClientID cd \<noteq> xc_ID x \<or> now w > cd_ExpiresAt cd then bad
             else if tr_RedirectURI req \<noteq> [] \<and> tr_RedirectURI req \<noteq> cd_RedirectURI cd
             then Inl (oauthErr 400 ''invalid_grant'' ''redirect_uri does not match the authorization request'')
             else if \<not> pkceMatches L (tr_CodeVerifier req) (cd_CodeChallenge cd)
             then Inl (oauthErr 400 ''invalid_grant'' ''PKCE verification failed'')
             else case us_exchange V secret (cd_UpstreamCode cd) (cd_Verifier cd) of
                    Inl code \<Rightarrow>
                      Inl (oauthErr 400 ''invalid_grant'' (''the upstream authorization server rejected the code: '' @
                        OIDCProviderErrorGuidance code))
                  | Inr t \<Rightarrow> Inr t)"

definition redeem_refresh ::
  "upstream \<Rightarrow> sealer \<Rightarrow> string \<Rightarrow> MCPOAuthClient \<Rightarrow> MCPOAuthTokenRequest \<Rightarrow> proxy_fault + upstream_token" where
  "redeem_refresh V Z secret x req =
     (let bad = Inl (oauthErr 400 ''invalid_grant'' ''the refresh token is invalid or issued to another client'')
      in case open_as Z ''refresh'' (un_refresh Z) (tr_RefreshToken req) of
           None \<Rightarrow> bad
         | Some rf \<Rightarrow>
             if rf_ClientID rf \<noteq> xc_ID x \<or> rf_UpstreamRefresh rf = [] then bad
             else case us_refresh V secret (rf_UpstreamRefresh rf) of
                    None \<Rightarrow> Inl (oauthErr 400 ''invalid_grant'' ''the upstream authorization server rejected the refresh token; sign in again'')
                  | Some t \<Rightarrow> Inr t)"

text \<open>The half of an exchange that changes nothing here: who asks, and what the provider gives for the grant.\<close>

definition grant_tokens ::
  "lib \<Rightarrow> resource_env \<Rightarrow> upstream \<Rightarrow> sealer \<Rightarrow> io \<Rightarrow> MCPOAuthTokenRequest \<Rightarrow> proxy
     \<Rightarrow> proxy_fault + (MCPOAuthClient \<times> upstream_token)" where
  "grant_tokens L E V Z w req P =
     (if \<not> snd (MCPOAuthProxy E (pr_app P)) then Inl (oauthErr 404 ''invalid_request'' ''OAuth proxy is not enabled'')
      else case authenticateProxyClient L P req of
             Inl e \<Rightarrow> Inl e
           | Inr x \<Rightarrow>
               (case UpstreamMCPOAuthEndpoints E V (pr_app P) of
                  None \<Rightarrow> Inl (oauthErr 503 ''temporarily_unavailable'' ''the upstream authorization server could not be discovered'')
                | Some ep \<Rightarrow>
                    (case oauthProxySecret w (pr_app P) of
                       Inl e \<Rightarrow> Inl (oauthErr 503 ''temporarily_unavailable'' ''the proxy client secret is unavailable'')
                     | Inr secret \<Rightarrow>
                         if tr_GrantType req = ''authorization_code''
                         then (case redeem_code L V Z w secret x req of Inl e \<Rightarrow> Inl e | Inr t \<Rightarrow> Inr (x, t))
                         else if tr_GrantType req = ''refresh_token''
                         then (case redeem_refresh V Z secret x req of Inl e \<Rightarrow> Inl e | Inr t \<Rightarrow> Inr (x, t))
                         else Inl (oauthErr 400 ''unsupported_grant_type'' ''grant_type must be authorization_code or refresh_token''))))"

definition ExchangeMCPOAuthProxy ::
  "lib \<Rightarrow> resource_env \<Rightarrow> upstream \<Rightarrow> sealer \<Rightarrow> io \<Rightarrow> ctx \<Rightarrow> MCPOAuthTokenRequest \<Rightarrow> proxy
     \<Rightarrow> (proxy_fault + MCPOAuthTokenResponse) \<times> proxy" where
  "ExchangeMCPOAuthProxy L E V Z w c req P =
     (case grant_tokens L E V Z w req P of
        Inl e \<Rightarrow> (Inl e, P)
      | Inr (x, t) \<Rightarrow>
          (case AuthenticateMCPOAuthTokenReason L E w c (ut_AccessToken t) (pr_jobs P) of
             (Inl reason, J1) \<Rightarrow>
               (Inl (oauthErr 400 ''invalid_grant'' (''Keycloak issued a token this MCP resource does not accept: '' @ reason)),
                P\<lparr>pr_jobs := J1\<rparr>)
           | (Inr (g, remark), J1) \<Rightarrow>
               (let rf = \<lparr>rf_ClientID = xc_ID x, rf_UpstreamRefresh = ut_RefreshToken t\<rparr>;
                    keep = ut_RefreshToken t \<noteq> [];
                    out = \<lparr>to_AccessToken = ut_AccessToken t, to_TokenType = ''Bearer'',
                           to_ExpiresIn = (case ut_SecondsLeft t of None \<Rightarrow> 0 | Some n \<Rightarrow> max n 1),
                           to_RefreshToken = (if keep then sealOAuthProxy Z w ''refresh'' (js_refresh Z rf) else []),
                           to_Scope = join '' '' (p_MCPScopes (og_Principal g))\<rparr>;
                    P1 = P\<lparr>pr_jobs := J1, pr_sealed := (if keep then SRefresh rf # pr_sealed P else pr_sealed P),
                           pr_clients := db_TouchMCPOAuthClient (pr_clients P) (xc_ID x) (now w)\<rparr>
                in (Inr out, pr_audit P1 w (WithPrincipal (WithActor c ''mcp_oauth_proxy'') (og_Principal g))
                               ''mcp_oauth_proxy_token'' (''oauth_client:'' @ xc_ID x) ''ok'' (tr_GrantType req)))))"

section \<open>Runs\<close>

text \<open>
  The one thing assumed of the cipher is that an envelope that opens under a kind was sealed under that kind by this
  server (associated data and secrecy of the key), and of JSON that what was sealed reads back as it was (its texts are
  valid UTF-8).
\<close>

fun item_text :: "sealer \<Rightarrow> sealed_item \<Rightarrow> string \<times> string" where
  "item_text Z (SConsent cs x) = (''consent'', js_consent Z cs)"
| "item_text Z (SState ps cs) = (''state'', js_state Z ps)"
| "item_text Z (SCode cd ps) = (''code'', js_code Z cd)"
| "item_text Z (SRefresh rf) = (''refresh'', js_refresh Z rf)"

fun item_reads :: "sealer \<Rightarrow> sealed_item \<Rightarrow> bool" where
  "item_reads Z (SConsent cs x) = (un_consent Z (js_consent Z cs) = Some cs)"
| "item_reads Z (SState ps cs) = (un_state Z (js_state Z ps) = Some ps)"
| "item_reads Z (SCode cd ps) = (un_code Z (js_code Z cd) = Some cd)"
| "item_reads Z (SRefresh rf) = (un_refresh Z (js_refresh Z rf) = Some rf)"

definition authentic :: "sealer \<Rightarrow> proxy \<Rightarrow> string \<Rightarrow> bool" where
  "authentic Z P raw \<longleftrightarrow>
     (\<forall>kind plain. openOAuthProxy Z kind raw = Some plain \<longrightarrow>
        (\<exists>i \<in> set (pr_sealed P). item_text Z i = (kind, plain) \<and> item_reads Z i))"

text \<open>
  A run of the server: its operations in any order, at any time and under any configuration, on any input; the rest of
  the application may change in between.
\<close>

inductive proxy_step :: "lib \<Rightarrow> urls \<Rightarrow> sealer \<Rightarrow> proxy \<Rightarrow> proxy \<Rightarrow> bool" for L U Z where
  step_register: "re_urls E = U \<Longrightarrow> RegisterMCPOAuthClient L E w c req P = (r, P') \<Longrightarrow> proxy_step L U Z P P'"
| step_delete: "DeleteMCPOAuthClient w c i P = (r, P') \<Longrightarrow> proxy_step L U Z P P'"
| step_prepare: "re_urls E = U \<Longrightarrow> PrepareMCPOAuthProxy L E Z w az nonce P = (r, P') \<Longrightarrow> proxy_step L U Z P P'"
| step_begin: "re_urls E = U \<Longrightarrow> authentic Z P raw \<Longrightarrow> BeginMCPOAuthProxy E V Z w c verifier raw nonce allow P = (r, P')
    \<Longrightarrow> proxy_step L U Z P P'"
| step_complete: "re_urls E = U \<Longrightarrow> authentic Z P raw \<Longrightarrow> CompleteMCPOAuthProxy E Z w code raw err P = (r, P')
    \<Longrightarrow> proxy_step L U Z P P'"
| step_exchange: "re_urls E = U \<Longrightarrow> authentic Z P (tr_Code req) \<Longrightarrow> authentic Z P (tr_RefreshToken req)
    \<Longrightarrow> ExchangeMCPOAuthProxy L E V Z w c req P = (r, P') \<Longrightarrow> proxy_step L U Z P P'"
| step_else: "proxy_step L U Z P (P\<lparr>pr_jobs := J\<rparr>)"

inductive proxy_run :: "lib \<Rightarrow> urls \<Rightarrow> sealer \<Rightarrow> proxy \<Rightarrow> bool" for L U Z where
  run_start: "proxy_run L U Z \<lparr>pr_jobs = J, pr_clients = [], pr_sealed = []\<rparr>"
| run_step: "proxy_run L U Z P \<Longrightarrow> proxy_step L U Z P P' \<Longrightarrow> proxy_run L U Z P'"

text \<open>What holds of every registered client, and of every envelope.\<close>

definition client_ok :: "lib \<Rightarrow> urls \<Rightarrow> MCPOAuthClient \<Rightarrow> bool" where
  "client_ok L U x \<longleftrightarrow>
     xc_RedirectURIs x \<noteq> [] \<and> length (xc_RedirectURIs x) \<le> 10 \<and> distinct (xc_RedirectURIs x) \<and>
     list_all (validOAuthRedirectURI L U) (xc_RedirectURIs x) \<and> xc_AuthMethod x \<in> set auth_methods"

definition clients_ok :: "lib \<Rightarrow> urls \<Rightarrow> MCPOAuthClient list \<Rightarrow> bool" where
  "clients_ok L U cs \<longleftrightarrow> length cs \<le> 500 \<and> distinct (map xc_ID cs) \<and> list_all (client_ok L U) cs"

fun item_ok :: "lib \<Rightarrow> urls \<Rightarrow> sealed_item set \<Rightarrow> sealed_item \<Rightarrow> bool" where
  "item_ok L U S (SConsent cs x) =
     (client_ok L U x \<and> cs_ClientID cs = xc_ID x \<and> validPKCEChallenge (cs_CodeChallenge cs) \<and> cs_Nonce cs \<noteq> [] \<and>
      list_ex (\<lambda>u. redirectURIMatches L U u (cs_RedirectURI cs)) (xc_RedirectURIs x))"
| "item_ok L U S (SState ps cs) =
     ((\<exists>x. SConsent cs x \<in> S) \<and> ps_ClientID ps = cs_ClientID cs \<and> ps_RedirectURI ps = cs_RedirectURI cs \<and>
      ps_CodeChallenge ps = cs_CodeChallenge cs \<and> ps_ExpiresAt ps \<le> cs_ExpiresAt cs + 600)"
| "item_ok L U S (SCode cd ps) =
     ((\<exists>cs. SState ps cs \<in> S) \<and> cd_ClientID cd = ps_ClientID ps \<and> cd_RedirectURI cd = ps_RedirectURI ps \<and>
      cd_CodeChallenge cd = ps_CodeChallenge ps \<and> cd_ExpiresAt cd \<le> ps_ExpiresAt ps + 90)"
| "item_ok L U S (SRefresh rf) = (\<exists>cd ps. SCode cd ps \<in> S \<and> cd_ClientID cd = rf_ClientID rf)"

definition proxy_inv :: "lib \<Rightarrow> urls \<Rightarrow> proxy \<Rightarrow> bool" where
  "proxy_inv L U P \<longleftrightarrow>
     clients_ok L U (pr_clients P) \<and> (\<forall>i \<in> set (pr_sealed P). item_ok L U (set (pr_sealed P)) i)"

lemma item_ok_mono: "item_ok L U S i \<Longrightarrow> S \<subseteq> T \<Longrightarrow> item_ok L U T i"
  by (cases i) auto

lemma proxy_inv_seal:
  assumes "proxy_inv L U P" and "item_ok L U (set (pr_sealed P)) i"
    and "pr_sealed P' = i # pr_sealed P" and "clients_ok L U (pr_clients P')"
  shows "proxy_inv L U P'"
proof -
  have "item_ok L U (set (pr_sealed P')) k" if "k \<in> set (pr_sealed P')" for k
    using that assms item_ok_mono [of L U "set (pr_sealed P)" _ "set (pr_sealed P')"] by (auto simp: proxy_inv_def)
  with assms(4) show ?thesis by (simp add: proxy_inv_def)
qed

lemma proxy_inv_clients:
  "proxy_inv L U P \<Longrightarrow> pr_sealed P' = pr_sealed P \<Longrightarrow> clients_ok L U (pr_clients P') \<Longrightarrow> proxy_inv L U P'"
  by (simp add: proxy_inv_def)

lemma pr_audit_fields [simp]:
  "pr_clients (pr_audit P w c k r out d) = pr_clients P" "pr_sealed (pr_audit P w c k r out d) = pr_sealed P"
  by (simp_all add: pr_audit_def)

text \<open>The table of clients.\<close>

lemma clients_ok_del: "clients_ok L U cs \<Longrightarrow> clients_ok L U (del_where Q cs)"
  unfolding clients_ok_def del_where_def
  by (auto simp: list_all_iff distinct_map_filter intro: order_trans [OF length_filter_le])

lemma clients_ok_touch: "clients_ok L U cs \<Longrightarrow> clients_ok L U (db_TouchMCPOAuthClient cs i ts)"
  unfolding clients_ok_def db_TouchMCPOAuthClient_def upd_where_def
  by (auto simp: list_all_iff client_ok_def comp_def if_distrib [of xc_ID] cong: if_cong)

lemma clients_ok_add:
  assumes "clients_ok L U cs" "length cs < 500" "client_ok L U x" "db_CreateMCPOAuthClient cs x = Inr cs'"
  shows "clients_ok L U cs'"
  using assms by (auto simp: clients_ok_def db_CreateMCPOAuthClient_def no_row_iff split: if_splits; blast)

lemma GetMCPOAuthClient_in: "db_GetMCPOAuthClient cs i = Inr x \<Longrightarrow> x \<in> set cs \<and> xc_ID x = i"
  by (auto simp: db_GetMCPOAuthClient_def find_Some_iff split: option.splits)

text \<open>Each operation keeps the invariant.  A handler that checks its input one guard after the other leaves the state alone
  until the last has passed.\<close>

lemma guard_keep:
  "(\<not> b \<Longrightarrow> snd X = P \<or> snd X = N \<and> C) \<Longrightarrow>
     snd (if b then (e, P) else X) = P \<or> snd (if b then (e, P) else X) = N \<and> C"
  by simp

lemma checked_client_ok:
  assumes "checkRegistration L U req = None"
  shows "client_ok L U (new_client L w req)"
proof -
  have c: "rg_RedirectURIs req \<noteq> []" "length (rg_RedirectURIs req) \<le> 10" "list_all (validOAuthRedirectURI L U) (rg_RedirectURIs req)"
    "rg_AuthMethod req = [] \<or> rg_AuthMethod req \<in> set auth_methods"
    using assms unfolding checkRegistration_def by (metis linorder_not_le option.distinct(1))+
  have "length (remdups (rev (rg_RedirectURIs req))) \<le> length (rg_RedirectURIs req)"
    using length_remdups_leq [of "rev (rg_RedirectURIs req)"] by simp
  with c show ?thesis by (auto simp: client_ok_def new_client_def Let_def list_all_iff auth_methods_def)
qed

lemma register_inv:
  assumes "proxy_inv L (re_urls E) P" "RegisterMCPOAuthClient L E w c req P = (r, P')"
  shows "proxy_inv L (re_urls E) P'"
proof (cases "snd (MCPOAuthProxy E (pr_app P)) \<and> checkRegistration L (re_urls E) req = None")
  case False
  then have "P' = P" using assms(2) by (auto simp: RegisterMCPOAuthClient_def split: option.splits if_splits)
  with assms(1) show ?thesis by simp
next
  case True
  let ?cs = "db_PruneMCPOAuthClients (pr_clients P) (now w - oauthProxyClientMaxIdle)"
  have k: "clients_ok L (re_urls E) ?cs"
    using assms(1) by (simp add: proxy_inv_def db_PruneMCPOAuthClients_def clients_ok_del)
  show ?thesis
  proof (cases "db_CountMCPOAuthClients ?cs \<ge> oauthProxyClientLimit")
    case True
    then have "P' = P\<lparr>pr_clients := ?cs\<rparr>"
      using assms(2) \<open>snd (MCPOAuthProxy E (pr_app P)) \<and> _\<close> by (simp add: RegisterMCPOAuthClient_def Let_def)
    with k assms(1) proxy_inv_clients show ?thesis by simp
  next
    case room: False
    show ?thesis
    proof (cases "db_CreateMCPOAuthClient ?cs (new_client L w req)")
      case (Inl e)
      then have "P' = P\<lparr>pr_clients := ?cs\<rparr>"
        using assms(2) True room by (simp add: RegisterMCPOAuthClient_def Let_def)
      with k assms(1) proxy_inv_clients show ?thesis by simp
    next
      case (Inr cs)
      have "length ?cs < 500" using room by (simp add: db_CountMCPOAuthClients_def oauthProxyClientLimit_def)
      with clients_ok_add [OF k this checked_client_ok Inr] True have "clients_ok L (re_urls E) cs" by simp
      moreover have "pr_clients P' = cs" "pr_sealed P' = pr_sealed P"
        using assms(2) True room Inr by (auto simp: RegisterMCPOAuthClient_def Let_def)
      ultimately show ?thesis using assms(1) proxy_inv_clients by simp
    qed
  qed
qed

lemma delete_inv:
  assumes "proxy_inv L U P" "DeleteMCPOAuthClient w c i P = (r, P')"
  shows "proxy_inv L U P'"
  using assms clients_ok_del
  by (auto simp: DeleteMCPOAuthClient_def db_DeleteMCPOAuthClient_def proxy_inv_def split: sum.splits if_splits)

lemma prepare_shape:
  assumes "PrepareMCPOAuthProxy L E Z w req nonce P = (r, P')"
  shows "P' = P \<or> (\<exists>cs x. P' = P\<lparr>pr_sealed := SConsent cs x # pr_sealed P\<rparr> \<and> x \<in> set (pr_clients P) \<and> cs_ClientID cs = xc_ID x \<and>
     validPKCEChallenge (cs_CodeChallenge cs) \<and> cs_Nonce cs \<noteq> [] \<and>
     list_ex (\<lambda>u. redirectURIMatches L (re_urls E) u (cs_RedirectURI cs)) (xc_RedirectURIs x))"
proof (cases "db_GetMCPOAuthClient (pr_clients P) (az_ClientID req)")
  case (Inl e)
  have "snd (PrepareMCPOAuthProxy L E Z w req nonce P) = P"
    by (simp add: PrepareMCPOAuthProxy_def case_prod_unfold if_distrib [of snd] Inl Let_def)
  with assms show ?thesis by simp
next
  case (Inr x)
  let ?uri = "if az_RedirectURI req = [] then hd (xc_RedirectURIs x) else az_RedirectURI req"
  let ?cs = "\<lparr>cs_ClientID = xc_ID x, cs_RedirectURI = ?uri, cs_State = az_State req, cs_CodeChallenge = az_CodeChallenge req,
     cs_Scopes = resolveProxyScopes (fst (MCPOAuthProxy E (pr_app P))) (az_Scope req), cs_Nonce = nonce, cs_ExpiresAt = now w + oauthProxyStateTTL\<rparr>"
  have "snd (PrepareMCPOAuthProxy L E Z w req nonce P) = P \<or>
     snd (PrepareMCPOAuthProxy L E Z w req nonce P) = P\<lparr>pr_sealed := SConsent ?cs x # pr_sealed P\<rparr> \<and>
     validPKCEChallenge (az_CodeChallenge req) \<and> nonce \<noteq> [] \<and>
     list_ex (\<lambda>u. redirectURIMatches L (re_urls E) u ?uri) (xc_RedirectURIs x)"
    unfolding PrepareMCPOAuthProxy_def case_prod_unfold Let_def Inr sum.case
    by (intro guard_keep) simp
  then show ?thesis
  proof (elim disjE conjE)
    assume "snd (PrepareMCPOAuthProxy L E Z w req nonce P) = P"
    with assms show ?thesis by simp
  next
    assume *: "snd (PrepareMCPOAuthProxy L E Z w req nonce P) = P\<lparr>pr_sealed := SConsent ?cs x # pr_sealed P\<rparr>"
      "validPKCEChallenge (az_CodeChallenge req)" "nonce \<noteq> []" "list_ex (\<lambda>u. redirectURIMatches L (re_urls E) u ?uri) (xc_RedirectURIs x)"
    show ?thesis
      by (rule disjI2, rule exI [of _ ?cs], rule exI [of _ x]) (use * assms GetMCPOAuthClient_in [OF Inr] in simp)
  qed
qed

lemma prepare_inv:
  assumes "proxy_inv L (re_urls E) P" "PrepareMCPOAuthProxy L E Z w req nonce P = (r, P')"
  shows "proxy_inv L (re_urls E) P'"
  using prepare_shape [OF assms(2)]
proof (elim disjE exE conjE)
  fix cs x
  assume *: "P' = P\<lparr>pr_sealed := SConsent cs x # pr_sealed P\<rparr>" "x \<in> set (pr_clients P)" "cs_ClientID cs = xc_ID x"
    "validPKCEChallenge (cs_CodeChallenge cs)" "cs_Nonce cs \<noteq> []"
    "list_ex (\<lambda>u. redirectURIMatches L (re_urls E) u (cs_RedirectURI cs)) (xc_RedirectURIs x)"
  have "clients_ok L (re_urls E) (pr_clients P)" "client_ok L (re_urls E) x"
    using assms(1) *(2) by (simp_all add: proxy_inv_def clients_ok_def list_all_iff)
  with * show ?thesis by (intro proxy_inv_seal [OF assms(1)]) simp_all
qed (use assms(1) in simp)

lemma authentic_item:
  assumes "authentic Z P raw" "open_as Z kind un raw = Some v"
  obtains i where "i \<in> set (pr_sealed P)" "fst (item_text Z i) = kind" "un (snd (item_text Z i)) = Some v" "item_reads Z i"
proof -
  obtain plain where p: "openOAuthProxy Z kind raw = Some plain" "un plain = Some v"
    using assms(2) by (auto simp: open_as_def split: option.splits)
  then obtain i where "i \<in> set (pr_sealed P)" "item_text Z i = (kind, plain)" "item_reads Z i"
    using assms(1) unfolding authentic_def by blast
  with p that show ?thesis by simp
qed

lemma authentic_consent:
  assumes "authentic Z P raw" "open_as Z ''consent'' (un_consent Z) raw = Some cs"
  shows "\<exists>x. SConsent cs x \<in> set (pr_sealed P)"
  using assms by (rule authentic_item) (case_tac i; auto)

lemma authentic_state:
  assumes "authentic Z P raw" "open_as Z ''state'' (un_state Z) raw = Some ps"
  shows "\<exists>cs. SState ps cs \<in> set (pr_sealed P)"
  using assms by (rule authentic_item) (case_tac i; auto)

lemma authentic_code:
  assumes "authentic Z P raw" "open_as Z ''code'' (un_code Z) raw = Some cd"
  shows "\<exists>ps. SCode cd ps \<in> set (pr_sealed P)"
  using assms by (rule authentic_item) (case_tac i; auto)

lemma authentic_refresh:
  assumes "authentic Z P raw" "open_as Z ''refresh'' (un_refresh Z) raw = Some rf"
  shows "SRefresh rf \<in> set (pr_sealed P)"
  using assms by (rule authentic_item) (case_tac i; auto)

text \<open>What is sealed when a person confirms, and when the provider sends the person back.\<close>

lemma begin_shape:
  assumes "BeginMCPOAuthProxy E V Z w c verifier raw nonce allow P = (r, P')"
  shows "P' = P \<or> (\<exists>ps cs x. pr_sealed P' = SState ps cs # pr_sealed P \<and>
     pr_clients P' = db_TouchMCPOAuthClient (pr_clients P) (xc_ID x) (now w) \<and> x \<in> set (pr_clients P) \<and> allow \<and>
     open_as Z ''consent'' (un_consent Z) raw = Some cs \<and> now w \<le> cs_ExpiresAt cs \<and> cs_Nonce cs = nonce \<and>
     cs_ClientID cs = xc_ID x \<and> ps_ClientID ps = xc_ID x \<and> ps_RedirectURI ps = cs_RedirectURI cs \<and>
     ps_CodeChallenge ps = cs_CodeChallenge cs \<and> ps_ExpiresAt ps = now w + 600)"
proof (cases "open_as Z ''consent'' (un_consent Z) raw")
  case None
  have "snd (BeginMCPOAuthProxy E V Z w c verifier raw nonce allow P) = P"
    by (simp add: BeginMCPOAuthProxy_def case_prod_unfold Let_def if_distrib [of snd] None)
  with assms show ?thesis by simp
next
  case (Some cs)
  show ?thesis
  proof (cases "db_GetMCPOAuthClient (pr_clients P) (cs_ClientID cs)")
    case (Inl e)
    have "snd (BeginMCPOAuthProxy E V Z w c verifier raw nonce allow P) = P"
      by (simp add: BeginMCPOAuthProxy_def case_prod_unfold Let_def if_distrib [of snd] Some Inl)
    with assms show ?thesis by simp
  next
    case (Inr x)
    note x = GetMCPOAuthClient_in [OF Inr]
    show ?thesis
    proof (cases "UpstreamMCPOAuthEndpoints E V (pr_app P)")
      case None
      have "snd (BeginMCPOAuthProxy E V Z w c verifier raw nonce allow P) = P"
        by (simp add: BeginMCPOAuthProxy_def case_prod_unfold Let_def if_distrib [of snd] Some Inr None)
      with assms show ?thesis by simp
    next
      case ep: (Some ep)
      let ?ps = "\<lparr>ps_ClientID = xc_ID x, ps_RedirectURI = cs_RedirectURI cs, ps_State = cs_State cs,
        ps_CodeChallenge = cs_CodeChallenge cs, ps_Scopes = cs_Scopes cs, ps_Verifier = verifier, ps_Nonce = token w 0 16,
        ps_ExpiresAt = now w + oauthProxyStateTTL\<rparr>"
      let ?P1 = "P\<lparr>pr_sealed := SState ?ps cs # pr_sealed P, pr_clients := db_TouchMCPOAuthClient (pr_clients P) (xc_ID x) (now w)\<rparr>"
      let ?P2 = "pr_audit ?P1 w (WithActor c ''mcp_oauth_proxy'') ''mcp_oauth_proxy_consent'' (''oauth_client:'' @ xc_ID x) ''ok''
        (cs_RedirectURI cs)"
      have "snd (BeginMCPOAuthProxy E V Z w c verifier raw nonce allow P) = P \<or>
         snd (BeginMCPOAuthProxy E V Z w c verifier raw nonce allow P) = ?P2 \<and> allow \<and> now w \<le> cs_ExpiresAt cs \<and> cs_Nonce cs = nonce"
        unfolding BeginMCPOAuthProxy_def case_prod_unfold Let_def Some Inr ep option.case sum.case
        by (intro guard_keep) simp
      then show ?thesis
      proof (elim disjE conjE)
        assume *: "snd (BeginMCPOAuthProxy E V Z w c verifier raw nonce allow P) = ?P2" "allow" "now w \<le> cs_ExpiresAt cs" "cs_Nonce cs = nonce"
        then have "P' = ?P2" using assms by simp
        show ?thesis
          by (rule disjI2, rule exI [of _ ?ps], rule exI [of _ cs], rule exI [of _ x])
            (simp add: \<open>P' = ?P2\<close> x * Some oauthProxyStateTTL_def)
      qed (use assms in simp)
    qed
  qed
qed

lemma begin_inv:
  assumes "proxy_inv L U P" "authentic Z P raw" "BeginMCPOAuthProxy E V Z w c verifier raw nonce allow P = (r, P')"
  shows "proxy_inv L U P'"
  using begin_shape [OF assms(3)]
proof (elim disjE exE conjE)
  fix ps cs x
  assume *: "pr_sealed P' = SState ps cs # pr_sealed P"
    "pr_clients P' = db_TouchMCPOAuthClient (pr_clients P) (xc_ID x) (now w)" "open_as Z ''consent'' (un_consent Z) raw = Some cs"
    "now w \<le> cs_ExpiresAt cs" "cs_ClientID cs = xc_ID x" "ps_ClientID ps = xc_ID x" "ps_RedirectURI ps = cs_RedirectURI cs"
    "ps_CodeChallenge ps = cs_CodeChallenge cs" "ps_ExpiresAt ps = now w + 600"
  have "clients_ok L U (pr_clients P')" using assms(1) by (simp add: * proxy_inv_def clients_ok_touch)
  moreover have "item_ok L U (set (pr_sealed P)) (SState ps cs)"
    using authentic_consent [OF assms(2) *(3)] * by simp
  ultimately show ?thesis using proxy_inv_seal [OF assms(1)] *(1) by blast
qed (use assms(1) in simp)

lemma complete_shape:
  assumes "CompleteMCPOAuthProxy E Z w code raw err P = (r, P')"
  shows "P' = P \<or> (\<exists>cd ps. P' = P\<lparr>pr_sealed := SCode cd ps # pr_sealed P\<rparr> \<and> open_as Z ''state'' (un_state Z) raw = Some ps \<and>
     now w \<le> ps_ExpiresAt ps \<and> cd_ClientID cd = ps_ClientID ps \<and> cd_RedirectURI cd = ps_RedirectURI ps \<and>
     cd_CodeChallenge cd = ps_CodeChallenge ps \<and> cd_ExpiresAt cd = now w + 90)"
proof (cases "open_as Z ''state'' (un_state Z) raw")
  case None
  have "snd (CompleteMCPOAuthProxy E Z w code raw err P) = P"
    by (simp add: CompleteMCPOAuthProxy_def if_distrib [of snd] None)
  with assms show ?thesis by simp
next
  case (Some ps)
  let ?cd = "\<lparr>cd_ClientID = ps_ClientID ps, cd_RedirectURI = ps_RedirectURI ps, cd_CodeChallenge = ps_CodeChallenge ps,
    cd_Scopes = ps_Scopes ps, cd_UpstreamCode = code, cd_Verifier = ps_Verifier ps, cd_Nonce = ps_Nonce ps,
    cd_ExpiresAt = now w + oauthProxyCodeTTL\<rparr>"
  have "snd (CompleteMCPOAuthProxy E Z w code raw err P) = P \<or>
     snd (CompleteMCPOAuthProxy E Z w code raw err P) = P\<lparr>pr_sealed := SCode ?cd ps # pr_sealed P\<rparr> \<and> now w \<le> ps_ExpiresAt ps"
    unfolding CompleteMCPOAuthProxy_def case_prod_unfold Let_def Some option.case
    by (intro guard_keep) simp
  then show ?thesis
  proof (elim disjE conjE)
    assume *: "snd (CompleteMCPOAuthProxy E Z w code raw err P) = P\<lparr>pr_sealed := SCode ?cd ps # pr_sealed P\<rparr>" "now w \<le> ps_ExpiresAt ps"
    show ?thesis
      by (rule disjI2, rule exI [of _ ?cd], rule exI [of _ ps]) (use * assms Some in \<open>simp add: oauthProxyCodeTTL_def\<close>)
  qed (use assms in simp)
qed

lemma complete_inv:
  assumes "proxy_inv L U P" "authentic Z P raw" "CompleteMCPOAuthProxy E Z w code raw err P = (r, P')"
  shows "proxy_inv L U P'"
  using complete_shape [OF assms(3)]
proof (elim disjE exE conjE)
  fix cd ps
  assume *: "P' = P\<lparr>pr_sealed := SCode cd ps # pr_sealed P\<rparr>" "open_as Z ''state'' (un_state Z) raw = Some ps"
    "now w \<le> ps_ExpiresAt ps" "cd_ClientID cd = ps_ClientID ps" "cd_RedirectURI cd = ps_RedirectURI ps"
    "cd_CodeChallenge cd = ps_CodeChallenge ps" "cd_ExpiresAt cd = now w + 90"
  have "item_ok L U (set (pr_sealed P)) (SCode cd ps)" using authentic_state [OF assms(2) *(2)] * by simp
  moreover have "clients_ok L U (pr_clients P')" "pr_sealed P' = SCode cd ps # pr_sealed P"
    using assms(1) by (simp_all add: *(1) proxy_inv_def)
  ultimately show ?thesis using proxy_inv_seal [OF assms(1)] by blast
qed (use assms(1) in simp)

text \<open>What a grant that yields tokens went through.\<close>

lemma authenticated_client:
  assumes "authenticateProxyClient L P req = Inr x"
  shows "x \<in> set (pr_clients P) \<and> xc_ID x = tr_ClientID req \<and>
    (xc_AuthMethod x = ''none'' \<or> tokenHash L (tr_ClientSecret req) = xc_SecretHash x)"
proof (cases "db_GetMCPOAuthClient (pr_clients P) (tr_ClientID req)")
  case (Inl e)
  then show ?thesis using assms by (simp add: authenticateProxyClient_def split: if_splits)
next
  case (Inr y)
  with assms have "x = y" "xc_AuthMethod x = ''none'' \<or> tokenHash L (tr_ClientSecret req) = xc_SecretHash x"
    by (auto simp: authenticateProxyClient_def split: if_splits)
  with GetMCPOAuthClient_in [OF Inr] show ?thesis by simp
qed

lemma redeem_code_ok:
  assumes "redeem_code L V Z w secret x req = Inr t"
  obtains cd where "open_as Z ''code'' (un_code Z) (tr_Code req) = Some cd" "cd_ClientID cd = xc_ID x" "now w \<le> cd_ExpiresAt cd"
    "tr_RedirectURI req = [] \<or> tr_RedirectURI req = cd_RedirectURI cd" "pkceMatches L (tr_CodeVerifier req) (cd_CodeChallenge cd)"
    "us_exchange V secret (cd_UpstreamCode cd) (cd_Verifier cd) = Inr t"
proof (cases "open_as Z ''code'' (un_code Z) (tr_Code req)")
  case None
  then show ?thesis using assms by (simp add: redeem_code_def)
next
  case (Some cd)
  with assms show ?thesis
    by (intro that [of cd]) (auto simp: redeem_code_def Let_def split: if_splits sum.splits)
qed

lemma redeem_refresh_ok:
  assumes "redeem_refresh V Z secret x req = Inr t"
  obtains rf where "open_as Z ''refresh'' (un_refresh Z) (tr_RefreshToken req) = Some rf" "rf_ClientID rf = xc_ID x"
    "us_refresh V secret (rf_UpstreamRefresh rf) = Some t"
proof (cases "open_as Z ''refresh'' (un_refresh Z) (tr_RefreshToken req)")
  case None
  then show ?thesis using assms by (simp add: redeem_refresh_def)
next
  case (Some rf)
  with assms show ?thesis
    by (intro that [of rf]) (auto simp: redeem_refresh_def Let_def split: if_splits option.splits)
qed

lemma grant_ok:
  assumes "grant_tokens L E V Z w req P = Inr (x, t)"
  obtains secret where "authenticateProxyClient L P req = Inr x"
    "tr_GrantType req = ''authorization_code'' \<and> redeem_code L V Z w secret x req = Inr t \<or>
     tr_GrantType req = ''refresh_token'' \<and> redeem_refresh V Z secret x req = Inr t"
proof (cases "authenticateProxyClient L P req")
  case (Inl e)
  then show ?thesis using assms by (simp add: grant_tokens_def split: if_splits)
next
  case (Inr y)
  show ?thesis
  proof (cases "oauthProxySecret w (pr_app P)")
    case (Inl e)
    then show ?thesis using assms Inr by (simp add: grant_tokens_def split: if_splits option.splits)
  next
    case secret: (Inr secret)
    show ?thesis using assms Inr secret
      by (intro that [of secret]) (auto simp: grant_tokens_def split: if_splits option.splits sum.splits)
  qed
qed

text \<open>The client of a grant has a code sealed for it.\<close>

lemma grant_code:
  assumes "proxy_inv L U P" "authentic Z P (tr_Code req)" "authentic Z P (tr_RefreshToken req)"
    and "grant_tokens L E V Z w req P = Inr (x, t)"
  shows "\<exists>cd ps. SCode cd ps \<in> set (pr_sealed P) \<and> cd_ClientID cd = xc_ID x"
  using assms(4)
proof (rule grant_ok, elim disjE conjE)
  fix secret
  assume "redeem_code L V Z w secret x req = Inr t"
  then show ?thesis by (rule redeem_code_ok) (use authentic_code [OF assms(2)] in blast)
next
  fix secret
  assume "redeem_refresh V Z secret x req = Inr t"
  then obtain rf where rf: "open_as Z ''refresh'' (un_refresh Z) (tr_RefreshToken req) = Some rf" "rf_ClientID rf = xc_ID x"
    by (rule redeem_refresh_ok) blast
  from authentic_refresh [OF assms(3) rf(1)] assms(1) have "item_ok L U (set (pr_sealed P)) (SRefresh rf)"
    unfolding proxy_inv_def by blast
  with rf(2) show ?thesis by simp
qed

lemma exchange_shape:
  assumes "ExchangeMCPOAuthProxy L E V Z w c req P = (r, P')"
  obtains (refused) "pr_sealed P' = pr_sealed P" "pr_clients P' = pr_clients P" "isl r"
    | (issued) x t g remark J1 rf out where "grant_tokens L E V Z w req P = Inr (x, t)"
      "AuthenticateMCPOAuthTokenReason L E w c (ut_AccessToken t) (pr_jobs P) = (Inr (g, remark), J1)"
      "r = Inr out" "to_AccessToken out = ut_AccessToken t" "to_Scope out = join '' '' (p_MCPScopes (og_Principal g))"
      "rf_ClientID rf = xc_ID x" "pr_sealed P' = SRefresh rf # pr_sealed P \<or> pr_sealed P' = pr_sealed P"
      "pr_clients P' = db_TouchMCPOAuthClient (pr_clients P) (xc_ID x) (now w)"
proof (cases "grant_tokens L E V Z w req P")
  case (Inl e)
  then show ?thesis using assms by (intro refused) (auto simp: ExchangeMCPOAuthProxy_def)
next
  case (Inr y)
  obtain x t where y: "y = (x, t)" by (rule prod.exhaust)
  obtain q J1 where q: "AuthenticateMCPOAuthTokenReason L E w c (ut_AccessToken t) (pr_jobs P) = (q, J1)" by (rule prod.exhaust)
  show ?thesis
  proof (cases q)
    case (Inl reason)
    then show ?thesis using assms Inr y q by (intro refused) (auto simp: ExchangeMCPOAuthProxy_def)
  next
    case ok: (Inr z)
    obtain g remark where z: "z = (g, remark)" by (rule prod.exhaust)
    let ?rf = "\<lparr>rf_ClientID = xc_ID x, rf_UpstreamRefresh = ut_RefreshToken t\<rparr>"
    let ?out = "\<lparr>to_AccessToken = ut_AccessToken t, to_TokenType = ''Bearer'', to_ExpiresIn = (case ut_SecondsLeft t of None \<Rightarrow> 0 | Some n \<Rightarrow> max n 1),
      to_RefreshToken = (if ut_RefreshToken t \<noteq> [] then sealOAuthProxy Z w ''refresh'' (js_refresh Z ?rf) else []),
      to_Scope = join '' '' (p_MCPScopes (og_Principal g))\<rparr>"
    let ?P1 = "P\<lparr>pr_jobs := J1, pr_sealed := (if ut_RefreshToken t \<noteq> [] then SRefresh ?rf # pr_sealed P else pr_sealed P),
      pr_clients := db_TouchMCPOAuthClient (pr_clients P) (xc_ID x) (now w)\<rparr>"
    have "(r, P') = (Inr ?out, pr_audit ?P1 w (WithPrincipal (WithActor c ''mcp_oauth_proxy'') (og_Principal g))
       ''mcp_oauth_proxy_token'' (''oauth_client:'' @ xc_ID x) ''ok'' (tr_GrantType req))"
      unfolding assms [symmetric] ExchangeMCPOAuthProxy_def Inr y q ok z sum.case prod.case Let_def by simp
    then have r: "r = Inr ?out" and s: "pr_sealed P' = pr_sealed ?P1" and cl: "pr_clients P' = pr_clients ?P1"
      by (simp_all only: prod.inject pr_audit_fields)
    show ?thesis
    proof (rule issued [of x t g remark J1 ?out ?rf])
      show "r = Inr ?out" by (rule r)
    qed (simp_all add: Inr [unfolded y] q [unfolded ok z] s cl)
  qed
qed

lemma exchange_inv:
  assumes "proxy_inv L U P" "authentic Z P (tr_Code req)" "authentic Z P (tr_RefreshToken req)"
    and "ExchangeMCPOAuthProxy L E V Z w c req P = (r, P')"
  shows "proxy_inv L U P'"
  using assms(4)
proof (cases rule: exchange_shape)
  case refused
  then show ?thesis using assms(1) by (simp add: proxy_inv_def)
next
  case (issued x t g remark J1 rf out)
  have c: "clients_ok L U (pr_clients P')" using assms(1) issued(8) by (simp add: proxy_inv_def clients_ok_touch)
  have "item_ok L U (set (pr_sealed P)) (SRefresh rf)" using grant_code [OF assms(1-3) issued(1)] issued(6) by simp
  with issued(7) c assms(1) proxy_inv_seal proxy_inv_clients show ?thesis by metis
qed

lemma proxy_step_inv: "proxy_step L U Z P P' \<Longrightarrow> proxy_inv L U P \<Longrightarrow> proxy_inv L U P'"
proof (induction rule: proxy_step.induct)
  case step_else
  then show ?case by (simp add: proxy_inv_def)
qed (use register_inv delete_inv prepare_inv begin_inv complete_inv exchange_inv in metis)+

lemma proxy_run_inv: "proxy_run L U Z P \<Longrightarrow> proxy_inv L U P"
proof (induction rule: proxy_run.induct)
  case (run_start J)
  then show ?case by (simp add: proxy_inv_def clients_ok_def)
qed (rule proxy_step_inv)

section \<open>Examples\<close>

text \<open>One client, one person and one code, with a cipher whose texts are only the kinds of the envelopes.\<close>

definition agent_reg :: MCPOAuthClientRegistration where
  "agent_reg = \<lparr>rg_RedirectURIs = [''https://agent.test/cb''], rg_AuthMethod = ''none'', rg_GrantTypes = [''authorization_code''],
     rg_ResponseTypes = [''code''], rg_ClientName = ''agent'', rg_Scope = []\<rparr>"

definition agent_client :: MCPOAuthClient where
  "agent_client = new_client sample_lib sample_io agent_reg"

definition agent_verifier :: string where "agent_verifier = replicate 43 CHR ''v''"

definition agent_consent :: oauthProxyConsent where
  "agent_consent = \<lparr>cs_ClientID = xc_ID agent_client, cs_RedirectURI = ''https://agent.test/cb'', cs_State = ''s'',
     cs_CodeChallenge = b64_encode b64_url agent_verifier, cs_Scopes = [''mail.read''], cs_Nonce = ''n'', cs_ExpiresAt = 1600\<rparr>"

definition agent_state :: oauthProxyState where
  "agent_state = \<lparr>ps_ClientID = xc_ID agent_client, ps_RedirectURI = ''https://agent.test/cb'', ps_State = ''s'',
     ps_CodeChallenge = b64_encode b64_url agent_verifier, ps_Scopes = [''mail.read''], ps_Verifier = ''u'',
     ps_Nonce = token sample_io 0 16, ps_ExpiresAt = 1600\<rparr>"

definition agent_code :: oauthProxyCode where
  "agent_code = \<lparr>cd_ClientID = xc_ID agent_client, cd_RedirectURI = ''https://agent.test/cb'',
     cd_CodeChallenge = b64_encode b64_url agent_verifier, cd_Scopes = [''mail.read''], cd_UpstreamCode = ''x'', cd_Verifier = ''u'',
     cd_Nonce = token sample_io 0 16, cd_ExpiresAt = 1090\<rparr>"

definition sample_sealer :: sealer where
  "sample_sealer = \<lparr>ae_seal = (\<lambda>n k p. k), ae_open = (\<lambda>n k ct. if ct = k then Some k else None),
     js_consent = (\<lambda>_. ''consent''), un_consent = (\<lambda>_. Some agent_consent), js_state = (\<lambda>_. ''state''),
     un_state = (\<lambda>_. Some agent_state), js_code = (\<lambda>_. ''code''), un_code = (\<lambda>_. Some agent_code),
     js_refresh = (\<lambda>_. ''refresh''), un_refresh = (\<lambda>_. None)\<rparr>"

definition sample_upstream :: upstream where
  "sample_upstream = \<lparr>us_endpoints = (\<lambda>_. Some (''https://idp.test/auth'', ''https://idp.test/token'')),
     us_exchange = (\<lambda>secret code v. Inr \<lparr>ut_AccessToken = ''a.b.c'', ut_SecondsLeft = Some 300, ut_RefreshToken = []\<rparr>),
     us_refresh = (\<lambda>secret r. None)\<rparr>"

abbreviation envelope :: "string \<Rightarrow> string" where
  "envelope kind \<equiv> sealOAuthProxy sample_sealer sample_io kind kind"

definition agent_authorize :: MCPOAuthAuthorizeRequest where
  "agent_authorize = \<lparr>az_ResponseType = ''code'', az_ClientID = xc_ID agent_client, az_RedirectURI = [], az_State = ''s'',
     az_Scope = ''mail.read'', az_CodeChallenge = b64_encode b64_url agent_verifier, az_CodeChallengeMethod = ''S256'', az_Resource = []\<rparr>"

definition agent_request :: MCPOAuthTokenRequest where
  "agent_request = \<lparr>tr_GrantType = ''authorization_code'', tr_Code = envelope ''code'', tr_RedirectURI = ''https://agent.test/cb'',
     tr_ClientID = xc_ID agent_client, tr_ClientSecret = [], tr_CodeVerifier = agent_verifier, tr_RefreshToken = []\<rparr>"

definition agent_proxy :: "MCPOAuthClient list \<Rightarrow> sealed_item list \<Rightarrow> proxy" where
  "agent_proxy cs items = \<lparr>pr_jobs = idle_jobs oauth_app, pr_clients = cs, pr_sealed = items\<rparr>"

abbreviation agent_touched :: MCPOAuthClient where "agent_touched \<equiv> agent_client\<lparr>xc_LastUsedAt := 1000\<rparr>"

lemma idle_app [simp]: "sj_app (idle_jobs a) = a"
  by (simp add: idle_jobs_def)

lemma agent_proxy_fields [simp]:
  "pr_jobs (agent_proxy cs items) = idle_jobs oauth_app" "pr_clients (agent_proxy cs items) = cs"
  "pr_sealed (agent_proxy cs items) = items" "pr_app (agent_proxy cs items) = oauth_app"
  "agent_proxy cs items\<lparr>pr_sealed := items'\<rparr> = agent_proxy cs items'" "agent_proxy cs items\<lparr>pr_clients := cs'\<rparr> = agent_proxy cs' items"
  by (simp_all add: agent_proxy_def idle_jobs_def)

lemma sample_proxy_info:
  "oi_Proxy (oauth_info sample_env oauth_app) =
     \<lparr>px_Enabled = True, px_Configured = True, px_Issuer = ''https://mail.test'',
      px_MetadataURL = ''https://mail.test/.well-known/oauth-authorization-server'',
      px_RegistrationEndpoint = ''https://mail.test/oauth/register'', px_AuthorizationEndpoint = ''https://mail.test/oauth/authorize'',
      px_TokenEndpoint = ''https://mail.test/oauth/token'', px_CallbackURL = ''https://mail.test/oauth/callback'',
      px_ClientID = ''postra-proxy''\<rparr>"
  by code_simp

lemma sample_proxy_on: "snd (MCPOAuthProxy sample_env oauth_app)" "fst (MCPOAuthProxy sample_env oauth_app) = oauth_info sample_env oauth_app"
  by (simp_all add: MCPOAuthProxy_def Let_def sample_oauth sample_proxy_info)

lemma sample_endpoints: "UpstreamMCPOAuthEndpoints sample_env sample_upstream oauth_app \<noteq> None"
proof -
  have "validOAuthURL (re_urls sample_env) ''https://idp.test/auth''" "validOAuthURL (re_urls sample_env) ''https://idp.test/token''"
    by code_simp+
  then show ?thesis
    by (simp add: UpstreamMCPOAuthEndpoints_def case_prod_unfold sample_proxy_on sample_upstream_def)
      (simp add: sample_env_def sample_idp_def)
qed

lemma length_sextets: "length (b64_sextets bs) \<le> 2 * length bs"
  by (induction bs rule: b64_sextets.induct) auto

lemma sample_opens:
  "openOAuthProxy sample_sealer kind (envelope ''consent'') = (if kind = ''consent'' then Some kind else None)"
  "openOAuthProxy sample_sealer kind (envelope ''state'') = (if kind = ''state'' then Some kind else None)"
  "openOAuthProxy sample_sealer kind (envelope ''code'') = (if kind = ''code'' then Some kind else None)"
proof -
  have *: "openOAuthProxy sample_sealer kind (envelope k) = (if kind = k then Some kind else None)" if "length k \<le> 100" for k
  proof -
    have "CHR 0x0A \<notin> set b64_url" "CHR 0x0D \<notin> set b64_url" by (simp_all add: b64_url_def)
    then have d: "b64_decode b64_url (envelope k) = Some (replicate 12 (char_of (0 :: nat)) @ k)"
      unfolding sealOAuthProxy_def Let_def
      by (subst b64_roundtrip) (simp_all add: b64_alphabets sample_sealer_def sample_io_def)
    have "length (envelope k) \<le> 2 * (12 + length k)"
      unfolding sealOAuthProxy_def Let_def b64_encode_def
      by (simp add: sample_sealer_def sample_io_def) (rule order_trans [OF length_sextets], simp)
    with that d show ?thesis by (simp add: openOAuthProxy_def) (simp add: sample_sealer_def)
  qed
  show "openOAuthProxy sample_sealer kind (envelope ''consent'') = (if kind = ''consent'' then Some kind else None)"
    "openOAuthProxy sample_sealer kind (envelope ''state'') = (if kind = ''state'' then Some kind else None)"
    "openOAuthProxy sample_sealer kind (envelope ''code'') = (if kind = ''code'' then Some kind else None)"
    by (rule *, simp)+
qed

lemma agent_client_facts:
  "xc_ID agent_client \<noteq> []" "\<not> 128 < length (xc_ID agent_client)" "xc_RedirectURIs agent_client = [''https://agent.test/cb'']"
  "xc_AuthMethod agent_client = ''none''" "checkRegistration sample_lib (re_urls sample_env) agent_reg = None"
proof -
  show "checkRegistration sample_lib (re_urls sample_env) agent_reg = None" by code_simp
qed (simp_all add: agent_client_def new_client_def agent_reg_def Let_def length_hex sample_io_def)

lemma agent_input_facts:
  "validPKCEChallenge (b64_encode b64_url agent_verifier)"
  "resolveProxyScopes (oauth_info sample_env oauth_app) ''mail.read'' = [''mail.read'']"
proof -
  have "Fields ''mail.read'' = [''mail.read'']" by code_simp
  then show "resolveProxyScopes (oauth_info sample_env oauth_app) ''mail.read'' = [''mail.read'']"
    by (simp add: resolveProxyScopes_def Let_def sample_oauth)
qed code_simp

lemma sample_time: "now sample_io = 1000"
  by (simp add: sample_io_def)

lemma reset_jobs [simp]:
  "pr_audit P w c k r out d\<lparr>pr_jobs := J\<rparr> = P\<lparr>pr_jobs := J\<rparr>" "agent_proxy cs items\<lparr>pr_jobs := idle_jobs oauth_app\<rparr> = agent_proxy cs items"
  by (simp_all add: pr_audit_def agent_proxy_def)

lemma run_reset:
  "proxy_run L U Z P \<Longrightarrow> proxy_step L U Z P P' \<Longrightarrow> proxy_run L U Z (P'\<lparr>pr_jobs := J\<rparr>)"
  by (blast intro: run_step step_else)

lemma GetMCPOAuthClient_Cons [simp]: "db_GetMCPOAuthClient [x] (xc_ID x) = Inr x"
  "db_GetMCPOAuthClient [x\<lparr>xc_LastUsedAt := t\<rparr>] (xc_ID x) = Inr (x\<lparr>xc_LastUsedAt := t\<rparr>)"
  by (simp_all add: db_GetMCPOAuthClient_def)

lemma agent_registered: "proxy_run sample_lib sample_urls sample_sealer (agent_proxy [agent_client] [])"
proof -
  have start: "proxy_run sample_lib sample_urls sample_sealer (agent_proxy [] [])" unfolding agent_proxy_def by (rule run_start)
  obtain r P' where reg: "RegisterMCPOAuthClient sample_lib sample_env sample_io (sample_ctx ''rest'' []) agent_reg (agent_proxy [] []) = (r, P')"
    by (rule prod.exhaust)
  then have "P'\<lparr>pr_jobs := idle_jobs oauth_app\<rparr> = agent_proxy [agent_client] []"
    by (auto simp: RegisterMCPOAuthClient_def sample_proxy_on agent_client_facts Let_def db_PruneMCPOAuthClients_def del_where_def
        db_CountMCPOAuthClients_def oauthProxyClientLimit_def db_CreateMCPOAuthClient_def no_row_def agent_client_def [symmetric])
  with run_reset [OF start step_register [OF _ reg], of "idle_jobs oauth_app"] show ?thesis by (simp add: sample_env_def)
qed

lemma agent_prepared: "proxy_run sample_lib sample_urls sample_sealer (agent_proxy [agent_client] [SConsent agent_consent agent_client])"
proof -
  obtain r P' where prep: "PrepareMCPOAuthProxy sample_lib sample_env sample_sealer sample_io agent_authorize ''n'' (agent_proxy [agent_client] []) =
      (r, P')" by (rule prod.exhaust)
  have "redirectURIMatches sample_lib (re_urls sample_env) u u" for u by (simp add: redirectURIMatches_def)
  with prep have "P' = agent_proxy [agent_client] [SConsent agent_consent agent_client]"
    by (auto simp: PrepareMCPOAuthProxy_def case_prod_unfold Let_def sample_proxy_on agent_authorize_def agent_client_facts
        agent_input_facts oauthProxyStateTTL_def sample_time agent_consent_def)
  with run_reset [OF agent_registered step_prepare [OF _ prep], of "idle_jobs oauth_app"] show ?thesis by (simp add: sample_env_def)
qed

lemma authentic_consented: "authentic sample_sealer (agent_proxy cs [SConsent agent_consent x]) (envelope ''consent'')"
  by (simp add: authentic_def sample_opens) (simp add: sample_sealer_def)

lemma agent_begun:
  "\<exists>state res P'. BeginMCPOAuthProxy sample_env sample_upstream sample_sealer sample_io c ''u'' (envelope ''consent'') ''n'' True
       (agent_proxy [agent_client] [SConsent agent_consent agent_client]) =
     (Inr (ToProvider ''postra-proxy'' ''https://mail.test/oauth/callback'' [''openid'', ''mail.read''] state ''u'' res), P') \<and>
     P'\<lparr>pr_jobs := idle_jobs oauth_app\<rparr> =
       agent_proxy [agent_touched] [SState agent_state agent_consent, SConsent agent_consent agent_client]"
proof -
  have o: "open_as sample_sealer ''consent'' (un_consent sample_sealer) (envelope ''consent'') = Some agent_consent"
    by (simp add: open_as_def sample_opens) (simp add: sample_sealer_def)
  obtain ep where e: "UpstreamMCPOAuthEndpoints sample_env sample_upstream oauth_app = Some ep" using sample_endpoints by blast
  have p: "px_ClientID (oi_Proxy (oauth_info sample_env oauth_app)) = ''postra-proxy''"
    "px_CallbackURL (oi_Proxy (oauth_info sample_env oauth_app)) = ''https://mail.test/oauth/callback''"
    by (simp_all add: sample_proxy_info)
  have cs: "cs_ClientID agent_consent = xc_ID agent_client" "cs_ExpiresAt agent_consent = 1600" "cs_Nonce agent_consent = ''n''"
    "cs_Scopes agent_consent = [''mail.read'']" "cs_RedirectURI agent_consent = ''https://agent.test/cb''" "cs_State agent_consent = ''s''"
    "cs_CodeChallenge agent_consent = b64_encode b64_url agent_verifier"
    by (simp_all add: agent_consent_def)
  show ?thesis
    by (simp add: BeginMCPOAuthProxy_def case_prod_unfold Let_def sample_proxy_on o e p cs sample_time agent_state_def
        oauthProxyStateTTL_def db_TouchMCPOAuthClient_def)
qed

definition agent_sealed :: "sealed_item list" where
  "agent_sealed = [SCode agent_code agent_state, SState agent_state agent_consent, SConsent agent_consent agent_client]"

lemma agent_coded: "proxy_run sample_lib sample_urls sample_sealer (agent_proxy [agent_touched] agent_sealed)"
proof -
  let ?P = "agent_proxy [agent_touched] [SState agent_state agent_consent, SConsent agent_consent agent_client]"
  obtain r P' where b: "BeginMCPOAuthProxy sample_env sample_upstream sample_sealer sample_io (sample_ctx ''rest'' []) ''u'' (envelope ''consent'')
      ''n'' True (agent_proxy [agent_client] [SConsent agent_consent agent_client]) = (r, P')"
    "P'\<lparr>pr_jobs := idle_jobs oauth_app\<rparr> = ?P" using agent_begun [of "sample_ctx ''rest'' []"] by blast
  have run: "proxy_run sample_lib sample_urls sample_sealer ?P"
    using run_reset [OF agent_prepared step_begin [OF _ authentic_consented b(1)], of "idle_jobs oauth_app"] b(2)
    by (simp add: sample_env_def)
  have o: "open_as sample_sealer ''state'' (un_state sample_sealer) (envelope ''state'') = Some agent_state"
    by (simp add: open_as_def sample_opens) (simp add: sample_sealer_def)
  have a: "authentic sample_sealer ?P (envelope ''state'')"
    by (simp add: authentic_def sample_opens) (simp add: sample_sealer_def)
  have u: "parse_url (re_urls sample_env) ''https://agent.test/cb'' \<noteq> None" by (simp add: sample_env_def sample_urls_def)
  obtain r2 P2 where d: "CompleteMCPOAuthProxy sample_env sample_sealer sample_io ''x'' (envelope ''state'') [] ?P = (r2, P2)"
    by (rule prod.exhaust)
  with u have "P2 = agent_proxy [agent_touched] agent_sealed"
    by (auto simp: CompleteMCPOAuthProxy_def Let_def sample_proxy_on o sample_time agent_state_def agent_code_def oauthProxyCodeTTL_def
        agent_sealed_def)
  with run_reset [OF run step_complete [OF _ a d], of "idle_jobs oauth_app"] show ?thesis by (simp add: sample_env_def)
qed

lemma authentic_coded: "authentic sample_sealer (agent_proxy cs agent_sealed) (envelope ''code'')"
  by (simp add: authentic_def sample_opens agent_sealed_def) (simp add: sample_sealer_def)

lemma agent_redeemed:
  "\<exists>out P'. ExchangeMCPOAuthProxy sample_lib sample_env sample_upstream sample_sealer sample_io c agent_request
     (agent_proxy [agent_touched] agent_sealed) = (Inr out, P')"
proof -
  have o: "open_as sample_sealer ''code'' (un_code sample_sealer) (envelope ''code'') = Some agent_code"
    by (simp add: open_as_def sample_opens) (simp add: sample_sealer_def)
  obtain ep where e: "UpstreamMCPOAuthEndpoints sample_env sample_upstream oauth_app = Some ep" using sample_endpoints by blast
  have k: "pkceMatches sample_lib agent_verifier (b64_encode b64_url agent_verifier)" by code_simp
  have "Setting oauth_app ''mcp.oauth.proxy.client_secret_ref'' = []" by code_simp
  then have s: "oauthProxySecret sample_io oauth_app = Inr []" by (simp add: oauthProxySecret_def)
  obtain t where t: "us_exchange sample_upstream secret code v = Inr t" "ut_AccessToken t = ''a.b.c''" for secret code v
    by (simp add: sample_upstream_def)
  have r: "tr_GrantType agent_request = ''authorization_code''" "tr_Code agent_request = envelope ''code''"
    "tr_RedirectURI agent_request = ''https://agent.test/cb''" "tr_ClientID agent_request = xc_ID agent_client"
    "tr_CodeVerifier agent_request = agent_verifier" by (simp_all add: agent_request_def)
  have d: "cd_ClientID agent_code = xc_ID agent_client" "cd_RedirectURI agent_code = ''https://agent.test/cb''"
    "cd_CodeChallenge agent_code = b64_encode b64_url agent_verifier" "cd_ExpiresAt agent_code = 1090" by (simp_all add: agent_code_def)
  have "redeem_code sample_lib sample_upstream sample_sealer sample_io secret agent_touched agent_request = Inr t" for secret
    by (simp add: redeem_code_def Let_def r o d k sample_time t)
  then have g: "grant_tokens sample_lib sample_env sample_upstream sample_sealer sample_io agent_request
      (agent_proxy [agent_touched] agent_sealed) = Inr (agent_touched, t)"
    by (simp add: grant_tokens_def authenticateProxyClient_def sample_proxy_on agent_client_facts r e s)
  obtain gr J' where "AuthenticateMCPOAuthTokenReason sample_lib sample_env sample_io c ''a.b.c'' (idle_jobs oauth_app) = (Inr (gr, []), J')"
    using sample_agent by blast
  then show ?thesis by (simp add: ExchangeMCPOAuthProxy_def g t Let_def)
qed

section \<open>Properties\<close>

text \<open>
  C17.  Whatever anonymous parties register and in whatever order the endpoints are called, there are never more than 500
  registered clients, no two with the same identifier, and each has one to ten distinct redirect URIs, none of which a
  browser would execute or send in the clear beyond the machine itself, and a known way to authenticate.
\<close>

theorem registered_clients_ok:
  assumes "proxy_run L U Z P"
  shows "length (pr_clients P) \<le> 500 \<and> distinct (map xc_ID (pr_clients P)) \<and>
    list_all (\<lambda>x. 0 < length (xc_RedirectURIs x) \<and> length (xc_RedirectURIs x) \<le> 10 \<and> distinct (xc_RedirectURIs x) \<and>
      list_all (validOAuthRedirectURI L U) (xc_RedirectURIs x) \<and>
      xc_AuthMethod x \<in> {''none'', ''client_secret_basic'', ''client_secret_post''}) (pr_clients P)"
  using proxy_run_inv [OF assms] by (simp add: proxy_inv_def clients_ok_def client_ok_def [abs_def] auth_methods_def list_all_iff)

theorem registered_clients_ok_witness:
  "distinct (map xc_ID (pr_clients (agent_proxy [agent_client] [])))"
  using registered_clients_ok [OF agent_registered] by blast

text \<open>
  C15.  In every run of the authorization server a code yields tokens only along the whole chain of the flow: the client
  that redeems it is registered and proves its secret if it has one; the code was sealed after the provider sent back
  the person, for a login that was begun by confirming a consent which had been prepared for that very client; the
  redirect URI matches one the client registered; the verifier hashes to the challenge of the authorization request; the
  consent is at most 11 minutes and 30 seconds past its end; and the access token is one the resource itself accepts,
  whose scopes it reports.
\<close>

theorem proxy_token_needs_consent:
  assumes "proxy_run L U Z P" and "re_urls E = U"
    and "tr_GrantType req = ''authorization_code''" and "authentic Z P (tr_Code req)"
    and "ExchangeMCPOAuthProxy L E V Z w c req P = (Inr out, P')"
  shows "\<exists>y cd ps cs x. y \<in> set (pr_clients P) \<and> xc_ID y = tr_ClientID req \<and>
    (xc_AuthMethod y = ''none'' \<or> tokenHash L (tr_ClientSecret req) = xc_SecretHash y) \<and>
    {SCode cd ps, SState ps cs, SConsent cs x} \<subseteq> set (pr_sealed P) \<and> xc_ID x = xc_ID y \<and>
    list_ex (\<lambda>u. validOAuthRedirectURI L U u \<and> redirectURIMatches L U u (cs_RedirectURI cs)) (xc_RedirectURIs x) \<and>
    (tr_RedirectURI req = [] \<or> tr_RedirectURI req = cs_RedirectURI cs) \<and>
    pkceMatches L (tr_CodeVerifier req) (cs_CodeChallenge cs) \<and> now w \<le> cs_ExpiresAt cs + 690 \<and>
    (\<exists>g remark J'. AuthenticateMCPOAuthTokenReason L E w c (to_AccessToken out) (pr_jobs P) = (Inr (g, remark), J') \<and>
       to_Scope out = join '' '' (p_MCPScopes (og_Principal g)))"
  using assms(5)
proof (cases rule: exchange_shape)
  case refused
  then show ?thesis by simp
next
  case (issued y t g remark J1 rf out')
  from issued(1) obtain secret where s: "authenticateProxyClient L P req = Inr y" "redeem_code L V Z w secret y req = Inr t"
    by (rule grant_ok) (use assms(3) in auto)
  from s(2) obtain cd where cd: "open_as Z ''code'' (un_code Z) (tr_Code req) = Some cd" "cd_ClientID cd = xc_ID y"
    "now w \<le> cd_ExpiresAt cd" "tr_RedirectURI req = [] \<or> tr_RedirectURI req = cd_RedirectURI cd"
    "pkceMatches L (tr_CodeVerifier req) (cd_CodeChallenge cd)" by (rule redeem_code_ok) blast
  have ok: "item_ok L U (set (pr_sealed P)) i" if "i \<in> set (pr_sealed P)" for i
    using proxy_run_inv [OF assms(1)] that by (simp add: proxy_inv_def)
  obtain ps where ps: "SCode cd ps \<in> set (pr_sealed P)" using authentic_code [OF assms(4) cd(1)] by blast
  from ok [OF ps] obtain cs where cs: "SState ps cs \<in> set (pr_sealed P)" by auto
  from ok [OF cs] obtain x where x: "SConsent cs x \<in> set (pr_sealed P)" by auto
  note chain = ok [OF ps, simplified] ok [OF cs, simplified] ok [OF x, simplified]
  have "list_ex (\<lambda>u. validOAuthRedirectURI L U u \<and> redirectURIMatches L U u (cs_RedirectURI cs)) (xc_RedirectURIs x)"
    using chain(3) by (auto simp: client_ok_def list_all_iff list_ex_iff)
  moreover have "xc_ID x = xc_ID y" "cd_RedirectURI cd = cs_RedirectURI cs" "cd_CodeChallenge cd = cs_CodeChallenge cs"
    "now w \<le> cs_ExpiresAt cs + 690" using chain cd(2,3) by simp_all
  moreover have "\<exists>g remark J'. AuthenticateMCPOAuthTokenReason L E w c (to_AccessToken out) (pr_jobs P) = (Inr (g, remark), J') \<and>
      to_Scope out = join '' '' (p_MCPScopes (og_Principal g))" using issued(2-5) by auto
  moreover note authenticated_client [OF s(1)] cd(4,5) ps cs x
  ultimately show ?thesis
    by (rule_tac x = y in exI, rule_tac x = cd in exI, rule_tac x = ps in exI, rule_tac x = cs in exI, rule_tac x = x in exI) simp
qed

theorem proxy_token_needs_consent_witness:
  "\<exists>out P' cs x. ExchangeMCPOAuthProxy sample_lib sample_env sample_upstream sample_sealer sample_io (sample_ctx ''rest'' []) agent_request
     (agent_proxy [agent_touched] agent_sealed) = (Inr out, P') \<and> SConsent cs x \<in> set agent_sealed \<and>
     xc_ID x = tr_ClientID agent_request \<and> pkceMatches sample_lib (tr_CodeVerifier agent_request) (cs_CodeChallenge cs)"
proof -
  obtain out P' where e: "ExchangeMCPOAuthProxy sample_lib sample_env sample_upstream sample_sealer sample_io (sample_ctx ''rest'' [])
      agent_request (agent_proxy [agent_touched] agent_sealed) = (Inr out, P')" using agent_redeemed by blast
  have r: "tr_GrantType agent_request = ''authorization_code''" "tr_Code agent_request = envelope ''code''" "re_urls sample_env = sample_urls"
    by (simp_all add: agent_request_def sample_env_def)
  have a: "authentic sample_sealer (agent_proxy [agent_touched] agent_sealed) (tr_Code agent_request)"
    unfolding r by (rule authentic_coded)
  from proxy_token_needs_consent [OF agent_coded r(3) r(1) a e] obtain cs x where "SConsent cs x \<in> set agent_sealed"
    "xc_ID x = tr_ClientID agent_request" "pkceMatches sample_lib (tr_CodeVerifier agent_request) (cs_CodeChallenge cs)"
    unfolding agent_proxy_fields by (metis insert_subset)
  with e show ?thesis by blast
qed

text \<open>
  C16.  The browser goes on to the provider only when the person allowed it, from the browser the consent was shown in
  and within ten minutes of it, with exactly the scopes shown, and for a client that is still registered.
\<close>

theorem provider_after_consent:
  assumes "proxy_run L U Z P" and "authentic Z P raw"
    and "BeginMCPOAuthProxy E V Z w c verifier raw nonce allow P = (Inr (ToProvider i callback scopes state v res), P')"
  shows "allow \<and> (\<exists>cs x. SConsent cs x \<in> set (pr_sealed P) \<and> cs_Nonce cs = nonce \<and> nonce \<noteq> [] \<and> now w \<le> cs_ExpiresAt cs \<and>
    scopes = ''openid'' # cs_Scopes cs \<and> list_ex (\<lambda>y. xc_ID y = xc_ID x) (pr_clients P) \<and>
    list_ex (\<lambda>u. redirectURIMatches L U u (cs_RedirectURI cs)) (xc_RedirectURIs x))"
proof (cases "open_as Z ''consent'' (un_consent Z) raw")
  case None
  then show ?thesis using assms(3) by (auto simp: BeginMCPOAuthProxy_def Let_def split: prod.splits if_splits)
next
  case (Some cs)
  show ?thesis
  proof (cases "db_GetMCPOAuthClient (pr_clients P) (cs_ClientID cs)")
    case (Inl e)
    then show ?thesis using assms(3) Some by (auto simp: BeginMCPOAuthProxy_def Let_def split: prod.splits if_splits)
  next
    case (Inr y)
    have b: "allow" "now w \<le> cs_ExpiresAt cs" "nonce \<noteq> []" "cs_Nonce cs = nonce" "scopes = ''openid'' # cs_Scopes cs"
      using assms(3) Some Inr by (auto simp: BeginMCPOAuthProxy_def Let_def split: prod.splits if_splits option.splits)
    obtain x where x: "SConsent cs x \<in> set (pr_sealed P)" using authentic_consent [OF assms(2) Some] by blast
    with proxy_run_inv [OF assms(1)] have "item_ok L U (set (pr_sealed P)) (SConsent cs x)"
      unfolding proxy_inv_def by blast
    with GetMCPOAuthClient_in [OF Inr] have "list_ex (\<lambda>y. xc_ID y = xc_ID x) (pr_clients P)"
      "list_ex (\<lambda>u. redirectURIMatches L U u (cs_RedirectURI cs)) (xc_RedirectURIs x)" by (auto simp: list_ex_iff)
    with b x show ?thesis by blast
  qed
qed

theorem provider_after_consent_witness:
  "\<exists>i callback scopes state v res P' cs x.
     BeginMCPOAuthProxy sample_env sample_upstream sample_sealer sample_io (sample_ctx ''rest'' []) ''u'' (envelope ''consent'') ''n'' True
       (agent_proxy [agent_client] [SConsent agent_consent agent_client]) = (Inr (ToProvider i callback scopes state v res), P') \<and>
     SConsent cs x \<in> {SConsent agent_consent agent_client} \<and> scopes = ''openid'' # cs_Scopes cs"
proof -
  obtain state res P' where b: "BeginMCPOAuthProxy sample_env sample_upstream sample_sealer sample_io (sample_ctx ''rest'' []) ''u''
      (envelope ''consent'') ''n'' True (agent_proxy [agent_client] [SConsent agent_consent agent_client]) =
     (Inr (ToProvider ''postra-proxy'' ''https://mail.test/oauth/callback'' [''openid'', ''mail.read''] state ''u'' res), P')"
    using agent_begun by blast
  from provider_after_consent [OF agent_prepared authentic_consented b] b show ?thesis by auto
qed

end
