(* ===== verification/Http_Gate.thy ===== *)
theory Http_Gate
  imports Mcp_Oauth
begin

text \<open>
  The door of the REST interface (\<open>src/internal/transport/httpapi\<close>: \<open>middleware\<close> and \<open>authenticate\<close> of \<open>server.go\<close>,
  \<open>browser_auth.go\<close>, the table of \<open>configuration_routes.go\<close>): whose request a handler gets to see.  The router that
  finds the pattern of a request, and the handlers behind the door, are not modelled.
\<close>

section \<open>Requests\<close>

record request =
  rq_Method :: string
  rq_Path :: string
  rq_Host :: string
  rq_TLS :: bool
  rq_Header :: "string \<Rightarrow> string list"
  rq_Cookie :: "string \<Rightarrow> string option"

definition header_Get :: "request \<Rightarrow> string \<Rightarrow> string" where
  "header_Get r key = (case rq_Header r key of [] \<Rightarrow> [] | v # vs \<Rightarrow> v)"

definition safeMethod :: "string \<Rightarrow> bool" where
  "safeMethod m = (m \<in> set [''GET'', ''HEAD'', ''OPTIONS''])"

definition forwardedFirst :: "string \<Rightarrow> string" where
  "forwardedFirst v = TrimSpace (takeWhile (\<lambda>ch. ch \<noteq> CHR '','') v)"

definition requestScheme :: "lib \<Rightarrow> request \<Rightarrow> string" where
  "requestScheme L r =
     (if rq_TLS r \<or> EqualFold L (forwardedFirst (header_Get r ''X-Forwarded-Proto'')) ''https'' \<or>
         EqualFold L (forwardedFirst (header_Get r ''X-Forwarded-Scheme'')) ''https'' \<or>
         EqualFold L (header_Get r ''Front-End-Https'') ''on'' \<or> EqualFold L (header_Get r ''X-Url-Scheme'') ''https''
      then ''https'' else ''http'')"

definition sameOrigin :: "lib \<Rightarrow> urls \<Rightarrow> request \<Rightarrow> bool \<Rightarrow> bool" where
  "sameOrigin L U r required =
     (let site = header_Get r ''Sec-Fetch-Site''; origin = header_Get r ''Origin''
      in if site \<noteq> [] \<and> site \<noteq> ''same-origin'' \<and> site \<noteq> ''none'' then False
         else if origin = [] then \<not> required
         else case parse_url U origin of
                None \<Rightarrow> False
              | Some u \<Rightarrow>
                  if url_HasUser u \<or> url_RawQuery u \<noteq> [] \<or> url_Fragment u \<noteq> [] \<or> url_Path u \<noteq> [] \<and> url_Path u \<noteq> ''/''
                  then False
                  else (let forwarded = forwardedFirst (header_Get r ''X-Forwarded-Host'');
                            host = (if forwarded \<noteq> [] then forwarded else rq_Host r)
                        in EqualFold L (url_Scheme u) (requestScheme L r) \<and> EqualFold L (url_Host u) host))"

section \<open>The server\<close>

record http_server =
  hs_AuthEnabled :: bool
  hs_apiToken :: string
  hs_res :: resource_env

abbreviation hs_urls :: "http_server \<Rightarrow> urls" where "hs_urls S \<equiv> re_urls (hs_res S)"

definition publicAuthPath :: "string \<Rightarrow> bool" where
  "publicAuthPath p =
     (p \<in> set [''/auth/session'', ''/auth/login'', ''/auth/setup'', ''/auth/oidc/start'', ''/auth/oidc/callback''])"

definition publicPath :: "string \<Rightarrow> bool" where
  "publicPath p =
     (p = ''/tracking/csp-report'' \<or> HasPrefix p ''/momento/'' \<or> publicAuthPath p \<or>
      p \<in> set [''/livez'', ''/readyz'', ''/healthz'', ''/api/livez'', ''/api/readyz'', ''/api/healthz'', ''/api/auth/session''])"

definition admin_principal :: "User \<Rightarrow> string \<Rightarrow> Principal" where
  "admin_principal u method =
     \<lparr>p_UserID = u_ID u, p_LoginID = u_LoginID u, p_DisplayName = u_DisplayName u, p_Role = RoleAdmin,
      p_AuthMethod = method, p_MCPKeyID = [], p_MCPScopes = []\<rparr>"

text \<open>The single user of a deployment without sign-in, as an administrator.\<close>

definition default_admin :: "app \<Rightarrow> string \<Rightarrow> Principal option" where
  "default_admin a method =
     (case db_GetUser (st a) DefaultUserID of
        Inl e \<Rightarrow> None
      | Inr u \<Rightarrow> if u_Status u = UserActive then Some (admin_principal u method) else None)"

definition localPrincipal :: "app \<Rightarrow> Principal option" where
  "localPrincipal a = default_admin a ''local''"

text \<open>A cookie, once no credential was given in the header.\<close>

definition cookie_principal :: "http_server \<Rightarrow> lib \<Rightarrow> io \<Rightarrow> app \<Rightarrow> request \<Rightarrow> Principal option \<times> app" where
  "cookie_principal S L w a r =
     (case rq_Cookie r ''postra_session'' of
        None \<Rightarrow> (None, a)
      | Some v \<Rightarrow>
          (case AuthenticateSession L w a v of
             (Inr (ss, p), a1) \<Rightarrow> (Some p, a1)
           | (Inl e, a1) \<Rightarrow>
               if \<not> hs_AuthEnabled S \<and> hs_apiToken S \<noteq> [] \<and> v = hs_apiToken S then (localPrincipal a1, a1) else (None, a1)))"

text \<open>A bearer token that is not the API token: an agent's key, else an access token meant for the REST interface.\<close>

definition bearer_principal :: "http_server \<Rightarrow> lib \<Rightarrow> io \<Rightarrow> app \<Rightarrow> string \<Rightarrow> Principal option \<times> app" where
  "bearer_principal S L w a raw =
     (case AuthenticateMCPKey L w a raw of
        (Inr (key, p), a1) \<Rightarrow> (Some p, a1)
      | (Inl e, a1) \<Rightarrow>
          (case AuthenticateOIDCAccessToken (hs_res S) w a1 raw of Inr p \<Rightarrow> (Some p, a1) | Inl e' \<Rightarrow> (None, a1)))"

definition authenticate :: "http_server \<Rightarrow> lib \<Rightarrow> io \<Rightarrow> app \<Rightarrow> request \<Rightarrow> Principal option \<times> app" where
  "authenticate S L w a r =
     (let hd0 = header_Get r ''Authorization''; raw = TrimPrefix hd0 ''Bearer ''
      in if hd0 \<noteq> [] \<and> (\<not> HasPrefix hd0 ''Bearer '' \<or> raw = []) then (None, a)
         else if hs_apiToken S \<noteq> [] \<and> raw = hs_apiToken S \<and> default_admin a ''api_token'' \<noteq> None
         then (default_admin a ''api_token'', a)
         else if raw \<noteq> [] then bearer_principal S L w a raw
         else cookie_principal S L w a r)"

definition browserMutationAllowed :: "http_server \<Rightarrow> lib \<Rightarrow> io \<Rightarrow> app \<Rightarrow> request \<Rightarrow> bool \<times> app" where
  "browserMutationAllowed S L w a r =
     (if safeMethod (rq_Method r) then (True, a)
      else if \<not> sameOrigin L (hs_urls S) r True then (False, a)
      else case rq_Cookie r ''postra_session'' of
             None \<Rightarrow> (False, a)
           | Some v \<Rightarrow>
               (let csrf = header_Get r ''X-CSRF-Token''
                in case AuthenticateSession L w a v of
                     (Inr (ss, p), a1) \<Rightarrow> (VerifyCSRF L (Some ss) csrf, a1)
                   | (Inl e, a1) \<Rightarrow>
                       if \<not> hs_AuthEnabled S \<and> hs_apiToken S \<noteq> [] \<and> v = hs_apiToken S
                       then (case rq_Cookie r ''postra_csrf'' of
                               None \<Rightarrow> (False, a1) | Some t \<Rightarrow> (csrf \<noteq> [] \<and> csrf = t, a1))
                       else (False, a1)))"

text \<open>What a delegated credential may reach over REST, and the tool whose policy then applies.\<close>

definition rest_tools :: "(string \<times> string) list" where
  "rest_tools =
     [(''GET /api/mcp/connection'', ''mail_identity''),
      (''GET /api/messages/{id}/body/frame'', ''mail_message_get''),
      (''POST /api/messages/{id}/images/allow'', ''mail_set_work_status''),
      (''DELETE /api/messages/{id}/images/allow'', ''mail_set_work_status''),
      (''POST /api/action-cards'', ''mail_action_card_create''), (''GET /api/events'', ''mail_events''),
      (''POST /api/mail/rewrite-selection'', ''mail_text_rewrite''),
      (''POST /api/drafts/{id}/attachments'', ''mail_draft_attachment_add''),
      (''GET /api/drafts/{id}/attachments/{attachment}'', ''mail_draft_attachment_get''),
      (''DELETE /api/drafts/{id}/attachments/{attachment}'', ''mail_draft_attachment_remove''),
      (''GET /api/messages/{id}/auth'', ''mail_auth_inspect''),
      (''GET /api/messages/{id}/collab'', ''mail_collab_get''),
      (''POST /api/messages/{id}/sla'', ''mail_set_sla''),
      (''GET /api/action-cards/{id}'', ''mail_action_cards_list''),
      (''POST /api/rules/draft'', ''mail_rule_draft_from_text''),
      (''GET /api/mail/templates'', ''mail_templates''), (''POST /api/signatures'', ''mail_signature_save''),
      (''PUT /api/signatures/{id}'', ''mail_signature_save''),
      (''DELETE /api/signatures/{id}'', ''mail_signature_delete''), (''GET /api/audit'', ''mail_audit_search''),
      (''GET /api/me'', ''mail_identity''), (''GET /api/system/info'', ''mail_system_info''),
      (''GET /api/accounts'', ''mail_account_list''), (''GET /api/accounts/{id}'', ''mail_account_get''),
      (''POST /api/accounts/{id}/test'', ''mail_account_test''),
      (''POST /api/accounts/{id}/sync'', ''mail_sync_start''), (''GET /api/jobs'', ''job_list''),
      (''GET /api/jobs/{id}'', ''job_status''), (''POST /api/jobs/{id}/cancel'', ''job_cancel''),
      (''GET /api/messages'', ''mail_search''), (''GET /api/messages/{id}'', ''mail_message_get''),
      (''GET /api/messages/{id}/raw'', ''mail_message_get''),
      (''GET /api/messages/{id}/attachments'', ''mail_attachment_list''),
      (''GET /api/messages/{id}/attachments/{att}'', ''mail_attachment_list''),
      (''GET /api/messages/{id}/attachments/{att}/text'', ''mail_attachment_extract_text''),
      (''POST /api/messages/{id}/attachments/{att}/summarize'', ''mail_attachment_summarize''),
      (''POST /api/messages/{id}/analyze'', ''mail_summarize''),
      (''POST /api/messages/{id}/suggest-replies'', ''mail_suggest_replies''),
      (''POST /api/messages/{id}/calendar'', ''mail_calendar_extract''),
      (''GET /api/messages/{id}/calendar.ics'', ''mail_calendar_extract''),
      (''GET /api/threads/{id}'', ''mail_thread_get''),
      (''GET /api/threads/{id}/timeline'', ''mail_thread_timeline''),
      (''POST /api/threads/{id}/summarize'', ''mail_thread_summarize''),
      (''DELETE /api/messages/{id}'', ''mail_local_delete''),
      (''POST /api/messages/batch'', ''mail_batch_update''), (''POST /api/qa'', ''mail_question_answer''),
      (''POST /api/digest'', ''mail_daily_digest''), (''POST /api/eval'', ''mail_eval_prompt''),
      (''POST /api/semantic-search'', ''mail_semantic_search''),
      (''POST /api/hybrid-search'', ''mail_hybrid_search''),
      (''POST /api/embeddings/build'', ''mail_embeddings_build''), (''GET /api/drafts'', ''mail_draft_get''),
      (''POST /api/drafts'', ''mail_draft_create''), (''GET /api/drafts/{id}'', ''mail_draft_get''),
      (''PATCH /api/drafts/{id}'', ''mail_draft_update''), (''DELETE /api/drafts/{id}'', ''mail_draft_delete''),
      (''POST /api/drafts/{id}/rewrite'', ''mail_draft_rewrite''),
      (''POST /api/drafts/{id}/preview'', ''mail_send_preview''),
      (''POST /api/drafts/{id}/request-approval'', ''mail_send_request_approval''),
      (''POST /api/drafts/{id}/send'', ''mail_send''), (''GET /api/outbound'', ''mail_outbound_list''),
      (''GET /api/outbound/{id}'', ''mail_outbound_status''), (''POST /api/mail/render'', ''mail_render''),
      (''GET /api/signatures'', ''mail_signature_list''), (''GET /api/signatures/{id}'', ''mail_signature_get''),
      (''GET /api/work-inbox'', ''mail_work_inbox''), (''GET /api/team-inbox'', ''mail_team_inbox''),
      (''GET /api/action-cards'', ''mail_action_cards_list''), (''GET /api/rules'', ''mail_rules_list''),
      (''GET /api/rules/{id}'', ''mail_rules_list''), (''POST /api/rules'', ''mail_rule_create''),
      (''PUT /api/rules/{id}'', ''mail_rule_update''), (''DELETE /api/rules/{id}'', ''mail_rule_delete''),
      (''POST /api/messages/{id}/apply-rules'', ''mail_apply_rules''),
      (''POST /api/messages/{id}/assign'', ''mail_assign''),
      (''POST /api/messages/{id}/work-status'', ''mail_set_work_status''),
      (''POST /api/messages/{id}/notes'', ''mail_add_note''),
      (''POST /api/messages/{id}/action-cards'', ''mail_action_cards_extract''),
      (''POST /api/action-cards/{id}/status'', ''mail_action_card_set_status''),
      (''POST /api/action-cards/{id}/export'', ''mail_action_card_export'')]"

definition checkMCPRESTScope :: "lib \<Rightarrow> io \<Rightarrow> app \<Rightarrow> ctx \<Rightarrow> string \<Rightarrow> err option \<times> app" where
  "checkMCPRESTScope L w a c route =
     (case map_of rest_tools route of
        None \<Rightarrow> (Some (PublicError ''insufficient_scope'' 403), a)
      | Some tool \<Rightarrow> CheckMCPToolPolicy L w a c tool)"

text \<open>
  What becomes of a request whose pattern is \<open>route\<close>: refused for want of a credential, as a forgery, or by the policy;
  or handed to its handler in a context.  Metrics are outside the door.
\<close>

datatype verdict =
    Unauthorized
  | Forged
  | Refused err
  | Handled ctx
  | Metrics

definition anonymous :: ctx where
  "anonymous = \<lparr>c_actor = Some ''rest'', c_principal = None\<rparr>"

definition delegated_gate :: "lib \<Rightarrow> io \<Rightarrow> app \<Rightarrow> ctx \<Rightarrow> string \<Rightarrow> verdict \<times> app" where
  "delegated_gate L w a c route =
     (if (case c_principal c of Some p \<Rightarrow> IsMCPScoped p | None \<Rightarrow> False)
      then (case checkMCPRESTScope L w a c route of (Some e, a1) \<Rightarrow> (Refused e, a1) | (None, a1) \<Rightarrow> (Handled c, a1))
      else (Handled c, a))"

definition needs_credential :: "http_server \<Rightarrow> request \<Rightarrow> bool" where
  "needs_credential S r = (hs_AuthEnabled S \<or> hs_apiToken S \<noteq> [] \<or> rq_Header r ''Authorization'' \<noteq> [])"

definition middleware :: "http_server \<Rightarrow> lib \<Rightarrow> io \<Rightarrow> app \<Rightarrow> request \<Rightarrow> string \<Rightarrow> verdict \<times> app" where
  "middleware S L w a r route =
     (if rq_Path r = ''/metrics'' then (Metrics, a)
      else if publicPath (rq_Path r) then delegated_gate L w a anonymous route
      else if needs_credential S r
      then (case authenticate S L w a r of
              (None, a1) \<Rightarrow> (Unauthorized, a1)
            | (Some p, a1) \<Rightarrow>
                (let c = WithPrincipal anonymous p
                 in if header_Get r ''Authorization'' = []
                    then (case browserMutationAllowed S L w a1 r of
                            (False, a2) \<Rightarrow> (Forged, a2)
                          | (True, a2) \<Rightarrow> delegated_gate L w a2 c route)
                    else delegated_gate L w a1 c route))
      else (let c = (case localPrincipal a of Some p \<Rightarrow> WithPrincipal anonymous p | None \<Rightarrow> anonymous)
            in if \<not> safeMethod (rq_Method r) \<and> \<not> sameOrigin L (hs_urls S) r False then (Forged, a)
               else delegated_gate L w a c route))"

section \<open>Lemmas\<close>

text \<open>A credential of the request as it is at that moment.\<close>

definition live_credential :: "http_server \<Rightarrow> lib \<Rightarrow> io \<Rightarrow> app \<Rightarrow> request \<Rightarrow> Principal \<Rightarrow> bool" where
  "live_credential S L w a r p \<longleftrightarrow>
     (let raw = TrimPrefix (header_Get r ''Authorization'') ''Bearer '' in
      hs_apiToken S \<noteq> [] \<and> raw = hs_apiToken S \<and> default_admin a ''api_token'' = Some p \<or>
      (\<exists>key. fst (AuthenticateMCPKey L w a raw) = Inr (key, p)) \<or>
      (\<exists>a1. AuthenticateOIDCAccessToken (hs_res S) w a1 raw = Inr p \<and> a1 = snd (AuthenticateMCPKey L w a raw)) \<or>
      header_Get r ''Authorization'' = [] \<and>
        (\<exists>v. rq_Cookie r ''postra_session'' = Some v \<and>
          ((\<exists>ss. fst (AuthenticateSession L w a v) = Inr (ss, p)) \<or>
           \<not> hs_AuthEnabled S \<and> hs_apiToken S \<noteq> [] \<and> v = hs_apiToken S \<and> localPrincipal a = Some p)))"

lemma AuthenticateSession_Inl: "AuthenticateSession L w a v = (Inl e, a1) \<Longrightarrow> a1 = a"
  by (auto simp: AuthenticateSession_def split: if_splits sum.splits)

lemma AuthenticateMCPKey_Inl: "AuthenticateMCPKey L w a v = (Inl e, a1) \<Longrightarrow> a1 = a"
  by (auto simp: AuthenticateMCPKey_def Let_def split: if_splits sum.splits)

lemma TrimPrefix_Bearer:
  "HasPrefix h ''Bearer '' \<Longrightarrow> TrimPrefix h ''Bearer '' = [] \<longleftrightarrow> h = ''Bearer ''"
  by (auto simp: HasPrefix_def TrimPrefix_def prefix_def)

lemma cookie_credential:
  assumes "cookie_principal S L w a r = (Some p, a1)" "header_Get r ''Authorization'' = []"
  shows "live_credential S L w a r p"
proof -
  obtain v where v: "rq_Cookie r ''postra_session'' = Some v"
    using assms(1) by (auto simp: cookie_principal_def split: option.splits)
  obtain q a2 where q: "AuthenticateSession L w a v = (q, a2)" by fastforce
  show ?thesis
  proof (cases q)
    case (Inl e)
    then show ?thesis
      using assms v q AuthenticateSession_Inl [of L w a v e a2]
      by (auto simp: cookie_principal_def live_credential_def Let_def split: if_splits)
  next
    case (Inr x)
    then show ?thesis using assms v q
      by (auto simp: cookie_principal_def live_credential_def Let_def split: prod.splits)
  qed
qed

lemma bearer_credential:
  assumes "bearer_principal S L w a raw = (Some p, a1)"
  shows "(\<exists>key. fst (AuthenticateMCPKey L w a raw) = Inr (key, p)) \<or>
    AuthenticateOIDCAccessToken (hs_res S) w (snd (AuthenticateMCPKey L w a raw)) raw = Inr p"
proof -
  obtain q a2 where q: "AuthenticateMCPKey L w a raw = (q, a2)" by (rule prod.exhaust)
  with assms show ?thesis by (auto simp: bearer_principal_def split: sum.splits prod.splits)
qed

lemma ladder:
  "(if A then x else if B then y else if C then z else w) = v \<Longrightarrow>
     A \<and> x = v \<or> \<not> A \<and> B \<and> y = v \<or> \<not> A \<and> z = v \<or> \<not> A \<and> \<not> C \<and> w = v"
  by (simp split: if_splits)

lemma authenticate_credential:
  assumes "authenticate S L w a r = (Some p, a1)"
  shows "live_credential S L w a r p"
  using ladder [OF assms [unfolded authenticate_def Let_def]]
proof (elim disjE conjE)
  assume "hs_apiToken S \<noteq> []" "TrimPrefix (header_Get r ''Authorization'') ''Bearer '' = hs_apiToken S"
    "(default_admin a ''api_token'', a) = (Some p, a1)"
  then show ?thesis unfolding live_credential_def Let_def by blast
next
  assume "bearer_principal S L w a (TrimPrefix (header_Get r ''Authorization'') ''Bearer '') = (Some p, a1)"
  from bearer_credential [OF this] show ?thesis unfolding live_credential_def Let_def by blast
next
  assume "\<not> (header_Get r ''Authorization'' \<noteq> [] \<and> (\<not> HasPrefix (header_Get r ''Authorization'') ''Bearer '' \<or>
      TrimPrefix (header_Get r ''Authorization'') ''Bearer '' = []))"
    "\<not> TrimPrefix (header_Get r ''Authorization'') ''Bearer '' \<noteq> []" "cookie_principal S L w a r = (Some p, a1)"
  then show ?thesis by (intro cookie_credential) blast+
qed simp_all

lemma delegated_Handled:
  assumes "delegated_gate L w a c route = (Handled c', a')"
  shows "c' = c"
    "c_principal c = Some p \<Longrightarrow> IsMCPScoped p \<Longrightarrow>
       \<exists>tool. map_of rest_tools route = Some tool \<and> fst (CheckMCPToolPolicy L w a c tool) = None"
  using assms by (auto simp: delegated_gate_def checkMCPRESTScope_def split: if_splits option.splits prod.splits)

text \<open>Checking credentials changes no user and no setting; a session keeps its hashes.\<close>

definition quiet :: "app \<Rightarrow> app \<Rightarrow> bool" where
  "quiet a a' \<longleftrightarrow> users (st a') = users (st a) \<and> (\<forall>k. SettingBool a' k = SettingBool a k) \<and>
     (\<lambda>x. (ss_TokenHash x, ss_CSRFHash x)) ` set (sessions (st a')) = (\<lambda>x. (ss_TokenHash x, ss_CSRFHash x)) ` set (sessions (st a))"

lemma quiet_refl: "quiet a a"
  by (simp add: quiet_def)

lemma quiet_trans: "quiet a b \<Longrightarrow> quiet b c \<Longrightarrow> quiet a c"
  by (simp add: quiet_def)

lemma touch_quiet:
  "quiet a (a\<lparr>st := db_TouchSession (st a) i t\<rparr>)" "quiet a (a\<lparr>st := db_TouchMCPKey (st a) i t\<rparr>)"
  by (auto simp: quiet_def db_TouchSession_def db_TouchMCPKey_def image_upd_where_same)

lemma AuthenticateSession_quiet: "quiet a (snd (AuthenticateSession L w a v))"
  by (auto simp: AuthenticateSession_def quiet_refl touch_quiet split: sum.split prod.split)

lemma AuthenticateMCPKey_quiet: "quiet a (snd (AuthenticateMCPKey L w a v))"
  by (auto simp: AuthenticateMCPKey_def Let_def quiet_refl touch_quiet split: sum.split prod.split)

lemma cookie_principal_quiet: "quiet a (snd (cookie_principal S L w a r))"
proof (cases "rq_Cookie r ''postra_session''")
  case None
  then show ?thesis by (simp add: cookie_principal_def quiet_refl)
next
  case (Some v)
  obtain q a1 where q: "AuthenticateSession L w a v = (q, a1)" by (rule prod.exhaust)
  have "quiet a a1" using AuthenticateSession_quiet [of a L w v] q by simp
  then show ?thesis using Some q by (auto simp: cookie_principal_def split: sum.split prod.split)
qed

lemma bearer_principal_quiet: "quiet a (snd (bearer_principal S L w a raw))"
proof -
  obtain q a1 where q: "AuthenticateMCPKey L w a raw = (q, a1)" by (rule prod.exhaust)
  have "quiet a a1" using AuthenticateMCPKey_quiet [of a L w raw] q by simp
  then show ?thesis unfolding bearer_principal_def q by (simp split: sum.split prod.split)
qed

lemma authenticate_quiet: "quiet a (snd (authenticate S L w a r))"
  unfolding authenticate_def Let_def
  by (simp only: if_distrib [of snd] snd_conv quiet_refl bearer_principal_quiet cookie_principal_quiet if_split simp_thms)

lemma browserMutation_quiet: "quiet a (snd (browserMutationAllowed S L w a r))"
proof (cases "rq_Cookie r ''postra_session''")
  case None
  then show ?thesis by (simp add: browserMutationAllowed_def quiet_refl)
next
  case (Some v)
  obtain q a1 where q: "AuthenticateSession L w a v = (q, a1)" by (rule prod.exhaust)
  have "quiet a a1" using AuthenticateSession_quiet [of a L w v] q by simp
  then show ?thesis using Some q
    by (auto simp: browserMutationAllowed_def quiet_refl Let_def split: sum.split prod.split option.split)
qed

text \<open>What a handled request went through.\<close>

lemma handled_cases:
  assumes "middleware S L w a r route = (Handled c, a')"
  obtains (public) "publicPath (rq_Path r)" "c = anonymous"
    | (credential) p a1 a2 where "\<not> publicPath (rq_Path r)" "needs_credential S r" "authenticate S L w a r = (Some p, a1)"
        "c = WithPrincipal anonymous p" "quiet a a2" "delegated_gate L w a2 c route = (Handled c, a')"
        "header_Get r ''Authorization'' = [] \<Longrightarrow> fst (browserMutationAllowed S L w a1 r)"
    | (open_door) "\<not> publicPath (rq_Path r)" "\<not> needs_credential S r" "c_principal c = localPrincipal a"
        "delegated_gate L w a c route = (Handled c, a')" "safeMethod (rq_Method r) \<or> sameOrigin L (hs_urls S) r False"
proof (cases "publicPath (rq_Path r)")
  case True
  then show ?thesis using assms public delegated_Handled(1) [of L w a anonymous route c a']
    by (auto simp: middleware_def split: if_splits)
next
  case np: False
  show ?thesis
  proof (cases "needs_credential S r")
    case False
    let ?c = "case localPrincipal a of Some p \<Rightarrow> WithPrincipal anonymous p | None \<Rightarrow> anonymous"
    have h: "delegated_gate L w a ?c route = (Handled c, a')" "safeMethod (rq_Method r) \<or> sameOrigin L (hs_urls S) r False"
      using assms np False by (auto simp: middleware_def Let_def split: if_splits)
    note c = delegated_Handled(1) [OF h(1)]
    have "c_principal c = localPrincipal a" by (simp add: c WithPrincipal_def anonymous_def split: option.split)
    then show ?thesis using open_door np False h c by simp
  next
    case True
    obtain q a1 where q: "authenticate S L w a r = (q, a1)" by (rule prod.exhaust)
    with assms np True obtain p where p: "q = Some p" by (cases q) (auto simp: middleware_def split: if_splits)
    let ?c = "WithPrincipal anonymous p"
    have q1: "quiet a a1" using authenticate_quiet [of a S L w r] q by simp
    obtain ok a2 where b: "browserMutationAllowed S L w a1 r = (ok, a2)" by (rule prod.exhaust)
    have q2: "quiet a a2" using browserMutation_quiet [of a1 S L w r] b quiet_trans [OF q1] by simp
    show ?thesis
    proof (cases "header_Get r ''Authorization'' = []")
      case True
      then have "ok" and d: "delegated_gate L w a2 ?c route = (Handled c, a')"
        using assms np \<open>needs_credential S r\<close> q p b by (auto simp: middleware_def Let_def split: if_splits bool.splits)
      then show ?thesis using credential [of p a1 a2] np \<open>needs_credential S r\<close> q p b q2 delegated_Handled(1) [OF d] by simp
    next
      case False
      then have d: "delegated_gate L w a1 ?c route = (Handled c, a')"
        using assms np \<open>needs_credential S r\<close> q p by (auto simp: middleware_def Let_def split: if_splits)
      then show ?thesis using credential [of p a1 a1] np \<open>needs_credential S r\<close> q p q1 delegated_Handled(1) [OF d] False by simp
    qed
  qed
qed

text \<open>Every credential belongs to an active user.\<close>

definition active_user :: "app \<Rightarrow> string \<Rightarrow> bool" where
  "active_user a uid \<longleftrightarrow> (\<exists>row \<in> set (users (st a)). u_ID (fst row) = uid \<and> u_Status (fst row) = UserActive)"

lemma active_userI: "(u, h) \<in> set (users (st a)) \<Longrightarrow> u_Status u = UserActive \<Longrightarrow> active_user a (u_ID u)"
  unfolding active_user_def by force

lemma default_admin_active:
  assumes "default_admin a m = Some p"
  shows "active_user a (p_UserID p)"
proof -
  obtain u where u: "db_GetUser (st a) DefaultUserID = Inr u" "u_Status u = UserActive" "p = admin_principal u m"
    using assms by (auto simp: default_admin_def split: sum.splits if_splits)
  then obtain h where "(u, h) \<in> set (users (st a))"
    by (auto simp: db_GetUser_def split: option.splits dest!: find_user_row)
  with u(2,3) active_userI show ?thesis by (simp add: admin_principal_def)
qed

lemma live_credential_active:
  assumes "live_credential S L w a r p"
  shows "active_user a (p_UserID p)"
proof -
  let ?raw = "TrimPrefix (header_Get r ''Authorization'') ''Bearer ''"
  have key: "active_user a (p_UserID p)" if "fst (AuthenticateMCPKey L w a ?raw) = Inr (k, p)" for k
  proof -
    from AuthenticateMCPKey_ok [OF that] obtain u where u: "db_GetMCPKeyByHash (st a) (tokenHash L (TrimSpace ?raw)) = Inr (k, u)"
      "u_Status u = UserActive" "p = (principalFor u ''mcp_key'')\<lparr>p_MCPKeyID := k_ID k, p_MCPScopes := k_Scopes k\<rparr>" by metis
    from key_creds.admitted(1) [OF u(1,2)] u(3) show ?thesis by (auto simp: active_user_def principalFor_def)
  qed
  have session: "active_user a (p_UserID p)" if "fst (AuthenticateSession L w a v) = Inr (x, p)" for v x
  proof -
    from AuthenticateSession_ok [OF that] obtain u where u: "db_GetSessionByTokenHash (st a) (now w) (tokenHash L v) = Inr (x, u)"
      "u_Status u = UserActive" "p = principalFor u (u_AuthProvider u)" by metis
    from session_creds.admitted(1) [OF u(1,2)] u(3) show ?thesis by (auto simp: active_user_def principalFor_def)
  qed
  have oidc: "active_user a (p_UserID p)"
    if "AuthenticateOIDCAccessToken (hs_res S) w (snd (AuthenticateMCPKey L w a ?raw)) ?raw = Inr p"
  proof -
    let ?a = "snd (AuthenticateMCPKey L w a ?raw)"
    from that obtain rt :: oidcRuntime and t :: id_token and u :: User where
      u: "db_GetUserByOIDC (st ?a) (rt_Issuer rt) (oc_Subject (the (it_Claims t))) = Inr u" "u_Status u = UserActive"
         "p = principalFor u ''oidc_bearer''" by (rule oidc_bearer_ok) blast
    from GetUserByOIDC_row [OF u(1)] obtain h where "(u, h) \<in> set (users (st ?a))" by blast
    then have "(u, h) \<in> set (users (st a))" using AuthenticateMCPKey_quiet [of a L w ?raw] by (simp add: quiet_def)
    then show ?thesis using u(2,3) active_userI by (simp add: principalFor_def)
  qed
  show ?thesis
    using assms key session oidc default_admin_active unfolding live_credential_def Let_def localPrincipal_def by blast
qed

lemma rest_writes_need_more:
  "list_all (\<lambda>(r, t). HasPrefix r ''GET '' \<or> r = ''POST /api/accounts/{id}/test'' \<or>
     list_ex (\<lambda>s. s \<notin> set DefaultMCPScopes) (MCPToolScopes t)) rest_tools"
  by code_simp

section \<open>Examples\<close>

definition gate_app :: app where
  "gate_app = sample_app\<lparr>st := empty_store\<lparr>
     users := [(sample_user DefaultUserID ''kim'' RoleAdmin, [])],
     sessions := [\<lparr>ss_ID = ''ses_1'', ss_UserID = DefaultUserID, ss_TokenHash = tokenHash sample_lib ''v'',
        ss_CSRFHash = tokenHash sample_lib ''t'', ss_ExpiresAt = 9000, ss_CreatedAt = 1, ss_LastSeen = 1000,
        ss_UserAgent = [], ss_IPAddress = []\<rparr>],
     mcp_keys := [\<lparr>k_ID = ''key_1'', k_UserID = DefaultUserID, k_Name = ''agent'', k_KeyHash = tokenHash sample_lib ''mk_1'',
        k_KeyPrefix = ''mk_1'', k_Status = ''active'', k_CreatedAt = 1, k_LastUsedAt = 1000, k_Scopes = [''mail.read''],
        k_LegacyScopes = False\<rparr>]\<rparr>\<rparr>"

definition gate_server :: http_server where
  "gate_server = \<lparr>hs_AuthEnabled = True, hs_apiToken = ''secret'',
     hs_res = sample_env\<lparr>re_urls := sample_urls\<lparr>parse_url := map_of [(''https://mail.test'', sample_url ''mail.test'' [])]\<rparr>\<rparr>\<rparr>"

definition gate_request :: "string \<Rightarrow> string \<Rightarrow> (string \<times> string) list \<Rightarrow> request" where
  "gate_request m p hs = \<lparr>rq_Method = m, rq_Path = p, rq_Host = ''mail.test'', rq_TLS = True,
     rq_Header = (\<lambda>k. case map_of hs k of None \<Rightarrow> [] | Some v \<Rightarrow> [v]), rq_Cookie = map_of [(''postra_session'', ''v'')]\<rparr>"

lemma gate_rows:
  "db_GetUser (st gate_app) DefaultUserID = Inr (sample_user DefaultUserID ''kim'' RoleAdmin)"
  "owner_row (st gate_app) DefaultUserID = Some (sample_user DefaultUserID ''kim'' RoleAdmin, [])"
  by (simp_all add: gate_app_def db_GetUser_def owner_row_def sample_user_def new_user_def)

lemma gate_session:
  "\<exists>x p. AuthenticateSession sample_lib sample_io gate_app ''v'' = (Inr (x, p), gate_app) \<and>
     ss_CSRFHash x = tokenHash sample_lib ''t'' \<and> p_AuthMethod p = ''local''"
proof -
  obtain x where x: "sessions (st gate_app) = [x]" "ss_UserID x = DefaultUserID" "ss_TokenHash x = tokenHash sample_lib ''v''"
    "ss_CSRFHash x = tokenHash sample_lib ''t''" "ss_ExpiresAt x = 9000" "ss_LastSeen x = 1000" by (simp add: gate_app_def)
  have n: "now sample_io = 1000" by (simp add: sample_io_def)
  show ?thesis
    by (simp add: AuthenticateSession_def db_GetSessionByTokenHash_def x n gate_rows)
      (simp add: principalFor_def sample_user_def)
qed

lemma gate_key:
  "\<exists>k p. AuthenticateMCPKey sample_lib sample_io gate_app ''mk_1'' = (Inr (k, p), gate_app) \<and>
     p_AuthMethod p = ''mcp_key'' \<and> p_MCPScopes p = [''mail.read''] \<and> p_Role p = RoleAdmin"
proof -
  obtain k where k: "mcp_keys (st gate_app) = [k]" "k_UserID k = DefaultUserID" "k_KeyHash k = tokenHash sample_lib ''mk_1''"
    "k_Status k = ''active''" "k_LastUsedAt k = 1000" "k_ID k = ''key_1''" "k_Scopes k = [''mail.read'']" by (simp add: gate_app_def)
  have n: "now sample_io = 1000" by (simp add: sample_io_def)
  have t: "TrimSpace ''mk_1'' = ''mk_1''" "HasPrefix ''mk_1'' ''mk_''" by code_simp+
  show ?thesis
    by (simp add: AuthenticateMCPKey_def db_GetMCPKeyByHash_def Let_def t k n gate_rows)
      (simp add: principalFor_def sample_user_def)
qed

section \<open>Properties\<close>





text \<open>
  C21.  An agent's key or token reaches over REST only the routes of the table, with the capability switched on, every
  scope the tool behind the route asks for and each of them permitted by the administrator; with no scope beyond reading
  and searching it can only read, or test the connection of an account.
\<close>

theorem delegated_rest_limited:
  assumes "middleware S L w a r route = (Handled c, a')" and "c_principal c = Some p" and "IsMCPScoped p"
  shows "\<exists>tool. (route, tool) \<in> set rest_tools \<and> SettingBool a ''mcp.enabled'' \<and>
    set (MCPToolScopes tool) \<subseteq> set (p_MCPScopes p) \<and>
    list_all (\<lambda>s. SettingBool a (scope_setting s)) (MCPToolScopes tool) \<and>
    (set (p_MCPScopes p) \<subseteq> set DefaultMCPScopes \<longrightarrow> HasPrefix route ''GET '' \<or> route = ''POST /api/accounts/{id}/test'')"
proof -
  obtain a2 where g: "quiet a a2" "delegated_gate L w a2 c route = (Handled c, a')"
    using assms(1)
  proof (cases rule: handled_cases)
    case public
    then show ?thesis using assms(2) by (simp add: anonymous_def)
  qed (use quiet_refl that in blast)+
  from delegated_Handled(2) [OF g(2) assms(2,3)] obtain tool where
    t: "map_of rest_tools route = Some tool" "fst (CheckMCPToolPolicy L w a2 c tool) = None" by blast
  from t(2) have s: "SettingBool a2 ''mcp.enabled''" "set (MCPToolScopes tool) \<subseteq> set (p_MCPScopes p)"
    "\<forall>s\<in>set (MCPToolScopes tool). SettingBool a2 (scope_setting s)"
    using assms(2,3) unfolding mcp_ok by blast+
  have m: "(route, tool) \<in> set rest_tools" using t(1) by (rule map_of_SomeD)
  have "HasPrefix route ''GET '' \<or> route = ''POST /api/accounts/{id}/test''" if "set (p_MCPScopes p) \<subseteq> set DefaultMCPScopes"
    using rest_writes_need_more m s(2) that by (fastforce simp: list_all_iff list_ex_iff)
  with m s g(1) show ?thesis by (auto simp: quiet_def list_all_iff)
qed

theorem delegated_rest_limited_witness:
  "\<exists>c tool. fst (middleware gate_server sample_lib sample_io gate_app
       (gate_request ''GET'' ''/api/messages/m_1'' [(''Authorization'', ''Bearer mk_1'')]) ''GET /api/messages/{id}'') = Handled c \<and>
     (''GET /api/messages/{id}'', tool) \<in> set rest_tools \<and> set (MCPToolScopes tool) \<subseteq> {''mail.read''}"
proof -
  let ?r = "gate_request ''GET'' ''/api/messages/m_1'' [(''Authorization'', ''Bearer mk_1'')]"
  have h: "header_Get ?r ''Authorization'' = ''Bearer mk_1''" "rq_Path ?r = ''/api/messages/m_1''"
    by (simp_all add: header_Get_def gate_request_def)
  have t: "TrimPrefix ''Bearer mk_1'' ''Bearer '' = ''mk_1''" "HasPrefix ''Bearer mk_1'' ''Bearer ''" "\<not> publicPath ''/api/messages/m_1''"
    "map_of rest_tools ''GET /api/messages/{id}'' = Some ''mail_message_get''" "CanonicalMCPTool ''mail_message_get'' = ''mail_message_get''"
    "MCPToolScopes ''mail_message_get'' = [''mail.read'']"
    by code_simp+
  obtain k p where k: "AuthenticateMCPKey sample_lib sample_io gate_app ''mk_1'' = (Inr (k, p), gate_app)"
    "p_AuthMethod p = ''mcp_key''" "p_MCPScopes p = [''mail.read'']" "p_Role p = RoleAdmin" using gate_key by blast
  have a: "authenticate gate_server sample_lib sample_io gate_app ?r = (Some p, gate_app)"
    by (simp add: authenticate_def h t k bearer_principal_def gate_server_def)
  have n: "needs_credential gate_server ?r" by (simp add: needs_credential_def gate_server_def)
  have on: "SettingBool gate_app ''mcp.enabled''" "SettingBool gate_app (scope_setting ''mail.read'')" "mcp_policy gate_app = None"
    by code_simp+
  have l: "fst (level_decision sample_lib None (role_text RoleAdmin) ''mail_message_get'')" by code_simp
  let ?c = "WithPrincipal anonymous p"
  have c: "c_principal ?c = Some p" by (simp add: WithPrincipal_def)
  have "CheckMCPScopes ?c [''mail.read''] = None" by (simp add: CheckMCPScopes_def c k)
  then have "CheckMCPToolPolicy sample_lib sample_io gate_app ?c ''mail_message_get'' = (None, gate_app)"
    using l by (simp add: CheckMCPToolPolicy_def CheckMCPPermissionScopes_def t on c k evaluateAccess_def Let_def case_prod_unfold)
  then have m: "middleware gate_server sample_lib sample_io gate_app ?r ''GET /api/messages/{id}'' = (Handled ?c, gate_app)"
    by (simp add: middleware_def delegated_gate_def checkMCPRESTScope_def h t n a c Let_def)
  have "IsMCPScoped p" by (simp add: IsMCPScoped_def k)
  from delegated_rest_limited [OF m c this] m k(3) show ?thesis by auto
qed

end
