(* ===== verification/Spec2Isabelle.thy ===== *)
theory Spec2Isabelle
  imports Send_Bounds Mask Mcp_Policy Attachment_Scan Server_Delete Auth_Limits Secret_Store Smtp_Client Sync_Connect
    Sync_Jobs Leader_Lease Accounts Sso_Identity Mcp_Oauth Mcp_Oauth_Proxy Http_Gate
begin

text \<open>
  Verification of Postra, a self-hosted mail and work-agent server written in Go.

  Postra keeps the mail of its users in a database, fetches it over POP3 and IMAP, sends over SMTP,
  and offers its operations to people (a web client over HTTP) and to agents (tools over MCP).  What
  an agent may do is limited by roles and key scopes; what leaves the house (a message that is sent,
  a message that is deleted on the mail server) needs an approval that was issued for exactly that
  content.  The development models the application layer (\<open>src/internal/application\<close>), the
  stores under it (\<open>src/internal/adapters/persistence\<close>, \<open>objectstore\<close>, \<open>secretstore\<close>), the three mail
  clients (\<open>src/internal/adapters/pop3\<close>, \<open>imap\<close>, \<open>smtp\<close>), the attachment scanner (\<open>malware\<close>) and the platform
  code these rest on (\<open>src/internal/platform/crypto\<close>, \<open>mask\<close>).

  \<^bold>\<open>How the parts interact.\<close>  Every use case is a method of \<open>application.App\<close>: it reads the actor from its
  context, asks the store, the object store, the secret store and a mail client, and writes an audit
  entry.  Here it is a function from an \<^emph>\<open>app\<close> to an error or a result and the next \<^emph>\<open>app\<close>
  (\<open>App_State\<close>).  The store is the record of its tables (\<open>Store_Tables\<close>); its methods are the
  functions \<open>db_...\<close>.  A call observes the world through an argument \<^emph>\<open>io\<close>: the clock, fresh identifiers,
  random bytes, what servers answer.  What the code calls of other packages for its result only is an
  argument \<^emph>\<open>lib\<close>.  Errors are the values of \<open>err\<close>, one constructor per error type of the source; every early return
  of the source is a branch of the model.

  \<^bold>\<open>Foundations.\<close>
  \<^item> \<open>Go_Prelude\<close>: Go strings as byte strings, the functions of \<open>strings\<close>, \<open>strconv\<close>, \<open>hex\<close> and \<open>fmt\<close> that the
    sources call, integers of 64 bits where they may overflow, row operations, and the rules the other
    theories share.  \<open>Go_Base64\<close> and \<open>Go_Regexp\<close>: the encodings and the fixed regular expressions.
  \<^item> \<open>Domain_Model\<close>: the structs and enumerations of \<open>src/internal/domain\<close>.  \<open>Store_Tables\<close>, \<open>Store_Outbox\<close>,
    \<open>Store_Mail\<close>: the SQLite store (\<open>persistence/store.go\<close>) with its uniqueness constraints and cascades.
  \<^item> \<open>Ledger_Spec\<close>: the contract of one-time approvals as a locale, interpreted in \<open>Store_Outbox\<close> on the
    approvals table.  \<open>Sample_World\<close>: a concrete library, world and state for the witnesses.

  \<^bold>\<open>Sending\<close> (\<open>send.go\<close>, \<open>dlp.go\<close>, \<open>compose.go\<close>, \<open>scheduler.go\<close>, \<open>smtp/client.go\<close>).
  \<^item> \<open>Approvals\<close>: \<open>Issue\<close> and \<open>VerifyAndConsume\<close>; an issued token is used at most once, for its payload, in time.
  \<^item> \<open>Mask\<close>, \<open>Outgoing_Policy\<close>: the six detectors, the leak check, the send limits and the preview; the preview
    announces exactly the refusals that the send boundary makes.
  \<^item> \<open>Send_Mail\<close>: the MIME text, one delivery attempt, the outbox and the retry worker.  \<open>Outbox_Safety\<close>: one
    call of \<open>Send\<close>.  \<open>Outbox_Run\<close>: runs that interleave sends, retry rounds, approvals and everything else;
    outcomes are final, a delivery is bound to the previewed content, retries end.
    \<open>Send_Bounds\<close>: the backoff (with its wrap-around at 64 bits) and the rate limit.
  \<^item> \<open>Smtp_Client\<close>: the client over a server that is given by its answer to each step; the receipt is
    truthful, and with it the outbox never repeats a message that was accepted.

  \<^bold>\<open>Receiving\<close> (\<open>sync.go\<close>, \<open>sync_diagnostics.go\<close>, \<open>provider_diagnostics.go\<close>, \<open>pop3/client.go\<close>, \<open>imap/client.go\<close>).
  \<^item> \<open>Inbound\<close>: host and transport policy and the choice of the client.  \<open>Inbound_Error\<close>: error chains, the closed
    list of response codes, and the locale that states what the application relies on in a client,
    interpreted on both.
  \<^item> \<open>Pop3_Client\<close>: commands over a stream of lines.  Reading a listing ends after at most 1864137 lines whatever
    the server sends (a listing is charged at least 18 bytes a line against 33554432); reading a body has no
    bound in the source and is a partial function.
  \<^item> \<open>Imap_Stream\<close>, \<open>Imap_Client\<close>: lines, literals, framing and resynchronisation over a stream of bytes; a
    response keeps a bounded amount of text and literals.
  \<^item> \<open>Sync_Diagnostics\<close>, \<open>Sync_Connect\<close>: what an operator is told about a failed sync, the one to three attempts to
    connect, and what a failure does to the job and the account.
  \<^item> \<open>Sync_Jobs\<close>: starting and cancelling a sync, its lock, and the cleaning of stale jobs; one worker per account.
    \<open>Leader_Lease\<close> (\<open>app.go\<close>): the election of the node that runs the background work, over deployments of any
    number of nodes; one leader by right, and what the source does beyond it.
  \<^item> \<open>Mail_Ingest\<close>, \<open>Sync_Run\<close>: storing one message, the listing, the inbox and Sent loops and the counters.

  \<^bold>\<open>Mail at rest\<close> (\<open>query.go\<close>, \<open>delete.go\<close>, \<open>rules.go\<close>, \<open>attachment_policy.go\<close>, \<open>draft_attachments.go\<close>).
  \<^item> \<open>Rules_Engine\<close>: bulk updates, labels, local deletion and automation rules, under legal hold and ownership.
  \<^item> \<open>Server_Delete\<close>: deletion on the mail server under an approval.
  \<^item> \<open>Attachment_Scan\<close>: the scanner with its archive limits and the policy around any scanner (a locale).
  \<^item> \<open>Object_Store\<close>: the content-addressed store (a locale, interpreted on the database store here and on the
    encrypted one in \<open>Secret_Store\<close>).

  \<^bold>\<open>Identity and secrets\<close> (\<open>auth.go\<close>, \<open>oidc.go\<close>, \<open>mcp_oauth.go\<close>, \<open>mcp_oauth_proxy.go\<close>, \<open>accounts.go\<close>, \<open>mcppolicy.go\<close>,
  \<open>mcpscopes.go\<close>, \<open>crypto/envelope.go\<close>, \<open>secretstore/db.go\<close>, \<open>transport/httpapi\<close>).
  \<^item> \<open>Accounts\<close>: mail accounts and the secrets they use; every row stays well-formed, and a row is written only as
    the policy on hosts and transport admits it.
  \<^item> \<open>Sso_Identity\<close>: sign-in through an identity provider, from the sealed flow cookie to the session, which user an
    identity becomes, and the mail account that a policy gives it.
  \<^item> \<open>Mcp_Oauth\<close>: the settings of the OAuth resource, the check of an agent's access token and of a bearer token of the
    REST interface; a token gives no more than the administrator allows and the user granted.  \<open>Mcp_Oauth_Proxy\<close>: the
    authorization server that agents see, as runs over its endpoints in any order on any input.  What opens under a kind
    is assumed to have been sealed under that kind, and JSON to read back what it wrote; a list of everything sealed is
    carried along for the theorems only.  Tokens need the whole chain of consent, login, code and verifier.
  \<^item> \<open>Http_Gate\<close>: the door of the REST interface, from a request to the principal its handler sees; credentials,
    forgery of browser requests, and the reach of an agent's key.
  \<^item> \<open>Mcp_Policy\<close>: tools, roles, scopes and capability switches.
  \<^item> \<open>Identity\<close>, \<open>Auth_Service\<close>, \<open>Auth_Safety\<close>, \<open>Auth_Limits\<close>: users, passwords, sessions and keys; lockout, the last
    administrator, and no escalation through keys.  Sign-in through an identity provider is not a
    step of these runs; it is in \<open>Sso_Identity\<close>.
  \<^item> \<open>Key_Ring\<close>, \<open>Secret_Store\<close>: envelope encryption with rotation of the master key; the secret store refines
    a map from references to values over every run of its operations.

  \<^bold>\<open>Bounds and fuel.\<close>  No definition takes fuel.  Loops of the source that follow a list are structural; the
  loops over a server's answers are partial functions over streams with theorems on when they return.
  The scheduler's retries are runs, and the bound on attempts comes from the configuration.

  \<^bold>\<open>Not modelled.\<close>  Faults of the database driver and the file system; the PostgreSQL store (the same interface in another
  dialect); the HTTP and MCP transports behind the door (routing, cookies and JSON around the use cases); prompts to and
  answers from language models; the MIME parser and the HTML sanitiser (third-party packages, which are
  arguments where they are called); \<open>url.Parse\<close>, the token verifier of the identity provider and its endpoints (arguments too); full-text search; the command line and the web client.
  Concurrency is interleaving of whole use cases: two use cases that run at the same moment on one row are
  not modelled, except where the source's own locks make them one step.
\<close>

end
